(* ===== verification/Prelude.thy ===== *)
theory Prelude
  imports Main "HOL-Library.List_Lexorder" "HOL-Library.Char_ord" "HOL-Library.Sublist"
    "HOL-Library.Multiset" "HOL-Library.Option_ord" "HOL-Library.Product_Lexorder"
begin

text \<open>
  Shared material of the development: the parts of Go's standard library that the modelled
  code uses (three-way comparison, sorting, binary search, map insertion on association
  lists), the collections of simplification rules the component theories feed, and the
  interfaces of an equality test and of a three-way comparison, as locales, with what
  follows from their laws.

  Conventions. A Go pointer is an \<open>option\<close> (nil is \<open>None\<close>). A Go string is a
  \<open>string\<close>: a list of bytes, compared byte by byte, which is the order of
  \<open>List_Lexorder\<close>. A Go map whose iteration order can be observed is an association list
  with distinct keys: the order of the list is the order the runtime happens to iterate in,
  so a theorem about all such lists holds for every iteration order. An \<open>error\<close> result is
  the left side of a sum.
\<close>

subsection \<open>Collections of rules\<close>

named_theorems go_simps \<open>unfolding rules of the models of the standard library\<close>
named_theorems eq_simps \<open>characterisations of the Equal methods\<close>

subsection \<open>Results\<close>

fun result_bind :: "'e + 'a \<Rightarrow> ('a \<Rightarrow> 'e + 'b) \<Rightarrow> 'e + 'b" where
  "result_bind (Inl e) f = Inl e"
| "result_bind (Inr x) f = f x"

lemma result_bind_Inr_iff:
  "result_bind r f = Inr y \<longleftrightarrow> (\<exists>x. r = Inr x \<and> f x = Inr y)"
  by (cases r) auto

lemma result_bind_Inl_iff:
  "result_bind r f = Inl e \<longleftrightarrow> r = Inl e \<or> (\<exists>x. r = Inr x \<and> f x = Inl e)"
  by (cases r) auto

lemma result_bind_assoc: "result_bind (result_bind r f) g = result_bind r (\<lambda>x. result_bind (f x) g)"
  by (cases r) auto

text \<open>A loop that stops at the first error, as Go's early return does.\<close>

fun fold_result :: "('a \<Rightarrow> 's \<Rightarrow> 'e + 's) \<Rightarrow> 'a list \<Rightarrow> 's \<Rightarrow> 'e + 's" where
  "fold_result f [] s = Inr s"
| "fold_result f (x # xs) s = result_bind (f x s) (fold_result f xs)"

lemma fold_result_append:
  "fold_result f (xs @ ys) s = result_bind (fold_result f xs s) (fold_result f ys)"
proof (induction xs arbitrary: s)
  case Nil
  then show ?case by simp
next
  case (Cons x xs)
  then show ?case by (cases "f x s") simp_all
qed

lemma result_bind_Inr_right [simp]: "result_bind r Inr = r"
  by (cases r) auto

lemma fold_result_Nil [simp]: "fold_result f [] = Inr"
  by (rule ext) simp

lemma fold_result_snoc:
  "fold_result f (xs @ [x]) s = result_bind (fold_result f xs s) (f x)"
proof -
  have "result_bind r (fold_result f []) = r" for r
    by (cases r) auto
  then show ?thesis
    by (cases "fold_result f xs s") (auto simp: fold_result_append)
qed

lemma fold_result_invariant:
  assumes "fold_result f xs s = Inr s'" and "P s"
    and "\<And>x s s'. x \<in> set xs \<Longrightarrow> P s \<Longrightarrow> f x s = Inr s' \<Longrightarrow> P s'"
  shows "P s'"
  using assms
proof (induction xs arbitrary: s)
  case Nil
  then show ?case by simp
next
  case (Cons x xs)
  from Cons.prems(1) obtain t where t: "f x s = Inr t" "fold_result f xs t = Inr s'"
    by (auto simp: result_bind_Inr_iff)
  have "P t"
    using Cons.prems(2,3) t(1) by auto
  with t(2) show ?case
    by (rule Cons.IH) (use Cons.prems(3) in auto)
qed

text \<open>\<open>cmp.Or(x, d)\<close> on strings: the first argument that is not the zero value.\<close>

definition cmp_Or :: "string \<Rightarrow> string \<Rightarrow> string" where
  "cmp_Or x d = (if x = [] then d else x)"

subsection \<open>Maps as association lists\<close>

fun map_put :: "'k \<Rightarrow> 'v \<Rightarrow> ('k \<times> 'v) list \<Rightarrow> ('k \<times> 'v) list" where
  "map_put k v [] = [(k, v)]"
| "map_put k v ((k', v') # m) = (if k = k' then (k, v) # m else (k', v') # map_put k v m)"

lemma map_of_map_put [simp]: "map_of (map_put k v m) = (map_of m)(k \<mapsto> v)"
  by (induction k v m rule: map_put.induct) auto

lemma set_keys_map_put [simp]: "fst ` set (map_put k v m) = insert k (fst ` set m)"
  by (induction k v m rule: map_put.induct) auto

lemma distinct_map_put [simp]:
  "distinct (map fst m) \<Longrightarrow> distinct (map fst (map_put k v m))"
proof (induction k v m rule: map_put.induct)
  case (1 k v)
  then show ?case by simp
next
  case (2 k v k' v' m)
  have "k' \<notin> fst ` set (map_put k v m)" if "k \<noteq> k'"
    using 2 that by simp
  with 2 show ?case by auto
qed

lemma map_put_not_Nil [simp]: "map_put k v m \<noteq> []"
  by (cases m) (auto split: if_splits)

lemma case_option_False [go_simps]:
  "(case x of None \<Rightarrow> False | Some v \<Rightarrow> P v) \<longleftrightarrow> (\<exists>v. x = Some v \<and> P v)"
  by (cases x) auto

lemma case_option_True [go_simps]:
  "(case x of None \<Rightarrow> True | Some v \<Rightarrow> P v) \<longleftrightarrow> (\<forall>v. x = Some v \<longrightarrow> P v)"
  by (cases x) auto

end
