(* ===== verification/Values.thy ===== *)
theory Values
  imports Prelude "HOL-Library.Finite_Map"
begin

text \<open>
  Go values the program handles through \<open>any\<close>: what the JSON and YAML decoders produce. A map
  is a finite map, so equality of the model's values is \<open>reflect.DeepEqual\<close>, which ignores the
  order of map entries. Numbers are integers: no modelled operation computes with them.
  A slice or map that may be nil is an \<open>option\<close>; \<open>slice\<close> and \<open>gomap\<close> read it where Go does
  not tell nil from empty.
\<close>

datatype any =
    ANull
  | ABool bool
  | AInt int
  | AStr string
  | AList "any list"
  | AMap "(string, any) fmap"

definition slice :: "'a list option \<Rightarrow> 'a list" where
  "slice xs = (case xs of None \<Rightarrow> [] | Some ys \<Rightarrow> ys)"

definition gomap :: "('k, 'v) fmap option \<Rightarrow> ('k, 'v) fmap" where
  "gomap m = (case m of None \<Rightarrow> fmempty | Some n \<Rightarrow> n)"

lemma slice_simps [simp]: "slice None = []" "slice (Some xs) = xs"
  by (simp_all add: slice_def)

lemma gomap_simps [simp]: "gomap None = fmempty" "gomap (Some m) = m"
  by (simp_all add: gomap_def)

text \<open>The comma-ok type assertions \<open>v, _ := m[k].(string)\<close> and \<open>v.(map[string]any)\<close>.\<close>

fun any_string :: "any option \<Rightarrow> string" where
  "any_string (Some (AStr s)) = s"
| "any_string _ = []"

fun any_map :: "any option \<Rightarrow> (string, any) fmap option" where
  "any_map (Some (AMap m)) = Some m"
| "any_map _ = None"

lemma any_string_eq: "any_string v = (case v of Some (AStr s) \<Rightarrow> s | _ \<Rightarrow> [])"
  by (cases v rule: any_string.cases) auto

lemma fmap_eq_iff: "m = n \<longleftrightarrow> (\<forall>x. fmlookup m x = fmlookup n x)"
  by (auto intro: fmap_ext)

end
