(* ===== verification/ConfigMerge.thy ===== *)
theory ConfigMerge
  imports Values
begin

text \<open>
  \<open>merge\<close> of \<open>internal/config/merge.go\<close>: several configuration documents become one. Maps are
  merged key by key, anything else is replaced by the later value, and with \<open>conflictError\<close> a
  replacement that changes the value is an error that carries the path of the key. The keys
  are visited in sorted order. The recursion has fuel for the depth of the documents.
\<close>

type_synonym doc = "(string, any) fmap"

datatype merge_error = Conflict string | MergeOutOfFuel

definition sub_path :: "string \<Rightarrow> string \<Rightarrow> string" where
  "sub_path path key = path @ ''/'' @ key"

text \<open>The new value of a key of the result: \<open>rec\<close> is the merge of two maps.\<close>

definition merge_entry ::
    "(string \<Rightarrow> doc list \<Rightarrow> merge_error + doc) \<Rightarrow> bool \<Rightarrow> string \<Rightarrow> any option \<Rightarrow> any \<Rightarrow> merge_error + any" where
  "merge_entry rec conflictError path existing val =
     (case existing of
        None \<Rightarrow> Inr val
      | Some e \<Rightarrow>
          (case (e, val) of
             (AMap existingMap, AMap valueMap) \<Rightarrow>
               result_bind (rec path [existingMap, valueMap]) (\<lambda>m. Inr (AMap m))
           | _ \<Rightarrow> if conflictError \<and> e \<noteq> val then Inl (Conflict path) else Inr val))"

definition merge_key ::
    "(string \<Rightarrow> doc list \<Rightarrow> merge_error + doc) \<Rightarrow> bool \<Rightarrow> string \<Rightarrow> doc \<Rightarrow> string \<Rightarrow> doc \<Rightarrow> merge_error + doc" where
  "merge_key rec conflictError path doc key result =
     (case fmlookup doc key of
        None \<Rightarrow> Inr result
      | Some val \<Rightarrow>
          result_bind (merge_entry rec conflictError (sub_path path key) (fmlookup result key) val)
            (\<lambda>v. Inr (fmupd key v result)))"

definition merge_doc ::
    "(string \<Rightarrow> doc list \<Rightarrow> merge_error + doc) \<Rightarrow> bool \<Rightarrow> string \<Rightarrow> doc \<Rightarrow> doc \<Rightarrow> merge_error + doc" where
  "merge_doc rec conflictError path doc result =
     fold_result (merge_key rec conflictError path doc) (sorted_list_of_fset (fmdom doc)) result"

fun merge :: "nat \<Rightarrow> bool \<Rightarrow> string \<Rightarrow> doc list \<Rightarrow> merge_error + doc" where
  "merge 0 conflictError path docs = Inl MergeOutOfFuel"
| "merge (Suc fuel) conflictError path docs =
     fold_result (merge_doc (\<lambda>p ds. merge fuel conflictError p ds) conflictError path) docs fmempty"

text \<open>
  The depth of the maps in a value bounds the recursion; \<open>merge_docs\<close> is the call of \<open>Merge\<close>.
\<close>

primrec height :: "any \<Rightarrow> nat" where
  "height ANull = 0"
| "height (ABool b) = 0"
| "height (AInt i) = 0"
| "height (AStr s) = 0"
| "height (AList xs) = 0"
| "height (AMap m) = Suc (Max (insert 0 (fset (fmran (fmmap height m)))))"

definition merge_fuel :: "doc list \<Rightarrow> nat" where
  "merge_fuel docs = Suc (Max (insert 0 (set (map (height \<circ> AMap) docs))))"

definition merge_docs :: "bool \<Rightarrow> doc list \<Rightarrow> merge_error + doc" where
  "merge_docs conflictError docs = merge (merge_fuel docs) conflictError [] docs"

lemma height_child:
  assumes "fmlookup m k = Some v"
  shows "height v < height (AMap m)"
proof -
  have "height v \<in> fset (fmran (fmmap height m))"
    using assms by (simp add: fmranI)
  then have "height v \<le> Max (insert 0 (fset (fmran (fmmap height m))))"
    by (intro Max_ge) auto
  then show ?thesis by simp
qed

lemma height_AMap_pos: "0 < height (AMap m)" by simp

declare height.simps(6) [simp del]

lemma merge_fuel_doc: "d \<in> set docs \<Longrightarrow> height (AMap d) < merge_fuel docs"
  unfolding merge_fuel_def by (subst less_Suc_eq_le, intro Max_ge) auto

lemma distinct_sorted_list_of_fset [simp]: "distinct (sorted_list_of_fset S)"
  by (simp add: sorted_list_of_fset.rep_eq)

lemma set_sorted_list_of_fset [simp]: "set (sorted_list_of_fset S) = fset S"
  by (simp add: sorted_list_of_fset.rep_eq)

subsection \<open>One document onto the result\<close>

lemma fold_merge_key:
  assumes "distinct ks"
  shows "fold_result (merge_key rec c path doc) ks r = Inr r' \<longleftrightarrow>
    (\<forall>k. if k \<in> set ks \<and> fmlookup doc k \<noteq> None
         then \<exists>v. merge_entry rec c (sub_path path k) (fmlookup r k) (the (fmlookup doc k)) = Inr v \<and>
                fmlookup r' k = Some v
         else fmlookup r' k = fmlookup r k)"
  using assms
proof (induction ks arbitrary: r)
  case Nil
  then show ?case by (auto simp: fmap_eq_iff)
next
  case (Cons k ks)
  show ?case
  proof (cases "fmlookup doc k")
    case None
    with Cons show ?thesis by (auto simp: merge_key_def)
  next
    case (Some val)
    show ?thesis
    proof (cases "merge_entry rec c (sub_path path k) (fmlookup r k) val")
      case (Inl e)
      then have no: "fold_result (merge_key rec c path doc) (k # ks) r \<noteq> Inr r'"
        by (simp add: merge_key_def Some)
      have "\<not> (\<exists>v. merge_entry rec c (sub_path path k) (fmlookup r k) (the (fmlookup doc k)) = Inr v \<and>
          fmlookup r' k = Some v)"
        using Inl Some by simp
      with no Some show ?thesis by (metis list.set_intros(1) option.distinct(1))
    next
      case (Inr v)
      have "fold_result (merge_key rec c path doc) (k # ks) r = Inr r' \<longleftrightarrow>
          fold_result (merge_key rec c path doc) ks (fmupd k v r) = Inr r'"
        by (simp add: merge_key_def Some Inr)
      also have "\<dots> \<longleftrightarrow>
         (\<forall>j. if j \<in> set ks \<and> fmlookup doc j \<noteq> None
         then \<exists>v'. merge_entry rec c (sub_path path j) (fmlookup (fmupd k v r) j) (the (fmlookup doc j)) = Inr v' \<and>
                fmlookup r' j = Some v'
         else fmlookup r' j = fmlookup (fmupd k v r) j)"
          using Cons.prems by (intro Cons.IH) simp
      also have "\<dots> \<longleftrightarrow>
         (\<forall>j. if j \<in> set (k # ks) \<and> fmlookup doc j \<noteq> None
         then \<exists>v. merge_entry rec c (sub_path path j) (fmlookup r j) (the (fmlookup doc j)) = Inr v \<and>
                fmlookup r' j = Some v
         else fmlookup r' j = fmlookup r j)"
      proof (rule all_cong1)
        fix j
        show "(if j \<in> set ks \<and> fmlookup doc j \<noteq> None
           then \<exists>v'. merge_entry rec c (sub_path path j) (fmlookup (fmupd k v r) j) (the (fmlookup doc j)) = Inr v' \<and>
                fmlookup r' j = Some v'
           else fmlookup r' j = fmlookup (fmupd k v r) j) \<longleftrightarrow>
          (if j \<in> set (k # ks) \<and> fmlookup doc j \<noteq> None
           then \<exists>v. merge_entry rec c (sub_path path j) (fmlookup r j) (the (fmlookup doc j)) = Inr v \<and>
                fmlookup r' j = Some v
           else fmlookup r' j = fmlookup r j)"
          using Cons.prems Inr Some by (cases "j = k") auto
      qed
      finally show ?thesis .
    qed
  qed
qed

lemma merge_doc_Inr:
  "merge_doc rec c path doc r = Inr r' \<longleftrightarrow>
    (\<forall>k. case fmlookup doc k of
       None \<Rightarrow> fmlookup r' k = fmlookup r k
     | Some val \<Rightarrow> \<exists>v. merge_entry rec c (sub_path path k) (fmlookup r k) val = Inr v \<and>
         fmlookup r' k = Some v)"
  unfolding merge_doc_def
  by (subst fold_merge_key) (auto simp: fmlookup_dom_iff split: option.splits)

lemma merge_doc_total:
  assumes "\<And>k val. fmlookup doc k = Some val \<Longrightarrow>
      \<exists>v. merge_entry rec c (sub_path path k) (fmlookup r k) val = Inr v"
  shows "\<exists>r'. merge_doc rec c path doc r = Inr r'"
proof -
  define res where "res k val = projr (merge_entry rec c (sub_path path k) (fmlookup r k) val)" for k val
  have "merge_doc rec c path doc r = Inr (fmadd r (fmmap_keys res doc))"
    unfolding merge_doc_Inr
  proof (intro allI)
    fix k
    show "case fmlookup doc k of
        None \<Rightarrow> fmlookup (fmadd r (fmmap_keys res doc)) k = fmlookup r k
      | Some val \<Rightarrow> \<exists>v. merge_entry rec c (sub_path path k) (fmlookup r k) val = Inr v \<and>
          fmlookup (fmadd r (fmmap_keys res doc)) k = Some v"
    proof (cases "fmlookup doc k")
      case None
      then show ?thesis by (simp add: fmdom_notI)
    next
      case (Some val)
      from assms [OF Some] obtain v where
        "merge_entry rec c (sub_path path k) (fmlookup r k) val = Inr v" by blast
      with Some show ?thesis by (simp add: res_def fmdomI)
    qed
  qed
  then show ?thesis by blast
qed

text \<open>The first failing key is the error of the whole document.\<close>

lemma merge_doc_Inl:
  assumes "merge_doc rec c path doc r = Inl e"
  shows "\<exists>k val. fmlookup doc k = Some val \<and>
    merge_entry rec c (sub_path path k) (fmlookup r k) val = Inl e"
proof -
  have "\<exists>k \<in> set ks. \<exists>val. fmlookup doc k = Some val \<and>
      merge_entry rec c (sub_path path k) (fmlookup r k) val = Inl e"
    if "fold_result (merge_key rec c path doc) ks r = Inl e" "distinct ks" for ks
    using that
  proof (induction ks arbitrary: r)
    case (Cons k ks)
    then show ?case
    proof (cases "merge_key rec c path doc k r")
      case (Inl e')
      with Cons.prems have "merge_key rec c path doc k r = Inl e" by simp
      then show ?thesis
        by (auto simp: merge_key_def result_bind_Inl_iff split: option.splits)
    next
      case (Inr r1)
      with Cons.prems have "fold_result (merge_key rec c path doc) ks r1 = Inl e" by simp
      with Cons.IH [of r1] Cons.prems(2) obtain j val where j: "j \<in> set ks" "fmlookup doc j = Some val"
        "merge_entry rec c (sub_path path j) (fmlookup r1 j) val = Inl e" by auto
      moreover have "fmlookup r1 j = fmlookup r j"
        using Inr j(1) Cons.prems(2)
        by (auto simp: merge_key_def result_bind_Inr_iff split: option.splits)
      ultimately show ?thesis by auto
    qed
  qed simp
  from this [of "sorted_list_of_fset (fmdom doc)"] assms show ?thesis
    unfolding merge_doc_def by auto
qed

subsection \<open>The contents of a document\<close>

text \<open>
  What a document says about a path of keys: nothing, that a map is there, or a leaf.
\<close>

datatype shape = Node | Leaf any

fun shape_of :: "any \<Rightarrow> shape" where
  "shape_of (AMap m) = Node"
| "shape_of v = Leaf v"

fun look :: "any \<Rightarrow> string list \<Rightarrow> shape option" where
  "look v [] = Some (shape_of v)"
| "look (AMap m) (k # ks) = (case fmlookup m k of None \<Rightarrow> None | Some v \<Rightarrow> look v ks)"
| "look v (k # ks) = None"

lemma shape_of_Leaf_iff: "shape_of v = Leaf w \<longleftrightarrow> v = w \<and> (\<forall>m. v \<noteq> AMap m)"
  by (cases v) auto

lemma shape_of_Node_iff: "shape_of v = Node \<longleftrightarrow> (\<exists>m. v = AMap m)"
  by (cases v) auto

lemma look_Leaf_Cons: "\<forall>m. v \<noteq> AMap m \<Longrightarrow> look v (k # ks) = None"
  by (cases v) auto

lemma look_inject_leaf:
  assumes "\<And>p. look v p = look w p" and "\<forall>m. v \<noteq> AMap m"
  shows "v = w"
proof -
  have "shape_of v = shape_of w"
    using assms(1) [of "[]"] by simp
  with assms(2) show ?thesis by (cases v; cases w) auto
qed

lemma look_inject:
  assumes "\<And>p. look v p = look w p"
  shows "v = w"
  using assms
proof (induction v arbitrary: w)
  case (AMap m)
  from AMap.prems [of "[]"] obtain n where w: "w = AMap n"
    by (cases w) auto
  have "fmlookup m k = fmlookup n k" for k
  proof (cases "fmlookup m k")
    case None
    with AMap.prems [of "[k]"] w show ?thesis by (auto split: option.splits)
  next
    case (Some x)
    with AMap.prems [of "[k]"] w obtain y where y: "fmlookup n k = Some y"
      by (auto split: option.splits)
    have "look x p = look y p" for p
      using AMap.prems [of "k # p"] w Some y by simp
    then have "x = y"
      by (rule AMap.IH [OF fmran'I [OF Some]])
    with Some y show ?thesis by simp
  qed
  with w show ?case by (simp add: fmap_eq_iff)
qed (rule look_inject_leaf, simp_all)+

text \<open>
  A later view takes the place of an earlier one: what it says holds, below its leaves nothing
  is left, and everything else stays. Two views agree when they never say different things.
\<close>

definition override ::
    "(string list \<Rightarrow> shape option) \<Rightarrow> (string list \<Rightarrow> shape option) \<Rightarrow> string list \<Rightarrow> shape option" where
  "override f g p =
     (case g p of
        Some s \<Rightarrow> Some s
      | None \<Rightarrow> if \<exists>q v. prefix q p \<and> g q = Some (Leaf v) then None else f p)"

definition agree ::
    "(string list \<Rightarrow> shape option) \<Rightarrow> (string list \<Rightarrow> shape option) \<Rightarrow> bool" where
  "agree f g \<longleftrightarrow> (\<forall>p s t. f p = Some s \<and> g p = Some t \<longrightarrow> s = t)"

lemma agree_refl [simp]: "agree f f"
  by (auto simp: agree_def)

lemma look_agree_not_maps:
  assumes "\<not> (\<exists>m n. e = AMap m \<and> v = AMap n)"
  shows "agree (look e) (look v) \<longleftrightarrow> e = v"
proof
  assume "agree (look e) (look v)"
  then have "shape_of e = shape_of v"
    unfolding agree_def by (metis look.simps(1))
  with assms show "e = v" by (cases e; cases v) auto
qed simp

lemma look_override_not_maps:
  assumes "\<not> (\<exists>m n. e = AMap m \<and> v = AMap n)"
  shows "override (look e) (look v) = look v"
proof
  fix p
  show "override (look e) (look v) p = look v p"
  proof (cases p)
    case Nil
    then show ?thesis by (simp add: override_def)
  next
    case (Cons k ks)
    show ?thesis
    proof (cases "\<exists>n. v = AMap n")
      case True
      with assms have "look e p = None"
        by (auto simp: Cons intro: look_Leaf_Cons)
      then show ?thesis by (auto simp: override_def split: option.splits)
    next
      case False
      then have "look v [] = Some (Leaf v)"
        by (simp add: shape_of_Leaf_iff)
      then have "\<exists>q w. prefix q p \<and> look v q = Some (Leaf w)"
        using Nil_prefix by blast
      then show ?thesis
        by (simp add: override_def split: option.split)
    qed
  qed
qed

lemma look_agree_maps:
  "agree (look (AMap a)) (look (AMap b)) \<longleftrightarrow>
    (\<forall>k x y. fmlookup a k = Some x \<and> fmlookup b k = Some y \<longrightarrow> agree (look x) (look y))"
  (is "?L \<longleftrightarrow> ?R")
proof
  assume L: ?L
  show ?R
  proof (intro allI impI, unfold agree_def, intro allI impI)
    fix k x y p s t
    assume "fmlookup a k = Some x \<and> fmlookup b k = Some y" "look x p = Some s \<and> look y p = Some t"
    then have "look (AMap a) (k # p) = Some s" "look (AMap b) (k # p) = Some t" by simp_all
    with L show "s = t" unfolding agree_def by blast
  qed
next
  assume R: ?R
  show ?L
  proof (unfold agree_def, intro allI impI)
    fix p s t
    assume st: "look (AMap a) p = Some s \<and> look (AMap b) p = Some t"
    show "s = t"
    proof (cases p)
      case Nil
      with st show ?thesis by auto
    next
      case (Cons k ks)
      with st obtain x y where "fmlookup a k = Some x" "fmlookup b k = Some y"
        "look x ks = Some s" "look y ks = Some t"
        by (auto split: option.splits)
      with R show ?thesis unfolding agree_def by blast
    qed
  qed
qed

lemma look_override_maps:
  "override (look (AMap a)) (look (AMap b)) [] = Some Node"
  "override (look (AMap a)) (look (AMap b)) (k # ks) =
    (case fmlookup b k of
       None \<Rightarrow> look (AMap a) (k # ks)
     | Some y \<Rightarrow> (case fmlookup a k of None \<Rightarrow> look y ks | Some x \<Rightarrow> override (look x) (look y) ks))"
  by (auto simp: override_def prefix_Cons split: option.splits)

subsection \<open>Merging is overriding\<close>

primrec key_path :: "string list \<Rightarrow> string" where
  "key_path [] = []"
| "key_path (k # ks) = sub_path [] k @ key_path ks"

lemma sub_path_key_path: "sub_path p k @ key_path q = p @ key_path (k # q)"
  by (simp add: sub_path_def)

lemma merge_doc_fmempty: "merge_doc rec c p d fmempty = Inr d"
  by (auto simp: merge_doc_Inr merge_entry_def split: option.splits)

lemma merge_pair:
  "merge (Suc f) c p [a, b] = merge_doc (merge f c) c p b a"
  by (simp add: merge_doc_fmempty)

definition clash :: "any \<Rightarrow> any \<Rightarrow> string list \<Rightarrow> bool" where
  "clash v w p \<longleftrightarrow> (\<exists>s t. look v p = Some s \<and> look w p = Some t \<and> s \<noteq> t)"

lemma clash_Cons:
  assumes "fmlookup a k = Some x" "fmlookup b k = Some y" "clash x y q"
  shows "clash (AMap a) (AMap b) (k # q)"
  using assms by (simp add: clash_def)

definition merged :: "bool \<Rightarrow> string \<Rightarrow> any \<Rightarrow> any \<Rightarrow> merge_error + any \<Rightarrow> bool" where
  "merged c p v w r \<longleftrightarrow>
     (case r of
        Inr m \<Rightarrow> look m = override (look v) (look w) \<and> (c \<longrightarrow> agree (look v) (look w))
      | Inl e \<Rightarrow> c \<and> (\<exists>q. e = Conflict (p @ key_path q) \<and> clash v w q))"

lemma merge_entry_merged:
  assumes "\<And>x y. e = AMap x \<Longrightarrow> v = AMap y \<Longrightarrow>
      merged c p e v (map_sum id AMap (rec p [x, y]))"
  shows "merged c p e v (merge_entry rec c p (Some e) v)"
proof (cases "\<exists>x y. e = AMap x \<and> v = AMap y")
  case True
  then obtain x y where xy: "e = AMap x" "v = AMap y" by blast
  then have "merge_entry rec c p (Some e) v = map_sum id AMap (rec p [x, y])"
    by (cases "rec p [x, y]") (simp_all add: merge_entry_def)
  with assms [OF xy] show ?thesis by simp
next
  case False
  then have m: "merge_entry rec c p (Some e) v = (if c \<and> e \<noteq> v then Inl (Conflict p) else Inr v)"
    by (cases e; cases v) (simp_all add: merge_entry_def)
  have "clash e v []" if "e \<noteq> v"
    using False that by (cases e; cases v) (simp_all add: clash_def)
  then have "c \<and> e \<noteq> v \<Longrightarrow> \<exists>q. Conflict p = Conflict (p @ key_path q) \<and> clash e v q"
    by (metis append_Nil2 key_path.simps(1))
  then show ?thesis
    using look_override_not_maps [OF False] look_agree_not_maps [OF False]
    by (auto simp: m merged_def)
qed

lemma merge_doc_merged_step:
  assumes entry: "\<And>k x y. fmlookup b k = Some y \<Longrightarrow> fmlookup a k = Some x \<Longrightarrow>
      merged c (sub_path p k) x y (merge_entry rec c (sub_path p k) (Some x) y)"
  shows "merged c p (AMap a) (AMap b) (map_sum id AMap (merge_doc rec c p b a))"
proof (cases "merge_doc rec c p b a")
  case (Inl e)
  from merge_doc_Inl [OF this] obtain k y where
    ky: "fmlookup b k = Some y" "merge_entry rec c (sub_path p k) (fmlookup a k) y = Inl e" by blast
  then obtain x where x: "fmlookup a k = Some x"
    by (cases "fmlookup a k") (auto simp: merge_entry_def)
  from entry [OF ky(1) x] ky(2) obtain q where
    "c" "e = Conflict (sub_path p k @ key_path q)" "clash x y q"
    by (auto simp: merged_def x)
  then have "c \<and> e = Conflict (p @ key_path (k # q)) \<and> clash (AMap a) (AMap b) (k # q)"
    using clash_Cons [OF x ky(1)] by (simp only: sub_path_key_path)
  then have "\<exists>q. e = Conflict (p @ key_path q) \<and> clash (AMap a) (AMap b) q" by blast
  with \<open>c\<close> show ?thesis
    unfolding merged_def Inl by simp
next
  case (Inr m)
  note m = Inr [unfolded merge_doc_Inr, rule_format]
  have both: "\<exists>z. fmlookup m k = Some z \<and> look z = override (look x) (look y) \<and> (c \<longrightarrow> agree (look x) (look y))"
    if "fmlookup a k = Some x" "fmlookup b k = Some y" for k x y
    using m [of k] entry [OF that(2,1)] that by (auto simp: merged_def)
  have one: "fmlookup m k = Some y" if "fmlookup a k = None" "fmlookup b k = Some y" for k y
    using m [of k] that by (auto simp: merge_entry_def)
  have none: "fmlookup m k = fmlookup a k" if "fmlookup b k = None" for k
    using m [of k] that by simp
  have "look (AMap m) q = override (look (AMap a)) (look (AMap b)) q" for q
  proof (cases q)
    case Nil
    then show ?thesis by (simp add: look_override_maps)
  next
    case (Cons k ks)
    show ?thesis
    proof (cases "fmlookup b k")
      case None
      then show ?thesis by (simp add: Cons look_override_maps none)
    next
      case (Some y)
      then show ?thesis
        using both [OF _ Some] one [OF _ Some]
        by (cases "fmlookup a k") (auto simp: Cons look_override_maps)
    qed
  qed
  moreover have "c \<longrightarrow> agree (look (AMap a)) (look (AMap b))"
    unfolding look_agree_maps using both by blast
  ultimately show ?thesis
    by (auto simp: Inr merged_def)
qed

lemma merge_doc_merged:
  assumes "height (AMap b) \<le> Suc f"
  shows "merged c p (AMap a) (AMap b) (map_sum id AMap (merge_doc (merge f c) c p b a))"
  using assms
proof (induction f arbitrary: a b p rule: less_induct)
  case (less f)
  show ?case
  proof (rule merge_doc_merged_step, rule merge_entry_merged)
    fix k x y a' b'
    assume b: "fmlookup b k = Some y" and a: "fmlookup a k = Some x" and "x = AMap a'" and y: "y = AMap b'"
    have "height (AMap b') < Suc f"
      using height_child [OF b] less.prems unfolding y by (rule less_le_trans)
    moreover note height_AMap_pos [of b']
    ultimately obtain g where g: "f = Suc g" and h: "height (AMap b') \<le> Suc g"
      by (cases f) (simp_all only: less_Suc_eq_le le_zero_eq)
    have "merged c (sub_path p k) (AMap a') (AMap b') (map_sum id AMap (merge_doc (merge g c) c (sub_path p k) b' a'))"
      using h by (intro less.IH) (simp_all only: g lessI)
    then show "merged c (sub_path p k) x y (map_sum id AMap (merge f c (sub_path p k) [a', b']))"
      by (simp only: g merge_pair \<open>x = AMap a'\<close> y)
  qed
qed

text \<open>What a sequence of documents says, the later over the earlier.\<close>

definition contents :: "doc list \<Rightarrow> string list \<Rightarrow> shape option" where
  "contents docs = foldl override (look (AMap fmempty)) (map (look \<circ> AMap) docs)"

lemma override_Some:
  "override f g q = Some s \<Longrightarrow> f q = Some s \<or> g q = Some s"
  by (auto simp: override_def split: option.splits if_splits)

text \<open>Without a disagreement, no leaf of the later view is above anything of the earlier one.\<close>

lemma look_prefix_Leaf:
  assumes "prefix q p" "q \<noteq> p" "look v p \<noteq> None"
  shows "look v q = Some Node"
  using assms
proof (induction q arbitrary: v p)
  case Nil
  then show ?case by (cases p; cases v) auto
next
  case (Cons k q)
  then obtain p' where p: "p = k # p'" "prefix q p'" "q \<noteq> p'"
    by (cases p) auto
  with Cons.prems(3) obtain m x where "v = AMap m" "fmlookup m k = Some x" "look x p' \<noteq> None"
    by (cases v) (auto split: option.splits)
  with Cons.IH [of p' x] p show ?case by simp
qed

lemma override_agree:
  assumes "agree (look v) (look w)"
  shows "override (look v) (look w) q = Some s \<longleftrightarrow> look v q = Some s \<or> look w q = Some s"
proof
  assume "look v q = Some s \<or> look w q = Some s"
  then show "override (look v) (look w) q = Some s"
  proof
    assume "look w q = Some s"
    then show ?thesis by (simp add: override_def)
  next
    assume v: "look v q = Some s"
    show ?thesis
    proof (cases "look w q")
      case None
      have "\<not> (\<exists>p x. prefix p q \<and> look w p = Some (Leaf x))"
      proof
        assume "\<exists>p x. prefix p q \<and> look w p = Some (Leaf x)"
        then obtain p x where p: "prefix p q" "look w p = Some (Leaf x)" by blast
        moreover from this None have "p \<noteq> q" by auto
        ultimately have "look v p = Some Node"
          using look_prefix_Leaf [of p q v] v by simp
        with p(2) assms show False unfolding agree_def by blast
      qed
      with None v show ?thesis unfolding override_def by (auto split: option.split)
    next
      case (Some t)
      with v assms have "s = t" unfolding agree_def by blast
      with Some show ?thesis by (simp add: override_def)
    qed
  qed
qed (rule override_Some)

definition all_agree :: "doc list \<Rightarrow> bool" where
  "all_agree ds \<longleftrightarrow> (\<forall>d \<in> set ds. \<forall>d' \<in> set ds. agree (look (AMap d)) (look (AMap d')))"

lemma agree_sym: "agree f g \<Longrightarrow> agree g f"
  unfolding agree_def by metis

lemma all_agree_override:
  assumes m: "look (AMap m) = override (look (AMap r)) (look (AMap d))"
    and "agree (look (AMap r)) (look (AMap d))"
  shows "all_agree (m # ds) \<longleftrightarrow> all_agree (r # d # ds)"
proof -
  note u = override_agree [OF assms(2), folded m]
  have "agree (look (AMap m)) g \<longleftrightarrow> agree (look (AMap r)) g \<and> agree (look (AMap d)) g" for g
    unfolding agree_def u by blast
  then show ?thesis
    using assms(2) agree_sym unfolding all_agree_def by (auto simp del: look.simps)
qed

lemma fold_merge_doc:
  assumes "\<And>d. d \<in> set docs \<Longrightarrow> height (AMap d) \<le> Suc f"
  shows "case fold_result (merge_doc (merge f c) c p) docs r of
      Inr m \<Rightarrow> look (AMap m) = foldl override (look (AMap r)) (map (look \<circ> AMap) docs) \<and>
        (c \<longrightarrow> all_agree (r # docs) \<and>
          (\<forall>q s. look (AMap m) q = Some s \<longleftrightarrow> (\<exists>d \<in> set (r # docs). look (AMap d) q = Some s)))
    | Inl e \<Rightarrow> c \<and> (\<exists>q. e = Conflict (p @ key_path q) \<and>
        (\<exists>d \<in> set (r # docs). \<exists>d' \<in> set docs. clash (AMap d) (AMap d') q))"
  using assms
proof (induction docs arbitrary: r)
  case Nil
  then show ?case by (simp add: all_agree_def del: look.simps)
next
  case (Cons d docs)
  have "merged c p (AMap r) (AMap d) (map_sum id AMap (merge_doc (merge f c) c p d r))"
    by (intro merge_doc_merged) (rule Cons.prems, simp)
  note step = this [unfolded merged_def]
  show ?case
  proof (cases "merge_doc (merge f c) c p d r")
    case (Inl e)
    with step show ?thesis by (auto simp del: look.simps)
  next
    case (Inr m)
    with step have m: "look (AMap m) = override (look (AMap r)) (look (AMap d))"
      and ag: "c \<longrightarrow> agree (look (AMap r)) (look (AMap d))" by simp_all
    have IH: "case fold_result (merge_doc (merge f c) c p) docs m of
      Inr m' \<Rightarrow> look (AMap m') = foldl override (look (AMap m)) (map (look \<circ> AMap) docs) \<and>
        (c \<longrightarrow> all_agree (m # docs) \<and>
          (\<forall>q s. look (AMap m') q = Some s \<longleftrightarrow> (\<exists>d \<in> set (m # docs). look (AMap d) q = Some s)))
    | Inl e \<Rightarrow> c \<and> (\<exists>q. e = Conflict (p @ key_path q) \<and>
        (\<exists>d \<in> set (m # docs). \<exists>d' \<in> set docs. clash (AMap d) (AMap d') q))"
      by (intro Cons.IH) (rule Cons.prems, simp)
    show ?thesis
    proof (cases "fold_result (merge_doc (merge f c) c p) docs m")
      case (Inl e)
      with IH obtain q d1 d2 where q: "c" "e = Conflict (p @ key_path q)"
        and dd: "d1 \<in> set (m # docs)" "d2 \<in> set docs" "clash (AMap d1) (AMap d2) q" by auto
      have "\<exists>d' \<in> set (r # d # docs). clash (AMap d') (AMap d2) q"
      proof (cases "d1 = m")
        case True
        with dd(3) obtain s t where "look (AMap m) q = Some s" "look (AMap d2) q = Some t" "s \<noteq> t"
          unfolding clash_def by blast
        then show ?thesis
          using override_Some [of "look (AMap r)" "look (AMap d)" q s]
          by (auto simp: m clash_def simp del: look.simps)
      next
        case False
        with dd show ?thesis by auto
      qed
      with q dd(2) Inl \<open>merge_doc (merge f c) c p d r = Inr m\<close> show ?thesis by auto
    next
      case (Inr m')
      have "(\<exists>x \<in> set (m # docs). look (AMap x) q = Some s) \<longleftrightarrow>
          (\<exists>x \<in> set (r # d # docs). look (AMap x) q = Some s)" if c for q s
        using override_agree [of "AMap r" "AMap d"] ag that by (simp add: m del: look.simps)
      moreover note IH [unfolded Inr sum.case]
      from this have "look (AMap m') = foldl override (look (AMap m)) (map (look \<circ> AMap) docs)"
        and "c \<Longrightarrow> all_agree (m # docs)"
        and "\<And>q s. c \<Longrightarrow> look (AMap m') q = Some s \<longleftrightarrow> (\<exists>d \<in> set (m # docs). look (AMap d) q = Some s)"
        by blast+
      ultimately show ?thesis
        using ag all_agree_override [OF m]
        by (simp add: Inr \<open>merge_doc (merge f c) c p d r = Inr m\<close> flip: m del: look.simps)
    qed
  qed
qed

subsection \<open>Enough fuel\<close>

lemma fold_result_cong:
  assumes "\<And>x s. x \<in> set xs \<Longrightarrow> f x s = g x s"
  shows "fold_result f xs s = fold_result g xs s"
  using assms
proof (induction xs arbitrary: s)
  case (Cons x xs)
  then show ?case by (cases "g x s") auto
qed simp

lemma merge_doc_fuel:
  assumes "height (AMap d) \<le> Suc f" "f \<le> g"
  shows "merge_doc (merge f c) c p d r = merge_doc (merge g c) c p d r"
  using assms
proof (induction f arbitrary: d g p r rule: less_induct)
  case (less f)
  have "merge_entry (merge f c) c (sub_path p k) e y = merge_entry (merge g c) c (sub_path p k) e y"
    if y: "fmlookup d k = Some y" for k e y
  proof (cases "\<exists>a b. e = Some (AMap a) \<and> y = AMap b")
    case True
    then obtain a b where ab: "e = Some (AMap a)" "y = AMap b" by blast
    have "height (AMap b) < Suc f"
      using height_child [OF y] less.prems(1) unfolding ab by (rule less_le_trans)
    moreover note height_AMap_pos [of b]
    ultimately obtain f' g' where fg: "f = Suc f'" "g = Suc g'" "height (AMap b) \<le> Suc f'" "f' \<le> g'"
      using less.prems(2) by (cases f; cases g) (simp_all only: less_Suc_eq_le le_zero_eq Suc_le_mono)
    then have "merge f c (sub_path p k) [a, b] = merge g c (sub_path p k) [a, b]"
      using less.IH [of f' b g'] by (simp only: merge_pair lessI)
    then show ?thesis by (simp add: merge_entry_def ab)
  next
    case False
    then show ?thesis
      by (cases e; cases "the e"; cases y) (simp_all add: merge_entry_def)
  qed
  then show ?case
    unfolding merge_doc_def
    by (intro fold_result_cong) (simp add: merge_key_def split: option.split)
qed

text \<open>
  Merging configuration documents ends, because the recursion goes one map deeper each
  time: with as much fuel as the deepest document, more changes nothing, and the bound is
  never reported.
\<close>

theorem merge_fuel_enough:
  "merge (merge_fuel docs + n) conflictError path docs = merge (merge_fuel docs) conflictError path docs \<and>
    merge (merge_fuel docs) conflictError path docs \<noteq> Inl MergeOutOfFuel"
proof -
  obtain f where f: "merge_fuel docs = Suc f" by (simp add: merge_fuel_def)
  have h: "height (AMap d) \<le> Suc f" if "d \<in> set docs" for d
    using merge_fuel_doc [OF that] f by simp
  have "merge (Suc (f + n)) conflictError path docs = merge (Suc f) conflictError path docs"
    unfolding merge.simps
    by (rule fold_result_cong, rule sym, rule merge_doc_fuel, erule h, rule le_add1)
  moreover have "merge (Suc f) conflictError path docs \<noteq> Inl MergeOutOfFuel"
    using fold_merge_doc [OF h, of docs conflictError path fmempty] by (auto simp del: look.simps)
  ultimately show ?thesis by (simp add: f)
qed

subsection \<open>Merging documents\<close>

lemma look_fmempty: "look (AMap fmempty) q = Some s \<longleftrightarrow> q = [] \<and> s = Node"
  by (cases q) auto

lemma option_eq_Some_cong: "(\<And>s. x = Some s \<longleftrightarrow> y = Some s) \<Longrightarrow> x = y"
  by (cases x; cases y) auto

lemma merge_docs_cases:
  "case merge_docs c docs of
      Inr m \<Rightarrow> look (AMap m) = contents docs \<and>
        (c \<longrightarrow> all_agree docs \<and>
          (\<forall>q s. look (AMap m) q = Some s \<longleftrightarrow> (\<exists>d \<in> set (fmempty # docs). look (AMap d) q = Some s)))
    | Inl e \<Rightarrow> c \<and> (\<exists>q. e = Conflict (key_path q) \<and>
        (\<exists>d \<in> set docs. \<exists>d' \<in> set docs. clash (AMap d) (AMap d') q))"
proof -
  obtain f where f: "merge_fuel docs = Suc f" by (simp add: merge_fuel_def)
  have h: "height (AMap d) \<le> Suc f" if "d \<in> set docs" for d
    using merge_fuel_doc [OF that] f by simp
  have m: "merge_docs c docs = fold_result (merge_doc (merge f c) c []) docs fmempty"
    by (simp add: merge_docs_def f)
  have no: "\<not> clash (AMap fmempty) (AMap d) q" for d q
    by (cases q) (simp_all add: clash_def)
  show ?thesis
  proof (cases "merge_docs c docs")
    case (Inl e)
    then show ?thesis
      using fold_merge_doc [OF h, of docs c "[]" fmempty] no
      by (auto simp: m [symmetric] simp del: look.simps)
  next
    case (Inr r)
    note fold_merge_doc [OF h, of docs c "[]" fmempty, folded m, unfolded Inr sum.case]
    then show ?thesis
      unfolding Inr sum.case contents_def all_agree_def by (auto simp del: look.simps)
  qed
qed

lemma all_agree_no_clash:
  "all_agree docs \<Longrightarrow> d \<in> set docs \<Longrightarrow> d' \<in> set docs \<Longrightarrow> \<not> clash (AMap d) (AMap d') q"
  unfolding all_agree_def agree_def clash_def by blast

text \<open>
  C5: The merged configuration says what its documents say, the later over the earlier: a later
  leaf replaces whatever the earlier documents had at and below its path, a later map is merged
  into an earlier map, and nothing else changes. Without \<open>conflictError\<close> merging never fails;
  with it, it succeeds exactly when no two documents say different things about a path of keys,
  and the error names a path about which two of the documents differ.
\<close>

theorem merge_docs_contents:
  "((\<exists>m. merge_docs conflictError docs = Inr m) \<longleftrightarrow> (conflictError \<longrightarrow> all_agree docs)) \<and>
    (case merge_docs conflictError docs of
       Inr m \<Rightarrow> look (AMap m) = contents docs
     | Inl e \<Rightarrow> \<exists>q. e = Conflict (key_path q) \<and>
         (\<exists>d \<in> set docs. \<exists>d' \<in> set docs. clash (AMap d) (AMap d') q))"
  using merge_docs_cases [of conflictError docs] all_agree_no_clash [of docs]
  by (auto split: sum.splits simp del: look.simps)

lemma merge_docs_contents_witness:
  "(\<nexists>m. merge_docs True [fmupd ''a'' (AInt 1) fmempty, fmupd ''a'' (AInt 2) fmempty] = Inr m) \<and>
   (\<exists>m. merge_docs False [fmupd ''a'' (AInt 1) fmempty, fmupd ''a'' (AInt 2) fmempty] = Inr m \<and>
      look (AMap m) [''a''] = Some (Leaf (AInt 2)))" (is "?F \<and> ?S")
proof
  have "clash (AMap (fmupd ''a'' (AInt 1) fmempty)) (AMap (fmupd ''a'' (AInt 2) fmempty)) [''a'']"
    by (simp add: clash_def)
  then have "\<not> all_agree [fmupd ''a'' (AInt 1) fmempty, fmupd ''a'' (AInt 2) fmempty]"
    using all_agree_no_clash by fastforce
  then show ?F
    using merge_docs_contents [of True] by blast
  obtain m where m: "merge_docs False [fmupd ''a'' (AInt 1) fmempty, fmupd ''a'' (AInt 2) fmempty] = Inr m"
    using merge_docs_contents [of False] by blast
  with merge_docs_contents [of False "[fmupd ''a'' (AInt 1) fmempty, fmupd ''a'' (AInt 2) fmempty]"]
  have "look (AMap m) [''a''] = Some (Leaf (AInt 2))"
    by (simp add: contents_def override_def)
  with m show ?S by blast
qed

lemma merge_docs_pair:
  "\<exists>f. merge_docs c [a, b] = merge_doc (merge f c) c [] b a"
  unfolding merge_docs_def merge_fuel_def merge_pair by blast

text \<open>
  With \<open>conflictError\<close> the order of the configuration files does not matter: any order
  of the same documents succeeds with the same result, and the result holds exactly what the
  documents say, nothing lost and nothing added.
\<close>

theorem merge_docs_strict_order:
  assumes "merge_docs True docs = Inr m" and "mset docs' = mset docs"
  shows "merge_docs True docs' = Inr m \<and>
    (look (AMap m) p = Some s \<longleftrightarrow> p = [] \<and> s = Node \<or> (\<exists>d \<in> set docs. look (AMap d) p = Some s))"
proof -
  have set_eq: "set docs' = set docs"
    using assms(2) by (rule mset_eq_setD)
  from merge_docs_cases [of True docs, unfolded assms(1) sum.case] have ag: "all_agree docs"
    and m: "\<And>q s. look (AMap m) q = Some s \<longleftrightarrow> (\<exists>d \<in> set (fmempty # docs). look (AMap d) q = Some s)"
    by blast+
  have ag': "all_agree docs'"
    using ag by (simp add: all_agree_def set_eq)
  obtain m' where m': "merge_docs True docs' = Inr m'"
    using merge_docs_cases [of True docs'] all_agree_no_clash [OF ag']
    by (cases "merge_docs True docs'") (auto simp del: look.simps)
  have "look (AMap m') q = Some s \<longleftrightarrow> (\<exists>d \<in> set (fmempty # docs'). look (AMap d) q = Some s)" for q s
    using merge_docs_cases [of True docs', unfolded m' sum.case] by blast
  note m' = m' this
  have "look (AMap m') q = look (AMap m) q" for q
    by (rule option_eq_Some_cong) (simp add: m m'(2) set_eq del: look.simps)
  then have "AMap m' = AMap m" by (rule look_inject)
  with m'(1) m [of p s] show ?thesis
    using look_fmempty [of p s] by auto
qed

lemma merge_docs_strict_order_witness:
  "\<exists>m. merge_docs True [fmupd ''b'' (AInt 2) fmempty, fmupd ''a'' (AInt 1) fmempty] = Inr m \<and>
    look (AMap m) [''b''] = Some (Leaf (AInt 2))"
proof -
  have "merge_docs True [fmupd ''a'' (AInt 1) fmempty, fmupd ''b'' (AInt 2) fmempty] =
      Inr (fmupd ''b'' (AInt 2) (fmupd ''a'' (AInt 1) fmempty))"
    using merge_docs_pair [of True "fmupd ''a'' (AInt 1) fmempty" "fmupd ''b'' (AInt 2) fmempty"]
    by (auto simp: merge_doc_Inr merge_entry_def)
  from merge_docs_strict_order [OF this, of "[fmupd ''b'' (AInt 2) fmempty, fmupd ''a'' (AInt 1) fmempty]" "[''b'']" "Leaf (AInt 2)"]
  show ?thesis by simp
qed

end
