(* ===== verification/Util.thy ===== *)
theory Util
  imports Prelude
begin

text \<open>
  \<open>internal/util/util.go\<close>: comparison of pointers and of sets represented by slices. The two
  locales state what the rest of the code relies on: an equality test that is an equivalence
  (with a key that equal values share, for \<open>SetEqual\<close>), and a three-way comparison whose zero
  is equality (for the slices that are sorted before they are compared).
\<close>

subsection \<open>Pointers\<close>

text \<open>
  \<open>FastEqual\<close> first compares the two addresses. The model is told the result of that test
  (\<open>same\<close>): two pointers with one address hold one value, so it can be true only of equal
  arguments, and \<open>FastEqual_same\<close> below shows that it then makes no difference for a reflexive
  comparison. The Equal methods of the configuration are therefore modelled with
  \<open>same = False\<close>.
\<close>

fun FastEqual :: "bool \<Rightarrow> ('a \<Rightarrow> 'a \<Rightarrow> bool) \<Rightarrow> 'a option \<Rightarrow> 'a option \<Rightarrow> bool" where
  "FastEqual same slowEqual a b =
     (if same then True
      else case a of
        None \<Rightarrow> b = None
      | Some x \<Rightarrow> (case b of None \<Rightarrow> False | Some y \<Rightarrow> slowEqual x y))"

definition PtrEqual :: "'a option \<Rightarrow> 'a option \<Rightarrow> bool" where
  "PtrEqual a b = FastEqual False (=) a b"

fun BoolPtrCompare :: "bool option \<Rightarrow> bool option \<Rightarrow> int" where
  "BoolPtrCompare None None = 0"
| "BoolPtrCompare None (Some _) = -1"
| "BoolPtrCompare (Some _) None = 1"
| "BoolPtrCompare (Some a) (Some b) =
     (if \<not> a \<and> b then -1 else if a \<and> \<not> b then 1 else 0)"

fun PtrCompare :: "('a::linorder) option \<Rightarrow> 'a option \<Rightarrow> int" where
  "PtrCompare None None = 0"
| "PtrCompare None (Some _) = -1"
| "PtrCompare (Some _) None = 1"
| "PtrCompare (Some a) (Some b) = (if a < b then -1 else if b < a then 1 else 0)"

text \<open>\<open>strings.Compare\<close> of the standard library.\<close>

definition strings_Compare :: "string \<Rightarrow> string \<Rightarrow> int" where
  "strings_Compare a b = (if a < b then -1 else if a = b then 0 else 1)"

lemma PtrEqual_iff [eq_simps, simp]: "PtrEqual a b \<longleftrightarrow> a = b"
  by (auto simp: PtrEqual_def split: option.splits)

lemma FastEqual_False [simp]:
  "FastEqual False eq a b \<longleftrightarrow> rel_option eq a b"
  by (cases a; cases b) auto

lemma FastEqual_same:
  assumes "\<And>x. eq x x"
  shows "FastEqual True eq a a = FastEqual False eq a a"
  using assms by (cases a) auto

text \<open>
  A three-way comparison by a key: the sign tells which key is smaller. The pointer
  comparisons are of this form, with nil below every value.
\<close>

definition key_compare :: "('a \<Rightarrow> 'k::linorder) \<Rightarrow> 'a \<Rightarrow> 'a \<Rightarrow> int" where
  "key_compare key a b = (if key a < key b then -1 else if key b < key a then 1 else 0)"

lemma BoolPtrCompare_key: "BoolPtrCompare a b = key_compare id a b"
  by (cases a; cases b) (auto simp: key_compare_def)

lemma PtrCompare_key: "PtrCompare a b = key_compare id a b"
  by (cases a; cases b) (auto simp: key_compare_def)

lemma strings_Compare_key: "strings_Compare a b = key_compare id a b"
  by (auto simp: key_compare_def strings_Compare_def)

lemma key_compare_lex:
  "(if key_compare f a b \<noteq> 0 then key_compare f a b else key_compare g a b)
     = key_compare (\<lambda>x. (f x, g x)) a b"
  by (auto simp: key_compare_def)

subsection \<open>Sorting by a three-way comparison\<close>

text \<open>
  \<open>slices.SortFunc\<close> of the standard library, as insertion sort. The interface
  \<open>go_compare\<close> shows that any other sorting algorithm gives the same list when the
  comparison is zero on equal elements only.
\<close>

fun insert_by :: "('a \<Rightarrow> 'a \<Rightarrow> int) \<Rightarrow> 'a \<Rightarrow> 'a list \<Rightarrow> 'a list" where
  "insert_by cmp x [] = [x]"
| "insert_by cmp x (y # ys) = (if cmp x y \<le> 0 then x # y # ys else y # insert_by cmp x ys)"

definition slices_SortFunc :: "('a \<Rightarrow> 'a \<Rightarrow> int) \<Rightarrow> 'a list \<Rightarrow> 'a list" where
  "slices_SortFunc cmp xs = foldr (insert_by cmp) xs []"

lemma mset_insert_by [simp]: "mset (insert_by cmp x xs) = add_mset x (mset xs)"
  by (induction xs) auto

lemma mset_SortFunc [simp]: "mset (slices_SortFunc cmp xs) = mset xs"
  by (induction xs) (auto simp: slices_SortFunc_def)

lemma set_SortFunc [simp]: "set (slices_SortFunc cmp xs) = set xs"
  by (metis mset_SortFunc set_mset_mset)

lemma length_SortFunc [simp]: "length (slices_SortFunc cmp xs) = length xs"
  by (metis mset_SortFunc size_mset)

locale go_compare =
  fixes cmp :: "'a \<Rightarrow> 'a \<Rightarrow> int"
  assumes cmp_zero: "cmp a b = 0 \<longleftrightarrow> a = b"
    and cmp_anti: "cmp a b < 0 \<longleftrightarrow> 0 < cmp b a"
    and cmp_trans: "cmp a b \<le> 0 \<Longrightarrow> cmp b c \<le> 0 \<Longrightarrow> cmp a c \<le> 0"
begin

definition in_order :: "'a list \<Rightarrow> bool" where
  "in_order xs = sorted_wrt (\<lambda>a b. cmp a b \<le> 0) xs"

lemma cmp_total: "cmp a b \<le> 0 \<or> cmp b a \<le> 0"
  using cmp_anti [of a b] by linarith

lemma cmp_antisym: "cmp a b \<le> 0 \<Longrightarrow> cmp b a \<le> 0 \<Longrightarrow> a = b"
  using cmp_anti [of a b] cmp_zero [of a b] by linarith

lemma in_order_insert_by: "in_order xs \<Longrightarrow> in_order (insert_by cmp x xs)"
proof (induction xs)
  case Nil
  then show ?case by (simp add: in_order_def)
next
  case (Cons y ys)
  have set_eq: "set (insert_by cmp x ys) = insert x (set ys)"
    by (metis mset_insert_by set_mset_add_mset_insert set_mset_mset)
  show ?case
  proof (cases "cmp x y \<le> 0")
    case True
    with Cons.prems show ?thesis
      by (auto simp: in_order_def intro: cmp_trans)
  next
    case False
    with Cons set_eq cmp_total [of x y] show ?thesis
      by (auto simp: in_order_def)
  qed
qed

lemma in_order_SortFunc: "in_order (slices_SortFunc cmp xs)"
proof (induction xs)
  case Nil
  then show ?case by (simp add: slices_SortFunc_def in_order_def)
next
  case (Cons x xs)
  then show ?case
    using in_order_insert_by by (simp add: slices_SortFunc_def)
qed

lemma in_order_unique:
  "in_order xs \<Longrightarrow> in_order ys \<Longrightarrow> mset xs = mset ys \<Longrightarrow> xs = ys"
proof (induction xs arbitrary: ys)
  case Nil
  then show ?case by simp
next
  case (Cons x xs)
  then obtain y ys' where ys: "ys = y # ys'"
    by (cases ys) auto
  have "cmp x y \<le> 0"
  proof (cases "x = y")
    case True
    then show ?thesis using cmp_zero [of x y] by simp
  next
    case False
    with Cons.prems(3) ys have "y \<in> set xs"
      by (metis list.set_intros(1) set_ConsD set_mset_mset)
    with Cons.prems(1) show ?thesis by (simp add: in_order_def)
  qed
  moreover have "cmp y x \<le> 0"
  proof (cases "x = y")
    case True
    then show ?thesis using cmp_zero [of x y] by simp
  next
    case False
    with Cons.prems(3) ys have "x \<in> set ys'"
      by (metis list.set_intros(1) set_ConsD set_mset_mset)
    with Cons.prems(2) ys show ?thesis by (simp add: in_order_def)
  qed
  ultimately have "x = y" by (rule cmp_antisym)
  with Cons.prems ys show ?case
    using Cons.IH [of ys'] by (simp add: in_order_def)
qed

lemma SortFunc_unique:
  assumes "mset ys = mset xs" and "in_order ys"
  shows "ys = slices_SortFunc cmp xs"
  using assms in_order_unique in_order_SortFunc by (metis mset_SortFunc)

lemma SortFunc_eq_iff: "slices_SortFunc cmp xs = slices_SortFunc cmp ys \<longleftrightarrow> mset xs = mset ys"
  by (metis SortFunc_unique in_order_SortFunc mset_SortFunc)

end

locale go_compare_by_key =
  fixes cmp :: "'a \<Rightarrow> 'a \<Rightarrow> int" and key :: "'a \<Rightarrow> 'k::linorder"
  assumes cmp_key: "cmp a b = key_compare key a b"
    and key_inj: "key a = key b \<Longrightarrow> a = b"

sublocale go_compare_by_key \<subseteq> go_compare cmp
proof unfold_locales
  fix a b c
  show "cmp a b = 0 \<longleftrightarrow> a = b"
    using key_inj [of a b] by (auto simp: cmp_key key_compare_def)
  show "cmp a b < 0 \<longleftrightarrow> 0 < cmp b a"
    by (auto simp: cmp_key key_compare_def)
  show "cmp a b \<le> 0 \<Longrightarrow> cmp b c \<le> 0 \<Longrightarrow> cmp a c \<le> 0"
    by (auto simp: cmp_key key_compare_def split: if_splits)
qed

subsection \<open>Slices as sets\<close>

text \<open>
  \<open>maps.EqualFunc\<close> of the standard library, on maps given as association lists with distinct
  keys, and the map \<open>SetEqual\<close> builds from a slice: a later element with the same key
  replaces an earlier one.
\<close>

definition maps_EqualFunc ::
    "('v \<Rightarrow> 'v \<Rightarrow> bool) \<Rightarrow> ('k \<times> 'v) list \<Rightarrow> ('k \<times> 'v) list \<Rightarrow> bool" where
  "maps_EqualFunc eq m n \<longleftrightarrow>
     length m = length n \<and>
     list_all (\<lambda>(k, v). case map_of n k of None \<Rightarrow> False | Some w \<Rightarrow> eq v w) m"

definition index_by :: "('v \<Rightarrow> 'k) \<Rightarrow> 'v list \<Rightarrow> ('k \<times> 'v) list" where
  "index_by key xs = foldl (\<lambda>m v. map_put (key v) v m) [] xs"

definition SetEqual ::
    "('v \<Rightarrow> 'k) \<Rightarrow> ('v \<Rightarrow> 'v \<Rightarrow> bool) \<Rightarrow> 'v list \<Rightarrow> 'v list \<Rightarrow> bool" where
  "SetEqual key eq a b =
     (case (a, b) of
        ([x], [y]) \<Rightarrow> eq x y
      | _ \<Rightarrow> maps_EqualFunc eq (index_by key a) (index_by key b))"

lemma SetEqual_maps:
  assumes "\<not> (\<exists>x y. a = [x] \<and> b = [y])"
  shows "SetEqual key eq a b = maps_EqualFunc eq (index_by key a) (index_by key b)"
proof (cases a)
  case Nil
  then show ?thesis by (simp add: SetEqual_def)
next
  case (Cons x a')
  show ?thesis
  proof (cases a')
    case Nil
    with Cons assms show ?thesis by (cases b; cases "tl b") (auto simp: SetEqual_def)
  next
    case (Cons x' a'')
    with \<open>a = x # a'\<close> show ?thesis by (simp add: SetEqual_def)
  qed
qed

lemma index_by_snoc: "index_by key (xs @ [x]) = map_put (key x) x (index_by key xs)"
  by (simp add: index_by_def)

lemma distinct_index_by [simp]: "distinct (map fst (index_by key xs))"
  by (induction xs rule: rev_induct) (auto simp: index_by_snoc, simp add: index_by_def)

lemma map_of_index_by: "map_of (index_by key xs) k = find (\<lambda>v. key v = k) (rev xs)"
  by (induction xs rule: rev_induct) (auto simp: index_by_snoc, simp add: index_by_def)

lemma maps_EqualFunc_iff:
  assumes "distinct (map fst m)" and "distinct (map fst n)"
  shows "maps_EqualFunc eq m n \<longleftrightarrow> (\<forall>k. rel_option eq (map_of m k) (map_of n k))"
    (is "?L \<longleftrightarrow> ?R")
proof
  assume L: ?L
  then have each: "\<And>k v. map_of m k = Some v \<Longrightarrow> \<exists>w. map_of n k = Some w \<and> eq v w"
    by (fastforce simp: maps_EqualFunc_def list_all_iff dest: map_of_SomeD split: option.splits)
  then have "dom (map_of m) \<subseteq> dom (map_of n)" by fastforce
  moreover have "card (dom (map_of m)) = length m" "card (dom (map_of n)) = length n"
    using assms distinct_card [of "map fst m"] distinct_card [of "map fst n"]
    by (simp_all add: dom_map_of_conv_image_fst)
  ultimately have "dom (map_of m) = dom (map_of n)"
    using L by (intro card_subset_eq) (auto simp: maps_EqualFunc_def finite_dom_map_of)
  show ?R
  proof
    fix k
    show "rel_option eq (map_of m k) (map_of n k)"
    proof (cases "map_of m k")
      case None
      then have "map_of n k = None"
        using \<open>dom (map_of m) = dom (map_of n)\<close> by (metis domIff)
      with None show ?thesis by simp
    next
      case (Some v)
      with each [OF Some] show ?thesis by auto
    qed
  qed
next
  assume R: ?R
  then have "dom (map_of m) = dom (map_of n)"
    by (metis (mono_tags, lifting) domIff option.rel_sel subsetI subset_antisym)
  then have "length m = length n"
    using assms distinct_card [of "map fst m"] distinct_card [of "map fst n"]
    by (simp add: dom_map_of_conv_image_fst)
  moreover have "\<exists>w. map_of n k = Some w \<and> eq v w" if "(k, v) \<in> set m" for k v
    using R assms(1) that by (metis map_of_eq_Some_iff option_rel_Some1)
  ultimately show ?L
    by (fastforce simp: maps_EqualFunc_def list_all_iff)
qed

text \<open>
  The interface of an equality test: an equivalence, and a key that equal values share. With
  it \<open>SetEqual\<close> is an equivalence too, and decides whether the two slices give every key the
  same last value.
\<close>

locale go_equal =
  fixes eq :: "'v \<Rightarrow> 'v \<Rightarrow> bool"
  assumes eq_refl: "eq x x"
    and eq_sym: "eq x y \<Longrightarrow> eq y x"
    and eq_trans: "eq x y \<Longrightarrow> eq y z \<Longrightarrow> eq x z"
begin

lemma opt_refl: "rel_option eq x x"
  by (cases x) (auto intro: eq_refl)

lemma opt_sym: "rel_option eq x y \<Longrightarrow> rel_option eq y x"
  by (cases x; cases y) (auto intro: eq_sym)

lemma opt_trans: "rel_option eq x y \<Longrightarrow> rel_option eq y z \<Longrightarrow> rel_option eq x z"
  by (cases x; cases y; cases z) (auto intro: eq_trans)

end

locale go_keyed_equal = go_equal eq for eq :: "'v \<Rightarrow> 'v \<Rightarrow> bool" +
  fixes key :: "'v \<Rightarrow> 'k"
  assumes eq_key: "eq x y \<Longrightarrow> key x = key y"
begin

lemma SetEqual_iff:
  "SetEqual key eq a b \<longleftrightarrow>
     (\<forall>k. rel_option eq (find (\<lambda>v. key v = k) (rev a)) (find (\<lambda>v. key v = k) (rev b)))"
    (is "_ \<longleftrightarrow> ?R a b")
proof -
  have single: "eq x y \<longleftrightarrow> ?R [x] [y]" for x y
  proof
    assume "eq x y"
    then show "?R [x] [y]" by (auto dest: eq_key)
  next
    assume "?R [x] [y]"
    from spec [OF this, of "key x"] show "eq x y" by (auto split: if_splits)
  qed
  have "maps_EqualFunc eq (index_by key a) (index_by key b) \<longleftrightarrow> ?R a b"
    by (simp add: maps_EqualFunc_iff map_of_index_by)
  then have rest: "SetEqual key eq a b \<longleftrightarrow> ?R a b" if "\<not> (\<exists>x y. a = [x] \<and> b = [y])"
    by (simp only: SetEqual_maps [OF that])
  show ?thesis
  proof (cases "\<exists>x y. a = [x] \<and> b = [y]")
    case True
    then obtain x y where "a = [x]" "b = [y]" by blast
    then show ?thesis unfolding SetEqual_def using single [of x y] by simp
  next
    case False
    then show ?thesis by (rule rest)
  qed
qed

lemma SetEqual_refl: "SetEqual key eq a a"
  by (simp add: SetEqual_iff opt_refl)

lemma SetEqual_sym: "SetEqual key eq a b \<Longrightarrow> SetEqual key eq b a"
  using opt_sym by (simp add: SetEqual_iff)

lemma SetEqual_trans: "SetEqual key eq a b \<Longrightarrow> SetEqual key eq b c \<Longrightarrow> SetEqual key eq a c"
  unfolding SetEqual_iff using opt_trans by blast

lemma SetEqual_mem:
  assumes "SetEqual key eq a b" and "x \<in> set a" and "distinct (map key a)"
  shows "\<exists>y \<in> set b. eq x y"
proof -
  have "find (\<lambda>v. key v = key x) (rev a) = Some x"
    using assms(2,3)
  proof (induction a rule: rev_induct)
    case Nil
    then show ?case by simp
  next
    case (snoc z a)
    then show ?case by (cases "z = x") (auto simp: rev_image_eqI)
  qed
  with assms(1) obtain y where y: "find (\<lambda>v. key v = key x) (rev b) = Some y" "eq x y"
    unfolding SetEqual_iff by (metis option_rel_Some1)
  from y(1) have "y \<in> set b"
    by (metis find_Some_iff nth_mem set_rev)
  with y(2) show ?thesis by blast
qed

lemma SetEqual_go_equal: "go_equal (SetEqual key eq)"
  by unfold_locales (auto intro: SetEqual_refl SetEqual_sym SetEqual_trans)

end

interpretation ident: go_keyed_equal "(=) :: 'a \<Rightarrow> 'a \<Rightarrow> bool" "id :: 'a \<Rightarrow> 'a"
  by unfold_locales auto

lemma SetEqual_id_iff [eq_simps]: "SetEqual id (=) a b \<longleftrightarrow> set a = set b"
proof -
  have find_id: "find (\<lambda>v. v = k) xs = (if k \<in> set xs then Some k else None)" for k and xs :: "'a list"
    by (induction xs) auto
  show ?thesis
    by (auto simp: ident.SetEqual_iff find_id option.rel_eq split: if_splits)
qed

end
