(* ===== verification/Pool.thy ===== *)
theory Pool
  imports Util
begin

text \<open>
  The task pool of \<open>internal/pool/pool.go\<close>. The operations are functions on the state the mutex
  protects; \<open>pool_step\<close> interleaves the goroutines: a step is one critical section, one return
  of a task, or one end of a wait. A time is a number of nanoseconds, and \<open>0\<close> is the zero time
  that asks for removal. Channels are numbered in the order of their creation, and a channel
  that the pool has closed is in \<open>closed\<close>. A task function is known by its number.

  \<open>slices.SortFunc\<close> is not stable, so the order it gives tasks of one deadline is not known: the
  step relation is parametrised by the sorting function, and the locale \<open>deadline_sort\<close> states
  what is known of it.
\<close>

record task =
  fn :: nat
  deadline :: nat

record pool =
  tasks :: "task list"
  wait :: "nat option"
  closed :: "nat set"
  next_chan :: nat

definition New_pool :: pool where
  "New_pool = \<lparr>tasks = [], wait = None, closed = {}, next_chan = 0\<rparr>"

definition enqueue :: "(task list \<Rightarrow> task list) \<Rightarrow> task \<Rightarrow> pool \<Rightarrow> pool" where
  "enqueue sort_tasks t p =
     (if deadline t = 0 then p
      else (let p = p\<lparr>tasks := sort_tasks (tasks p @ [t])\<rparr> in
        case wait p of
          None \<Rightarrow> p
        | Some c \<Rightarrow> p\<lparr>closed := insert c (closed p), wait := None\<rparr>))"

definition Add :: "(task list \<Rightarrow> task list) \<Rightarrow> nat \<Rightarrow> nat \<Rightarrow> pool \<Rightarrow> pool" where
  "Add sort_tasks now f p = enqueue sort_tasks \<lparr>fn = f, deadline = now\<rparr> p"

text \<open>
  One pass through the loop of \<open>dequeue\<close>, from \<open>Lock\<close> to \<open>Unlock\<close>: either the first task is
  taken, or the goroutine is to wait for its deadline or for the channel.
\<close>

definition year :: nat where
  "year = 365 * 24 * 3600 * 1000000000"

datatype dequeued = Take task | WaitFor nat nat

definition dequeue :: "nat \<Rightarrow> pool \<Rightarrow> dequeued \<times> pool" where
  "dequeue now p =
     (let d = (case tasks p of [] \<Rightarrow> now + year | t # _ \<Rightarrow> deadline t) in
      if now < d then
        (case wait p of
           None \<Rightarrow> (WaitFor d (next_chan p), p\<lparr>wait := Some (next_chan p), next_chan := Suc (next_chan p)\<rparr>)
         | Some c \<Rightarrow> (WaitFor d c, p))
      else (Take (hd (tasks p)), p\<lparr>tasks := tl (tasks p)\<rparr>))"

text \<open>\<open>Execute\<close>: the task function gives the next deadline.\<close>

definition Execute_task :: "nat \<Rightarrow> task \<Rightarrow> task" where
  "Execute_task d t = t\<lparr>deadline := d\<rparr>"

subsection \<open>The goroutines\<close>

datatype goroutine = Ready | Waiting nat nat | Running task

record system =
  clock :: nat
  shared :: pool
  routines :: "goroutine list"

definition New_system :: "nat \<Rightarrow> nat \<Rightarrow> system" where
  "New_system workers start = \<lparr>clock = start, shared = New_pool, routines = replicate workers Ready\<rparr>"

inductive pool_step :: "(task list \<Rightarrow> task list) \<Rightarrow> system \<Rightarrow> system \<Rightarrow> bool"
  for srt :: "task list \<Rightarrow> task list" where
  step_Add: "pool_step srt s (s\<lparr>shared := Add srt (clock s) f (shared s)\<rparr>)"
| step_tick: "clock s \<le> t \<Longrightarrow> pool_step srt s (s\<lparr>clock := t\<rparr>)"
| step_take:
    "i < length (routines s) \<Longrightarrow> routines s ! i = Ready \<Longrightarrow>
     dequeue (clock s) (shared s) = (Take t, p) \<Longrightarrow>
     pool_step srt s (s\<lparr>shared := p, routines := (routines s)[i := Running t]\<rparr>)"
| step_wait:
    "i < length (routines s) \<Longrightarrow> routines s ! i = Ready \<Longrightarrow>
     dequeue (clock s) (shared s) = (WaitFor d c, p) \<Longrightarrow>
     pool_step srt s (s\<lparr>shared := p, routines := (routines s)[i := Waiting d c]\<rparr>)"
| step_timer:
    "i < length (routines s) \<Longrightarrow> routines s ! i = Waiting d c \<Longrightarrow> d \<le> clock s \<Longrightarrow>
     pool_step srt s (s\<lparr>routines := (routines s)[i := Ready]\<rparr>)"
| step_woken:
    "i < length (routines s) \<Longrightarrow> routines s ! i = Waiting d c \<Longrightarrow> c \<in> closed (shared s) \<Longrightarrow>
     pool_step srt s (s\<lparr>routines := (routines s)[i := Ready]\<rparr>)"
| step_return:
    "i < length (routines s) \<Longrightarrow> routines s ! i = Running t \<Longrightarrow>
     pool_step srt s (s\<lparr>shared := enqueue srt (Execute_task d t) (shared s),
       routines := (routines s)[i := Ready]\<rparr>)"

inductive_cases pool_stepE: "pool_step srt s s'"

subsection \<open>Invariants\<close>

text \<open>
  The invariant of the protected state: the tasks are in deadline order, none has the zero
  deadline, and the current channel is open.
\<close>

definition pool_inv :: "pool \<Rightarrow> bool" where
  "pool_inv p \<longleftrightarrow> sorted (map deadline (tasks p)) \<and> (\<forall>t \<in> set (tasks p). deadline t \<noteq> 0) \<and>
     (\<forall>c. wait p = Some c \<longrightarrow> c \<notin> closed p \<and> c < next_chan p) \<and> (\<forall>c \<in> closed p. c < next_chan p)"

text \<open>A waiting goroutine cannot miss a task: its channel is closed, or its deadline is not after the first.\<close>

definition watched :: "pool \<Rightarrow> nat \<Rightarrow> nat \<Rightarrow> bool" where
  "watched p d c \<longleftrightarrow> c \<in> closed p \<or> wait p = Some c \<and> (\<forall>t \<in> set (tasks p). d \<le> deadline t)"

definition system_inv :: "system \<Rightarrow> bool" where
  "system_inv s \<longleftrightarrow> pool_inv (shared s) \<and>
     (\<forall>d c. Waiting d c \<in> set (routines s) \<longrightarrow> watched (shared s) d c)"

subsection \<open>What is known of the sorting function\<close>

locale deadline_sort =
  fixes srt :: "task list \<Rightarrow> task list"
  assumes sort_permutes: "mset (srt ts) = mset ts"
    and sort_sorts: "sorted (map deadline (srt ts))"
begin

lemma set_sort [simp]: "set (srt ts) = set ts"
  using sort_permutes by (metis set_mset_mset)

lemma pool_inv_enqueue:
  assumes "pool_inv p"
  shows "pool_inv (enqueue srt t p)"
  using assms sort_sorts by (auto simp: pool_inv_def enqueue_def Let_def split: option.splits)

lemma watched_enqueue:
  assumes "watched p d c"
  shows "watched (enqueue srt t p) d c"
  using assms by (auto simp: watched_def enqueue_def Let_def split: option.splits)

lemma pool_inv_dequeue:
  assumes "pool_inv p" "dequeue now p = (r, p')"
  shows "pool_inv p'"
  using assms
  by (cases "tasks p")
    (auto simp: pool_inv_def dequeue_def Let_def less_Suc_eq split: if_splits option.splits)

lemma watched_dequeue:
  assumes "pool_inv p" "watched p d c" "dequeue now p = (r, p')"
  shows "watched p' d c"
  using assms
  by (cases "tasks p") (auto simp: pool_inv_def watched_def dequeue_def Let_def split: if_splits option.splits)

lemma dequeue_watched:
  assumes "pool_inv p" "dequeue now p = (WaitFor d c, p')"
  shows "watched p' d c"
  using assms
  by (cases "tasks p") (auto simp: pool_inv_def watched_def dequeue_def Let_def split: if_splits option.splits)

lemma dequeue_take:
  assumes "pool_inv p" "dequeue now p = (Take t, p')"
  shows "tasks p = t # tasks p' \<and> deadline t \<le> now \<and> (\<forall>u \<in> set (tasks p'). deadline t \<le> deadline u)"
  using assms
  by (cases "tasks p") (auto simp: pool_inv_def dequeue_def Let_def year_def split: if_splits option.splits)

lemma in_set_update: "x \<in> set (xs[i := y]) \<Longrightarrow> x = y \<or> x \<in> set xs"
  using set_update_subset_insert by fastforce

lemma system_inv_step:
  assumes "pool_step srt s s'" "system_inv s"
  shows "system_inv s'"
  using assms
proof cases
  case (step_take i t p)
  with assms(2) show ?thesis
    by (auto simp: system_inv_def dest!: in_set_update intro: pool_inv_dequeue watched_dequeue)
next
  case (step_wait i d c p)
  with assms(2) show ?thesis
    by (auto simp: system_inv_def dest!: in_set_update intro: pool_inv_dequeue watched_dequeue dequeue_watched)
qed (auto simp: system_inv_def Add_def dest!: in_set_update intro: pool_inv_enqueue watched_enqueue)

lemma system_inv_steps:
  "(pool_step srt)\<^sup>*\<^sup>* (New_system n start) s \<Longrightarrow> system_inv s"
proof (induction rule: rtranclp_induct)
  case base
  then show ?case
    by (auto simp: system_inv_def New_system_def New_pool_def pool_inv_def)
next
  case (step s s')
  then show ?case using system_inv_step by blast
qed

end

text \<open>\<open>a.deadline.Compare(b.deadline)\<close>, and the sort of the prelude by it.\<close>

definition by_deadline :: "task \<Rightarrow> task \<Rightarrow> int" where
  "by_deadline a b = (if deadline a < deadline b then -1 else if deadline b < deadline a then 1 else 0)"

lemma sorted_insert_by_deadline:
  "sorted (map deadline ts) \<Longrightarrow> sorted (map deadline (insert_by by_deadline t ts))"
proof (induction ts)
  case (Cons u ts)
  then show ?case
    by (auto simp: by_deadline_def simp flip: set_mset_mset split: if_splits)
qed simp

interpretation go_sort: deadline_sort "slices_SortFunc by_deadline"
proof
  fix ts
  show "sorted (map deadline (slices_SortFunc by_deadline ts))"
    by (induction ts) (simp_all add: slices_SortFunc_def sorted_insert_by_deadline)
qed simp

subsection \<open>Properties\<close>

lemma SortFunc_singleton [simp]: "slices_SortFunc cmp [x] = [x]"
  by (simp add: slices_SortFunc_def)

text \<open>
  C15: Whatever the goroutines do and in whatever order a sort puts tasks of equal deadlines: the
  tasks of the pool are in deadline order, a task that is taken is due and no other is due
  earlier, and no task is stranded: when a queued task is due, every waiting goroutine can go on
  (its timer has expired or its channel is closed).
\<close>

theorem pool_reachable:
  assumes "\<And>ts. mset (srt ts) = mset ts" "\<And>ts. sorted (map deadline (srt ts))"
    and "(pool_step srt)\<^sup>*\<^sup>* (New_system workers start) s"
  shows "sorted (map deadline (tasks (shared s))) \<and>
    (\<forall>t p. dequeue (clock s) (shared s) = (Take t, p) \<longrightarrow>
       tasks (shared s) = t # tasks p \<and> deadline t \<le> clock s \<and> (\<forall>u \<in> set (tasks p). deadline t \<le> deadline u)) \<and>
    (\<forall>t d c. t \<in> set (tasks (shared s)) \<and> deadline t \<le> clock s \<and> Waiting d c \<in> set (routines s) \<longrightarrow>
       d \<le> clock s \<or> c \<in> closed (shared s))"
proof -
  have srt: "deadline_sort srt" by unfold_locales (fact assms)+
  from deadline_sort.system_inv_steps [OF srt assms(3)] have inv: "pool_inv (shared s)"
    and "\<And>d c. Waiting d c \<in> set (routines s) \<Longrightarrow> watched (shared s) d c"
    by (auto simp: system_inv_def)
  then show ?thesis
    using deadline_sort.dequeue_take [OF srt inv] unfolding watched_def pool_inv_def by fastforce
qed

lemma pool_reachable_witness:
  "\<exists>s. (pool_step (slices_SortFunc by_deadline))\<^sup>*\<^sup>* (New_system 1 5) s \<and>
    tasks (shared s) = [\<lparr>fn = 7, deadline = 5\<rparr>] \<and> routines s = [Waiting (5 + year) 0] \<and>
    (5 + year \<le> clock s \<or> 0 \<in> closed (shared s))"
proof -
  let ?srt = "slices_SortFunc by_deadline"
  let ?w = "New_system 1 5\<lparr>shared := New_pool\<lparr>wait := Some 0, next_chan := 1\<rparr>, routines := [Waiting (5 + year) 0]\<rparr>"
  let ?s = "?w\<lparr>shared := Add ?srt 5 7 (shared ?w)\<rparr>"
  have "pool_step ?srt (New_system 1 5) ?w"
    using step_wait [of 0 "New_system 1 5" "5 + year" 0 "New_pool\<lparr>wait := Some 0, next_chan := 1\<rparr>" ?srt]
    by (simp add: New_system_def New_pool_def dequeue_def year_def)
  moreover have "pool_step ?srt ?w ?s"
    using step_Add [of ?srt ?w 7] by (simp add: New_system_def)
  ultimately have reach: "(pool_step ?srt)\<^sup>*\<^sup>* (New_system 1 5) ?s" by simp
  have queue: "tasks (shared ?s) = [\<lparr>fn = 7, deadline = 5\<rparr>]"
    by (simp add: Add_def enqueue_def New_pool_def slices_SortFunc_def)
  have "\<lparr>fn = 7, deadline = 5\<rparr> \<in> set (tasks (shared ?s)) \<and> deadline \<lparr>fn = 7, deadline = 5\<rparr> \<le> clock ?s \<and>
      Waiting (5 + year) 0 \<in> set (routines ?s)"
    unfolding queue by (simp add: New_system_def)
  then have "5 + year \<le> clock ?s \<or> 0 \<in> closed (shared ?s)"
    using pool_reachable [of ?srt, OF go_sort.sort_permutes go_sort.sort_sorts reach] by blast
  with reach queue show ?thesis by (intro exI [of _ ?s]) simp
qed

text \<open>
  The pool neither loses nor duplicates a task: taking removes exactly the task that is
  given out, waiting changes no task, and putting back keeps every task with its function and
  drops it exactly when its new deadline is the zero time.
\<close>

theorem pool_conserves_tasks:
  "(\<forall>t p'. tasks p \<noteq> [] \<and> dequeue now p = (Take t, p') \<longrightarrow> mset (tasks p) = add_mset t (mset (tasks p'))) \<and>
   (\<forall>d c p'. dequeue now p = (WaitFor d c, p') \<longrightarrow> tasks p' = tasks p \<and> wait p' = Some c) \<and>
   mset (tasks (enqueue (slices_SortFunc by_deadline) (Execute_task d t) p)) =
     (if d = 0 then {#} else {#t\<lparr>deadline := d\<rparr>#}) + mset (tasks p)"
  by (cases "tasks p")
    (auto simp: dequeue_def enqueue_def Execute_task_def Let_def split: option.splits if_splits)

lemma pool_conserves_tasks_witness:
  "dequeue 5 (New_pool\<lparr>tasks := [\<lparr>fn = 7, deadline = 5\<rparr>]\<rparr>) = (Take \<lparr>fn = 7, deadline = 5\<rparr>, New_pool) \<and>
    mset (tasks (New_pool\<lparr>tasks := [\<lparr>fn = 7, deadline = 5\<rparr>]\<rparr>)) = {#\<lparr>fn = 7, deadline = 5\<rparr>#}"
proof
  show d: "dequeue 5 (New_pool\<lparr>tasks := [\<lparr>fn = 7, deadline = 5\<rparr>]\<rparr>) = (Take \<lparr>fn = 7, deadline = 5\<rparr>, New_pool)"
    by (simp add: dequeue_def New_pool_def)
  show "mset (tasks (New_pool\<lparr>tasks := [\<lparr>fn = 7, deadline = 5\<rparr>]\<rparr>)) = {#\<lparr>fn = 7, deadline = 5\<rparr>#}"
    using pool_conserves_tasks [of "New_pool\<lparr>tasks := [\<lparr>fn = 7, deadline = 5\<rparr>]\<rparr>" 5] d
    by (simp add: New_pool_def)
qed

end
