(* ===== verification/Requirement.thy ===== *)
theory Requirement
  imports Util
begin

text \<open>
  \<open>pkg/config/config.go\<close>: requirements on sources, their equality and their order, and the
  comparison of requirement lists of \<open>internal/config/config.go\<close>, which ignores the order of
  the elements.
\<close>

record requirement =
  req_Source :: "string option"
  req_Commit :: "string option"   \<comment> \<open>\<open>Git.Commit\<close>\<close>
  req_Path :: string
  req_Prefix :: string
  req_AutoMount :: "bool option"

type_synonym requirements = "requirement list"

definition Requirement_Equal :: "requirement \<Rightarrow> requirement \<Rightarrow> bool" where
  "Requirement_Equal a b \<longleftrightarrow>
     PtrEqual (req_Source a) (req_Source b) \<and>
     PtrEqual (req_Commit a) (req_Commit b) \<and>
     req_Path a = req_Path b \<and>
     req_Prefix a = req_Prefix b \<and>
     PtrEqual (req_AutoMount a) (req_AutoMount b)"

definition Requirement_Compare :: "requirement \<Rightarrow> requirement \<Rightarrow> int" where
  "Requirement_Compare a b =
     (let x = PtrCompare (req_Source a) (req_Source b) in
      if x \<noteq> 0 then x else
      let x = PtrCompare (req_Commit a) (req_Commit b) in
      if x \<noteq> 0 then x else
      let x = strings_Compare (req_Path a) (req_Path b) in
      if x \<noteq> 0 then x else
      let x = strings_Compare (req_Prefix a) (req_Prefix b) in
      if x \<noteq> 0 then x else
      let x = BoolPtrCompare (req_AutoMount a) (req_AutoMount b) in
      if x \<noteq> 0 then x else 0)"

definition Requirements_Equal :: "requirements \<Rightarrow> requirements \<Rightarrow> bool" where
  "Requirements_Equal a b =
     (if length a \<noteq> length b then False
      else
        let a = (if length a > 1 then slices_SortFunc Requirement_Compare a else a);
            b = (if length b > 1 then slices_SortFunc Requirement_Compare b else b)
        in list_all2 Requirement_Equal a b)"

lemma Requirement_Equal_iff [eq_simps, simp]: "Requirement_Equal a b \<longleftrightarrow> a = b"
  by (auto simp: Requirement_Equal_def requirement.equality)

lemma Requirement_Compare_key:
  "Requirement_Compare a b =
     key_compare (\<lambda>r. (req_Source r, req_Commit r, req_Path r, req_Prefix r, req_AutoMount r)) a b"
  by (auto simp: Requirement_Compare_def PtrCompare_key strings_Compare_key BoolPtrCompare_key
      key_compare_def Let_def)

interpretation requirement_order: go_compare_by_key Requirement_Compare
  "\<lambda>r. (req_Source r, req_Commit r, req_Path r, req_Prefix r, req_AutoMount r)"
  by unfold_locales (auto simp: Requirement_Compare_key requirement.equality)

interpretation requirement_eq: go_equal Requirement_Equal
  by unfold_locales auto

lemma list_all2_Requirement_Equal [eq_simps]: "list_all2 Requirement_Equal xs ys \<longleftrightarrow> xs = ys"
proof -
  have "Requirement_Equal = (=)" by (simp add: fun_eq_iff)
  then show ?thesis by (simp add: list.rel_eq)
qed

lemma Requirements_Equal_mset [eq_simps]: "Requirements_Equal a b \<longleftrightarrow> mset a = mset b"
proof (cases "length a = length b")
  case False
  then show ?thesis by (auto simp: Requirements_Equal_def dest: mset_eq_length)
next
  case len: True
  show ?thesis
  proof (cases "length a > 1")
    case True
    with len show ?thesis
      by (simp add: Requirements_Equal_def list_all2_Requirement_Equal
          requirement_order.SortFunc_eq_iff)
  next
    case False
    with len have "a = b \<longleftrightarrow> mset a = mset b"
      by (cases a; cases b) auto
    with False len show ?thesis
      by (simp add: Requirements_Equal_def list_all2_Requirement_Equal)
  qed
qed

interpretation requirements_eq: go_equal Requirements_Equal
  by unfold_locales (simp_all add: Requirements_Equal_mset)

subsection \<open>Properties\<close>

text \<open>
  two requirement lists are equal for \<open>Requirements.Equal\<close> exactly when one is a
  permutation of the other, with the number of copies of each requirement.
\<close>

theorem Requirements_Equal_is_permutation:
  "Requirements_Equal a b \<longleftrightarrow> mset a = mset b"
  by (rule Requirements_Equal_mset)

text \<open>
  \<open>Requirement.Compare\<close> is a total order whose zero is \<open>Requirement.Equal\<close>, so the
  result of sorting by it does not depend on the sorting algorithm: any permutation of the
  list whose neighbours are in order is the sorted list.
\<close>

theorem Requirement_sort_unique:
  "(Requirement_Compare a b = 0 \<longleftrightarrow> Requirement_Equal a b) \<and>
   (mset ys = mset xs \<and> sorted_wrt (\<lambda>a b. Requirement_Compare a b \<le> 0) ys
      \<longleftrightarrow> ys = slices_SortFunc Requirement_Compare xs)"
  using requirement_order.SortFunc_unique [of ys xs]
    requirement_order.in_order_SortFunc [of xs] requirement_order.cmp_zero [of a b]
  by (auto simp: requirement_order.in_order_def)

end
