(* ===== verification/Selector.thy ===== *)
theory Selector
  imports Requirement Values
begin

text \<open>
  Label selectors and string sets of \<open>internal/config/config.go\<close>. A selector keeps the
  patterns as written (\<open>s\<close>) and compiled (\<open>m\<close>). The glob library is not part of the
  repository: its compiler and its matcher are parameters (\<open>compile\<close>, \<open>match\<close>), and nothing
  is assumed about them.
\<close>

type_synonym labels = "(string, string) fmap"

subsection \<open>String sets\<close>

type_synonym stringset = "string list"

definition StringSet_Equal :: "stringset \<Rightarrow> stringset \<Rightarrow> bool" where
  "StringSet_Equal a b = SetEqual id (=) a b"

text \<open>\<open>sort.Search(n, f)\<close> of the standard library: the binary search loop, kept as it is.\<close>

function sort_Search_loop :: "(nat \<Rightarrow> bool) \<Rightarrow> nat \<Rightarrow> nat \<Rightarrow> nat" where
  "sort_Search_loop f i j =
     (if i < j then
        let h = (i + j) div 2 in
        if \<not> f h then sort_Search_loop f (h + 1) j else sort_Search_loop f i h
      else i)"
  by pat_completeness auto
termination
  by (relation "measure (\<lambda>(f, i, j). j - i)") (auto simp: Let_def)

declare sort_Search_loop.simps [simp del]

definition sort_Search :: "nat \<Rightarrow> (nat \<Rightarrow> bool) \<Rightarrow> nat" where
  "sort_Search n f = sort_Search_loop f 0 n"

definition StringSet_Add :: "stringset \<Rightarrow> string \<Rightarrow> stringset" where
  "StringSet_Add a value =
     (let i = sort_Search (length a) (\<lambda>i. a ! i \<ge> value) in
      if i < length a \<and> a ! i = value then a
      else take i a @ [value] @ drop i a)"

lemma StringSet_Equal_iff [eq_simps]: "StringSet_Equal a b \<longleftrightarrow> set a = set b"
  by (simp add: StringSet_Equal_def SetEqual_id_iff)

interpretation stringset_eq: go_equal StringSet_Equal
  by unfold_locales (auto simp: StringSet_Equal_iff)

lemma sort_Search_loop_spec:
  assumes "i \<le> j"
    and "\<And>k. k < i \<Longrightarrow> \<not> f k" and "\<And>k. j \<le> k \<Longrightarrow> k < n \<Longrightarrow> f k" and "j \<le> n"
    and mono: "\<And>k l. k \<le> l \<Longrightarrow> l < n \<Longrightarrow> f k \<Longrightarrow> f l"
  shows "sort_Search_loop f i j \<le> n \<and> (\<forall>k < sort_Search_loop f i j. \<not> f k) \<and>
    (\<forall>k. sort_Search_loop f i j \<le> k \<longrightarrow> k < n \<longrightarrow> f k)"
  using assms
proof (induction f i j rule: sort_Search_loop.induct)
  case (1 f i j)
  note mono = "1.prems"(5)
  show ?case
  proof (cases "i < j")
    case False
    then have "sort_Search_loop f i j = i"
      by (simp add: sort_Search_loop.simps [of f i j])
    with False "1.prems" show ?thesis by auto
  next
    case lt: True
    define h where "h = (i + j) div 2"
    have h: "i \<le> h" "h < j" using lt by (auto simp: h_def)
    show ?thesis
    proof (cases "f h")
      case True
      then have nn: "\<not> \<not> f h" by simp
      have eq: "sort_Search_loop f i j = sort_Search_loop f i h"
        using lt True by (simp add: sort_Search_loop.simps [of f i j] h_def Let_def)
      have above: "f k" if "h \<le> k" "k < n" for k
        using mono [OF that True] .
      have "h \<le> n" using h "1.prems"(4) by auto
      show ?thesis
        unfolding eq by (rule 1(2) [OF lt h_def nn h(1) "1.prems"(2) above \<open>h \<le> n\<close> mono])
    next
      case False
      have eq: "sort_Search_loop f i j = sort_Search_loop f (h + 1) j"
        using lt False by (simp add: sort_Search_loop.simps [of f i j] h_def Let_def)
      have below: "\<not> f k" if "k < h + 1" for k
        using mono [of k h] False that h "1.prems"(4) by auto
      have "h + 1 \<le> j" using h by auto
      show ?thesis
        unfolding eq
        by (rule 1(1) [OF lt h_def False \<open>h + 1 \<le> j\<close> below "1.prems"(3,4) mono])
    qed
  qed
qed

lemma sort_Search_spec:
  assumes "\<And>k l. k \<le> l \<Longrightarrow> l < n \<Longrightarrow> f k \<Longrightarrow> f l"
  shows "sort_Search n f \<le> n \<and> (\<forall>k < sort_Search n f. \<not> f k) \<and>
    (\<forall>k. sort_Search n f \<le> k \<longrightarrow> k < n \<longrightarrow> f k)"
  unfolding sort_Search_def
  by (rule sort_Search_loop_spec) (use assms in auto)

lemma StringSet_Add_split:
  assumes "sorted a"
  obtains l r where "a = l @ r" "\<forall>x \<in> set l. x < value" "\<forall>x \<in> set r. value \<le> x"
    "StringSet_Add a value = (if value \<in> set a then a else l @ value # r)"
proof -
  define i where "i = sort_Search (length a) (\<lambda>i. a ! i \<ge> value)"
  have i: "i \<le> length a" "\<forall>k < i. a ! k < value"
    "\<forall>k. i \<le> k \<longrightarrow> k < length a \<longrightarrow> value \<le> a ! k"
    using sort_Search_spec [of "length a" "\<lambda>i. a ! i \<ge> value"] assms
    by (auto simp: i_def not_le sorted_iff_nth_mono intro: order_trans)
  have lo: "\<forall>x \<in> set (take i a). x < value" and hi: "\<forall>x \<in> set (drop i a). value \<le> x"
    using i by (auto simp: in_set_conv_nth)
  have mem: "value \<in> set a \<longleftrightarrow> i < length a \<and> a ! i = value"
  proof
    assume "value \<in> set a"
    then obtain k where k: "k < length a" "a ! k = value" by (auto simp: in_set_conv_nth)
    then have "i \<le> k" using i(2) by (metis less_irrefl not_le)
    moreover from this k(1) have "a ! i \<le> a ! k"
      using assms by (simp add: sorted_nth_mono)
    ultimately show "i < length a \<and> a ! i = value"
      using i(3) k by (metis le_refl le_less_trans order_antisym)
  qed auto
  have "StringSet_Add a value = (if value \<in> set a then a else take i a @ value # drop i a)"
    unfolding StringSet_Add_def Let_def i_def [symmetric] using mem by simp
  with lo hi show thesis
    using that [of "take i a" "drop i a"] by simp
qed

lemma set_StringSet_Add: "sorted a \<Longrightarrow> set (StringSet_Add a value) = insert value (set a)"
  by (rule StringSet_Add_split [of a "value"]) auto

lemma sorted_StringSet_Add: "sorted a \<Longrightarrow> sorted (StringSet_Add a value)"
  by (rule StringSet_Add_split [of a "value"]) (auto simp: sorted_append less_imp_le split: if_splits)

lemma distinct_StringSet_Add:
  "sorted a \<Longrightarrow> distinct a \<Longrightarrow> distinct (StringSet_Add a value)"
  by (rule StringSet_Add_split [of a "value"]) auto

subsection \<open>Selectors\<close>

record 'g selector =
  sel_s :: "(string, stringset) fmap"
  sel_m :: "(string, 'g list) fmap"

datatype selector_error = BadPattern string

definition new_selector :: "'g selector" where
  "new_selector = \<lparr>sel_s = fmempty, sel_m = fmempty\<rparr>"

definition fm_get :: "('k, 'v list) fmap \<Rightarrow> 'k \<Rightarrow> 'v list" where
  "fm_get m k = (case fmlookup m k of None \<Rightarrow> [] | Some v \<Rightarrow> v)"

fun Selector_append ::
    "(string \<Rightarrow> 'g option) \<Rightarrow> string \<Rightarrow> string list \<Rightarrow> 'g selector \<Rightarrow> selector_error + 'g selector" where
  "Selector_append compile key [] s = Inr s"
| "Selector_append compile key (v # vs) s =
     (case compile v of
        None \<Rightarrow> Inl (BadPattern key)
      | Some g \<Rightarrow>
          Selector_append compile key vs
            (s\<lparr>sel_m := fmupd key (fm_get (sel_m s) key @ [g]) (sel_m s)\<rparr>))"

definition Selector_Set ::
    "(string \<Rightarrow> 'g option) \<Rightarrow> string \<Rightarrow> stringset \<Rightarrow> 'g selector \<Rightarrow> selector_error + 'g selector" where
  "Selector_Set compile key value s =
     result_bind
       (if length value > 0 then Selector_append compile key value s
        else Inr (s\<lparr>sel_m := fmupd key [] (sel_m s)\<rparr>))
       (\<lambda>s. Inr (s\<lparr>sel_s := fmupd key value (sel_s s)\<rparr>))"

definition Selector_unmarshal ::
    "(string \<Rightarrow> 'g option) \<Rightarrow> (string \<times> stringset) list \<Rightarrow> selector_error + 'g selector" where
  "Selector_unmarshal compile raw =
     fold_result (\<lambda>(key, value). Selector_Set compile key value) raw new_selector"

definition Selector_Matches :: "('g \<Rightarrow> string \<Rightarrow> bool) \<Rightarrow> 'g selector \<Rightarrow> labels \<Rightarrow> bool" where
  "Selector_Matches gmatch s labels \<longleftrightarrow>
     fmpred (\<lambda>expLabel expValues.
       case fmlookup labels expLabel of
         None \<Rightarrow> False
       | Some v \<Rightarrow> \<not> (length expValues > 0 \<and> \<not> list_ex (\<lambda>ev. gmatch ev v) expValues))
     (sel_m s)"

fun Selector_PtrMatches :: "('g \<Rightarrow> string \<Rightarrow> bool) \<Rightarrow> 'g selector option \<Rightarrow> labels \<Rightarrow> bool" where
  "Selector_PtrMatches gmatch None labels = False"
| "Selector_PtrMatches gmatch (Some s) labels = Selector_Matches gmatch s labels"

definition Selector_Equal :: "'g selector \<Rightarrow> 'g selector \<Rightarrow> bool" where
  "Selector_Equal s other = fmrel StringSet_Equal (sel_s s) (sel_s other)"

fun Selector_PtrEqual :: "'g selector option \<Rightarrow> 'g selector option \<Rightarrow> bool" where
  "Selector_PtrEqual None None = True"
| "Selector_PtrEqual None (Some _) = False"
| "Selector_PtrEqual (Some _) None = False"
| "Selector_PtrEqual (Some s) (Some other) = Selector_Equal s other"

definition Selector_Get :: "'g selector \<Rightarrow> string \<Rightarrow> stringset option" where
  "Selector_Get s key = fmlookup (sel_s s) key"

definition Selector_Len :: "'g selector \<Rightarrow> nat" where
  "Selector_Len s = fcard (fmdom (sel_s s))"

subsection \<open>Lemmas\<close>

lemma StringSet_fmrel: "fmrel StringSet_Equal m n \<longleftrightarrow> fmmap set m = fmmap set n"
proof -
  have "rel_option StringSet_Equal x y \<longleftrightarrow> map_option set x = map_option set y" for x y
    by (cases x; cases y) (auto simp: StringSet_Equal_iff)
  then show ?thesis
    by (simp add: fmrel_iff fmap_eq_iff)
qed

lemma Selector_Equal_iff [eq_simps]:
  "Selector_Equal s t \<longleftrightarrow> fmmap set (sel_s s) = fmmap set (sel_s t)"
  by (simp add: Selector_Equal_def StringSet_fmrel)

interpretation selector_eq: go_equal Selector_Equal
  by unfold_locales (auto simp: Selector_Equal_iff)

lemma Selector_PtrEqual_rel [eq_simps]: "Selector_PtrEqual = rel_option Selector_Equal"
proof (intro ext)
  fix a b
  show "Selector_PtrEqual a b = rel_option Selector_Equal a b"
    by (cases a; cases b) auto
qed

text \<open>What setting a key does to a selector that does not have it yet.\<close>

lemma Selector_append_ok:
  "Selector_append compile key vs s = Inr s' \<longleftrightarrow>
     (\<forall>v \<in> set vs. compile v \<noteq> None) \<and>
     s' = (if vs = [] then s
           else s\<lparr>sel_m := fmupd key (fm_get (sel_m s) key @ map (the \<circ> compile) vs) (sel_m s)\<rparr>)"
proof (induction vs arbitrary: s)
  case Nil
  then show ?case by auto
next
  case (Cons v vs)
  show ?case
  proof (cases "compile v")
    case None
    then show ?thesis by simp
  next
    case (Some g)
    have get: "fm_get (fmupd key xs m) key = xs" for xs and m :: "(string, 'a list) fmap"
      by (simp add: fm_get_def)
    show ?thesis
      by (auto simp: Some Cons.IH get comp_def)
  qed
qed

lemma Selector_append_total:
  "\<forall>v \<in> set vs. compile v \<noteq> None \<Longrightarrow> \<exists>s'. Selector_append compile key vs s = Inr s'"
  by (subst Selector_append_ok) blast

lemma Selector_Set_ok:
  "Selector_Set compile key vs s = Inr s' \<longleftrightarrow>
     (\<forall>v \<in> set vs. compile v \<noteq> None) \<and>
     s' = s\<lparr>sel_s := fmupd key vs (sel_s s),
            sel_m := fmupd key (if vs = [] then [] else fm_get (sel_m s) key @ map (the \<circ> compile) vs)
                       (sel_m s)\<rparr>"
proof (cases "vs = []")
  case True
  then show ?thesis by (auto simp: Selector_Set_def)
next
  case False
  then show ?thesis
    by (auto simp: Selector_Set_def result_bind_Inr_iff Selector_append_ok)
qed

definition compiled_from ::
    "(string \<Rightarrow> 'g option) \<Rightarrow> (string \<times> stringset) list \<Rightarrow> 'g selector \<Rightarrow> bool" where
  "compiled_from compile raw s \<longleftrightarrow>
     sel_s s = fmap_of_list (rev raw) \<and>
     sel_m s = fmmap (map (the \<circ> compile)) (fmap_of_list (rev raw)) \<and>
     (\<forall>(k, vs) \<in> set raw. \<forall>v \<in> set vs. compile v \<noteq> None)"

lemma unmarshal_snoc:
  "Selector_unmarshal compile (raw @ [(k, vs)]) =
     result_bind (Selector_unmarshal compile raw) (Selector_Set compile k vs)"
  by (simp add: Selector_unmarshal_def fold_result_snoc)

lemma unmarshal_compiled:
  "distinct (map fst raw) \<Longrightarrow>
     Selector_unmarshal compile raw = Inr s \<longleftrightarrow> compiled_from compile raw s"
proof (induction raw arbitrary: s rule: rev_induct)
  case Nil
  then show ?case
    by (auto simp: Selector_unmarshal_def new_selector_def compiled_from_def)
next
  case (snoc kv raw)
  obtain k vs where kv: "kv = (k, vs)" by force
  have fresh: "k \<notin> fst ` set raw" and dist: "distinct (map fst raw)"
    using snoc.prems by (auto simp: kv)
  have get: "fm_get (fmmap (map (the \<circ> compile)) (fmap_of_list (rev raw))) k = []"
  proof -
    have "map_of (rev raw) k = None" using fresh by (auto simp: map_of_eq_None_iff)
    then show ?thesis by (simp add: fm_get_def fmlookup_of_list)
  qed
  define s0 where "s0 = \<lparr>sel_s = fmap_of_list (rev raw),
    sel_m = fmmap (map (the \<circ> compile)) (fmap_of_list (rev raw))\<rparr>"
  have prev: "compiled_from compile raw x \<longleftrightarrow>
      x = s0 \<and> (\<forall>(k, vs) \<in> set raw. \<forall>v \<in> set vs. compile v \<noteq> None)" for x
    by (auto simp: compiled_from_def s0_def)
  have "Selector_Set compile k vs s0 = Inr s \<longleftrightarrow>
      (\<forall>v \<in> set vs. compile v \<noteq> None) \<and>
      s = \<lparr>sel_s = fmap_of_list (rev (raw @ [(k, vs)])),
        sel_m = fmmap (map (the \<circ> compile)) (fmap_of_list (rev (raw @ [(k, vs)])))\<rparr>"
    by (simp add: Selector_Set_ok s0_def get fmmap_fmupd cong: if_cong)
  then show ?case
    unfolding kv unmarshal_snoc result_bind_Inr_iff snoc.IH [OF dist] prev
    by (auto simp: compiled_from_def)
qed

lemma Matches_iff:
  "Selector_Matches gmatch s labels \<longleftrightarrow>
     (\<forall>k gs. fmlookup (sel_m s) k = Some gs \<longrightarrow>
        (\<exists>v. fmlookup labels k = Some v \<and> (gs = [] \<or> (\<exists>g \<in> set gs. gmatch g v))))"
  by (simp add: Selector_Matches_def fmpred_iff list_ex_iff case_option_False)

subsection \<open>Properties\<close>

text \<open>
  \<open>StringSet.Add\<close>, by binary search, inserts into a sorted set of strings: the result is
  sorted, has no new duplicates and holds the old strings and the new one.
\<close>

theorem StringSet_Add_inserts:
  assumes "sorted a" and "distinct a"
  shows "sorted (StringSet_Add a v) \<and> distinct (StringSet_Add a v) \<and>
    set (StringSet_Add a v) = insert v (set a)"
  using assms by (simp add: sorted_StringSet_Add distinct_StringSet_Add set_StringSet_Add)

theorem StringSet_Add_inserts_witness:
  "sorted [''a'', ''c''] \<and> set (StringSet_Add [''a'', ''c''] ''b'') = {''a'', ''b'', ''c''}"
  using StringSet_Add_inserts [of "[''a'', ''c'']" "''b''"] by auto

text \<open>
  a selector read from a configuration accepts a set of labels exactly when every label
  the configuration names is present with a value that one of its patterns matches, or with
  any value when the configuration gives no pattern; and reading it fails exactly when some
  pattern does not compile. Neither depends on the order in which the entries are visited.
\<close>

theorem Selector_unmarshal_Matches:
  assumes "distinct (map fst raw)"
  shows "case Selector_unmarshal compile raw of
      Inl _ \<Rightarrow> \<exists>k vs p. (k, vs) \<in> set raw \<and> p \<in> set vs \<and> compile p = None
    | Inr s \<Rightarrow> Selector_Matches gmatch s labels \<longleftrightarrow>
        (\<forall>k vs. (k, vs) \<in> set raw \<longrightarrow>
           (\<exists>v. fmlookup labels k = Some v \<and>
              (vs = [] \<or> (\<exists>p g. p \<in> set vs \<and> compile p = Some g \<and> gmatch g v))))"
proof (cases "Selector_unmarshal compile raw")
  case (Inl e)
  then have "\<not> compiled_from compile raw \<lparr>sel_s = fmap_of_list (rev raw),
      sel_m = fmmap (map (the \<circ> compile)) (fmap_of_list (rev raw))\<rparr>"
    using unmarshal_compiled [OF assms] by (metis sum.distinct(1))
  with Inl show ?thesis by (fastforce simp: compiled_from_def)
next
  case (Inr s)
  then have c: "compiled_from compile raw s"
    using unmarshal_compiled [OF assms] by blast
  have raw: "map_of (rev raw) k = Some vs \<longleftrightarrow> (k, vs) \<in> set raw" for k vs
    using assms by (simp add: rev_map [symmetric] map_of_eq_Some_iff)
  have look: "fmlookup (sel_m s) k = Some gs \<longleftrightarrow>
      (\<exists>vs. (k, vs) \<in> set raw \<and> gs = map (the \<circ> compile) vs)" for k gs
    using c by (auto simp: compiled_from_def fmlookup_of_list raw [symmetric])
  have pats: "(\<exists>g \<in> set (map (the \<circ> compile) vs). gmatch g v) \<longleftrightarrow>
      (\<exists>p g. p \<in> set vs \<and> compile p = Some g \<and> gmatch g v)" if "(k, vs) \<in> set raw" for k vs v
  proof -
    have "\<forall>p \<in> set vs. \<exists>g. compile p = Some g"
      using c that by (auto simp: compiled_from_def)
    then show ?thesis by (simp add: Bex_def) (metis option.sel)
  qed
  have "Selector_Matches gmatch s labels \<longleftrightarrow>
      (\<forall>k vs. (k, vs) \<in> set raw \<longrightarrow> (\<exists>v. fmlookup labels k = Some v \<and>
         (map (the \<circ> compile) vs = [] \<or> (\<exists>g \<in> set (map (the \<circ> compile) vs). gmatch g v))))"
    by (simp only: Matches_iff look) blast
  also have "\<dots> \<longleftrightarrow>
      (\<forall>k vs. (k, vs) \<in> set raw \<longrightarrow> (\<exists>v. fmlookup labels k = Some v \<and>
         (vs = [] \<or> (\<exists>p g. p \<in> set vs \<and> compile p = Some g \<and> gmatch g v))))"
    by (intro all_cong1 imp_cong refl ex_cong1 conj_cong disj_cong pats)
      (simp_all only: list.map_disc_iff)
  finally show ?thesis by (simp only: Inr sum.case)
qed

theorem Selector_unmarshal_Matches_witness:
  "case Selector_unmarshal (\<lambda>p. if p = ''['' then None else Some p) [(''env'', [''prod''])] of
      Inl _ \<Rightarrow> False
    | Inr s \<Rightarrow> Selector_Matches (=) s (fmap_of_list [(''env'', ''prod'')]) \<and>
        \<not> Selector_Matches (=) s (fmap_of_list [(''env'', ''dev'')])"
  using Selector_unmarshal_Matches [of "[(''env'', [''prod''])]"
      "\<lambda>p. if p = ''['' then None else Some p" "(=)" "fmap_of_list [(''env'', ''prod'')]"]
    Selector_unmarshal_Matches [of "[(''env'', [''prod''])]"
      "\<lambda>p. if p = ''['' then None else Some p" "(=)" "fmap_of_list [(''env'', ''dev'')]"]
  by (auto simp: fmap_of_list_simps split: sum.splits)

text \<open>
  setting a key that a selector already has replaces the patterns the key is written
  with, but the compiled patterns accumulate: unless the new list is empty, the selector goes
  on accepting every value that it accepted for the key before.
\<close>

theorem Selector_Set_accumulates:
  "Selector_Set compile key (v # vs) s = Inr s' \<Longrightarrow>
     Selector_Get s' key = Some (v # vs) \<and>
     set (fm_get (sel_m s) key) \<subseteq> set (fm_get (sel_m s') key)"
  by (auto simp: Selector_Set_ok Selector_Get_def fm_get_def)

theorem Selector_Set_accumulates_witness:
  "\<exists>s s'. Selector_Set Some ''k'' [''a''] new_selector = Inr s \<and>
     Selector_Set Some ''k'' [''b''] s = Inr s' \<and>
     Selector_Get s' ''k'' = Some [''b''] \<and> ''a'' \<in> set (fm_get (sel_m s') ''k'')"
proof -
  obtain s where s: "Selector_Set Some ''k'' [''a''] new_selector = Inr s"
    by (simp add: Selector_Set_def)
  obtain s' where s': "Selector_Set Some ''k'' [''b''] s = Inr s'"
    by (simp add: Selector_Set_def)
  have "''a'' \<in> set (fm_get (sel_m s) ''k'')"
    using s by (auto simp: Selector_Set_ok fm_get_def)
  with Selector_Set_accumulates [OF s'] s s' show ?thesis by blast
qed

end
