(* ===== verification/Config.thy ===== *)
theory Config
  imports Selector
begin

text \<open>
  The configuration data of \<open>internal/config/config.go\<close> with its Equal and validate methods.
  A method on a pointer takes an \<open>option\<close>. Every Equal method comes with a \<open>view\<close>: the part
  of the value it compares, with string sets as sets and requirement lists as multisets. The
  interface \<open>go_equal_view\<close> turns "two values are equal when their views are" into everything
  the clients need (equivalence, lists compared as sets, pointers).
\<close>

subsection \<open>Secrets and references to them\<close>

record secret =
  sec_Name :: string
  sec_Value :: "(string, any) fmap option"

record secretref =
  ref_Name :: string
  ref_value :: "secret option"

definition Secret_Ref :: "secret \<Rightarrow> secretref" where
  "Secret_Ref s = \<lparr>ref_Name = sec_Name s, ref_value = Some s\<rparr>"

definition Secret_Equal :: "secret option \<Rightarrow> secret option \<Rightarrow> bool" where
  "Secret_Equal s other = FastEqual False
     (\<lambda>s other. sec_Name s = sec_Name other \<and> sec_Value s = sec_Value other) s other"

definition SecretRef_Equal :: "secretref option \<Rightarrow> secretref option \<Rightarrow> bool" where
  "SecretRef_Equal s other = FastEqual False
     (\<lambda>s other. ref_Name s = ref_Name other \<and> Secret_Equal (ref_value s) (ref_value other))
     s other"

subsection \<open>Git, data sources and sources\<close>

record git =
  git_Repo :: string
  git_Reference :: "string option"
  git_Commit :: "string option"
  git_Path :: "string option"
  git_IncludedFiles :: stringset
  git_ExcludedFiles :: stringset
  git_Credentials :: "secretref option"

definition Git_Equal :: "git option \<Rightarrow> git option \<Rightarrow> bool" where
  "Git_Equal g other = FastEqual False
     (\<lambda>g other. PtrEqual (git_Reference g) (git_Reference other) \<and>
        PtrEqual (git_Commit g) (git_Commit other) \<and>
        PtrEqual (git_Path g) (git_Path other) \<and>
        SecretRef_Equal (git_Credentials g) (git_Credentials other) \<and>
        StringSet_Equal (git_IncludedFiles g) (git_IncludedFiles other) \<and>
        StringSet_Equal (git_ExcludedFiles g) (git_ExcludedFiles other))
     g other"

record datasource =
  ds_Name :: string
  ds_Path :: string
  ds_Type :: string
  ds_TransformQuery :: string
  ds_Config :: "(string, any) fmap option"
  ds_Credentials :: "secretref option"

definition Datasource_Equal :: "datasource option \<Rightarrow> datasource option \<Rightarrow> bool" where
  "Datasource_Equal d other = FastEqual False
     (\<lambda>d other. ds_Name d = ds_Name other \<and>
        ds_Path d = ds_Path other \<and>
        ds_Type d = ds_Type other \<and>
        ds_TransformQuery d = ds_TransformQuery other \<and>
        ds_Config d = ds_Config other \<and>
        SecretRef_Equal (ds_Credentials d) (ds_Credentials other))
     d other"

definition Datasources_Equal :: "datasource list \<Rightarrow> datasource list \<Rightarrow> bool" where
  "Datasources_Equal a b = SetEqual ds_Name (\<lambda>a b. Datasource_Equal (Some a) (Some b)) a b"

type_synonym files = "(string, string) fmap"

definition Files_Equal :: "files \<Rightarrow> files \<Rightarrow> bool" where
  "Files_Equal f other = fmrel (=) f other"

record source =
  src_ID :: int
  src_Name :: string
  src_Builtin :: "string option"
  src_Git :: git
  src_Datasources :: "datasource list"
  src_EmbeddedFiles :: "files option"
  src_Directory :: string
  src_Paths :: stringset
  src_Requirements :: "requirements option"

definition Source_Equal :: "source option \<Rightarrow> source option \<Rightarrow> bool" where
  "Source_Equal s other = FastEqual False
     (\<lambda>s other. src_Name s = src_Name other \<and>
        PtrEqual (src_Builtin s) (src_Builtin other) \<and>
        Git_Equal (Some (src_Git s)) (Some (src_Git other)) \<and>
        Datasources_Equal (src_Datasources s) (src_Datasources other) \<and>
        Files_Equal (gomap (src_EmbeddedFiles s)) (gomap (src_EmbeddedFiles other)) \<and>
        src_Directory s = src_Directory other \<and>
        StringSet_Equal (src_Paths s) (src_Paths other) \<and>
        Requirements_Equal (slice (src_Requirements s)) (slice (src_Requirements other)))
     s other"

definition Sources_Equal :: "source list \<Rightarrow> source list \<Rightarrow> bool" where
  "Sources_Equal a b = SetEqual src_Name (\<lambda>a b. Source_Equal (Some a) (Some b)) a b"

definition Source_Requirement :: "source \<Rightarrow> requirement" where
  "Source_Requirement s =
     \<lparr>req_Source = Some (src_Name s), req_Commit = None, req_Path = [], req_Prefix = [],
      req_AutoMount = None\<rparr>"

definition SetEmbeddedFile :: "string \<Rightarrow> string \<Rightarrow> source \<Rightarrow> source" where
  "SetEmbeddedFile path content s =
     s\<lparr>src_EmbeddedFiles := Some (fmupd path content (gomap (src_EmbeddedFiles s)))\<rparr>"

definition SetEmbeddedFiles :: "(string \<times> string) list \<Rightarrow> source \<Rightarrow> source" where
  "SetEmbeddedFiles files s =
     foldl (\<lambda>s (path, content). SetEmbeddedFile path content s)
       (s\<lparr>src_EmbeddedFiles := None\<rparr>) files"

definition SetPath :: "string \<Rightarrow> source \<Rightarrow> source" where
  "SetPath path s =
     (if path \<in> set (src_Paths s) then s else s\<lparr>src_Paths := src_Paths s @ [path]\<rparr>)"

definition SetDirectory :: "string \<Rightarrow> source \<Rightarrow> source" where
  "SetDirectory directory s = s\<lparr>src_Directory := directory\<rparr>"

subsection \<open>Stacks\<close>

record 'g stack =
  stk_Name :: string
  stk_Selector :: "'g selector"
  stk_ExcludeSelector :: "'g selector option"
  stk_Requirements :: "requirements option"

definition Stack_Equal :: "'g stack option \<Rightarrow> 'g stack option \<Rightarrow> bool" where
  "Stack_Equal a other = FastEqual False
     (\<lambda>a other. stk_Name a = stk_Name other \<and>
        Selector_Equal (stk_Selector a) (stk_Selector other) \<and>
        Selector_PtrEqual (stk_ExcludeSelector a) (stk_ExcludeSelector other) \<and>
        Requirements_Equal (slice (stk_Requirements a)) (slice (stk_Requirements other)))
     a other"

definition Stacks_Equal :: "'g stack list \<Rightarrow> 'g stack list \<Rightarrow> bool" where
  "Stacks_Equal a b = SetEqual stk_Name (\<lambda>a b. Stack_Equal (Some a) (Some b)) a b"

subsection \<open>Object storage\<close>

record amazons3 =
  s3_Bucket :: string
  s3_Key :: string
  s3_Region :: string
  s3_Credentials :: "secretref option"
  s3_URL :: string

record gcpstorage =
  gcp_Project :: string
  gcp_Bucket :: string
  gcp_Object :: string
  gcp_Credentials :: "secretref option"

record azurestorage =
  az_AccountURL :: string
  az_Container :: string
  az_Path :: string
  az_Credentials :: "secretref option"

record fsstorage =
  fs_Path :: string

record objectstorage =
  os_AmazonS3 :: "amazons3 option"
  os_GCPCloudStorage :: "gcpstorage option"
  os_AzureBlobStorage :: "azurestorage option"
  os_FileSystemStorage :: "fsstorage option"

definition AmazonS3_Equal :: "amazons3 option \<Rightarrow> amazons3 option \<Rightarrow> bool" where
  "AmazonS3_Equal a other = FastEqual False
     (\<lambda>a other. s3_Bucket a = s3_Bucket other \<and>
        s3_Key a = s3_Key other \<and>
        s3_Region a = s3_Region other \<and>
        SecretRef_Equal (s3_Credentials a) (s3_Credentials other) \<and>
        s3_URL a = s3_URL other)
     a other"

definition GCPCloudStorage_Equal :: "gcpstorage option \<Rightarrow> gcpstorage option \<Rightarrow> bool" where
  "GCPCloudStorage_Equal g other = FastEqual False
     (\<lambda>g other. gcp_Project g = gcp_Project other \<and>
        gcp_Bucket g = gcp_Bucket other \<and>
        gcp_Object g = gcp_Object other)
     g other"

definition AzureBlobStorage_Equal :: "azurestorage option \<Rightarrow> azurestorage option \<Rightarrow> bool" where
  "AzureBlobStorage_Equal a other = FastEqual False
     (\<lambda>a other. az_AccountURL a = az_AccountURL other \<and>
        az_Container a = az_Container other \<and>
        az_Path a = az_Path other)
     a other"

definition FileSystemStorage_Equal :: "fsstorage option \<Rightarrow> fsstorage option \<Rightarrow> bool" where
  "FileSystemStorage_Equal f other = FastEqual False (\<lambda>f other. fs_Path f = fs_Path other) f other"

definition ObjectStorage_Equal :: "objectstorage option \<Rightarrow> objectstorage option \<Rightarrow> bool" where
  "ObjectStorage_Equal o1 other = FastEqual False
     (\<lambda>o1 other. AmazonS3_Equal (os_AmazonS3 o1) (os_AmazonS3 other) \<and>
        GCPCloudStorage_Equal (os_GCPCloudStorage o1) (os_GCPCloudStorage other) \<and>
        AzureBlobStorage_Equal (os_AzureBlobStorage o1) (os_AzureBlobStorage other) \<and>
        FileSystemStorage_Equal (os_FileSystemStorage o1) (os_FileSystemStorage other))
     o1 other"

subsection \<open>Validation of the object storage\<close>

datatype config_error =
    BadGlob string                 \<comment> \<open>an excluded file pattern does not compile\<close>
  | S3BucketRequired | S3KeyRequired | S3RegionRequired
  | GCPProjectRequired | GCPBucketRequired | GCPObjectRequired
  | AzureURLRequired | AzureContainerRequired | AzurePathRequired
  | FilePathRequired

fun AmazonS3_validate :: "amazons3 option \<Rightarrow> config_error option" where
  "AmazonS3_validate None = None"
| "AmazonS3_validate (Some a) =
     (if s3_Bucket a = [] then Some S3BucketRequired
      else if s3_Key a = [] then Some S3KeyRequired
      else if s3_Region a = [] then Some S3RegionRequired
      else None)"

fun GCPCloudStorage_validate :: "gcpstorage option \<Rightarrow> config_error option" where
  "GCPCloudStorage_validate None = None"
| "GCPCloudStorage_validate (Some g) =
     (if gcp_Project g = [] then Some GCPProjectRequired
      else if gcp_Bucket g = [] then Some GCPBucketRequired
      else if gcp_Object g = [] then Some GCPObjectRequired
      else None)"

fun AzureBlobStorage_validate :: "azurestorage option \<Rightarrow> config_error option" where
  "AzureBlobStorage_validate None = None"
| "AzureBlobStorage_validate (Some a) =
     (if az_AccountURL a = [] then Some AzureURLRequired
      else if az_Container a = [] then Some AzureContainerRequired
      else if az_Path a = [] then Some AzurePathRequired
      else None)"

fun FileSystemStorage_validate :: "fsstorage option \<Rightarrow> config_error option" where
  "FileSystemStorage_validate None = None"
| "FileSystemStorage_validate (Some f) =
     (if fs_Path f = [] then Some FilePathRequired else None)"

definition ObjectStorage_validate :: "objectstorage \<Rightarrow> config_error option" where
  "ObjectStorage_validate o1 =
     (case AmazonS3_validate (os_AmazonS3 o1) of Some err \<Rightarrow> Some err | None \<Rightarrow>
      case GCPCloudStorage_validate (os_GCPCloudStorage o1) of Some err \<Rightarrow> Some err | None \<Rightarrow>
      case AzureBlobStorage_validate (os_AzureBlobStorage o1) of Some err \<Rightarrow> Some err | None \<Rightarrow>
      FileSystemStorage_validate (os_FileSystemStorage o1))"

subsection \<open>Bundles\<close>

record optimization =
  opt_Level :: int

record options =
  opts_NoDefaultStackMount :: bool
  opts_Optimization :: "optimization option"
  opts_Target :: string

definition Options_zero :: options where
  "Options_zero =
     \<lparr>opts_NoDefaultStackMount = False, opts_Optimization = None, opts_Target = []\<rparr>"

definition Options_Empty :: "options \<Rightarrow> bool" where
  "Options_Empty o1 \<longleftrightarrow>
     opts_NoDefaultStackMount o1 = False \<and> opts_Optimization o1 = None \<and> opts_Target o1 = []"

record bundle_config =
  bun_Name :: string
  bun_Labels :: "labels option"
  bun_Revision :: string
  bun_ObjectStorage :: objectstorage
  bun_Requirements :: "requirements option"
  bun_ExcludedFiles :: stringset
  bun_Interval :: int          \<comment> \<open>nanoseconds\<close>
  bun_Options :: options

definition Bundle_Equal :: "bundle_config option \<Rightarrow> bundle_config option \<Rightarrow> bool" where
  "Bundle_Equal s other = FastEqual False
     (\<lambda>s other. bun_Name s = bun_Name other \<and>
        fmrel (=) (gomap (bun_Labels s)) (gomap (bun_Labels other)) \<and>
        bun_Revision s = bun_Revision other \<and>
        ObjectStorage_Equal (Some (bun_ObjectStorage s)) (Some (bun_ObjectStorage other)) \<and>
        Requirements_Equal (slice (bun_Requirements s)) (slice (bun_Requirements other)) \<and>
        StringSet_Equal (bun_ExcludedFiles s) (bun_ExcludedFiles other) \<and>
        bun_Interval s = bun_Interval other)
     s other"

fun Bundle_validate_globs :: "(string \<Rightarrow> 'g option) \<Rightarrow> string list \<Rightarrow> config_error option" where
  "Bundle_validate_globs compile [] = None"
| "Bundle_validate_globs compile (p # ps) =
     (case compile p of None \<Rightarrow> Some (BadGlob p) | Some _ \<Rightarrow> Bundle_validate_globs compile ps)"

definition Bundle_validate :: "(string \<Rightarrow> 'g option) \<Rightarrow> bundle_config \<Rightarrow> config_error option" where
  "Bundle_validate compile s =
     (case Bundle_validate_globs compile (bun_ExcludedFiles s) of
        Some err \<Rightarrow> Some err
      | None \<Rightarrow> ObjectStorage_validate (bun_ObjectStorage s))"

subsection \<open>Tokens\<close>

record scope =
  sc_Role :: string

record token =
  tok_Name :: string
  tok_APIKey :: string
  tok_Scopes :: "scope list"

definition Scope_Equal :: "scope \<Rightarrow> scope \<Rightarrow> bool" where
  "Scope_Equal s other \<longleftrightarrow> sc_Role s = sc_Role other"

definition scopesEqual :: "scope list \<Rightarrow> scope list \<Rightarrow> bool" where
  "scopesEqual a b =
     (if length a \<noteq> length b then False
      else list_all (\<lambda>bi. list_ex (\<lambda>x. Scope_Equal x bi) a) b)"

definition Token_Equal :: "token option \<Rightarrow> token option \<Rightarrow> bool" where
  "Token_Equal t other = FastEqual False
     (\<lambda>t other. tok_Name t = tok_Name other \<and> tok_APIKey t = tok_APIKey other \<and>
        scopesEqual (tok_Scopes t) (tok_Scopes other))
     t other"

subsection \<open>Views\<close>

locale go_equal_view =
  fixes eq :: "'v option \<Rightarrow> 'v option \<Rightarrow> bool" and view :: "'v \<Rightarrow> 'w"
  assumes eq_view: "eq a b \<longleftrightarrow> map_option view a = map_option view b"

sublocale go_equal_view \<subseteq> go_equal eq
  by unfold_locales (auto simp: eq_view)

context go_equal_view begin

lemma eq_Some_iff: "eq (Some a) (Some b) \<longleftrightarrow> view a = view b"
  by (simp add: eq_view)

lemma SetEqual_view:
  assumes "\<And>a b. view a = view b \<Longrightarrow> key a = key b"
  shows "SetEqual key (\<lambda>a b. eq (Some a) (Some b)) xs ys \<longleftrightarrow>
    (\<lambda>k. map_option view (find (\<lambda>v. key v = k) (rev xs))) =
    (\<lambda>k. map_option view (find (\<lambda>v. key v = k) (rev ys)))"
proof -
  have k: "go_keyed_equal (\<lambda>a b. eq (Some a) (Some b)) key"
  proof unfold_locales
    show "key x = key y" if "eq (Some x) (Some y)" for x y
      using that by (intro assms) (simp add: eq_Some_iff)
  qed (simp_all add: eq_Some_iff)
  have "rel_option (\<lambda>a b. eq (Some a) (Some b)) x y \<longleftrightarrow> map_option view x = map_option view y" for x y
    by (cases x; cases y) (auto simp: eq_Some_iff)
  then show ?thesis
    by (simp add: go_keyed_equal.SetEqual_iff [OF k] fun_eq_iff)
qed

end

lemma rel_option_view:
  "rel_option (\<lambda>a b. f a = f b) x y \<longleftrightarrow> map_option f x = map_option f y"
  by (cases x; cases y) auto

lemma Secret_Equal_iff [eq_simps]: "Secret_Equal a b \<longleftrightarrow> a = b"
  by (cases a; cases b) (auto simp: Secret_Equal_def secret.equality)

lemma SecretRef_Equal_iff [eq_simps]: "SecretRef_Equal a b \<longleftrightarrow> a = b"
  by (cases a; cases b) (auto simp: SecretRef_Equal_def Secret_Equal_iff secretref.equality)

lemma Files_Equal_iff [eq_simps]: "Files_Equal a b \<longleftrightarrow> a = b"
  by (simp add: Files_Equal_def fmap.rel_eq)

definition Git_view where
  "Git_view g = (git_Reference g, git_Commit g, git_Path g, git_Credentials g,
     set (git_IncludedFiles g), set (git_ExcludedFiles g))"

interpretation git_eq: go_equal_view Git_Equal Git_view
proof unfold_locales
  fix a b
  show "Git_Equal a b \<longleftrightarrow> map_option Git_view a = map_option Git_view b"
    by (cases a; cases b) (auto simp: Git_Equal_def Git_view_def eq_simps)
qed

interpretation datasource_eq: go_equal_view Datasource_Equal "\<lambda>d. d"
proof unfold_locales
  fix a b
  show "Datasource_Equal a b \<longleftrightarrow> map_option (\<lambda>d. d) a = map_option (\<lambda>d. d) b"
    by (cases a; cases b) (auto simp: Datasource_Equal_def eq_simps datasource.equality)
qed

definition Datasources_view where
  "Datasources_view ds = (\<lambda>k. find (\<lambda>d. ds_Name d = k) (rev ds))"

lemma Datasources_Equal_iff [eq_simps]:
  "Datasources_Equal a b \<longleftrightarrow> Datasources_view a = Datasources_view b"
  by (simp add: Datasources_Equal_def datasource_eq.SetEqual_view Datasources_view_def
      option.map_ident)

definition Source_view where
  "Source_view s = (src_Name s, src_Builtin s, Git_view (src_Git s),
     Datasources_view (src_Datasources s), gomap (src_EmbeddedFiles s), src_Directory s,
     set (src_Paths s), mset (slice (src_Requirements s)))"

interpretation source_eq: go_equal_view Source_Equal Source_view
proof unfold_locales
  fix a b
  show "Source_Equal a b \<longleftrightarrow> map_option Source_view a = map_option Source_view b"
    by (cases a; cases b)
       (auto simp: Source_Equal_def Source_view_def eq_simps git_eq.eq_Some_iff)
qed

definition Sources_view where
  "Sources_view ss = (\<lambda>k. map_option Source_view (find (\<lambda>s. src_Name s = k) (rev ss)))"

lemma Sources_Equal_iff [eq_simps]: "Sources_Equal a b \<longleftrightarrow> Sources_view a = Sources_view b"
  unfolding Sources_Equal_def Sources_view_def
  by (rule source_eq.SetEqual_view) (simp add: Source_view_def)

definition Stack_view where
  "Stack_view s = (stk_Name s, fmmap set (sel_s (stk_Selector s)),
     map_option (\<lambda>x. fmmap set (sel_s x)) (stk_ExcludeSelector s),
     mset (slice (stk_Requirements s)))"

interpretation stack_eq: go_equal_view Stack_Equal Stack_view
proof unfold_locales
  fix a b :: "'g stack option"
  have "Selector_PtrEqual x y \<longleftrightarrow>
      map_option (\<lambda>x. fmmap set (sel_s x)) x = map_option (\<lambda>x. fmmap set (sel_s x)) y"
    for x y :: "'g selector option"
    by (cases x; cases y) (auto simp: Selector_Equal_iff)
  then show "Stack_Equal a b \<longleftrightarrow> map_option Stack_view a = map_option Stack_view b"
    by (cases a; cases b)
       (auto simp: Stack_Equal_def Stack_view_def Selector_Equal_iff Requirements_Equal_mset)
qed

definition Stacks_view where
  "Stacks_view ss = (\<lambda>k. map_option Stack_view (find (\<lambda>s. stk_Name s = k) (rev ss)))"

lemma Stacks_Equal_iff [eq_simps]: "Stacks_Equal a b \<longleftrightarrow> Stacks_view a = Stacks_view b"
  unfolding Stacks_Equal_def Stacks_view_def
  by (rule stack_eq.SetEqual_view) (simp add: Stack_view_def)

definition GCP_view where
  "GCP_view g = (gcp_Project g, gcp_Bucket g, gcp_Object g)"

definition Azure_view where
  "Azure_view a = (az_AccountURL a, az_Container a, az_Path a)"

definition ObjectStorage_view where
  "ObjectStorage_view o1 = (os_AmazonS3 o1, map_option GCP_view (os_GCPCloudStorage o1),
     map_option Azure_view (os_AzureBlobStorage o1), os_FileSystemStorage o1)"

interpretation s3_eq: go_equal_view AmazonS3_Equal "\<lambda>a. a"
proof unfold_locales
  fix a b
  show "AmazonS3_Equal a b \<longleftrightarrow> map_option (\<lambda>a. a) a = map_option (\<lambda>a. a) b"
    by (cases a; cases b) (auto simp: AmazonS3_Equal_def eq_simps amazons3.equality)
qed

interpretation gcp_eq: go_equal_view GCPCloudStorage_Equal GCP_view
proof unfold_locales
  fix a b
  show "GCPCloudStorage_Equal a b \<longleftrightarrow> map_option GCP_view a = map_option GCP_view b"
    by (cases a; cases b) (auto simp: GCPCloudStorage_Equal_def GCP_view_def)
qed

interpretation azure_eq: go_equal_view AzureBlobStorage_Equal Azure_view
proof unfold_locales
  fix a b
  show "AzureBlobStorage_Equal a b \<longleftrightarrow> map_option Azure_view a = map_option Azure_view b"
    by (cases a; cases b) (auto simp: AzureBlobStorage_Equal_def Azure_view_def)
qed

interpretation fs_eq: go_equal_view FileSystemStorage_Equal "\<lambda>f. f"
proof unfold_locales
  fix a b
  show "FileSystemStorage_Equal a b \<longleftrightarrow> map_option (\<lambda>f. f) a = map_option (\<lambda>f. f) b"
    by (cases a; cases b) (auto simp: FileSystemStorage_Equal_def fsstorage.equality)
qed

interpretation storage_eq: go_equal_view ObjectStorage_Equal ObjectStorage_view
proof unfold_locales
  fix a b
  show "ObjectStorage_Equal a b \<longleftrightarrow> map_option ObjectStorage_view a = map_option ObjectStorage_view b"
    by (cases a; cases b)
       (auto simp: ObjectStorage_Equal_def ObjectStorage_view_def s3_eq.eq_view gcp_eq.eq_view
         azure_eq.eq_view fs_eq.eq_view option.map_ident)
qed

definition Bundle_view where
  "Bundle_view b = (bun_Name b, gomap (bun_Labels b), bun_Revision b,
     ObjectStorage_view (bun_ObjectStorage b), mset (slice (bun_Requirements b)),
     set (bun_ExcludedFiles b), bun_Interval b)"

interpretation bundle_eq: go_equal_view Bundle_Equal Bundle_view
proof unfold_locales
  fix a b
  show "Bundle_Equal a b \<longleftrightarrow> map_option Bundle_view a = map_option Bundle_view b"
    by (cases a; cases b)
       (auto simp: Bundle_Equal_def Bundle_view_def eq_simps storage_eq.eq_Some_iff fmap.rel_eq)
qed

lemma scopesEqual_iff:
  "scopesEqual a b \<longleftrightarrow> length a = length b \<and> set (map sc_Role b) \<subseteq> set (map sc_Role a)"
proof -
  have "(\<exists>x \<in> set a. sc_Role x = r) \<longleftrightarrow> r \<in> set (map sc_Role a)" for r
    by auto
  then show ?thesis
    by (auto simp: scopesEqual_def Scope_Equal_def list_all_iff list_ex_iff)
qed

lemma validate_globs_None_iff:
  "Bundle_validate_globs compile ps = None \<longleftrightarrow> (\<forall>p \<in> set ps. compile p \<noteq> None)"
  by (induction ps) (auto split: option.splits)

lemma storage_validate_None_iff:
  "ObjectStorage_validate o1 = None \<longleftrightarrow>
     AmazonS3_validate (os_AmazonS3 o1) = None \<and>
     GCPCloudStorage_validate (os_GCPCloudStorage o1) = None \<and>
     AzureBlobStorage_validate (os_AzureBlobStorage o1) = None \<and>
     FileSystemStorage_validate (os_FileSystemStorage o1) = None"
  by (auto simp: ObjectStorage_validate_def split: option.splits)

subsection \<open>Properties\<close>

text \<open>
  the Equal methods compare exactly the listed parts. Two lists of sources (of stacks) are
  equal when every name is given by both, or by neither, with equal content (the last element
  of a name counts), where sets of files are compared as sets and requirements up to order.
\<close>

theorem config_Equal_views:
  "(Bundle_Equal (Some b) (Some b') \<longleftrightarrow>
     bun_Name b = bun_Name b' \<and> gomap (bun_Labels b) = gomap (bun_Labels b') \<and>
     bun_Revision b = bun_Revision b' \<and>
     ObjectStorage_Equal (Some (bun_ObjectStorage b)) (Some (bun_ObjectStorage b')) \<and>
     mset (slice (bun_Requirements b)) = mset (slice (bun_Requirements b')) \<and>
     set (bun_ExcludedFiles b) = set (bun_ExcludedFiles b') \<and> bun_Interval b = bun_Interval b') \<and>
   (Sources_Equal ss ss' \<longleftrightarrow>
     (\<forall>name. rel_option (\<lambda>s s'. Source_Equal (Some s) (Some s'))
        (find (\<lambda>s. src_Name s = name) (rev ss)) (find (\<lambda>s. src_Name s = name) (rev ss')))) \<and>
   (Stacks_Equal ks ks' \<longleftrightarrow>
     (\<forall>name. rel_option (\<lambda>s s'. Stack_Equal (Some s) (Some s'))
        (find (\<lambda>s. stk_Name s = name) (rev ks)) (find (\<lambda>s. stk_Name s = name) (rev ks'))))"
  by (auto simp: bundle_eq.eq_Some_iff Bundle_view_def storage_eq.eq_Some_iff Sources_Equal_iff
      Sources_view_def Stacks_Equal_iff Stacks_view_def fun_eq_iff source_eq.eq_Some_iff
      stack_eq.eq_Some_iff rel_option_view)

text \<open>
  what the Equal methods leave out: changing the options of a bundle, the repository a
  source is read from, or the credentials of a GCP or Azure bucket gives an equal value.
\<close>

theorem config_Equal_ignores:
  "Bundle_Equal (Some b) (Some (b\<lparr>bun_Options := opts\<rparr>)) \<and>
   Source_Equal (Some s) (Some (s\<lparr>src_Git := (src_Git s)\<lparr>git_Repo := repo\<rparr>\<rparr>)) \<and>
   GCPCloudStorage_Equal (Some g) (Some (g\<lparr>gcp_Credentials := cred\<rparr>)) \<and>
   AzureBlobStorage_Equal (Some a) (Some (a\<lparr>az_Credentials := cred\<rparr>))"
  by (simp add: bundle_eq.eq_Some_iff Bundle_view_def source_eq.eq_Some_iff Source_view_def
      Git_view_def gcp_eq.eq_Some_iff GCP_view_def azure_eq.eq_Some_iff Azure_view_def)

text \<open>
  a bundle passes validation exactly when every excluded-files pattern compiles and every
  storage that is configured has all of its required fields.
\<close>

theorem Bundle_validate_complete:
  "Bundle_validate compile b = None \<longleftrightarrow>
     list_all (\<lambda>p. compile p \<noteq> None) (bun_ExcludedFiles b) \<and>
     pred_option (\<lambda>a. [] \<notin> {s3_Bucket a, s3_Key a, s3_Region a})
       (os_AmazonS3 (bun_ObjectStorage b)) \<and>
     pred_option (\<lambda>g. [] \<notin> {gcp_Project g, gcp_Bucket g, gcp_Object g})
       (os_GCPCloudStorage (bun_ObjectStorage b)) \<and>
     pred_option (\<lambda>a. [] \<notin> {az_AccountURL a, az_Container a, az_Path a})
       (os_AzureBlobStorage (bun_ObjectStorage b)) \<and>
     pred_option (\<lambda>f. fs_Path f \<noteq> []) (os_FileSystemStorage (bun_ObjectStorage b))"
proof -
  have s3: "AmazonS3_validate x = None \<longleftrightarrow>
      pred_option (\<lambda>a. [] \<notin> {s3_Bucket a, s3_Key a, s3_Region a}) x" for x
    by (cases x) auto
  have gcp: "GCPCloudStorage_validate x = None \<longleftrightarrow>
      pred_option (\<lambda>g. [] \<notin> {gcp_Project g, gcp_Bucket g, gcp_Object g}) x" for x
    by (cases x) auto
  have az: "AzureBlobStorage_validate x = None \<longleftrightarrow>
      pred_option (\<lambda>a. [] \<notin> {az_AccountURL a, az_Container a, az_Path a}) x" for x
    by (cases x) auto
  have fs: "FileSystemStorage_validate x = None \<longleftrightarrow> pred_option (\<lambda>f. fs_Path f \<noteq> []) x" for x
    by (cases x) auto
  have "Bundle_validate compile b = None \<longleftrightarrow>
      Bundle_validate_globs compile (bun_ExcludedFiles b) = None \<and>
      ObjectStorage_validate (bun_ObjectStorage b) = None"
    by (auto simp: Bundle_validate_def split: option.splits)
  then show ?thesis
    by (simp only: validate_globs_None_iff storage_validate_None_iff s3 gcp az fs list_all_iff)
qed

text \<open>
  tokens are compared by name, key and scopes; the scopes of the second token must occur
  among those of the first, so the comparison is reflexive but depends on the order of its
  arguments when a scope is repeated.
\<close>

theorem Token_Equal_asymmetric:
  "(Token_Equal (Some t) (Some t') \<longleftrightarrow>
     tok_Name t = tok_Name t' \<and> tok_APIKey t = tok_APIKey t' \<and>
     length (tok_Scopes t) = length (tok_Scopes t') \<and>
     set (map sc_Role (tok_Scopes t')) \<subseteq> set (map sc_Role (tok_Scopes t))) \<and>
   Token_Equal (Some t) (Some t) \<and>
   (\<exists>x y. Token_Equal (Some x) (Some y) \<and> \<not> Token_Equal (Some y) (Some x))"
proof -
  define x where "x = \<lparr>tok_Name = ''t'', tok_APIKey = ''k'',
    tok_Scopes = [\<lparr>sc_Role = ''viewer''\<rparr>, \<lparr>sc_Role = ''owner''\<rparr>]\<rparr>"
  define y where "y = \<lparr>tok_Name = ''t'', tok_APIKey = ''k'',
    tok_Scopes = [\<lparr>sc_Role = ''viewer''\<rparr>, \<lparr>sc_Role = ''viewer''\<rparr>]\<rparr>"
  have "Token_Equal (Some x) (Some y)" "\<not> Token_Equal (Some y) (Some x)"
    by (simp_all add: Token_Equal_def scopesEqual_iff x_def y_def)
  then have "\<exists>x y. Token_Equal (Some x) (Some y) \<and> \<not> Token_Equal (Some y) (Some x)"
    by blast
  moreover have "Token_Equal (Some t) (Some t)"
    by (simp add: Token_Equal_def scopesEqual_iff)
  ultimately show ?thesis by (simp add: Token_Equal_def scopesEqual_iff)
qed

end
