(* ===== verification/Paths.thy ===== *)
theory Paths
  imports Prelude
begin

text \<open>
  The slash-separated paths of Go's \<open>path\<close> package (and of \<open>path/filepath\<close> on the platforms
  whose separator is the slash, where \<open>ToSlash\<close> is the identity), and the string helpers the
  code uses from \<open>strings\<close>.
\<close>

subsection \<open>Strings\<close>

definition strings_HasPrefix :: "string \<Rightarrow> string \<Rightarrow> bool" where
  "strings_HasPrefix s p = prefix p s"

fun split_on :: "char \<Rightarrow> string \<Rightarrow> string list" where
  "split_on c [] = [[]]"
| "split_on c (x # xs) =
     (if x = c then [] # split_on c xs
      else case split_on c xs of [] \<Rightarrow> [[x]] | w # ws \<Rightarrow> (x # w) # ws)"

fun join_with :: "char \<Rightarrow> string list \<Rightarrow> string" where
  "join_with c [] = []"
| "join_with c [w] = w"
| "join_with c (w # v # ws) = w @ c # join_with c (v # ws)"

text \<open>\<open>strconv.Itoa\<close> of a number that is not negative, and \<open>strings.Join\<close>.\<close>

fun digits :: "nat \<Rightarrow> string" where
  "digits n = (if n < 10 then [char_of (48 + n)] else digits (n div 10) @ [char_of (48 + n mod 10)])"

declare digits.simps [simp del]

definition Itoa :: "nat \<Rightarrow> string" where
  "Itoa n = digits n"

fun strings_Join :: "string list \<Rightarrow> string \<Rightarrow> string" where
  "strings_Join [] sep = []"
| "strings_Join [w] sep = w"
| "strings_Join (w # v # ws) sep = w @ sep @ strings_Join (v # ws) sep"

lemma split_on_not_Nil [simp]: "split_on c s \<noteq> []"
  by (induction s) (auto split: list.splits)

lemma join_split [simp]: "join_with c (split_on c s) = s"
proof (induction s)
  case Nil
  then show ?case by simp
next
  case (Cons x xs)
  show ?case
  proof (cases "split_on c xs")
    case Nil
    then show ?thesis by simp
  next
    case (Cons w ws)
    with Cons.IH show ?thesis by (cases ws) auto
  qed
qed

lemma split_no_sep: "w \<in> set (split_on c s) \<Longrightarrow> c \<notin> set w"
  by (induction s arbitrary: w) (auto split: list.splits if_splits)

lemma split_single: "c \<notin> set w \<Longrightarrow> split_on c w = [w]"
  by (induction w) auto

lemma split_append_sep: "c \<notin> set w \<Longrightarrow> split_on c (w @ c # s) = w # split_on c s"
  by (induction w) auto

lemma split_on_append: "split_on c (xs @ c # ys) = split_on c xs @ split_on c ys"
  by (induction xs) (auto split: list.splits)

lemma split_join:
  "ws \<noteq> [] \<Longrightarrow> \<forall>w \<in> set ws. c \<notin> set w \<Longrightarrow> split_on c (join_with c ws) = ws"
proof (induction c ws rule: join_with.induct)
  case (3 c w v ws)
  then show ?case by (simp add: split_append_sep)
qed (auto simp: split_single)

subsection \<open>Cleaning and joining\<close>

text \<open>
  \<open>path.Clean\<close>: empty and dot elements are dropped and a dot-dot element removes the element
  before it, if there is one that is not itself a dot-dot; at the root it is dropped.
  The stack holds the elements read so far, last first.
\<close>

fun clean_step :: "bool \<Rightarrow> string list \<Rightarrow> string list \<Rightarrow> string list" where
  "clean_step rooted st [] = rev st"
| "clean_step rooted st (e # es) =
     (if e = [] \<or> e = ''.'' then clean_step rooted st es
      else if e = ''..'' then
        (case st of
           [] \<Rightarrow> clean_step rooted (if rooted then [] else [''..'']) es
         | t # st' \<Rightarrow> clean_step rooted (if t = ''..'' then ''..'' # st else st') es)
      else clean_step rooted (e # st) es)"

definition path_rooted :: "string \<Rightarrow> bool" where
  "path_rooted p = strings_HasPrefix p ''/''"

definition path_elements :: "string \<Rightarrow> string list" where
  "path_elements p = clean_step (path_rooted p) [] (split_on CHR ''/'' p)"

definition path_Clean :: "string \<Rightarrow> string" where
  "path_Clean p =
     (let q = (if path_rooted p then ''/'' else []) @ join_with CHR ''/'' (path_elements p)
      in if q = [] then ''.'' else q)"

definition path_Join :: "string list \<Rightarrow> string" where
  "path_Join ps =
     (let qs = dropWhile (\<lambda>p. p = []) ps
      in if qs = [] then [] else path_Clean (join_with CHR ''/'' qs))"

definition path_Base :: "string \<Rightarrow> string" where
  "path_Base p = (if p = [] then ''.'' else
     case filter (\<lambda>e. e \<noteq> []) (split_on CHR ''/'' p) of [] \<Rightarrow> ''/'' | es \<Rightarrow> last es)"

definition path_Dir :: "string \<Rightarrow> string" where
  "path_Dir p = path_Clean (join_with CHR ''/'' (butlast (split_on CHR ''/'' p) @ [[]]))"

fun last_dot :: "string \<Rightarrow> string \<Rightarrow> string" where
  "last_dot acc [] = acc"
| "last_dot acc (c # s) = (if c = CHR ''.'' then last_dot (c # s) s else last_dot acc s)"

text \<open>\<open>filepath.Ext\<close>: the suffix of the last element from its last dot.\<close>

definition path_Ext :: "string \<Rightarrow> string" where
  "path_Ext p = last_dot [] (last (split_on CHR ''/'' p))"

lemma clean_step_app:
  "\<forall>e \<in> set es. e \<noteq> [] \<and> e \<noteq> ''.'' \<and> e \<noteq> ''..'' \<Longrightarrow> clean_step r st es = rev st @ es"
  by (induction es arbitrary: st) auto

text \<open>
  The elements of a cleaned path: dot-dots in front (none in a rooted path), then proper names.
\<close>

definition clean_elements :: "bool \<Rightarrow> string list \<Rightarrow> bool" where
  "clean_elements r es \<longleftrightarrow>
     (\<exists>n ns. es = replicate n ''..'' @ ns \<and> (r \<longrightarrow> n = 0) \<and>
        (\<forall>e \<in> set ns. e \<noteq> [] \<and> e \<noteq> ''.'' \<and> e \<noteq> ''..''))"

lemma clean_step_elements:
  "clean_elements r (rev st) \<Longrightarrow> clean_elements r (clean_step r st es)"
proof (induction r st es rule: clean_step.induct)
  case (2 r st e es)
  have push: "clean_elements r (rev st @ [e])" if "e \<noteq> []" "e \<noteq> ''.''" "e \<noteq> ''..''"
  proof -
    from "2.prems" obtain n ns where "rev st = replicate n ''..'' @ ns" "r \<longrightarrow> n = 0"
      "\<forall>e \<in> set ns. e \<noteq> [] \<and> e \<noteq> ''.'' \<and> e \<noteq> ''..''"
      by (auto simp: clean_elements_def)
    then show ?thesis unfolding clean_elements_def
      using that by (intro exI [of _ n] exI [of _ "ns @ [e]"]) auto
  qed
  have pop: "clean_elements r (rev st')" if "st = t # st'" "t \<noteq> ''..''" for t st'
  proof -
    from "2.prems" that(1) obtain n ns where n: "rev st' @ [t] = replicate n ''..'' @ ns" "r \<longrightarrow> n = 0"
      and ns: "\<forall>e \<in> set ns. e \<noteq> [] \<and> e \<noteq> ''.'' \<and> e \<noteq> ''..''"
      by (auto simp: clean_elements_def)
    have "ns \<noteq> []"
    proof
      assume "ns = []"
      with n(1) have "t \<in> set (replicate n ''..'')" by (metis append_Nil2 in_set_conv_decomp)
      with that(2) show False by (simp split: if_splits)
    qed
    then obtain ns' u where u: "ns = ns' @ [u]" by (metis rev_exhaust)
    with n(1) have "rev st' = replicate n ''..'' @ ns'" by simp
    with n(2) ns u show ?thesis by (auto simp: clean_elements_def)
  qed
  have up: "clean_elements r (rev st @ [''..''])" if "st = t # st'" "t = ''..''" for t st'
  proof -
    from "2.prems" that obtain n ns where n: "rev st' @ [''..''] = replicate n ''..'' @ ns" "r \<longrightarrow> n = 0"
      and ns: "\<forall>e \<in> set ns. e \<noteq> [] \<and> e \<noteq> ''.'' \<and> e \<noteq> ''..''"
      by (auto simp: clean_elements_def)
    have "ns = []"
    proof (rule ccontr)
      assume "ns \<noteq> []"
      then have "last ns = ''..''" using n(1) by (metis last_appendR last_snoc)
      with ns \<open>ns \<noteq> []\<close> show False by (metis last_in_set)
    qed
    with n that show ?thesis unfolding clean_elements_def
      by (intro exI [of _ "Suc n"] exI [of _ "[]"])
         (auto simp: replicate_append_same [symmetric] simp del: replicate_append_same)
  qed
  have root: "clean_elements r (if r then [] else [''..''])"
    unfolding clean_elements_def
    by (cases r) (auto intro: exI [of _ "Suc 0"] exI [of _ 0])
  show ?case
    using 2 push pop up root by (auto split: list.splits)
qed simp

lemma clean_step_dotdots:
  "clean_step False (replicate k ''..'') (replicate n ''..'' @ es) =
     clean_step False (replicate (k + n) ''..'') es"
proof (induction n arbitrary: k)
  case (Suc n)
  from Suc.IH [of "Suc k"] show ?case by (cases k) auto
qed simp

lemma clean_step_id: "clean_elements r es \<Longrightarrow> clean_step r [] es = es"
proof -
  assume "clean_elements r es"
  then obtain n ns where es: "es = replicate n ''..'' @ ns" "r \<longrightarrow> n = 0"
    and ns: "\<forall>e \<in> set ns. e \<noteq> [] \<and> e \<noteq> ''.'' \<and> e \<noteq> ''..''"
    by (auto simp: clean_elements_def)
  show ?thesis
  proof (cases r)
    case True
    with es ns show ?thesis by (simp add: clean_step_app)
  next
    case False
    with es ns clean_step_dotdots [of 0 n ns] show ?thesis by (simp add: clean_step_app)
  qed
qed

lemma clean_step_subset: "set (clean_step r st es) \<subseteq> set st \<union> set es \<union> {''..''}"
  by (induction r st es rule: clean_step.induct) (auto split: list.splits if_splits)

lemma clean_elements_path: "clean_elements (path_rooted p) (path_elements p)"
  unfolding path_elements_def
  by (rule clean_step_elements) (auto simp: clean_elements_def intro: exI [of _ 0])

lemma path_elements_no_slash: "e \<in> set (path_elements p) \<Longrightarrow> CHR ''/'' \<notin> set e"
  using clean_step_subset [of "path_rooted p" "[]" "split_on CHR ''/'' p"]
  by (auto simp: path_elements_def dest: split_no_sep)

lemma clean_elements_nonempty: "clean_elements r es \<Longrightarrow> e \<in> set es \<Longrightarrow> e \<noteq> []"
  unfolding clean_elements_def by (elim exE conjE) (auto simp: set_replicate_conv_if split: if_splits)

lemma path_elements_nonempty: "e \<in> set (path_elements p) \<Longrightarrow> e \<noteq> []"
  by (rule clean_elements_nonempty [OF clean_elements_path])

lemma join_with_Nil_iff: "\<forall>w \<in> set ws. w \<noteq> [] \<Longrightarrow> join_with c ws = [] \<longleftrightarrow> ws = []"
  by (cases "(c, ws)" rule: join_with.cases) auto

lemma hd_join_with: "w \<noteq> [] \<Longrightarrow> hd (join_with c (w # ws)) = hd w"
  by (cases ws) auto

lemma path_rooted_Clean: "path_rooted (path_Clean p) = path_rooted p"
proof -
  have "\<not> prefix ''/'' (join_with CHR ''/'' (path_elements p))" if "\<not> path_rooted p"
  proof (cases "path_elements p")
    case Nil
    then show ?thesis by simp
  next
    case (Cons e es)
    then have e: "e \<noteq> []" "CHR ''/'' \<notin> set e"
      using path_elements_nonempty [of e p] path_elements_no_slash [of e p] by auto
    then show ?thesis
      by (cases e; cases es) (auto simp: Cons)
  qed
  then show ?thesis
    by (auto simp: path_Clean_def path_rooted_def strings_HasPrefix_def Let_def)
qed

lemma path_elements_Clean: "path_elements (path_Clean p) = path_elements p"
proof (cases "path_elements p")
  case Nil
  then show ?thesis
    by (cases "path_rooted p")
       (simp_all add: path_Clean_def path_elements_def path_rooted_def strings_HasPrefix_def)
next
  case (Cons e es)
  let ?es = "path_elements p"
  have ne: "join_with CHR ''/'' ?es \<noteq> []"
    by (metis Cons join_with_Nil_iff list.distinct(1) path_elements_nonempty)
  have sp: "split_on CHR ''/'' (join_with CHR ''/'' ?es) = ?es"
  proof (rule split_join)
    show "?es \<noteq> []" using Cons by simp
    show "\<forall>w \<in> set ?es. CHR ''/'' \<notin> set w" using path_elements_no_slash by blast
  qed
  have "clean_step (path_rooted p) [] (split_on CHR ''/'' (path_Clean p)) =
      clean_step (path_rooted p) [] ?es"
    using ne sp by (simp add: path_Clean_def Let_def)
  also have "\<dots> = ?es" by (rule clean_step_id) (rule clean_elements_path)
  finally show ?thesis
    by (simp only: path_elements_def [of "path_Clean p"] path_rooted_Clean)
qed

lemma path_Clean_Clean [simp]: "path_Clean (path_Clean p) = path_Clean p"
  by (simp only: path_Clean_def [of "path_Clean p"] path_elements_Clean path_rooted_Clean)
     (simp only: path_Clean_def [of p])

lemma path_Clean_not_Nil [simp]: "path_Clean p \<noteq> []"
  by (simp add: path_Clean_def Let_def)

end
