(* ===== verification/ConfigRoot.thy ===== *)
theory ConfigRoot
  imports Config Paths
begin

text \<open>
  The root of the configuration (\<open>internal/config/config.go\<close>): the pass after decoding that
  names every entry after its key and gives every secret reference the secret it names, the
  default database of the \<open>run\<close> command, and the iteration in the order of names. A map
  entry may be nil, as the decoders leave it for an empty YAML node.
\<close>

record sqldatabase =
  sql_Driver :: string
  sql_DSN :: string
  sql_Credentials :: "secretref option"

record amazonrds =
  rds_Region :: string
  rds_Endpoint :: string
  rds_Driver :: string
  rds_DatabaseUser :: string
  rds_DatabaseName :: string
  rds_DSN :: string
  rds_Credentials :: "secretref option"
  rds_RootCertificates :: string

record database_config =
  db_SQL :: "sqldatabase option"
  db_AWSRDS :: "amazonrds option"

record metadata =
  md_ExportedFrom :: string
  md_ExportedAt :: string

record service_config =
  svc_ApiPrefix :: string

type_synonym 'a entries = "(string, 'a option) fmap"

record 'g root =
  root_Metadata :: metadata
  root_Bundles :: "bundle_config entries"
  root_Stacks :: "'g stack entries"
  root_Sources :: "source entries"
  root_Secrets :: "secret entries"
  root_Tokens :: "token entries"
  root_Database :: "database_config option"
  root_Service :: "service_config option"

subsection \<open>The default database\<close>

definition empty_sql :: sqldatabase where
  "empty_sql = \<lparr>sql_Driver = [], sql_DSN = [], sql_Credentials = None\<rparr>"

definition SetSQLitePersistentByDefault :: "string \<Rightarrow> 'g root \<Rightarrow> bool \<times> 'g root" where
  "SetSQLitePersistentByDefault persistenceDir r =
     (if Option.bind (root_Database r) db_AWSRDS \<noteq> None then (False, r)
      else
        let db = (case root_Database r of None \<Rightarrow> \<lparr>db_SQL = None, db_AWSRDS = None\<rparr> | Some d \<Rightarrow> d);
            sql = (case db_SQL db of None \<Rightarrow> empty_sql | Some q \<Rightarrow> q)
        in
          if sql_Driver sql \<in> {[], ''sqlite3'', ''sqlite''} then
            let sql = (if sql_DSN sql = [] then
                         sql\<lparr>sql_Driver := ''sqlite3'',
                             sql_DSN := path_Join [persistenceDir, ''sqlite.db'']\<rparr>
                       else sql)
            in (True, r\<lparr>root_Database := Some (db\<lparr>db_SQL := Some sql\<rparr>)\<rparr>)
          else (False, r\<lparr>root_Database := Some (db\<lparr>db_SQL := Some sql\<rparr>)\<rparr>))"

subsection \<open>The pass after decoding\<close>

text \<open>The zero values that replace nil entries.\<close>

definition zero_token :: token where
  "zero_token = \<lparr>tok_Name = [], tok_APIKey = [], tok_Scopes = []\<rparr>"

definition zero_secret :: secret where
  "zero_secret = \<lparr>sec_Name = [], sec_Value = None\<rparr>"

definition zero_storage :: objectstorage where
  "zero_storage = \<lparr>os_AmazonS3 = None, os_GCPCloudStorage = None, os_AzureBlobStorage = None,
     os_FileSystemStorage = None\<rparr>"

definition zero_bundle :: bundle_config where
  "zero_bundle = \<lparr>bun_Name = [], bun_Labels = None, bun_Revision = [],
     bun_ObjectStorage = zero_storage, bun_Requirements = None, bun_ExcludedFiles = [],
     bun_Interval = 0, bun_Options = Options_zero\<rparr>"

definition zero_git :: git where
  "zero_git = \<lparr>git_Repo = [], git_Reference = None, git_Commit = None, git_Path = None,
     git_IncludedFiles = [], git_ExcludedFiles = [], git_Credentials = None\<rparr>"

definition zero_source :: source where
  "zero_source = \<lparr>src_ID = 0, src_Name = [], src_Builtin = None, src_Git = zero_git,
     src_Datasources = [], src_EmbeddedFiles = None, src_Directory = [], src_Paths = [],
     src_Requirements = None\<rparr>"

definition zero_stack :: "'g stack" where
  "zero_stack = \<lparr>stk_Name = [], stk_Selector = new_selector, stk_ExcludeSelector = None,
     stk_Requirements = None\<rparr>"

definition or_zero :: "'a \<Rightarrow> 'a option \<Rightarrow> 'a" where
  "or_zero z x = (case x of None \<Rightarrow> z | Some y \<Rightarrow> y)"

text \<open>A read of the map of secrets: nil for a missing key and for a nil entry.\<close>

definition secret_at :: "secret entries \<Rightarrow> string \<Rightarrow> secret option" where
  "secret_at secrets name = Option.bind (fmlookup secrets name) id"

definition inject :: "secret entries \<Rightarrow> secretref option \<Rightarrow> secretref option" where
  "inject secrets cred =
     map_option (\<lambda>c. c\<lparr>ref_value := secret_at secrets (ref_Name c)\<rparr>) cred"

definition inject_bundle :: "secret entries \<Rightarrow> bundle_config \<Rightarrow> bundle_config" where
  "inject_bundle secrets b =
     (let os = bun_ObjectStorage b in
      b\<lparr>bun_ObjectStorage := os\<lparr>
          os_AmazonS3 := map_option (\<lambda>x. x\<lparr>s3_Credentials := inject secrets (s3_Credentials x)\<rparr>)
            (os_AmazonS3 os),
          os_AzureBlobStorage := map_option (\<lambda>x. x\<lparr>az_Credentials := inject secrets (az_Credentials x)\<rparr>)
            (os_AzureBlobStorage os),
          os_GCPCloudStorage := map_option (\<lambda>x. x\<lparr>gcp_Credentials := inject secrets (gcp_Credentials x)\<rparr>)
            (os_GCPCloudStorage os)\<rparr>\<rparr>)"

definition inject_source :: "secret entries \<Rightarrow> source \<Rightarrow> source" where
  "inject_source secrets s =
     s\<lparr>src_Git := (src_Git s)\<lparr>git_Credentials := inject secrets (git_Credentials (src_Git s))\<rparr>\<rparr>"

definition inject_database :: "secret entries \<Rightarrow> database_config \<Rightarrow> database_config" where
  "inject_database secrets d =
     d\<lparr>db_AWSRDS := map_option (\<lambda>x. x\<lparr>rds_Credentials := inject secrets (rds_Credentials x)\<rparr>)
         (db_AWSRDS d),
       db_SQL := map_option (\<lambda>x. x\<lparr>sql_Credentials := inject secrets (sql_Credentials x)\<rparr>)
         (db_SQL d)\<rparr>"

definition Root_unmarshal :: "'g root \<Rightarrow> 'g root" where
  "Root_unmarshal raw =
     (let tokens = fmmap_keys (\<lambda>name t. Some ((or_zero zero_token t)\<lparr>tok_Name := name\<rparr>))
            (root_Tokens raw);
          secrets = fmmap_keys (\<lambda>name s. Some ((or_zero zero_secret s)\<lparr>sec_Name := name\<rparr>))
            (root_Secrets raw);
          bundles = fmmap_keys (\<lambda>name b.
            Some (inject_bundle secrets ((or_zero zero_bundle b)\<lparr>bun_Name := name\<rparr>)))
            (root_Bundles raw);
          sources = fmmap_keys (\<lambda>name s.
            Some (inject_source secrets ((or_zero zero_source s)\<lparr>src_Name := name\<rparr>)))
            (root_Sources raw);
          stacks = fmmap_keys (\<lambda>name s. Some ((or_zero zero_stack s)\<lparr>stk_Name := name\<rparr>))
            (root_Stacks raw)
      in raw\<lparr>root_Tokens := tokens, root_Secrets := secrets, root_Bundles := bundles,
           root_Sources := sources, root_Stacks := stacks,
           root_Database := map_option (inject_database secrets) (root_Database raw)\<rparr>)"

subsection \<open>Iteration in the order of names\<close>

text \<open>
  \<open>iterator\<close> collects the names of the entries, sorts them and then looks each name up: the
  entries come in the order of their names, and an entry whose name is not a key comes as nil
  (the zero value of the lookup).
\<close>

definition iterator :: "('v \<Rightarrow> string) \<Rightarrow> (string \<times> 'v) list \<Rightarrow> 'v option list" where
  "iterator name m =
     (let names = sort (map (\<lambda>(k, v). name v) m)
      in map (map_of m) names)"

subsection \<open>Lemmas\<close>

lemma path_Join_not_Nil: "p \<in> set ps \<Longrightarrow> p \<noteq> [] \<Longrightarrow> path_Join ps \<noteq> []"
  by (auto simp: path_Join_def Let_def dropWhile_eq_Nil_conv)

lemma secret_at_named:
  "secret_at (fmmap_keys (\<lambda>name s. Some (f name s)) m) k = map_option (f k) (fmlookup m k)"
  by (cases "fmlookup m k") (auto simp: secret_at_def)

lemma inject_inject [simp]: "inject s (inject t c) = inject s c"
  by (cases c) (auto simp: inject_def)

lemma inject_bundle_twice [simp]: "inject_bundle s (inject_bundle t b) = inject_bundle s b"
  by (simp add: inject_bundle_def Let_def option.map_comp comp_def)

lemma inject_source_twice [simp]: "inject_source s (inject_source t b) = inject_source s b"
  by (simp add: inject_source_def)

lemma inject_database_twice [simp]: "inject_database s (inject_database t d) = inject_database s d"
  by (simp add: inject_database_def option.map_comp comp_def)

lemma bun_Name_inject [simp]:
  "bun_Name (inject_bundle s b) = bun_Name b"
  "(inject_bundle s b)\<lparr>bun_Name := n\<rparr> = inject_bundle s (b\<lparr>bun_Name := n\<rparr>)"
  by (simp_all add: inject_bundle_def Let_def)

lemma src_Name_inject [simp]:
  "src_Name (inject_source s b) = src_Name b"
  "(inject_source s b)\<lparr>src_Name := n\<rparr> = inject_source s (b\<lparr>src_Name := n\<rparr>)"
  by (simp_all add: inject_source_def)

lemma or_zero_Some [simp]: "or_zero z (Some x) = x"
  by (simp add: or_zero_def)

lemma fmmap_keys_twice:
  "fmmap_keys f (fmmap_keys g m) = fmmap_keys (\<lambda>k x. f k (g k x)) m"
  by (rule fmap_ext) (auto simp: option.map_comp comp_def)

lemma Root_unmarshal_idem: "Root_unmarshal (Root_unmarshal r) = Root_unmarshal r"
  by (simp add: Root_unmarshal_def Let_def fmmap_keys_twice option.map_comp comp_def)

subsection \<open>Properties\<close>

text \<open>
  after decoding, no entry of the configuration is nil and each is named after its key,
  the git credentials of a source carry the secret they name when the configuration has it
  (and none otherwise), and running the pass again changes nothing.
\<close>

theorem Root_unmarshal_resolves:
  "Root_unmarshal (Root_unmarshal r) = Root_unmarshal r \<and>
   (fmlookup (root_Bundles (Root_unmarshal r)) k = Some b \<longrightarrow> map_option bun_Name b = Some k) \<and>
   (fmlookup (root_Sources (Root_unmarshal r)) k = Some s \<longrightarrow>
      map_option src_Name s = Some k \<and>
      (case Option.bind s (\<lambda>s. git_Credentials (src_Git s)) of
         None \<Rightarrow> True
       | Some c \<Rightarrow> ref_value c = secret_at (root_Secrets (Root_unmarshal r)) (ref_Name c) \<and>
           pred_option (\<lambda>v. sec_Name v = ref_Name c) (ref_value c)))"
  by (auto simp: Root_unmarshal_idem)
     (auto simp: Root_unmarshal_def Let_def inject_source_def inject_def secret_at_named
       option.pred_map comp_def option.pred_True split: option.splits)

theorem Root_unmarshal_resolves_witness:
  "\<exists>(r :: unit root) s. fmlookup (root_Sources (Root_unmarshal r)) ''s'' = Some (Some s) \<and>
     git_Credentials (src_Git s) \<noteq> None \<and>
     secret_at (root_Secrets (Root_unmarshal r)) ''c'' =
       Some \<lparr>sec_Name = ''c'', sec_Value = None\<rparr>"
proof -
  define r :: "unit root" where "r =
    \<lparr>root_Metadata = \<lparr>md_ExportedFrom = [], md_ExportedAt = []\<rparr>, root_Bundles = fmempty,
     root_Stacks = fmempty,
     root_Sources = fmap_of_list [(''s'', Some (zero_source\<lparr>src_Git := zero_git\<lparr>git_Credentials :=
       Some \<lparr>ref_Name = ''c'', ref_value = None\<rparr>\<rparr>\<rparr>))],
     root_Secrets = fmap_of_list [(''c'', None)], root_Tokens = fmempty,
     root_Database = None, root_Service = None\<rparr>"
  define s where "s = zero_source\<lparr>src_Name := ''s'', src_Git := zero_git\<lparr>git_Credentials :=
    Some \<lparr>ref_Name = ''c'', ref_value = Some \<lparr>sec_Name = ''c'', sec_Value = None\<rparr>\<rparr>\<rparr>\<rparr>"
  have look: "fmlookup (root_Sources (Root_unmarshal r)) ''s'' = Some (Some s)"
    by (simp add: r_def s_def Root_unmarshal_def Let_def fmlookup_of_list inject_source_def
        inject_def secret_at_named zero_secret_def zero_source_def or_zero_def)
  have "secret_at (root_Secrets (Root_unmarshal r)) ''c'' =
      Some \<lparr>sec_Name = ''c'', sec_Value = None\<rparr>"
    using Root_unmarshal_resolves [of r "''s''" undefined "Some s"] look by (simp add: s_def)
  then show ?thesis using look by (intro exI [of _ r] exI [of _ s]) (simp add: s_def)
qed

text \<open>
  the default database: the answer is true exactly when the configuration ends up with a
  SQLite database that has a data source name; an RDS database, another driver and a name
  that is already set are left as they are, and a second call changes nothing.
\<close>

theorem SetSQLite_spec:
  "case SetSQLitePersistentByDefault dir r of (ok, r') \<Rightarrow>
     SetSQLitePersistentByDefault dir r' = (ok, r') \<and>
     (ok \<longleftrightarrow> Option.bind (root_Database r') db_AWSRDS = None \<and>
        (\<exists>q. Option.bind (root_Database r') db_SQL = Some q \<and> sql_DSN q \<noteq> [] \<and>
          sql_Driver q \<in> {[], ''sqlite3'', ''sqlite''})) \<and>
     (Option.bind (root_Database r) db_AWSRDS = Option.bind (root_Database r') db_AWSRDS) \<and>
     (\<forall>q. Option.bind (root_Database r) db_SQL = Some q \<and> sql_DSN q \<noteq> [] \<longrightarrow>
        Option.bind (root_Database r') db_SQL = Some q)"
proof -
  have join: "path_Join [dir, ''sqlite.db''] \<noteq> []"
    by (rule path_Join_not_Nil [of "''sqlite.db''"]) auto
  show ?thesis
  proof (cases "root_Database r")
    case None
    with join show ?thesis
      by (simp add: SetSQLitePersistentByDefault_def Let_def empty_sql_def)
  next
    case (Some d)
    then show ?thesis
    proof (cases "db_AWSRDS d = None")
      case True
      with Some join show ?thesis
        by (cases "db_SQL d") (simp_all add: SetSQLitePersistentByDefault_def Let_def empty_sql_def)
    next
      case False
      with Some show ?thesis
        by (simp add: SetSQLitePersistentByDefault_def)
    qed
  qed
qed

theorem SetSQLite_spec_witness:
  "\<exists>(r :: unit root) q. Option.bind (root_Database r) db_SQL = Some q \<and> sql_DSN q = ''x.db'' \<and>
     Option.bind (root_Database (snd (SetSQLitePersistentByDefault ''d'' r))) db_SQL = Some q"
proof -
  define q where "q = \<lparr>sql_Driver = ''sqlite'', sql_DSN = ''x.db'', sql_Credentials = None\<rparr>"
  define r :: "unit root" where "r =
    \<lparr>root_Metadata = \<lparr>md_ExportedFrom = [], md_ExportedAt = []\<rparr>, root_Bundles = fmempty,
     root_Stacks = fmempty, root_Sources = fmempty, root_Secrets = fmempty, root_Tokens = fmempty,
     root_Database = Some \<lparr>db_SQL = Some q, db_AWSRDS = None\<rparr>, root_Service = None\<rparr>"
  have "Option.bind (root_Database (snd (SetSQLitePersistentByDefault ''d'' r))) db_SQL = Some q"
    using SetSQLite_spec [of "''d''" r]
    by (simp add: r_def q_def split: prod.splits)
  then show ?thesis
    by (intro exI [of _ r] exI [of _ q]) (simp add: r_def q_def)
qed

lemma iterator_values:
  assumes "distinct (map fst m)" and "\<forall>(k, v) \<in> set m. name v = k"
  shows "iterator name m = map Some (map (the \<circ> map_of m) (sort (map fst m)))"
proof -
  have names: "map (\<lambda>(k, v). name v) m = map fst m"
    using assms(2) by (auto simp: case_prod_beta)
  have "\<exists>v. map_of m k = Some v" if "k \<in> set (sort (map fst m))" for k
    using that by (metis map_of_eq_None_iff not_None_eq set_map set_sort)
  then show ?thesis
    unfolding iterator_def Let_def names by force
qed

text \<open>
  the sorted iteration yields every entry once, in the order of the names, whatever order
  the map is stored in.
\<close>

theorem iterator_sorted:
  assumes "distinct (map fst m)" and "\<forall>(k, v) \<in> set m. name v = k"
  shows "\<exists>vs. iterator name m = map Some vs \<and> mset vs = mset (map snd m) \<and>
    map name vs = sort (map fst m)"
proof (intro exI conjI)
  let ?vs = "map (the \<circ> map_of m) (sort (map fst m))"
  show "iterator name m = map Some ?vs"
    by (rule iterator_values [OF assms])
  have val: "the (map_of m k) = v" if "(k, v) \<in> set m" for k v
    using that assms(1) by simp
  have "mset ?vs = image_mset (the \<circ> map_of m) (mset (map fst m))"
    by simp
  also have "\<dots> = mset (map (\<lambda>kv. the (map_of m (fst kv))) m)"
    by (simp add: multiset.map_comp comp_def)
  also have "map (\<lambda>kv. the (map_of m (fst kv))) m = map snd m"
    using val by (auto simp: case_prod_beta)
  finally show "mset ?vs = mset (map snd m)" .
  have "name (the (map_of m k)) = k" if "k \<in> fst ` set m" for k
    using that val assms(2) by auto
  then show "map name ?vs = sort (map fst m)"
    by (auto simp: map_map intro!: map_idI)
qed

theorem iterator_sorted_witness:
  "\<exists>vs. iterator id [(''b'', ''b''), (''a'', ''a'')] = map Some vs \<and>
     map id vs = sort [''b'', ''a'']"
  using iterator_sorted [of "[(''b'', ''b''), (''a'', ''a'')]" id] by auto

end
