(* ===== verification/TopoSort.thy ===== *)
theory TopoSort
  imports ConfigRoot
begin

text \<open>
  \<open>TopologicalSortedSources\<close> of \<open>internal/config/config.go\<close>: a depth-first search over the
  requirements of the sources that yields each source after the sources it requires and
  reports a cycle as an error. The recursion is given fuel; the properties show that one unit
  more than there are sources is always enough.
\<close>

type_synonym source_map = "(string, source) fmap"

record topologicalSortSources =
  ts_inprogress :: "string set"
  ts_done :: "string set"
  ts_sorted :: "source list"

datatype topo_error = CycleFound string | OutOfFuel

fun Visit ::
    "nat \<Rightarrow> source_map \<Rightarrow> source \<Rightarrow> topologicalSortSources \<Rightarrow> topo_error + topologicalSortSources" where
  "Visit 0 sources src s = Inl OutOfFuel"
| "Visit (Suc fuel) sources src s =
     (if src_Name src \<in> ts_inprogress s then Inl (CycleFound (src_Name src))
      else if src_Name src \<in> ts_done s then Inr s
      else
        result_bind
          (fold_result
             (\<lambda>r s. case req_Source r of
                None \<Rightarrow> Inr s
              | Some name \<Rightarrow>
                  (case fmlookup sources name of
                     None \<Rightarrow> Inr s
                   | Some other \<Rightarrow> Visit fuel sources other s))
             (slice (src_Requirements src))
             (s\<lparr>ts_inprogress := insert (src_Name src) (ts_inprogress s)\<rparr>))
          (\<lambda>s. Inr (s\<lparr>ts_done := insert (src_Name src) (ts_done s),
                      ts_inprogress := ts_inprogress s - {src_Name src},
                      ts_sorted := ts_sorted s @ [src]\<rparr>)))"

definition topo_start :: topologicalSortSources where
  "topo_start = \<lparr>ts_inprogress = {}, ts_done = {}, ts_sorted = []\<rparr>"

definition TopologicalSortedSources_fuel :: "nat \<Rightarrow> source_map \<Rightarrow> topo_error + source list" where
  "TopologicalSortedSources_fuel fuel sources =
     result_bind
       (fold_result (\<lambda>name s. case fmlookup sources name of
            None \<Rightarrow> Inr s | Some src \<Rightarrow> Visit fuel sources src s)
          (sorted_list_of_fset (fmdom sources)) topo_start)
       (\<lambda>s. Inr (ts_sorted s))"

definition TopologicalSortedSources :: "source_map \<Rightarrow> topo_error + source list" where
  "TopologicalSortedSources sources =
     TopologicalSortedSources_fuel (Suc (fcard (fmdom sources))) sources"

subsection \<open>The requirement graph\<close>

text \<open>Names are the keys, as the pass after decoding leaves them.\<close>

definition named_by_key :: "source_map \<Rightarrow> bool" where
  "named_by_key sources \<longleftrightarrow> fmpred (\<lambda>k s. src_Name s = k) sources"

definition requires :: "source_map \<Rightarrow> (string \<times> string) set" where
  "requires sources =
     {(a, b). \<exists>s r. fmlookup sources a = Some s \<and> r \<in> set (slice (src_Requirements s)) \<and>
        req_Source r = Some b \<and> b |\<in>| fmdom sources}"

text \<open>Every element of the list comes after the elements it is related to.\<close>

definition deps_before :: "('a \<times> 'a) set \<Rightarrow> 'a list \<Rightarrow> bool" where
  "deps_before D xs \<longleftrightarrow> (\<forall>ys x zs. xs = ys @ x # zs \<longrightarrow> D `` {x} \<subseteq> set ys)"

lemma deps_before_Nil [simp]: "deps_before D []"
  by (simp add: deps_before_def)

lemma deps_beforeD: "deps_before D xs \<Longrightarrow> xs = ys @ x # zs \<Longrightarrow> D `` {x} \<subseteq> set ys"
  unfolding deps_before_def by blast

lemma deps_beforeI:
  "(\<And>ys x zs. xs = ys @ x # zs \<Longrightarrow> D `` {x} \<subseteq> set ys) \<Longrightarrow> deps_before D xs"
  unfolding deps_before_def by blast

lemma deps_before_snoc:
  "deps_before D (xs @ [x]) \<longleftrightarrow> deps_before D xs \<and> D `` {x} \<subseteq> set xs"
proof (intro iffI conjI)
  assume L: "deps_before D (xs @ [x])"
  show "deps_before D xs"
    by (rule deps_beforeI, rule deps_beforeD [OF L]) simp
  show "D `` {x} \<subseteq> set xs"
    by (rule deps_beforeD [OF L, where zs = "[]"]) simp
next
  assume R: "deps_before D xs \<and> D `` {x} \<subseteq> set xs"
  show "deps_before D (xs @ [x])"
  proof (rule deps_beforeI)
    fix ys y zs
    assume eq: "xs @ [x] = ys @ y # zs"
    show "D `` {y} \<subseteq> set ys"
    proof (cases zs rule: rev_cases)
      case Nil
      with eq R show ?thesis by simp
    next
      case (snoc zs' z)
      with eq have "xs = ys @ y # zs'" by simp
      then show ?thesis by (rule deps_beforeD [OF conjunct1 [OF R]])
    qed
  qed
qed

lemma deps_before_acyclic:
  assumes "deps_before D xs" and "distinct xs" and "Domain D \<subseteq> set xs"
  shows "acyclic D"
proof -
  define pos where "pos x = (LEAST i. i < length xs \<and> xs ! i = x)" for x
  have pos: "pos x < length xs \<and> xs ! pos x = x" if "x \<in> set xs" for x
  proof -
    from that obtain i where "i < length xs \<and> xs ! i = x"
      by (auto simp: in_set_conv_nth)
    then show ?thesis unfolding pos_def by (rule LeastI)
  qed
  have pos_eq: "pos (xs ! i) = i" if "i < length xs" for i
    using pos [OF nth_mem [OF that]] that nth_eq_iff_index_eq [OF assms(2)] by blast
  have "(b, a) \<in> measure pos" if "(a, b) \<in> D" for a b
  proof -
    from that assms(3) have a: "a \<in> set xs" by auto
    have "xs = take (pos a) xs @ a # drop (Suc (pos a)) xs"
      using pos [OF a] by (metis id_take_nth_drop)
    then have "D `` {a} \<subseteq> set (take (pos a) xs)"
      by (rule deps_beforeD [OF assms(1)])
    with that have "b \<in> set (take (pos a) xs)" by blast
    then obtain i where "i < pos a" "i < length xs" "xs ! i = b"
      by (auto simp: in_set_conv_nth)
    then show ?thesis using pos_eq [of i] by auto
  qed
  then have "D\<inverse> \<subseteq> measure pos" by auto
  then have "acyclic (D\<inverse>)"
    by (meson acyclic_subset wf_acyclic wf_measure)
  then show ?thesis by simp
qed

subsection \<open>What a visit does\<close>

definition topo_inv :: "source_map \<Rightarrow> topologicalSortSources \<Rightarrow> bool" where
  "topo_inv sources s \<longleftrightarrow>
     distinct (map src_Name (ts_sorted s)) \<and>
     ts_done s = src_Name ` set (ts_sorted s) \<and>
     ts_inprogress s \<inter> ts_done s = {} \<and>
     (\<forall>x \<in> set (ts_sorted s). fmlookup sources (src_Name x) = Some x) \<and>
     deps_before (requires sources) (map src_Name (ts_sorted s))"

text \<open>The outcome of visiting from a state: an error names a source on a cycle.\<close>

definition visit_ok ::
    "source_map \<Rightarrow> topologicalSortSources \<Rightarrow> string set \<Rightarrow> topo_error + topologicalSortSources \<Rightarrow> bool" where
  "visit_ok sources s names r \<longleftrightarrow>
     (case r of
        Inl e \<Rightarrow> \<exists>a. e = CycleFound a \<and> (a, a) \<in> (requires sources)\<^sup>+
      | Inr s' \<Rightarrow> topo_inv sources s' \<and> ts_inprogress s' = ts_inprogress s \<and>
          ts_done s \<union> names \<subseteq> ts_done s')"

lemma visit_ok_fold:
  assumes "topo_inv sources s"
    and step: "\<And>x s'. x \<in> set xs \<Longrightarrow> topo_inv sources s' \<Longrightarrow> ts_inprogress s' = ts_inprogress s \<Longrightarrow>
      visit_ok sources s' (names x) (f x s')"
  shows "visit_ok sources s (\<Union> (names ` set xs)) (fold_result f xs s)"
  using assms
proof (induction xs arbitrary: s)
  case Nil
  then show ?case by (simp add: visit_ok_def)
next
  case (Cons x xs)
  have x: "visit_ok sources s (names x) (f x s)"
    using Cons.prems by auto
  show ?case
  proof (cases "f x s")
    case (Inl e)
    with x show ?thesis by (simp add: visit_ok_def)
  next
    case (Inr t)
    with x have t: "topo_inv sources t" "ts_inprogress t = ts_inprogress s"
      "ts_done s \<union> names x \<subseteq> ts_done t"
      by (simp_all add: visit_ok_def)
    have "visit_ok sources t (\<Union> (names ` set xs)) (fold_result f xs t)"
      using t(1,2) Cons.prems(2) by (intro Cons.IH) auto
    with t(2,3) Inr show ?thesis
      by (cases "fold_result f xs t") (auto simp: visit_ok_def)
  qed
qed

lemma visit_names:
  "{b. \<exists>r \<in> set rs. req_Source r = Some b \<and> b |\<in>| fmdom sources} =
     \<Union> ((\<lambda>r. case req_Source r of None \<Rightarrow> {} | Some b \<Rightarrow> if b |\<in>| fmdom sources then {b} else {}) ` set rs)"
  by (force split: option.splits if_splits)

lemma Visit_spec:
  assumes key: "named_by_key sources"
    and "fmlookup sources (src_Name src) = Some src" and "topo_inv sources s"
    and "\<forall>p \<in> ts_inprogress s. (p, src_Name src) \<in> (requires sources)\<^sup>+"
    and "card (fmdom' sources - ts_inprogress s) < fuel"
  shows "visit_ok sources s {src_Name src} (Visit fuel sources src s)"
  using assms(2-)
proof (induction fuel arbitrary: src s)
  case 0
  then show ?case by simp
next
  case (Suc fuel)
  let ?n = "src_Name src" and ?D = "requires sources"
  show ?case
  proof (cases "?n \<in> ts_inprogress s \<or> ?n \<in> ts_done s")
    case True
    with Suc.prems show ?thesis by (auto simp: visit_ok_def)
  next
    case False
    define s1 where "s1 = s\<lparr>ts_inprogress := insert ?n (ts_inprogress s)\<rparr>"
    define f where "f r t = (case req_Source r of None \<Rightarrow> Inr t | Some name \<Rightarrow>
        (case fmlookup sources name of None \<Rightarrow> Inr t | Some other \<Rightarrow> Visit fuel sources other t))"
      for r :: requirement and t
    let ?names = "\<lambda>r. case req_Source r of None \<Rightarrow> {}
      | Some b \<Rightarrow> if b |\<in>| fmdom sources then {b} else {}"
    have s1: "topo_inv sources s1" "ts_inprogress s1 = insert ?n (ts_inprogress s)"
      using Suc.prems(2) False by (auto simp: topo_inv_def s1_def)
    have "?n \<in> fmdom' sources" using Suc.prems(1) by (rule fmdom'I)
    then have "fmdom' sources - ts_inprogress s1 \<subset> fmdom' sources - ts_inprogress s"
      using False s1(2) by blast
    then have "card (fmdom' sources - ts_inprogress s1) < card (fmdom' sources - ts_inprogress s)"
      by (intro psubset_card_mono) auto
    with Suc.prems(4) have less: "card (fmdom' sources - ts_inprogress s1) < fuel" by simp
    have "visit_ok sources t (?names r) (f r t)"
      if r: "r \<in> set (slice (src_Requirements src))" and t: "topo_inv sources t"
        "ts_inprogress t = ts_inprogress s1" for r t
    proof (cases "\<exists>b other. req_Source r = Some b \<and> fmlookup sources b = Some other")
      case False
      then show ?thesis using t
        by (auto simp: visit_ok_def f_def fmlookup_dom_iff split: option.splits)
    next
      case True
      then obtain b other where b: "req_Source r = Some b" "fmlookup sources b = Some other"
        by blast
      then have name: "src_Name other = b"
        using key by (auto simp: named_by_key_def fmpred_iff)
      have D: "(?n, b) \<in> ?D"
        using Suc.prems(1) r b by (auto simp: requires_def fmlookup_dom_iff)
      have "\<forall>p \<in> ts_inprogress t. (p, b) \<in> ?D\<^sup>+"
        using Suc.prems(3) D s1(2) t(2) by (auto intro: trancl_into_trancl)
      with b t name less have "visit_ok sources t {b} (Visit fuel sources other t)"
        using Suc.IH [of other t] by simp
      with b show ?thesis by (simp add: f_def fmlookup_dom_iff)
    qed
    then have "visit_ok sources s1 (\<Union> (?names ` set (slice (src_Requirements src))))
        (fold_result f (slice (src_Requirements src)) s1)"
      using s1(1) by (intro visit_ok_fold) auto
    then have all: "visit_ok sources s1 (?D `` {?n}) (fold_result f (slice (src_Requirements src)) s1)"
    proof -
      have "?D `` {?n} \<subseteq> \<Union> (?names ` set (slice (src_Requirements src)))"
        unfolding visit_names [symmetric] using Suc.prems(1) by (auto simp: requires_def)
      then show ?thesis
        using \<open>visit_ok sources s1 (\<Union> _) _\<close>
        by (auto simp: visit_ok_def split: sum.splits)
    qed
    have eq: "Visit (Suc fuel) sources src s =
        result_bind (fold_result f (slice (src_Requirements src)) s1)
          (\<lambda>s. Inr (s\<lparr>ts_done := insert ?n (ts_done s), ts_inprogress := ts_inprogress s - {?n},
             ts_sorted := ts_sorted s @ [src]\<rparr>))"
      using False by (simp add: f_def [abs_def] s1_def)
    show ?thesis
    proof (cases "fold_result f (slice (src_Requirements src)) s1")
      case (Inl e)
      with all eq show ?thesis by (simp add: visit_ok_def)
    next
      case (Inr t)
      with all have t: "topo_inv sources t" "ts_inprogress t = insert ?n (ts_inprogress s)"
        "ts_done s \<subseteq> ts_done t" "?D `` {?n} \<subseteq> ts_done t"
        by (auto simp: visit_ok_def s1_def)
      have "?n \<notin> ts_done t" using t(1,2) by (auto simp: topo_inv_def)
      with t Suc.prems(1) False Inr eq show ?thesis
        by (auto simp: visit_ok_def topo_inv_def deps_before_snoc)
    qed
  qed
qed

lemma fold_result_agree:
  assumes "\<And>x t. x \<in> set xs \<Longrightarrow> f x t \<noteq> Inl e \<Longrightarrow> g x t = f x t"
    and "fold_result f xs s \<noteq> Inl e"
  shows "fold_result g xs s = fold_result f xs s"
  using assms
proof (induction xs arbitrary: s)
  case Nil
  then show ?case by simp
next
  case (Cons x xs)
  from Cons.prems(2) have "f x s \<noteq> Inl e" by auto
  then have "g x s = f x s" using Cons.prems(1) by simp
  with Cons show ?case by (cases "f x s") auto
qed

lemma Visit_more_fuel:
  "Visit fuel sources src s \<noteq> Inl OutOfFuel \<Longrightarrow> Visit (Suc fuel) sources src s = Visit fuel sources src s"
proof (induction fuel arbitrary: src s)
  case 0
  then show ?case by simp
next
  case (Suc fuel)
  let ?f = "\<lambda>fuel (r :: requirement) t. case req_Source r of None \<Rightarrow> Inr t | Some name \<Rightarrow>
    (case fmlookup sources name of None \<Rightarrow> Inr t | Some other \<Rightarrow> Visit fuel sources other t)"
  let ?s1 = "s\<lparr>ts_inprogress := insert (src_Name src) (ts_inprogress s)\<rparr>"
  show ?case
  proof (cases "src_Name src \<in> ts_inprogress s \<or> src_Name src \<in> ts_done s")
    case True
    then show ?thesis by auto
  next
    case False
    with Suc.prems have "fold_result (?f fuel) (slice (src_Requirements src)) ?s1 \<noteq> Inl OutOfFuel"
      by auto
    then have "fold_result (?f (Suc fuel)) (slice (src_Requirements src)) ?s1 =
        fold_result (?f fuel) (slice (src_Requirements src)) ?s1"
    proof (rule fold_result_agree [rotated])
      fix r t
      assume "?f fuel r t \<noteq> Inl OutOfFuel"
      then show "?f (Suc fuel) r t = ?f fuel r t"
        using Suc.IH by (simp only: split: option.splits) auto
    qed
    then show ?thesis
      using False by (simp only: Visit.simps(2) if_False de_Morgan_disj simp_thms)
  qed
qed

lemma topo_fuel_ok:
  assumes "named_by_key sources" and "fcard (fmdom sources) < fuel"
  shows "visit_ok sources topo_start (fmdom' sources)
    (fold_result (\<lambda>name s. case fmlookup sources name of
         None \<Rightarrow> Inr s | Some src \<Rightarrow> Visit fuel sources src s)
       (sorted_list_of_fset (fmdom sources)) topo_start)"
proof -
  let ?xs = "sorted_list_of_fset (fmdom sources)"
  have xs: "set ?xs = fmdom' sources"
    by (simp add: fmdom'_alt_def)
  have card: "card (fmdom' sources - {}) < fuel"
    using assms(2) by (simp add: fmdom'_alt_def fcard.rep_eq)
  have "visit_ok sources topo_start (\<Union> ((\<lambda>x. {x}) ` set ?xs))
      (fold_result (\<lambda>name s. case fmlookup sources name of
         None \<Rightarrow> Inr s | Some src \<Rightarrow> Visit fuel sources src s) ?xs topo_start)"
  proof (rule visit_ok_fold)
    show "topo_inv sources topo_start" by (simp add: topo_inv_def topo_start_def)
    fix x s
    assume x: "x \<in> set ?xs" and s: "topo_inv sources s" "ts_inprogress s = ts_inprogress topo_start"
    from x xs obtain src where src: "fmlookup sources x = Some src" by (auto dest: fmdom'_notD)
    then have "src_Name src = x" using assms(1) by (auto simp: named_by_key_def fmpred_iff)
    with src s card show "visit_ok sources s {x}
        (case fmlookup sources x of None \<Rightarrow> Inr s | Some src \<Rightarrow> Visit fuel sources src s)"
      using Visit_spec [OF assms(1), of src s fuel] by (simp add: topo_start_def)
  qed
  with xs show ?thesis by simp
qed

lemma Domain_requires: "Domain (requires sources) \<subseteq> fmdom' sources"
  by (auto simp: requires_def intro: fmdom'I)

text \<open>Two sources, the first requiring the second, for the witnesses.\<close>

definition example_sources :: source_map where
  "example_sources = fmap_of_list
     [(''a'', zero_source\<lparr>src_Name := ''a'', src_Requirements := Some
         [\<lparr>req_Source = Some ''b'', req_Commit = None, req_Path = [], req_Prefix = [], req_AutoMount = None\<rparr>]\<rparr>),
      (''b'', zero_source\<lparr>src_Name := ''b''\<rparr>)]"

lemma example_named: "named_by_key example_sources"
  by (auto simp: named_by_key_def example_sources_def fmpred_iff fmlookup_of_list split: if_splits)

subsection \<open>Properties\<close>

text \<open>
  C6: the sorted list of sources has every source of the configuration once, each after all the
  sources it requires; an error names a source that lies on a cycle of requirements. The fuel
  never runs out.
\<close>

theorem TopologicalSortedSources_correct:
  assumes "named_by_key sources"
  shows "case TopologicalSortedSources sources of
      Inr out \<Rightarrow> distinct (map src_Name out) \<and> src_Name ` set out = fmdom' sources \<and>
        (\<forall>s \<in> set out. fmlookup sources (src_Name s) = Some s) \<and>
        deps_before (requires sources) (map src_Name out)
    | Inl e \<Rightarrow> \<exists>a. e = CycleFound a \<and> (a, a) \<in> (requires sources)\<^sup>+"
proof -
  let ?fold = "fold_result (\<lambda>name s. case fmlookup sources name of
      None \<Rightarrow> Inr s | Some src \<Rightarrow> Visit (Suc (fcard (fmdom sources))) sources src s)
    (sorted_list_of_fset (fmdom sources)) topo_start"
  have ok: "visit_ok sources topo_start (fmdom' sources) ?fold"
    by (rule topo_fuel_ok) (simp_all add: assms)
  show ?thesis
  proof (cases ?fold)
    case (Inl e)
    with ok show ?thesis
      by (simp add: TopologicalSortedSources_def TopologicalSortedSources_fuel_def visit_ok_def)
  next
    case (Inr s)
    with ok have "topo_inv sources s" "fmdom' sources \<subseteq> ts_done s"
      by (simp_all add: visit_ok_def)
    with Inr show ?thesis
      by (auto simp: TopologicalSortedSources_def TopologicalSortedSources_fuel_def topo_inv_def
          intro: fmdom'I)
  qed
qed

theorem TopologicalSortedSources_correct_witness:
  "named_by_key example_sources \<and> (''a'', ''b'') \<in> requires example_sources \<and>
   (case TopologicalSortedSources example_sources of
      Inr out \<Rightarrow> src_Name ` set out = {''a'', ''b''}
    | Inl e \<Rightarrow> \<exists>a. (a, a) \<in> (requires example_sources)\<^sup>+)"
proof -
  have dom: "fmdom' example_sources = {''a'', ''b''}"
    by (auto simp: example_sources_def fmdom'_alt_def)
  have "(''a'', ''b'') \<in> requires example_sources"
    by (simp add: requires_def example_sources_def fmlookup_of_list)
  with TopologicalSortedSources_correct [OF example_named] dom example_named show ?thesis
    by (auto split: sum.splits)
qed

text \<open>
  sorting succeeds exactly when the requirements of the sources have no cycle.
  Requirements on sources that the configuration does not have are ignored.
\<close>

theorem TopologicalSortedSources_succeeds_iff:
  assumes "named_by_key sources"
  shows "(\<exists>out. TopologicalSortedSources sources = Inr out) \<longleftrightarrow> acyclic (requires sources)"
proof (cases "TopologicalSortedSources sources")
  case (Inl e)
  with TopologicalSortedSources_correct [OF assms] show ?thesis by (auto simp: acyclic_def)
next
  case (Inr out)
  with TopologicalSortedSources_correct [OF assms] have "deps_before (requires sources) (map src_Name out)"
    "distinct (map src_Name out)" "Domain (requires sources) \<subseteq> set (map src_Name out)"
    using Domain_requires [of sources] by auto
  then have "acyclic (requires sources)" by (rule deps_before_acyclic)
  with Inr show ?thesis by simp
qed

theorem TopologicalSortedSources_succeeds_iff_witness:
  "(\<exists>out. TopologicalSortedSources example_sources = Inr out) \<longleftrightarrow> acyclic (requires example_sources)"
  by (rule TopologicalSortedSources_succeeds_iff [OF example_named])

text \<open>
  one unit of fuel more than there are sources decides the search: any larger amount gives
  the same answer, so the model's recursion is the code's.
\<close>

theorem TopologicalSortedSources_fuel_enough:
  assumes "named_by_key sources" and "fcard (fmdom sources) < fuel"
  shows "TopologicalSortedSources_fuel fuel sources = TopologicalSortedSources sources"
  using assms(2)
proof (induction fuel)
  case (Suc fuel)
  let ?f = "\<lambda>fuel name s. case fmlookup sources name of
      None \<Rightarrow> Inr s | Some src \<Rightarrow> Visit fuel sources src s"
  let ?xs = "sorted_list_of_fset (fmdom sources)"
  show ?case
  proof (cases "fuel = fcard (fmdom sources)")
    case True
    then show ?thesis by (simp add: TopologicalSortedSources_def)
  next
    case False
    with Suc.prems have less: "fcard (fmdom sources) < fuel" by simp
    have "fold_result (?f fuel) ?xs topo_start \<noteq> Inl OutOfFuel"
      using topo_fuel_ok [OF assms(1) less] by (auto simp: visit_ok_def)
    then have "fold_result (?f (Suc fuel)) ?xs topo_start = fold_result (?f fuel) ?xs topo_start"
      by (rule fold_result_agree [rotated])
         (auto split: option.splits simp del: Visit.simps dest: Visit_more_fuel)
    with Suc.IH [OF less] show ?thesis
      by (simp only: TopologicalSortedSources_fuel_def)
  qed
qed simp

theorem TopologicalSortedSources_fuel_enough_witness:
  "TopologicalSortedSources_fuel 7 example_sources = TopologicalSortedSources example_sources"
proof (rule TopologicalSortedSources_fuel_enough [OF example_named])
  show "fcard (fmdom example_sources) < 7"
    by (simp add: example_sources_def fcard_finsert_if fcard.rep_eq)
qed

end
