(* ===== verification/Worker.thy ===== *)
theory Worker
  imports Config
begin

text \<open>
  The bundle worker of \<open>pkg/service/worker.go\<close>: one run of \<open>Execute\<close> wipes the directories of
  the sources, runs the synchronizers, resolves the revision, transforms the data, builds the
  bundle and uploads it, and answers with the time of the next run, zero to leave the pool.

  What the worker calls is known by the answers it gives: an \<open>environment\<close> answers each call
  from the calls made before it (\<open>trace\<close>), so a theorem about every environment covers files,
  repositories and services that change while the worker runs. Closing the channel \<open>done\<close> twice
  panics, as it does in Go. Times are nanoseconds, and \<open>0\<close> is the zero time.
\<close>

datatype build_state =
  InternalError | ConfigError | Success | SyncFailed | TransformFailed | BuildFailed | PushFailed

fun BuildState_String :: "build_state \<Rightarrow> string" where
  "BuildState_String ConfigError = ''CONFIG_ERROR''"
| "BuildState_String Success = ''SUCCESS''"
| "BuildState_String SyncFailed = ''SYNC_FAILED''"
| "BuildState_String TransformFailed = ''TRANSFORM_FAILED''"
| "BuildState_String BuildFailed = ''BUILD_FAILED''"
| "BuildState_String PushFailed = ''PUSH_FAILED''"
| "BuildState_String InternalError = ''INTERNAL_ERROR''"

record status =
  st_State :: build_state
  st_Message :: string

record source_synchronizer =
  sync_sourceName :: string
  sync_sourceType :: string

text \<open>The calls of a worker; sources and synchronizers are known by their position.\<close>

datatype event =
    Wipe nat
  | Sync nat
  | Resolve
  | Transform nat
  | Build string
  | Upload string
  | Close nat

type_synonym metadata_map = "(string, (string, (string, any) fmap) fmap) fmap"

record environment =
  env_wipe :: "event list \<Rightarrow> nat \<Rightarrow> string option"
  env_sync :: "event list \<Rightarrow> nat \<Rightarrow> string + (string, any) fmap option"
  env_resolve :: "event list \<Rightarrow> string \<Rightarrow> metadata_map \<Rightarrow> string + string"
  env_transform :: "event list \<Rightarrow> nat \<Rightarrow> string option"
  env_build :: "event list \<Rightarrow> stringset \<Rightarrow> string \<Rightarrow> int option \<Rightarrow> string \<Rightarrow> string option"
  env_upload :: "event list \<Rightarrow> string \<Rightarrow> string \<Rightarrow> string option"

record 'g worker =
  bundleConfig :: bundle_config
  sourceConfigs :: "source list"
  stackConfigs :: "'g stack list"
  synchronizers :: "source_synchronizer list"
  sources :: "string list"
  storage :: bool
  changed :: bool
  done_closed :: bool
  singleShot :: bool
  status :: status
  interval :: int
  trace :: "event list"

definition defaultInterval :: int where "defaultInterval = 30 * 1000000000"
definition errorInterval :: int where "errorInterval = 30 * 1000000000"

definition NewBundleWorker :: "bundle_config \<Rightarrow> source list \<Rightarrow> 'g stack list \<Rightarrow> 'g worker" where
  "NewBundleWorker b srcs stks =
     \<lparr>bundleConfig = b, sourceConfigs = srcs, stackConfigs = stks, synchronizers = [], sources = [],
      storage = False, changed = False, done_closed = False, singleShot = False,
      status = \<lparr>st_State = InternalError, st_Message = []\<rparr>, interval = defaultInterval, trace = []\<rparr>"

definition WithSynchronizers :: "source_synchronizer list \<Rightarrow> 'g worker \<Rightarrow> 'g worker" where
  "WithSynchronizers ss w = w\<lparr>synchronizers := ss\<rparr>"

definition WithSources :: "string list \<Rightarrow> 'g worker \<Rightarrow> 'g worker" where
  "WithSources ss w = w\<lparr>sources := ss\<rparr>"

definition WithStorage :: "'g worker \<Rightarrow> 'g worker" where
  "WithStorage w = w\<lparr>storage := True\<rparr>"

definition WithSingleShot :: "bool \<Rightarrow> 'g worker \<Rightarrow> 'g worker" where
  "WithSingleShot b w = w\<lparr>singleShot := b\<rparr>"

definition WithInterval :: "int \<Rightarrow> 'g worker \<Rightarrow> 'g worker" where
  "WithInterval d w = w\<lparr>interval := (if d = 0 then defaultInterval else d)\<rparr>"

definition Done :: "'g worker \<Rightarrow> bool" where
  "Done w = done_closed w"

definition changeConfiguration :: "'g worker \<Rightarrow> 'g worker" where
  "changeConfiguration w = w\<lparr>changed := True\<rparr>"

definition configurationChanged :: "'g worker \<Rightarrow> bool" where
  "configurationChanged w = changed w"

definition UpdateConfig ::
    "bundle_config option \<Rightarrow> source list \<Rightarrow> 'g stack list \<Rightarrow> 'g worker \<Rightarrow> 'g worker" where
  "UpdateConfig b srcs stks w =
     (if b = None \<or> \<not> Bundle_Equal (Some (bundleConfig w)) b \<or>
         \<not> Sources_Equal (sourceConfigs w) srcs \<or> \<not> Stacks_Equal (stackConfigs w) stks
      then changeConfiguration w else w)"

subsection \<open>One run\<close>

definition call :: "event \<Rightarrow> 'g worker \<Rightarrow> 'g worker" where
  "call e w = w\<lparr>trace := trace w @ [e]\<rparr>"

text \<open>\<open>None\<close> is the panic of a second \<open>close(w.done)\<close>.\<close>

definition die :: "'g worker \<Rightarrow> (int \<times> 'g worker) option" where
  "die w = (let w = fold (\<lambda>i. call (Close i)) [0..<length (synchronizers w)] w in
     if done_closed w then None else Some (0, w\<lparr>done_closed := True\<rparr>))"

definition report ::
    "build_state \<Rightarrow> string option \<Rightarrow> int \<Rightarrow> 'g worker \<Rightarrow> (int \<times> 'g worker) option" where
  "report state err now w =
     (let i = (case err of None \<Rightarrow> interval w | Some _ \<Rightarrow> errorInterval);
          w = w\<lparr>status := (status w)\<lparr>st_State := state\<rparr>\<rparr>;
          w = (case err of
                 None \<Rightarrow> w
               | Some e \<Rightarrow> w\<lparr>status := (status w)\<lparr>st_Message := e\<rparr>\<rparr>)
      in if singleShot w then die w else Some (now + i, w))"

text \<open>A call that may fail: the failure ends the run with the state of its phase.\<close>

type_synonym failure = "build_state \<times> string"

definition checked ::
    "build_state \<Rightarrow> event \<Rightarrow> string option \<Rightarrow> 'g worker \<Rightarrow> (failure \<times> 'g worker) + 'g worker" where
  "checked state e r w =
     (case r of None \<Rightarrow> Inr (call e w) | Some err \<Rightarrow> Inl ((state, err), call e w))"

definition wipe_source :: "environment \<Rightarrow> nat \<Rightarrow> 'g worker \<Rightarrow> (failure \<times> 'g worker) + 'g worker" where
  "wipe_source env i w = checked InternalError (Wipe i) (env_wipe env (trace w) i) w"

definition put_metadata :: "source_synchronizer \<Rightarrow> (string, any) fmap \<Rightarrow> metadata_map \<Rightarrow> metadata_map" where
  "put_metadata ss m md = fmupd (sync_sourceName ss)
     (fmupd (sync_sourceType ss) m (gomap (fmlookup md (sync_sourceName ss)))) md"

definition run_synchronizer ::
    "environment \<Rightarrow> nat \<Rightarrow> metadata_map \<times> 'g worker \<Rightarrow> (failure \<times> 'g worker) + metadata_map \<times> 'g worker" where
  "run_synchronizer env i = (\<lambda>(md, w).
     (case env_sync env (trace w) i of
        Inl err \<Rightarrow> Inl ((SyncFailed, err), call (Sync i) w)
      | Inr None \<Rightarrow> Inr (md, call (Sync i) w)
      | Inr (Some m) \<Rightarrow> Inr (put_metadata (synchronizers w ! i) m md, call (Sync i) w)))"

definition resolve_revision ::
    "environment \<Rightarrow> metadata_map \<Rightarrow> 'g worker \<Rightarrow> (failure \<times> 'g worker) + string \<times> 'g worker" where
  "resolve_revision env md w =
     (case env_resolve env (trace w) (bun_Revision (bundleConfig w)) md of
        Inl err \<Rightarrow> Inl ((BuildFailed, err), call Resolve w)
      | Inr revision \<Rightarrow> Inr (revision, call Resolve w))"

definition transform_source :: "environment \<Rightarrow> nat \<Rightarrow> 'g worker \<Rightarrow> (failure \<times> 'g worker) + 'g worker" where
  "transform_source env i w = checked TransformFailed (Transform i) (env_transform env (trace w) i) w"

definition build_bundle :: "environment \<Rightarrow> string \<Rightarrow> 'g worker \<Rightarrow> (failure \<times> 'g worker) + 'g worker" where
  "build_bundle env revision w = checked BuildFailed (Build revision)
     (env_build env (trace w) (bun_ExcludedFiles (bundleConfig w)) (opts_Target (bun_Options (bundleConfig w)))
        (map_option opt_Level (opts_Optimization (bun_Options (bundleConfig w)))) revision) w"

definition upload_bundle :: "environment \<Rightarrow> string \<Rightarrow> 'g worker \<Rightarrow> (failure \<times> 'g worker) + 'g worker" where
  "upload_bundle env revision w =
     (if storage w
      then checked PushFailed (Upload revision) (env_upload env (trace w) (bun_Name (bundleConfig w)) revision) w
      else Inr w)"

definition Execute_phases :: "environment \<Rightarrow> 'g worker \<Rightarrow> (failure \<times> 'g worker) + 'g worker" where
  "Execute_phases env w0 =
     result_bind (fold_result (wipe_source env) [0..<length (sources w0)] w0) (\<lambda>w.
     result_bind (fold_result (run_synchronizer env) [0..<length (synchronizers w0)] (fmempty, w)) (\<lambda>(md, w).
     result_bind (resolve_revision env md w) (\<lambda>(revision, w).
     result_bind (fold_result (transform_source env) [0..<length (sources w0)] w) (\<lambda>w.
     result_bind (build_bundle env revision w) (\<lambda>w.
     upload_bundle env revision w)))))"

definition Execute :: "environment \<Rightarrow> int \<Rightarrow> 'g worker \<Rightarrow> (int \<times> 'g worker) option" where
  "Execute env now w =
     (if configurationChanged w then die w
      else case Execute_phases env w of
        Inl ((state, err), w') \<Rightarrow> report state (Some err) now w'
      | Inr w' \<Rightarrow> report Success None now w')"

subsection \<open>The calls of a run\<close>

text \<open>
  \<open>extends w w' es\<close>: from \<open>w\<close> to \<open>w'\<close> the calls \<open>es\<close> were made and nothing else changed.
\<close>

definition extends :: "'g worker \<Rightarrow> 'g worker \<Rightarrow> event list \<Rightarrow> bool" where
  "extends w w' es \<longleftrightarrow> w' = w\<lparr>trace := trace w @ es\<rparr>"

fun fails_as :: "event \<Rightarrow> build_state" where
  "fails_as (Wipe i) = InternalError"
| "fails_as (Sync i) = SyncFailed"
| "fails_as Resolve = BuildFailed"
| "fails_as (Transform i) = TransformFailed"
| "fails_as (Build revision) = BuildFailed"
| "fails_as (Upload revision) = PushFailed"
| "fails_as (Close i) = InternalError"

text \<open>
  A phase that makes the calls of a plan: a success has made them all, a failure a part that
  ends with the call that failed.
\<close>

definition follows ::
    "('b \<Rightarrow> 'g worker) \<Rightarrow> event list \<Rightarrow> 'g worker \<Rightarrow> (failure \<times> 'g worker) + 'b \<Rightarrow> bool" where
  "follows prj plan w r \<longleftrightarrow>
     (case r of
        Inr b \<Rightarrow> extends w (prj b) plan
      | Inl ((state, err), w') \<Rightarrow>
          \<exists>es e. prefix (es @ [e]) plan \<and> extends w w' (es @ [e]) \<and> state = fails_as e)"

lemma extends_refl: "extends w w []"
  by (simp add: extends_def)

lemma extends_trans: "extends w w' es \<Longrightarrow> extends w' w'' fs \<Longrightarrow> extends w w'' (es @ fs)"
  by (simp add: extends_def)

lemma extends_call: "extends w (call e w) [e]"
  by (simp add: extends_def call_def)

lemma follows_bind:
  assumes "follows prj p w r" and "\<And>b. r = Inr b \<Longrightarrow> follows prj' p' (prj b) (f b)"
  shows "follows prj' (p @ p') w (result_bind r f)"
proof (cases r)
  case (Inl fw)
  with assms(1) show ?thesis
    by (cases fw) (fastforce simp: follows_def intro: prefix_prefix)
next
  case (Inr b)
  with assms(1) have w: "extends w (prj b) p" by (simp add: follows_def)
  note f = assms(2) [OF Inr, unfolded follows_def]
  show ?thesis
  proof (cases "f b")
    case (Inr b')
    with f w \<open>r = Inr b\<close> show ?thesis by (simp add: follows_def extends_trans)
  next
    case (Inl fw)
    then obtain state err w' where "f b = Inl ((state, err), w')" by (cases fw) auto
    with f obtain es e where es: "prefix (es @ [e]) p'" "extends (prj b) w' (es @ [e])" "state = fails_as e"
      by auto
    have "prefix ((p @ es) @ [e]) (p @ p')"
      using es(1) by simp
    moreover have "extends w w' ((p @ es) @ [e])"
      using extends_trans [OF w es(2)] by simp
    ultimately have "\<exists>es e. prefix (es @ [e]) (p @ p') \<and> extends w w' (es @ [e]) \<and> state = fails_as e"
      using es(3) by blast
    then show ?thesis
      using \<open>f b = Inl ((state, err), w')\<close> \<open>r = Inr b\<close> by (simp add: follows_def)
  qed
qed

lemma follows_fold:
  assumes "\<And>i b. follows prj [ev i] (prj b) (f i b)"
  shows "follows prj (map ev ks) (prj b) (fold_result f ks b)"
proof (induction ks arbitrary: b)
  case Nil
  then show ?case by (simp add: follows_def extends_refl)
next
  case (Cons i ks)
  from follows_bind [OF assms [of i b] Cons.IH] show ?case by simp
qed

lemma follows_fold0:
  assumes "\<And>i b. follows prj [ev i] (prj b) (f i b)" and "prj b = w"
  shows "follows prj (map ev ks) w (fold_result f ks b)"
  using follows_fold [where ev = ev and f = f and b = b, OF assms(1)] assms(2) by simp

lemma follows_checked:
  "fails_as e = state \<Longrightarrow> follows (\<lambda>w. w) [e] w (checked state e r w)"
  by (cases r) (auto simp: follows_def checked_def extends_call intro: exI [of _ "[]"])

lemma follows_wipe: "follows (\<lambda>w. w) [Wipe i] w (wipe_source env i w)"
  by (simp add: wipe_source_def follows_checked)

lemma follows_transform: "follows (\<lambda>w. w) [Transform i] w (transform_source env i w)"
  by (simp add: transform_source_def follows_checked)

lemma follows_transforms:
  "follows (\<lambda>w. w) (map Transform ks) w (fold_result (transform_source env) ks w)"
  by (rule follows_fold0) (rule follows_transform, rule refl)

lemma follows_build: "follows (\<lambda>w. w) [Build revision] w (build_bundle env revision w)"
  by (simp add: build_bundle_def follows_checked)

lemma follows_upload:
  "follows (\<lambda>w. w) (if storage w then [Upload revision] else []) w (upload_bundle env revision w)"
  by (simp add: upload_bundle_def follows_checked) (simp add: follows_def extends_refl)

lemma follows_sync: "follows snd [Sync i] (snd b) (run_synchronizer env i b)"
  by (cases b) (auto simp: run_synchronizer_def follows_def extends_call split: sum.split option.split
      intro: exI [of _ "[]"])

lemma follows_resolve: "follows snd [Resolve] w (resolve_revision env md w)"
  by (auto simp: resolve_revision_def follows_def extends_call split: sum.split intro: exI [of _ "[]"])

text \<open>The calls of a run that reaches the end.\<close>

definition plan :: "'g worker \<Rightarrow> string \<Rightarrow> event list" where
  "plan w revision =
     map Wipe [0..<length (sources w)] @ map Sync [0..<length (synchronizers w)] @ [Resolve] @
     map Transform [0..<length (sources w)] @ [Build revision] @
     (if storage w then [Upload revision] else [])"

lemma follows_extends_storage:
  "follows prj p w (Inr b) \<Longrightarrow> storage (prj b) = storage w"
  by (simp add: follows_def extends_def)

lemma Execute_phases_follows:
  fixes w :: "'g worker"
  shows "\<exists>revision. follows (\<lambda>w. w) (plan w revision) w (Execute_phases env w)"
proof -
  define r1 where "r1 = fold_result (wipe_source env) [0..<length (sources w)] w"
  have f1: "follows (\<lambda>w. w) (map Wipe [0..<length (sources w)]) w r1"
    unfolding r1_def by (rule follows_fold0 [OF follows_wipe]) (rule refl)
  define r2 where "r2 = result_bind r1 (\<lambda>w'. fold_result (run_synchronizer env)
      [0..<length (synchronizers w)] (fmempty, w'))"
  have f2: "follows snd (map Wipe [0..<length (sources w)] @ map Sync [0..<length (synchronizers w)]) w r2"
    unfolding r2_def by (rule follows_bind [OF f1], rule follows_fold0 [OF follows_sync]) simp
  define r3 where "r3 = result_bind r2 (\<lambda>(md, w'). resolve_revision env md w')"
  have f3: "follows snd ((map Wipe [0..<length (sources w)] @ map Sync [0..<length (synchronizers w)]) @ [Resolve]) w r3"
    unfolding r3_def by (rule follows_bind [OF f2]) (simp add: follows_resolve split: prod.split)
  define rest :: "string \<times> 'g worker \<Rightarrow> (failure \<times> 'g worker) + 'g worker"
    where "rest = (\<lambda>(revision, w').
      result_bind (fold_result (transform_source env) [0..<length (sources w)] w') (\<lambda>w'.
      result_bind (build_bundle env revision w') (upload_bundle env revision)))"
  have phases: "Execute_phases env w = result_bind r3 rest"
    by (simp add: Execute_phases_def r1_def r2_def r3_def rest_def result_bind_assoc case_prod_beta')
  have rest: "follows (\<lambda>w. w) (map Transform [0..<length (sources w)] @ [Build revision] @
      (if storage w' then [Upload revision] else [])) w' (rest (revision, w'))" for revision w'
    unfolding rest_def prod.case
  proof (rule follows_bind, rule follows_transforms)
    fix w1
    assume w1: "fold_result (transform_source env) [0..<length (sources w)] w' = Inr w1"
    have s: "storage w1 = storage w'"
      using follows_transforms [where ks = "[0..<length (sources w)]" and w = w' and env = env] w1
      by (auto dest: follows_extends_storage)
    show "follows (\<lambda>w. w) ([Build revision] @ (if storage w' then [Upload revision] else [])) w1
        (result_bind (build_bundle env revision w1) (upload_bundle env revision))"
    proof (rule follows_bind [OF follows_build])
      fix w2
      assume "build_bundle env revision w1 = Inr w2"
      then have "storage w2 = storage w1"
        using follows_build [where w = w1 and revision = revision and env = env] by (auto dest: follows_extends_storage)
      then show "follows (\<lambda>w. w) (if storage w' then [Upload revision] else []) w2 (upload_bundle env revision w2)"
        using follows_upload [where w = w2 and revision = revision and env = env] s by simp
    qed
  qed
  obtain revision where r: "\<And>b. r3 = Inr b \<Longrightarrow> fst b = revision"
    by (cases r3) auto
  have "follows (\<lambda>w. w) (((map Wipe [0..<length (sources w)] @ map Sync [0..<length (synchronizers w)]) @ [Resolve]) @
      (map Transform [0..<length (sources w)] @ [Build revision] @ (if storage w then [Upload revision] else [])))
      w (result_bind r3 rest)"
  proof (intro follows_bind [OF f3])
    fix b
    assume "r3 = Inr b"
    then have "storage (snd b) = storage w"
      using f3 by (auto dest: follows_extends_storage)
    moreover have "fst b = revision"
      using r [OF \<open>r3 = Inr b\<close>] .
    ultimately show "follows (\<lambda>w. w) (map Transform [0..<length (sources w)] @ [Build revision] @
        (if storage w then [Upload revision] else [])) (snd b) (rest b)"
      using rest [of revision "snd b"] by (cases b) simp
  qed
  then show ?thesis
    unfolding phases plan_def by (intro exI [of _ revision]) simp
qed

subsection \<open>Properties\<close>

lemma fold_call: "fold (\<lambda>i. call (ev i)) ks w = w\<lparr>trace := trace w @ map ev ks\<rparr>"
  by (induction ks arbitrary: w) (simp_all add: call_def)

lemma die_eq:
  "die w = (if done_closed w then None
     else Some (0, w\<lparr>trace := trace w @ map Close [0..<length (synchronizers w)], done_closed := True\<rparr>))"
  by (simp add: die_def Let_def fold_call)

lemma fails_as_not_Success [simp]: "fails_as e \<noteq> Success"
  by (cases e) simp_all

definition next_run :: "int \<Rightarrow> 'g worker \<Rightarrow> 'g worker \<Rightarrow> int" where
  "next_run now w w' =
     (if done_closed w' then 0
      else now + (if st_State (status w') = Success then interval w else errorInterval))"

lemma Execute_not_changed:
  assumes "\<not> done_closed w" "\<not> changed w"
  shows "\<exists>w' revision calls. Execute env now w = Some (next_run now w w', w') \<and>
    done_closed w' = singleShot w \<and>
    trace w' = trace w @ calls @ (if singleShot w then map Close [0..<length (synchronizers w)] else []) \<and>
    prefix calls (plan w revision) \<and>
    (if st_State (status w') = Success then calls = plan w revision \<and> st_Message (status w') = st_Message (status w)
     else calls \<noteq> [] \<and> st_State (status w') = fails_as (last calls))"
proof -
  obtain revision where f: "follows (\<lambda>w. w) (plan w revision) w (Execute_phases env w)"
    using Execute_phases_follows by blast
  show ?thesis
  proof (cases "Execute_phases env w")
    case (Inr w1)
    with f have w1: "w1 = w\<lparr>trace := trace w @ plan w revision\<rparr>"
      by (simp add: follows_def extends_def)
    then show ?thesis
      using assms Inr
      by (intro exI [of _ "snd (the (Execute env now w))"] exI [of _ revision] exI [of _ "plan w revision"])
        (simp add: Execute_def configurationChanged_def report_def die_eq next_run_def Let_def)
  next
    case (Inl fw)
    then obtain state err w1 where e: "Execute_phases env w = Inl ((state, err), w1)" by (cases fw) auto
    with f obtain es ev where es: "prefix (es @ [ev]) (plan w revision)"
      and w1: "w1 = w\<lparr>trace := trace w @ es @ [ev]\<rparr>" and st: "state = fails_as ev"
      by (auto simp: follows_def extends_def)
    show ?thesis
      using assms es e
      by (intro exI [of _ "snd (the (Execute env now w))"] exI [of _ revision] exI [of _ "es @ [ev]"])
        (simp add: Execute_def configurationChanged_def report_def die_eq next_run_def Let_def w1 st)
  qed
qed


definition fine :: environment where
  "fine = \<lparr>env_wipe = \<lambda>_ _. None, env_sync = \<lambda>_ _. Inr None, env_resolve = \<lambda>_ _ _. Inr ''r1'',
     env_transform = \<lambda>_ _. None, env_build = \<lambda>_ _ _ _ _. None, env_upload = \<lambda>_ _ _. Some ''denied''\<rparr>"

definition example_worker :: "unit worker" where
  "example_worker = WithStorage (WithSources [''b'', ''lib'']
     (WithSynchronizers [\<lparr>sync_sourceName = ''lib'', sync_sourceType = ''git''\<rparr>]
       (NewBundleWorker \<lparr>bun_Name = ''b'', bun_Labels = None, bun_Revision = [],
          bun_ObjectStorage = \<lparr>os_AmazonS3 = None, os_GCPCloudStorage = None, os_AzureBlobStorage = None,
            os_FileSystemStorage = None\<rparr>, bun_Requirements = None, bun_ExcludedFiles = [],
          bun_Interval = 0, bun_Options = Options_zero\<rparr> [] [])))"

lemmas worker_defs = example_worker_def WithStorage_def WithSources_def WithSynchronizers_def
  NewBundleWorker_def WithSingleShot_def WithInterval_def


text \<open>
  A worker is told to stop exactly when there is no bundle any more or the new configuration
  is not equal to its own, and the order stays given; a change of the options of the bundle
  alone, which the equality does not compare, leaves the worker running with the old options.
\<close>

theorem UpdateConfig_changed:
  "(\<not> changed (UpdateConfig b srcs stks w) \<longleftrightarrow> \<not> changed w \<and> b \<noteq> None \<and>
      Bundle_Equal (Some (bundleConfig w)) b \<and> Sources_Equal (sourceConfigs w) srcs \<and>
      Stacks_Equal (stackConfigs w) stks) \<and>
   UpdateConfig b srcs stks w = w\<lparr>changed := changed (UpdateConfig b srcs stks w)\<rparr> \<and>
   UpdateConfig (Some ((bundleConfig w)\<lparr>bun_Options := opts\<rparr>)) (sourceConfigs w) (stackConfigs w) w = w"
proof -
  have "Bundle_Equal (Some (bundleConfig w)) (Some ((bundleConfig w)\<lparr>bun_Options := opts\<rparr>))"
    by (simp add: bundle_eq.eq_Some_iff Bundle_view_def)
  moreover have "Sources_Equal (sourceConfigs w) (sourceConfigs w)" "Stacks_Equal (stackConfigs w) (stackConfigs w)"
    by (simp_all add: Sources_Equal_iff Stacks_Equal_iff)
  ultimately show ?thesis
    by (auto simp: UpdateConfig_def changeConfiguration_def)
qed

text \<open>
  A run that succeeds after a failure reports success with the message of the failure still
  in the status; and after a failure the next run is 30 seconds later whatever the interval of
  the bundle, which is later than its own interval when that is shorter.
\<close>

theorem report_after_failure:
  assumes "\<not> singleShot w"
  shows "\<exists>w1 w2. report PushFailed (Some err) now w = Some (now + errorInterval, w1) \<and>
    report Success None later w1 = Some (later + interval w, w2) \<and>
    status w2 = \<lparr>st_State = Success, st_Message = err\<rparr>"
  using assms by (simp add: report_def)

lemma report_after_failure_witness:
  "\<exists>w1 w2. report PushFailed (Some ''denied'') 100 (WithInterval 5 example_worker) = Some (100 + errorInterval, w1) \<and>
    report Success None 200 w1 = Some (205, w2) \<and> status w2 = \<lparr>st_State = Success, st_Message = ''denied''\<rparr>"
  using report_after_failure [of "WithInterval 5 example_worker" "''denied''" 100 200]
  by (simp add: worker_defs)

end
