(* ===== verification/FileSystem.thy ===== *)
theory FileSystem
  imports Paths
begin

text \<open>
  The file systems of \<open>internal/fs\<close>. An \<open>fs.FS\<close> is what it answers to \<open>Open\<close>: an error, a
  file with its content, or a directory with what reading it gives, an error or its entries
  (name and whether it is a directory).
  The escaping of file names, the filter by globs, the mount of several file systems under
  prefixes, and the walk that looks for files are modelled on this interface. Matching a
  compiled glob is a parameter (\<open>match\<close>), the library that compiles globs another (\<open>compile\<close>).
\<close>

datatype fs_error = NotExist string | FSError string

type_synonym entries = "(string \<times> bool) list"

datatype handle = File string | Directory "fs_error + entries"

type_synonym fsys = "string \<Rightarrow> fs_error + handle"

subsection \<open>Escaping\<close>

definition ReplaceAll :: "char \<Rightarrow> string \<Rightarrow> string \<Rightarrow> string" where
  "ReplaceAll c to s = concat (map (\<lambda>x. if x = c then to else [x]) s)"

definition Escape :: "string \<Rightarrow> string" where
  "Escape path = ReplaceAll CHR '':'' ''#'' (ReplaceAll CHR ''#'' ''##'' path)"

fun strings_Index :: "string \<Rightarrow> string \<Rightarrow> nat option" where
  "strings_Index s sub =
     (if prefix sub s then Some 0
      else case s of [] \<Rightarrow> None | _ # t \<Rightarrow> map_option Suc (strings_Index t sub))"

declare strings_Index.simps [simp del]

lemma strings_Index_length: "strings_Index s sub = Some i \<Longrightarrow> i + length sub \<le> length s"
proof (induction s sub arbitrary: i rule: strings_Index.induct)
  case (1 s sub)
  then show ?case
    by (subst (asm) (2) strings_Index.simps) (auto split: if_splits list.splits dest: prefix_length_le)
qed

function unescape :: "string \<Rightarrow> string" where
  "unescape path =
     (if path = [] then []
      else case strings_Index path ''##'' of
        Some i \<Rightarrow> take (i + 1) path @ unescape (drop (i + 2) path)
      | None \<Rightarrow> (case strings_Index path ''#'' of
          Some i \<Rightarrow> take i path @ '':'' @ unescape (drop (i + 1) path)
        | None \<Rightarrow> path))"
  by pat_completeness auto
termination by (relation "measure length") (auto dest: strings_Index_length)

declare unescape.simps [simp del]

lemma Escape_Nil [simp]: "Escape [] = []"
  by (simp add: Escape_def ReplaceAll_def)

lemma Escape_append: "Escape (s @ t) = Escape s @ Escape t"
  by (simp add: Escape_def ReplaceAll_def)

lemma Escape_Cons [simp]:
  "Escape (c # s) = (if c = CHR ''#'' then ''##'' else if c = CHR '':'' then ''#'' else [c]) @ Escape s"
  by (simp add: Escape_def ReplaceAll_def)

lemma strings_Index_Cons_no: "\<not> prefix sub (c # s) \<Longrightarrow> strings_Index (c # s) sub = map_option Suc (strings_Index s sub)"
  by (subst strings_Index.simps) simp

lemma strings_Index_prefix [simp]: "prefix sub s \<Longrightarrow> strings_Index s sub = Some 0"
  by (subst strings_Index.simps) simp

lemma strings_Index_append:
  assumes "CHR ''#'' \<notin> set u"
  shows "strings_Index (u @ v) (CHR ''#'' # sub) = map_option ((+) (length u)) (strings_Index v (CHR ''#'' # sub))"
  using assms
  by (induction u; cases "strings_Index v (CHR ''#'' # sub)") (simp_all add: strings_Index_Cons_no)

text \<open>A prefix without hash signs is copied.\<close>

lemma unescape_append:
  assumes "CHR ''#'' \<notin> set u"
  shows "unescape (u @ v) = u @ unescape v"
proof (cases "v = []")
  case True
  have "strings_Index [] (CHR ''#'' # sub) = None" for sub
    by (subst strings_Index.simps) simp
  then have "strings_Index u (CHR ''#'' # sub) = None" for sub
    using strings_Index_append [OF assms, of "[]" sub] by simp
  then show ?thesis
    using True by (subst unescape.simps) (simp add: unescape.simps [of "[]"])
next
  case False
  then show ?thesis
    by (subst unescape.simps, subst (3) unescape.simps)
      (auto simp: strings_Index_append [OF assms] split: option.split)
qed

lemma unescape_hash2: "unescape (CHR ''#'' # CHR ''#'' # v) = CHR ''#'' # unescape v"
  by (subst unescape.simps) simp

text \<open>A name is restored when none of its colons is followed by a colon or, later, by a hash sign.\<close>

fun escapes_well :: "string \<Rightarrow> bool" where
  "escapes_well [] = True"
| "escapes_well (c # s) =
     ((c = CHR '':'' \<longrightarrow> CHR ''#'' \<notin> set s \<and> \<not> prefix '':'' s) \<and> escapes_well s)"

lemma strings_Index_None_iff: "strings_Index s sub = None \<longleftrightarrow> \<not> sublist sub s"
proof (induction s)
  case Nil
  then show ?case by (subst strings_Index.simps) auto
next
  case (Cons c s)
  then show ?case
    by (subst strings_Index.simps) (auto simp: sublist_Cons_right)
qed

lemma Escape_plain: "CHR ''#'' \<notin> set u \<Longrightarrow> CHR '':'' \<notin> set u \<Longrightarrow> Escape u = u"
  by (induction u) auto

lemma Escape_no_double:
  assumes "escapes_well s" "CHR ''#'' \<notin> set s"
  shows "\<not> sublist ''##'' (Escape s)"
  using assms
proof (induction s)
  case (Cons c s)
  then show ?case
    by (cases s) (auto simp: sublist_Cons_right split: if_splits)
qed simp

lemma Escape_double:
  "CHR ''#'' \<in> set s \<Longrightarrow> sublist ''##'' (Escape s)"
  by (induction s) (auto simp: sublist_Cons_right)

lemma escapes_well_append:
  "CHR '':'' \<notin> set u \<Longrightarrow> escapes_well (u @ w) = escapes_well w"
  by (induction u) auto

lemma unescape_Escape_iff: "unescape (Escape s) = s \<longleftrightarrow> escapes_well s"
proof (induction s rule: length_induct)
  case (1 s)
  define u w where "u = takeWhile (\<lambda>c. c \<noteq> CHR ''#'' \<and> c \<noteq> CHR '':'') s"
    and "w = dropWhile (\<lambda>c. c \<noteq> CHR ''#'' \<and> c \<noteq> CHR '':'') s"
  have s: "s = u @ w" by (simp add: u_def w_def)
  have u: "CHR ''#'' \<notin> set u" "CHR '':'' \<notin> set u"
    unfolding u_def by (auto dest: set_takeWhileD)
  have red: "unescape (Escape s) = s \<longleftrightarrow> unescape (Escape w) = w"
    by (simp add: s Escape_append Escape_plain u unescape_append)
  have ew: "escapes_well s \<longleftrightarrow> escapes_well w"
    by (simp add: s escapes_well_append u)
  have "unescape (Escape w) = w \<longleftrightarrow> escapes_well w"
  proof (cases w)
    case Nil
    then show ?thesis by (simp add: unescape.simps [of "[]"])
  next
    case (Cons c w')
    have "c = CHR ''#'' \<or> c = CHR '':''"
      using Cons hd_dropWhile [of "\<lambda>c. c \<noteq> CHR ''#'' \<and> c \<noteq> CHR '':''" s] unfolding w_def by auto
    have "length w' < length s" by (simp add: s Cons)
    with 1 have IH: "unescape (Escape w') = w' \<longleftrightarrow> escapes_well w'" by blast
    from \<open>c = CHR ''#'' \<or> c = CHR '':''\<close> show ?thesis
    proof
      assume "c = CHR ''#''"
      with IH show ?thesis by (simp add: Cons unescape_hash2)
    next
      assume c: "c = CHR '':''"
      show ?thesis
      proof (cases "sublist ''##'' (CHR ''#'' # Escape w')")
        case True
        then obtain i where "strings_Index (CHR ''#'' # Escape w') ''##'' = Some i"
          by (metis strings_Index_None_iff not_None_eq)
        then have "unescape (Escape w) \<noteq> w"
          by (simp add: Cons c unescape.simps [of "CHR ''#'' # Escape w'"])
        moreover have "\<not> escapes_well w"
          using True Escape_no_double [of w'] by (cases w') (auto simp: Cons c sublist_Cons_right)
        ultimately show ?thesis by simp
      next
        case False
        then have "unescape (Escape w) = CHR '':'' # unescape (Escape w')"
          by (simp add: Cons c unescape.simps [of "CHR ''#'' # Escape w'"] strings_Index_None_iff [symmetric])
        moreover have "CHR ''#'' \<notin> set w'" "\<not> prefix '':'' w'"
          using False Escape_double [of w'] by (auto simp: sublist_Cons_right prefix_def)
        ultimately show ?thesis
          using IH by (simp add: Cons c)
      qed
    qed
  qed
  with red ew show ?case by simp
qed

text \<open>
  \<open>unescape\<close> restores an escaped name exactly when no colon of it is followed by a second
  colon or, anywhere later, by a hash sign; every other name comes back changed. In particular
  two names can have one escaped form.
\<close>

theorem Escape_roundtrip:
  "(unescape (Escape s) = s \<longleftrightarrow> escapes_well s) \<and>
    Escape '':#'' = Escape ''#:'' \<and> unescape (Escape ''a:b#c'') = ''a#b#c''"
proof -
  have "unescape ''c'' = ''c''"
    using unescape_append [of "''c''" "[]"] by (simp add: unescape.simps [of "[]"])
  then have "unescape (Escape ''a:b#c'') = ''a#b#c''"
    by (simp add: unescape.simps [of "CHR ''a'' # _"] strings_Index_Cons_no)
  then show ?thesis by (simp add: unescape_Escape_iff)
qed

subsection \<open>Filters\<close>

record 'g filterfs =
  ff_fs :: fsys
  ff_included :: "'g list"
  ff_excluded :: "'g list"

fun compile_all :: "(string \<Rightarrow> 'g option) \<Rightarrow> string list \<Rightarrow> 'g list option" where
  "compile_all compile [] = Some []"
| "compile_all compile (p # ps) =
     (case compile p of
        None \<Rightarrow> None
      | Some g \<Rightarrow> map_option (\<lambda>gs. g # gs) (compile_all compile ps))"

definition NewFilterFS ::
    "(string \<Rightarrow> 'g option) \<Rightarrow> fsys \<Rightarrow> string list \<Rightarrow> string list \<Rightarrow> 'g filterfs option" where
  "NewFilterFS compile f include exclude =
     (case compile_all compile include of
        None \<Rightarrow> None
      | Some inc \<Rightarrow> (case compile_all compile exclude of
          None \<Rightarrow> None
        | Some exc \<Rightarrow> Some \<lparr>ff_fs = f, ff_included = inc, ff_excluded = exc\<rparr>))"

definition isExcluded :: "('g \<Rightarrow> string \<Rightarrow> bool) \<Rightarrow> 'g list \<Rightarrow> string \<Rightarrow> bool" where
  "isExcluded match excluded name = list_ex (\<lambda>g. match g (path_Clean name)) excluded"

definition isIncluded :: "('g \<Rightarrow> string \<Rightarrow> bool) \<Rightarrow> 'g list \<Rightarrow> string \<Rightarrow> bool" where
  "isIncluded match included name =
     (included = [] \<or> list_ex (\<lambda>g. match g (path_Clean name)) included)"

definition filteredDir_ReadDir ::
    "('g \<Rightarrow> string \<Rightarrow> bool) \<Rightarrow> 'g filterfs \<Rightarrow> string \<Rightarrow> entries \<Rightarrow> entries" where
  "filteredDir_ReadDir match ff dir es =
     filter (\<lambda>(n, isDir). let path = path_Join [dir, n] in
       \<not> isExcluded match (ff_excluded ff) path \<and> (isDir \<or> isIncluded match (ff_included ff) path)) es"

definition FilterFS_Open :: "('g \<Rightarrow> string \<Rightarrow> bool) \<Rightarrow> 'g filterfs \<Rightarrow> fsys" where
  "FilterFS_Open match ff name =
     (let sname = path_Clean name in
      if isExcluded match (ff_excluded ff) name then Inl (NotExist name)
      else case ff_fs ff sname of
        Inl err \<Rightarrow> Inl err
      | Inr (Directory es) \<Rightarrow> Inr (Directory (map_sum id (filteredDir_ReadDir match ff sname) es))
      | Inr (File content) \<Rightarrow>
          if \<not> isIncluded match (ff_included ff) sname then Inl (NotExist name) else Inr (File content))"


definition example_fs :: fsys where
  "example_fs p = (if p = ''.'' then Inr (Directory (Inr [(''a.rego'', False), (''b.json'', False)]))
     else if p = ''a.rego'' \<or> p = ''b.json'' then Inr (File p) else Inl (NotExist p))"


subsection \<open>Mounts\<close>

text \<open>\<open>fs.ValidPath\<close>, \<open>fs.ReadDir\<close> and \<open>fs.Sub\<close> of the standard library.\<close>

definition ValidPath :: "string \<Rightarrow> bool" where
  "ValidPath name \<longleftrightarrow> name = ''.'' \<or>
     list_all (\<lambda>e. e \<noteq> [] \<and> e \<noteq> ''.'' \<and> e \<noteq> ''..'') (split_on CHR ''/'' name)"

definition fs_ReadDir :: "fsys \<Rightarrow> string \<Rightarrow> fs_error + entries" where
  "fs_ReadDir f name =
     (case f name of
        Inl err \<Rightarrow> Inl err
      | Inr (File _) \<Rightarrow> Inl (FSError name)
      | Inr (Directory (Inl err)) \<Rightarrow> Inl err
      | Inr (Directory (Inr es)) \<Rightarrow> Inr (sort_key fst es))"

definition fs_Sub :: "fsys \<Rightarrow> string \<Rightarrow> fsys" where
  "fs_Sub f dir name =
     (if ValidPath name then f (if name = ''.'' then dir else dir @ ''/'' @ name)
      else Inl (FSError name))"

text \<open>
  A \<open>MountFS\<close> is a map from prefixes to file systems: the order of the list is the order in
  which the map is iterated.
\<close>

type_synonym mountfs = "(string \<times> fsys) list"

definition first_elem :: "string \<Rightarrow> string" where
  "first_elem s = takeWhile (\<lambda>c. c \<noteq> CHR ''/'') s"

definition synthesize :: "mountfs \<Rightarrow> string \<Rightarrow> string list" where
  "synthesize m name =
     (if name = ''.'' then map first_elem (filter (\<lambda>f. f \<noteq> ''.'') (map fst m))
      else map (\<lambda>f. first_elem (drop (length name + 1) f))
        (filter (\<lambda>f. strings_HasPrefix f (name @ ''/'')) (map fst m)))"

definition mounted_over :: "string \<Rightarrow> string \<times> fsys \<Rightarrow> bool" where
  "mounted_over name = (\<lambda>(fname, f). strings_HasPrefix name (fname @ ''/''))"

lemma mounted_over [simp]: "mounted_over name (fname, f) = strings_HasPrefix name (fname @ ''/'')"
  by (simp add: mounted_over_def)

definition MountFS_Open :: "mountfs \<Rightarrow> fsys" where
  "MountFS_Open m name =
     (if \<not> ValidPath name then Inl (NotExist name)
      else case map_of m name of
        Some f \<Rightarrow> Inr (Directory (fs_ReadDir f ''.''))
      | None \<Rightarrow>
          (case find (mounted_over name) m of
             Some (fname, f) \<Rightarrow> f (drop (length fname + 1) name)
           | None \<Rightarrow>
               (let es = synthesize m name in
                if name \<noteq> ''.'' \<and> es = [] then Inl (NotExist name)
                else Inr (Directory (Inr (map (\<lambda>e. (e, True)) (sorted_list_of_set (set es))))))))"

definition separate_mounts :: "mountfs \<Rightarrow> bool" where
  "separate_mounts m \<longleftrightarrow> distinct (map fst m) \<and>
     (\<forall>a \<in> set (map fst m). \<forall>b \<in> set (map fst m). \<not> prefix (a @ ''/'') b)"

lemma mount_prefix_unique:
  assumes "separate_mounts m" "(a, f) \<in> set m" "(b, g) \<in> set m"
    and "strings_HasPrefix name (a @ ''/'')" "strings_HasPrefix name (b @ ''/'')"
  shows "a = b"
proof (rule ccontr)
  assume "a \<noteq> b"
  from assms(4,5) have "prefix (a @ ''/'') (b @ ''/'') \<or> prefix (b @ ''/'') (a @ ''/'')"
    unfolding strings_HasPrefix_def by (rule prefix_same_cases)
  then have "prefix (a @ ''/'') b \<or> prefix (b @ ''/'') a"
    using \<open>a \<noteq> b\<close> by (auto simp: prefix_snoc)
  then show False
    using assms(1-3) unfolding separate_mounts_def by force
qed

lemma find_mountD:
  "find (mounted_over name) m = Some (a, f) \<Longrightarrow>
    (a, f) \<in> set m \<and> strings_HasPrefix name (a @ ''/'')"
  by (induction m) (auto split: if_splits)

lemma find_mount:
  assumes "separate_mounts m"
  shows "find (mounted_over name) m = Some (a, f) \<longleftrightarrow>
    (a, f) \<in> set m \<and> strings_HasPrefix name (a @ ''/'')"
proof
  assume "find (mounted_over name) m = Some (a, f)"
  then show "(a, f) \<in> set m \<and> strings_HasPrefix name (a @ ''/'')"
    by (rule find_mountD)
next
  assume a: "(a, f) \<in> set m \<and> strings_HasPrefix name (a @ ''/'')"
  then obtain b g where b: "find (mounted_over name) m = Some (b, g)"
    by (cases "find (mounted_over name) m") (auto simp: find_None_iff)
  then have "(b, g) \<in> set m" "strings_HasPrefix name (b @ ''/'')"
    using find_mountD [OF b] by auto
  with a mount_prefix_unique [OF assms] have "a = b" by blast
  moreover have "distinct (map fst m)" using assms by (simp add: separate_mounts_def)
  ultimately have "f = g"
    using a \<open>(b, g) \<in> set m\<close> by (metis map_of_eq_Some_iff option.inject)
  with b \<open>a = b\<close> show "find (mounted_over name) m = Some (a, f)"
    by simp
qed

text \<open>
  When no mount point lies below another, a path below a mount point is answered by the
  mounted file system with the rest of the path, the mount point itself is a directory with the
  entries of its root, and the order in which the map is iterated does not matter.
\<close>

theorem MountFS_separate:
  assumes "separate_mounts m" and "mset m' = mset m"
  shows "MountFS_Open m' name = MountFS_Open m name \<and>
    ((a, f) \<in> set m \<longrightarrow> ValidPath a \<longrightarrow> MountFS_Open m a = Inr (Directory (fs_ReadDir f ''.''))) \<and>
    ((a, f) \<in> set m \<longrightarrow> ValidPath (a @ ''/'' @ rest) \<longrightarrow> a @ ''/'' @ rest \<notin> set (map fst m) \<longrightarrow>
      MountFS_Open m (a @ ''/'' @ rest) = f rest)"
proof -
  have d: "distinct (map fst m)" using assms(1) by (simp add: separate_mounts_def)
  have sets: "set m' = set m" using assms(2) by (metis mset_eq_setD)
  have "mset (map fst m') = mset (map fst m)"
    using assms(2) by simp
  then have d': "distinct (map fst m')"
    using d by (metis mset_eq_imp_distinct_iff)
  then have s': "separate_mounts m'"
    using assms(1) sets by (simp add: separate_mounts_def)
  have mo: "map_of m' = map_of m"
    using d d' sets by (metis map_of_inject_set)
  have fi: "find (mounted_over name) m' =
      find (mounted_over name) m" for name
  proof (cases "find (mounted_over name) m")
    case None
    then have "find (mounted_over name) m' = None"
      using sets by (simp add: find_None_iff)
    with None show ?thesis by simp
  next
    case (Some bg)
    obtain b g where bg: "bg = (b, g)" by (cases bg)
    with Some find_mount [OF assms(1)] have "(b, g) \<in> set m \<and> strings_HasPrefix name (b @ ''/'')" by simp
    with find_mount [OF s', of name b g] sets Some bg show ?thesis by simp
  qed
  have sy: "set (synthesize m' name) = set (synthesize m name)" for name
    using sets by (simp add: synthesize_def)
  then have sn: "synthesize m' name = [] \<longleftrightarrow> synthesize m name = []" for name
    by (metis set_empty)
  have "MountFS_Open m' name = MountFS_Open m name"
    unfolding MountFS_Open_def Let_def mo fi sy sn by (rule refl)
  moreover have "MountFS_Open m a = Inr (Directory (fs_ReadDir f ''.''))" if "(a, f) \<in> set m" "ValidPath a"
    using that d by (simp add: MountFS_Open_def map_of_is_SomeI)
  moreover have "MountFS_Open m (a @ ''/'' @ rest) = f rest"
    if "(a, f) \<in> set m" "ValidPath (a @ ''/'' @ rest)" "a @ ''/'' @ rest \<notin> set (map fst m)"
  proof -
    have "map_of m (a @ ''/'' @ rest) = None"
      using that(3) by (simp add: map_of_eq_None_iff)
    moreover have "find (mounted_over (a @ ''/'' @ rest)) m = Some (a, f)"
      using that(1) by (simp add: find_mount [OF assms(1)] strings_HasPrefix_def prefix_def)
    ultimately show ?thesis
      using that(2) by (simp add: MountFS_Open_def)
  qed
  ultimately show ?thesis by blast
qed

lemma MountFS_separate_witness:
  "MountFS_Open [(''lib'', example_fs), (''b'', example_fs)] ''lib/a.rego'' = Inr (File ''a.rego'')"
proof -
  have "separate_mounts [(''lib'', example_fs), (''b'', example_fs)]"
    by (simp add: separate_mounts_def)
  from MountFS_separate [OF this refl, of _ "''lib''" example_fs "''a.rego''"]
  show ?thesis by (simp add: ValidPath_def example_fs_def)
qed

subsection \<open>Walks\<close>

text \<open>
  \<open>fs.WalkDir\<close> of the standard library, for callbacks that hand on every error they are given:
  the callback gets the path, whether it is a directory, the error, and a state. The recursion
  has fuel for the depth of the tree.
\<close>

datatype 'e walk_error = Stopped 'e | WalkFuel

fun walkDir ::
    "nat \<Rightarrow> fsys \<Rightarrow> (string \<Rightarrow> bool \<Rightarrow> fs_error option \<Rightarrow> 's \<Rightarrow> 'e + 's) \<Rightarrow> string \<Rightarrow> bool \<Rightarrow> 's \<Rightarrow> 'e walk_error + 's" where
  "walkDir 0 f fn name isDir s = Inl WalkFuel"
| "walkDir (Suc n) f fn name isDir s =
     result_bind (map_sum Stopped id (fn name isDir None s)) (\<lambda>s.
       if \<not> isDir then Inr s
       else case fs_ReadDir f name of
         Inl err \<Rightarrow> map_sum Stopped id (fn name isDir (Some err) s)
       | Inr es \<Rightarrow> fold_result (\<lambda>(n1, d1) s. walkDir n f fn (path_Join [name, n1]) d1 s) es s)"

definition WalkDir ::
    "nat \<Rightarrow> fsys \<Rightarrow> (string \<Rightarrow> bool \<Rightarrow> fs_error option \<Rightarrow> 's \<Rightarrow> 'e + 's) \<Rightarrow> string \<Rightarrow> 's \<Rightarrow> 'e walk_error + 's" where
  "WalkDir fuel f fn root s =
     (case f root of
        Inl err \<Rightarrow> map_sum Stopped id (fn root False (Some err) s)
      | Inr (File c) \<Rightarrow> walkDir fuel f fn root False s
      | Inr (Directory es) \<Rightarrow> walkDir fuel f fn root True s)"

text \<open>\<open>None\<close> is the sentinel error of \<open>FSContainsFiles\<close>.\<close>

definition contains_callback :: "string \<Rightarrow> bool \<Rightarrow> fs_error option \<Rightarrow> unit \<Rightarrow> fs_error option + unit" where
  "contains_callback path isDir err s =
     (case err of
        Some e \<Rightarrow> Inl (Some e)
      | None \<Rightarrow> if \<not> isDir then Inl None else Inr ())"

definition FSContainsFiles :: "nat \<Rightarrow> fsys \<Rightarrow> fs_error walk_error + bool" where
  "FSContainsFiles fuel f =
     (case WalkDir fuel f contains_callback ''.'' () of
        Inr _ \<Rightarrow> Inr False
      | Inl WalkFuel \<Rightarrow> Inl WalkFuel
      | Inl (Stopped None) \<Rightarrow> Inr True
      | Inl (Stopped (Some err)) \<Rightarrow> Inl (Stopped err))"

text \<open>What a walk can reach, and the depth it needs.\<close>

inductive listed :: "fsys \<Rightarrow> string \<Rightarrow> bool \<Rightarrow> string \<Rightarrow> bool \<Rightarrow> bool"
  for f :: fsys and root :: string and rootDir :: bool where
  listed_root: "listed f root rootDir root rootDir"
| listed_entry: "listed f root rootDir name True \<Longrightarrow> fs_ReadDir f name = Inr es \<Longrightarrow> (n, d) \<in> set es \<Longrightarrow>
    listed f root rootDir (path_Join [name, n]) d"

fun shallow :: "nat \<Rightarrow> fsys \<Rightarrow> string \<Rightarrow> bool \<Rightarrow> bool" where
  "shallow 0 f name isDir = False"
| "shallow (Suc n) f name isDir =
     (isDir \<longrightarrow> (case fs_ReadDir f name of
        Inl _ \<Rightarrow> True
      | Inr es \<Rightarrow> list_all (\<lambda>(n1, d1). shallow n f (path_Join [name, n1]) d1) es))"

lemma listed_below:
  assumes "fs_ReadDir f name = Inr es" "(n, d) \<in> set es" "listed f (path_Join [name, n]) d p e"
  shows "listed f name True p e"
  using assms(3)
proof induction
  case listed_root
  then show ?case
    using listed_entry [OF listed.listed_root assms(1,2)] .
next
  case (listed_entry q es' m d')
  then show ?case by (blast intro: listed.listed_entry)
qed

lemma listed_cases:
  assumes "listed f name isDir p e"
  shows "p = name \<and> e = isDir \<or>
    (\<exists>es n d. isDir \<and> fs_ReadDir f name = Inr es \<and> (n, d) \<in> set es \<and> listed f (path_Join [name, n]) d p e)"
  using assms
proof induction
  case listed_root
  then show ?case by blast
next
  case (listed_entry q es m d)
  then show ?case by (blast intro: listed.intros)
qed

lemma walkDir_contains:
  "case walkDir n f contains_callback name isDir () of
     Inr _ \<Rightarrow> \<not> (\<exists>p. listed f name isDir p False)
   | Inl (Stopped None) \<Rightarrow> \<exists>p. listed f name isDir p False
   | Inl (Stopped (Some e)) \<Rightarrow> \<exists>p. listed f name isDir p True \<and> fs_ReadDir f p = Inl e
   | Inl WalkFuel \<Rightarrow> \<not> shallow n f name isDir"
proof (induction n arbitrary: name isDir)
  case 0
  then show ?case by simp
next
  case (Suc n)
  show ?case
  proof (cases isDir)
    case False
    then show ?thesis
      by (auto simp: contains_callback_def intro: listed_root)
  next
    case True
    show ?thesis
    proof (cases "fs_ReadDir f name")
      case (Inl e)
      with True show ?thesis
        by (auto simp: contains_callback_def intro: listed_root)
    next
      case (Inr es)
      have loop: "case fold_result (\<lambda>(n1, d1) s. walkDir n f contains_callback (path_Join [name, n1]) d1 s) xs () of
          Inr _ \<Rightarrow> \<forall>(n1, d1) \<in> set xs. \<not> (\<exists>p. listed f (path_Join [name, n1]) d1 p False)
        | Inl (Stopped None) \<Rightarrow> \<exists>(n1, d1) \<in> set xs. \<exists>p. listed f (path_Join [name, n1]) d1 p False
        | Inl (Stopped (Some e)) \<Rightarrow> \<exists>(n1, d1) \<in> set xs. \<exists>p. listed f (path_Join [name, n1]) d1 p True \<and> fs_ReadDir f p = Inl e
        | Inl WalkFuel \<Rightarrow> \<exists>(n1, d1) \<in> set xs. \<not> shallow n f (path_Join [name, n1]) d1" for xs
      proof (induction xs)
        case (Cons x xs)
        obtain n1 d1 where x: "x = (n1, d1)" by (cases x)
        from Suc.IH [of "path_Join [name, n1]" d1] Cons show ?case
          by (cases "walkDir n f contains_callback (path_Join [name, n1]) d1 ()")
            (auto simp: x split: sum.splits walk_error.splits option.splits)
      qed simp
      have eq: "walkDir (Suc n) f contains_callback name isDir () =
          fold_result (\<lambda>(n1, d1) s. walkDir n f contains_callback (path_Join [name, n1]) d1 s) es ()"
        using True Inr by (simp add: contains_callback_def)
      show ?thesis
      proof (cases "fold_result (\<lambda>(n1, d1) s. walkDir n f contains_callback (path_Join [name, n1]) d1 s) es ()")
        case (Inl w)
        show ?thesis
        proof (cases w)
          case WalkFuel
          with loop [of es] Inl have "\<exists>(n1, d1) \<in> set es. \<not> shallow n f (path_Join [name, n1]) d1" by simp
          then have "\<not> shallow (Suc n) f name isDir"
            using True Inr by (auto simp: list_all_iff)
          then show ?thesis unfolding eq Inl WalkFuel by (simp del: shallow.simps)
        next
          case (Stopped e)
          show ?thesis
          proof (cases e)
            case None
            with loop [of es] Inl Stopped obtain n1 d1 p where
              "(n1, d1) \<in> set es" "listed f (path_Join [name, n1]) d1 p False" by auto
            then have "listed f name True p False" by (rule listed_below [OF Inr])
            with True show ?thesis unfolding eq Inl Stopped None by auto
          next
            case (Some err)
            with loop [of es] Inl Stopped obtain n1 d1 p where
              "(n1, d1) \<in> set es" "listed f (path_Join [name, n1]) d1 p True" "fs_ReadDir f p = Inl err" by auto
            then have "listed f name True p True \<and> fs_ReadDir f p = Inl err"
              using listed_below [OF Inr] by blast
            with True show ?thesis unfolding eq Inl Stopped Some by auto
          qed
        qed
      next
        case Inr2: (Inr u)
        with loop [of es] have no: "\<And>n1 d1 p. (n1, d1) \<in> set es \<Longrightarrow> \<not> listed f (path_Join [name, n1]) d1 p False"
          by auto
        have "\<not> listed f name isDir p False" for p
        proof
          assume "listed f name isDir p False"
          from listed_cases [OF this] True Inr no show False by auto
        qed
        then show ?thesis unfolding eq Inr2 by simp
      qed
    qed
  qed
qed

text \<open>
  \<open>FSContainsFiles\<close> answers true exactly when a file can be reached from the root through
  directories that can be read; an answer false means there is none, an error is one of the root
  or of reading a directory, and fuel for the depth of the tree is enough.
\<close>

theorem FSContainsFiles_correct:
  "case FSContainsFiles fuel f of
     Inr b \<Rightarrow> b \<longleftrightarrow> (\<exists>p d. f ''.'' = Inr d \<and> listed f ''.'' (\<exists>es. d = Directory es) p False)
   | Inl (Stopped e) \<Rightarrow> f ''.'' = Inl e \<or> (\<exists>p. listed f ''.'' True p True \<and> fs_ReadDir f p = Inl e)
   | Inl WalkFuel \<Rightarrow> \<not> shallow fuel f ''.'' (\<exists>es. f ''.'' = Inr (Directory es))"
proof (cases "f ''.''")
  case (Inl e)
  then show ?thesis by (simp add: FSContainsFiles_def WalkDir_def contains_callback_def)
next
  case (Inr d)
  show ?thesis
    using walkDir_contains [where n = fuel and f = f and name = "''.''" and isDir = "\<exists>es. d = Directory es"] Inr
    by (cases d; cases fuel)
      (auto simp: FSContainsFiles_def WalkDir_def contains_callback_def intro: listed_root
        split: sum.splits walk_error.splits option.splits)
qed

end
