(* ===== verification/Roots.thy ===== *)
theory Roots
  imports FileSystem
begin

text \<open>
  The roots of a bundle, from \<open>pkg/builder/builder.go\<close>: the set of references that is kept
  while files are read (\<open>refSet\<close>), the test for overlapping roots, and \<open>getRegoAndJSONRoots\<close>.
  A reference is the list of its terms, \<open>data\<close> first; \<open>HasPrefix\<close> is the prefix of lists. The
  parser of modules is a parameter.
\<close>

type_synonym ref = "string list"

definition HasPrefix :: "ref \<Rightarrow> ref \<Rightarrow> bool" where
  "HasPrefix r n = prefix n r"

text \<open>
  The loop of \<open>add\<close> over the references of the set, for one new reference: \<open>Some\<close> is the
  early \<open>return\<close>, which ends the whole call.
\<close>

fun refSet_scan :: "ref \<Rightarrow> ref list \<Rightarrow> ref list option" where
  "refSet_scan n [] = None"
| "refSet_scan n (r # refs) =
     (if HasPrefix r n then Some (n # refs)
      else if HasPrefix n r then Some (r # refs)
      else map_option (\<lambda>rs. r # rs) (refSet_scan n refs))"

fun refSet_add :: "ref list \<Rightarrow> ref list \<Rightarrow> ref list" where
  "refSet_add refs [] = refs"
| "refSet_add refs (n # ns) =
     (case refSet_scan n refs of
        Some refs' \<Rightarrow> refs'
      | None \<Rightarrow> refSet_add (refs @ [n]) ns)"

definition rootsOverlap :: "ref list \<Rightarrow> ref \<Rightarrow> ref list" where
  "rootsOverlap roots root = filter (\<lambda>other. HasPrefix other root \<or> HasPrefix root other) roots"

definition strings_ToLower :: "string \<Rightarrow> string" where
  "strings_ToLower = map (\<lambda>c. if CHR ''A'' \<le> c \<and> c \<le> CHR ''Z''
     then char_of (of_char c + 32 :: nat) else c)"

text \<open>\<open>walkSuffixes\<close>: the callback for files with one of the suffixes, which keeps every error.\<close>

datatype build_error =
    IOError fs_error
  | ParseError string
  | PackageConflict string ref "ref list"
  | MissingSource string
  | BadGlob
  | MountError string
  | CompileError string
  | BuildPanic string
  | WalkTooDeep

definition walkSuffixes ::
    "(string \<Rightarrow> 's \<Rightarrow> build_error + 's) \<Rightarrow> string list \<Rightarrow>
     string \<Rightarrow> bool \<Rightarrow> fs_error option \<Rightarrow> 's \<Rightarrow> build_error + 's" where
  "walkSuffixes f exts path isDir err s =
     (case err of
        Some e \<Rightarrow> Inl (IOError e)
      | None \<Rightarrow>
          if isDir then Inr s
          else if \<not> list_ex (\<lambda>x. strings_ToLower x = strings_ToLower (path_Ext path)) exts then Inr s
          else f path s)"

definition ReadFile :: "fsys \<Rightarrow> string \<Rightarrow> build_error + string" where
  "ReadFile f path =
     (case f path of
        Inl err \<Rightarrow> Inl (IOError err)
      | Inr (File c) \<Rightarrow> Inr c
      | Inr (Directory _) \<Rightarrow> Inl (IOError (FSError path)))"

definition add_rego_root ::
    "(string \<Rightarrow> string \<Rightarrow> string + 'm) \<Rightarrow> ('m \<Rightarrow> ref) \<Rightarrow> fsys \<Rightarrow> string \<Rightarrow> ref list \<Rightarrow> build_error + ref list" where
  "add_rego_root parse package f path refs =
     result_bind (ReadFile f path) (\<lambda>bs.
       case parse path bs of
         Inl err \<Rightarrow> Inl (ParseError err)
       | Inr module \<Rightarrow> Inr (refSet_add refs [package module]))"

text \<open>
  The reference of the directory of a data file: the loop peels the last element. It would not
  end at the path of a slash, which a walk from the dot never gives; the model stops there.
\<close>

function dir_keys :: "string \<Rightarrow> string list" where
  "dir_keys path =
     (if path = [] \<or> path = ''.'' \<or> length path \<le> length (path_Dir path) then []
      else path_Base path # dir_keys (path_Dir path))"
  by pat_completeness auto
termination by (relation "measure length") auto

declare dir_keys.simps [simp del]

definition dir_ref :: "string \<Rightarrow> ref" where
  "dir_ref p = ''data'' # rev (dir_keys (path_Dir p))"

definition add_data_root :: "string \<Rightarrow> ref list \<Rightarrow> build_error + ref list" where
  "add_data_root p refs = Inr (refSet_add refs [dir_ref p])"

definition walk_result :: "build_error walk_error + 's \<Rightarrow> build_error + 's" where
  "walk_result r = (case r of Inr s \<Rightarrow> Inr s | Inl (Stopped e) \<Rightarrow> Inl e | Inl WalkFuel \<Rightarrow> Inl WalkTooDeep)"

definition getRegoAndJSONRoots ::
    "(string \<Rightarrow> string \<Rightarrow> string + 'm) \<Rightarrow> ('m \<Rightarrow> ref) \<Rightarrow> nat \<Rightarrow> fsys \<Rightarrow> build_error + ref list" where
  "getRegoAndJSONRoots parse package fuel f =
     result_bind (walk_result (WalkDir fuel f (walkSuffixes (add_rego_root parse package f) [''.rego'']) ''.'' [])) (\<lambda>refs.
       walk_result (WalkDir fuel f (walkSuffixes add_data_root [''.json'', ''.yml'', ''.yaml'']) ''.'' refs))"

subsection \<open>What the set covers\<close>

definition covered :: "ref list \<Rightarrow> ref \<Rightarrow> bool" where
  "covered refs r \<longleftrightarrow> (\<exists>q \<in> set refs. prefix q r)"

definition comparable :: "ref \<Rightarrow> ref \<Rightarrow> bool" where
  "comparable r q \<longleftrightarrow> prefix r q \<or> prefix q r"

lemma refSet_scan_None: "refSet_scan n refs = None \<longleftrightarrow> (\<forall>r \<in> set refs. \<not> comparable r n)"
  by (induction refs) (auto simp: HasPrefix_def comparable_def)

lemma refSet_scan_Some:
  assumes "refSet_scan n refs = Some refs'"
  shows "covered refs' n \<and> (\<forall>r. covered refs r \<longrightarrow> covered refs' r) \<and> set refs' \<subseteq> insert n (set refs)"
  using assms
proof (induction refs arbitrary: refs')
  case (Cons r refs)
  then show ?case
    by (auto simp: HasPrefix_def covered_def split: if_splits intro: prefix_order.trans) blast
qed simp

lemma refSet_add_single:
  "covered (refSet_add refs [n]) n \<and> (\<forall>r. covered refs r \<longrightarrow> covered (refSet_add refs [n]) r) \<and>
    set (refSet_add refs [n]) \<subseteq> insert n (set refs)"
proof (cases "refSet_scan n refs")
  case None
  then show ?thesis by (auto simp: covered_def)
next
  case (Some refs')
  with refSet_scan_Some [OF Some] show ?thesis by simp
qed

lemma refSet_add_unrelated:
  assumes "\<And>n r. n \<in> set ns \<Longrightarrow> r \<in> set refs \<Longrightarrow> \<not> comparable r n" and "distinct ns"
    and "\<And>n n'. n \<in> set ns \<Longrightarrow> n' \<in> set ns \<Longrightarrow> n \<noteq> n' \<Longrightarrow> \<not> comparable n n'"
  shows "refSet_add refs ns = refs @ ns"
  using assms
proof (induction ns arbitrary: refs)
  case (Cons n ns)
  have "refSet_scan n refs = None"
    using Cons.prems(1) by (simp add: refSet_scan_None)
  moreover have "refSet_add (refs @ [n]) ns = (refs @ [n]) @ ns"
    using Cons.prems by (intro Cons.IH) auto
  ultimately show ?case by simp
qed simp

text \<open>
  Adding one reference to the set keeps everything covered and covers the reference, with
  nothing else in the set; references unrelated to each other and to the set are all added. But
  a call with several references stops at the first that is related to the set, so the rest is
  lost, and replacing one reference by a shorter one leaves other references below it.
\<close>

theorem refSet_add_covers:
  "(covered (refSet_add refs [n]) n \<and> (covered refs r \<longrightarrow> covered (refSet_add refs [n]) r) \<and>
      set (refSet_add refs [n]) \<subseteq> insert n (set refs)) \<and>
   (distinct (refs @ ns) \<and> pairwise (\<lambda>r q. \<not> comparable r q) (set (refs @ ns)) \<longrightarrow>
      refSet_add refs ns = refs @ ns) \<and>
   \<not> covered (refSet_add [[''data'', ''a'']] [[''data'', ''a'', ''x''], [''data'', ''z'']]) [''data'', ''z''] \<and>
   refSet_add [[''data'', ''a'', ''b''], [''data'', ''a'', ''c'']] [[''data'', ''a'']] =
     [[''data'', ''a''], [''data'', ''a'', ''c'']]"
proof -
  have "refSet_add refs ns = refs @ ns"
    if "distinct (refs @ ns)" "pairwise (\<lambda>r q. \<not> comparable r q) (set (refs @ ns))"
  proof (rule refSet_add_unrelated)
    fix n r
    assume "n \<in> set ns" "r \<in> set refs"
    moreover from this that(1) have "r \<noteq> n" by auto
    ultimately show "\<not> comparable r n"
      using that(2) by (simp add: pairwise_def)
  qed (use that in \<open>auto simp: pairwise_def\<close>)
  then show ?thesis
    using refSet_add_single [of refs n] by (simp add: HasPrefix_def covered_def)
qed

lemma refSet_add_covers_witness:
  "refSet_add [[''data'', ''a'']] [[''data'', ''b''], [''data'', ''c'']] =
    [[''data'', ''a''], [''data'', ''b''], [''data'', ''c'']]"
  using refSet_add_covers [of "[[''data'', ''a'']]" "[]" "[]" "[[''data'', ''b''], [''data'', ''c'']]"]
  by (simp add: pairwise_def comparable_def)

end
