(* ===== verification/Builder.thy ===== *)
theory Builder
  imports Roots Requirement
begin

text \<open>
  The bundle builder of \<open>pkg/builder/builder.go\<close>: from the first source the requirements are
  followed, every source with the mounts on the way to it; the files are filtered and moved to
  their mounts, the roots of the files are collected, overlapping roots of different sources are
  an error, and the rest is given to the compiler of OPA.

  OPA (parser, printer, refactoring, compiler), the merge of file systems and the globs are
  parameters, gathered in a record. The loop over the queue has fuel, because it need not end.
\<close>

record ('m, 'g) opa =
  parse :: "string \<Rightarrow> string \<Rightarrow> string + 'm"
  package :: "'m \<Rightarrow> ref"
  print :: "'m \<Rightarrow> string"
  move :: "(string \<times> 'm) list \<Rightarrow> string \<Rightarrow> string \<Rightarrow> string + (string \<times> 'm) list"
  parseRef :: "string \<Rightarrow> ref option"
  ptr :: "ref \<Rightarrow> string option"
  merge_fs :: "fsys \<Rightarrow> fsys \<Rightarrow> fsys"
  glob :: "string \<Rightarrow> 'g option"
  glob_match :: "'g \<Rightarrow> string \<Rightarrow> bool"
  walk_fuel :: nat

record transform =
  tr_Query :: string
  tr_Path :: string

record dir =
  dir_Path :: string
  dir_Wipe :: bool
  dir_IncludedFiles :: "string list"
  dir_ExcludedFiles :: "string list"

record bsource =
  bs_Name :: string
  bs_Requirements :: "requirement list"
  bs_Transforms :: "transform list"
  bs_dirs :: "dir list"
  bs_fses :: "fsys list"

definition NewSource :: "string \<Rightarrow> bsource" where
  "NewSource name =
     \<lparr>bs_Name = name, bs_Requirements = [], bs_Transforms = [], bs_dirs = [], bs_fses = []\<rparr>"

definition BSource_Equal :: "bsource \<Rightarrow> bsource \<Rightarrow> bool" where
  "BSource_Equal s other \<longleftrightarrow> bs_Name s = bs_Name other \<and>
     list_all2 Requirement_Equal (bs_Requirements s) (bs_Requirements other) \<and>
     bs_Transforms s = bs_Transforms other"

definition AddFS :: "fsys \<Rightarrow> bsource \<Rightarrow> bsource" where
  "AddFS f s = s\<lparr>bs_fses := bs_fses s @ [f]\<rparr>"

text \<open>\<open>disk\<close> is \<open>os.DirFS\<close>. The error is that a glob does not compile; the directory is recorded before.\<close>

definition AddDir :: "('m, 'g) opa \<Rightarrow> (string \<Rightarrow> fsys) \<Rightarrow> dir \<Rightarrow> bsource \<Rightarrow> bool \<times> bsource" where
  "AddDir opa disk d s =
     (let s = s\<lparr>bs_dirs := bs_dirs s @ [d]\<rparr> in
      case NewFilterFS (glob opa) (disk (dir_Path d)) (dir_IncludedFiles d) (dir_ExcludedFiles d) of
        None \<Rightarrow> (False, s)
      | Some f \<Rightarrow> (True, AddFS (FilterFS_Open (glob_match opa) f) s))"

text \<open>\<open>Wipe\<close>: the directories that are removed, up to the first failure of \<open>removeDir\<close>.\<close>

definition Source_Wipe :: "(string \<Rightarrow> 'd \<Rightarrow> string + 'd) \<Rightarrow> bsource \<Rightarrow> 'd \<Rightarrow> string + 'd" where
  "Source_Wipe removeDir s =
     fold_result (\<lambda>d. if dir_Wipe d then removeDir (dir_Path d) else Inr) (bs_dirs s)"

subsection \<open>The file systems of a build\<close>

type_synonym build_sources = "(string \<times> fsys list) list"

definition buildSources_add :: "string \<Rightarrow> fsys \<Rightarrow> build_sources \<Rightarrow> build_sources" where
  "buildSources_add name f bs =
     (let p = Escape name;
          fs = (case map_of bs p of None \<Rightarrow> [] | Some fs \<Rightarrow> fs)
      in map_put p (fs @ [f]) bs)"

definition mount_name :: "string \<Rightarrow> nat \<Rightarrow> string" where
  "mount_name name j = (if j > 0 \<or> name = [] then name @ Itoa j else name)"

definition buildSources_fs :: "build_sources \<Rightarrow> mountfs" where
  "buildSources_fs bs =
     fold (\<lambda>(mnt, f). map_put mnt f)
       (concat (map (\<lambda>(name, fs). map (\<lambda>(j, f). (mount_name name j, f)) (enumerate 0 fs)) bs)) []"

subsection \<open>Moving to the mounts\<close>

record mount =
  mnt_path :: string
  mnt_prefix :: string

record mntSrc =
  ms_src :: bsource
  ms_mounts :: "mount list"

definition mntSrc_Equal :: "mntSrc \<Rightarrow> mntSrc \<Rightarrow> bool" where
  "mntSrc_Equal m other \<longleftrightarrow> BSource_Equal (ms_src m) (ms_src other) \<and> ms_mounts m = ms_mounts other"

definition toRefString :: "string \<Rightarrow> string" where
  "toRefString d =
     (if d = [] then ''data''
      else if strings_HasPrefix d ''data'' then d
      else ''data.'' @ d)"

definition toPath :: "('m, 'g) opa \<Rightarrow> string \<Rightarrow> build_error + string" where
  "toPath opa d =
     (if d = [] \<or> d = ''data'' then Inr ''.''
      else case parseRef opa (toRefString d) of
        None \<Rightarrow> Inl (MountError d)
      | Some r \<Rightarrow>
          if \<not> HasPrefix r [''data''] then Inl (MountError d)
          else (case ptr opa r of None \<Rightarrow> Inl (MountError d) | Some p \<Rightarrow> Inr p))"

text \<open>\<open>fstest.MapFS\<close> of the standard library, for files only.\<close>

definition MapFS :: "(string \<times> string) list \<Rightarrow> fsys" where
  "MapFS m name =
     (if \<not> ValidPath name then Inl (NotExist name)
      else case map_of m name of
        Some c \<Rightarrow> Inr (File c)
      | None \<Rightarrow>
          (let below = (if name = ''.'' then map fst m
              else map (drop (length name + 1)) (filter (\<lambda>p. strings_HasPrefix p (name @ ''/'')) (map fst m)));
              es = map (\<lambda>p. (first_elem p, CHR ''/'' \<in> set p)) below
           in if name \<noteq> ''.'' \<and> es = [] then Inl (NotExist name)
              else Inr (Directory (Inr (sort_key fst (remdups es))))))"

definition emptyFS :: fsys where
  "emptyFS = MapFS []"

definition collect_module ::
    "('m, 'g) opa \<Rightarrow> fsys \<Rightarrow> string \<Rightarrow> (string \<times> 'm) list \<Rightarrow> build_error + (string \<times> 'm) list" where
  "collect_module opa f path modules =
     result_bind (ReadFile f path) (\<lambda>bs.
       case parse opa path bs of
         Inl err \<Rightarrow> Inl (ParseError err)
       | Inr m \<Rightarrow> Inr (map_put path m modules))"

text \<open>One mount: the modules outside of the path are dropped, the others renamed.\<close>

definition move_modules ::
    "('m, 'g) opa \<Rightarrow> mount \<Rightarrow> (string \<times> 'm) list \<Rightarrow> build_error + (string \<times> 'm) list" where
  "move_modules opa mnt modules =
     (let from = toRefString (mnt_path mnt); dest = toRefString (mnt_prefix mnt) in
      if modules \<noteq> [] \<and> parseRef opa from = None then Inl (BuildPanic from)
      else
        (let kept = filter (\<lambda>(k, m). HasPrefix (package opa m) (the (parseRef opa from))) modules in
         case move opa kept from dest of
           Inl err \<Rightarrow> Inl (MountError err)
         | Inr res \<Rightarrow> Inr res))"

definition extractAndTransformRego :: "('m, 'g) opa \<Rightarrow> fsys \<Rightarrow> mount list \<Rightarrow> build_error + fsys" where
  "extractAndTransformRego opa f mnts =
     (case walk_result (WalkDir (walk_fuel opa) f (walkSuffixes (collect_module opa f) [''.rego'']) ''.'' []) of
        Inl (IOError (NotExist _)) \<Rightarrow> Inr emptyFS
      | Inl err \<Rightarrow> Inl err
      | Inr modules \<Rightarrow>
          result_bind (fold_result (move_modules opa) mnts modules) (\<lambda>ms.
            Inr (MapFS (map (\<lambda>(p, m). (p, print opa m)) ms))))"

definition data_mount :: "('m, 'g) opa \<Rightarrow> mount \<Rightarrow> fsys \<Rightarrow> build_error + fsys" where
  "data_mount opa mnt f =
     result_bind (toPath opa (mnt_path mnt)) (\<lambda>subPath.
     result_bind (toPath opa (mnt_prefix mnt)) (\<lambda>prefPath.
       (case f subPath of
          Inl (NotExist _) \<Rightarrow> Inr emptyFS
        | _ \<Rightarrow>
            if subPath \<noteq> ''.'' \<and> \<not> ValidPath subPath then Inl (MountError subPath)
            else
              (let sub = (if subPath = ''.'' then f else fs_Sub f subPath) in
               Inr (if prefPath \<noteq> ''.'' then MountFS_Open [(prefPath, sub)] else sub)))))"

definition applyDataMounts :: "('m, 'g) opa \<Rightarrow> fsys \<Rightarrow> mount list \<Rightarrow> build_error + fsys" where
  "applyDataMounts opa f mnts =
     (case NewFilterFS (glob opa) f [] [''*.rego''] of
        None \<Rightarrow> Inl BadGlob
      | Some ff \<Rightarrow> fold_result (data_mount opa) mnts (FilterFS_Open (glob_match opa) ff))"

subsection \<open>The loop over the requirements\<close>

record bstate =
  toProcess :: "mntSrc list"
  buildSources :: build_sources
  existingRoots :: "ref list"
  rootMap :: "(ref \<times> string) list"
  alreadyProcessed :: "mntSrc list"

definition mounted_fs ::
    "('m, 'g) opa \<Rightarrow> string list \<Rightarrow> mount list \<Rightarrow> fsys \<Rightarrow> build_error + fsys" where
  "mounted_fs opa excluded mounts f =
     (case NewFilterFS (glob opa) f [] excluded of
        None \<Rightarrow> Inl BadGlob
      | Some ff \<Rightarrow>
          (let fs0 = FilterFS_Open (glob_match opa) ff in
           if mounts = [] then Inr fs0
           else result_bind (extractAndTransformRego opa fs0 mounts) (\<lambda>rego0.
                result_bind (applyDataMounts opa fs0 mounts) (\<lambda>data0.
                  Inr (merge_fs opa data0 rego0)))))"

definition process_fs ::
    "('m, 'g) opa \<Rightarrow> string list \<Rightarrow> mntSrc \<Rightarrow> fsys \<Rightarrow> build_sources \<times> ref list \<Rightarrow> build_error + build_sources \<times> ref list" where
  "process_fs opa excluded ms f = (\<lambda>(bs, newRoots).
     result_bind (mounted_fs opa excluded (ms_mounts ms) f) (\<lambda>fs0.
       case FSContainsFiles (walk_fuel opa) fs0 of
         Inl WalkFuel \<Rightarrow> Inl WalkTooDeep
       | Inl (Stopped err) \<Rightarrow> Inl (IOError err)
       | Inr False \<Rightarrow> Inr (bs, newRoots)
       | Inr True \<Rightarrow>
           result_bind (getRegoAndJSONRoots (parse opa) (package opa) (walk_fuel opa) fs0) (\<lambda>rs.
             Inr (buildSources_add (bs_Name (ms_src ms)) fs0 bs, refSet_add newRoots rs))))"

definition check_root :: "mntSrc \<Rightarrow> ref list \<Rightarrow> ref \<Rightarrow> (ref \<times> string) list \<Rightarrow> build_error + (ref \<times> string) list" where
  "check_root ms existing root rm =
     (let overlap = rootsOverlap existing root in
      if overlap \<noteq> [] then Inl (PackageConflict (bs_Name (ms_src ms)) root overlap)
      else Inr (map_put root (bs_Name (ms_src ms)) rm))"

definition requirement_mounts :: "requirement \<Rightarrow> mount list \<Rightarrow> mount list" where
  "requirement_mounts r mounts =
     (if req_Path r \<noteq> [] \<or> req_Prefix r \<noteq> [] then [\<lparr>mnt_path = req_Path r, mnt_prefix = req_Prefix r\<rparr>] else []) @
     mounts"

definition queue_requirement ::
    "(string \<rightharpoonup> bsource) \<Rightarrow> mount list \<Rightarrow> requirement \<Rightarrow> bstate \<Rightarrow> build_error + bstate" where
  "queue_requirement sourceMap mounts r st =
     (case req_Source r of
        None \<Rightarrow> Inr st
      | Some name \<Rightarrow>
          (case sourceMap name of
             None \<Rightarrow> Inl (MissingSource name)
           | Some src \<Rightarrow>
               (let this = \<lparr>ms_src = src, ms_mounts = requirement_mounts r mounts\<rparr> in
                if \<not> list_ex (mntSrc_Equal this) (alreadyProcessed st)
                then Inr (st\<lparr>toProcess := toProcess st @ [this], alreadyProcessed := alreadyProcessed st @ [this]\<rparr>)
                else Inr st)))"

definition Build_step ::
    "('m, 'g) opa \<Rightarrow> string list \<Rightarrow> (string \<rightharpoonup> bsource) \<Rightarrow> mntSrc \<Rightarrow> bstate \<Rightarrow> build_error + bstate" where
  "Build_step opa excluded sourceMap nxt st =
     result_bind (fold_result (process_fs opa excluded nxt) (bs_fses (ms_src nxt)) (buildSources st, [])) (\<lambda>(bs, newRoots).
     result_bind (fold_result (check_root nxt (existingRoots st)) newRoots (rootMap st)) (\<lambda>rm.
       fold_result (queue_requirement sourceMap (ms_mounts nxt)) (bs_Requirements (ms_src nxt))
         (st\<lparr>buildSources := bs, existingRoots := existingRoots st @ newRoots, rootMap := rm\<rparr>)))"

fun Build_loop ::
    "nat \<Rightarrow> ('m, 'g) opa \<Rightarrow> string list \<Rightarrow> (string \<rightharpoonup> bsource) \<Rightarrow> bstate \<Rightarrow> (build_error + bstate) option" where
  "Build_loop fuel opa excluded sourceMap st =
     (case toProcess st of
        [] \<Rightarrow> Some (Inr st)
      | nxt # rest \<Rightarrow> (case fuel of
          0 \<Rightarrow> None
        | Suc n \<Rightarrow> (case Build_step opa excluded sourceMap nxt (st\<lparr>toProcess := rest\<rparr>) of
            Inl err \<Rightarrow> Some (Inl err)
          | Inr st' \<Rightarrow> Build_loop n opa excluded sourceMap st')))"

declare Build_loop.simps [simp del]

definition source_map :: "bsource list \<Rightarrow> string \<rightharpoonup> bsource" where
  "source_map srcs = map_of (rev (map (\<lambda>s. (bs_Name s, s)) srcs))"

definition Build_start :: "bsource \<Rightarrow> bstate" where
  "Build_start src = \<lparr>toProcess = [\<lparr>ms_src = src, ms_mounts = []\<rparr>], buildSources = [], existingRoots = [],
     rootMap = [], alreadyProcessed = []\<rparr>"

text \<open>
  \<open>Build\<close>: the compiler gets the roots, the file systems under their names, the target and the
  optimization level; the bundle gets the revision.
\<close>

definition Build ::
    "nat \<Rightarrow> ('m, 'g) opa \<Rightarrow> (string list \<Rightarrow> fsys \<Rightarrow> string \<Rightarrow> int \<Rightarrow> string list \<Rightarrow> string + 'b) \<Rightarrow>
     bsource list \<Rightarrow> string list \<Rightarrow> string \<Rightarrow> int \<Rightarrow> string \<Rightarrow> (build_error + string \<times> 'b) option" where
  "Build fuel opa compile srcs excluded target level revision =
     (if srcs = [] then Some (Inl (BuildPanic ''index out of range''))
      else map_option (\<lambda>r. result_bind r (\<lambda>st.
        let roots = map (\<lambda>r. case ptr opa r of None \<Rightarrow> [] | Some s \<Rightarrow> s) (existingRoots st);
            fsBuild = buildSources_fs (buildSources st);
            target = cmp_Or target ''rego'';
            target = (if target = ''ir'' then ''plan'' else target)
        in case compile roots (MountFS_Open fsBuild) target level (map fst fsBuild) of
             Inl err \<Rightarrow> Inl (CompileError err)
           | Inr b \<Rightarrow> Inr (revision, b)))
        (Build_loop fuel opa excluded (source_map srcs) (Build_start (hd srcs))))"

subsection \<open>Roots of different sources\<close>

definition apart :: "ref list \<Rightarrow> ref list \<Rightarrow> bool" where
  "apart rs qs \<longleftrightarrow> (\<forall>r \<in> set rs. \<forall>q \<in> set qs. \<not> comparable r q)"

lemma rootsOverlap_Nil: "rootsOverlap existing root = [] \<longleftrightarrow> (\<forall>r \<in> set existing. \<not> comparable r root)"
  by (auto simp: rootsOverlap_def HasPrefix_def comparable_def filter_empty_conv)

lemma check_root_fold:
  assumes "fold_result (check_root ms existing) roots rm = Inr rm'"
  shows "apart existing roots"
  using assms
proof (induction roots arbitrary: rm)
  case (Cons root roots)
  then show ?case
    by (auto simp: check_root_def Let_def rootsOverlap_Nil apart_def result_bind_Inr_iff split: if_splits)
qed (simp add: apart_def)

lemma queue_requirements_roots:
  assumes "fold_result (queue_requirement sourceMap mounts) reqs st = Inr st'"
  shows "existingRoots st' = existingRoots st"
  using assms
  by (rule fold_result_invariant [where P = "\<lambda>s. existingRoots s = existingRoots st"])
    (auto simp: queue_requirement_def Let_def split: option.splits if_splits)

lemma Build_step_roots:
  assumes "Build_step opa excluded sourceMap nxt st = Inr st'"
  shows "\<exists>new. existingRoots st' = existingRoots st @ new \<and> apart (existingRoots st) new"
  using assms
  by (auto simp: Build_step_def result_bind_Inr_iff dest!: check_root_fold queue_requirements_roots)

fun all_apart :: "ref list list \<Rightarrow> bool" where
  "all_apart [] = True"
| "all_apart (g # gs) = ((\<forall>h \<in> set gs. apart g h) \<and> all_apart gs)"

lemma Build_loop_roots:
  assumes "Build_loop fuel opa excluded sourceMap st = Some (Inr st')"
  shows "\<exists>groups. existingRoots st' = existingRoots st @ concat groups \<and> all_apart (existingRoots st # groups)"
  using assms
proof (induction fuel arbitrary: st)
  case 0
  then show ?case
    by (subst (asm) Build_loop.simps) (auto split: list.splits intro: exI [of _ "[]"])
next
  case (Suc n)
  show ?case
  proof (cases "toProcess st")
    case Nil
    with Suc.prems show ?thesis
      by (subst (asm) Build_loop.simps) (auto intro: exI [of _ "[]"])
  next
    case (Cons nxt rest)
    with Suc.prems obtain st1 where st1: "Build_step opa excluded sourceMap nxt (st\<lparr>toProcess := rest\<rparr>) = Inr st1"
      "Build_loop n opa excluded sourceMap st1 = Some (Inr st')"
      by (subst (asm) Build_loop.simps) (auto split: sum.splits)
    from Build_step_roots [OF st1(1)] obtain new where
      new: "existingRoots st1 = existingRoots st @ new" "apart (existingRoots st) new" by auto
    from Suc.IH [OF st1(2)] obtain groups where
      groups: "existingRoots st' = existingRoots st1 @ concat groups" "all_apart (existingRoots st1 # groups)" by blast
    have "existingRoots st' = existingRoots st @ concat (new # groups)"
      using new(1) groups(1) by simp
    moreover have "all_apart (existingRoots st # new # groups)"
      using new groups(2) by (auto simp: apart_def)
    ultimately show ?thesis by blast
  qed
qed


subsection \<open>Does the loop end\<close>

definition unmounted :: "mntSrc \<Rightarrow> bool" where
  "unmounted m \<longleftrightarrow> ms_mounts m = [] \<and>
     (\<forall>r \<in> set (bs_Requirements (ms_src m)). req_Path r = [] \<and> req_Prefix r = [])"

lemma BSource_Equal_refl [simp]: "BSource_Equal s s"
  by (simp add: BSource_Equal_def list_all2_same)

text \<open>
  The state of a run without mounts: what is queued was marked, what is marked are sources of
  the map with different names, and as many runs were made as were marked and are not queued.
\<close>

definition plain_inv :: "(string \<rightharpoonup> bsource) \<Rightarrow> nat \<Rightarrow> bstate \<Rightarrow> bool" where
  "plain_inv sm n st \<longleftrightarrow>
     (\<forall>m \<in> set (alreadyProcessed st). unmounted m \<and> sm (bs_Name (ms_src m)) = Some (ms_src m)) \<and>
     (\<forall>m \<in> set (toProcess st). unmounted m) \<and>
     distinct (map (bs_Name \<circ> ms_src) (alreadyProcessed st)) \<and>
     n + length (toProcess st) = Suc (length (alreadyProcessed st))"

definition plain_sources :: "(string \<rightharpoonup> bsource) \<Rightarrow> bool" where
  "plain_sources sm \<longleftrightarrow> (\<forall>n s. sm n = Some s \<longrightarrow> bs_Name s = n \<and>
     (\<forall>r \<in> set (bs_Requirements s). req_Path r = [] \<and> req_Prefix r = []))"

lemma plain_inv_queue:
  assumes "queue_requirement sm [] r st = Inr st'" "plain_sources sm" "plain_inv sm n st"
    and "req_Path r = []" "req_Prefix r = []"
  shows "plain_inv sm n st'"
proof (cases "st' = st")
  case False
  with assms(1,4,5) obtain name src where src: "sm name = Some src"
    and new: "\<not> list_ex (mntSrc_Equal \<lparr>ms_src = src, ms_mounts = []\<rparr>) (alreadyProcessed st)"
    and st': "st' = st\<lparr>toProcess := toProcess st @ [\<lparr>ms_src = src, ms_mounts = []\<rparr>],
      alreadyProcessed := alreadyProcessed st @ [\<lparr>ms_src = src, ms_mounts = []\<rparr>]\<rparr>"
    by (auto simp: queue_requirement_def requirement_mounts_def Let_def split: option.splits if_splits)
  from assms(2) src have name: "bs_Name src = name"
    and reqs: "\<forall>r \<in> set (bs_Requirements src). req_Path r = [] \<and> req_Prefix r = []"
    unfolding plain_sources_def by blast+
  have "name \<notin> set (map (bs_Name \<circ> ms_src) (alreadyProcessed st))"
  proof
    assume "name \<in> set (map (bs_Name \<circ> ms_src) (alreadyProcessed st))"
    then obtain m where m: "m \<in> set (alreadyProcessed st)" "bs_Name (ms_src m) = name" by auto
    with assms(3) have "unmounted m" "sm name = Some (ms_src m)"
      unfolding plain_inv_def by blast+
    with src have "mntSrc_Equal \<lparr>ms_src = src, ms_mounts = []\<rparr> m"
      by (simp add: mntSrc_Equal_def unmounted_def)
    with new m(1) show False by (auto simp: list_ex_iff)
  qed
  with assms(3) src name reqs show ?thesis
    by (auto simp: plain_inv_def st' unmounted_def)
qed (use assms in simp)

lemma plain_inv_step:
  assumes "Build_step opa excluded sm nxt (st\<lparr>toProcess := rest\<rparr>) = Inr st'"
    and "toProcess st = nxt # rest" "plain_sources sm" "plain_inv sm n st"
  shows "plain_inv sm (Suc n) st'"
proof -
  have nxt: "unmounted nxt" using assms(2,4) by (simp add: plain_inv_def)
  from assms(1) obtain bs roots rm where
    "fold_result (queue_requirement sm (ms_mounts nxt)) (bs_Requirements (ms_src nxt))
      (st\<lparr>toProcess := rest, buildSources := bs, existingRoots := existingRoots st @ roots, rootMap := rm\<rparr>) = Inr st'"
    by (auto simp: Build_step_def result_bind_Inr_iff)
  then show ?thesis
  proof (rule fold_result_invariant)
    show "plain_inv sm (Suc n) (st\<lparr>toProcess := rest, buildSources := bs,
        existingRoots := existingRoots st @ roots, rootMap := rm\<rparr>)"
      using assms(2,4) by (simp add: plain_inv_def)
  next
    fix r s s'
    assume "r \<in> set (bs_Requirements (ms_src nxt))" "plain_inv sm (Suc n) s"
      "queue_requirement sm (ms_mounts nxt) r s = Inr s'"
    moreover from this(1) nxt have "ms_mounts nxt = []" "req_Path r = []" "req_Prefix r = []"
      by (simp_all add: unmounted_def)
    ultimately show "plain_inv sm (Suc n) s'"
      using plain_inv_queue [OF _ assms(3)] by metis
  qed
qed

lemma plain_inv_bound:
  assumes "plain_inv sm n st" "finite (dom sm)"
  shows "n + length (toProcess st) \<le> Suc (card (dom sm))"
proof -
  have "set (map (bs_Name \<circ> ms_src) (alreadyProcessed st)) \<subseteq> dom sm"
    using assms(1) by (auto simp: plain_inv_def)
  then have "length (map (bs_Name \<circ> ms_src) (alreadyProcessed st)) \<le> card (dom sm)"
    using assms by (metis card_mono distinct_card plain_inv_def)
  with assms(1) show ?thesis by (simp add: plain_inv_def)
qed

lemma Build_loop_plain:
  assumes "plain_sources sm" "finite (dom sm)" "plain_inv sm n st" "Suc (card (dom sm)) \<le> n + fuel"
  shows "Build_loop fuel opa excluded sm st \<noteq> None"
  using assms(3,4)
proof (induction fuel arbitrary: n st)
  case 0
  then have "length (toProcess st) = 0"
    using plain_inv_bound [OF 0(1) assms(2)] by linarith
  then show ?case by (simp add: Build_loop.simps)
next
  case (Suc fuel)
  show ?case
  proof (cases "toProcess st")
    case Nil
    then show ?thesis by (simp add: Build_loop.simps)
  next
    case (Cons nxt rest)
    show ?thesis
    proof (cases "Build_step opa excluded sm nxt (st\<lparr>toProcess := rest\<rparr>)")
      case (Inl e)
      with Cons show ?thesis by (simp add: Build_loop.simps)
    next
      case (Inr st')
      with Suc.IH [OF plain_inv_step [OF Inr Cons assms(1) Suc.prems(1)]] Suc.prems(2) Cons
      show ?thesis by (subst Build_loop.simps) simp
    qed
  qed
qed

lemma source_map_name: "source_map srcs n = Some s \<Longrightarrow> s \<in> set srcs \<and> bs_Name s = n"
  by (auto simp: source_map_def dest!: map_of_SomeD)

text \<open>
  C39: When no requirement has a path or a prefix, every source is processed at most once more
  than the first, so a build over \<open>n\<close> sources ends within \<open>n + 1\<close> rounds, also when sources
  require each other in a cycle.
\<close>

theorem Build_terminates:
  assumes "srcs \<noteq> []"
    and "\<forall>s \<in> set srcs. \<forall>r \<in> set (bs_Requirements s). req_Path r = [] \<and> req_Prefix r = []"
  shows "Build (Suc (length srcs)) opa compile srcs excluded target level revision \<noteq> None"
proof -
  let ?sm = "source_map srcs"
  have sm: "dom ?sm \<subseteq> set (map bs_Name srcs)"
    using source_map_name by (fastforce simp: dom_def)
  then have fin: "finite (dom ?sm)" by (rule finite_subset) simp
  have "card (dom ?sm) \<le> length srcs"
    using card_mono [OF _ sm] card_length [of "map bs_Name srcs"] by (simp add: le_trans)
  moreover have "plain_sources ?sm"
    using assms(2) source_map_name unfolding plain_sources_def by blast
  moreover have "plain_inv ?sm 0 (Build_start (hd srcs))"
    using assms hd_in_set [OF assms(1)] by (auto simp: plain_inv_def Build_start_def unmounted_def)
  ultimately have "Build_loop (Suc (length srcs)) opa excluded ?sm (Build_start (hd srcs)) \<noteq> None"
    using fin by (intro Build_loop_plain [of ?sm 0]) simp_all
  with assms(1) show ?thesis by (simp add: Build_def)
qed

definition plain_opa :: "(unit, string) opa" where
  "plain_opa = \<lparr>parse = \<lambda>p c. Inl p, package = \<lambda>_. [''data''], print = \<lambda>_. [], move = \<lambda>ms _ _. Inr ms,
     parseRef = \<lambda>d. Some [d], ptr = \<lambda>r. Some (concat r), merge_fs = \<lambda>f g. f, glob = Some,
     glob_match = (=), walk_fuel = 9\<rparr>"

definition require :: "string \<Rightarrow> string \<Rightarrow> requirement" where
  "require name prefix1 = \<lparr>req_Source = Some name, req_Commit = None, req_Path = [],
     req_Prefix = prefix1, req_AutoMount = None\<rparr>"

definition self_source :: "string \<Rightarrow> bsource" where
  "self_source prefix1 = (NewSource ''a'')\<lparr>bs_Requirements := [require ''a'' prefix1]\<rparr>"

lemma Build_terminates_witness:
  "Build 2 plain_opa (\<lambda>_ _ _ _ _. Inr ()) [self_source []] [] [] 0 ''r1'' \<noteq> None"
proof -
  have "\<forall>s \<in> set [self_source []]. \<forall>r \<in> set (bs_Requirements s). req_Path r = [] \<and> req_Prefix r = []"
    by (simp add: self_source_def require_def)
  from Build_terminates [OF _ this, of plain_opa "\<lambda>_ _ _ _ _. Inr ()" "[]" "[]" 0 "''r1''"]
  show ?thesis by (simp add: numeral_2_eq_2)
qed


lemma self_source_step:
  assumes "toProcess st = [\<lparr>ms_src = self_source p, ms_mounts = ms\<rparr>]" "p \<noteq> []"
    and "\<forall>m \<in> set (alreadyProcessed st). length (ms_mounts m) \<le> length ms"
  shows "\<exists>st'. Build_step opa excluded [''a'' \<mapsto> self_source p] \<lparr>ms_src = self_source p, ms_mounts = ms\<rparr>
      (st\<lparr>toProcess := []\<rparr>) = Inr st' \<and>
    toProcess st' = [\<lparr>ms_src = self_source p, ms_mounts = \<lparr>mnt_path = [], mnt_prefix = p\<rparr> # ms\<rparr>] \<and>
    (\<forall>m \<in> set (alreadyProcessed st'). length (ms_mounts m) \<le> Suc (length ms))"
proof -
  have "\<not> list_ex (mntSrc_Equal \<lparr>ms_src = self_source p, ms_mounts = \<lparr>mnt_path = [], mnt_prefix = p\<rparr> # ms\<rparr>)
      (alreadyProcessed st)"
    using assms(3) by (fastforce simp: list_ex_iff mntSrc_Equal_def dest: arg_cong [of _ _ length])
  then show ?thesis
    using assms
    by (auto simp: Build_step_def self_source_def NewSource_def require_def queue_requirement_def
        requirement_mounts_def Let_def le_SucI)
qed

text \<open>
  A source that requires itself with a prefix makes the loop run forever: every round adds
  one more mount, so the pair of source and mounts is always new.
\<close>

theorem Build_cycle_diverges:
  "Build fuel opa compile [self_source (c # p)] excluded target level revision = None"
proof -
  have "Build_loop fuel opa excluded [''a'' \<mapsto> self_source (c # p)] st = None"
    if "toProcess st = [\<lparr>ms_src = self_source (c # p), ms_mounts = ms\<rparr>]"
      "\<forall>m \<in> set (alreadyProcessed st). length (ms_mounts m) \<le> length ms" for st ms
    using that
  proof (induction fuel arbitrary: st ms)
    case 0
    then show ?case by (simp add: Build_loop.simps)
  next
    case (Suc fuel)
    from self_source_step [OF Suc.prems(1) _ Suc.prems(2), of opa excluded] obtain st' where
      st': "Build_step opa excluded [''a'' \<mapsto> self_source (c # p)] \<lparr>ms_src = self_source (c # p), ms_mounts = ms\<rparr>
        (st\<lparr>toProcess := []\<rparr>) = Inr st'"
      "toProcess st' = [\<lparr>ms_src = self_source (c # p), ms_mounts = \<lparr>mnt_path = [], mnt_prefix = c # p\<rparr> # ms\<rparr>]"
      "\<forall>m \<in> set (alreadyProcessed st'). length (ms_mounts m) \<le> Suc (length ms)" by auto
    have "Build_loop fuel opa excluded [''a'' \<mapsto> self_source (c # p)] st' = None"
      by (rule Suc.IH [OF st'(2)]) (use st'(3) in simp)
    with st'(1) Suc.prems(1) show ?case by (subst Build_loop.simps) simp
  qed
  from this [of "Build_start (self_source (c # p))" "[]"] show ?thesis
    by (simp add: Build_def source_map_def Build_start_def) (simp add: self_source_def NewSource_def)
qed

text \<open>
  The names under which the file systems of a build are mounted are the escaped names of
  the sources, the second and later file systems with their number. When these names are
  different every file system is mounted; but the second file system of a source \<open>lib\<close> and the
  first of a source \<open>lib1\<close> have one name, and then one of them is dropped.
\<close>

theorem buildSources_fs_names:
  "(distinct (concat (map (\<lambda>(n, fs). map (mount_name n) [0..<length fs]) bs)) \<longrightarrow>
     (n, fs) \<in> set bs \<longrightarrow> j < length fs \<longrightarrow> map_of (buildSources_fs bs) (mount_name n j) = Some (fs ! j)) \<and>
   buildSources_fs (buildSources_add ''lib1'' h (buildSources_add ''lib'' g (buildSources_add ''lib'' f []))) =
     [(''lib'', f), (''lib1'', h)]"
proof -
  define entries where "entries = concat (map (\<lambda>(n, fs). map (\<lambda>(j, f). (mount_name n j, f)) (enumerate 0 fs)) bs)"
  have put: "map_of (fold (\<lambda>(mnt, f). map_put mnt f) es m) = map_of m ++ map_of (rev es)" for es :: mountfs and m
    by (induction es arbitrary: m) (auto simp: map_add_def fun_eq_iff split: option.splits)
  have keys: "map fst entries = concat (map (\<lambda>(n, fs). map (mount_name n) [0..<length fs]) bs)"
  proof -
    have one: "map fst (map (\<lambda>(j, f). (mount_name n j, f)) (enumerate 0 fs)) = map (mount_name n) [0..<length fs]"
      for n and fs :: "fsys list"
      by (rule nth_equalityI) (simp_all add: enumerate_eq_zip)
    show ?thesis
      unfolding entries_def map_concat map_map
      by (rule arg_cong [of _ _ concat], rule map_cong [OF refl])
        (auto simp only: comp_def split: prod.split intro: one)
  qed
  have "map_of (buildSources_fs bs) (mount_name n j) = Some (fs ! j)"
    if "distinct (concat (map (\<lambda>(n, fs). map (mount_name n) [0..<length fs]) bs))" "(n, fs) \<in> set bs" "j < length fs"
  proof -
    have "(mount_name n j, fs ! j) \<in> set entries"
      using that(2,3) unfolding entries_def by (force simp: enumerate_eq_zip set_zip)
    moreover have "distinct (map fst (rev entries))"
      using that(1) keys by (metis distinct_rev rev_map)
    ultimately have "map_of (rev entries) (mount_name n j) = Some (fs ! j)"
      by (intro map_of_is_SomeI) auto
    then show ?thesis
      by (simp add: buildSources_fs_def entries_def [symmetric] put)
  qed
  moreover have "Itoa 1 = ''1''" by code_simp
  ultimately show ?thesis
    by (simp add: buildSources_add_def buildSources_fs_def mount_name_def Let_def)
qed

lemma buildSources_fs_names_witness:
  "map_of (buildSources_fs [(''lib'', [emptyFS, example_fs]), (''b'', [emptyFS])]) (mount_name ''lib'' 1) = Some example_fs"
proof -
  have "Itoa 1 = ''1''" by code_simp
  then have "distinct (concat (map (\<lambda>(n, fs). map (mount_name n) [0..<length fs]) [(''lib'', [emptyFS, example_fs]), (''b'', [emptyFS])]))"
    by (simp add: mount_name_def)
  with buildSources_fs_names [of "[(''lib'', [emptyFS, example_fs]), (''b'', [emptyFS])]" "''lib''" "[emptyFS, example_fs]" 1]
  show ?thesis by simp
qed

end
