(* ===== verification/Deps.thy ===== *)
theory Deps
  imports TopoSort Worker Builder
begin

text \<open>
  How \<open>pkg/service/service.go\<close> finds the sources of a bundle (\<open>getDeps\<close>, a breadth-first walk
  over the requirements with the commits they pin) and turns each into a source of the builder
  with its synchronizers. The rendering of a reference by OPA (\<open>ref_string\<close>) is a parameter.
\<close>

subsection \<open>getDeps\<close>

function getDeps_loop ::
    "source_map \<Rightarrow> requirement list \<Rightarrow> string list \<Rightarrow> source list \<Rightarrow> requirement list \<Rightarrow>
     string list \<times> source list \<times> requirement list" where
  "getDeps_loop byName [] visited srcs all_reqs = (visited, srcs, all_reqs)"
| "getDeps_loop byName (nxt # rs) visited srcs all_reqs =
     (case req_Source nxt of
        None \<Rightarrow> getDeps_loop byName rs visited srcs (all_reqs @ [nxt])
      | Some name \<Rightarrow>
          if name \<in> set visited then getDeps_loop byName rs visited srcs (all_reqs @ [nxt])
          else (case fmlookup byName name of
            None \<Rightarrow> getDeps_loop byName rs visited srcs (all_reqs @ [nxt])
          | Some src \<Rightarrow> getDeps_loop byName (rs @ slice (src_Requirements src)) (visited @ [name])
              (srcs @ [src]) (all_reqs @ [nxt])))"
  by pat_completeness auto

lemma unvisited_decreases:
  assumes "fmlookup byName name = Some src" "name \<notin> set visited"
  shows "card (fset (fmdom byName) - set (visited @ [name])) < card (fset (fmdom byName) - set visited)"
proof (intro psubset_card_mono psubsetI)
  have "name \<in> fset (fmdom byName) - set visited"
    using assms fmdomI by fastforce
  then show "fset (fmdom byName) - set (visited @ [name]) \<noteq> fset (fmdom byName) - set visited" by auto
qed auto

termination getDeps_loop
  by (relation "(\<lambda>(byName, rs, visited, srcs, a). card (fset (fmdom byName) - set visited)) <*mlex*>
      (\<lambda>(byName, rs, visited, srcs, a). length rs) <*mlex*> {}")
    (auto intro: wf_mlex simp: mlex_prod_def unvisited_decreases [simplified])

text \<open>The loop over all requirements: the first commit of a source counts, another one is a conflict.\<close>

definition override_step ::
    "requirement \<Rightarrow> (string, string) fmap \<times> string set \<Rightarrow> (string, string) fmap \<times> string set" where
  "override_step r = (\<lambda>(overrides, conflicts).
     (case (req_Source r, req_Commit r) of
        (Some s, Some c) \<Rightarrow>
          (case fmlookup overrides s of
             Some x \<Rightarrow> if x \<noteq> c then (overrides, insert s conflicts) else (fmupd s c overrides, conflicts)
           | None \<Rightarrow> (fmupd s c overrides, conflicts))
      | _ \<Rightarrow> (overrides, conflicts)))"

definition getDeps ::
    "requirement list \<Rightarrow> source_map \<Rightarrow> source list \<times> (string, string) fmap \<times> string set" where
  "getDeps rs byName =
     (let (visited, srcs, all_reqs) = getDeps_loop byName rs [] [] [];
          (overrides, conflicts) = fold override_step all_reqs (fmempty, {})
      in (srcs, overrides, conflicts))"

text \<open>The sources that are needed, and the requirements that speak of them.\<close>

definition needed :: "source_map \<Rightarrow> requirement list \<Rightarrow> string set" where
  "needed byName rs = {n. \<exists>r \<in> set rs. \<exists>m. req_Source r = Some m \<and> m |\<in>| fmdom byName \<and> (m, n) \<in> (requires byName)\<^sup>*}"

definition requirements_of :: "source_map \<Rightarrow> string \<Rightarrow> requirement list" where
  "requirements_of byName n = (case fmlookup byName n of None \<Rightarrow> [] | Some s \<Rightarrow> slice (src_Requirements s))"

definition relevant :: "source_map \<Rightarrow> requirement list \<Rightarrow> requirement set" where
  "relevant byName rs = set rs \<union> (\<Union>n \<in> needed byName rs. set (requirements_of byName n))"

definition commits :: "requirement list \<Rightarrow> string \<Rightarrow> string list" where
  "commits rs s = map (\<lambda>r. the (req_Commit r)) (filter (\<lambda>r. req_Source r = Some s \<and> req_Commit r \<noteq> None) rs)"

lemma needed_step:
  assumes "n \<in> needed byName rs" "r \<in> set (requirements_of byName n)" "req_Source r = Some m" "m |\<in>| fmdom byName"
  shows "m \<in> needed byName rs"
proof -
  have "(n, m) \<in> requires byName"
    using assms(2-4) by (cases "fmlookup byName n") (auto simp: requires_def requirements_of_def)
  with assms(1) show ?thesis
    unfolding needed_def by (blast intro: rtrancl_into_rtrancl)
qed

definition deps_inv ::
    "source_map \<Rightarrow> requirement list \<Rightarrow> requirement list \<Rightarrow> string list \<Rightarrow> source list \<Rightarrow> requirement list \<Rightarrow> bool" where
  "deps_inv byName rs0 rs visited srcs all_reqs \<longleftrightarrow>
     distinct visited \<and> map Some srcs = map (fmlookup byName) visited \<and>
     set visited \<subseteq> needed byName rs0 \<and>
     set all_reqs \<union> set rs = set rs0 \<union> (\<Union>n \<in> set visited. set (requirements_of byName n)) \<and>
     (\<forall>r \<in> set all_reqs. \<forall>m. req_Source r = Some m \<and> m |\<in>| fmdom byName \<longrightarrow> m \<in> set visited)"

lemma deps_inv_loop:
  assumes "deps_inv byName rs0 rs visited srcs all_reqs"
    and "getDeps_loop byName rs visited srcs all_reqs = (v, ss, as)"
  shows "deps_inv byName rs0 [] v ss as"
  using assms
proof (induction byName rs visited srcs all_reqs rule: getDeps_loop.induct)
  case (1 byName visited srcs all_reqs)
  then show ?case by simp
next
  case (2 byName nxt rs visited srcs all_reqs)
  have skip: "deps_inv byName rs0 rs visited srcs (all_reqs @ [nxt])"
    if "\<And>m. req_Source nxt = Some m \<Longrightarrow> m |\<in>| fmdom byName \<Longrightarrow> m \<in> set visited"
    using 2(5) that by (auto simp: deps_inv_def)
  show ?case
  proof (cases "req_Source nxt")
    case None
    show ?thesis
      by (rule 2(1)) (use None 2(6) skip in auto)
  next
    case (Some name)
    show ?thesis
    proof (cases "name \<in> set visited")
      case True
      show ?thesis
        by (rule 2(2) [OF Some True]) (use Some True 2(6) skip in auto)
    next
      case False
      show ?thesis
      proof (cases "fmlookup byName name")
        case None
        then have "name |\<notin>| fmdom byName" by (simp add: fmdom_notI)
        show ?thesis
          by (rule 2(3) [OF Some False None]) (use Some False None \<open>name |\<notin>| fmdom byName\<close> 2(6) skip in auto)
      next
        case src: (Some src)
        have dom: "name |\<in>| fmdom byName" using src by (rule fmdomI)
        have "nxt \<in> set rs0 \<or> (\<exists>n \<in> set visited. nxt \<in> set (requirements_of byName n))"
          using 2(5) by (auto simp: deps_inv_def)
        then have need: "name \<in> needed byName rs0"
        proof
          assume "nxt \<in> set rs0"
          with Some dom show ?thesis unfolding needed_def by blast
        next
          assume "\<exists>n \<in> set visited. nxt \<in> set (requirements_of byName n)"
          then obtain n where "n \<in> needed byName rs0" "nxt \<in> set (requirements_of byName n)"
            using 2(5) by (auto simp: deps_inv_def)
          then show ?thesis using needed_step Some dom by blast
        qed
        have "slice (src_Requirements src) = requirements_of byName name"
          by (simp add: requirements_of_def src)
        with 2(5) False need src Some have
          "deps_inv byName rs0 (rs @ slice (src_Requirements src)) (visited @ [name]) (srcs @ [src]) (all_reqs @ [nxt])"
          by (auto simp: deps_inv_def)
        then show ?thesis
          by (rule 2(4) [OF Some False src]) (use 2(6) Some False src in simp)
      qed
    qed
  qed
qed

lemma overrides_fold:
  assumes "fold override_step rs (fmempty, {}) = (ov, cf)"
  shows "\<forall>s. fmlookup ov s = (case commits rs s of [] \<Rightarrow> None | c # cs \<Rightarrow> Some c) \<and>
    (s \<in> cf \<longleftrightarrow> (\<exists>c \<in> set (commits rs s). c \<noteq> hd (commits rs s)))"
  using assms
proof (induction rs arbitrary: ov cf rule: rev_induct)
  case Nil
  then show ?case by (auto simp: commits_def)
next
  case (snoc r rs)
  obtain ov1 cf1 where f: "fold override_step rs (fmempty, {}) = (ov1, cf1)" by fastforce
  note IH1 = snoc.IH [OF f]
  have overrides1: "fmlookup ov1 t = (case commits rs t of [] \<Rightarrow> None | c # cs \<Rightarrow> Some c)" for t
    using snoc.IH [OF f] by blast
  from f snoc.prems have "override_step r (ov1, cf1) = (ov, cf)" by simp
  show ?case
  proof (cases "\<exists>t c. req_Source r = Some t \<and> req_Commit r = Some c")
    case False
    then have "override_step r (ov1, cf1) = (ov1, cf1)"
      by (auto simp: override_step_def split: option.splits)
    moreover have "commits (rs @ [r]) s = commits rs s" for s
      using False by (auto simp: commits_def)
    ultimately show ?thesis
      using snoc.IH [OF f] \<open>override_step r (ov1, cf1) = (ov, cf)\<close> by simp
  next
    case True
    then obtain t c where tc: "req_Source r = Some t" "req_Commit r = Some c" by blast
    have snocs: "commits (rs @ [r]) u = commits rs u @ (if u = t then [c] else [])" for u
      using tc by (simp add: commits_def)
    have step: "(ov, cf) = (case commits rs t of
        [] \<Rightarrow> (fmupd t c ov1, cf1)
      | x # _ \<Rightarrow> if x \<noteq> c then (ov1, insert t cf1) else (fmupd t c ov1, cf1))"
      using \<open>override_step r (ov1, cf1) = (ov, cf)\<close>
      by (cases "commits rs t") (auto simp: override_step_def tc overrides1)
    show ?thesis
    proof
      fix s
      show "fmlookup ov s = (case commits (rs @ [r]) s of [] \<Rightarrow> None | c # cs \<Rightarrow> Some c) \<and>
        (s \<in> cf \<longleftrightarrow> (\<exists>c \<in> set (commits (rs @ [r]) s). c \<noteq> hd (commits (rs @ [r]) s)))"
        using step IH1 [rule_format, of s]
        by (cases "s = t"; cases "commits rs t") (auto simp: snocs split: if_splits)
    qed
  qed
qed

lemma deps_inv_end:
  assumes "deps_inv byName rs0 [] v ss as"
  shows "set as = set rs0 \<union> (\<Union>n \<in> set v. set (requirements_of byName n))"
    and "set v \<subseteq> needed byName rs0"
    and "\<And>r m. r \<in> set as \<Longrightarrow> req_Source r = Some m \<Longrightarrow> m |\<in>| fmdom byName \<Longrightarrow> m \<in> set v"
proof -
  note inv = assms [unfolded deps_inv_def list.set Un_empty_right]
  from inv show "set as = set rs0 \<union> (\<Union>n \<in> set v. set (requirements_of byName n))" by (elim conjE)
  from inv show "set v \<subseteq> needed byName rs0" by (elim conjE)
  fix r m
  assume "r \<in> set as" "req_Source r = Some m" "m |\<in>| fmdom byName"
  with inv show "m \<in> set v" by (elim conjE) (drule (1) bspec, blast)
qed

lemma needed_closed:
  assumes "deps_inv byName rs0 [] v ss as"
  shows "set v = needed byName rs0"
proof
  note all = deps_inv_end(1) [OF assms] and closed = deps_inv_end(3) [OF assms]
  show "set v \<subseteq> needed byName rs0" by (rule deps_inv_end(2) [OF assms])
  show "needed byName rs0 \<subseteq> set v"
  proof
    fix n
    assume "n \<in> needed byName rs0"
    then obtain r m where r: "r \<in> set rs0" "req_Source r = Some m" "m |\<in>| fmdom byName"
      and path: "(m, n) \<in> (requires byName)\<^sup>*" by (auto simp: needed_def)
    from path show "n \<in> set v"
    proof induction
      case base
      show ?case using closed [of r m] r all by blast
    next
      case (step y z)
      from step.hyps(2) obtain s q where q: "fmlookup byName y = Some s" "q \<in> set (slice (src_Requirements s))"
        "req_Source q = Some z" "z |\<in>| fmdom byName" by (auto simp: requires_def)
      then have "q \<in> set as"
        using all step.IH by (auto simp: requirements_of_def)
      then show ?case using closed q by blast
    qed
  qed
qed

lemma deps_inv_requirements:
  assumes "deps_inv byName rs0 [] v ss as"
  shows "set as = relevant byName rs0"
  unfolding relevant_def needed_closed [OF assms, symmetric]
  by (rule deps_inv_end(1) [OF assms])

text \<open>
  C7: The dependencies of a bundle are exactly the sources its requirements reach, each once,
  also when sources require each other in a cycle; a source is in conflict exactly when two of
  the requirements that count pin it to different commits, and a source that is not in conflict
  is overridden with the commit any of them pins.
\<close>

theorem getDeps_correct:
  assumes "getDeps rs byName = (srcs, overrides, conflicts)" and "named_by_key byName"
  shows "distinct (map src_Name srcs) \<and> set (map src_Name srcs) = needed byName rs \<and>
    (\<forall>src \<in> set srcs. fmlookup byName (src_Name src) = Some src) \<and>
    (s \<in> conflicts \<longleftrightarrow> (\<exists>q \<in> relevant byName rs. \<exists>r \<in> relevant byName rs.
       req_Source q = Some s \<and> req_Source r = Some s \<and>
       req_Commit q \<noteq> None \<and> req_Commit r \<noteq> None \<and> req_Commit q \<noteq> req_Commit r)) \<and>
    (s \<notin> conflicts \<longrightarrow> (\<forall>q \<in> relevant byName rs. req_Source q = Some s \<and> req_Commit q \<noteq> None \<longrightarrow>
       fmlookup overrides s = req_Commit q))"
proof -
  obtain v ss as where loop: "getDeps_loop byName rs [] [] [] = (v, ss, as)" by (metis prod_cases3)
  with assms(1) have ss: "ss = srcs" and ov: "fold override_step as (fmempty, {}) = (overrides, conflicts)"
    by (auto simp: getDeps_def Let_def split: prod.splits)
  have "deps_inv byName rs rs [] [] []" by (simp add: deps_inv_def)
  from deps_inv_loop [OF this loop] have inv: "deps_inv byName rs [] v srcs as" by (simp add: ss)
  have names: "map src_Name srcs = v \<and> (\<forall>src \<in> set srcs. fmlookup byName (src_Name src) = Some src)"
  proof -
    have "map Some srcs = map (fmlookup byName) v" using inv by (simp add: deps_inv_def)
    moreover have "fmlookup byName k = Some src \<Longrightarrow> src_Name src = k" for k src
      using assms(2) unfolding named_by_key_def by (simp add: fmpred_iff)
    ultimately show ?thesis
    proof (induction srcs arbitrary: v)
      case (Cons src srcs)
      then obtain k v' where v: "v = k # v'" "fmlookup byName k = Some src" "map Some srcs = map (fmlookup byName) v'"
        by auto
      with Cons.prems(2) have "src_Name src = k" by blast
      with v Cons.IH [OF v(3) Cons.prems(2)] show ?case by simp
    qed simp
  qed
  have mem: "c \<in> set (commits as s) \<longleftrightarrow> (\<exists>q \<in> relevant byName rs. req_Source q = Some s \<and> req_Commit q = Some c)" for c
    unfolding deps_inv_requirements [OF inv, symmetric] by (force simp: commits_def)
  from overrides_fold [OF ov] have o1: "fmlookup overrides s = (case commits as s of [] \<Rightarrow> None | c # cs \<Rightarrow> Some c)"
    and o2: "s \<in> conflicts \<longleftrightarrow> (\<exists>c \<in> set (commits as s). c \<noteq> hd (commits as s))" by blast+
  have conf: "s \<in> conflicts \<longleftrightarrow> (\<exists>c \<in> set (commits as s). \<exists>d \<in> set (commits as s). c \<noteq> d)"
    unfolding o2 by (cases "commits as s = []") (simp, metis hd_in_set)
  have c1: "s \<in> conflicts \<longleftrightarrow> (\<exists>q \<in> relevant byName rs. \<exists>r \<in> relevant byName rs.
       req_Source q = Some s \<and> req_Source r = Some s \<and>
       req_Commit q \<noteq> None \<and> req_Commit r \<noteq> None \<and> req_Commit q \<noteq> req_Commit r)"
  proof
    assume "s \<in> conflicts"
    then obtain c d where "c \<in> set (commits as s)" "d \<in> set (commits as s)" "c \<noteq> d" unfolding conf by blast
    then obtain q r where "q \<in> relevant byName rs" "req_Source q = Some s" "req_Commit q = Some c"
      "r \<in> relevant byName rs" "req_Source r = Some s" "req_Commit r = Some d"
      unfolding mem by blast
    with \<open>c \<noteq> d\<close> show "\<exists>q \<in> relevant byName rs. \<exists>r \<in> relevant byName rs.
       req_Source q = Some s \<and> req_Source r = Some s \<and>
       req_Commit q \<noteq> None \<and> req_Commit r \<noteq> None \<and> req_Commit q \<noteq> req_Commit r" by force
  next
    assume "\<exists>q \<in> relevant byName rs. \<exists>r \<in> relevant byName rs.
       req_Source q = Some s \<and> req_Source r = Some s \<and>
       req_Commit q \<noteq> None \<and> req_Commit r \<noteq> None \<and> req_Commit q \<noteq> req_Commit r"
    then obtain q r c d where q: "q \<in> relevant byName rs" "req_Source q = Some s" "req_Commit q = Some c"
      and r: "r \<in> relevant byName rs" "req_Source r = Some s" "req_Commit r = Some d" and "c \<noteq> d" by auto
    have "c \<in> set (commits as s)" unfolding mem using q by (intro bexI [of _ q]) simp_all
    moreover have "d \<in> set (commits as s)" unfolding mem using r by (intro bexI [of _ r]) simp_all
    ultimately show "s \<in> conflicts" unfolding conf using \<open>c \<noteq> d\<close> by (intro bexI)
  qed
  have c2: "fmlookup overrides s = req_Commit q"
    if "s \<notin> conflicts" "q \<in> relevant byName rs" "req_Source q = Some s" "req_Commit q \<noteq> None" for q
  proof -
    from that(4) obtain c where c: "req_Commit q = Some c" by auto
    with that mem have "c \<in> set (commits as s)" by blast
    with that(1) c show ?thesis
      unfolding o2 o1 by (cases "commits as s") auto
  qed
  have "distinct v" using inv [unfolded deps_inv_def] by (elim conjE)
  show ?thesis
  proof (intro conjI)
    show "distinct (map src_Name srcs)" "set (map src_Name srcs) = needed byName rs"
      using names \<open>distinct v\<close> needed_closed [OF inv] by simp_all
    show "\<forall>src \<in> set srcs. fmlookup byName (src_Name src) = Some src" using names by blast
  qed (rule c1, use c2 in blast)
qed

definition cyclic_sources :: source_map where
  "cyclic_sources =
     fmupd ''a'' (zero_source\<lparr>src_Name := ''a'', src_Requirements := Some [require ''b'' []]\<rparr>)
      (fmupd ''b'' (zero_source\<lparr>src_Name := ''b'',
         src_Requirements := Some [(require ''a'' [])\<lparr>req_Commit := Some ''c1''\<rparr>]\<rparr>) fmempty)"

lemma getDeps_correct_witness:
  "\<exists>srcs overrides conflicts.
    getDeps [(require ''a'' [])\<lparr>req_Commit := Some ''c2''\<rparr>] cyclic_sources = (srcs, overrides, conflicts) \<and>
    distinct (map src_Name srcs) \<and> ''a'' \<in> conflicts"
proof -
  let ?rs = "[(require ''a'' [])\<lparr>req_Commit := Some ''c2''\<rparr>]"
  obtain srcs overrides conflicts where g: "getDeps ?rs cyclic_sources = (srcs, overrides, conflicts)"
    by (metis prod_cases3)
  have named: "named_by_key cyclic_sources"
    by (auto simp: named_by_key_def cyclic_sources_def fmpred_iff)
  have "(''a'', ''b'') \<in> requires cyclic_sources"
    by (simp add: requires_def cyclic_sources_def require_def)
  then have "''b'' \<in> needed cyclic_sources ?rs"
    by (auto simp: needed_def require_def cyclic_sources_def)
  then have "(require ''a'' [])\<lparr>req_Commit := Some ''c1''\<rparr> \<in> relevant cyclic_sources ?rs"
    by (force simp: relevant_def requirements_of_def cyclic_sources_def)
  moreover have "(require ''a'' [])\<lparr>req_Commit := Some ''c2''\<rparr> \<in> relevant cyclic_sources ?rs"
    by (simp add: relevant_def)
  ultimately have "\<exists>q \<in> relevant cyclic_sources ?rs. \<exists>r \<in> relevant cyclic_sources ?rs.
      req_Source q = Some ''a'' \<and> req_Source r = Some ''a'' \<and>
      req_Commit q \<noteq> None \<and> req_Commit r \<noteq> None \<and> req_Commit q \<noteq> req_Commit r"
    by (intro bexI [of _ "(require ''a'' [])\<lparr>req_Commit := Some ''c1''\<rparr>"]
        bexI [of _ "(require ''a'' [])\<lparr>req_Commit := Some ''c2''\<rparr>"]) (simp_all add: require_def)
  with getDeps_correct [OF g named, of "''a''"] g show ?thesis by blast
qed

subsection \<open>Sources and synchronizers\<close>

datatype synchronizer =
    GitSync string git string
  | HTTPSync string string string string "(string, any) fmap option" "secretref option"
  | S3Sync string string string string "secretref option"
  | SQLSync string int string "string list"

record service_synchronizer = source_synchronizer +
  sync :: synchronizer

definition new_synchronizer :: "synchronizer \<Rightarrow> string \<Rightarrow> string \<Rightarrow> service_synchronizer" where
  "new_synchronizer s name typ = \<lparr>sync_sourceName = name, sync_sourceType = typ, sync = s\<rparr>"

text \<open>
  A source under construction: the synchronizers so far and the source of the builder. The file
  systems below the directories (\<open>disk\<close>) and OPA are parameters, as in the builder.
\<close>

type_synonym building = "service_synchronizer list \<times> bsource"

definition join :: "string list \<Rightarrow> string" where
  "join ps = path_Join ps"

definition addDir ::
    "('m, 'g) opa \<Rightarrow> (string \<Rightarrow> fsys) \<Rightarrow> string \<Rightarrow> bool \<Rightarrow> string list \<Rightarrow> string list \<Rightarrow> bsource \<Rightarrow> bsource" where
  "addDir opa disk d wipe includedFiles excludedFiles src =
     snd (AddDir opa disk \<lparr>dir_Path = d, dir_Wipe = wipe, dir_IncludedFiles = includedFiles,
       dir_ExcludedFiles = excludedFiles\<rparr> src)"

definition SyncGit ::
    "('m, 'g) opa \<Rightarrow> (string \<Rightarrow> fsys) \<Rightarrow> string \<Rightarrow> git \<Rightarrow> string \<Rightarrow> string \<Rightarrow> building \<Rightarrow> building" where
  "SyncGit opa disk sourceName git repoDir reqCommit = (\<lambda>(syncs, src).
     if git_Repo git \<noteq> [] then
       (let srcDir = (case git_Path git of None \<Rightarrow> repoDir | Some p \<Rightarrow> join [repoDir, p]);
            src = addDir opa disk srcDir False (git_IncludedFiles git) (git_ExcludedFiles git) src;
            git = (if reqCommit \<noteq> [] then git\<lparr>git_Commit := Some reqCommit\<rparr> else git)
        in (syncs @ [new_synchronizer (GitSync repoDir git sourceName) sourceName ''git''], src))
     else (syncs, src))"

definition SyncBuiltin :: "fsys \<Rightarrow> string option \<Rightarrow> building \<Rightarrow> building" where
  "SyncBuiltin builtinFS builtin = (\<lambda>(syncs, src).
     (syncs, case builtin of None \<Rightarrow> src | Some b \<Rightarrow> AddFS (fs_Sub builtinFS b) src))"

definition config_string :: "datasource \<Rightarrow> string \<Rightarrow> string" where
  "config_string d k = any_string (fmlookup (gomap (ds_Config d)) k)"

definition s3_url :: "datasource \<Rightarrow> string" where
  "s3_url d =
     (let bucket = config_string d ''bucket''; key = config_string d ''key'';
          region = cmp_Or (config_string d ''region'') ''us-east-1'';
          endpoint = config_string d ''endpoint''
      in if endpoint \<noteq> [] then endpoint @ ''/'' @ bucket @ ''/'' @ key
         else ''https://'' @ bucket @ ''.s3.'' @ region @ ''.amazonaws.com/'' @ key)"

definition SyncDatasource :: "string \<Rightarrow> string \<Rightarrow> datasource \<Rightarrow> building \<Rightarrow> building" where
  "SyncDatasource sourceName dir d = (\<lambda>(syncs, src).
     (let file = join [dir, ds_Path d, ''data.json''];
          syncs =
            (if ds_Type d = ''http'' then
               syncs @ [new_synchronizer
                 (HTTPSync file (config_string d ''url'') (cmp_Or (config_string d ''method'') ''GET'')
                    (config_string d ''body'') (any_map (fmlookup (gomap (ds_Config d)) ''headers'')) (ds_Credentials d))
                 sourceName ''http'']
             else if ds_Type d = ''s3'' then
               syncs @ [new_synchronizer
                 (S3Sync file (s3_url d) (cmp_Or (config_string d ''region'') ''us-east-1'')
                    (config_string d ''endpoint'') (ds_Credentials d))
                 sourceName ''s3'']
             else syncs)
      in (syncs,
          if ds_TransformQuery d \<noteq> []
          then src\<lparr>bs_Transforms := bs_Transforms src @ [\<lparr>tr_Query = ds_TransformQuery d, tr_Path = file\<rparr>]\<rparr>
          else src)))"

definition SyncDatasources ::
    "('m, 'g) opa \<Rightarrow> (string \<Rightarrow> fsys) \<Rightarrow> string \<Rightarrow> datasource list \<Rightarrow> string \<Rightarrow> building \<Rightarrow> building" where
  "SyncDatasources opa disk sourceName datasources dir b =
     (let (syncs, src) = fold (SyncDatasource sourceName dir) datasources b in
      (syncs, if datasources \<noteq> [] then addDir opa disk dir True [] [] src else src))"

definition SyncSourceSQL ::
    "('m, 'g) opa \<Rightarrow> (string \<Rightarrow> fsys) \<Rightarrow> int \<Rightarrow> string \<Rightarrow> string \<Rightarrow> string list \<Rightarrow> building \<Rightarrow> building" where
  "SyncSourceSQL opa disk sourceID name dir metadataFields = (\<lambda>(syncs, src).
     (syncs @ [new_synchronizer (SQLSync dir sourceID name metadataFields) name ''sql''],
      addDir opa disk dir True [] [] src))"

definition AddRequirements :: "requirement list \<Rightarrow> bsource \<Rightarrow> bsource" where
  "AddRequirements reqs src =
     src\<lparr>bs_Requirements := bs_Requirements src @ filter (\<lambda>r. req_Source r \<noteq> None) reqs\<rparr>"

text \<open>The body of the loop over the dependencies of a bundle.\<close>

definition add_dep ::
    "('m, 'g) opa \<Rightarrow> (string \<Rightarrow> fsys) \<Rightarrow> fsys \<Rightarrow> string \<Rightarrow> (string, string) fmap \<Rightarrow> (string \<Rightarrow> string list) \<Rightarrow>
     source \<Rightarrow> service_synchronizer list \<times> bsource list \<Rightarrow> service_synchronizer list \<times> bsource list" where
  "add_dep opa disk builtinFS bundleDir overrides metadataFields dep = (\<lambda>(syncs, sources).
     (let name = src_Name dep;
          srcDir = join [bundleDir, ''sources'', Escape name];
          b = SyncBuiltin builtinFS (src_Builtin dep) (syncs, NewSource name);
          b = SyncSourceSQL opa disk (src_ID dep) name (join [srcDir, ''database'']) (metadataFields name) b;
          b = SyncDatasources opa disk name (src_Datasources dep) (join [srcDir, ''datasources'']) b;
          (syncs, src) = SyncGit opa disk name (src_Git dep) (join [srcDir, ''repo''])
            (case fmlookup overrides name of None \<Rightarrow> [] | Some c \<Rightarrow> c) b
      in (syncs, sources @ [AddRequirements (slice (src_Requirements dep)) src])))"

subsection \<open>Prefixes of the requirements of stacks\<close>

definition addPrefix :: "(string list \<Rightarrow> string) \<Rightarrow> string list \<Rightarrow> string \<Rightarrow> string \<Rightarrow> string" where
  "addPrefix ref_string prefix1 name existing =
     (let pr = ref_string (prefix1 @ [name]);
          offset = (if strings_HasPrefix existing ''data.'' then 5 else 0)
      in if existing = [] then pr else pr @ ''.'' @ drop offset existing)"

definition stack_requirement :: "(string list \<Rightarrow> string) \<Rightarrow> bool \<Rightarrow> string \<Rightarrow> requirement \<Rightarrow> requirement" where
  "stack_requirement ref_string noDefaultMount stackName req =
     (if \<not> noDefaultMount \<and> (req_AutoMount req = None \<or> req_AutoMount req = Some True)
      then req\<lparr>req_Prefix := addPrefix ref_string [''data'', ''stacks''] stackName (req_Prefix req)\<rparr>
      else req)"

definition stack_applies ::
    "('g \<Rightarrow> string \<Rightarrow> bool) \<Rightarrow> labels \<Rightarrow> 'g stack \<Rightarrow> bool" where
  "stack_applies match lbls stk \<longleftrightarrow>
     Selector_Matches match (stk_Selector stk) lbls \<and> \<not> Selector_PtrMatches match (stk_ExcludeSelector stk) lbls"

definition bundle_root ::
    "('g \<Rightarrow> string \<Rightarrow> bool) \<Rightarrow> (string list \<Rightarrow> string) \<Rightarrow> bundle_config \<Rightarrow> 'g stack list \<Rightarrow> bsource" where
  "bundle_root match ref_string b stacks =
     fold (\<lambda>stk src.
         if stack_applies match (gomap (bun_Labels b)) stk
         then AddRequirements (map (stack_requirement ref_string (opts_NoDefaultStackMount (bun_Options b)) (stk_Name stk))
           (slice (stk_Requirements stk))) src
         else src)
       stacks (AddRequirements (slice (bun_Requirements b)) (NewSource (bun_Name b)))"

lemma bundle_root_requirements:
  "bs_Requirements (bundle_root match ref_string b stacks) = filter (\<lambda>r. req_Source r \<noteq> None)
     (slice (bun_Requirements b) @
      concat (map (\<lambda>stk. map (stack_requirement ref_string (opts_NoDefaultStackMount (bun_Options b)) (stk_Name stk))
          (slice (stk_Requirements stk)))
        (filter (stack_applies match (gomap (bun_Labels b))) stacks)))"
proof -
  have "bs_Requirements (fold (\<lambda>stk src.
         if stack_applies match (gomap (bun_Labels b)) stk
         then AddRequirements (map (stack_requirement ref_string (opts_NoDefaultStackMount (bun_Options b)) (stk_Name stk))
           (slice (stk_Requirements stk))) src
         else src) stks src) = bs_Requirements src @ filter (\<lambda>r. req_Source r \<noteq> None)
       (concat (map (\<lambda>stk. map (stack_requirement ref_string (opts_NoDefaultStackMount (bun_Options b)) (stk_Name stk))
          (slice (stk_Requirements stk)))
        (filter (stack_applies match (gomap (bun_Labels b))) stks)))" for stks src
    by (induction stks arbitrary: src) (simp_all add: AddRequirements_def)
  then show ?thesis
    by (simp add: bundle_root_def AddRequirements_def NewSource_def)
qed

end
