(* ===== verification/Service.thy ===== *)
theory Service
  imports Deps
begin

text \<open>
  The reconciliation of \<open>pkg/service/service.go\<close>: \<open>launchWorkers\<close> goes through the tenants,
  stops the workers that are not wanted, forgets those that are done, and starts a worker for
  each bundle without one. A worker is kept under the name of its tenant and its bundle. The
  answers of the database are given for each tenant; an error ends the pass. OPA, the globs, the
  disk, the storage factory and the analysis of revisions are parameters, gathered in a record.
\<close>

record ('m, 'g) service_env =
  svc_opa :: "('m, 'g) opa"
  svc_disk :: "string \<Rightarrow> fsys"
  svc_builtinFS :: fsys
  svc_ref_string :: "string list \<Rightarrow> string"
  svc_md5sum :: "string \<Rightarrow> string"
  svc_persistenceDir :: string
  svc_revision_refs :: "string \<Rightarrow> (string \<times> string list) list option"
  svc_new_storage :: "objectstorage \<Rightarrow> string option"
  svc_storage :: bool
  svc_singleShot :: bool

record 'g service =
  workers :: "(string \<times> 'g worker) list"
  failures :: "(string \<times> status) list"
  added :: "string list"

definition New_service :: "'g service" where
  "New_service = \<lparr>workers = [], failures = [], added = []\<rparr>"

record 'g tenant_data =
  td_bundles :: "bundle_config list"
  td_sources :: "source list"
  td_stacks :: "'g stack list"

definition worker_id :: "string \<Rightarrow> string \<Rightarrow> string" where
  "worker_id tenant bundle = tenant @ ''_'' @ bundle"

definition shut_down :: "string set \<Rightarrow> (string \<times> 'g worker) list \<Rightarrow> (string \<times> 'g worker) list" where
  "shut_down activeBundles ws =
     map (\<lambda>(i, w). (i, if i \<in> activeBundles then w else UpdateConfig None [] [] w))
       (filter (\<lambda>(i, w). \<not> Done w) ws)"

definition sources_by_name :: "source list \<Rightarrow> source_map" where
  "sources_by_name srcs = fold (\<lambda>s. fmupd (src_Name s) s) srcs fmempty"

definition conflict_message :: "string \<Rightarrow> string set \<Rightarrow> string" where
  "conflict_message tenant conflicts =
     (let sorted1 = sorted_list_of_set conflicts;
          extra = (if length sorted1 > 1 then '' (along with '' @ Itoa (length sorted1 - 1) @ '' other sources)'' else [])
      in ''requirements on '' @ hd sorted1 @ '' ('' @ tenant @ '') conflict'' @ extra)"

text \<open>
  The metadata fields to compute for a source: what the revision refers to, the last entry of a
  source counts; none when the revision is empty or cannot be analysed.
\<close>

definition metadata_fields :: "('m, 'g) service_env \<Rightarrow> string \<Rightarrow> string \<Rightarrow> string list" where
  "metadata_fields env revision name =
     (if revision = [] then []
      else case svc_revision_refs env revision of
        None \<Rightarrow> []
      | Some refs \<Rightarrow> (case map_of (rev refs) name of None \<Rightarrow> [] | Some fs \<Rightarrow> fs))"

definition bundle_sources ::
    "('m, 'g) service_env \<Rightarrow> string \<Rightarrow> bundle_config \<Rightarrow> bsource \<Rightarrow> source list \<Rightarrow> (string, string) fmap \<Rightarrow>
     service_synchronizer list \<times> bsource list" where
  "bundle_sources env bName b root1 deps overrides =
     fold (add_dep (svc_opa env) (svc_disk env) (svc_builtinFS env)
         (join [svc_persistenceDir env, svc_md5sum env bName]) overrides (metadata_fields env (bun_Revision b)))
       deps ([], [root1])"

definition new_worker ::
    "('m, 'g) service_env \<Rightarrow> string \<Rightarrow> 'g tenant_data \<Rightarrow> bundle_config \<Rightarrow> bsource \<Rightarrow> source list \<Rightarrow>
     (string, string) fmap \<Rightarrow> 'g worker" where
  "new_worker env bName td b root1 deps overrides =
     (let (syncs, srcs) = bundle_sources env bName b root1 deps overrides in
      WithSingleShot (svc_singleShot env)
        (WithInterval (bun_Interval b)
          (WithSynchronizers (map source_synchronizer.truncate syncs)
            (WithSources (map bs_Name srcs)
              (NewBundleWorker b (td_sources td) (td_stacks td))))))"

definition fail :: "string \<Rightarrow> string \<Rightarrow> 'g service \<Rightarrow> 'g service" where
  "fail name msg s = s\<lparr>failures := map_put name \<lparr>st_State = ConfigError, st_Message = msg\<rparr> (failures s)\<rparr>"

definition start_worker :: "string \<Rightarrow> 'g worker \<Rightarrow> 'g service \<Rightarrow> 'g service" where
  "start_worker bName w s = s\<lparr>added := added s @ [bName], workers := map_put bName w (workers s)\<rparr>"

text \<open>The body of the loop over the bundles of a tenant.\<close>

definition launch_bundle ::
    "('m, 'g) service_env \<Rightarrow> string \<Rightarrow> 'g tenant_data \<Rightarrow> bundle_config \<Rightarrow> 'g service \<Rightarrow> 'g service" where
  "launch_bundle env tenant td b s =
     (let bName = worker_id tenant (bun_Name b) in
      case map_of (workers s) bName of
        Some w \<Rightarrow> s\<lparr>workers := map_put bName (UpdateConfig (Some b) (td_sources td) (td_stacks td) w) (workers s)\<rparr>
      | None \<Rightarrow>
          (let root1 = bundle_root (glob_match (svc_opa env)) (svc_ref_string env) b (td_stacks td);
               (deps, overrides, conflicts) = getDeps (bs_Requirements root1) (sources_by_name (td_sources td))
           in if conflicts \<noteq> {} then fail (bun_Name b) (conflict_message tenant conflicts) s
              else
                (let w = new_worker env bName td b root1 deps overrides in
                 if svc_storage env then start_worker bName (WithStorage w) s
                 else case svc_new_storage env (bun_ObjectStorage b) of
                   Some err \<Rightarrow> fail (bun_Name b) (''object storage: '' @ err) s
                 | None \<Rightarrow> start_worker bName (WithStorage w) s)))"

definition launch_tenant ::
    "('m, 'g) service_env \<Rightarrow> string \<Rightarrow> 'g tenant_data \<Rightarrow> 'g service \<Rightarrow> 'g service" where
  "launch_tenant env tenant td s =
     fold (launch_bundle env tenant td) (td_bundles td)
       (s\<lparr>workers := shut_down (set (map (\<lambda>b. worker_id tenant (bun_Name b)) (td_bundles td))) (workers s),
          failures := []\<rparr>)"

text \<open>\<open>launchWorkers\<close>: the tenants with what the database answers for them; an error stops the pass.\<close>

fun launchWorkers ::
    "('m, 'g) service_env \<Rightarrow> (string \<times> (string + 'g tenant_data)) list \<Rightarrow> 'g service \<Rightarrow> 'g service" where
  "launchWorkers env [] s = s"
| "launchWorkers env ((tenant, Inl err) # ts) s = s"
| "launchWorkers env ((tenant, Inr td) # ts) s = launchWorkers env ts (launch_tenant env tenant td s)"

definition allWorkersDone :: "'g service \<Rightarrow> bool" where
  "allWorkersDone s \<longleftrightarrow> list_all (\<lambda>(i, w). Done w) (workers s)"

text \<open>The report of a single-shot run, under the names of the bundles.\<close>

definition service_report :: "'g service \<Rightarrow> (string \<times> status) list" where
  "service_report s =
     fold (\<lambda>(n, st). map_put n st) (failures s)
       (fold (\<lambda>(i, w). map_put (bun_Name (bundleConfig w)) (status w)) (workers s) [])"

subsection \<open>What a pass does\<close>

text \<open>
  What a pass over one tenant promises for one identifier: a bundle with a worker that is not
  done gets the new configuration; a bundle without one gets a new worker unless its
  requirements conflict or its storage cannot be opened; a worker of no bundle of the tenant is
  told to stop, and forgotten when it is done.
\<close>

definition fresh_worker ::
    "('m, 'g) service_env \<Rightarrow> string \<Rightarrow> 'g tenant_data \<Rightarrow> bundle_config \<Rightarrow> 'g worker option" where
  "fresh_worker env tenant td b =
     (let root1 = bundle_root (glob_match (svc_opa env)) (svc_ref_string env) b (td_stacks td);
          (deps, overrides, conflicts) = getDeps (bs_Requirements root1) (sources_by_name (td_sources td))
      in if conflicts \<noteq> {} \<or> (\<not> svc_storage env \<and> svc_new_storage env (bun_ObjectStorage b) \<noteq> None) then None
         else Some (WithStorage (new_worker env (worker_id tenant (bun_Name b)) td b root1 deps overrides)))"

definition running :: "(string \<times> 'g worker) list \<Rightarrow> string \<Rightarrow> 'g worker option" where
  "running ws i = (case map_of ws i of None \<Rightarrow> None | Some w \<Rightarrow> if Done w then None else Some w)"

definition promised ::
    "('m, 'g) service_env \<Rightarrow> string \<Rightarrow> 'g tenant_data \<Rightarrow> (string \<times> 'g worker) list \<Rightarrow> string \<Rightarrow> 'g worker option" where
  "promised env tenant td ws i =
     (case (find (\<lambda>b. worker_id tenant (bun_Name b) = i) (td_bundles td), running ws i) of
        (Some b, Some w) \<Rightarrow> Some (UpdateConfig (Some b) (td_sources td) (td_stacks td) w)
      | (Some b, None) \<Rightarrow> fresh_worker env tenant td b
      | (None, Some w) \<Rightarrow> Some (UpdateConfig None [] [] w)
      | (None, None) \<Rightarrow> None)"

lemma launch_bundle_workers:
  "map_of (workers (launch_bundle env tenant td b s)) i =
     (if i = worker_id tenant (bun_Name b) then
        (case map_of (workers s) i of
           Some w \<Rightarrow> Some (UpdateConfig (Some b) (td_sources td) (td_stacks td) w)
         | None \<Rightarrow> fresh_worker env tenant td b)
      else map_of (workers s) i)"
  by (auto simp: launch_bundle_def fresh_worker_def fail_def start_worker_def Let_def
      split: option.split prod.split)

lemma worker_id_inject [simp]: "worker_id tenant a = worker_id tenant b \<longleftrightarrow> a = b"
  by (simp add: worker_id_def)

lemma launch_bundles_workers:
  assumes "distinct (map bun_Name bs)"
  shows "map_of (workers (fold (launch_bundle env tenant td) bs s)) i =
    (case find (\<lambda>b. worker_id tenant (bun_Name b) = i) bs of
       None \<Rightarrow> map_of (workers s) i
     | Some b \<Rightarrow> (case map_of (workers s) i of
           Some w \<Rightarrow> Some (UpdateConfig (Some b) (td_sources td) (td_stacks td) w)
         | None \<Rightarrow> fresh_worker env tenant td b))"
  using assms
proof (induction bs arbitrary: s)
  case (Cons b bs)
  have "find (\<lambda>b'. worker_id tenant (bun_Name b') = worker_id tenant (bun_Name b)) bs = None"
    using Cons.prems by (auto simp: find_None_iff image_iff)
  with Cons show ?case
    by (auto simp: launch_bundle_workers split: option.split)
qed simp

lemma shut_down_map_of:
  assumes "distinct (map fst ws)"
  shows "map_of (shut_down act ws) i =
    map_option (\<lambda>w. if i \<in> act then w else UpdateConfig None [] [] w) (running ws i)"
  using assms
  by (induction ws) (auto simp: shut_down_def running_def map_of_eq_None_iff image_iff split: option.split)

lemma find_None_ids:
  "find (\<lambda>b. worker_id tenant (bun_Name b) = i) bs = None \<longleftrightarrow>
    i \<notin> set (map (\<lambda>b. worker_id tenant (bun_Name b)) bs)"
  by (auto simp: find_None_iff)

lemma launch_tenant_workers:
  assumes "distinct (map fst (workers s))" "distinct (map bun_Name (td_bundles td))"
  shows "map_of (workers (launch_tenant env tenant td s)) i = promised env tenant td (workers s) i"
  using find_None_ids [of tenant i "td_bundles td"]
  by (cases "find (\<lambda>b. worker_id tenant (bun_Name b) = i) (td_bundles td)")
    (auto simp: launch_tenant_def launch_bundles_workers [OF assms(2)] shut_down_map_of [OF assms(1)]
      promised_def option.map_comp split: option.split)

lemma distinct_launch_bundle:
  "distinct (map fst (workers s)) \<Longrightarrow> distinct (map fst (workers (launch_bundle env tenant td b s)))"
  by (auto simp: launch_bundle_def fail_def start_worker_def Let_def split: option.split prod.split)

lemma distinct_launch_tenant:
  assumes "distinct (map fst (workers s))"
  shows "distinct (map fst (workers (launch_tenant env tenant td s)))"
proof -
  have "distinct (map fst (shut_down act (workers s)))" for act
  proof -
    have "map fst (shut_down act (workers s)) = map fst (filter (\<lambda>(i, w). \<not> Done w) (workers s))"
      by (simp add: shut_down_def case_prod_beta')
    then show ?thesis using distinct_map_filter [OF assms] by metis
  qed
  moreover have "distinct (map fst (workers (fold (launch_bundle env tenant td) bs s)))"
    if "distinct (map fst (workers s))" for bs s
    using that by (induction bs arbitrary: s) (simp_all add: distinct_launch_bundle)
  ultimately show ?thesis by (simp add: launch_tenant_def)
qed

text \<open>The workers of a service have different identifiers, also after any number of passes.\<close>

lemma distinct_launchWorkers:
  "distinct (map fst (workers s)) \<Longrightarrow> distinct (map fst (workers (launchWorkers env ts s)))"
  by (induction env ts s rule: launchWorkers.induct) (simp_all add: distinct_launch_tenant)

text \<open>
  C8: A pass over one tenant does exactly what is promised for every identifier: a bundle with a
  live worker has it told of the new configuration, a bundle without one gets a worker unless its
  requirements conflict or its storage cannot be opened, a live worker of no bundle of the
  tenant is told to stop, and one that is done is forgotten; there is never more than one
  worker for a bundle.
\<close>

theorem launch_tenant_promised:
  assumes "distinct (map fst (workers s))" "distinct (map bun_Name (td_bundles td))"
  shows "map_of (workers (launch_tenant env tenant td s)) i = promised env tenant td (workers s) i \<and>
    distinct (map fst (workers (launch_tenant env tenant td s)))"
  using launch_tenant_workers [OF assms] distinct_launch_tenant [OF assms(1)] by blast

definition example_bundle :: "string \<Rightarrow> bundle_config" where
  "example_bundle name = zero_bundle\<lparr>bun_Name := name\<rparr>"

definition example_env :: "(unit, string) service_env" where
  "example_env = \<lparr>svc_opa = plain_opa, svc_disk = \<lambda>_. emptyFS, svc_builtinFS = emptyFS, svc_ref_string = concat,
     svc_md5sum = \<lambda>x. x, svc_persistenceDir = ''data'', svc_revision_refs = \<lambda>_. None,
     svc_new_storage = \<lambda>_. None, svc_storage = True, svc_singleShot = False\<rparr>"

definition example_tenant :: "string \<Rightarrow> string tenant_data" where
  "example_tenant name = \<lparr>td_bundles = [example_bundle name], td_sources = [], td_stacks = []\<rparr>"

lemma fresh_example: "\<exists>w. fresh_worker example_env tenant (example_tenant name) (example_bundle name) = Some w \<and> \<not> changed w"
  by (auto simp: fresh_worker_def example_env_def example_tenant_def getDeps_def Let_def new_worker_def worker_defs
      bundle_root_def AddRequirements_def NewSource_def example_bundle_def zero_bundle_def split: prod.split)

lemma launch_tenant_promised_witness:
  "\<exists>w. map_of (workers (launch_tenant example_env ''t1'' (example_tenant ''b'') New_service)) ''t1_b'' = Some w \<and>
    \<not> changed w"
proof -
  have "map_of (workers (launch_tenant example_env ''t1'' (example_tenant ''b'') New_service)) (worker_id ''t1'' ''b'') =
      promised example_env ''t1'' (example_tenant ''b'') (workers New_service) (worker_id ''t1'' ''b'')"
    by (rule launch_tenant_promised [THEN conjunct1]) (simp_all add: New_service_def example_tenant_def)
  also have "\<dots> = fresh_worker example_env ''t1'' (example_tenant ''b'') (example_bundle ''b'')"
    by (simp add: promised_def running_def New_service_def) (simp add: example_tenant_def example_bundle_def)
  finally show ?thesis using fresh_example [of "''t1''" "''b''"] by (simp add: worker_id_def)
qed

text \<open>
  The tenants are not kept apart. A pass over a second tenant tells every live worker of the
  first to stop, unless a bundle of the second has the same identifier, and forgets the failures
  of the first; and different tenants and bundles can share an identifier.
\<close>

theorem launchWorkers_interfere:
  assumes "distinct (map fst (workers s))" "distinct (map bun_Name (td_bundles td2))"
    and "map_of (workers (launchWorkers env [(t1, Inr td1), (t2, Inr td2)] s)) i = Some w"
    and "i \<notin> set (map (\<lambda>b. worker_id t2 (bun_Name b)) (td_bundles td2))"
  shows "changed w \<and>
    (td_bundles td2 = [] \<longrightarrow> failures (launchWorkers env [(t1, Inr td1), (t2, Inr td2)] s) = []) \<and>
    worker_id ''a'' ''b_c'' = worker_id ''a_b'' ''c''"
proof -
  let ?s1 = "launch_tenant env t1 td1 s"
  have "distinct (map fst (workers ?s1))" by (rule distinct_launch_tenant [OF assms(1)])
  from launch_tenant_workers [OF this assms(2), of env t2 i] assms(3) have
    "promised env t2 td2 (workers ?s1) i = Some w" by simp
  moreover have "find (\<lambda>b. worker_id t2 (bun_Name b) = i) (td_bundles td2) = None"
    using assms(4) by (rule iffD2 [OF find_None_ids])
  ultimately have "changed w"
    by (auto simp: promised_def UpdateConfig_def changeConfiguration_def split: option.splits)
  then show ?thesis by (simp add: launch_tenant_def worker_id_def)
qed

lemma launchWorkers_interfere_witness:
  "\<exists>w. map_of (workers (launchWorkers example_env
      [(''t1'', Inr (example_tenant ''b'')), (''t2'', Inr (example_tenant ''b''))] New_service)) ''t1_b'' = Some w \<and> changed w"
proof -
  let ?td = "example_tenant ''b''"
  let ?s1 = "launch_tenant example_env ''t1'' ?td New_service"
  have d: "distinct (map bun_Name (td_bundles ?td))" "distinct (map fst (workers (New_service :: string service)))"
    by (simp_all add: example_tenant_def New_service_def)
  obtain w1 where f: "fresh_worker example_env ''t1'' ?td (example_bundle ''b'') = Some w1"
    using fresh_example by blast
  have "\<not> Done w1"
    using f by (auto simp: fresh_worker_def Let_def new_worker_def worker_defs Done_def split: prod.splits if_splits)
  have "map_of (workers ?s1) (worker_id ''t1'' ''b'') = Some w1"
    using launch_tenant_workers [OF d(2,1), of example_env "''t1''"] f
    by (simp add: promised_def running_def New_service_def) (simp add: example_tenant_def example_bundle_def)
  then have "running (workers ?s1) ''t1_b'' = Some w1"
    using \<open>\<not> Done w1\<close> by (simp add: running_def worker_id_def)
  moreover have no: "''t1_b'' \<notin> set (map (\<lambda>b. worker_id ''t2'' (bun_Name b)) (td_bundles ?td))"
    by (simp add: example_tenant_def example_bundle_def worker_id_def)
  then have "find (\<lambda>b. worker_id ''t2'' (bun_Name b) = ''t1_b'') (td_bundles ?td) = None"
    by (rule iffD2 [OF find_None_ids])
  ultimately have "promised example_env ''t2'' ?td (workers ?s1) ''t1_b'' = Some (UpdateConfig None [] [] w1)"
    by (simp add: promised_def)
  then have "map_of (workers (launchWorkers example_env [(''t1'', Inr ?td), (''t2'', Inr ?td)] New_service)) ''t1_b'' =
      Some (UpdateConfig None [] [] w1)"
    by (simp only: launchWorkers.simps launch_tenant_workers [OF distinct_launch_tenant [OF d(2)] d(1)])
  from launchWorkers_interfere [OF d(2,1) this no] this show ?thesis by blast
qed

end
