(* ===== verification/Authz.thy ===== *)
theory Authz
  imports Paths Values
begin

text \<open>
  Authorization, from \<open>internal/authz/authz.go\<close> and \<open>pkg/authz/authz.go\<close>: the SQL expressions,
  their text with numbered placeholders, and the translation of the conditions that OPA leaves
  after partial evaluation into one SQL expression. The policy itself (\<open>authz.rego\<close>) is given
  its meaning on the tables as \<open>policy_allows\<close>.

  What OPA answers is a parameter. A value is null, a number, a text, or the text of a JSON
  value, given as that value. A database is the list of rows of each table; a row gives a
  value for each column. An SQL condition holds or it does not: nothing negates, so \<open>NULL\<close> and
  false need not be told apart.
\<close>

subsection \<open>Rows and tables\<close>

datatype val = VNull | VInt int | VStr string | VJson any

type_synonym row = "(string, val) fmap"
type_synonym db = "string \<Rightarrow> row list"

definition col :: "row \<Rightarrow> string \<Rightarrow> val" where
  "col r c = (case fmlookup r c of None \<Rightarrow> VNull | Some v \<Rightarrow> v)"

definition sql_eq :: "val \<Rightarrow> val \<Rightarrow> bool" where
  "sql_eq a b \<longleftrightarrow> a = b \<and> a \<noteq> VNull"

subsection \<open>Expressions and their text\<close>

datatype operand = Column string string | Str string

datatype expr =
    Eq operand operand
  | IsNotNull string string
  | And expr expr
  | Or expr expr
  | Exists "nat list" "string list" expr

fun operand_Tables :: "operand \<Rightarrow> string list" where
  "operand_Tables (Column t c) = [t]"
| "operand_Tables (Str s) = []"

fun Tables :: "expr \<Rightarrow> string list" where
  "Tables (Eq l r) = operand_Tables l @ operand_Tables r"
| "Tables (IsNotNull t c) = [t]"
| "Tables (And l r) = Tables l @ Tables r"
| "Tables (Or l r) = Tables l @ Tables r"
| "Tables (Exists sel from w) = from"

type_synonym arg_fn = "nat \<Rightarrow> string"

fun operand_SQL :: "operand \<Rightarrow> arg_fn \<Rightarrow> string list \<Rightarrow> string \<times> string list" where
  "operand_SQL (Column t c) fn args = (t @ ''.'' @ c, args)"
| "operand_SQL (Str s) fn args = (fn (length args), args @ [s])"

fun expr_SQL :: "expr \<Rightarrow> arg_fn \<Rightarrow> string list \<Rightarrow> string \<times> string list" where
  "expr_SQL (Eq l r) fn args =
     (let (lhs, args) = operand_SQL l fn args; (rhs, args) = operand_SQL r fn args in (lhs @ ''='' @ rhs, args))"
| "expr_SQL (IsNotNull t c) fn args = (t @ ''.'' @ c @ '' IS NOT NULL'', args)"
| "expr_SQL (And l r) fn args =
     (let (lhs, args) = expr_SQL l fn args; (rhs, args) = expr_SQL r fn args in (lhs @ '' AND '' @ rhs, args))"
| "expr_SQL (Or l r) fn args =
     (let (lhs, args) = expr_SQL l fn args; (rhs, args) = expr_SQL r fn args in (lhs @ '' OR '' @ rhs, args))"
| "expr_SQL (Exists sel from w) fn args =
     (let (conditions, args) = expr_SQL w fn args in
      (''EXISTS ('' @ ''SELECT '' @ strings_Join (map Itoa sel) '', '' @ '' FROM '' @ strings_Join from '', '' @
       '' WHERE '' @ conditions @ '')'', args))"

text \<open>The strings of an expression in the order of its text, and the text with the strings in place.\<close>

fun operand_strings :: "operand \<Rightarrow> string list" where
  "operand_strings (Column t c) = []"
| "operand_strings (Str s) = [s]"

fun strings :: "expr \<Rightarrow> string list" where
  "strings (Eq l r) = operand_strings l @ operand_strings r"
| "strings (IsNotNull t c) = []"
| "strings (And l r) = strings l @ strings r"
| "strings (Or l r) = strings l @ strings r"
| "strings (Exists sel from w) = strings w"

fun operand_inline :: "(string \<Rightarrow> string) \<Rightarrow> operand \<Rightarrow> string" where
  "operand_inline q (Column t c) = t @ ''.'' @ c"
| "operand_inline q (Str s) = q s"

fun inline :: "(string \<Rightarrow> string) \<Rightarrow> expr \<Rightarrow> string" where
  "inline q (Eq l r) = operand_inline q l @ ''='' @ operand_inline q r"
| "inline q (IsNotNull t c) = t @ ''.'' @ c @ '' IS NOT NULL''"
| "inline q (And l r) = inline q l @ '' AND '' @ inline q r"
| "inline q (Or l r) = inline q l @ '' OR '' @ inline q r"
| "inline q (Exists sel from w) = ''EXISTS ('' @ ''SELECT '' @ strings_Join (map Itoa sel) '', '' @ '' FROM '' @
     strings_Join from '', '' @ '' WHERE '' @ inline q w @ '')''"

lemma operand_SQL_args: "snd (operand_SQL e fn args) = args @ operand_strings e"
  by (cases e) simp_all

lemma expr_SQL_args: "snd (expr_SQL e fn args) = args @ strings e"
  by (induction e arbitrary: args) (simp_all add: case_prod_beta' Let_def operand_SQL_args)

lemma operand_SQL_text:
  assumes "\<And>i. i < length (operand_strings e) \<Longrightarrow> fn (length args + i) = q (operand_strings e ! i)"
  shows "fst (operand_SQL e fn args) = operand_inline q e"
  using assms [of 0] by (cases e) simp_all

lemma expr_SQL_text:
  assumes "\<And>i. i < length (strings e) \<Longrightarrow> fn (length args + i) = q (strings e ! i)"
  shows "fst (expr_SQL e fn args) = inline q e"
  using assms
proof (induction e arbitrary: args)
  case (Eq l r)
  have "fst (operand_SQL l fn args) = operand_inline q l"
    using Eq by (intro operand_SQL_text) (force simp: nth_append)
  moreover have "fst (operand_SQL r fn (args @ operand_strings l)) = operand_inline q r"
  proof (rule operand_SQL_text)
    fix i
    assume "i < length (operand_strings r)"
    then show "fn (length (args @ operand_strings l) + i) = q (operand_strings r ! i)"
      using Eq [of "length (operand_strings l) + i"] by (simp add: add.assoc)
  qed
  ultimately show ?case by (simp add: case_prod_beta' Let_def operand_SQL_args)
next
  case (And l r)
  have "fst (expr_SQL l fn args) = inline q l"
    using And.prems by (intro And.IH(1)) (force simp: nth_append)
  moreover have "fst (expr_SQL r fn (args @ strings l)) = inline q r"
  proof (rule And.IH(2))
    fix i
    assume "i < length (strings r)"
    then show "fn (length (args @ strings l) + i) = q (strings r ! i)"
      using And.prems [of "length (strings l) + i"] by (simp add: add.assoc)
  qed
  ultimately show ?case by (simp add: case_prod_beta' Let_def expr_SQL_args)
next
  case (Or l r)
  have "fst (expr_SQL l fn args) = inline q l"
    using Or.prems by (intro Or.IH(1)) (force simp: nth_append)
  moreover have "fst (expr_SQL r fn (args @ strings l)) = inline q r"
  proof (rule Or.IH(2))
    fix i
    assume "i < length (strings r)"
    then show "fn (length (args @ strings l) + i) = q (strings r ! i)"
      using Or.prems [of "length (strings l) + i"] by (simp add: add.assoc)
  qed
  ultimately show ?case by (simp add: case_prod_beta' Let_def expr_SQL_args)
next
  case (Exists sel tables w)
  have "fst (expr_SQL w fn args) = inline q w"
    using Exists.prems by (intro Exists.IH) simp
  then show ?case by (simp add: case_prod_beta' Let_def)
qed simp

text \<open>
  No value gets into the text of an expression: the values are appended to the arguments in
  the order of the text, and the placeholder of each is numbered with its own position, also when
  there are arguments before it; putting the values in the place of their placeholders gives the
  expression.
\<close>

theorem SQL_placeholders:
  "snd (expr_SQL e fn args) = args @ strings e \<and>
    fst (expr_SQL e (\<lambda>i. q (snd (expr_SQL e fn args) ! i)) args) = inline q e"
  by (simp add: expr_SQL_args expr_SQL_text)

subsection \<open>Meaning\<close>

text \<open>A condition is read where some tables stand for a row: those of the query it is part of.\<close>

type_synonym rows = "string \<rightharpoonup> row"

definition column_value :: "rows \<Rightarrow> string \<Rightarrow> string \<Rightarrow> val" where
  "column_value env t c = (case env t of None \<Rightarrow> VNull | Some r \<Rightarrow> col r c)"

fun operand_value :: "rows \<Rightarrow> operand \<Rightarrow> val" where
  "operand_value env (Column t c) = column_value env t c"
| "operand_value env (Str s) = VStr s"

fun some_rows :: "db \<Rightarrow> string list \<Rightarrow> rows \<Rightarrow> (rows \<Rightarrow> bool) \<Rightarrow> bool" where
  "some_rows db [] env P = P env"
| "some_rows db (t # ts) env P = list_ex (\<lambda>r. some_rows db ts (env(t \<mapsto> r)) P) (db t)"

fun holds :: "db \<Rightarrow> rows \<Rightarrow> expr \<Rightarrow> bool" where
  "holds db env (Eq l r) = sql_eq (operand_value env l) (operand_value env r)"
| "holds db env (IsNotNull t c) = (column_value env t c \<noteq> VNull)"
| "holds db env (And l r) = (holds db env l \<and> holds db env r)"
| "holds db env (Or l r) = (holds db env l \<or> holds db env r)"
| "holds db env (Exists sel from w) = some_rows db from env (\<lambda>env. holds db env w)"

lemma some_rows_iff:
  assumes "distinct ts"
  shows "some_rows db ts env P \<longleftrightarrow>
    (\<exists>env'. (\<forall>t. t \<notin> set ts \<longrightarrow> env' t = env t) \<and> (\<forall>t \<in> set ts. \<exists>r \<in> set (db t). env' t = Some r) \<and> P env')"
  using assms
proof (induction ts arbitrary: env)
  case Nil
  have "env' = env" if "\<forall>t. env' t = env t" for env'
    using that by blast
  then show ?case by auto
next
  case (Cons t ts)
  show ?case
  proof
    assume "some_rows db (t # ts) env P"
    then obtain r where r: "r \<in> set (db t)" "some_rows db ts (env(t \<mapsto> r)) P"
      by (auto simp: list_ex_iff)
    with Cons obtain env' where env': "\<forall>u. u \<notin> set ts \<longrightarrow> env' u = (env(t \<mapsto> r)) u"
      "\<forall>u \<in> set ts. \<exists>r \<in> set (db u). env' u = Some r" "P env'" by auto
    have "env' t = Some r" using env'(1) Cons.prems by simp
    with env' r(1) show "\<exists>env'. (\<forall>u. u \<notin> set (t # ts) \<longrightarrow> env' u = env u) \<and>
        (\<forall>u \<in> set (t # ts). \<exists>r \<in> set (db u). env' u = Some r) \<and> P env'"
      by (intro exI [of _ env']) auto
  next
    assume "\<exists>env'. (\<forall>u. u \<notin> set (t # ts) \<longrightarrow> env' u = env u) \<and>
        (\<forall>u \<in> set (t # ts). \<exists>r \<in> set (db u). env' u = Some r) \<and> P env'"
    then obtain env' r where env': "\<forall>u. u \<notin> set (t # ts) \<longrightarrow> env' u = env u"
      "\<forall>u \<in> set ts. \<exists>r \<in> set (db u). env' u = Some r" "P env'" and r: "r \<in> set (db t)" "env' t = Some r" by auto
    have "\<forall>u. u \<notin> set ts \<longrightarrow> env' u = (env(t \<mapsto> r)) u"
      using env'(1) r(2) by auto
    have "distinct ts" using Cons.prems by simp
    have "some_rows db ts (env(t \<mapsto> r)) P"
      unfolding Cons.IH [OF \<open>distinct ts\<close>]
      by (intro exI [of _ env'] conjI) (fact \<open>\<forall>u. u \<notin> set ts \<longrightarrow> env' u = (env(t \<mapsto> r)) u\<close>, fact env'(2), fact env'(3))
    with r(1) show "some_rows db (t # ts) env P" by (auto simp: list_ex_iff)
  qed
qed

subsection \<open>Translation of the remaining conditions\<close>

record access =
  acc_principal :: string
  acc_tenant :: string
  acc_resource :: string
  acc_permission :: string
  acc_name :: string

definition WithPrincipal :: "string \<Rightarrow> access \<Rightarrow> access" where "WithPrincipal p a = a\<lparr>acc_principal := p\<rparr>"
definition WithTenant :: "string \<Rightarrow> access \<Rightarrow> access" where "WithTenant t a = a\<lparr>acc_tenant := t\<rparr>"
definition WithResource :: "string \<Rightarrow> access \<Rightarrow> access" where "WithResource r a = a\<lparr>acc_resource := r\<rparr>"
definition WithPermission :: "string \<Rightarrow> access \<Rightarrow> access" where "WithPermission p a = a\<lparr>acc_permission := p\<rparr>"
definition WithName :: "string \<Rightarrow> access \<Rightarrow> access" where "WithName n a = a\<lparr>acc_name := n\<rparr>"

definition NewAccess :: access where
  "NewAccess = \<lparr>acc_principal = [], acc_tenant = [], acc_resource = [], acc_permission = [], acc_name = []\<rparr>"

text \<open>Terms and conditions of OPA, and the answer of partial evaluation: queries and support.\<close>

datatype rego_term = RRef string | RString string | RNull | ROther

record rego_expr =
  re_op :: string
  re_0 :: rego_term
  re_1 :: rego_term

record partial_queries =
  pq_Queries :: "rego_expr list list"
  pq_Support :: bool

datatype authz_error = PartialError string | Unsupported | TranslationError | NilWhere

type_synonym columnMapper = "string \<rightharpoonup> string \<times> string"

fun toSqlOp :: "columnMapper \<Rightarrow> rego_term \<Rightarrow> operand option" where
  "toSqlOp cm (RRef r) = map_option (\<lambda>(t, c). Column t c) (cm r)"
| "toSqlOp cm (RString s) = Some (Str s)"
| "toSqlOp cm _ = None"

fun trySqlExprIsNotNull :: "columnMapper \<Rightarrow> rego_term \<Rightarrow> rego_term \<Rightarrow> expr option" where
  "trySqlExprIsNotNull cm (RRef r) RNull = map_option (\<lambda>(t, c). IsNotNull t c) (cm r)"
| "trySqlExprIsNotNull cm _ _ = None"

definition where_And :: "expr option \<Rightarrow> expr \<Rightarrow> expr option" where
  "where_And w e = Some (case w of None \<Rightarrow> e | Some x \<Rightarrow> And x e)"

definition where_Or :: "expr option \<Rightarrow> expr \<Rightarrow> expr option" where
  "where_Or w e = Some (case w of None \<Rightarrow> e | Some x \<Rightarrow> Or x e)"

definition translate_expr :: "columnMapper \<Rightarrow> rego_expr \<Rightarrow> authz_error + expr" where
  "translate_expr cm x =
     (if re_op x = ''eq'' then
        (case (toSqlOp cm (re_0 x), toSqlOp cm (re_1 x)) of
           (Some l, Some r) \<Rightarrow> Inr (Eq l r)
         | _ \<Rightarrow> Inl TranslationError)
      else if re_op x = ''neq'' then
        (case trySqlExprIsNotNull cm (re_0 x) (re_1 x) of
           Some e \<Rightarrow> Inr e
         | None \<Rightarrow> (case trySqlExprIsNotNull cm (re_1 x) (re_0 x) of
             Some e \<Rightarrow> Inr e
           | None \<Rightarrow> Inl TranslationError))
      else Inl TranslationError)"

definition translate_query :: "columnMapper \<Rightarrow> string \<Rightarrow> rego_expr list \<Rightarrow> authz_error + expr" where
  "translate_query cm res b =
     result_bind (fold_result (\<lambda>x w. result_bind (translate_expr cm x) (\<lambda>e. Inr (where_And w e))) b None) (\<lambda>w.
       case w of
         None \<Rightarrow> Inl NilWhere
       | Some x \<Rightarrow> Inr (Exists [1] (sorted_list_of_set (set (Tables x) - {res})) x))"

definition partial ::
    "(access \<Rightarrow> string list \<Rightarrow> string + partial_queries) \<Rightarrow> columnMapper \<Rightarrow> access \<Rightarrow> (string \<times> string \<times> string) list \<Rightarrow>
     authz_error + expr option" where
  "partial opa defaults a extra =
     (case opa a (map fst extra) of
        Inl err \<Rightarrow> Inl (PartialError err)
      | Inr pqs \<Rightarrow>
          if pq_Support pqs then Inl Unsupported
          else (let cm = defaults ++ map_of extra in
            fold_result (\<lambda>b w. result_bind (translate_query cm (acc_resource a) b) (\<lambda>e. Inr (where_Or w e)))
              (pq_Queries pqs) None))"

text \<open>\<open>Check\<close>: an error denies; a nil expression, from no query at all, would be a nil dereference.\<close>

definition Check ::
    "(access \<Rightarrow> string list \<Rightarrow> string + partial_queries) \<Rightarrow> columnMapper \<Rightarrow> db \<Rightarrow> access \<Rightarrow> bool" where
  "Check opa defaults db a =
     (case partial opa defaults a [] of
        Inr (Some e) \<Rightarrow> holds db Map.empty e
      | _ \<Rightarrow> False)"

text \<open>
  What a query of OPA says of the tables: the references to one table are to one row of it, and
  for the table of the resource that is the row at hand.
\<close>

fun term_value :: "columnMapper \<Rightarrow> rows \<Rightarrow> rego_term \<Rightarrow> val" where
  "term_value cm env (RRef r) = (case cm r of None \<Rightarrow> VNull | Some (t, c) \<Rightarrow> column_value env t c)"
| "term_value cm env (RString s) = VStr s"
| "term_value cm env _ = VNull"

definition rego_holds :: "columnMapper \<Rightarrow> rows \<Rightarrow> rego_expr \<Rightarrow> bool" where
  "rego_holds cm env x =
     (if re_op x = ''eq'' then sql_eq (term_value cm env (re_0 x)) (term_value cm env (re_1 x))
      else if re_1 x = RNull then term_value cm env (re_0 x) \<noteq> VNull
      else term_value cm env (re_1 x) \<noteq> VNull)"

fun term_tables :: "columnMapper \<Rightarrow> rego_term \<Rightarrow> string set" where
  "term_tables cm (RRef r) = (case cm r of None \<Rightarrow> {} | Some (t, c) \<Rightarrow> {t})"
| "term_tables cm _ = {}"

definition query_tables :: "columnMapper \<Rightarrow> rego_expr list \<Rightarrow> string set" where
  "query_tables cm b = (\<Union>x \<in> set b. term_tables cm (re_0 x) \<union> term_tables cm (re_1 x))"

definition query_holds :: "columnMapper \<Rightarrow> db \<Rightarrow> rows \<Rightarrow> string \<Rightarrow> rego_expr list \<Rightarrow> bool" where
  "query_holds cm db env res b \<longleftrightarrow>
     (\<exists>env'. (\<forall>t. t \<notin> query_tables cm b - {res} \<longrightarrow> env' t = env t) \<and>
        (\<forall>t \<in> query_tables cm b - {res}. \<exists>r \<in> set (db t). env' t = Some r) \<and>
        (\<forall>x \<in> set b. rego_holds cm env' x))"

lemma toSqlOp_value: "toSqlOp cm t = Some e \<Longrightarrow> operand_value env e = term_value cm env t"
  by (cases t) auto

lemma toSqlOp_tables: "toSqlOp cm t = Some e \<Longrightarrow> set (operand_Tables e) = term_tables cm t"
  by (cases t) auto

lemma trySql_value: "trySqlExprIsNotNull cm a b = Some e \<Longrightarrow>
    b = RNull \<and> holds db env e = (term_value cm env a \<noteq> VNull) \<and> set (Tables e) = term_tables cm a"
  by (cases "(cm, a, b)" rule: trySqlExprIsNotNull.cases) auto

lemma translate_expr_correct:
  assumes "translate_expr cm x = Inr e"
  shows "holds db env e = rego_holds cm env x \<and> set (Tables e) = term_tables cm (re_0 x) \<union> term_tables cm (re_1 x)"
proof (cases "re_op x = ''eq''")
  case True
  with assms show ?thesis
    by (auto simp: translate_expr_def rego_holds_def toSqlOp_value toSqlOp_tables split: option.splits)
next
  case False
  show ?thesis
  proof (cases "trySqlExprIsNotNull cm (re_0 x) (re_1 x)")
    case (Some e')
    with assms False have "e' = e" by (auto simp: translate_expr_def split: if_splits)
    with trySql_value [OF Some, of db env] False show ?thesis by (auto simp: rego_holds_def)
  next
    case None
    with assms False have s: "trySqlExprIsNotNull cm (re_1 x) (re_0 x) = Some e"
      by (auto simp: translate_expr_def split: if_splits option.splits)
    then have "re_1 x \<noteq> RNull"
      by (cases "re_1 x") auto
    with trySql_value [OF s, of db env] False show ?thesis by (auto simp: rego_holds_def)
  qed
qed

lemma translate_conjunction:
  assumes "fold_result (\<lambda>x w. result_bind (translate_expr cm x) (\<lambda>e. Inr (where_And w e))) b w = Inr (Some e)"
  shows "holds db env e = ((\<forall>x. w = Some x \<longrightarrow> holds db env x) \<and> (\<forall>x \<in> set b. rego_holds cm env x)) \<and>
    set (Tables e) = (case w of None \<Rightarrow> {} | Some x \<Rightarrow> set (Tables x)) \<union> query_tables cm b"
  using assms
proof (induction b arbitrary: w)
  case Nil
  then show ?case by (simp add: query_tables_def)
next
  case (Cons x b)
  then obtain e1 where e1: "translate_expr cm x = Inr e1"
    and rest: "fold_result (\<lambda>x w. result_bind (translate_expr cm x) (\<lambda>e. Inr (where_And w e))) b (where_And w e1) = Inr (Some e)"
    by (auto simp: result_bind_Inr_iff)
  from Cons.IH [OF rest] translate_expr_correct [OF e1, of db env] show ?case
    by (cases w) (auto simp: where_And_def query_tables_def)
qed

lemma translate_query_correct:
  assumes "translate_query cm res b = Inr e"
  shows "holds db env e = query_holds cm db env res b"
proof -
  from assms obtain x where
    x: "fold_result (\<lambda>x w. result_bind (translate_expr cm x) (\<lambda>e. Inr (where_And w e))) b None = Inr (Some x)"
    and e: "e = Exists [1] (sorted_list_of_set (set (Tables x) - {res})) x"
    by (auto simp: translate_query_def result_bind_Inr_iff split: option.splits)
  note t = translate_conjunction [OF x, simplified]
  then have "finite (query_tables cm b - {res})"
    by (metis List.finite_set finite_Diff)
  with t show ?thesis
    by (simp add: e some_rows_iff query_holds_def)
qed

lemma translate_disjunction:
  assumes "fold_result (\<lambda>b w. result_bind (translate_query cm res b) (\<lambda>e. Inr (where_Or w e))) bs w = Inr w'"
  shows "(\<exists>e. w' = Some e \<and> holds db env e) \<longleftrightarrow>
    (\<exists>e. w = Some e \<and> holds db env e) \<or> (\<exists>b \<in> set bs. query_holds cm db env res b)"
  using assms
proof (induction bs arbitrary: w)
  case (Cons b bs)
  then obtain e1 where e1: "translate_query cm res b = Inr e1"
    and rest: "fold_result (\<lambda>b w. result_bind (translate_query cm res b) (\<lambda>e. Inr (where_Or w e))) bs (where_Or w e1) = Inr w'"
    by (auto simp: result_bind_Inr_iff)
  from Cons.IH [OF rest] translate_query_correct [OF e1, of db env] show ?case
    by (cases w) (auto simp: where_Or_def)
qed simp

text \<open>
  C11: The SQL expression that \<open>Partial\<close> returns holds of a row exactly when one of the queries
  that OPA leaves holds of it: some rows of the other tables, one for each table, satisfy all its
  conditions, with the columns of the resource read from the row itself.
\<close>

theorem partial_correct:
  assumes "opa a (map fst extra) = Inr pqs" and "partial opa defaults a extra = Inr w"
  shows "(\<exists>e. w = Some e \<and> holds db env e) \<longleftrightarrow>
    (\<exists>b \<in> set (pq_Queries pqs). query_holds (defaults ++ map_of extra) db env (acc_resource a) b)"
  using assms translate_disjunction [of "defaults ++ map_of extra" "acc_resource a" "pq_Queries pqs" None w db env]
  by (simp add: partial_def Let_def split: if_splits)

subsection \<open>The policy\<close>

text \<open>
  \<open>authz.rego\<close>: a row of the principals, of the resource permissions and of the tenants that
  together satisfy one of the rules.
\<close>

definition viewer_permissions :: "string list" where
  "viewer_permissions = [''bundles.view'', ''sources.view'', ''secrets.view'', ''stacks.view'', ''tokens.view'',
     ''sources.data.read'']"

definition owner_permissions :: "string list" where
  "owner_permissions = [''bundles.create'', ''sources.create'', ''secrets.create'']"

definition in_tenant :: "access \<Rightarrow> row \<Rightarrow> val \<Rightarrow> bool" where
  "in_tenant a tenant_row tenant_id \<longleftrightarrow>
     sql_eq (col tenant_row ''name'') (VStr (acc_tenant a)) \<and> sql_eq tenant_id (col tenant_row ''id'')"

definition principal_rule :: "access \<Rightarrow> row \<Rightarrow> row \<Rightarrow> bool" where
  "principal_rule a p t \<longleftrightarrow> sql_eq (col p ''id'') (VStr (acc_principal a)) \<and> in_tenant a t (col p ''tenant_id'') \<and>
     (sql_eq (col p ''role'') (VStr ''administrator'') \<or>
      sql_eq (col p ''role'') (VStr ''viewer'') \<and> acc_permission a \<in> set viewer_permissions \<or>
      sql_eq (col p ''role'') (VStr ''owner'') \<and> acc_permission a \<in> set owner_permissions \<or>
      sql_eq (col p ''role'') (VStr ''stack_owner'') \<and> acc_permission a = ''stacks.create'')"

definition permission_rule :: "access \<Rightarrow> row \<Rightarrow> row \<Rightarrow> bool" where
  "permission_rule a rp t \<longleftrightarrow> sql_eq (col rp ''name'') (VStr (acc_name a)) \<and> sql_eq (col rp ''resource'') (VStr (acc_resource a)) \<and>
     sql_eq (col rp ''principal_id'') (VStr (acc_principal a)) \<and> in_tenant a t (col rp ''tenant_id'') \<and>
     (sql_eq (col rp ''role'') (VStr ''owner'') \<or> sql_eq (col rp ''permission'') (VStr (acc_permission a)))"

definition policy_allows :: "db \<Rightarrow> access \<Rightarrow> bool" where
  "policy_allows db a \<longleftrightarrow>
     list_ex (\<lambda>t. list_ex (\<lambda>p. principal_rule a p t) (db ''principals'') \<or>
       list_ex (\<lambda>rp. permission_rule a rp t) (db ''resource_permissions'')) (db ''tenants'')"

text \<open>A viewer without a permission on the named resource gets only what viewers may do.\<close>

lemma policy_restricted:
  assumes "policy_allows db a"
    and "\<forall>p \<in> set (db ''principals''). col p ''id'' = VStr (acc_principal a) \<longrightarrow> col p ''role'' = VStr ''viewer''"
    and "\<forall>rp \<in> set (db ''resource_permissions''). col rp ''principal_id'' = VStr (acc_principal a) \<longrightarrow>
      col rp ''name'' \<noteq> VStr (acc_name a)"
  shows "acc_permission a \<in> set viewer_permissions"
proof -
  from assms(1) obtain t where "(\<exists>p \<in> set (db ''principals''). principal_rule a p t) \<or>
      (\<exists>rp \<in> set (db ''resource_permissions''). permission_rule a rp t)"
    by (auto simp: policy_allows_def list_ex_iff)
  then show ?thesis
  proof
    assume "\<exists>p \<in> set (db ''principals''). principal_rule a p t"
    with assms(2) show ?thesis by (auto simp: principal_rule_def sql_eq_def)
  next
    assume "\<exists>rp \<in> set (db ''resource_permissions''). permission_rule a rp t"
    with assms(3) show ?thesis by (auto simp: permission_rule_def sql_eq_def)
  qed
qed

text \<open>
  C25: The policy keeps tenants apart and roles to their permissions: an access is allowed only to
  a principal that has a row, itself or as the holder of a permission on the named resource, in
  the tenant of the access; a viewer without resource permissions gets only the permissions to
  view and to read.
\<close>

theorem policy_sound:
  assumes "policy_allows db a"
  shows "(\<exists>t \<in> set (db ''tenants''). col t ''name'' = VStr (acc_tenant a) \<and>
      ((\<exists>p \<in> set (db ''principals''). col p ''id'' = VStr (acc_principal a) \<and> col p ''tenant_id'' = col t ''id'') \<or>
       (\<exists>rp \<in> set (db ''resource_permissions''). col rp ''principal_id'' = VStr (acc_principal a) \<and>
          col rp ''name'' = VStr (acc_name a) \<and> col rp ''resource'' = VStr (acc_resource a) \<and> col rp ''tenant_id'' = col t ''id''))) \<and>
    ((\<forall>p \<in> set (db ''principals''). col p ''id'' = VStr (acc_principal a) \<longrightarrow> col p ''role'' = VStr ''viewer'') \<longrightarrow>
     (\<forall>rp \<in> set (db ''resource_permissions''). col rp ''principal_id'' \<noteq> VStr (acc_principal a)) \<longrightarrow>
     acc_permission a \<in> set viewer_permissions)"
proof -
  from assms obtain t where t: "t \<in> set (db ''tenants'')"
    and or: "(\<exists>p \<in> set (db ''principals''). principal_rule a p t) \<or>
      (\<exists>rp \<in> set (db ''resource_permissions''). permission_rule a rp t)"
    by (auto simp: policy_allows_def list_ex_iff)
  have "col t ''name'' = VStr (acc_tenant a)"
    using or by (auto simp: principal_rule_def permission_rule_def in_tenant_def sql_eq_def)
  with t or show ?thesis
    by (fastforce simp: principal_rule_def permission_rule_def in_tenant_def sql_eq_def)
qed

definition example_db :: db where
  "example_db t =
     (if t = ''tenants'' then [fmap_of_list [(''id'', VInt 1), (''name'', VStr ''t1'')],
        fmap_of_list [(''id'', VInt 2), (''name'', VStr ''t2'')]]
      else if t = ''principals'' then [fmap_of_list [(''id'', VStr ''ann''), (''role'', VStr ''viewer''), (''tenant_id'', VInt 1)]]
      else [])"

definition example_access :: "string \<Rightarrow> access" where
  "example_access perm = WithPermission perm (WithResource ''bundles'' (WithTenant ''t1'' (WithPrincipal ''ann'' NewAccess)))"

lemmas access_defs = WithPermission_def WithResource_def WithTenant_def WithPrincipal_def WithName_def NewAccess_def

lemma policy_sound_witness:
  "policy_allows example_db (example_access ''bundles.view'') \<and> ''bundles.view'' \<in> set viewer_permissions"
proof
  show p: "policy_allows example_db (example_access ''bundles.view'')"
    by (simp add: policy_allows_def example_db_def example_access_def access_defs principal_rule_def in_tenant_def
        sql_eq_def col_def fmap_of_list.rep_eq viewer_permissions_def)
  have "acc_permission (example_access ''bundles.view'') \<in> set viewer_permissions"
    using policy_sound [OF p]
    by (simp add: example_db_def example_access_def access_defs col_def fmap_of_list.rep_eq)
  then show "''bundles.view'' \<in> set viewer_permissions"
    by (simp add: example_access_def access_defs)
qed

text \<open>A partial evaluation of the policy for a viewer: the query that is left for the tables.\<close>

definition example_query :: "access \<Rightarrow> rego_expr list" where
  "example_query a = [\<lparr>re_op = ''eq'', re_0 = RRef ''data.principals.id'', re_1 = RString (acc_principal a)\<rparr>,
     \<lparr>re_op = ''eq'', re_0 = RRef ''data.tenants.name'', re_1 = RString (acc_tenant a)\<rparr>,
     \<lparr>re_op = ''eq'', re_0 = RRef ''data.principals.tenant_id'', re_1 = RRef ''data.tenants.id''\<rparr>]"

definition example_columns :: columnMapper where
  "example_columns = map_of [(''data.principals.id'', (''principals'', ''id'')),
     (''data.tenants.name'', (''tenants'', ''name'')), (''data.principals.tenant_id'', (''principals'', ''tenant_id'')),
     (''data.tenants.id'', (''tenants'', ''id''))]"

lemma partial_correct_witness:
  "\<exists>e. partial (\<lambda>a _. Inr \<lparr>pq_Queries = [example_query a], pq_Support = False\<rparr>) example_columns
      (example_access ''bundles.view'') [] = Inr (Some e) \<and>
    (holds example_db Map.empty e \<longleftrightarrow>
      query_holds example_columns example_db Map.empty ''bundles'' (example_query (example_access ''bundles.view'')))"
proof -
  let ?opa = "\<lambda>a (_ :: string list). Inr \<lparr>pq_Queries = [example_query a], pq_Support = False\<rparr> :: string + partial_queries"
  have "\<exists>e. partial ?opa example_columns (example_access ''bundles.view'') [] = Inr (Some e)"
    by (simp add: partial_def Let_def translate_query_def example_query_def example_columns_def translate_expr_def
        where_And_def where_Or_def)
  then obtain e where e: "partial ?opa example_columns (example_access ''bundles.view'') [] = Inr (Some e)" by blast
  from partial_correct [where opa = ?opa and extra = "[]" and db = example_db and env = Map.empty, OF _ e]
  show ?thesis using e by (simp add: example_access_def access_defs)
qed

end
