(* ===== verification/Schema.thy ===== *)
theory Schema
  imports Authz
begin

text \<open>
  The database schema, from \<open>internal/migrations/migrations_v0.2.0.go\<close> and
  \<open>migrations_next.go\<close>: the table builder, the two generations of tables, the text of their
  statements, and the copy of the rows of the first generation into the second. The meaning of
  a table is the set of databases that satisfy its constraints; the meaning of a copy is the
  list of rows its \<open>SELECT\<close> yields.
\<close>

subsection \<open>Tables\<close>

datatype kind = Sqlite | Postgres | Mysql | Cockroachdb

datatype sqlDataType = SqlInteger | SqlText | SqlBlob | SqlTimestamp | SqlVarChar

record sqlColumn =
  col_Name :: string
  col_Type :: sqlDataType
  col_AutoIncrementPrimaryKey :: bool
  col_PrimaryKey :: bool
  col_Unique :: bool
  col_NotNull :: bool
  col_Default :: string

record sqlForeignKey =
  fk_Column :: string
  fk_References :: string
  fk_OnDeleteCascade :: bool

record sqlTable =
  tbl_name :: string
  tbl_columns :: "sqlColumn list"
  tbl_primaryKeyColumns :: "string list"
  tbl_foreignKeys :: "sqlForeignKey list"
  tbl_unique :: "string list list"
  tbl_iteration :: string

definition createSQLTable :: "string \<Rightarrow> sqlTable" where
  "createSQLTable n = \<lparr>tbl_name = n, tbl_columns = [], tbl_primaryKeyColumns = [], tbl_foreignKeys = [],
     tbl_unique = [], tbl_iteration = ''ocp_v1''\<rparr>"

definition WithColumn :: "sqlColumn \<Rightarrow> sqlTable \<Rightarrow> sqlTable" where
  "WithColumn c t = t\<lparr>tbl_columns := tbl_columns t @ [c]\<rparr>"

definition WithIteration :: "string \<Rightarrow> sqlTable \<Rightarrow> sqlTable" where
  "WithIteration s t = t\<lparr>tbl_iteration := s\<rparr>"

text \<open>A column with the zero value of every field that is not given.\<close>

definition plain_column :: "string \<Rightarrow> sqlDataType \<Rightarrow> sqlColumn" where
  "plain_column n ty = \<lparr>col_Name = n, col_Type = ty, col_AutoIncrementPrimaryKey = False, col_PrimaryKey = False,
     col_Unique = False, col_NotNull = False, col_Default = []\<rparr>"

definition IntegerPrimaryKeyAutoincrementColumn :: "string \<Rightarrow> sqlTable \<Rightarrow> sqlTable" where
  "IntegerPrimaryKeyAutoincrementColumn n = WithColumn ((plain_column n SqlInteger)\<lparr>col_AutoIncrementPrimaryKey := True\<rparr>)"

definition IntegerNonNullColumn :: "string \<Rightarrow> sqlTable \<Rightarrow> sqlTable" where
  "IntegerNonNullColumn n = WithColumn ((plain_column n SqlInteger)\<lparr>col_NotNull := True\<rparr>)"

definition IntegerColumn :: "string \<Rightarrow> sqlTable \<Rightarrow> sqlTable" where
  "IntegerColumn n = WithColumn (plain_column n SqlInteger)"

definition TextNonNullUniqueColumn :: "string \<Rightarrow> sqlTable \<Rightarrow> sqlTable" where
  "TextNonNullUniqueColumn n = WithColumn ((plain_column n SqlText)\<lparr>col_NotNull := True, col_Unique := True\<rparr>)"

definition VarCharNonNullUniqueColumn :: "string \<Rightarrow> sqlTable \<Rightarrow> sqlTable" where
  "VarCharNonNullUniqueColumn n = WithColumn ((plain_column n SqlVarChar)\<lparr>col_NotNull := True, col_Unique := True\<rparr>)"

definition VarCharColumn :: "string \<Rightarrow> sqlTable \<Rightarrow> sqlTable" where
  "VarCharColumn n = WithColumn (plain_column n SqlVarChar)"

definition TextColumn :: "string \<Rightarrow> sqlTable \<Rightarrow> sqlTable" where
  "TextColumn n = WithColumn (plain_column n SqlText)"

definition TextPrimaryKeyColumn :: "string \<Rightarrow> sqlTable \<Rightarrow> sqlTable" where
  "TextPrimaryKeyColumn n = WithColumn ((plain_column n SqlText)\<lparr>col_PrimaryKey := True\<rparr>)"

definition VarCharPrimaryKeyColumn :: "string \<Rightarrow> sqlTable \<Rightarrow> sqlTable" where
  "VarCharPrimaryKeyColumn n = WithColumn ((plain_column n SqlVarChar)\<lparr>col_PrimaryKey := True\<rparr>)"

definition TextNonNullColumn :: "string \<Rightarrow> sqlTable \<Rightarrow> sqlTable" where
  "TextNonNullColumn n = WithColumn ((plain_column n SqlText)\<lparr>col_NotNull := True\<rparr>)"

definition VarCharNonNullColumn :: "string \<Rightarrow> sqlTable \<Rightarrow> sqlTable" where
  "VarCharNonNullColumn n = WithColumn ((plain_column n SqlVarChar)\<lparr>col_NotNull := True\<rparr>)"

definition BlobNonNullColumn :: "string \<Rightarrow> sqlTable \<Rightarrow> sqlTable" where
  "BlobNonNullColumn n = WithColumn ((plain_column n SqlBlob)\<lparr>col_NotNull := True\<rparr>)"

definition TimestampDefaultCurrentTimeColumn :: "string \<Rightarrow> sqlTable \<Rightarrow> sqlTable" where
  "TimestampDefaultCurrentTimeColumn n = WithColumn ((plain_column n SqlTimestamp)\<lparr>col_Default := ''CURRENT_TIMESTAMP''\<rparr>)"

definition PrimaryKey :: "string list \<Rightarrow> sqlTable \<Rightarrow> sqlTable" where
  "PrimaryKey cs t = t\<lparr>tbl_primaryKeyColumns := cs\<rparr>"

definition ForeignKey :: "string \<Rightarrow> string \<Rightarrow> sqlTable \<Rightarrow> sqlTable" where
  "ForeignKey c refs t = t\<lparr>tbl_foreignKeys := tbl_foreignKeys t @
     [\<lparr>fk_Column = c, fk_References = refs, fk_OnDeleteCascade = False\<rparr>]\<rparr>"

definition ForeignKeyOnDeleteCascade :: "string \<Rightarrow> string \<Rightarrow> sqlTable \<Rightarrow> sqlTable" where
  "ForeignKeyOnDeleteCascade c refs t = t\<lparr>tbl_foreignKeys := tbl_foreignKeys t @
     [\<lparr>fk_Column = c, fk_References = refs, fk_OnDeleteCascade = True\<rparr>]\<rparr>"

definition UniqueColumns :: "string list \<Rightarrow> sqlTable \<Rightarrow> sqlTable" where
  "UniqueColumns cs t = t\<lparr>tbl_unique := tbl_unique t @ [cs]\<rparr>"

text \<open>The chain of builder calls that starts with \<open>createSQLTable\<close>.\<close>

definition table :: "string \<Rightarrow> (sqlTable \<Rightarrow> sqlTable) list \<Rightarrow> sqlTable" where
  "table n calls = fold (\<lambda>f t. f t) calls (createSQLTable n)"

lemmas builder_defs = table_def createSQLTable_def WithColumn_def WithIteration_def plain_column_def
  IntegerPrimaryKeyAutoincrementColumn_def IntegerNonNullColumn_def IntegerColumn_def
  TextNonNullUniqueColumn_def VarCharNonNullUniqueColumn_def VarCharColumn_def TextColumn_def
  TextPrimaryKeyColumn_def VarCharPrimaryKeyColumn_def TextNonNullColumn_def VarCharNonNullColumn_def
  BlobNonNullColumn_def TimestampDefaultCurrentTimeColumn_def PrimaryKey_def ForeignKey_def
  ForeignKeyOnDeleteCascade_def UniqueColumns_def

subsection \<open>The text of a table\<close>

fun sqlDataType_SQL :: "sqlDataType \<Rightarrow> kind \<Rightarrow> string" where
  "sqlDataType_SQL SqlInteger Mysql = ''INT''"
| "sqlDataType_SQL SqlInteger _ = ''INTEGER''"
| "sqlDataType_SQL SqlText _ = ''TEXT''"
| "sqlDataType_SQL SqlBlob Postgres = ''BYTEA''"
| "sqlDataType_SQL SqlBlob Cockroachdb = ''BYTEA''"
| "sqlDataType_SQL SqlBlob _ = ''BLOB''"
| "sqlDataType_SQL SqlTimestamp _ = ''TIMESTAMP''"
| "sqlDataType_SQL SqlVarChar Sqlite = ''TEXT''"
| "sqlDataType_SQL SqlVarChar _ = ''VARCHAR(255)''"

definition sqlColumn_SQL :: "sqlColumn \<Rightarrow> kind \<Rightarrow> string" where
  "sqlColumn_SQL c k = strings_Join
     (if col_AutoIncrementPrimaryKey c then
        (case k of
           Sqlite \<Rightarrow> [col_Name c, sqlDataType_SQL SqlInteger k]
         | Postgres \<Rightarrow> [col_Name c, ''SERIAL'']
         | Cockroachdb \<Rightarrow> [col_Name c, ''SERIAL'']
         | Mysql \<Rightarrow> [col_Name c, sqlDataType_SQL SqlInteger k, ''AUTO_INCREMENT''])
      else [col_Name c, sqlDataType_SQL (col_Type c) k] @ (if col_NotNull c then [''NOT NULL''] else []) @
        (if col_Default c \<noteq> [] then [''DEFAULT'', col_Default c] else [])) '' ''"

text \<open>A reference \<open>table(column)\<close>: the part before the parenthesis and the part inside.\<close>

definition ref_table :: "string \<Rightarrow> string" where
  "ref_table r = takeWhile (\<lambda>c. c \<noteq> CHR ''('') r"

definition ref_column :: "string \<Rightarrow> string" where
  "ref_column r = butlast (drop (length (ref_table r) + 1) r)"

definition column_constraints :: "sqlTable \<Rightarrow> sqlColumn \<Rightarrow> string list" where
  "column_constraints t c =
     (if col_AutoIncrementPrimaryKey c \<or> col_PrimaryKey c
      then [''CONSTRAINT '' @ tbl_iteration t @ ''_'' @ tbl_name t @ ''_'' @ col_Name c @ ''_pkey PRIMARY KEY ('' @ col_Name c @ '')'']
      else []) @
     (if col_Unique c
      then [''CONSTRAINT '' @ tbl_iteration t @ ''_'' @ tbl_name t @ ''_'' @ col_Name c @ ''_unique UNIQUE ('' @ col_Name c @ '')'']
      else [])"

definition foreign_constraint :: "sqlTable \<Rightarrow> sqlForeignKey \<Rightarrow> string" where
  "foreign_constraint t fk = ''CONSTRAINT '' @ tbl_iteration t @ ''_'' @ tbl_name t @ ''_'' @ fk_Column fk @ ''_'' @
     ref_table (fk_References fk) @ ''_'' @ ref_column (fk_References fk) @ ''_fkey FOREIGN KEY ('' @ fk_Column fk @
     '') REFERENCES '' @ fk_References fk @ (if fk_OnDeleteCascade fk then '' ON DELETE CASCADE'' else [])"

definition sqlTable_SQL :: "sqlTable \<Rightarrow> kind \<Rightarrow> string" where
  "sqlTable_SQL t k =
     (let c = map (\<lambda>col. sqlColumn_SQL col k) (tbl_columns t) @
        concat (map (column_constraints t) (tbl_columns t)) @
        (if tbl_primaryKeyColumns t \<noteq> []
         then [''CONSTRAINT '' @ tbl_iteration t @ ''_'' @ tbl_name t @ ''_'' @ strings_Join (tbl_primaryKeyColumns t) ''_'' @
           ''_pkey PRIMARY KEY ('' @ strings_Join (tbl_primaryKeyColumns t) '', '' @ '')'']
         else []) @
        map (foreign_constraint t) (tbl_foreignKeys t) @
        map (\<lambda>cs. ''CONSTRAINT '' @ tbl_iteration t @ ''_'' @ tbl_name t @ ''_'' @ strings_Join cs ''_'' @
          ''_unique UNIQUE ('' @ strings_Join cs '', '' @ '')'') (tbl_unique t)
      in ''CREATE TABLE IF NOT EXISTS '' @ tbl_name t @ '' ('' @ strings_Join c '', '' @ '');'')"

subsection \<open>The tables\<close>

definition schema :: "sqlTable list" where
  "schema =
    [table ''bundles''
      [IntegerPrimaryKeyAutoincrementColumn ''id'', VarCharNonNullUniqueColumn ''name'',
       TextColumn ''labels'', TextColumn ''s3url'', TextColumn ''s3region'', TextColumn ''s3bucket'',
       TextColumn ''s3key'', TextColumn ''gcp_project'', TextColumn ''gcp_object'',
       TextColumn ''azure_account_url'', TextColumn ''azure_container'', TextColumn ''azure_path'',
       TextColumn ''filepath'', TextColumn ''excluded''],
     table ''sources''
      [IntegerPrimaryKeyAutoincrementColumn ''id'', VarCharNonNullUniqueColumn ''name'',
       TextColumn ''builtin'', TextNonNullColumn ''repo'', TextColumn ''ref'', TextColumn ''gitcommit'',
       TextColumn ''path'', TextColumn ''git_included_files'', TextColumn ''git_excluded_files''],
     table ''stacks''
      [IntegerPrimaryKeyAutoincrementColumn ''id'', VarCharNonNullUniqueColumn ''name'',
       TextNonNullColumn ''selector'', TextColumn ''exclude_selector''],
     table ''secrets''
      [IntegerPrimaryKeyAutoincrementColumn ''id'', VarCharNonNullUniqueColumn ''name'',
       TextColumn ''value''],
     table ''tokens''
      [VarCharPrimaryKeyColumn ''name'', TextNonNullColumn ''api_key''],
     table ''bundles_secrets''
      [VarCharNonNullColumn ''bundle_name'', VarCharNonNullColumn ''secret_name'',
       TextNonNullColumn ''ref_type'', PrimaryKey [''bundle_name'', ''secret_name''],
       ForeignKey ''bundle_name'' ''bundles(name)'', ForeignKey ''secret_name'' ''secrets(name)''],
     table ''bundles_requirements''
      [VarCharNonNullColumn ''bundle_name'', VarCharNonNullColumn ''source_name'',
       TextColumn ''gitcommit'', PrimaryKey [''bundle_name'', ''source_name''],
       ForeignKey ''bundle_name'' ''bundles(name)'', ForeignKey ''source_name'' ''sources(name)''],
     table ''stacks_requirements''
      [VarCharNonNullColumn ''stack_name'', VarCharNonNullColumn ''source_name'', TextColumn ''gitcommit'',
       PrimaryKey [''stack_name'', ''source_name''], ForeignKey ''stack_name'' ''stacks(name)'',
       ForeignKey ''source_name'' ''sources(name)''],
     table ''sources_requirements''
      [VarCharNonNullColumn ''source_name'', VarCharNonNullColumn ''requirement_name'',
       TextColumn ''gitcommit'', PrimaryKey [''source_name'', ''requirement_name''],
       ForeignKey ''source_name'' ''sources(name)'', ForeignKey ''requirement_name'' ''sources(name)''],
     table ''sources_secrets''
      [VarCharNonNullColumn ''source_name'', VarCharNonNullColumn ''secret_name'',
       TextNonNullColumn ''ref_type'', PrimaryKey [''source_name'', ''secret_name''],
       ForeignKey ''source_name'' ''sources(name)'', ForeignKey ''secret_name'' ''secrets(name)''],
     table ''sources_data''
      [VarCharNonNullColumn ''source_name'', VarCharNonNullColumn ''path'', BlobNonNullColumn ''data'',
       PrimaryKey [''source_name'', ''path''], ForeignKey ''source_name'' ''sources(name)''],
     table ''sources_datasources''
      [VarCharNonNullColumn ''name'', VarCharNonNullColumn ''source_name'', VarCharColumn ''secret_name'',
       TextNonNullColumn ''type'', TextNonNullColumn ''path'', TextNonNullColumn ''config'',
       TextNonNullColumn ''transform_query'', PrimaryKey [''source_name'', ''name''],
       ForeignKey ''secret_name'' ''secrets(name)'', ForeignKey ''source_name'' ''sources(name)''],
     table ''principals''
      [VarCharPrimaryKeyColumn ''id'', TextNonNullColumn ''role'',
       TimestampDefaultCurrentTimeColumn ''created_at''],
     table ''resource_permissions''
      [VarCharNonNullColumn ''name'', VarCharNonNullColumn ''resource'',
       VarCharNonNullColumn ''principal_id'', TextColumn ''role'', TextColumn ''permission'',
       TimestampDefaultCurrentTimeColumn ''created_at'', PrimaryKey [''name'', ''resource''],
       ForeignKeyOnDeleteCascade ''principal_id'' ''principals(id)'']]"

definition v2Tables :: "sqlTable list" where
  "v2Tables =
    [table ''tenants''
      [WithIteration ''ocp_v2'', IntegerPrimaryKeyAutoincrementColumn ''id'',
       VarCharNonNullColumn ''name'', UniqueColumns [''name'']],
     table ''tokens''
      [WithIteration ''ocp_v2'', VarCharPrimaryKeyColumn ''name'', TextNonNullColumn ''api_key''],
     table ''principals''
      [WithIteration ''ocp_v2'', VarCharPrimaryKeyColumn ''id'', IntegerNonNullColumn ''tenant_id'',
       UniqueColumns [''tenant_id'', ''id''], TextNonNullColumn ''role'',
       TimestampDefaultCurrentTimeColumn ''created_at''],
     table ''resource_permissions''
      [WithIteration ''ocp_v2'', VarCharNonNullColumn ''name'', VarCharNonNullColumn ''resource'',
       VarCharNonNullColumn ''principal_id'', IntegerNonNullColumn ''tenant_id'', TextColumn ''role'',
       TextColumn ''permission'', TimestampDefaultCurrentTimeColumn ''created_at'',
       PrimaryKey [''name'', ''resource'', ''tenant_id''],
       ForeignKeyOnDeleteCascade ''tenant_id'' ''tenants(id)'',
       ForeignKeyOnDeleteCascade ''principal_id'' ''principals(id)''],
     table ''bundles''
      [WithIteration ''ocp_v2'', IntegerPrimaryKeyAutoincrementColumn ''id'',
       IntegerNonNullColumn ''tenant_id'', ForeignKeyOnDeleteCascade ''tenant_id'' ''tenants(id)'',
       VarCharNonNullColumn ''name'', UniqueColumns [''tenant_id'', ''name''], TextColumn ''labels'',
       TextColumn ''s3url'', TextColumn ''s3region'', TextColumn ''s3bucket'', TextColumn ''s3key'',
       TextColumn ''gcp_project'', TextColumn ''gcp_object'', TextColumn ''azure_account_url'',
       TextColumn ''azure_container'', TextColumn ''azure_path'', TextColumn ''filepath'',
       TextColumn ''excluded'', TextColumn ''rebuild_interval'', TextColumn ''options''],
     table ''sources''
      [WithIteration ''ocp_v2'', IntegerPrimaryKeyAutoincrementColumn ''id'',
       IntegerNonNullColumn ''tenant_id'', ForeignKeyOnDeleteCascade ''tenant_id'' ''tenants(id)'',
       VarCharNonNullColumn ''name'', UniqueColumns [''tenant_id'', ''name''], TextColumn ''builtin'',
       TextNonNullColumn ''repo'', TextColumn ''ref'', TextColumn ''gitcommit'', TextColumn ''path'',
       TextColumn ''git_included_files'', TextColumn ''git_excluded_files''],
     table ''stacks''
      [WithIteration ''ocp_v2'', IntegerPrimaryKeyAutoincrementColumn ''id'',
       IntegerNonNullColumn ''tenant_id'', ForeignKeyOnDeleteCascade ''tenant_id'' ''tenants(id)'',
       UniqueColumns [''tenant_id'', ''name''], VarCharNonNullColumn ''name'',
       TextNonNullColumn ''selector'', TextColumn ''exclude_selector''],
     table ''secrets''
      [WithIteration ''ocp_v2'', IntegerPrimaryKeyAutoincrementColumn ''id'',
       IntegerNonNullColumn ''tenant_id'', ForeignKeyOnDeleteCascade ''tenant_id'' ''tenants(id)'',
       VarCharNonNullColumn ''name'', UniqueColumns [''tenant_id'', ''name''], TextColumn ''value''],
     table ''bundles_secrets''
      [WithIteration ''ocp_v2'', IntegerNonNullColumn ''bundle_id'', IntegerNonNullColumn ''secret_id'',
       TextNonNullColumn ''ref_type'', PrimaryKey [''bundle_id'', ''secret_id''],
       ForeignKey ''bundle_id'' ''bundles(id)'', ForeignKey ''secret_id'' ''secrets(id)''],
     table ''bundles_requirements''
      [WithIteration ''ocp_v2'', IntegerNonNullColumn ''bundle_id'', IntegerNonNullColumn ''source_id'',
       TextColumn ''gitcommit'', TextColumn ''path'', TextColumn ''prefix'',
       PrimaryKey [''bundle_id'', ''source_id''], ForeignKey ''bundle_id'' ''bundles(id)'',
       ForeignKey ''source_id'' ''sources(id)''],
     table ''stacks_requirements''
      [WithIteration ''ocp_v2'', IntegerNonNullColumn ''stack_id'', IntegerNonNullColumn ''source_id'',
       TextColumn ''gitcommit'', TextColumn ''path'', TextColumn ''prefix'',
       PrimaryKey [''stack_id'', ''source_id''], ForeignKey ''stack_id'' ''stacks(id)'',
       ForeignKey ''source_id'' ''sources(id)''],
     table ''sources_requirements''
      [WithIteration ''ocp_v2'', IntegerNonNullColumn ''source_id'',
       IntegerNonNullColumn ''requirement_id'', TextColumn ''gitcommit'', TextColumn ''path'',
       TextColumn ''prefix'', PrimaryKey [''source_id'', ''requirement_id''],
       ForeignKey ''source_id'' ''sources(id)'', ForeignKey ''requirement_id'' ''sources(id)''],
     table ''sources_secrets''
      [WithIteration ''ocp_v2'', IntegerNonNullColumn ''source_id'', IntegerNonNullColumn ''secret_id'',
       TextNonNullColumn ''ref_type'', PrimaryKey [''source_id'', ''secret_id''],
       ForeignKey ''source_id'' ''sources(id)'', ForeignKey ''secret_id'' ''secrets(id)''],
     table ''sources_data''
      [WithIteration ''ocp_v2'', IntegerNonNullColumn ''source_id'', VarCharNonNullColumn ''path'',
       BlobNonNullColumn ''data'', PrimaryKey [''source_id'', ''path''],
       ForeignKey ''source_id'' ''sources(id)''],
     table ''sources_datasources''
      [WithIteration ''ocp_v2'', VarCharNonNullColumn ''name'', IntegerNonNullColumn ''source_id'',
       IntegerColumn ''secret_id'', TextNonNullColumn ''type'', TextNonNullColumn ''path'',
       TextNonNullColumn ''config'', TextNonNullColumn ''transform_query'',
       PrimaryKey [''source_id'', ''name''], ForeignKey ''secret_id'' ''secrets(id)'',
       ForeignKey ''source_id'' ''sources(id)'']]"

subsection \<open>Constraints\<close>

text \<open>Values of a key that has a null never clash.\<close>

definition unique_on :: "string list \<Rightarrow> row list \<Rightarrow> bool" where
  "unique_on cs rs \<longleftrightarrow> distinct (filter (\<lambda>k. VNull \<notin> set k) (map (\<lambda>r. map (col r) cs) rs))"

definition table_keys :: "sqlTable \<Rightarrow> string list list" where
  "table_keys t =
     map (\<lambda>c. [col_Name c]) (filter (\<lambda>c. col_AutoIncrementPrimaryKey c \<or> col_PrimaryKey c \<or> col_Unique c) (tbl_columns t)) @
     (if tbl_primaryKeyColumns t \<noteq> [] then [tbl_primaryKeyColumns t] else []) @ tbl_unique t"

definition foreign_ok :: "db \<Rightarrow> sqlTable \<Rightarrow> sqlForeignKey \<Rightarrow> bool" where
  "foreign_ok db t fk = list_all (\<lambda>r. col r (fk_Column fk) = VNull \<or>
     list_ex (\<lambda>r'. col r' (ref_column (fk_References fk)) = col r (fk_Column fk)) (db (ref_table (fk_References fk)))) (db (tbl_name t))"

definition notnull_ok :: "row list \<Rightarrow> sqlColumn \<Rightarrow> bool" where
  "notnull_ok rs c \<longleftrightarrow> (col_NotNull c \<or> col_AutoIncrementPrimaryKey c \<longrightarrow> list_all (\<lambda>r. col r (col_Name c) \<noteq> VNull) rs)"

definition table_ok :: "db \<Rightarrow> sqlTable \<Rightarrow> bool" where
  "table_ok db t \<longleftrightarrow> list_all (notnull_ok (db (tbl_name t))) (tbl_columns t) \<and>
     list_all (\<lambda>k. unique_on k (db (tbl_name t))) (table_keys t) \<and> list_all (foreign_ok db t) (tbl_foreignKeys t)"

definition schema_ok :: "sqlTable list \<Rightarrow> db \<Rightarrow> bool" where
  "schema_ok ts db = list_all (table_ok db) ts"

lemma unique_on_Cons:
  "unique_on cs (r # rs) \<longleftrightarrow>
     unique_on cs rs \<and> (VNull \<in> col r ` set cs \<or> (\<forall>r' \<in> set rs. map (col r') cs \<noteq> map (col r) cs))"
  by (auto simp: unique_on_def image_iff simp del: map_eq_conv)

lemma unique_on_Nil [simp]: "unique_on cs []"
  by (simp add: unique_on_def)

lemma unique_on_cong: "map (\<lambda>r. map (col r) cs) rs = map (\<lambda>r. map (col r) cs) rs' \<Longrightarrow> unique_on cs rs = unique_on cs rs'"
  by (simp add: unique_on_def)

lemma unique_lookup:
  assumes "unique_on [c] rs"
  shows "length (filter (\<lambda>r. sql_eq v (col r c)) rs) = (if \<exists>r \<in> set rs. sql_eq v (col r c) then 1 else 0)"
  using assms by (induction rs) (auto simp: unique_on_Cons sql_eq_def filter_empty_conv)

subsection \<open>Copying the rows of the first generation\<close>

datatype select_item = OldColumn string | DefaultTenant | JoinedId string

type_synonym join_item = "string \<times> string \<times> string"

fun find_index :: "('a \<Rightarrow> bool) \<Rightarrow> 'a list \<Rightarrow> nat option" where
  "find_index P [] = None"
| "find_index P (x # xs) = (if P x then Some 0 else map_option Suc (find_index P xs))"

text \<open>
  One column: what it is selected from, and the join it needs. A join is the table it joins,
  the alias \<open>table_index\<close>, and the entity whose \<open>entity_name\<close> column of the old row is compared.
\<close>

definition copy_column :: "sqlTable \<Rightarrow> sqlColumn \<Rightarrow> (string \<times> select_item \<times> join_item option) option" where
  "copy_column st c =
     (if col_AutoIncrementPrimaryKey c then None
      else if col_Name c = ''tenant_id'' then Some (col_Name c, DefaultTenant, None)
      else if col_Name c = ''principal_id'' then Some (col_Name c, OldColumn (col_Name c), None)
      else (case find_index (\<lambda>fk. fk_Column fk = col_Name c) (tbl_foreignKeys st) of
          Some idx \<Rightarrow>
            (let fkTbl = ref_table (fk_References (tbl_foreignKeys st ! idx));
                 entity = takeWhile (\<lambda>x. x \<noteq> CHR ''_'') (col_Name c);
                 joinTbl = fkTbl @ ''_'' @ Itoa idx
             in Some (col_Name c, JoinedId joinTbl, Some (fkTbl, joinTbl, entity)))
        | None \<Rightarrow> Some (col_Name c, OldColumn (col_Name c), None)))"

definition copy_plan :: "sqlTable \<Rightarrow> (string \<times> select_item \<times> join_item option) list" where
  "copy_plan st = List.map_filter (copy_column st) (tbl_columns st)"

definition copy_joins :: "sqlTable \<Rightarrow> join_item list" where
  "copy_joins st = List.map_filter (\<lambda>(c, s, j). j) (copy_plan st)"

fun select_SQL :: "string \<Rightarrow> string \<times> select_item \<times> join_item option \<Rightarrow> string" where
  "select_SQL oldName (c, OldColumn o', j) = oldName @ ''.'' @ o'"
| "select_SQL oldName (c, DefaultTenant, j) = ''(SELECT id FROM tenants WHERE tenants.name = '' @ [CHR 39] @ ''default'' @ [CHR 39] @ '')''"
| "select_SQL oldName (c, JoinedId a, j) = a @ ''.id AS '' @ c"

fun join_SQL :: "string \<Rightarrow> join_item \<Rightarrow> string" where
  "join_SQL oldName (fkTbl, joinTbl, entity) =
     ''JOIN '' @ fkTbl @ '' AS '' @ joinTbl @ '' ON '' @ oldName @ ''.'' @ entity @ ''_name = '' @ joinTbl @ ''.name''"

definition tableCopy :: "string \<Rightarrow> sqlTable \<Rightarrow> string" where
  "tableCopy oldName st =
     ''INSERT INTO '' @ tbl_name st @ '' ('' @ strings_Join (map fst (copy_plan st)) '', '' @ '') SELECT '' @
     strings_Join (map (select_SQL oldName) (copy_plan st)) '', '' @ '' FROM '' @ oldName @ '' '' @
     strings_Join (map (join_SQL oldName) (copy_joins st)) '' ''"

text \<open>
  The meaning of the \<open>SELECT\<close>: for an old row, one new row for each way to choose rows of the
  joined tables that satisfy the conditions.
\<close>

fun join_rows :: "db \<Rightarrow> row \<Rightarrow> join_item list \<Rightarrow> rows \<Rightarrow> rows list" where
  "join_rows new old [] env = [env]"
| "join_rows new old ((t, a, entity) # js) env =
     concat (map (\<lambda>r. join_rows new old js (env(a \<mapsto> r)))
       (filter (\<lambda>r. sql_eq (col old (entity @ ''_name'')) (col r ''name'')) (new t)))"

definition default_tenant :: "db \<Rightarrow> val" where
  "default_tenant db = (case filter (\<lambda>r. col r ''name'' = VStr ''default'') (db ''tenants'') of [] \<Rightarrow> VNull | r # rs \<Rightarrow> col r ''id'')"

fun select_value :: "db \<Rightarrow> row \<Rightarrow> rows \<Rightarrow> select_item \<Rightarrow> val" where
  "select_value new old env (OldColumn c) = col old c"
| "select_value new old env DefaultTenant = default_tenant new"
| "select_value new old env (JoinedId a) = column_value env a ''id''"

definition copied :: "db \<Rightarrow> sqlTable \<Rightarrow> row \<Rightarrow> row list" where
  "copied new st old =
     map (\<lambda>env. fmap_of_list (map (\<lambda>(c, s, j). (c, select_value new old env s)) (copy_plan st)))
       (join_rows new old (copy_joins st) Map.empty)"

text \<open>The rows get their automatic keys in the order in which they are copied.\<close>

definition with_ids :: "sqlTable \<Rightarrow> row list \<Rightarrow> row list" where
  "with_ids st rs = map (\<lambda>(i, r). fold (\<lambda>c. fmupd (col_Name c) (VInt (int i + 1)))
     (filter col_AutoIncrementPrimaryKey (tbl_columns st)) r) (enumerate 0 rs)"

definition migrate_table :: "db \<Rightarrow> sqlTable \<Rightarrow> db \<Rightarrow> db" where
  "migrate_table old st new =
     new(tbl_name st := with_ids st
       (if tbl_name st = ''tenants'' then [fmap_of_list [(''name'', VStr ''default'')]]
        else concat (map (copied new st) (old (tbl_name st)))))"

definition migrate_tables :: "db \<Rightarrow> sqlTable list \<Rightarrow> db \<Rightarrow> db" where
  "migrate_tables old sts new = fold (migrate_table old) sts new"

definition resolves :: "db \<Rightarrow> row \<Rightarrow> join_item \<Rightarrow> bool" where
  "resolves db r j = (case j of (t, a, entity) \<Rightarrow> list_ex (\<lambda>r'. sql_eq (col r (entity @ ''_name'')) (col r' ''name'')) (db t))"

lemma join_rows_count:
  assumes "\<forall>j \<in> set js. unique_on [''name''] (new (fst j))"
  shows "length (join_rows new old js env) = (if list_all (resolves new old) js then 1 else 0)"
  using assms
proof (induction js arbitrary: env)
  case (Cons j js)
  obtain t a entity where j: "j = (t, a, entity)" by (cases j)
  let ?f = "filter (\<lambda>r. sql_eq (col old (entity @ ''_name'')) (col r ''name'')) (new t)"
  have l: "length ?f = (if resolves new old j then 1 else 0)"
    using Cons.prems by (simp add: j resolves_def list_ex_iff unique_lookup)
  show ?case
  proof (cases "resolves new old j")
    case True
    with l obtain r where "?f = [r]"
      by (auto simp: length_Suc_conv simp del: filter_eq_Cons_iff)
    with Cons True show ?thesis by (simp add: j)
  next
    case False
    with l have "?f = []" by simp
    with False show ?thesis by (simp only: j join_rows.simps) simp
  qed
qed simp

text \<open>A table with a name column that is copied without a join keeps its names.\<close>

definition entity_like :: "sqlTable \<Rightarrow> bool" where
  "entity_like st \<longleftrightarrow> tbl_name st \<noteq> ''tenants'' \<and> copy_joins st = [] \<and>
     map_of (copy_plan st) ''name'' = Some (OldColumn ''name'', None) \<and>
     list_all (\<lambda>c. col_AutoIncrementPrimaryKey c \<longrightarrow> col_Name c \<noteq> ''name'') (tbl_columns st)"

lemma length_with_ids [simp]: "length (with_ids st rs) = length rs"
  by (simp add: with_ids_def)

lemma col_fold_fmupd:
  "c \<notin> f ` set cs \<Longrightarrow> col (fold (\<lambda>x. fmupd (f x) v) cs r) c = col r c"
  by (induction cs arbitrary: r) (auto simp: col_def)

lemma names_with_ids:
  assumes "list_all (\<lambda>c. col_AutoIncrementPrimaryKey c \<longrightarrow> col_Name c \<noteq> n) (tbl_columns st)"
  shows "map (\<lambda>r. col r n) (with_ids st rs) = map (\<lambda>r. col r n) rs"
proof -
  have "map (\<lambda>r. col r n) (with_ids st rs) = map (\<lambda>p. col (snd p) n) (enumerate 0 rs)"
    using assms by (auto simp: with_ids_def list_all_iff case_prod_beta' intro!: col_fold_fmupd)
  also have "\<dots> = map (\<lambda>r. col r n) (map snd (enumerate 0 rs))"
    by (simp only: map_map o_def)
  finally show ?thesis by simp
qed

lemma fmap_of_list_select:
  "col (fmap_of_list (map (\<lambda>(c, s, j). (c, g s)) ps)) n = (case map_of ps n of None \<Rightarrow> VNull | Some (s, j) \<Rightarrow> g s)"
  by (induction ps) (auto simp: col_def fmap_of_list.rep_eq split: option.splits)

lemma entity_copied:
  "entity_like st \<Longrightarrow> map (\<lambda>r. col r ''name'') (concat (map (copied new st) rs)) = map (\<lambda>r. col r ''name'') rs"
  by (induction rs) (simp_all add: entity_like_def copied_def fmap_of_list_select)

lemma migrate_table_other [simp]: "t \<noteq> tbl_name st \<Longrightarrow> migrate_table old st new t = new t"
  by (simp add: migrate_table_def)

lemma migrate_tables_other: "t \<notin> tbl_name ` set sts \<Longrightarrow> migrate_tables old sts new t = new t"
  by (induction sts arbitrary: new) (auto simp: migrate_tables_def)

lemma migrate_tables_at:
  assumes "tbl_name st \<notin> tbl_name ` set ys"
  shows "migrate_tables old (xs @ st # ys) new (tbl_name st) =
    migrate_table old st (migrate_tables old xs new) (tbl_name st)"
  using migrate_tables_other [OF assms] by (simp add: migrate_tables_def)

lemma entity_names:
  assumes "distinct (map tbl_name sts)" and "st \<in> set sts" and "entity_like st"
  shows "map (\<lambda>r. col r ''name'') (migrate_tables old sts new (tbl_name st)) = map (\<lambda>r. col r ''name'') (old (tbl_name st))"
proof -
  from assms(2) obtain xs ys where sts: "sts = xs @ st # ys" by (auto simp: in_set_conv_decomp)
  with assms(1) have n: "tbl_name st \<notin> tbl_name ` set ys" by auto
  show ?thesis
    using assms(3)
    by (simp add: sts migrate_tables_at [OF n] migrate_table_def names_with_ids entity_copied)
       (simp add: entity_like_def names_with_ids entity_copied [OF assms(3)])
qed

lemma resolves_names:
  assumes "map (\<lambda>r. col r ''name'') (new (fst j)) = map (\<lambda>r. col r ''name'') (old (fst j))"
  shows "resolves new r j = resolves old r j"
proof -
  have "list_ex P (map (\<lambda>r. col r ''name'') (new (fst j))) = list_ex P (map (\<lambda>r. col r ''name'') (old (fst j)))" for P
    using assms by simp
  then show ?thesis by (simp add: resolves_def case_prod_beta' list_ex_iff)
qed

definition joins_ready :: "sqlTable list \<Rightarrow> sqlTable \<Rightarrow> bool" where
  "joins_ready xs st = list_all (\<lambda>j. list_ex (\<lambda>st'. tbl_name st' = fst j \<and> entity_like st') xs) (copy_joins st)"

lemma copied_count:
  assumes "distinct (map tbl_name (xs @ st # ys))" and "tbl_name st \<noteq> ''tenants''" and "joins_ready xs st"
    and "\<forall>j \<in> set (copy_joins st). unique_on [''name''] (old (fst j))"
  shows "length (migrate_tables old (xs @ st # ys) new (tbl_name st)) =
    length (filter (\<lambda>r. list_all (resolves old r) (copy_joins st)) (old (tbl_name st)))"
proof -
  let ?new = "migrate_tables old xs new"
  have names: "map (\<lambda>r. col r ''name'') (?new (fst j)) = map (\<lambda>r. col r ''name'') (old (fst j))"
    if "j \<in> set (copy_joins st)" for j
    using that assms(1,3) entity_names [of xs] by (fastforce simp: joins_ready_def list_all_iff list_ex_iff)
  have u: "\<forall>j \<in> set (copy_joins st). unique_on [''name''] (?new (fst j))"
  proof
    fix j
    assume j: "j \<in> set (copy_joins st)"
    have "map (\<lambda>r. map (col r) [''name'']) (?new (fst j)) = map (\<lambda>r. map (col r) [''name'']) (old (fst j))"
      using arg_cong [OF names [OF j], of "map (\<lambda>v. [v])"] by (simp add: o_def)
    then show "unique_on [''name''] (?new (fst j))"
      using assms(4) j unique_on_cong by metis
  qed
  have "length (copied ?new st r) = (if list_all (resolves old r) (copy_joins st) then 1 else 0)" for r
  proof -
    have "list_all (resolves ?new r) (copy_joins st) = list_all (resolves old r) (copy_joins st)"
    proof -
      have "resolves ?new r j = resolves old r j" if "j \<in> set (copy_joins st)" for j
        by (rule resolves_names) (rule names [OF that])
      then show ?thesis by (simp add: list_all_iff)
    qed
    then show ?thesis by (simp add: copied_def join_rows_count [OF u])
  qed
  then have "length (concat (map (copied ?new st) rs)) = length (filter (\<lambda>r. list_all (resolves old r) (copy_joins st)) rs)" for rs
    by (induction rs) simp_all
  with assms(1,2) show ?thesis
    by (simp add: migrate_tables_at migrate_table_def)
qed

text \<open>In the first generation a column that is joined over refers to a name and is never null.\<close>

definition references_name :: "sqlTable \<Rightarrow> join_item \<Rightarrow> bool" where
  "references_name s j = (case j of (t, a, entity) \<Rightarrow>
     list_ex (\<lambda>fk. fk_Column fk = entity @ ''_name'' \<and> ref_table (fk_References fk) = t \<and>
       ref_column (fk_References fk) = ''name'') (tbl_foreignKeys s))"

definition never_null :: "sqlTable \<Rightarrow> join_item \<Rightarrow> bool" where
  "never_null s j = (case j of (t, a, entity) \<Rightarrow>
     list_ex (\<lambda>c. col_Name c = entity @ ''_name'' \<and> col_NotNull c) (tbl_columns s))"

definition joins_covered :: "sqlTable \<Rightarrow> bool" where
  "joins_covered st \<longleftrightarrow> list_ex (\<lambda>s. tbl_name s = tbl_name st \<and>
     list_all (\<lambda>j. references_name s j \<and> never_null s j) (copy_joins st)) schema"

lemma never_nullD:
  assumes "never_null s (t, a, entity)" and "table_ok old s" and "r \<in> set (old (tbl_name s))"
  shows "col r (entity @ ''_name'') \<noteq> VNull"
proof -
  from assms(1) obtain c where c: "c \<in> set (tbl_columns s)" "col_Name c = entity @ ''_name''" "col_NotNull c"
    by (auto simp: never_null_def list_ex_iff)
  have "notnull_ok (old (tbl_name s)) c"
    using assms(2) c(1) unfolding table_ok_def list_all_iff by auto
  then show ?thesis
    using c assms(3) by (simp add: notnull_ok_def list_all_iff)
qed

lemma references_resolve:
  assumes "references_name s (t, a, entity)" and "table_ok old s" and "r \<in> set (old (tbl_name s))"
    and "col r (entity @ ''_name'') \<noteq> VNull"
  shows "resolves old r (t, a, entity)"
proof -
  from assms(1) obtain fk where fk: "fk \<in> set (tbl_foreignKeys s)" "fk_Column fk = entity @ ''_name''"
    "ref_table (fk_References fk) = t" "ref_column (fk_References fk) = ''name''"
    by (auto simp: references_name_def list_ex_iff)
  have "foreign_ok old s fk"
    using assms(2) fk(1) unfolding table_ok_def list_all_iff by blast
  with fk assms(3,4) obtain r' where "r' \<in> set (old t)" "col r' ''name'' = col r (entity @ ''_name'')"
    by (auto simp: foreign_ok_def list_all_iff list_ex_iff)
  with assms(4) show ?thesis
    unfolding resolves_def list_ex_iff sql_eq_def prod.case by metis
qed

lemma joins_covered_resolves:
  assumes "joins_covered st" and "schema_ok schema old" and "r \<in> set (old (tbl_name st))"
  shows "list_all (resolves old r) (copy_joins st)"
proof -
  from assms(1) obtain s where s: "s \<in> set schema" "tbl_name s = tbl_name st"
    and c: "\<forall>j \<in> set (copy_joins st). references_name s j \<and> never_null s j"
    by (auto simp: joins_covered_def list_ex_iff list_all_iff)
  have ok: "table_ok old s" using assms(2) s(1) by (simp add: schema_ok_def list_all_iff)
  have "resolves old r j" if "j \<in> set (copy_joins st)" for j
    using references_resolve [OF _ ok] never_nullD [OF _ ok] c that s(2) assms(3) by (cases j) metis
  then show ?thesis by (simp add: list_all_iff)
qed

lemma schema_names_unique:
  assumes "schema_ok schema old" and "t \<in> {''bundles'', ''sources'', ''stacks'', ''secrets''}"
  shows "unique_on [''name''] (old t)"
proof -
  have "list_all (\<lambda>t. list_ex (\<lambda>s. tbl_name s = t \<and> [''name''] \<in> set (table_keys s)) schema)
      [''bundles'', ''sources'', ''stacks'', ''secrets'']"
    by code_simp
  with assms show ?thesis
    unfolding schema_ok_def table_ok_def list_all_iff list_ex_iff by auto
qed

fun all_ready :: "sqlTable list \<Rightarrow> sqlTable list \<Rightarrow> bool" where
  "all_ready xs [] = True"
| "all_ready xs (st # ys) = (joins_ready xs st \<and> all_ready (xs @ [st]) ys)"

lemma all_ready_append: "all_ready ws (xs @ st # ys) \<Longrightarrow> joins_ready (ws @ xs) st"
  by (induction xs arbitrary: ws) fastforce+

lemma v2_ready: "all_ready [] v2Tables"
  by code_simp

lemma v2_names_distinct: "distinct (map tbl_name v2Tables)"
  by code_simp

lemma v2_covered:
  "list_all (\<lambda>st. tbl_name st \<in> {''tenants'', ''sources_datasources''} \<or> joins_covered st) v2Tables"
  by code_simp

lemma v2_joined_tables:
  "list_all (\<lambda>st. list_all (\<lambda>j. fst j \<in> {''bundles'', ''sources'', ''stacks'', ''secrets''}) (copy_joins st)) v2Tables"
  by code_simp

definition new_database :: "db \<Rightarrow> db" where
  "new_database old = migrate_tables old v2Tables (\<lambda>t. [])"

lemma new_count:
  assumes "schema_ok schema old" and "st \<in> set v2Tables" and "tbl_name st \<noteq> ''tenants''"
  shows "length (new_database old (tbl_name st)) =
    length (filter (\<lambda>r. list_all (resolves old r) (copy_joins st)) (old (tbl_name st)))"
proof -
  from assms(2) obtain xs ys where v: "v2Tables = xs @ st # ys" by (auto simp: in_set_conv_decomp)
  show ?thesis
    unfolding new_database_def v
  proof (rule copied_count)
    show "distinct (map tbl_name (xs @ st # ys))" using v2_names_distinct v by simp
    show "joins_ready xs st" using all_ready_append [of "[]" xs st ys] v2_ready v by simp
    show "\<forall>j \<in> set (copy_joins st). unique_on [''name''] (old (fst j))"
      using v2_joined_tables assms(1,2) schema_names_unique unfolding list_all_iff by blast
  qed (fact assms(3))
qed


definition example_old :: db where
  "example_old t =
     (if t = ''sources'' then [fmap_of_list [(''id'', VInt 7), (''name'', VStr ''lib''), (''repo'', VStr [])]]
      else if t = ''secrets'' then [fmap_of_list [(''id'', VInt 3), (''name'', VStr ''key'')]]
      else if t = ''sources_datasources'' then
        map (\<lambda>(n, s). fmap_of_list [(''name'', VStr n), (''source_name'', VStr ''lib''), (''secret_name'', s), (''type'', VStr ''http''),
          (''path'', VStr ''d''), (''config'', VStr []), (''transform_query'', VStr [])]) [(''a'', VStr ''key''), (''b'', VNull)]
      else [])"

definition sources_datasources :: sqlTable where
  "sources_datasources = last v2Tables"


end
