(* ===== verification/Migrations.thy ===== *)
theory Migrations
  imports Schema "HOL-Library.Word"
begin

text \<open>
  The database migrations, from \<open>internal/migrations\<close>: the files that each dialect gets, the
  statements of the step to tenants, the search for the latest version, and a run of the
  migrator. The migration library is a parameter: a driver that lists versions, the version the
  database has, and the outcome of applying what is missing. An unknown dialect has the kind
  zero, SQLite, and empty statements.
\<close>

subsection \<open>The files\<close>

definition pad3 :: "nat \<Rightarrow> string" where
  "pad3 n = replicate (3 - length (Itoa n)) (CHR ''0'') @ Itoa n"

definition kind_of :: "string \<Rightarrow> kind" where
  "kind_of dialect =
     (if dialect = ''postgresql'' then Postgres else if dialect = ''mysql'' then Mysql
      else if dialect = ''cockroachdb'' then Cockroachdb else Sqlite)"

type_synonym files = "(string \<times> string) list"

definition addBundleOptions :: "string \<Rightarrow> files" where
  "addBundleOptions dialect =
     [(''018_add_bundles_options.up.sql'',
       if dialect \<in> {''sqlite'', ''postgresql''} then ''ALTER TABLE bundles ADD options TEXT;''
       else if dialect = ''mysql'' then ''ALTER TABLE bundles ADD options VARCHAR(255)'' else [])]"

definition addBundleInterval :: "string \<Rightarrow> files" where
  "addBundleInterval dialect =
     [(''017_add_bundles_interval.up.sql'',
       if dialect \<in> {''sqlite'', ''postgresql''} then ''ALTER TABLE bundles ADD rebuild_interval TEXT''
       else if dialect = ''mysql'' then ''ALTER TABLE bundles ADD rebuild_interval VARCHAR(255)'' else [])]"

definition add_mount_columns :: "string \<Rightarrow> string \<Rightarrow> string" where
  "add_mount_columns dialect t =
     (if dialect = ''sqlite'' then ''ALTER TABLE '' @ t @ '' ADD prefix TEXT; ALTER TABLE '' @ t @ '' ADD path TEXT''
      else if dialect = ''postgresql'' then ''ALTER TABLE '' @ t @ '' ADD prefix TEXT, ADD path TEXT''
      else if dialect = ''mysql'' then ''ALTER TABLE '' @ t @ '' ADD prefix VARCHAR(255), ADD path VARCHAR(255)''
      else [])"

definition addMounts :: "string \<Rightarrow> files" where
  "addMounts dialect =
     [(''014_add_mounts_bundles.up.sql'', add_mount_columns dialect ''bundles_requirements''),
      (''015_add_mounts_sources.up.sql'', add_mount_columns dialect ''sources_requirements''),
      (''016_add_mounts_stacks.up.sql'', add_mount_columns dialect ''stacks_requirements'')]"

definition initialSchemaFS :: "string \<Rightarrow> files" where
  "initialSchemaFS dialect =
     map (\<lambda>(i, tbl). (pad3 i @ ''_'' @ tbl_name tbl @ ''.up.sql'',
       if kind_of dialect = Cockroachdb then [] else sqlTable_SQL tbl (kind_of dialect))) (enumerate 0 schema)"

definition add_text_column :: "string \<Rightarrow> string \<Rightarrow> string \<Rightarrow> string" where
  "add_text_column dialect t c =
     (if dialect \<in> {''sqlite'', ''postgresql'', ''cockroachdb''} then ''ALTER TABLE '' @ t @ '' ADD '' @ c @ '' TEXT''
      else if dialect = ''mysql'' then ''ALTER TABLE '' @ t @ '' ADD '' @ c @ '' VARCHAR(255)'' else [])"

definition addBundlesRevision :: "nat \<Rightarrow> string \<Rightarrow> files" where
  "addBundlesRevision offset dialect =
     [(pad3 offset @ ''_add_bundles_revision.up.sql'', add_text_column dialect ''bundles'' ''revision'')]"

definition addRequirementsOptions :: "nat \<Rightarrow> string \<Rightarrow> files" where
  "addRequirementsOptions offset dialect =
     [(pad3 offset @ ''_bundles_requirements_add_options.up.sql'', add_text_column dialect ''bundles_requirements'' ''options''),
      (pad3 (offset + 1) @ ''_sources_requirements_add_options.up.sql'', add_text_column dialect ''sources_requirements'' ''options''),
      (pad3 (offset + 2) @ ''_stacks_requirements_add_options.up.sql'', add_text_column dialect ''stacks_requirements'' ''options'')]"

definition trim_semicolons :: "string \<Rightarrow> string" where
  "trim_semicolons s = rev (dropWhile (\<lambda>c. c = CHR '';'') (rev s))"

definition table_statements :: "kind \<Rightarrow> sqlTable \<Rightarrow> string list" where
  "table_statements k tbl =
     (if tbl_name tbl = ''tenants'' then
        [trim_semicolons (sqlTable_SQL tbl k),
         ''INSERT INTO '' @ tbl_name tbl @ '' (name) VALUES ('' @ [CHR 39] @ ''default'' @ [CHR 39] @ '')'']
      else (let oldName = tbl_name tbl @ ''_old'' in
        (if k \<noteq> Cockroachdb then [''ALTER TABLE '' @ tbl_name tbl @ '' RENAME TO '' @ oldName] else []) @
        [trim_semicolons (sqlTable_SQL tbl k)] @
        (if k \<noteq> Cockroachdb then [tableCopy oldName tbl] else [])))"

definition cross_statements :: "kind \<Rightarrow> string list" where
  "cross_statements k =
     (if k \<noteq> Sqlite then [''BEGIN''] else []) @ concat (map (table_statements k) v2Tables) @
     (if k \<noteq> Cockroachdb then map (\<lambda>t. ''DROP TABLE '' @ tbl_name t @ ''_old'') (rev (tl v2Tables)) else []) @
     (if k \<noteq> Sqlite then [''COMMIT;''] else [])"

definition crossTablesWithIDPKeys :: "nat \<Rightarrow> string \<Rightarrow> files" where
  "crossTablesWithIDPKeys offset dialect =
     [(pad3 offset @ ''_tenants.up.sql'', strings_Join (cross_statements (kind_of dialect)) ''; '')]"

definition Migrations :: "string \<Rightarrow> files" where
  "Migrations dialect = initialSchemaFS dialect @ addMounts dialect @ addBundleInterval dialect @ addBundleOptions dialect @
     crossTablesWithIDPKeys 19 dialect @ addRequirementsOptions 20 dialect @ addBundlesRevision 23 dialect"

text \<open>The version of a file is the number its name starts with.\<close>

definition digit_value :: "char \<Rightarrow> nat" where
  "digit_value c = of_char c - 48"

definition file_version :: "string \<Rightarrow> nat" where
  "file_version n = foldl (\<lambda>v c. 10 * v + digit_value c) 0 (takeWhile (\<lambda>c. c \<noteq> CHR ''_'') n)"

lemma Migrations_names: "map fst (Migrations dialect) = map fst (Migrations [])"
  by (simp add: Migrations_def initialSchemaFS_def addMounts_def addBundleInterval_def addBundleOptions_def
      crossTablesWithIDPKeys_def addRequirementsOptions_def addBundlesRevision_def case_prod_beta' o_def)

lemma Migrations_versions: "map (file_version \<circ> fst) (Migrations dialect) = [0..<24]"
proof -
  have "map file_version (map fst (Migrations [])) = [0..<24]" by code_simp
  then show ?thesis by (metis Migrations_names map_map)
qed

subsection \<open>The latest version\<close>

partial_function (option) findLatest_loop :: "(nat \<Rightarrow> nat option) \<Rightarrow> nat \<Rightarrow> nat option \<Rightarrow> nat option" where
  "findLatest_loop Next prev r = (case r of None \<Rightarrow> Some prev | Some v \<Rightarrow> findLatest_loop Next v (Next v))"

declare findLatest_loop.simps [code]

definition findLatest :: "nat option \<Rightarrow> (nat \<Rightarrow> nat option) \<Rightarrow> nat option" where
  "findLatest First Next = findLatest_loop Next 0 First"

text \<open>What a driver promises: the versions in order, and an error behind the last.\<close>

locale migration_driver =
  fixes versions :: "nat list" and First :: "nat option" and Next :: "nat \<Rightarrow> nat option"
  assumes First_eq: "First = (case versions of [] \<Rightarrow> None | v # vs \<Rightarrow> Some v)"
    and Next_eq: "i < length versions \<Longrightarrow>
      Next (versions ! i) = (if Suc i < length versions then Some (versions ! Suc i) else None)"
begin

lemma findLatest_loop_from:
  assumes "i < length versions"
  shows "findLatest_loop Next (versions ! i) (Next (versions ! i)) = Some (last versions)"
  using assms
proof (induction "length versions - i" arbitrary: i)
  case (Suc n)
  show ?case
  proof (cases "Suc i < length versions")
    case True
    then have "Next (versions ! i) = Some (versions ! Suc i)" using Next_eq [OF Suc.prems] by simp
    then show ?thesis
      using Suc.hyps(1) [of "Suc i"] Suc.hyps(2) True by (simp add: findLatest_loop.simps [of _ "versions ! i"])
  next
    case False
    with Suc.prems have "i = length versions - 1" by simp
    moreover have "Next (versions ! i) = None" using Next_eq [OF Suc.prems] False by simp
    moreover have "versions \<noteq> []" using Suc.prems by auto
    ultimately show ?thesis
      by (simp add: findLatest_loop.simps [of _ "versions ! i"] last_conv_nth findLatest_loop.simps)
  qed
qed simp

theorem findLatest_last: "findLatest First Next = Some (if versions = [] then 0 else last versions)"
proof (cases versions)
  case Nil
  then show ?thesis by (simp add: findLatest_def First_eq findLatest_loop.simps)
next
  case (Cons v vs)
  then show ?thesis
    using findLatest_loop_from [of 0] by (simp add: findLatest_def First_eq findLatest_loop.simps [of _ 0 "Some v"])
qed

end

text \<open>The driver over the files of a dialect.\<close>

definition file_versions :: "string \<Rightarrow> nat list" where
  "file_versions dialect = map (file_version \<circ> fst) (Migrations dialect)"

definition driver_First :: "string \<Rightarrow> nat option" where
  "driver_First dialect = (case file_versions dialect of [] \<Rightarrow> None | v # vs \<Rightarrow> Some v)"

definition driver_Next :: "string \<Rightarrow> nat \<Rightarrow> nat option" where
  "driver_Next dialect v = find (\<lambda>w. v < w) (file_versions dialect)"

lemma find_append: "find P (xs @ ys) = (case find P xs of None \<Rightarrow> find P ys | Some x \<Rightarrow> Some x)"
  by (induction xs) auto

lemma find_greater_upt: "find (\<lambda>w. v < w) [0..<n] = (if Suc v < n then Some (Suc v) else None)"
  by (induction n) (auto simp: find_append)

interpretation files_driver: migration_driver "file_versions dialect" "driver_First dialect" "driver_Next dialect" for dialect
proof
  show "driver_First dialect = (case file_versions dialect of [] \<Rightarrow> None | v # vs \<Rightarrow> Some v)"
    by (simp add: driver_First_def)
next
  fix i
  assume "i < length (file_versions dialect)"
  then show "driver_Next dialect (file_versions dialect ! i) =
      (if Suc i < length (file_versions dialect) then Some (file_versions dialect ! Suc i) else None)"
    by (simp add: driver_Next_def file_versions_def Migrations_versions find_greater_upt del: map_map)
qed

subsection \<open>A run of the migrator\<close>

text \<open>
  Waiting for the database: five pings, each failed one followed by a pause that doubles. The
  result is the pauses in seconds and whether a ping succeeded.
\<close>

fun ping_loop :: "(nat \<Rightarrow> bool) \<Rightarrow> nat \<Rightarrow> nat \<Rightarrow> int \<Rightarrow> int list \<times> bool" where
  "ping_loop ping i 0 delay = ([], False)"
| "ping_loop ping i (Suc n) delay =
     (if ping i then ([], True)
      else (let (sleeps, ok) = ping_loop ping (Suc i) n (delay * 2) in (delay # sleeps, ok)))"

definition waitForDB :: "(nat \<Rightarrow> bool) \<Rightarrow> int list \<times> bool" where
  "waitForDB ping = ping_loop ping 0 5 2"

lemma ping_loop_ok: "snd (ping_loop ping i n d) \<longleftrightarrow> (\<exists>k < n. ping (i + k))"
proof (induction n arbitrary: i d)
  case (Suc n)
  have "(\<exists>k < Suc n. ping (i + k)) \<longleftrightarrow> ping i \<or> (\<exists>k < n. ping (Suc i + k))"
    using less_Suc_eq_0_disj by auto
  then show ?case by (simp add: Let_def case_prod_beta' Suc)
qed simp

lemma ping_loop_time:
  "0 \<le> d \<Longrightarrow> 0 \<le> sum_list (fst (ping_loop ping i n d)) \<and> sum_list (fst (ping_loop ping i n d)) \<le> d * (2 ^ n - 1)"
proof (induction n arbitrary: i d)
  case (Suc n)
  have "d * 1 \<le> d * 2 ^ Suc n"
    using Suc.prems by (intro mult_left_mono one_le_power) simp_all
  with Suc show ?case
    using Suc.IH [of "d * 2" "Suc i"] by (auto simp: Let_def case_prod_beta' algebra_simps)
qed simp

lemma waitForDB_bounded: "sum_list (fst (waitForDB ping)) \<le> 62"
  using ping_loop_time [of 2 ping 0 5] by (simp add: waitForDB_def)

text \<open>The steps of \<open>Run\<close> outside this code: what they answer.\<close>

datatype db_version = VersionErr string | NilVersion | Version "64 word"

record outside =
  out_InitDB :: "string option"
  out_dialect :: string
  out_ping :: "nat \<Rightarrow> bool"
  out_driver :: "string option"
  out_source :: "string option"
  out_instance :: "string option"
  out_version :: db_version
  out_up :: "string option"

text \<open>What a run says in the log; the numbers are unsigned machine words.\<close>

datatype message = UpToDate | Ahead "64 word" | Pending "64 word" | NeverRun

definition check_version :: "db_version \<Rightarrow> 64 word \<Rightarrow> message list \<times> string option" where
  "check_version v latest =
     (case v of
        Version ver \<Rightarrow>
          (if ver = latest then ([UpToDate], None)
           else if ver > latest then ([Ahead (ver - latest)], None)
           else ([Pending (ver - latest)], None))
      | NilVersion \<Rightarrow> ([NeverRun], None)
      | VersionErr e \<Rightarrow> ([], Some e))"

definition Run :: "bool \<Rightarrow> outside \<Rightarrow> message list \<times> string option" where
  "Run migrate out =
     (case out_InitDB out of Some e \<Rightarrow> ([], Some (''migrate: '' @ e)) | None \<Rightarrow>
      if \<not> snd (waitForDB (out_ping out)) then ([], Some ''migrate: could not connect to database'') else
      (case out_driver out of Some e \<Rightarrow> ([], Some (''migrate: '' @ e)) | None \<Rightarrow>
      (case out_source out of Some e \<Rightarrow> ([], Some e) | None \<Rightarrow>
      (case findLatest (driver_First (out_dialect out)) (driver_Next (out_dialect out)) of None \<Rightarrow> ([], Some ''no return'') | Some latest \<Rightarrow>
      (case out_instance out of Some e \<Rightarrow> ([], Some e) | None \<Rightarrow>
      if \<not> migrate then check_version (out_version out) (of_nat latest)
      else (case out_up out of
          Some e \<Rightarrow> ([], if e = ''no change'' then None else Some (''database migrations: '' @ e))
        | None \<Rightarrow> ([], None)))))))"

text \<open>
  The migrations of every dialect are numbered 0 to 23 without a gap; a run that only checks
  always returns, and when the steps outside succeed it reports how the database's version compares
  with the latest. It reports the number of missing migrations wrongly: for a version \<open>v\<close> not \<open>23 - v\<close> but its negative as an
  unsigned word, at least \<open>2 ^ 64 - 23\<close>.
\<close>

theorem Run_reports:
  assumes "out_InitDB out = None" and "out_driver out = None" and "out_source out = None" and "out_instance out = None"
    and "i < 5" and "out_ping out i"
  shows "map (file_version \<circ> fst) (Migrations (out_dialect out)) = [0..<24] \<and>
    (out_version out = NilVersion \<longrightarrow> Run False out = ([NeverRun], None)) \<and>
    (out_version out = Version 23 \<longrightarrow> Run False out = ([UpToDate], None)) \<and>
    (\<forall>v. out_version out = Version v \<and> v > 23 \<longrightarrow> Run False out = ([Ahead (v - 23)], None)) \<and>
    (\<forall>v < 23. out_version out = Version (of_nat v) \<longrightarrow>
      (\<exists>n. Run False out = ([Pending n], None) \<and> unat n = 2 ^ 64 - (23 - v)))"
proof -
  have "file_versions (out_dialect out) = [0..<24]"
    by (simp only: file_versions_def Migrations_versions)
  then have latest: "findLatest (driver_First (out_dialect out)) (driver_Next (out_dialect out)) = Some 23"
    by (simp add: files_driver.findLatest_last)
  have "snd (waitForDB (out_ping out))"
    using assms(5,6) by (auto simp: waitForDB_def ping_loop_ok)
  then have run: "Run False out = check_version (out_version out) 23"
    by (simp add: Run_def assms latest)
  have pending: "\<exists>n. check_version (Version (of_nat v)) 23 = ([Pending n], None) \<and> unat n = 2 ^ 64 - (23 - v)"
    if "v < 23" for v :: nat
  proof -
    have "unat (word_of_nat v :: 64 word) = v"
      using that by (simp add: unat_of_nat take_bit_nat_eq_self)
    then have less: "(word_of_nat v :: 64 word) < 23"
      using that by (simp add: word_less_nat_alt)
    then have "unat (word_of_nat v - 23 :: 64 word) = 2 ^ 64 - (23 - v)"
      using that \<open>unat (word_of_nat v :: 64 word) = v\<close> by (simp add: unat_sub_if_size word_le_nat_alt word_size)
    with less show ?thesis by (auto simp: check_version_def)
  qed
  show ?thesis
    using pending by (simp only: Migrations_versions run) (auto simp: check_version_def)
qed

definition example_outside :: outside where
  "example_outside = \<lparr>out_InitDB = None, out_dialect = ''sqlite'', out_ping = (\<lambda>i. i = 2), out_driver = None,
     out_source = None, out_instance = None, out_version = Version 18, out_up = None\<rparr>"

lemma Run_reports_witness:
  "\<exists>n. Run False example_outside = ([Pending n], None) \<and> unat n = 18446744073709551611"
proof -
  have "(\<forall>v < 23. out_version example_outside = Version (of_nat v) \<longrightarrow>
      (\<exists>n. Run False example_outside = ([Pending n], None) \<and> unat n = 2 ^ 64 - (23 - v)))"
    by (rule Run_reports [of example_outside 2, THEN conjunct2, THEN conjunct2, THEN conjunct2, THEN conjunct2])
       (simp_all add: example_outside_def)
  then show ?thesis by (auto simp: example_outside_def dest!: spec [of _ 18])
qed

subsection \<open>The tables fit together\<close>

text \<open>
  Every reference of a table leads to a table that is created before it (or to itself) and to a
  column that is a key of that table; a table of the old generation is dropped before the tables
  it refers to.
\<close>

definition refers_back :: "sqlTable list \<Rightarrow> sqlTable \<Rightarrow> bool" where
  "refers_back xs t = list_all (\<lambda>fk. list_ex (\<lambda>s. tbl_name s = ref_table (fk_References fk) \<and>
     [ref_column (fk_References fk)] \<in> set (table_keys s)) (xs @ [t])) (tbl_foreignKeys t)"

fun all_back :: "sqlTable list \<Rightarrow> sqlTable list \<Rightarrow> bool" where
  "all_back xs [] = True"
| "all_back xs (t # ts) = (refers_back xs t \<and> all_back (xs @ [t]) ts)"

definition dropped_after :: "string \<Rightarrow> string list" where
  "dropped_after n = tl (dropWhile (\<lambda>m. m \<noteq> n) (map tbl_name (rev (tl v2Tables))))"



end
