(* ===== verification/Store.thy ===== *)
theory Store
  imports Schema
begin

text \<open>
  The statements of \<open>internal/database/database.go\<close>: placeholders, the insert-or-update that
  \<open>upsertReturning\<close> builds for each dialect, deletions and lookups, and transactions.

  A statement is a value with two readings, its text and its effect on a database. An effect
  that violates a constraint of the schema is an error. What the database system decides is a
  parameter: the ids it assigns, and whether a transaction begins and commits. So is the
  authorizer. Columns with a default that no statement writes (\<open>created_at\<close>) are left out.
\<close>

datatype db_error =
    ErrNotFound
  | ErrNotAuthorized
  | ErrNoRows
  | SqlError string
  | OtherError string
  | PatchError string
  | Errorf string db_error

record authorizer =
  au_Check :: "db \<Rightarrow> access \<Rightarrow> bool"
  au_Partial :: "access \<Rightarrow> (string \<times> string \<times> string) list \<Rightarrow> authz_error + expr option"

record database =
  d_kind :: kind
  d_new_id :: "db \<Rightarrow> string \<Rightarrow> int"
  d_begin :: "db_error option"
  d_commit :: "db \<Rightarrow> db_error option"
  d_authorizer :: authorizer

text \<open>The authorizer of \<open>New\<close>.\<close>

definition OPAuthorizer ::
    "(access \<Rightarrow> string list \<Rightarrow> string + partial_queries) \<Rightarrow> columnMapper \<Rightarrow> authorizer" where
  "OPAuthorizer opa defaults = \<lparr>au_Check = Check opa defaults, au_Partial = partial opa defaults\<rparr>"

definition Dialect :: "kind \<Rightarrow> string" where
  "Dialect k = (case k of Sqlite \<Rightarrow> ''sqlite'' | Postgres \<Rightarrow> ''postgresql'' | Cockroachdb \<Rightarrow> ''cockroachdb'' | Mysql \<Rightarrow> ''mysql'')"

subsection \<open>Statements and their text\<close>

definition arg :: "kind \<Rightarrow> nat \<Rightarrow> string" where
  "arg k i = (case k of Postgres \<Rightarrow> CHR ''$'' # Itoa (i + 1) | Cockroachdb \<Rightarrow> CHR ''$'' # Itoa (i + 1) | _ \<Rightarrow> ''?'')"

definition args :: "kind \<Rightarrow> nat \<Rightarrow> string list" where
  "args k n = map (arg k) [0..<n]"

datatype value_item = Argument nat | TenantOf nat

datatype on_conflict = DoNothing "string list" | DoUpdate "string list" "string list" | OnDuplicateKey "string list"

record insert_stmt =
  in_table :: string
  in_columns :: "string list"
  in_values :: "value_item list"
  in_conflict :: on_conflict

fun value_SQL :: "kind \<Rightarrow> value_item \<Rightarrow> string" where
  "value_SQL k (Argument i) = arg k i"
| "value_SQL k (TenantOf i) = ''(SELECT id FROM tenants WHERE tenants.name = '' @ arg k i @ '')''"

fun insert_SQL :: "kind \<Rightarrow> insert_stmt \<Rightarrow> string" where
  "insert_SQL k s =
     (let cols = strings_Join (in_columns s) '', ''; vals = strings_Join (map (value_SQL k) (in_values s)) '', '' in
      case in_conflict s of
        DoNothing pk \<Rightarrow> ''INSERT INTO '' @ in_table s @ '' ('' @ cols @ '') SELECT '' @ vals @
          '' ON CONFLICT ('' @ strings_Join pk '', '' @ '') DO NOTHING''
      | DoUpdate pk set_cols \<Rightarrow> ''INSERT INTO '' @ in_table s @ '' ('' @ cols @ '') SELECT '' @ vals @
          '' ON CONFLICT ('' @ strings_Join pk '', '' @ '') DO UPDATE SET '' @
          strings_Join (map (\<lambda>c. c @ '' = EXCLUDED.'' @ c) set_cols) '', ''
      | OnDuplicateKey set_cols \<Rightarrow> ''INSERT INTO '' @ in_table s @ '' ('' @ cols @ '') VALUES ('' @ vals @
          '') ON DUPLICATE KEY UPDATE '' @ strings_Join (map (\<lambda>c. c @ '' = VALUES('' @ c @ '')'') set_cols) '', '')"

text \<open>The statement of \<open>upsertReturning\<close>; relation tables have no tenant.\<close>

definition upsert_stmt :: "kind \<Rightarrow> string \<Rightarrow> string \<Rightarrow> string list \<Rightarrow> string list \<Rightarrow> insert_stmt" where
  "upsert_stmt k tenant tbl columns primaryKey =
     (let valueArgs = map Argument [0..<length columns];
          valueArgs = (if tenant \<noteq> [] then valueArgs @ [TenantOf (length columns)] else valueArgs);
          columns = (if tenant \<noteq> [] then columns @ [''tenant_id''] else columns);
          primaryKey = (if tenant \<noteq> [] then primaryKey @ [''tenant_id''] else primaryKey);
          set_cols = filter (\<lambda>c. c \<notin> set primaryKey) columns
      in \<lparr>in_table = tbl, in_columns = columns, in_values = valueArgs,
          in_conflict = (if k = Mysql then OnDuplicateKey columns
            else if set_cols = [] then DoNothing primaryKey else DoUpdate primaryKey set_cols)\<rparr>)"

subsection \<open>Effects\<close>

fun update_first :: "('a \<Rightarrow> bool) \<Rightarrow> ('a \<Rightarrow> 'a) \<Rightarrow> 'a list \<Rightarrow> 'a list" where
  "update_first P f [] = []"
| "update_first P f (x # xs) = (if P x then f x # xs else x # update_first P f xs)"

definition set_columns :: "string list \<Rightarrow> row \<Rightarrow> row \<Rightarrow> row" where
  "set_columns cs new r = fold (\<lambda>c. fmupd c (col new c)) cs r"

definition same_key :: "row \<Rightarrow> string list \<Rightarrow> row \<Rightarrow> bool" where
  "same_key new cs r = list_all (\<lambda>c. sql_eq (col new c) (col r c)) cs"

definition keys_of :: "string \<Rightarrow> string list list" where
  "keys_of t = (case find (\<lambda>x. tbl_name x = t) v2Tables of None \<Rightarrow> [] | Some x \<Rightarrow> table_keys x)"

definition has_id :: "string \<Rightarrow> bool" where
  "has_id t = (case find (\<lambda>x. tbl_name x = t) v2Tables of None \<Rightarrow> False
     | Some x \<Rightarrow> list_ex col_AutoIncrementPrimaryKey (tbl_columns x))"

definition tenant_id :: "db \<Rightarrow> string \<Rightarrow> val" where
  "tenant_id db name = (case find (\<lambda>r. col r ''name'' = VStr name) (db ''tenants'') of None \<Rightarrow> VNull | Some r \<Rightarrow> col r ''id'')"

fun value_of :: "db \<Rightarrow> val list \<Rightarrow> value_item \<Rightarrow> val" where
  "value_of db vs (Argument i) = vs ! i"
| "value_of db vs (TenantOf i) = (case vs ! i of VStr name \<Rightarrow> tenant_id db name | _ \<Rightarrow> VNull)"

text \<open>The row that a statement would insert.\<close>

definition new_row :: "insert_stmt \<Rightarrow> val list \<Rightarrow> db \<Rightarrow> row" where
  "new_row s vs db = fmap_of_list (zip (in_columns s) (map (value_of db vs) (in_values s)))"

definition append_row :: "database \<Rightarrow> string \<Rightarrow> row \<Rightarrow> db \<Rightarrow> row" where
  "append_row d t r db = (if has_id t then fmupd ''id'' (VInt (d_new_id d db t)) r else r)"

text \<open>
  The rows of the table after the statement, and the row that it inserted or updated. A conflict
  target that is no key of the table is an error; on MySQL any key counts.
\<close>

definition insert_rows :: "database \<Rightarrow> insert_stmt \<Rightarrow> row \<Rightarrow> db \<Rightarrow> db_error + row option \<times> row list" where
  "insert_rows d s new db =
     (let t = in_table s; rs = db t; fresh = append_row d t new db;
          upd = (\<lambda>P cs. (case find P rs of
              None \<Rightarrow> (Some fresh, rs @ [fresh])
            | Some r \<Rightarrow> (Some (set_columns cs new r), update_first P (set_columns cs new) rs)))
      in case in_conflict s of
           DoNothing pk \<Rightarrow>
             if \<not> list_ex (\<lambda>k. set k = set pk) (keys_of t) then Inl (SqlError ''conflict target'')
             else Inr (case find (same_key new pk) rs of None \<Rightarrow> (Some fresh, rs @ [fresh]) | Some r \<Rightarrow> (None, rs))
         | DoUpdate pk cs \<Rightarrow>
             if \<not> list_ex (\<lambda>k. set k = set pk) (keys_of t) then Inl (SqlError ''conflict target'')
             else Inr (upd (same_key new pk) cs)
         | OnDuplicateKey cs \<Rightarrow> Inr (upd (\<lambda>r. list_ex (\<lambda>k. same_key new k r) (keys_of t)) cs))"

definition checked_db :: "db \<Rightarrow> db_error + db" where
  "checked_db db = (if schema_ok v2Tables db then Inr db else Inl (SqlError ''constraint''))"

definition exec_insert :: "database \<Rightarrow> insert_stmt \<Rightarrow> val list \<Rightarrow> db \<Rightarrow> db_error + row option \<times> db" where
  "exec_insert d s vs db =
     result_bind (insert_rows d s (new_row s vs db) db) (\<lambda>(r, rs).
     result_bind (checked_db (db(in_table s := rs))) (\<lambda>db'. Inr (r, db')))"

fun scan_id :: "row option \<Rightarrow> db_error + int" where
  "scan_id None = Inl ErrNoRows"
| "scan_id (Some r) = (case col r ''id'' of VInt i \<Rightarrow> Inr i | _ \<Rightarrow> Inl (SqlError ''scan''))"

text \<open>The second query of MySQL: by name, in any tenant.\<close>

definition mysql_id_row :: "string \<Rightarrow> string \<Rightarrow> val \<Rightarrow> db \<Rightarrow> row option" where
  "mysql_id_row t c v db = find (\<lambda>r. list_ex (\<lambda>tr. sql_eq (col tr ''id'') (col r ''tenant_id'')) (db ''tenants'') \<and>
     sql_eq (col r c) v) (db t)"

definition upsertReturning ::
    "database \<Rightarrow> bool \<Rightarrow> string \<Rightarrow> string \<Rightarrow> string list \<Rightarrow> string list \<Rightarrow> val list \<Rightarrow> db \<Rightarrow> db_error + int \<times> db" where
  "upsertReturning d returning tenant tbl columns primaryKey values db =
     (let s = upsert_stmt (d_kind d) tenant tbl columns primaryKey;
          vs = (if tenant \<noteq> [] then values @ [VStr tenant] else values)
      in result_bind (exec_insert d s vs db) (\<lambda>(r, db').
         if \<not> returning then Inr (0, db')
         else result_bind (scan_id (if d_kind d = Mysql then mysql_id_row tbl (hd primaryKey) (hd values) db' else r))
           (\<lambda>i. Inr (i, db'))))"

definition upsert where
  "upsert d tenant tbl columns primaryKey values db = upsertReturning d True tenant tbl columns primaryKey values db"

definition upsertNoID ::
    "database \<Rightarrow> string \<Rightarrow> string \<Rightarrow> string list \<Rightarrow> string list \<Rightarrow> val list \<Rightarrow> db \<Rightarrow> db_error + db" where
  "upsertNoID d tenant tbl columns primaryKey values db =
     result_bind (upsertReturning d False tenant tbl columns primaryKey values db) (\<lambda>(i, db). Inr db)"

definition upsertRel ::
    "database \<Rightarrow> string \<Rightarrow> string list \<Rightarrow> string list \<Rightarrow> val list \<Rightarrow> db \<Rightarrow> db_error + db" where
  "upsertRel d tbl columns primaryKey values db =
     result_bind (upsertReturning d False [] tbl columns primaryKey values db) (\<lambda>(i, db). Inr db)"

text \<open>The method \<open>delete\<close>, and \<open>deleteNotIn\<close>, which without values deletes all rows of the key.\<close>

definition delete_SQL :: "kind \<Rightarrow> string \<Rightarrow> string \<Rightarrow> string" where
  "delete_SQL k tbl keyColumn = ''DELETE FROM '' @ tbl @ '' WHERE '' @ keyColumn @ '' = '' @ arg k 0"

definition delete_rows :: "string \<Rightarrow> string \<Rightarrow> val \<Rightarrow> db \<Rightarrow> db_error + db" where
  "delete_rows tbl keyColumn v db = checked_db (db(tbl := filter (\<lambda>r. \<not> sql_eq (col r keyColumn) v) (db tbl)))"

definition deleteNotIn :: "string \<Rightarrow> string \<Rightarrow> val \<Rightarrow> string \<Rightarrow> int list \<Rightarrow> db \<Rightarrow> db_error + db" where
  "deleteNotIn tbl keyColumn v column ids db =
     (if ids = [] then delete_rows tbl keyColumn v db
      else checked_db (db(tbl := filter (\<lambda>r. \<not> (sql_eq (col r keyColumn) v \<and> col r column \<noteq> VNull \<and>
        col r column \<notin> VInt ` set ids)) (db tbl))))"

text \<open>Lookups by name in a tenant; tokens have no tenant.\<close>

definition named_row :: "string \<Rightarrow> string \<Rightarrow> string \<Rightarrow> db \<Rightarrow> row option" where
  "named_row tenant tbl name db =
     find (\<lambda>r. sql_eq (col r ''name'') (VStr name) \<and> sql_eq (col r ''tenant_id'') (tenant_id db tenant)) (db tbl)"

definition resourceExists :: "string \<Rightarrow> string \<Rightarrow> string \<Rightarrow> db \<Rightarrow> bool" where
  "resourceExists tenant tbl name db =
     (if tbl = ''tokens'' then list_ex (\<lambda>r. sql_eq (col r ''name'') (VStr name)) (db tbl)
      else named_row tenant tbl name db \<noteq> None)"

definition lookupID :: "string \<Rightarrow> string \<Rightarrow> string \<Rightarrow> db \<Rightarrow> db_error + int" where
  "lookupID tenant tbl name db = scan_id (named_row tenant tbl name db)"

text \<open>\<open>executeTx\<close>: an error of the function or of the commit leaves the database as it was.\<close>

definition tx1 :: "database \<Rightarrow> (db \<Rightarrow> db_error + db) \<Rightarrow> db \<Rightarrow> db_error option \<times> db" where
  "tx1 d f db =
     (case d_begin d of
        Some e \<Rightarrow> (Some e, db)
      | None \<Rightarrow> (case f db of
          Inl e \<Rightarrow> (Some e, db)
        | Inr db' \<Rightarrow> (case d_commit d db' of Some e \<Rightarrow> (Some e, db) | None \<Rightarrow> (None, db'))))"

definition tx3 :: "database \<Rightarrow> (db \<Rightarrow> db_error + 'a) \<Rightarrow> db \<Rightarrow> db_error + 'a" where
  "tx3 d f db =
     (case d_begin d of
        Some e \<Rightarrow> Inl e
      | None \<Rightarrow> (case f db of
          Inl e \<Rightarrow> Inl e
        | Inr x \<Rightarrow> (case d_commit d db of Some e \<Rightarrow> Inl e | None \<Rightarrow> Inr x)))"

end
