(* ===== verification/Database.thy ===== *)
theory Database
  imports Store ConfigRoot TopoSort
begin

text \<open>
  The write operations of \<open>internal/database/database.go\<close>: upserts and deletions of bundles,
  sources, secrets, stacks, tokens and principals, the data of a source, and the load of a whole
  configuration. Each is a transaction over statements of \<open>Store\<close>.

  JSON and duration texts in a column are given as the values they stand for. A slice is written
  as a list also where it is nil. Parameters: the files that a source gives (\<open>Source.Files\<close>, in
  the order in which the map is iterated), the JSON parser for stored data, the patch library,
  and the expansion of environment variables.
\<close>

subsection \<open>Checks before a write\<close>

definition describe :: "string \<Rightarrow> string \<Rightarrow> string \<Rightarrow> string \<Rightarrow> access" where
  "describe prn tnt res perm = WithPermission perm (WithResource res (WithTenant tnt (WithPrincipal prn NewAccess)))"

definition prepareUpsert ::
    "database \<Rightarrow> string \<Rightarrow> string \<Rightarrow> string \<Rightarrow> string \<Rightarrow> string \<Rightarrow> string \<Rightarrow> db \<Rightarrow> db_error + db" where
  "prepareUpsert d prn tnt res nm permCreate permUpdate db =
     (if resourceExists tnt res nm db
      then (if au_Check (d_authorizer d) db (WithName nm (describe prn tnt res permUpdate)) then Inr db else Inl ErrNotAuthorized)
      else result_bind (upsertNoID d tnt ''resource_permissions'' [''name'', ''resource'', ''principal_id'', ''role'']
             [''name'', ''resource''] [VStr nm, VStr res, VStr prn, VStr ''owner''] db) (\<lambda>db'.
           if au_Check (d_authorizer d) db' (describe prn tnt res permCreate) then Inr db' else Inl ErrNotAuthorized))"

definition prepareDelete ::
    "database \<Rightarrow> string \<Rightarrow> string \<Rightarrow> string \<Rightarrow> string \<Rightarrow> string \<Rightarrow> db \<Rightarrow> db_error option" where
  "prepareDelete d prn tnt res nm permUpdate db =
     (if au_Check (d_authorizer d) db (WithName nm (describe prn tnt res permUpdate))
      then (if resourceExists tnt res nm db then None else Some ErrNotFound)
      else Some ErrNotAuthorized)"

definition guarded :: "db_error option \<Rightarrow> (db \<Rightarrow> db_error + db) \<Rightarrow> db \<Rightarrow> db_error + db" where
  "guarded e f db = (case e of Some err \<Rightarrow> Inl err | None \<Rightarrow> f db)"

text \<open>An error wrapped with a message.\<close>

fun wrap :: "string \<Rightarrow> db_error + 'a \<Rightarrow> db_error + 'a" where
  "wrap msg (Inl e) = Inl (Errorf msg e)"
| "wrap msg (Inr x) = Inr x"

definition wrap_opt :: "string option \<Rightarrow> db_error + 'a \<Rightarrow> db_error + 'a" where
  "wrap_opt msg r = (case msg of None \<Rightarrow> r | Some m \<Rightarrow> wrap m r)"

lemma wrap_Inr [simp]: "wrap msg r = Inr x \<longleftrightarrow> r = Inr x"
  by (cases r) auto

lemma wrap_opt_Inr [simp]: "wrap_opt msg r = Inr x \<longleftrightarrow> r = Inr x"
  by (cases msg) (simp_all add: wrap_opt_def)

subsection \<open>Columns\<close>

text \<open>
  A column that holds the text of a JSON value is modelled by the value, the text of a duration
  by its number. A nil slice, which is stored as \<open>null\<close>, is the empty list: they read back alike.
\<close>

definition opt_text :: "string option \<Rightarrow> val" where
  "opt_text x = (case x of None \<Rightarrow> VNull | Some s \<Rightarrow> VStr s)"

definition list_json :: "string list \<Rightarrow> val" where
  "list_json xs = VJson (AList (map AStr xs))"

definition labels_json :: "labels option \<Rightarrow> val" where
  "labels_json l = VJson (case l of None \<Rightarrow> ANull | Some m \<Rightarrow> AMap (fmmap AStr m))"

definition options_json :: "options \<Rightarrow> any" where
  "options_json o1 = AMap (fmap_of_list
     ([(''no_default_stack_mount'', ABool (opts_NoDefaultStackMount o1))] @
      (case opts_Optimization o1 of
         None \<Rightarrow> []
       | Some l \<Rightarrow> [(''optimization'', AMap (if opt_Level l = 0 then fmempty else fmap_of_list [(''level'', AInt (opt_Level l))]))]) @
      (if opts_Target o1 \<noteq> [] then [(''target'', AStr (opts_Target o1))] else [])))"

definition automount_json :: "bool option \<Rightarrow> val" where
  "automount_json a = (case a of None \<Rightarrow> VNull | Some b \<Rightarrow> VJson (AMap (fmap_of_list [(''automount'', ABool b)])))"

definition requirement_columns :: "string \<Rightarrow> string \<Rightarrow> string list" where
  "requirement_columns owner required = [owner, required, ''gitcommit'', ''path'', ''prefix'', ''options'']"

definition requirement_values :: "int \<Rightarrow> int \<Rightarrow> requirement \<Rightarrow> val list" where
  "requirement_values i reqID r =
     [VInt i, VInt reqID, opt_text (req_Commit r), VStr (req_Path r), VStr (req_Prefix r), automount_json (req_AutoMount r)]"

text \<open>
  The loop over requirements, the same for bundles, sources and stacks up to the messages: the
  requirement of each source is written, and its id is collected.
\<close>

definition upsert_requirement ::
    "database \<Rightarrow> string \<Rightarrow> string \<Rightarrow> (string \<Rightarrow> string option) \<Rightarrow> string \<Rightarrow> string \<Rightarrow> string \<Rightarrow> int \<Rightarrow> requirement \<Rightarrow>
     db \<times> int list \<Rightarrow> db_error + db \<times> int list" where
  "upsert_requirement d tnt msg rel_msg tbl owner required i r = (\<lambda>(db, ids).
     (case req_Source r of
        None \<Rightarrow> Inr (db, ids)
      | Some s \<Rightarrow>
          result_bind (wrap (msg @ s) (lookupID tnt ''sources'' s db)) (\<lambda>reqID.
          result_bind (wrap_opt (rel_msg s) (upsertRel d tbl (requirement_columns owner required) [owner, required]
             (requirement_values i reqID r) db)) (\<lambda>db.
          Inr (db, ids @ [reqID])))))"

definition upsert_requirements ::
    "database \<Rightarrow> string \<Rightarrow> string \<Rightarrow> (string \<Rightarrow> string option) \<Rightarrow> string \<Rightarrow> string \<Rightarrow> string \<Rightarrow> int \<Rightarrow> requirement list \<Rightarrow>
     db \<Rightarrow> db_error + db \<times> int list" where
  "upsert_requirements d tnt msg rel_msg tbl owner required i rs db =
     fold_result (upsert_requirement d tnt msg rel_msg tbl owner required i) rs (db, [])"

subsection \<open>Bundles\<close>

definition bundle_columns :: "string list" where
  "bundle_columns = [''name'', ''labels'', ''revision'', ''s3url'', ''s3region'', ''s3bucket'', ''s3key'', ''gcp_project'',
     ''gcp_object'', ''azure_account_url'', ''azure_container'', ''azure_path'', ''filepath'', ''excluded'',
     ''rebuild_interval'', ''options'']"

text \<open>The Google bucket is kept in the column of the Amazon one.\<close>

definition bundle_values :: "bundle_config \<Rightarrow> val list" where
  "bundle_values b =
     (let os = bun_ObjectStorage b; s3 = os_AmazonS3 os; gcp = os_GCPCloudStorage os; az = os_AzureBlobStorage os in
      [VStr (bun_Name b), labels_json (bun_Labels b), VStr (bun_Revision b),
       opt_text (map_option s3_URL s3), opt_text (map_option s3_Region s3),
       opt_text (case gcp of Some g \<Rightarrow> Some (gcp_Bucket g) | None \<Rightarrow> map_option s3_Bucket s3), opt_text (map_option s3_Key s3),
       opt_text (map_option gcp_Project gcp), opt_text (map_option gcp_Object gcp),
       opt_text (map_option az_AccountURL az), opt_text (map_option az_Container az), opt_text (map_option az_Path az),
       opt_text (map_option fs_Path (os_FileSystemStorage os)), list_json (bun_ExcludedFiles b),
       VJson (AInt (bun_Interval b)), (if Options_Empty (bun_Options b) then VNull else VJson (options_json (bun_Options b)))])"

definition link_secret :: "database \<Rightarrow> string \<Rightarrow> string \<Rightarrow> int \<Rightarrow> secretref option \<Rightarrow> db \<Rightarrow> db_error + db" where
  "link_secret d tnt ref_type i cred db =
     (case cred of
        None \<Rightarrow> Inr db
      | Some c \<Rightarrow>
          result_bind (wrap (''lookup id of secret '' @ ref_Name c) (lookupID tnt ''secrets'' (ref_Name c) db)) (\<lambda>secretID.
          wrap ''table bundles_secrets'' (upsertRel d ''bundles_secrets'' [''bundle_id'', ''secret_id'', ''ref_type'']
            [''bundle_id'', ''secret_id''] [VInt i, VInt secretID, VStr ref_type] db)))"

definition UpsertBundle_tx :: "database \<Rightarrow> string \<Rightarrow> string \<Rightarrow> bundle_config \<Rightarrow> db \<Rightarrow> db_error + db" where
  "UpsertBundle_tx d prn tnt b db =
     result_bind (prepareUpsert d prn tnt ''bundles'' (bun_Name b) ''bundles.create'' ''bundles.manage'' db) (\<lambda>db.
     result_bind (upsert d tnt ''bundles'' bundle_columns [''name''] (bundle_values b) db) (\<lambda>(i, db).
     result_bind (link_secret d tnt ''aws'' i (Option.bind (os_AmazonS3 (bun_ObjectStorage b)) s3_Credentials) db) (\<lambda>db.
     result_bind (link_secret d tnt ''gcp'' i (Option.bind (os_GCPCloudStorage (bun_ObjectStorage b)) gcp_Credentials) db) (\<lambda>db.
     result_bind (link_secret d tnt ''azure'' i (Option.bind (os_AzureBlobStorage (bun_ObjectStorage b)) az_Credentials) db) (\<lambda>db.
     result_bind (upsert_requirements d tnt ''lookup id of requirement source '' (\<lambda>n. Some ''table bundles_requirements'')
        ''bundles_requirements'' ''bundle_id'' ''source_id''
        i (slice (bun_Requirements b)) db) (\<lambda>(db, ids).
     if bun_Requirements b \<noteq> None
     then wrap ''table bundles_requirements (delete)'' (deleteNotIn ''bundles_requirements'' ''bundle_id'' (VInt i) ''source_id'' ids db)
     else Inr db))))))"

definition UpsertBundle :: "database \<Rightarrow> string \<Rightarrow> string \<Rightarrow> bundle_config \<Rightarrow> db \<Rightarrow> db_error option \<times> db" where
  "UpsertBundle d prn tnt b = tx1 d (UpsertBundle_tx d prn tnt b)"

definition DeleteBundle_tx :: "database \<Rightarrow> string \<Rightarrow> string \<Rightarrow> string \<Rightarrow> db \<Rightarrow> db_error + db" where
  "DeleteBundle_tx d prn tnt nm db =
     guarded (prepareDelete d prn tnt ''bundles'' nm ''bundles.manage'' db) (\<lambda>db.
     result_bind (wrap (''lookup bundle '' @ nm) (lookupID tnt ''bundles'' nm db)) (\<lambda>i.
     result_bind (delete_rows ''bundles_secrets'' ''bundle_id'' (VInt i) db) (\<lambda>db.
     result_bind (delete_rows ''bundles_requirements'' ''bundle_id'' (VInt i) db) (\<lambda>db.
     delete_rows ''bundles'' ''id'' (VInt i) db)))) db"

definition DeleteBundle :: "database \<Rightarrow> string \<Rightarrow> string \<Rightarrow> string \<Rightarrow> db \<Rightarrow> db_error option \<times> db" where
  "DeleteBundle d prn tnt nm = tx1 d (DeleteBundle_tx d prn tnt nm)"

subsection \<open>Sources\<close>

definition source_columns :: "string list" where
  "source_columns = [''name'', ''builtin'', ''repo'', ''ref'', ''gitcommit'', ''path'', ''git_included_files'', ''git_excluded_files'']"

definition source_values :: "source \<Rightarrow> val list" where
  "source_values s = (let g = src_Git s in
     [VStr (src_Name s), opt_text (src_Builtin s), VStr (git_Repo g), opt_text (git_Reference g), opt_text (git_Commit g),
      opt_text (git_Path g), list_json (git_IncludedFiles g), list_json (git_ExcludedFiles g)])"

definition config_json :: "(string, any) fmap option \<Rightarrow> val" where
  "config_json c = VJson (case c of None \<Rightarrow> ANull | Some m \<Rightarrow> AMap m)"

definition link_git_secret :: "database \<Rightarrow> string \<Rightarrow> int \<Rightarrow> secretref option \<Rightarrow> db \<Rightarrow> db_error + db" where
  "link_git_secret d tnt i cred db =
     (case cred of
        None \<Rightarrow> Inr db
      | Some c \<Rightarrow>
          result_bind (wrap (''lookup id of secret '' @ ref_Name c) (lookupID tnt ''secrets'' (ref_Name c) db)) (\<lambda>secretID.
          wrap (''upsert of secret link '' @ ref_Name c) (upsertRel d ''sources_secrets'' [''source_id'', ''secret_id'', ''ref_type'']
            [''source_id'', ''secret_id''] [VInt i, VInt secretID, VStr ''git_credentials''] db)))"

definition upsert_datasource :: "database \<Rightarrow> string \<Rightarrow> int \<Rightarrow> datasource \<Rightarrow> db \<Rightarrow> db_error + db" where
  "upsert_datasource d tnt i ds db =
     result_bind (case ds_Credentials ds of
         None \<Rightarrow> Inr VNull
       | Some c \<Rightarrow> result_bind (lookupID tnt ''secrets'' (ref_Name c) db) (\<lambda>secretID. Inr (VInt secretID))) (\<lambda>sec.
     wrap (''upsert of datasource link '' @ ds_Name ds) (upsertRel d ''sources_datasources''
       [''source_id'', ''name'', ''type'', ''path'', ''config'', ''transform_query'', ''secret_id''] [''source_id'', ''name'']
       [VInt i, VStr (ds_Name ds), VStr (ds_Type ds), VStr (ds_Path ds), config_json (ds_Config ds),
        VStr (ds_TransformQuery ds), sec] db))"

definition upsert_file :: "database \<Rightarrow> int \<Rightarrow> string \<times> string \<Rightarrow> db \<Rightarrow> db_error + db" where
  "upsert_file d i f db = upsertRel d ''sources_data'' [''source_id'', ''path'', ''data''] [''source_id'', ''path'']
     [VInt i, VStr (fst f), VStr (snd f)] db"

definition UpsertSource_tx ::
    "database \<Rightarrow> (source \<Rightarrow> string + (string \<times> string) list) \<Rightarrow> string \<Rightarrow> string \<Rightarrow> source \<Rightarrow> db \<Rightarrow> db_error + db" where
  "UpsertSource_tx d files prn tnt s db =
     result_bind (prepareUpsert d prn tnt ''sources'' (src_Name s) ''sources.create'' ''sources.manage'' db) (\<lambda>db.
     result_bind (upsert d tnt ''sources'' source_columns [''name''] (source_values s) db) (\<lambda>(i, db).
     result_bind (link_git_secret d tnt i (git_Credentials (src_Git s)) db) (\<lambda>db.
     result_bind (fold_result (upsert_datasource d tnt i) (src_Datasources s) db) (\<lambda>db.
     result_bind (case files s of Inl e \<Rightarrow> Inl (OtherError e) | Inr fs \<Rightarrow> fold_result (upsert_file d i) fs db) (\<lambda>db.
     result_bind (upsert_requirements d tnt ''lookup id of requirement source ''
        (\<lambda>n. Some (''upsert of requirement source link '' @ n)) ''sources_requirements'' ''source_id'' ''requirement_id''
        i (slice (src_Requirements s)) db) (\<lambda>(db, ids).
     if src_Requirements s \<noteq> None
     then deleteNotIn ''sources_requirements'' ''source_id'' (VInt i) ''requirement_id'' ids db
     else Inr db))))))"

definition UpsertSource where
  "UpsertSource d files prn tnt s = tx1 d (UpsertSource_tx d files prn tnt s)"

definition DeleteSource_tx :: "database \<Rightarrow> string \<Rightarrow> string \<Rightarrow> string \<Rightarrow> db \<Rightarrow> db_error + db" where
  "DeleteSource_tx d prn tnt nm db =
     guarded (prepareDelete d prn tnt ''sources'' nm ''sources.manage'' db) (\<lambda>db.
     result_bind (wrap (''lookup source '' @ nm) (lookupID tnt ''sources'' nm db)) (\<lambda>i.
     result_bind (delete_rows ''sources_datasources'' ''source_id'' (VInt i) db) (\<lambda>db.
     result_bind (delete_rows ''sources_secrets'' ''source_id'' (VInt i) db) (\<lambda>db.
     result_bind (delete_rows ''sources_requirements'' ''source_id'' (VInt i) db) (\<lambda>db.
     result_bind (delete_rows ''sources_data'' ''source_id'' (VInt i) db) (\<lambda>db.
     delete_rows ''sources'' ''id'' (VInt i) db)))))) db"

definition DeleteSource where
  "DeleteSource d prn tnt nm = tx1 d (DeleteSource_tx d prn tnt nm)"

subsection \<open>Secrets and stacks\<close>

definition UpsertSecret_tx :: "database \<Rightarrow> string \<Rightarrow> string \<Rightarrow> secret \<Rightarrow> db \<Rightarrow> db_error + db" where
  "UpsertSecret_tx d prn tnt s db =
     result_bind (prepareUpsert d prn tnt ''secrets'' (sec_Name s) ''secrets.create'' ''secrets.manage'' db) (\<lambda>db.
     result_bind (upsert d tnt ''secrets'' [''name'', ''value''] [''name'']
        [VStr (sec_Name s), (if gomap (sec_Value s) \<noteq> fmempty then VJson (AMap (gomap (sec_Value s))) else VNull)] db) (\<lambda>(i, db).
     Inr db))"

definition UpsertSecret where
  "UpsertSecret d prn tnt s = tx1 d (UpsertSecret_tx d prn tnt s)"

definition DeleteSecret_tx :: "database \<Rightarrow> string \<Rightarrow> string \<Rightarrow> string \<Rightarrow> db \<Rightarrow> db_error + db" where
  "DeleteSecret_tx d prn tnt nm db =
     guarded (prepareDelete d prn tnt ''secrets'' nm ''secrets.manage'' db) (\<lambda>db.
     result_bind (wrap (''lookup secret '' @ nm) (lookupID tnt ''secrets'' nm db)) (\<lambda>i.
     delete_rows ''secrets'' ''id'' (VInt i) db)) db"

definition DeleteSecret where
  "DeleteSecret d prn tnt nm = tx1 d (DeleteSecret_tx d prn tnt nm)"

definition selector_json :: "'g selector \<Rightarrow> val" where
  "selector_json s = VJson (AMap (fmmap (\<lambda>xs. AList (map AStr xs)) (sel_s s)))"

definition UpsertStack_tx :: "database \<Rightarrow> string \<Rightarrow> string \<Rightarrow> 'g stack \<Rightarrow> db \<Rightarrow> db_error + db" where
  "UpsertStack_tx d prn tnt s db =
     result_bind (prepareUpsert d prn tnt ''stacks'' (stk_Name s) ''stacks.create'' ''stacks.manage'' db) (\<lambda>db.
     result_bind (upsert d tnt ''stacks'' [''name'', ''selector'', ''exclude_selector''] [''name'']
        [VStr (stk_Name s), selector_json (stk_Selector s),
         (case stk_ExcludeSelector s of None \<Rightarrow> VNull | Some x \<Rightarrow> selector_json x)] db) (\<lambda>(i, db).
     result_bind (upsert_requirements d tnt ''lookup source '' (\<lambda>n. None) ''stacks_requirements'' ''stack_id'' ''source_id''
        i (slice (stk_Requirements s)) db) (\<lambda>(db, ids). Inr db)))"

definition UpsertStack where
  "UpsertStack d prn tnt s = tx1 d (UpsertStack_tx d prn tnt s)"

definition DeleteStack_tx :: "database \<Rightarrow> string \<Rightarrow> string \<Rightarrow> string \<Rightarrow> db \<Rightarrow> db_error + db" where
  "DeleteStack_tx d prn tnt nm db =
     guarded (prepareDelete d prn tnt ''stacks'' nm ''stacks.manage'' db) (\<lambda>db.
     result_bind (wrap (''lookup stack '' @ nm) (lookupID tnt ''stacks'' nm db)) (\<lambda>i.
     result_bind (delete_rows ''stacks_requirements'' ''stack_id'' (VInt i) db) (\<lambda>db.
     delete_rows ''stacks'' ''id'' (VInt i) db))) db"

definition DeleteStack where
  "DeleteStack d prn tnt nm = tx1 d (DeleteStack_tx d prn tnt nm)"

subsection \<open>Tokens and principals\<close>

definition UpsertPrincipalTx :: "database \<Rightarrow> string \<Rightarrow> string \<Rightarrow> string \<Rightarrow> db \<Rightarrow> db_error + db" where
  "UpsertPrincipalTx d i role tnt db = wrap ''failed to insert principal''
     (upsertNoID d tnt ''principals'' [''id'', ''role''] [''id''] [VStr i, VStr role] db)"

definition UpsertPrincipal where
  "UpsertPrincipal d i role tnt = tx1 d (UpsertPrincipalTx d i role tnt)"

definition UpsertToken_tx :: "database \<Rightarrow> string \<Rightarrow> string \<Rightarrow> token \<Rightarrow> db \<Rightarrow> db_error + db" where
  "UpsertToken_tx d prn tnt t db =
     result_bind (prepareUpsert d prn tnt ''tokens'' (tok_Name t) ''tokens.create'' ''tokens.manage'' db) (\<lambda>db.
     result_bind (upsertNoID d [] ''tokens'' [''name'', ''api_key''] [''name''] [VStr (tok_Name t), VStr (tok_APIKey t)] db) (\<lambda>db.
     UpsertPrincipalTx d (tok_Name t) (sc_Role (hd (tok_Scopes t))) tnt db))"

definition UpsertToken :: "database \<Rightarrow> string \<Rightarrow> string \<Rightarrow> token \<Rightarrow> db \<Rightarrow> db_error option \<times> db" where
  "UpsertToken d prn tnt t db =
     (if length (tok_Scopes t) \<noteq> 1 then (Some (OtherError (''exactly one scope must be provided for token '' @ tok_Name t)), db)
      else tx1 d (UpsertToken_tx d prn tnt t) db)"

text \<open>The principal of an API key: the join of principals and tokens, first row.\<close>

definition GetPrincipalID :: "string \<Rightarrow> db \<Rightarrow> string option" where
  "GetPrincipalID apiKey db =
     (case find (\<lambda>p. list_ex (\<lambda>t. sql_eq (col t ''name'') (col p ''id'') \<and> sql_eq (col t ''api_key'') (VStr apiKey)) (db ''tokens''))
        (db ''principals'') of
        None \<Rightarrow> None
      | Some p \<Rightarrow> (case col p ''id'' of VStr i \<Rightarrow> Some i | _ \<Rightarrow> None))"

subsection \<open>The data of a source\<close>

text \<open>
  Reading and deletion use the condition that partial evaluation gives. A nil condition is a nil
  dereference in the code. What is stored is a text that is parsed, or a value.
\<close>

definition data_condition :: "database \<Rightarrow> access \<Rightarrow> db_error + expr" where
  "data_condition d ad =
     (case au_Partial (d_authorizer d) ad [] of
        Inl e \<Rightarrow> Inl (OtherError ''partial evaluation'')
      | Inr None \<Rightarrow> Inl (OtherError ''nil dereference'')
      | Inr (Some e) \<Rightarrow> Inr e)"

definition data_row :: "int \<Rightarrow> string \<Rightarrow> expr \<Rightarrow> db \<Rightarrow> row \<Rightarrow> bool" where
  "data_row i path e db r \<longleftrightarrow> sql_eq (col r ''source_id'') (VInt i) \<and> sql_eq (col r ''path'') (VStr path) \<and>
     holds db [''sources_data'' \<mapsto> r] e"

definition sourcesDataGet :: "database \<Rightarrow> string \<Rightarrow> string \<Rightarrow> string \<Rightarrow> string \<Rightarrow> db \<Rightarrow> db_error + val option" where
  "sourcesDataGet d nm path prn tnt db =
     (if \<not> resourceExists tnt ''sources'' nm db then Inl ErrNotFound
      else result_bind (data_condition d (WithName nm (describe prn tnt ''sources'' ''sources.data.read''))) (\<lambda>e.
        result_bind (wrap (''lookup source name '' @ nm) (lookupID tnt ''sources'' nm db)) (\<lambda>i.
        Inr (map_option (\<lambda>r. col r ''data'') (find (data_row i path e db) (db ''sources_data''))))))"

definition unmarshal :: "(string \<Rightarrow> any option) \<Rightarrow> val \<Rightarrow> db_error + any" where
  "unmarshal parse v =
     (case v of
        VJson x \<Rightarrow> Inr x
      | VStr s \<Rightarrow> (case parse s of None \<Rightarrow> Inl (OtherError ''json'') | Some x \<Rightarrow> Inr x)
      | _ \<Rightarrow> Inl (OtherError ''scan''))"

definition SourcesDataGet where
  "SourcesDataGet d parse nm path prn tnt = tx3 d (\<lambda>db.
     result_bind (sourcesDataGet d nm path prn tnt db) (\<lambda>v. case v of
         None \<Rightarrow> Inr None
       | Some x \<Rightarrow> result_bind (unmarshal parse x) (\<lambda>y. Inr (Some y))))"

definition sourcesDataPut :: "database \<Rightarrow> string \<Rightarrow> string \<Rightarrow> any \<Rightarrow> string \<Rightarrow> string \<Rightarrow> db \<Rightarrow> db_error + db" where
  "sourcesDataPut d nm path data prn tnt db =
     (if \<not> resourceExists tnt ''sources'' nm db then Inl ErrNotFound
      else if \<not> au_Check (d_authorizer d) db (WithName nm (describe prn tnt ''sources'' ''sources.data.write''))
      then Inl (OtherError ''unauthorized'')
      else result_bind (wrap (''lookup source '' @ nm) (lookupID tnt ''sources'' nm db)) (\<lambda>i.
        upsertRel d ''sources_data'' [''source_id'', ''path'', ''data''] [''source_id'', ''path''] [VInt i, VStr path, VJson data] db))"

definition SourcesDataPut where
  "SourcesDataPut d nm path data prn tnt = tx1 d (sourcesDataPut d nm path data prn tnt)"

definition SourcesDataPatch where
  "SourcesDataPatch d apply_patch nm path prn tnt = tx1 d (\<lambda>db.
     result_bind (sourcesDataGet d nm path prn tnt db) (\<lambda>previous.
     result_bind (apply_patch previous) (\<lambda>patched.
     sourcesDataPut d nm path patched prn tnt db)))"

definition SourcesDataDelete where
  "SourcesDataDelete d nm path prn tnt = tx1 d (\<lambda>db.
     if \<not> resourceExists tnt ''sources'' nm db then Inl ErrNotFound
     else result_bind (data_condition d (WithName nm (describe prn tnt ''sources'' ''sources.data.write''))) (\<lambda>e.
       result_bind (wrap (''lookup source name '' @ nm) (lookupID tnt ''sources'' nm db)) (\<lambda>i.
       checked_db (db(''sources_data'' := filter (\<lambda>r. \<not> data_row i path e db r) (db ''sources_data''))))))"

subsection \<open>Loading a configuration\<close>

text \<open>A loop over transactions that stops at the first error; what was committed stays.\<close>

fun run_all :: "(db \<Rightarrow> db_error option \<times> db) list \<Rightarrow> db \<Rightarrow> db_error option \<times> db" where
  "run_all [] db = (None, db)"
| "run_all (f # fs) db = (case f db of (Some e, db') \<Rightarrow> (Some e, db') | (None, db') \<Rightarrow> run_all fs db')"

definition labelled :: "string \<Rightarrow> (db \<Rightarrow> db_error option \<times> db) \<Rightarrow> db \<Rightarrow> db_error option \<times> db" where
  "labelled msg f db = map_prod (map_option (Errorf msg)) id (f db)"

text \<open>The entries that are there, by name; after decoding every entry has its key as its name.\<close>

definition live :: "'a entries \<Rightarrow> (string, 'a) fmap" where
  "live m = fmmap the (fmfilter (\<lambda>k. fmlookup m k \<noteq> Some None) m)"

definition by_name :: "'a entries \<Rightarrow> 'a list" where
  "by_name m = map (\<lambda>k. the (fmlookup (live m) k)) (sorted_list_of_fset (fmdom (live m)))"

definition is_database_secret :: "'g root \<Rightarrow> secret \<Rightarrow> bool" where
  "is_database_secret rt s =
     (case Option.bind (Option.bind (root_Database rt) db_SQL) sql_Credentials of
        None \<Rightarrow> False
      | Some c \<Rightarrow> SecretRef_Equal (Some (Secret_Ref s)) (Some c))"

definition expand_config :: "(string \<Rightarrow> string) \<Rightarrow> datasource \<Rightarrow> datasource" where
  "expand_config expand ds = ds\<lparr>ds_Config := map_option (fmmap (\<lambda>v. case v of AStr s \<Rightarrow> AStr (expand s) | _ \<Rightarrow> v)) (ds_Config ds)\<rparr>"

definition load_token :: "database \<Rightarrow> (string \<Rightarrow> string) \<Rightarrow> string \<Rightarrow> string \<Rightarrow> token \<Rightarrow> db \<Rightarrow> db_error option \<times> db" where
  "load_token d expand prn tnt t db =
     (if tok_APIKey t = [] then (Some (OtherError (''token '' @ tok_Name t @ '': no API key'')), db)
      else if expand (tok_APIKey t) = [] then (Some (OtherError (''token '' @ tok_Name t @ '': no API key (after env expansion)'')), db)
      else labelled (''upsert token '' @ tok_Name t) (UpsertToken d prn tnt (t\<lparr>tok_APIKey := expand (tok_APIKey t)\<rparr>)) db)"

definition load_steps ::
    "database \<Rightarrow> (string \<Rightarrow> string) \<Rightarrow> (source \<Rightarrow> string + (string \<times> string) list) \<Rightarrow> string \<Rightarrow> string \<Rightarrow>
     source list \<Rightarrow> token list \<Rightarrow> 'g root \<Rightarrow> (db \<Rightarrow> db_error option \<times> db) list" where
  "load_steps d expand files prn tnt srcs tokens rt =
     map (\<lambda>s. labelled (''upsert source '' @ src_Name s)
       (UpsertSource d files prn tnt (s\<lparr>src_Datasources := map (expand_config expand) (src_Datasources s)\<rparr>))) srcs @
     map (\<lambda>b. labelled (''upsert bundle '' @ bun_Name b) (UpsertBundle d prn tnt b)) (by_name (root_Bundles rt)) @
     map (\<lambda>s. labelled (''upsert stack '' @ stk_Name s) (UpsertStack d prn tnt s)) (by_name (root_Stacks rt)) @
     map (load_token d expand prn tnt) tokens"

definition LoadConfig ::
    "database \<Rightarrow> (string \<Rightarrow> string) \<Rightarrow> (source \<Rightarrow> string + (string \<times> string) list) \<Rightarrow> string \<Rightarrow> string \<Rightarrow>
     token list \<Rightarrow> 'g root \<Rightarrow> db \<Rightarrow> db_error option \<times> db" where
  "LoadConfig d expand files prn tnt tokens rt db =
     (case run_all (map (\<lambda>s. labelled (''upsert secret '' @ sec_Name s) (UpsertSecret d prn tnt s))
         (filter (\<lambda>s. \<not> is_database_secret rt s) (by_name (root_Secrets rt)))) db of
        (Some e, db) \<Rightarrow> (Some e, db)
      | (None, db) \<Rightarrow> (case TopologicalSortedSources (live (root_Sources rt)) of
          Inl e \<Rightarrow> (Some (OtherError ''cycle''), db)
        | Inr srcs \<Rightarrow> run_all (load_steps d expand files prn tnt srcs tokens rt) db))"

end
