(* ===== verification/Cursor.thy ===== *)
theory Cursor
  imports Paths
begin

text \<open>
  The cursors of \<open>internal/database/database.go\<close>: the id of the last row of a page, in decimal and
  in base 64. Both codings belong to the standard library (\<open>encoding/base64\<close> with the alphabet
  for URLs, \<open>strconv\<close>); they are written out here, since a cursor comes from a client and may be
  any text. A text that is no coding counts as no cursor.
\<close>

subsection \<open>Base 64\<close>

definition b64_alphabet :: string where
  "b64_alphabet = ''ABCDEFGHIJKLMNOPQRSTUVWXYZabcdefghijklmnopqrstuvwxyz0123456789-_''"

definition b64_symbol :: "nat \<Rightarrow> char" where
  "b64_symbol n = b64_alphabet ! n"

definition b64_value :: "char \<Rightarrow> nat option" where
  "b64_value c = find (\<lambda>n. b64_symbol n = c) [0..<64]"

definition byte :: "char \<Rightarrow> nat" where
  "byte c = of_char c"

fun b64_encode :: "string \<Rightarrow> string" where
  "b64_encode [] = []"
| "b64_encode [a] = [b64_symbol (byte a div 4), b64_symbol (byte a mod 4 * 16), CHR ''='', CHR ''='']"
| "b64_encode [a, b] =
     [b64_symbol (byte a div 4), b64_symbol (byte a mod 4 * 16 + byte b div 16), b64_symbol (byte b mod 16 * 4), CHR ''='']"
| "b64_encode (a # b # c # rest) =
     [b64_symbol (byte a div 4), b64_symbol (byte a mod 4 * 16 + byte b div 16),
      b64_symbol (byte b mod 16 * 4 + byte c div 64), b64_symbol (byte c mod 64)] @ b64_encode rest"

text \<open>The decoder drops line ends; padding ends the text, and bits beyond the last byte are not looked at.\<close>

fun b64_quads :: "string \<Rightarrow> string option" where
  "b64_quads (a # b # c # d # rest) =
     (case (b64_value a, b64_value b) of
        (Some x, Some y) \<Rightarrow>
          let first = char_of (x * 4 + y div 16) in
          if c = CHR ''='' then (if d = CHR ''='' \<and> rest = [] then Some [first] else None)
          else (case b64_value c of
              None \<Rightarrow> None
            | Some z \<Rightarrow>
                let second = char_of (y mod 16 * 16 + z div 4) in
                if d = CHR ''='' then (if rest = [] then Some [first, second] else None)
                else (case b64_value d of
                    None \<Rightarrow> None
                  | Some w \<Rightarrow> map_option (\<lambda>s. first # second # char_of (z mod 4 * 64 + w) # s) (b64_quads rest)))
      | _ \<Rightarrow> None)"
| "b64_quads [] = Some []"
| "b64_quads _ = None"

definition b64_decode :: "string \<Rightarrow> string option" where
  "b64_decode s = b64_quads (filter (\<lambda>c. c \<noteq> char_of (10 :: nat) \<and> c \<noteq> char_of (13 :: nat)) s)"

lemma b64_symbols:
  assumes "n < 64"
  shows "b64_value (b64_symbol n) = Some n" and "b64_symbol n \<noteq> CHR ''=''"
    and "b64_symbol n \<noteq> char_of (10 :: nat)" and "b64_symbol n \<noteq> char_of (13 :: nat)"
proof -
  have "list_all (\<lambda>n. b64_value (b64_symbol n) = Some n \<and> b64_symbol n \<noteq> CHR ''='' \<and>
      b64_symbol n \<noteq> char_of (10 :: nat) \<and> b64_symbol n \<noteq> char_of (13 :: nat)) [0..<64]" by code_simp
  with assms show "b64_value (b64_symbol n) = Some n" "b64_symbol n \<noteq> CHR ''=''"
    "b64_symbol n \<noteq> char_of (10 :: nat)" "b64_symbol n \<noteq> char_of (13 :: nat)" by (simp_all add: list_all_iff)
qed

lemma byte_less: "byte c < 256"
  by (simp add: byte_def)

lemma byte_parts:
  "byte c div 4 < 64" "byte c div 16 < 16" "byte c div 64 < 4"
  using byte_less [of c] by auto

lemma b64_quads_encode: "b64_quads (b64_encode s) = Some s"
proof (induction s rule: b64_encode.induct)
  case (2 a)
  have "byte a mod 4 * 16 < 64" by auto
  moreover have "byte a div 4 * 4 + byte a mod 4 * 16 div 16 = byte a" by simp
  ultimately show ?case using byte_parts by (simp add: b64_symbols) (simp add: byte_def)
next
  case (3 a b)
  have "byte a mod 4 * 16 + byte b div 16 < 64" "byte b mod 16 * 4 < 64" using byte_parts(2) [of b] by linarith+
  moreover have "byte a div 4 * 4 + (byte a mod 4 * 16 + byte b div 16) div 16 = byte a"
    "(byte a mod 4 * 16 + byte b div 16) mod 16 * 16 + byte b mod 16 * 4 div 4 = byte b" using byte_parts(2) [of b] by simp_all
  ultimately show ?case using byte_parts by (simp add: b64_symbols) (simp add: byte_def)
next
  case (4 a b c rest)
  have "byte a mod 4 * 16 + byte b div 16 < 64" "byte b mod 16 * 4 + byte c div 64 < 64" "byte c mod 64 < 64"
    using byte_parts(2) [of b] byte_parts(3) [of c] by (linarith, linarith, simp)
  moreover have "byte a div 4 * 4 + (byte a mod 4 * 16 + byte b div 16) div 16 = byte a"
    "(byte a mod 4 * 16 + byte b div 16) mod 16 * 16 + (byte b mod 16 * 4 + byte c div 64) div 4 = byte b"
    "(byte b mod 16 * 4 + byte c div 64) mod 4 * 64 + byte c mod 64 = byte c"
    using byte_parts(2) [of b] byte_parts(3) [of c] by simp_all
  ultimately show ?case using 4 byte_parts by (simp add: b64_symbols) (simp add: byte_def)
qed simp

lemma padding: "CHR ''='' \<noteq> char_of (10 :: nat)" "CHR ''='' \<noteq> char_of (13 :: nat)"
  by code_simp+

lemma b64_encode_no_newline:
  "x \<in> set (b64_encode s) \<Longrightarrow> x \<noteq> char_of (10 :: nat) \<and> x \<noteq> char_of (13 :: nat)"
proof (induction s rule: b64_encode.induct)
  case (4 a b c rest)
  have "byte a mod 4 * 16 + byte b div 16 < 64" "byte b mod 16 * 4 + byte c div 64 < 64" "byte c mod 64 < 64"
    using byte_parts(2) [of b] byte_parts(3) [of c] by (linarith, linarith, simp)
  with 4 byte_parts show ?case by (auto simp: b64_symbols)
next
  case (3 a b)
  have "byte a mod 4 * 16 + byte b div 16 < 64" "byte b mod 16 * 4 < 64" using byte_parts(2) [of b] by linarith+
  with 3 byte_parts padding show ?case by (auto simp: b64_symbols)
next
  case (2 a)
  have "byte a mod 4 * 16 < 64" by auto
  with 2 byte_parts padding show ?case by (auto simp: b64_symbols)
qed simp

lemma b64_roundtrip: "b64_decode (b64_encode s) = Some s"
  by (simp add: b64_decode_def filter_True b64_encode_no_newline b64_quads_encode)

subsection \<open>Numbers\<close>

definition FormatInt :: "int \<Rightarrow> string" where
  "FormatInt i = (if i < 0 then CHR ''-'' # digits (nat (- i)) else digits (nat i))"

text \<open>\<open>ParseUint\<close> of 64 bits: a number that is too large ends the scan.\<close>

fun parse_digits :: "int \<Rightarrow> string \<Rightarrow> int option" where
  "parse_digits n [] = Some n"
| "parse_digits n (c # cs) =
     (if byte c < 48 \<or> 57 < byte c then None
      else let n1 = n * 10 + int (byte c - 48) in
        if n1 > 2 ^ 64 - 1 then Some (2 ^ 64 - 1) else parse_digits n1 cs)"

definition signed_int64 :: "bool \<Rightarrow> string \<Rightarrow> int" where
  "signed_int64 neg s =
     (if s = [] then 0
      else case parse_digits 0 s of
          None \<Rightarrow> 0
        | Some un \<Rightarrow>
            if \<not> neg \<and> un \<ge> 2 ^ 63 then 2 ^ 63 - 1
            else if neg \<and> un > 2 ^ 63 then - (2 ^ 63)
            else if neg then - un else un)"

text \<open>The value of \<open>ParseInt(s, 10, 64)\<close>, whose error is ignored.\<close>

fun ParseInt :: "string \<Rightarrow> int" where
  "ParseInt (c # s) =
     (if c = CHR ''+'' then signed_int64 False s
      else if c = CHR ''-'' then signed_int64 True s
      else signed_int64 False (c # s))"
| "ParseInt [] = 0"

lemma parse_digits_digits:
  assumes "int n < 2 ^ 64"
  shows "parse_digits 0 (digits n @ cs) = parse_digits (int n) cs"
  using assms
proof (induction n arbitrary: cs rule: digits.induct)
  case (1 n)
  show ?case
  proof (cases "n < 10")
    case True
    then have "byte (char_of (48 + n)) = 48 + n" by (simp add: byte_def)
    with True show ?thesis by (simp add: digits.simps [of n])
  next
    case False
    have b: "byte (char_of (48 + n mod 10)) = 48 + n mod 10"
      using mod_less_divisor [of 10 n] by (simp add: byte_def)
    have m: "n mod 10 < 10" by simp
    have n: "int (n div 10) * 10 + int (n mod 10) = int n" by presburger
    have "int (n div 10) < 2 ^ 64" using 1(2) by linarith
    from 1(1) [OF False this] b n 1(2) False m show ?thesis
      by (simp add: digits.simps [of n] not_less [symmetric] del: mod_less_divisor of_nat_mult of_nat_add zdiv_int zmod_int of_nat_div of_nat_mod)
  qed
qed

lemma digits_head:
  "\<exists>c cs. digits n = c # cs \<and> 48 \<le> byte c \<and> byte c \<le> 57"
proof (induction n rule: digits.induct)
  case (1 n)
  show ?case
  proof (cases "n < 10")
    case True
    then show ?thesis by (simp add: digits.simps [of n] byte_def)
  next
    case False
    with 1 show ?thesis by (auto simp: digits.simps [of n])
  qed
qed

lemma ParseInt_FormatInt:
  assumes "- (2 ^ 63) \<le> i" and "i < 2 ^ 63"
  shows "ParseInt (FormatInt i) = i"
proof -
  have *: "signed_int64 neg (digits n) =
      (if \<not> neg \<and> int n \<ge> 2 ^ 63 then 2 ^ 63 - 1 else if neg \<and> int n > 2 ^ 63 then - (2 ^ 63) else if neg then - int n else int n)"
    if "int n < 2 ^ 64" for neg n
    using parse_digits_digits [OF that, of "[]"] digits_head [of n] by (auto simp: signed_int64_def)
  obtain c cs where c: "digits (nat i) = c # cs" "48 \<le> byte c" using digits_head by blast
  then have "c \<noteq> CHR ''+''" "c \<noteq> CHR ''-''" by (auto simp: byte_def)
  show ?thesis
  proof (cases "i < 0")
    case True
    then have "int (nat (- i)) = - i" by simp
    with True assms(1) * [of "nat (- i)" True] show ?thesis by (simp add: FormatInt_def)
  next
    case False
    then have i: "int (nat i) = i" and f: "FormatInt i = digits (nat i)" by (simp_all add: FormatInt_def)
    have "signed_int64 False (digits (nat i)) = i" using * [of "nat i" False, unfolded i] assms(2) by simp
    with c \<open>c \<noteq> CHR ''+''\<close> \<open>c \<noteq> CHR ''-''\<close> show ?thesis by (simp add: f)
  qed
qed

subsection \<open>Cursors\<close>

record listOptions =
  lo_Limit :: int
  lo_Cursor :: string
  lo_name :: string

definition cursor :: "listOptions \<Rightarrow> int" where
  "cursor opts =
     (if lo_Cursor opts \<noteq> [] then (case b64_decode (lo_Cursor opts) of Some s \<Rightarrow> ParseInt s | None \<Rightarrow> 0) else 0)"

definition encodeCursor :: "int \<Rightarrow> string" where
  "encodeCursor i = b64_encode (FormatInt i)"

lemma encodeCursor_nonempty: "encodeCursor i \<noteq> []"
proof -
  obtain c cs where "digits (nat i) = c # cs" using digits_head by blast
  then have "FormatInt i \<noteq> []" by (auto simp: FormatInt_def)
  then show ?thesis unfolding encodeCursor_def by (cases "FormatInt i" rule: b64_encode.cases) auto
qed

lemma cursor_encodeCursor:
  assumes "- (2 ^ 63) \<le> i" and "i < 2 ^ 63"
  shows "cursor \<lparr>lo_Limit = n, lo_Cursor = encodeCursor i, lo_name = nm\<rparr> = i"
  using ParseInt_FormatInt [OF assms] encodeCursor_nonempty [of i] b64_roundtrip [of "FormatInt i"]
  by (simp add: cursor_def) (simp add: encodeCursor_def)

text \<open>
  The cursor of a row reads back as the id of the row, for every id of 64 bits, and is never the
  empty text that stands for no cursor.
\<close>

theorem cursor_roundtrip:
  assumes "- (2 ^ 63) \<le> i" and "i < 2 ^ 63"
  shows "encodeCursor i \<noteq> [] \<and> cursor \<lparr>lo_Limit = n, lo_Cursor = encodeCursor i, lo_name = nm\<rparr> = i"
  using cursor_encodeCursor [OF assms] encodeCursor_nonempty by simp

lemma cursor_roundtrip_witness: "cursor \<lparr>lo_Limit = 10, lo_Cursor = encodeCursor 1234567, lo_name = []\<rparr> = 1234567"
  using cursor_roundtrip [of 1234567 10 "[]"] by simp

end
