(* ===== verification/Listing.thy ===== *)
theory Listing
  imports Database Cursor
begin

text \<open>
  The queries of \<open>internal/database/database.go\<close> that list bundles, sources, stacks and secrets.
  A query selects a page of entities (condition, tenant, name, cursor, limit), joins to each the
  rows of its links and requirements, and the loop over the result collects the rows of an entity
  by its name. The joined query has no order of its own: its rows arrive in the order of an
  arbitrary \<open>rank\<close>, which is a parameter. The rows of the second query of \<open>ListSources\<close> come in the
  order of the table.
\<close>

subsection \<open>The page\<close>

definition row_id :: "row \<Rightarrow> int" where
  "row_id r = (case col r ''id'' of VInt i \<Rightarrow> i | _ \<Rightarrow> 0)"

definition list_condition :: "database \<Rightarrow> string \<Rightarrow> string \<Rightarrow> string \<Rightarrow> db_error + expr" where
  "list_condition d prn tnt res =
     (case au_Partial (d_authorizer d) (describe prn tnt res (res @ ''.view'')) [(''input.name'', res, ''name'')] of
        Inl e \<Rightarrow> Inl (OtherError ''partial evaluation'')
      | Inr None \<Rightarrow> Inl (OtherError ''nil dereference'')
      | Inr (Some e) \<Rightarrow> Inr e)"

text \<open>The join with \<open>tenants\<close>, whose \<open>id\<close> is a primary key, gives a row at most once.\<close>

definition visible :: "string \<Rightarrow> expr \<Rightarrow> string \<Rightarrow> string \<Rightarrow> db \<Rightarrow> row list" where
  "visible res e tnt nm db = sort_key row_id (filter (\<lambda>r.
     holds db [res \<mapsto> r] e \<and>
     list_ex (\<lambda>t. sql_eq (col t ''id'') (col r ''tenant_id'') \<and> sql_eq (col t ''name'') (VStr tnt)) (db ''tenants'') \<and>
     (nm \<noteq> [] \<longrightarrow> sql_eq (col r ''name'') (VStr nm))) (db res))"

definition page_of :: "listOptions \<Rightarrow> row list \<Rightarrow> row list" where
  "page_of opts rs =
     (let rs = (if cursor opts > 0 then filter (\<lambda>r. cursor opts < row_id r) rs else rs)
      in if lo_Limit opts > 0 then take (nat (lo_Limit opts)) rs else rs)"

definition entities_page :: "database \<Rightarrow> string \<Rightarrow> string \<Rightarrow> string \<Rightarrow> listOptions \<Rightarrow> db \<Rightarrow> db_error + row list" where
  "entities_page d prn tnt res opts db =
     result_bind (list_condition d prn tnt res) (\<lambda>e. Inr (page_of opts (visible res e tnt (lo_name opts) db)))"

text \<open>The largest id of the rows, and the cursor to the next page when the page is full.\<close>

definition last_id :: "int list \<Rightarrow> int" where
  "last_id is = fold max is 0"

definition nextCursor :: "listOptions \<Rightarrow> nat \<Rightarrow> int \<Rightarrow> string" where
  "nextCursor opts n i = (if lo_Limit opts > 0 \<and> int n = lo_Limit opts then encodeCursor i else [])"

subsection \<open>Joined rows\<close>

record joined =
  j_entity :: row
  j_link :: "row option"
  j_secret :: "row option"
  j_req :: "row option"
  j_source :: "row option"

definition ocol :: "row option \<Rightarrow> string \<Rightarrow> val" where
  "ocol r c = (case r of None \<Rightarrow> VNull | Some r \<Rightarrow> col r c)"

definition left_join :: "row list \<Rightarrow> string \<Rightarrow> val \<Rightarrow> row option list" where
  "left_join rs c v = (let m = filter (\<lambda>r. sql_eq (col r c) v) rs in if m = [] then [None] else map Some m)"

text \<open>
  The tables joined to an entity: the links to secrets with their column of the entity, and the
  requirements with their columns of the entity and of the required source. A stack has no links.
\<close>

definition joined_rows :: "(string \<times> string) option \<Rightarrow> string \<Rightarrow> string \<Rightarrow> string \<Rightarrow> row list \<Rightarrow> db \<Rightarrow> joined list" where
  "joined_rows links reqs oc rc page db =
     concat (map (\<lambda>r.
       concat (map (\<lambda>l. concat (map (\<lambda>s. concat (map (\<lambda>q. map (\<lambda>src.
           \<lparr>j_entity = r, j_link = l, j_secret = s, j_req = q, j_source = src\<rparr>)
         (left_join (db ''sources'') ''id'' (ocol q rc)))
         (left_join (db reqs) oc (col r ''id''))))
         (left_join (db ''secrets'') ''id'' (ocol l ''secret_id''))))
         (case links of None \<Rightarrow> [None] | Some (t, c) \<Rightarrow> left_join (db t) c (col r ''id'')))) page)"

subsection \<open>Reading columns\<close>

definition scan_string :: "val \<Rightarrow> db_error + string" where
  "scan_string v = (case v of VStr s \<Rightarrow> Inr s | _ \<Rightarrow> Inl (SqlError ''scan''))"

definition scan_pointer :: "val \<Rightarrow> db_error + string option" where
  "scan_pointer v = (case v of VNull \<Rightarrow> Inr None | VStr s \<Rightarrow> Inr (Some s) | _ \<Rightarrow> Inl (SqlError ''scan''))"

definition json_error :: "db_error + 'a" where
  "json_error = Inl (OtherError ''json'')"

fun string_of :: "any \<Rightarrow> db_error + string" where
  "string_of (AStr s) = Inr s"
| "string_of ANull = Inr []"
| "string_of _ = json_error"

fun strings_of :: "any list \<Rightarrow> db_error + string list" where
  "strings_of [] = Inr []"
| "strings_of (x # xs) = result_bind (string_of x) (\<lambda>s. result_bind (strings_of xs) (\<lambda>ss. Inr (s # ss)))"

definition read_list :: "val \<Rightarrow> db_error + string list" where
  "read_list v = (case v of VNull \<Rightarrow> Inr [] | VJson ANull \<Rightarrow> Inr [] | VJson (AList xs) \<Rightarrow> strings_of xs | _ \<Rightarrow> json_error)"

definition all_strings :: "(string, any) fmap \<Rightarrow> bool" where
  "all_strings m = fBall (fmdom m) (\<lambda>k. case string_of (the (fmlookup m k)) of Inr _ \<Rightarrow> True | Inl _ \<Rightarrow> False)"

definition read_labels :: "val \<Rightarrow> db_error + labels option" where
  "read_labels v =
     (case v of
        VNull \<Rightarrow> Inr None
      | VJson ANull \<Rightarrow> Inr None
      | VJson (AMap m) \<Rightarrow> if all_strings m then Inr (Some (fmmap (\<lambda>x. any_string (Some x)) m)) else json_error
      | _ \<Rightarrow> json_error)"

text \<open>Options, as a JSON object with the names the program writes.\<close>

definition read_level :: "any option \<Rightarrow> db_error + optimization option" where
  "read_level x =
     (case x of
        None \<Rightarrow> Inr None
      | Some ANull \<Rightarrow> Inr None
      | Some (AMap m) \<Rightarrow> (case fmlookup m ''level'' of
            None \<Rightarrow> Inr (Some \<lparr>opt_Level = 0\<rparr>)
          | Some ANull \<Rightarrow> Inr (Some \<lparr>opt_Level = 0\<rparr>)
          | Some (AInt n) \<Rightarrow> Inr (Some \<lparr>opt_Level = n\<rparr>)
          | _ \<Rightarrow> json_error)
      | _ \<Rightarrow> json_error)"

definition read_options :: "val \<Rightarrow> db_error + options" where
  "read_options v =
     (case v of
        VNull \<Rightarrow> Inr Options_zero
      | VJson ANull \<Rightarrow> Inr Options_zero
      | VJson (AMap m) \<Rightarrow>
          result_bind (case fmlookup m ''no_default_stack_mount'' of
              None \<Rightarrow> Inr False | Some ANull \<Rightarrow> Inr False | Some (ABool b) \<Rightarrow> Inr b | _ \<Rightarrow> json_error) (\<lambda>b.
          result_bind (read_level (fmlookup m ''optimization'')) (\<lambda>l.
          result_bind (case fmlookup m ''target'' of None \<Rightarrow> Inr [] | Some x \<Rightarrow> string_of x) (\<lambda>t.
          Inr \<lparr>opts_NoDefaultStackMount = b, opts_Optimization = l, opts_Target = t\<rparr>)))
      | _ \<Rightarrow> json_error)"

definition read_interval :: "val \<Rightarrow> db_error + int" where
  "read_interval v = (case v of VNull \<Rightarrow> Inr 0 | VJson (AInt n) \<Rightarrow> Inr n | _ \<Rightarrow> Inl (OtherError ''invalid duration''))"

definition read_automount :: "val \<Rightarrow> db_error + bool option" where
  "read_automount v =
     (case v of
        VNull \<Rightarrow> Inr None
      | VJson ANull \<Rightarrow> Inr None
      | VJson (AMap m) \<Rightarrow> (case fmlookup m ''automount'' of
            Some (ABool b) \<Rightarrow> if fmdrop ''automount'' m = fmempty then Inr (Some b) else Inl (OtherError ''unknown options'')
          | _ \<Rightarrow> if m = fmempty then Inr None else Inl (OtherError ''unknown options''))
      | _ \<Rightarrow> json_error)"

text \<open>\<open>sql.Null\<close> with its zero value, and the value of a secret, a JSON object.\<close>

definition or_empty :: "string option \<Rightarrow> string" where
  "or_empty x = (case x of None \<Rightarrow> [] | Some s \<Rightarrow> s)"

definition read_map :: "val \<Rightarrow> db_error + (string, any) fmap option" where
  "read_map v = (case v of VJson ANull \<Rightarrow> Inr None | VJson (AMap m) \<Rightarrow> Inr (Some m) | _ \<Rightarrow> json_error)"

text \<open>The requirement of a joined row, if it has one.\<close>

definition read_requirement :: "joined \<Rightarrow> db_error + requirement option" where
  "read_requirement j =
     (case ocol (j_source j) ''name'' of
        VStr src \<Rightarrow>
          result_bind (read_automount (ocol (j_req j) ''options'')) (\<lambda>a.
          result_bind (scan_pointer (ocol (j_req j) ''gitcommit'')) (\<lambda>c.
          result_bind (scan_pointer (ocol (j_req j) ''path'')) (\<lambda>p.
          result_bind (scan_pointer (ocol (j_req j) ''prefix'')) (\<lambda>pre.
          Inr (Some \<lparr>req_Source = Some src, req_Commit = c, req_Path = or_empty p, req_Prefix = or_empty pre, req_AutoMount = a\<rparr>)))))
      | _ \<Rightarrow> Inr None)"

definition add_requirement :: "requirement option \<Rightarrow> requirements option \<Rightarrow> requirements option" where
  "add_requirement r rs = (case r of None \<Rightarrow> rs | Some r \<Rightarrow> Some (slice rs @ [r]))"

subsection \<open>The loop over the rows\<close>

text \<open>
  The entities by name, with the id of their row. \<open>pre\<close> is what every row is checked for,
  \<open>new\<close> makes the entity of its first row, and \<open>add\<close> extends it by a row.
\<close>

type_synonym 'x collected = "(string \<times> int \<times> 'x) list"

definition collect_row ::
    "(joined \<Rightarrow> db_error + 'p) \<Rightarrow> (joined \<Rightarrow> 'p \<Rightarrow> db_error + 'x) \<Rightarrow> (joined \<Rightarrow> 'p \<Rightarrow> 'x \<Rightarrow> db_error + 'x) \<Rightarrow>
     joined \<Rightarrow> 'x collected \<Rightarrow> db_error + 'x collected" where
  "collect_row pre new add j m =
     result_bind (scan_string (col (j_entity j) ''name'')) (\<lambda>name.
     result_bind (pre j) (\<lambda>p.
     result_bind (case map_of m name of
         Some e \<Rightarrow> Inr e
       | None \<Rightarrow> result_bind (new j p) (\<lambda>x. Inr (row_id (j_entity j), x))) (\<lambda>(i, x).
     result_bind (add j p x) (\<lambda>x. Inr (map_put name (i, x) m)))))"

definition collect where
  "collect pre new add js = fold_result (collect_row pre new add) js []"

definition finish :: "listOptions \<Rightarrow> joined list \<Rightarrow> 'x collected \<Rightarrow> 'x list \<times> string" where
  "finish opts js m =
     (map (snd \<circ> snd) (sort_key (fst \<circ> snd) m), nextCursor opts (length m) (last_id (map (row_id \<circ> j_entity) js)))"

subsection \<open>Bundles\<close>

definition bundle_secret :: "joined \<Rightarrow> db_error + secret option" where
  "bundle_secret j =
     (case ocol (j_secret j) ''name'' of
        VStr n \<Rightarrow>
          (case ocol (j_secret j) ''value'' of
             VNull \<Rightarrow> Inl (OtherError ''nil dereference'')
           | v \<Rightarrow> result_bind (read_map v) (\<lambda>m. Inr (Some \<lparr>sec_Name = n, sec_Value = m\<rparr>)))
      | _ \<Rightarrow> Inr None)"

text \<open>A column of type text, which is a text or null.\<close>

definition text_of :: "row \<Rightarrow> string \<Rightarrow> string option" where
  "text_of r c = (case col r c of VStr s \<Rightarrow> Some s | _ \<Rightarrow> None)"

definition read_storage :: "row \<Rightarrow> secret option \<Rightarrow> objectstorage" where
  "read_storage r s =
     (let none = \<lparr>os_AmazonS3 = None, os_GCPCloudStorage = None, os_AzureBlobStorage = None, os_FileSystemStorage = None\<rparr> in
      case (text_of r ''s3region'', text_of r ''s3bucket'', text_of r ''s3key'') of
        (Some region, Some bucket, Some key) \<Rightarrow>
          none\<lparr>os_AmazonS3 := Some \<lparr>s3_Bucket = bucket, s3_Key = key, s3_Region = region,
            s3_Credentials = map_option Secret_Ref s, s3_URL = or_empty (text_of r ''s3url'')\<rparr>\<rparr>
      | _ \<Rightarrow> (case (text_of r ''gcp_project'', text_of r ''s3bucket'', text_of r ''gcp_object'') of
        (Some project, Some bucket, Some obj) \<Rightarrow>
          none\<lparr>os_GCPCloudStorage := Some \<lparr>gcp_Project = project, gcp_Bucket = bucket, gcp_Object = obj,
            gcp_Credentials = map_option Secret_Ref s\<rparr>\<rparr>
      | _ \<Rightarrow> (case (text_of r ''azure_account_url'', text_of r ''azure_container'', text_of r ''azure_path'') of
        (Some url, Some container, Some path) \<Rightarrow>
          none\<lparr>os_AzureBlobStorage := Some \<lparr>az_AccountURL = url, az_Container = container, az_Path = path,
            az_Credentials = map_option Secret_Ref s\<rparr>\<rparr>
      | _ \<Rightarrow> (case text_of r ''filepath'' of
        Some path \<Rightarrow> none\<lparr>os_FileSystemStorage := Some \<lparr>fs_Path = path\<rparr>\<rparr>
      | None \<Rightarrow> none))))"

definition read_bundle :: "row \<Rightarrow> secret option \<Rightarrow> db_error + bundle_config" where
  "read_bundle r s =
     result_bind (scan_string (col r ''name'')) (\<lambda>name.
     result_bind (read_labels (col r ''labels'')) (\<lambda>labels.
     result_bind (scan_pointer (col r ''revision'')) (\<lambda>revision.
     result_bind (read_options (col r ''options'')) (\<lambda>opts.
     result_bind (read_list (col r ''excluded'')) (\<lambda>excluded.
     result_bind (read_interval (col r ''rebuild_interval'')) (\<lambda>interval.
     Inr \<lparr>bun_Name = name, bun_Labels = labels, bun_Revision = or_empty revision, bun_ObjectStorage = read_storage r s,
       bun_Requirements = None, bun_ExcludedFiles = excluded, bun_Interval = interval, bun_Options = opts\<rparr>))))))"

definition add_bundle_requirement :: "joined \<Rightarrow> secret option \<Rightarrow> bundle_config \<Rightarrow> db_error + bundle_config" where
  "add_bundle_requirement j s b =
     result_bind (read_requirement j) (\<lambda>r. Inr (b\<lparr>bun_Requirements := add_requirement r (bun_Requirements b)\<rparr>))"

definition ListBundles ::
    "database \<Rightarrow> (joined \<Rightarrow> nat) \<Rightarrow> string \<Rightarrow> string \<Rightarrow> listOptions \<Rightarrow> db \<Rightarrow> db_error + bundle_config list \<times> string" where
  "ListBundles d rank prn tnt opts = tx3 d (\<lambda>db.
     result_bind (entities_page d prn tnt ''bundles'' opts db) (\<lambda>page.
     let js = sort_key rank (joined_rows (Some (''bundles_secrets'', ''bundle_id'')) ''bundles_requirements'' ''bundle_id'' ''source_id'' page db) in
     result_bind (collect bundle_secret (\<lambda>j. read_bundle (j_entity j)) add_bundle_requirement js) (\<lambda>m.
     Inr (finish opts js m))))"

text \<open>The first of the list, as the operations \<open>GetBundle\<close>, \<open>GetSource\<close>, \<open>GetStack\<close> and \<open>GetSecret\<close> take it.\<close>

definition first_of :: "db_error + 'x list \<times> string \<Rightarrow> db_error + 'x" where
  "first_of r = result_bind r (\<lambda>(xs, c). case xs of [] \<Rightarrow> Inl ErrNotFound | x # _ \<Rightarrow> Inr x)"

definition named :: "string \<Rightarrow> listOptions" where
  "named n = \<lparr>lo_Limit = 0, lo_Cursor = [], lo_name = n\<rparr>"

definition GetBundle where
  "GetBundle d rank prn tnt n db = first_of (ListBundles d rank prn tnt (named n) db)"

subsection \<open>Stacks\<close>

definition strings_list_of :: "any \<Rightarrow> db_error + string list" where
  "strings_list_of x = read_list (VJson x)"

definition read_selector :: "(string \<Rightarrow> 'g option) \<Rightarrow> val \<Rightarrow> db_error + 'g selector" where
  "read_selector compile v =
     (let build = (\<lambda>m. fold_result (\<lambda>k s.
          result_bind (strings_list_of (the (fmlookup m k))) (\<lambda>xs.
          case Selector_Set compile k xs s of Inl e \<Rightarrow> Inl (OtherError ''pattern'') | Inr s \<Rightarrow> Inr s))
          (sorted_list_of_fset (fmdom m)) new_selector) in
      case v of VJson ANull \<Rightarrow> Inr new_selector | VJson (AMap m) \<Rightarrow> build m | _ \<Rightarrow> json_error)"

definition new_stack :: "(string \<Rightarrow> 'g option) \<Rightarrow> joined \<Rightarrow> 'g selector \<Rightarrow> db_error + 'g stack" where
  "new_stack compile j sel =
     result_bind (scan_string (col (j_entity j) ''name'')) (\<lambda>name.
     result_bind (case col (j_entity j) ''exclude_selector'' of
         VNull \<Rightarrow> Inr None
       | v \<Rightarrow> result_bind (read_selector compile v) (\<lambda>x. Inr (Some x))) (\<lambda>ex.
     Inr \<lparr>stk_Name = name, stk_Selector = sel, stk_ExcludeSelector = ex, stk_Requirements = None\<rparr>))"

definition add_stack_requirement :: "joined \<Rightarrow> 'g selector \<Rightarrow> 'g stack \<Rightarrow> db_error + 'g stack" where
  "add_stack_requirement j sel s =
     result_bind (read_requirement j) (\<lambda>r. Inr (s\<lparr>stk_Requirements := add_requirement r (stk_Requirements s)\<rparr>))"

definition ListStacks ::
    "database \<Rightarrow> (joined \<Rightarrow> nat) \<Rightarrow> (string \<Rightarrow> 'g option) \<Rightarrow> string \<Rightarrow> string \<Rightarrow> listOptions \<Rightarrow> db \<Rightarrow>
     db_error + 'g stack list \<times> string" where
  "ListStacks d rank compile prn tnt opts = tx3 d (\<lambda>db.
     result_bind (entities_page d prn tnt ''stacks'' opts db) (\<lambda>page.
     let js = sort_key rank (joined_rows None ''stacks_requirements'' ''stack_id'' ''source_id'' page db) in
     result_bind (collect (\<lambda>j. read_selector compile (col (j_entity j) ''selector'')) (new_stack compile) add_stack_requirement js) (\<lambda>m.
     Inr (finish opts js m))))"

definition GetStack where
  "GetStack d rank compile prn tnt n db = first_of (ListStacks d rank compile prn tnt (named n) db)"

subsection \<open>Sources\<close>

definition source_secret :: "joined \<Rightarrow> db_error + secret option" where
  "source_secret j =
     (if ocol (j_link j) ''ref_type'' = VStr ''git_credentials'' then
        (case ocol (j_secret j) ''name'' of
           VStr n \<Rightarrow> result_bind (case ocol (j_secret j) ''value'' of VNull \<Rightarrow> Inr None | v \<Rightarrow> read_map v) (\<lambda>m.
             Inr (Some \<lparr>sec_Name = n, sec_Value = m\<rparr>))
         | _ \<Rightarrow> Inr None)
      else Inr None)"

definition read_source :: "row \<Rightarrow> db_error + source" where
  "read_source r =
     result_bind (scan_string (col r ''name'')) (\<lambda>name.
     result_bind (scan_pointer (col r ''builtin'')) (\<lambda>builtin.
     result_bind (scan_string (col r ''repo'')) (\<lambda>repo.
     result_bind (scan_pointer (col r ''ref'')) (\<lambda>ref.
     result_bind (scan_pointer (col r ''gitcommit'')) (\<lambda>commit.
     result_bind (scan_pointer (col r ''path'')) (\<lambda>path.
     result_bind (read_list (col r ''git_included_files'')) (\<lambda>included.
     result_bind (read_list (col r ''git_excluded_files'')) (\<lambda>excluded.
     Inr \<lparr>src_ID = row_id r, src_Name = name, src_Builtin = builtin,
       src_Git = \<lparr>git_Repo = repo, git_Reference = ref, git_Commit = commit, git_Path = path, git_IncludedFiles = included,
         git_ExcludedFiles = excluded, git_Credentials = None\<rparr>,
       src_Datasources = [], src_EmbeddedFiles = None, src_Directory = [], src_Paths = [], src_Requirements = None\<rparr>))))))))"

text \<open>Of each row first the credentials, then the requirement.\<close>

definition add_source_row :: "joined \<Rightarrow> unit \<Rightarrow> source \<Rightarrow> db_error + source" where
  "add_source_row j u s =
     result_bind (source_secret j) (\<lambda>sec.
     result_bind (read_requirement j) (\<lambda>r.
     Inr (s\<lparr>src_Git := (case sec of None \<Rightarrow> src_Git s | Some x \<Rightarrow> (src_Git s)\<lparr>git_Credentials := Some (Secret_Ref x)\<rparr>),
       src_Requirements := add_requirement r (src_Requirements s)\<rparr>)))"

text \<open>The second query reads the data sources of all sources, which are attached by the name of the source.\<close>

definition datasource_rows :: "db \<Rightarrow> (row \<times> row option \<times> row option) list" where
  "datasource_rows db =
     concat (map (\<lambda>r. concat (map (\<lambda>sec. map (\<lambda>src. (r, sec, src))
       (left_join (db ''sources'') ''id'' (col r ''source_id'')))
       (left_join (db ''secrets'') ''id'' (col r ''secret_id'')))) (db ''sources_datasources''))"

definition read_datasource :: "row \<Rightarrow> row option \<Rightarrow> db_error + datasource" where
  "read_datasource r sec =
     result_bind (scan_string (col r ''name'')) (\<lambda>name.
     result_bind (scan_string (col r ''path'')) (\<lambda>path.
     result_bind (scan_string (col r ''type'')) (\<lambda>type.
     result_bind (scan_string (col r ''transform_query'')) (\<lambda>query.
     result_bind (read_map (col r ''config'')) (\<lambda>conf.
     result_bind (case (ocol sec ''name'', ocol sec ''value'') of
         (VStr n, VNull) \<Rightarrow> Inr None
       | (VStr n, v) \<Rightarrow> result_bind (read_map v) (\<lambda>m. Inr (Some (Secret_Ref \<lparr>sec_Name = n, sec_Value = m\<rparr>)))
       | _ \<Rightarrow> Inr None) (\<lambda>cred.
     Inr \<lparr>ds_Name = name, ds_Path = path, ds_Type = type, ds_TransformQuery = query, ds_Config = conf, ds_Credentials = cred\<rparr>))))))"

definition attach :: "row \<times> row option \<times> row option \<Rightarrow> source collected \<Rightarrow> db_error + source collected" where
  "attach x m = (case x of (r, sec, src) \<Rightarrow>
     result_bind (scan_string (ocol src ''name'')) (\<lambda>n.
     result_bind (read_datasource r sec) (\<lambda>ds.
     Inr (case map_of m n of
         None \<Rightarrow> m
       | Some (i, s) \<Rightarrow> map_put n (i, s\<lparr>src_Datasources := src_Datasources s @ [ds]\<rparr>) m))))"

definition ListSources ::
    "database \<Rightarrow> (joined \<Rightarrow> nat) \<Rightarrow> string \<Rightarrow> string \<Rightarrow> listOptions \<Rightarrow> db \<Rightarrow> db_error + source list \<times> string" where
  "ListSources d rank prn tnt opts = tx3 d (\<lambda>db.
     result_bind (entities_page d prn tnt ''sources'' opts db) (\<lambda>page.
     let js = filter (\<lambda>j. ocol (j_link j) ''ref_type'' \<in> {VStr ''git_credentials'', VNull})
           (sort_key rank (joined_rows (Some (''sources_secrets'', ''source_id'')) ''sources_requirements'' ''source_id'' ''requirement_id'' page db)) in
     result_bind (collect (\<lambda>j. Inr ()) (\<lambda>j u. read_source (j_entity j)) add_source_row js) (\<lambda>m.
     result_bind (fold_result attach (datasource_rows db) m) (\<lambda>m.
     Inr (finish opts js m)))))"

definition GetSource where
  "GetSource d rank prn tnt n db = first_of (ListSources d rank prn tnt (named n) db)"

subsection \<open>Secrets, tenants and the data of a source\<close>

fun read_names :: "row list \<Rightarrow> db_error + string list" where
  "read_names [] = Inr []"
| "read_names (r # rs) = result_bind (scan_string (col r ''name'')) (\<lambda>n. result_bind (read_names rs) (\<lambda>ns. Inr (n # ns)))"

definition ListSecrets :: "database \<Rightarrow> string \<Rightarrow> string \<Rightarrow> listOptions \<Rightarrow> db \<Rightarrow> db_error + secretref list \<times> string" where
  "ListSecrets d prn tnt opts = tx3 d (\<lambda>db.
     result_bind (entities_page d prn tnt ''secrets'' opts db) (\<lambda>page.
     result_bind (read_names page) (\<lambda>ns.
     Inr (map (\<lambda>n. \<lparr>ref_Name = n, ref_value = None\<rparr>) ns, nextCursor opts (length ns) (last_id (map row_id page))))))"

definition GetSecret where
  "GetSecret d prn tnt n db = first_of (ListSecrets d prn tnt (named n) db)"

definition Tenants :: "db \<Rightarrow> db_error + string list" where
  "Tenants db = read_names (db ''tenants'')"

definition QuerySourceID :: "string \<Rightarrow> string \<Rightarrow> db \<Rightarrow> db_error + int" where
  "QuerySourceID tnt nm db = scan_id (find (\<lambda>r. list_ex (\<lambda>t. sql_eq (col t ''id'') (col r ''tenant_id'') \<and>
     sql_eq (col t ''name'') (VStr tnt)) (db ''tenants'') \<and> sql_eq (col r ''name'') (VStr nm)) (db ''sources''))"

definition QuerySourceData :: "int \<Rightarrow> db \<Rightarrow> (val \<times> val) list" where
  "QuerySourceData i db = map (\<lambda>r. (col r ''path'', col r ''data'')) (filter (\<lambda>r. sql_eq (col r ''source_id'') (VInt i)) (db ''sources_data''))"

subsection \<open>Reading what was written\<close>

lemma strings_of_AStr [simp]: "strings_of (map AStr xs) = Inr xs"
  by (induction xs) simp_all

lemma read_list_json [simp]: "read_list (list_json xs) = Inr xs"
  by (simp add: read_list_def list_json_def)

lemma read_labels_json [simp]: "read_labels (labels_json l) = Inr l"
proof (cases l)
  case (Some m)
  have "all_strings (fmmap AStr m)"
    by (auto simp: all_strings_def fBall_alt_def fmlookup_dom_iff)
  moreover have "fmmap (\<lambda>x. any_string (Some x)) (fmmap AStr m) = m"
    by (rule fmap_ext) (simp add: option.map_comp comp_def option.map_ident)
  ultimately show ?thesis by (simp add: Some labels_json_def read_labels_def)
qed (simp add: labels_json_def read_labels_def)

lemma read_options_json [simp]: "read_options (VJson (options_json o1)) = Inr o1"
  by (cases "opts_Optimization o1"; cases "opts_Target o1 = []")
    (auto simp: read_options_def options_json_def read_level_def fmap_of_list.rep_eq intro!: options.equality optimization.equality)

lemma read_automount_json [simp]: "read_automount (automount_json a) = Inr a"
  by (cases a) (auto simp: read_automount_def automount_json_def fmap_of_list.rep_eq intro!: fmap_ext)

text \<open>
  What is read of the storage: the first of the kinds that is configured, with the credentials of the
  joined secret. The bucket of Google's storage is kept in the column of Amazon's.
\<close>

definition stored_storage :: "objectstorage \<Rightarrow> secret option \<Rightarrow> objectstorage" where
  "stored_storage os s =
     (let none = \<lparr>os_AmazonS3 = None, os_GCPCloudStorage = None, os_AzureBlobStorage = None, os_FileSystemStorage = None\<rparr>;
          cred = map_option Secret_Ref s in
      case os_AmazonS3 os of
        Some a \<Rightarrow> none\<lparr>os_AmazonS3 := Some (a\<lparr>s3_Credentials := cred,
          s3_Bucket := (case os_GCPCloudStorage os of Some g \<Rightarrow> gcp_Bucket g | None \<Rightarrow> s3_Bucket a)\<rparr>)\<rparr>
      | None \<Rightarrow> (case os_GCPCloudStorage os of
        Some g \<Rightarrow> none\<lparr>os_GCPCloudStorage := Some (g\<lparr>gcp_Credentials := cred\<rparr>)\<rparr>
      | None \<Rightarrow> (case os_AzureBlobStorage os of
        Some z \<Rightarrow> none\<lparr>os_AzureBlobStorage := Some (z\<lparr>az_Credentials := cred\<rparr>)\<rparr>
      | None \<Rightarrow> none\<lparr>os_FileSystemStorage := os_FileSystemStorage os\<rparr>)))"

lemma read_storage_columns:
  assumes "map (col r) bundle_columns = bundle_values b"
  shows "read_storage r s = stored_storage (bun_ObjectStorage b) s"
proof -
  let ?os = "bun_ObjectStorage b"
  have reads: "text_of r c = x" if "col r c = opt_text x" for c x
    using that by (cases x) (simp_all add: text_of_def opt_text_def)
  note v = assms [unfolded bundle_columns_def bundle_values_def Let_def list.map list.inject]
  have "text_of r ''s3url'' = map_option s3_URL (os_AmazonS3 ?os)" "text_of r ''s3region'' = map_option s3_Region (os_AmazonS3 ?os)"
    "text_of r ''s3bucket'' = (case os_GCPCloudStorage ?os of Some g \<Rightarrow> Some (gcp_Bucket g) | None \<Rightarrow> map_option s3_Bucket (os_AmazonS3 ?os))"
    "text_of r ''s3key'' = map_option s3_Key (os_AmazonS3 ?os)" "text_of r ''gcp_project'' = map_option gcp_Project (os_GCPCloudStorage ?os)"
    "text_of r ''gcp_object'' = map_option gcp_Object (os_GCPCloudStorage ?os)"
    "text_of r ''azure_account_url'' = map_option az_AccountURL (os_AzureBlobStorage ?os)"
    "text_of r ''azure_container'' = map_option az_Container (os_AzureBlobStorage ?os)"
    "text_of r ''azure_path'' = map_option az_Path (os_AzureBlobStorage ?os)"
    "text_of r ''filepath'' = map_option fs_Path (os_FileSystemStorage ?os)"
    using v by (intro reads; simp)+
  then show ?thesis
    by (cases "os_AmazonS3 ?os"; cases "os_GCPCloudStorage ?os"; cases "os_AzureBlobStorage ?os"; cases "os_FileSystemStorage ?os")
      (simp_all add: read_storage_def stored_storage_def or_empty_def)
qed

text \<open>
  C38: A row that holds the values an update writes for a bundle reads back as the bundle: name,
  labels, revision, excluded files, interval and options are the same, and the storage is the
  first of Amazon, Google, Azure and file system that is configured. When both Amazon's and Google's
  are configured, Amazon's comes back with the bucket of Google's.
\<close>

theorem bundle_columns_roundtrip:
  assumes "map (col r) bundle_columns = bundle_values b"
  shows "read_bundle r s = Inr (b\<lparr>bun_ObjectStorage := stored_storage (bun_ObjectStorage b) s, bun_Requirements := None\<rparr>)"
proof -
  note v = assms [unfolded bundle_columns_def bundle_values_def Let_def list.map list.inject]
  have "read_options (col r ''options'') = Inr (bun_Options b)"
  proof (cases "Options_Empty (bun_Options b)")
    case True
    then have "bun_Options b = Options_zero" by (auto simp: Options_Empty_def Options_zero_def intro!: options.equality)
    moreover have "col r ''options'' = VNull" using v True by simp
    ultimately show ?thesis by (simp add: read_options_def)
  next
    case False
    with v have "col r ''options'' = VJson (options_json (bun_Options b))" by simp
    then show ?thesis by simp
  qed
  moreover have "col r ''name'' = VStr (bun_Name b)" "read_labels (col r ''labels'') = Inr (bun_Labels b)"
    "col r ''revision'' = VStr (bun_Revision b)" "read_list (col r ''excluded'') = Inr (bun_ExcludedFiles b)"
    "read_interval (col r ''rebuild_interval'') = Inr (bun_Interval b)"
    using v by (simp_all add: read_interval_def)
  ultimately show ?thesis
    using read_storage_columns [OF assms, of s] by (simp add: read_bundle_def scan_string_def scan_pointer_def or_empty_def)
qed

definition two_clouds :: bundle_config where
  "two_clouds = \<lparr>bun_Name = ''app'', bun_Labels = Some (fmap_of_list [(''env'', ''prod'')]), bun_Revision = [],
     bun_ObjectStorage = \<lparr>os_AmazonS3 = Some \<lparr>s3_Bucket = ''one'', s3_Key = ''k'', s3_Region = ''r'', s3_Credentials = None, s3_URL = []\<rparr>,
       os_GCPCloudStorage = Some \<lparr>gcp_Project = ''p'', gcp_Bucket = ''two'', gcp_Object = ''o'', gcp_Credentials = None\<rparr>,
       os_AzureBlobStorage = None, os_FileSystemStorage = None\<rparr>,
     bun_Requirements = None, bun_ExcludedFiles = [''*.md''], bun_Interval = 30, bun_Options = Options_zero\<lparr>opts_Target := ''wasm''\<rparr>\<rparr>"

lemma bundle_columns_roundtrip_witness:
  "map_sum id (\<lambda>b. (bun_Options b, os_AmazonS3 (bun_ObjectStorage b), os_GCPCloudStorage (bun_ObjectStorage b)))
     (read_bundle (fmap_of_list (zip bundle_columns (bundle_values two_clouds))) None) =
   Inr (Options_zero\<lparr>opts_Target := ''wasm''\<rparr>, Some \<lparr>s3_Bucket = ''two'', s3_Key = ''k'', s3_Region = ''r'', s3_Credentials = None, s3_URL = []\<rparr>, None)"
proof -
  have "map (col (fmap_of_list (zip bundle_columns (bundle_values two_clouds)))) bundle_columns = bundle_values two_clouds" by code_simp
  from bundle_columns_roundtrip [OF this] show ?thesis by (simp add: two_clouds_def stored_storage_def)
qed

end
