(* ===== verification/Tenancy.thy ===== *)
theory Tenancy
  imports Database
begin

text \<open>
  What a write may touch. Every table but \<open>tenants\<close> and \<open>tokens\<close> belongs to tenants, by its own
  \<open>tenant_id\<close> or by the entity that a row refers to; \<open>others\<close> is the part of a database that
  does not belong to a tenant. The lemmas show for each statement, and then for each operation,
  that it keeps the constraints and the part of the others. On MySQL an entity is looked up by
  its name alone after an upsert, which breaks this; the last section gives the example.
\<close>

subsection \<open>The rows of other tenants\<close>

definition owner_of :: "string \<Rightarrow> (string \<times> string) option" where
  "owner_of = map_of [(''bundles_secrets'', (''bundle_id'', ''bundles'')), (''bundles_requirements'', (''bundle_id'', ''bundles'')),
     (''stacks_requirements'', (''stack_id'', ''stacks'')), (''sources_requirements'', (''source_id'', ''sources'')),
     (''sources_secrets'', (''source_id'', ''sources'')), (''sources_data'', (''source_id'', ''sources'')),
     (''sources_datasources'', (''source_id'', ''sources''))]"

definition others :: "val \<Rightarrow> db \<Rightarrow> string \<Rightarrow> row list" where
  "others tid db t =
     (case owner_of t of
        Some (oc, et) \<Rightarrow> filter (\<lambda>r. list_ex (\<lambda>e. col e ''tenant_id'' \<noteq> tid \<and> col e ''id'' = col r oc) (db et)) (db t)
      | None \<Rightarrow> if t = ''tokens'' then [] else if t = ''tenants'' then db t else filter (\<lambda>r. col r ''tenant_id'' \<noteq> tid) (db t))"

lemma owner_of_entity: "owner_of t = Some (oc, et) \<Longrightarrow> et \<in> {''bundles'', ''stacks'', ''sources''}"
  unfolding owner_of_def by (drule map_of_SomeD) auto

lemma entity_no_owner: "et \<in> {''bundles'', ''stacks'', ''sources'', ''secrets'', ''tokens'', ''tenants'', ''principals'', ''resource_permissions''} \<Longrightarrow>
    owner_of et = None"
  unfolding owner_of_def by (elim insertE) simp_all

lemma owner_of_not_entity:
  assumes "owner_of t = Some (oc, et)"
  shows "owner_of et = None" and "et \<noteq> ''tokens''" and "et \<noteq> ''tenants''" and "et \<noteq> t" and "owner_of u \<noteq> Some (oc', t)"
    and "t \<noteq> ''tokens''" and "t \<noteq> ''tenants''"
proof -
  have et: "et \<in> {''bundles'', ''stacks'', ''sources''}" using assms by (rule owner_of_entity)
  then show "owner_of et = None" by (elim insertE) (simp_all add: entity_no_owner)
  then show "et \<noteq> t" using assms by auto
  show "et \<noteq> ''tokens''" "et \<noteq> ''tenants''" using et by auto
  show "owner_of u \<noteq> Some (oc', t)"
  proof
    assume "owner_of u = Some (oc', t)"
    then have "t \<in> {''bundles'', ''stacks'', ''sources''}" by (rule owner_of_entity)
    then have "owner_of t = None" by (elim insertE) (simp_all add: entity_no_owner)
    with assms show False by simp
  qed
  show "t \<noteq> ''tokens''" "t \<noteq> ''tenants''"
    using assms entity_no_owner [of "''tokens''"] entity_no_owner [of "''tenants''"] by (metis insertCI option.distinct(1))+
qed

lemma list_ex_filter: "list_ex (\<lambda>e. P e \<and> Q e) xs = list_ex Q (filter P xs)"
  by (auto simp: list_ex_iff)

lemma others_tenant_update:
  assumes "owner_of t = None" and "t \<noteq> ''tokens''" and "t \<noteq> ''tenants''"
    and "filter (\<lambda>r. col r ''tenant_id'' \<noteq> tid) rs = filter (\<lambda>r. col r ''tenant_id'' \<noteq> tid) (db t)"
  shows "others tid (db(t := rs)) = others tid db"
proof (rule ext)
  fix u
  show "others tid (db(t := rs)) u = others tid db u"
  proof (cases "owner_of u")
    case None
    then show ?thesis using assms by (simp add: others_def)
  next
    case (Some p)
    obtain oc et where p: "p = (oc, et)" by (cases p)
    have "u \<noteq> t" using Some assms(1) by auto
    then show ?thesis
      using assms(4) by (simp add: others_def Some p list_ex_filter)
  qed
qed

lemma others_owned_update:
  assumes t: "owner_of t = Some (oc, et)"
    and rs: "filter (\<lambda>r. col r oc \<noteq> v) rs = filter (\<lambda>r. col r oc \<noteq> v) (db t)"
    and v: "\<forall>e \<in> set (db et). col e ''id'' = v \<longrightarrow> col e ''tenant_id'' = tid"
  shows "others tid (db(t := rs)) = others tid db"
proof (rule ext)
  fix u
  note et = owner_of_not_entity(4,5) [OF t]
  show "others tid (db(t := rs)) u = others tid db u"
  proof (cases "u = t")
    case True
    let ?P = "\<lambda>r. list_ex (\<lambda>e. col e ''tenant_id'' \<noteq> tid \<and> col e ''id'' = col r oc) (db et)"
    have P: "?P r \<Longrightarrow> col r oc \<noteq> v" for r
      using v by (auto simp: list_ex_iff)
    have eq: "filter ?P xs = filter ?P (filter (\<lambda>r. col r oc \<noteq> v) xs)" for xs
      unfolding filter_filter by (rule filter_cong) (use P in blast)+
    have "filter ?P rs = filter ?P (filter (\<lambda>r. col r oc \<noteq> v) rs)" by (rule eq)
    also have "\<dots> = filter ?P (filter (\<lambda>r. col r oc \<noteq> v) (db t))" by (simp only: rs)
    also have "\<dots> = filter ?P (db t)" by (rule eq [symmetric])
    finally have "filter ?P rs = filter ?P (db t)" .
    then show ?thesis
      unfolding True others_def t option.case prod.case fun_upd_same fun_upd_other [OF et(1)] .
  next
    case False
    then show ?thesis using et(2) by (auto simp: others_def split: option.splits)
  qed
qed

lemma others_tokens_update: "others tid (db(''tokens'' := rs)) = others tid db"
proof (rule ext)
  fix u
  show "others tid (db(''tokens'' := rs)) u = others tid db u"
    using owner_of_not_entity(2,6) [of u] entity_no_owner [of "''tokens''"]
    by (cases "owner_of u") (simp_all add: others_def split: prod.splits)
qed

subsection \<open>Constraints\<close>

lemma unique_on_inj:
  assumes "unique_on [c] rs" and "x \<in> set rs" and "y \<in> set rs" and "col x c = col y c" and "col x c \<noteq> VNull"
  shows "x = y"
  using assms by (induction rs) (auto simp: unique_on_Cons)

lemma id_unique:
  assumes "schema_ok v2Tables db" and "et \<in> {''bundles'', ''stacks'', ''sources'', ''secrets''}"
    and "x \<in> set (db et)" and "y \<in> set (db et)" and "col x ''id'' = VInt i" and "col y ''id'' = VInt i"
  shows "x = y"
proof -
  have "list_all (\<lambda>t. list_ex (\<lambda>s. tbl_name s = t \<and> [''id''] \<in> set (table_keys s)) v2Tables)
      [''bundles'', ''stacks'', ''sources'', ''secrets'']"
    by code_simp
  with assms(1,2) have "unique_on [''id''] (db et)"
    unfolding schema_ok_def table_ok_def list_all_iff list_ex_iff by auto
  from unique_on_inj [OF this assms(3,4)] assms(5,6) show ?thesis by simp
qed

definition owns :: "val \<Rightarrow> string \<Rightarrow> int \<Rightarrow> db \<Rightarrow> bool" where
  "owns tid et i db \<longleftrightarrow> list_ex (\<lambda>e. col e ''tenant_id'' = tid \<and> col e ''id'' = VInt i) (db et)"

text \<open>What is kept of a database: its constraints, the part of the others, the tenants.\<close>

definition kept :: "val \<Rightarrow> db \<Rightarrow> db \<Rightarrow> bool" where
  "kept tid db0 db \<longleftrightarrow> schema_ok v2Tables db \<and> others tid db = others tid db0 \<and> db ''tenants'' = db0 ''tenants''"

lemma kept_refl: "schema_ok v2Tables db \<Longrightarrow> kept tid db db"
  by (simp add: kept_def)

lemma kept_tenant_id: "kept tid db0 db \<Longrightarrow> tenant_id db n = tenant_id db0 n"
  by (simp add: kept_def tenant_id_def)

lemma kept_owns:
  assumes "kept tid db0 db" and "owns tid et i db" and "et \<in> {''bundles'', ''stacks'', ''sources''}"
  shows "\<forall>e \<in> set (db et). col e ''id'' = VInt i \<longrightarrow> col e ''tenant_id'' = tid"
proof (intro ballI impI)
  fix e
  assume e: "e \<in> set (db et)" "col e ''id'' = VInt i"
  from assms(2) obtain x where x: "x \<in> set (db et)" "col x ''tenant_id'' = tid" "col x ''id'' = VInt i"
    by (auto simp: owns_def list_ex_iff)
  have "e = x"
    by (rule id_unique [where db = db and et = et and i = i]) (use assms e x in \<open>auto simp: kept_def\<close>)
  with x show "col e ''tenant_id'' = tid" by simp
qed

subsection \<open>Statements\<close>

lemma checked_db_Inr [simp]: "checked_db db = Inr db' \<longleftrightarrow> schema_ok v2Tables db \<and> db' = db"
  by (auto simp: checked_db_def)

lemma col_set_columns: "c \<notin> set cs \<Longrightarrow> col (set_columns cs new r) c = col r c"
  unfolding set_columns_def by (induction cs arbitrary: r) (auto simp: col_def)

lemma col_append_row: "c \<noteq> ''id'' \<Longrightarrow> col (append_row d t r db) c = col r c"
  by (simp add: append_row_def col_def)

lemma filter_update_first:
  assumes "\<And>x. P x \<Longrightarrow> \<not> R x \<and> \<not> R (f x)"
  shows "filter R (update_first P f xs) = filter R xs"
  by (induction xs) (auto simp: assms)

lemma same_keyD: "same_key new cs r \<Longrightarrow> c \<in> set cs \<Longrightarrow> col r c = col new c"
  by (auto simp: same_key_def list_all_iff sql_eq_def)

text \<open>Outside MySQL an upsert touches only rows that agree with the new row on a column of the key.\<close>

lemma insert_rows_cases:
  assumes "insert_rows d s new db = Inr (r, rs)"
    and "in_conflict s = DoNothing pk \<or> in_conflict s = DoUpdate pk cs"
  shows "r = None \<and> rs = db (in_table s) \<or>
    r = Some (append_row d (in_table s) new db) \<and> rs = db (in_table s) @ [append_row d (in_table s) new db] \<or>
    (\<exists>x. same_key new pk x \<and> r = Some (set_columns cs new x) \<and>
      rs = update_first (same_key new pk) (set_columns cs new) (db (in_table s)) \<and> set_columns cs new x \<in> set rs)"
proof -
  have first: "find P xs = Some x \<Longrightarrow> P x \<and> f x \<in> set (update_first P f xs)" for P f x and xs :: "row list"
    by (induction xs) (auto split: if_splits)
  show ?thesis
    using assms first [of "same_key new pk" "db (in_table s)" _ "set_columns cs new"]
    by (auto simp: insert_rows_def Let_def split: if_splits option.splits)
qed

lemma update_first_subset: "set (update_first P f xs) \<subseteq> set xs \<union> f ` {x. P x}"
  by (induction xs) auto

lemma insert_rows_touches:
  assumes ins: "insert_rows d s new db = Inr (r, rs)"
    and conflict: "in_conflict s = DoNothing pk \<or> in_conflict s = DoUpdate pk cs"
    and c: "c \<in> set pk" "c \<notin> set cs" "c \<noteq> ''id''"
  shows "filter (\<lambda>x. col x c \<noteq> col new c) rs = filter (\<lambda>x. col x c \<noteq> col new c) (db (in_table s))"
    and "set rs \<subseteq> set (db (in_table s)) \<union> {x. col x c = col new c}"
    and "r = Some y \<Longrightarrow> y \<in> set rs \<and> col y c = col new c"
proof -
  let ?upd = "update_first (same_key new pk) (set_columns cs new)"
  have fresh: "col (append_row d (in_table s) new db) c = col new c" using c(3) by (rule col_append_row)
  have upd: "col (set_columns cs new x) c = col new c" if "same_key new pk x" for x
    using that c same_keyD by (simp add: col_set_columns)
  have keep: "filter (\<lambda>x. col x c \<noteq> col new c) (?upd xs) = filter (\<lambda>x. col x c \<noteq> col new c) xs" for xs
    by (rule filter_update_first) (use upd same_keyD [OF _ c(1)] in auto)
  have subset: "set (?upd xs) \<subseteq> set xs \<union> {x. col x c = col new c}" for xs
    using update_first_subset [of "same_key new pk" "set_columns cs new" xs] upd by blast
  note cases = insert_rows_cases [OF ins conflict]
  show "filter (\<lambda>x. col x c \<noteq> col new c) rs = filter (\<lambda>x. col x c \<noteq> col new c) (db (in_table s))"
    using cases by (elim disjE exE conjE) (simp_all add: keep fresh)
  show "set rs \<subseteq> set (db (in_table s)) \<union> {x. col x c = col new c}"
    using cases fresh subset by (elim disjE exE conjE) auto
  show "y \<in> set rs \<and> col y c = col new c" if "r = Some y"
    using cases that fresh upd by (elim disjE exE conjE) auto
qed

lemma upsert_stmt_conflict:
  assumes "k \<noteq> Mysql"
  shows "\<exists>pk' cs. (in_conflict (upsert_stmt k tnt t columns pk) = DoNothing pk' \<or>
      in_conflict (upsert_stmt k tnt t columns pk) = DoUpdate pk' cs) \<and>
    pk' = (if tnt \<noteq> [] then pk @ [''tenant_id''] else pk) \<and> set cs \<inter> set pk' = {}"
proof -
  let ?pk = "if tnt \<noteq> [] then pk @ [''tenant_id''] else pk"
  let ?cs = "filter (\<lambda>c. c \<notin> set ?pk) (if tnt \<noteq> [] then columns @ [''tenant_id''] else columns)"
  show ?thesis
    using assms by (intro exI [of _ ?pk] exI [of _ ?cs]) (auto simp: upsert_stmt_def Let_def)
qed

lemma upsert_stmt_table [simp]: "in_table (upsert_stmt k tnt t columns pk) = t"
  by (simp add: upsert_stmt_def Let_def)

lemma map_of_zip_snoc: "length xs = length ys \<Longrightarrow> x \<notin> set xs \<Longrightarrow> map_of (zip (xs @ [x]) (ys @ [y])) x = Some y"
  by (simp add: map_add_def map_of_zip_is_None [THEN iffD2])

lemma new_row_tenant:
  assumes "tnt \<noteq> []" and "''tenant_id'' \<notin> set columns" and "length vs = length columns"
  shows "col (new_row (upsert_stmt k tnt t columns pk) (vs @ [VStr tnt]) db) ''tenant_id'' = tenant_id db tnt"
proof -
  let ?vals = "map (value_of db (vs @ [VStr tnt])) (map Argument [0..<length columns])"
  have "in_columns (upsert_stmt k tnt t columns pk) = columns @ [''tenant_id'']"
    and "map (value_of db (vs @ [VStr tnt])) (in_values (upsert_stmt k tnt t columns pk)) = ?vals @ [tenant_id db tnt]"
    using assms(1) nth_append_length [of vs "VStr tnt" "[]"] by (simp_all add: upsert_stmt_def Let_def assms(3))
  moreover have "map_of (zip (columns @ [''tenant_id'']) (?vals @ [tenant_id db tnt])) ''tenant_id'' = Some (tenant_id db tnt)"
    by (rule map_of_zip_snoc) (use assms(2) in simp_all)
  ultimately show ?thesis by (simp only: new_row_def col_def fmap_of_list.rep_eq) simp
qed

lemma new_row_owner: "col (new_row (upsert_stmt k [] t (oc # columns) pk) (v # vs) db) oc = v"
  by (simp add: new_row_def col_def fmap_of_list.rep_eq upsert_stmt_def Let_def upt_conv_Cons del: upt_Suc)

lemma new_row_first: "col (new_row (upsert_stmt k tnt t (c # columns) pk) (v # vs) db) c = v"
  by (cases "tnt = []")
    (simp_all add: new_row_def col_def fmap_of_list.rep_eq upsert_stmt_def Let_def upt_conv_Cons del: upt_Suc)

lemma upsertReturning_Inr:
  assumes "upsertReturning d returning tnt t columns pk vs db = Inr (i, db')"
  shows "\<exists>r rs. insert_rows d (upsert_stmt (d_kind d) tnt t columns pk)
      (new_row (upsert_stmt (d_kind d) tnt t columns pk) (if tnt \<noteq> [] then vs @ [VStr tnt] else vs) db) db = Inr (r, rs) \<and>
    db' = db(t := rs) \<and> schema_ok v2Tables db' \<and> (returning \<and> d_kind d \<noteq> Mysql \<longrightarrow> scan_id r = Inr i)"
  using assms
  by (auto simp: upsertReturning_def exec_insert_def Let_def result_bind_Inr_iff split: if_splits)

text \<open>An upsert into a table of tenants.\<close>

lemma tenant_upsert:
  assumes "upsertReturning d returning tnt t columns pk vs db = Inr (i, db')" and "d_kind d \<noteq> Mysql"
    and "tnt \<noteq> []" and "''tenant_id'' \<notin> set columns" and "length vs = length columns"
    and "owner_of t = None" and "t \<noteq> ''tokens''" and "t \<noteq> ''tenants''"
    and "kept (tenant_id db0 tnt) db0 db"
  shows "kept (tenant_id db0 tnt) db0 db'" and "returning \<Longrightarrow> owns (tenant_id db0 tnt) t i db'"
    and "\<And>u. u \<noteq> t \<Longrightarrow> db' u = db u"
proof -
  let ?s = "upsert_stmt (d_kind d) tnt t columns pk" and ?tid = "tenant_id db0 tnt"
  let ?new = "new_row ?s (vs @ [VStr tnt]) db"
  from upsertReturning_Inr [OF assms(1)] assms(3) obtain r rs where
    ins: "insert_rows d ?s ?new db = Inr (r, rs)" and db': "db' = db(t := rs)" and ok: "schema_ok v2Tables db'"
    and i: "returning \<Longrightarrow> scan_id r = Inr i" using assms(2) by auto
  from upsert_stmt_conflict [OF assms(2), of tnt t columns pk] assms(3) obtain cs where
    conflict: "in_conflict ?s = DoNothing (pk @ [''tenant_id'']) \<or> in_conflict ?s = DoUpdate (pk @ [''tenant_id'']) cs"
    and cs: "''tenant_id'' \<notin> set cs" by auto
  have new: "col ?new ''tenant_id'' = ?tid"
    using new_row_tenant [OF assms(3-5)] kept_tenant_id [OF assms(9)] by simp
  have c: "''tenant_id'' \<in> set (pk @ [''tenant_id''])" "''tenant_id'' \<noteq> ''id''" by simp_all
  note touches = insert_rows_touches [OF ins conflict c(1) cs c(2), unfolded new upsert_stmt_table]
  show "kept ?tid db0 db'"
    using others_tenant_update [where db = db and t = t and rs = rs, OF assms(6-8) touches(1)] assms(8,9) ok by (simp add: kept_def db')
  show "owns ?tid t i db'" if returning
  proof -
    from i [OF that] obtain y where "r = Some y" "col y ''id'' = VInt i"
      by (cases r) (auto split: val.splits)
    with touches(3) show ?thesis by (auto simp: owns_def list_ex_iff db')
  qed
  show "db' u = db u" if "u \<noteq> t" for u using that by (simp add: db')
qed

text \<open>Statements on the tables that belong to one entity of the tenant.\<close>

definition holding :: "val \<Rightarrow> string \<Rightarrow> int \<Rightarrow> db \<Rightarrow> db \<Rightarrow> bool" where
  "holding tid et i db0 db \<longleftrightarrow> kept tid db0 db \<and> owns tid et i db"

lemma holding_kept: "holding tid et i db0 db \<Longrightarrow> kept tid db0 db"
  by (simp add: holding_def)

lemma holding_update:
  assumes "holding tid et i db0 db" and "owner_of t = Some (oc, et)" and "schema_ok v2Tables (db(t := rs))"
    and "filter (\<lambda>r. col r oc \<noteq> VInt i) rs = filter (\<lambda>r. col r oc \<noteq> VInt i) (db t)"
  shows "holding tid et i db0 (db(t := rs))"
proof -
  have et: "et \<in> {''bundles'', ''stacks'', ''sources''}" using assms(2) by (rule owner_of_entity)
  have "\<forall>e \<in> set (db et). col e ''id'' = VInt i \<longrightarrow> col e ''tenant_id'' = tid"
    by (rule kept_owns [of tid db0, OF _ _ et]) (use assms(1) in \<open>simp_all add: holding_def\<close>)
  note o = others_owned_update [where db = db, OF assms(2,4) this]
  show ?thesis
    using assms(1,3) o owner_of_not_entity(4,7) [OF assms(2)] by (simp add: holding_def kept_def owns_def)
qed

lemma holding_upsertRel:
  assumes "upsertRel d t (oc # columns) pk (VInt i # vs) db = Inr db'" and "d_kind d \<noteq> Mysql"
    and t: "owner_of t = Some (oc, et)" and "oc \<in> set pk" and "oc \<noteq> ''id''" and "holding tid et i db0 db"
  shows "holding tid et i db0 db'"
proof -
  let ?s = "upsert_stmt (d_kind d) [] t (oc # columns) pk"
  let ?new = "new_row ?s (VInt i # vs) db"
  from assms(1) obtain j where "upsertReturning d False [] t (oc # columns) pk (VInt i # vs) db = Inr (j, db')"
    by (auto simp: upsertRel_def result_bind_Inr_iff)
  from upsertReturning_Inr [OF this] obtain r rs where
    ins: "insert_rows d ?s ?new db = Inr (r, rs)" and db': "db' = db(t := rs)" and ok: "schema_ok v2Tables db'"
    by auto
  from upsert_stmt_conflict [OF assms(2), of "[]" t "oc # columns" pk] obtain cs where
    conflict: "in_conflict ?s = DoNothing pk \<or> in_conflict ?s = DoUpdate pk cs" and "set cs \<inter> set pk = {}" by auto
  then have "oc \<notin> set cs" using assms(4) by auto
  note touches = insert_rows_touches(1) [OF ins conflict assms(4) this assms(5), unfolded new_row_owner upsert_stmt_table]
  show ?thesis
    unfolding db' by (rule holding_update [OF assms(6) t _ touches]) (use ok db' in simp)
qed

lemma holding_delete_rows:
  assumes "delete_rows t oc (VInt i) db = Inr db'" and "owner_of t = Some (oc, et)" and "holding tid et i db0 db"
  shows "holding tid et i db0 db'"
proof -
  let ?rs = "filter (\<lambda>r. \<not> sql_eq (col r oc) (VInt i)) (db t)"
  have "filter (\<lambda>r. col r oc \<noteq> VInt i) ?rs = filter (\<lambda>r. col r oc \<noteq> VInt i) (db t)"
    unfolding filter_filter by (rule filter_cong) (auto simp: sql_eq_def)
  note u = holding_update [where rs = ?rs, OF assms(3,2) _ this]
  with assms(1) show ?thesis by (simp add: delete_rows_def)
qed

lemma holding_deleteNotIn:
  assumes "deleteNotIn t oc (VInt i) c ids db = Inr db'" and "owner_of t = Some (oc, et)" and "holding tid et i db0 db"
  shows "holding tid et i db0 db'"
proof (cases "ids = []")
  case True
  with assms show ?thesis by (auto simp: deleteNotIn_def intro: holding_delete_rows)
next
  case False
  let ?rs = "filter (\<lambda>r. \<not> (sql_eq (col r oc) (VInt i) \<and> col r c \<noteq> VNull \<and> col r c \<notin> VInt ` set ids)) (db t)"
  have "filter (\<lambda>r. col r oc \<noteq> VInt i) ?rs = filter (\<lambda>r. col r oc \<noteq> VInt i) (db t)"
    unfolding filter_filter by (rule filter_cong) (auto simp: sql_eq_def)
  note u = holding_update [where rs = ?rs, OF assms(3,2) _ this]
  with assms(1) False show ?thesis by (simp add: deleteNotIn_def)
qed

text \<open>The deletion of the entity itself.\<close>

lemma kept_delete_entity:
  assumes "delete_rows et ''id'' (VInt i) db = Inr db'" and et: "et \<in> {''bundles'', ''stacks'', ''sources'', ''secrets''}"
    and "kept tid db0 db" and "owns tid et i db"
  shows "kept tid db0 db'"
proof -
  have own: "col e ''tenant_id'' = tid" if e: "e \<in> set (db et)" "col e ''id'' = VInt i" for e
  proof -
    from assms(4) obtain x where x: "x \<in> set (db et)" "col x ''tenant_id'' = tid" "col x ''id'' = VInt i"
      by (auto simp: owns_def list_ex_iff)
    have "e = x"
      by (rule id_unique [where db = db and et = et and i = i]) (use assms e x in \<open>auto simp: kept_def\<close>)
    with x show ?thesis by simp
  qed
  let ?rs = "filter (\<lambda>r. \<not> sql_eq (col r ''id'') (VInt i)) (db et)"
  have rs: "filter (\<lambda>r. col r ''tenant_id'' \<noteq> tid) ?rs = filter (\<lambda>r. col r ''tenant_id'' \<noteq> tid) (db et)"
    unfolding filter_filter by (rule filter_cong) (use own in \<open>auto simp: sql_eq_def\<close>)
  have "owner_of et = None" "et \<noteq> ''tokens''" "et \<noteq> ''tenants''"
    using et by (elim insertE; simp add: entity_no_owner)+
  note o = others_tenant_update [where db = db and rs = ?rs, OF this rs]
  show ?thesis
    using assms(1,3) o \<open>et \<noteq> ''tenants''\<close> by (simp add: delete_rows_def kept_def)
qed

lemma named_row_owned:
  assumes "lookupID tnt et nm db = Inr i" and "kept (tenant_id db0 tnt) db0 db"
  shows "owns (tenant_id db0 tnt) et i db"
proof -
  have found: "find P xs = Some x \<Longrightarrow> P x \<and> x \<in> set xs" for P x and xs :: "row list"
    by (induction xs) (auto split: if_splits)
  from assms(1) obtain r where r: "named_row tnt et nm db = Some r" "col r ''id'' = VInt i"
    by (cases "named_row tnt et nm db") (auto simp: lookupID_def split: val.splits)
  from found [OF r(1) [unfolded named_row_def]] r(2) kept_tenant_id [OF assms(2)] show ?thesis
    by (auto simp: owns_def list_ex_iff sql_eq_def)
qed

subsection \<open>Parts of the operations\<close>

lemma owner_of_simps [simp]:
  "owner_of ''bundles_secrets'' = Some (''bundle_id'', ''bundles'')"
  "owner_of ''bundles_requirements'' = Some (''bundle_id'', ''bundles'')"
  "owner_of ''stacks_requirements'' = Some (''stack_id'', ''stacks'')"
  "owner_of ''sources_requirements'' = Some (''source_id'', ''sources'')"
  "owner_of ''sources_secrets'' = Some (''source_id'', ''sources'')"
  "owner_of ''sources_data'' = Some (''source_id'', ''sources'')"
  "owner_of ''sources_datasources'' = Some (''source_id'', ''sources'')"
  by (simp_all add: owner_of_def)

lemma upsertNoID_tenant:
  assumes "upsertNoID d tnt t columns pk vs db = Inr db'" and "d_kind d \<noteq> Mysql"
    and "tnt \<noteq> []" and "''tenant_id'' \<notin> set columns" and "length vs = length columns"
    and "t \<in> {''principals'', ''resource_permissions''}" and "kept (tenant_id db0 tnt) db0 db"
  shows "kept (tenant_id db0 tnt) db0 db'"
proof -
  have t: "owner_of t = None" "t \<noteq> ''tokens''" "t \<noteq> ''tenants''"
    using assms(6) by (elim insertE; simp add: entity_no_owner)+
  from assms(1) obtain j where "upsertReturning d False tnt t columns pk vs db = Inr (j, db')"
    by (auto simp: upsertNoID_def result_bind_Inr_iff)
  from tenant_upsert(1) [OF this assms(2-5) t assms(7)] show ?thesis .
qed

lemma kept_prepareUpsert:
  assumes "prepareUpsert d prn tnt res nm pc pu db = Inr db'" and "d_kind d \<noteq> Mysql" and "tnt \<noteq> []"
    and "kept (tenant_id db0 tnt) db0 db"
  shows "kept (tenant_id db0 tnt) db0 db'"
proof (cases "resourceExists tnt res nm db")
  case True
  with assms(1,4) show ?thesis by (simp add: prepareUpsert_def split: if_splits)
next
  case False
  with assms(1) have "upsertNoID d tnt ''resource_permissions'' [''name'', ''resource'', ''principal_id'', ''role'']
      [''name'', ''resource''] [VStr nm, VStr res, VStr prn, VStr ''owner''] db = Inr db'"
    by (auto simp: prepareUpsert_def result_bind_Inr_iff split: if_splits)
  from upsertNoID_tenant [OF this assms(2,3) _ _ _ assms(4)] show ?thesis by simp
qed

lemma holding_upsert:
  assumes "upsert d tnt t columns pk vs db = Inr (i, db')" and "d_kind d \<noteq> Mysql"
    and "tnt \<noteq> []" and "''tenant_id'' \<notin> set columns" and "length vs = length columns"
    and "t \<in> {''bundles'', ''stacks'', ''sources'', ''secrets''}" and "kept (tenant_id db0 tnt) db0 db"
  shows "holding (tenant_id db0 tnt) t i db0 db'"
proof -
  have t: "owner_of t = None" "t \<noteq> ''tokens''" "t \<noteq> ''tenants''"
    using assms(6) by (elim insertE; simp add: entity_no_owner)+
  from tenant_upsert(1,2) [OF assms(1) [unfolded upsert_def] assms(2-5) t assms(7)] show ?thesis
    by (simp add: holding_def)
qed

lemma holding_link_secret:
  assumes "link_secret d tnt rt i cred db = Inr db'" and "d_kind d \<noteq> Mysql" and "holding tid ''bundles'' i db0 db"
  shows "holding tid ''bundles'' i db0 db'"
  using assms
  by (auto simp: link_secret_def result_bind_Inr_iff split: option.splits intro: holding_upsertRel)

lemma holding_link_git_secret:
  assumes "link_git_secret d tnt i cred db = Inr db'" and "d_kind d \<noteq> Mysql" and "holding tid ''sources'' i db0 db"
  shows "holding tid ''sources'' i db0 db'"
  using assms
  by (auto simp: link_git_secret_def result_bind_Inr_iff split: option.splits intro: holding_upsertRel)

lemma holding_upsert_datasource:
  assumes "upsert_datasource d tnt i ds db = Inr db'" and "d_kind d \<noteq> Mysql" and "holding tid ''sources'' i db0 db"
  shows "holding tid ''sources'' i db0 db'"
proof -
  from assms(1) obtain sec where "upsertRel d ''sources_datasources''
      (''source_id'' # [''name'', ''type'', ''path'', ''config'', ''transform_query'', ''secret_id'']) [''source_id'', ''name'']
      (VInt i # [VStr (ds_Name ds), VStr (ds_Type ds), VStr (ds_Path ds), config_json (ds_Config ds), VStr (ds_TransformQuery ds), sec])
      db = Inr db'"
    by (auto simp: upsert_datasource_def result_bind_Inr_iff)
  from holding_upsertRel [OF this assms(2) _ _ _ assms(3)] show ?thesis by simp
qed

lemma holding_upsert_file:
  assumes "upsert_file d i f db = Inr db'" and "d_kind d \<noteq> Mysql" and "holding tid ''sources'' i db0 db"
  shows "holding tid ''sources'' i db0 db'"
  using holding_upsertRel [OF assms(1) [unfolded upsert_file_def] assms(2) _ _ _ assms(3)] by simp

lemma holding_upsert_requirements:
  assumes "upsert_requirements d tnt msg rel t oc rc i rs db = Inr (db', ids)" and "d_kind d \<noteq> Mysql"
    and "owner_of t = Some (oc, et)" and "oc \<noteq> ''id''" and "holding tid et i db0 db"
  shows "holding tid et i db0 db'"
proof -
  have "case (db', ids) of (db', ids) \<Rightarrow> holding tid et i db0 db'"
  proof (rule fold_result_invariant [OF assms(1) [unfolded upsert_requirements_def]])
    show "case (db, []) of (db', ids) \<Rightarrow> holding tid et i db0 db'" using assms(5) by simp
  next
    fix r s s'
    assume hold: "case s of (db', ids) \<Rightarrow> holding tid et i db0 db'"
      and step: "upsert_requirement d tnt msg rel t oc rc i r s = Inr s'"
    obtain db1 ids1 where s: "s = (db1, ids1)" by (cases s)
    show "case s' of (db', ids) \<Rightarrow> holding tid et i db0 db'"
    proof (cases "req_Source r")
      case None
      with step hold show ?thesis by (simp add: s upsert_requirement_def)
    next
      case (Some n)
      with step obtain j db2 where "upsertRel d t (requirement_columns oc rc) [oc, rc] (requirement_values i j r) db1 = Inr db2"
        and s': "s' = (db2, ids1 @ [j])"
        by (auto simp: s upsert_requirement_def result_bind_Inr_iff)
      then have "holding tid et i db0 db2"
        using hold s assms(2-4)
        by (auto simp: requirement_columns_def requirement_values_def intro: holding_upsertRel)
      with s' show ?thesis by simp
    qed
  qed
  then show ?thesis by simp
qed

lemma holding_fold:
  assumes "fold_result f xs db = Inr db'" and "holding tid et i db0 db"
    and "\<And>x db db'. f x db = Inr db' \<Longrightarrow> holding tid et i db0 db \<Longrightarrow> holding tid et i db0 db'"
  shows "holding tid et i db0 db'"
  using assms(1,2)
  by (rule fold_result_invariant [where P = "holding tid et i db0"]) (use assms(3) in blast)

lemma kept_tokens:
  assumes "upsertNoID d [] ''tokens'' columns pk vs db = Inr db'" and "kept tid db0 db"
  shows "kept tid db0 db'"
  using assms upsertReturning_Inr [of d False "[]" "''tokens''" columns pk vs db _ db']
  by (auto simp: upsertNoID_def result_bind_Inr_iff kept_def others_tokens_update dest!: upsertReturning_Inr)

subsection \<open>The operations\<close>

datatype 'g write_op =
    PutBundle bundle_config
  | PutSource source
  | PutSecret secret
  | PutStack "'g stack"
  | PutToken token
  | DropBundle string
  | DropSource string
  | DropSecret string
  | DropStack string
  | PutData string string any
  | PatchData "val option \<Rightarrow> db_error + any" string string
  | DropData string string

fun run_op :: "database \<Rightarrow> (source \<Rightarrow> string + (string \<times> string) list) \<Rightarrow> string \<Rightarrow> string \<Rightarrow> 'g write_op \<Rightarrow> db \<Rightarrow> db_error option \<times> db" where
  "run_op d files prn tnt (PutBundle b) = UpsertBundle d prn tnt b"
| "run_op d files prn tnt (PutSource s) = UpsertSource d files prn tnt s"
| "run_op d files prn tnt (PutSecret s) = UpsertSecret d prn tnt s"
| "run_op d files prn tnt (PutStack s) = UpsertStack d prn tnt s"
| "run_op d files prn tnt (PutToken t) = UpsertToken d prn tnt t"
| "run_op d files prn tnt (DropBundle n) = DeleteBundle d prn tnt n"
| "run_op d files prn tnt (DropSource n) = DeleteSource d prn tnt n"
| "run_op d files prn tnt (DropSecret n) = DeleteSecret d prn tnt n"
| "run_op d files prn tnt (DropStack n) = DeleteStack d prn tnt n"
| "run_op d files prn tnt (PutData n path v) = SourcesDataPut d n path v prn tnt"
| "run_op d files prn tnt (PatchData f n path) = SourcesDataPatch d f n path prn tnt"
| "run_op d files prn tnt (DropData n path) = SourcesDataDelete d n path prn tnt"

text \<open>The function that an operation runs in its transaction.\<close>

fun tx_of :: "database \<Rightarrow> (source \<Rightarrow> string + (string \<times> string) list) \<Rightarrow> string \<Rightarrow> string \<Rightarrow> 'g write_op \<Rightarrow> db \<Rightarrow> db_error + db" where
  "tx_of d files prn tnt (PutBundle b) = UpsertBundle_tx d prn tnt b"
| "tx_of d files prn tnt (PutSource s) = UpsertSource_tx d files prn tnt s"
| "tx_of d files prn tnt (PutSecret s) = UpsertSecret_tx d prn tnt s"
| "tx_of d files prn tnt (PutStack s) = UpsertStack_tx d prn tnt s"
| "tx_of d files prn tnt (PutToken t) =
     (\<lambda>db. if length (tok_Scopes t) \<noteq> 1 then Inl (OtherError ''scopes'') else UpsertToken_tx d prn tnt t db)"
| "tx_of d files prn tnt (DropBundle n) = DeleteBundle_tx d prn tnt n"
| "tx_of d files prn tnt (DropSource n) = DeleteSource_tx d prn tnt n"
| "tx_of d files prn tnt (DropSecret n) = DeleteSecret_tx d prn tnt n"
| "tx_of d files prn tnt (DropStack n) = DeleteStack_tx d prn tnt n"
| "tx_of d files prn tnt (PutData n path v) = sourcesDataPut d n path v prn tnt"
| "tx_of d files prn tnt (PatchData f n path) = (\<lambda>db. result_bind (sourcesDataGet d n path prn tnt db) (\<lambda>previous.
     result_bind (f previous) (\<lambda>patched. sourcesDataPut d n path patched prn tnt db)))"
| "tx_of d files prn tnt (DropData n path) = (\<lambda>db. if \<not> resourceExists tnt ''sources'' n db then Inl ErrNotFound
     else result_bind (data_condition d (WithName n (describe prn tnt ''sources'' ''sources.data.write''))) (\<lambda>e.
       result_bind (wrap (''lookup source name '' @ n) (lookupID tnt ''sources'' n db)) (\<lambda>i.
       checked_db (db(''sources_data'' := filter (\<lambda>r. \<not> data_row i path e db r) (db ''sources_data''))))))"

lemma tx1_cases: "tx1 d f db = (e, db') \<Longrightarrow> e \<noteq> None \<and> db' = db \<or> e = None \<and> f db = Inr db'"
  by (auto simp: tx1_def split: option.splits sum.splits)

lemma run_op_cases:
  assumes "run_op d files prn tnt op db = (e, db')"
  shows "e \<noteq> None \<and> db' = db \<or> e = None \<and> tx_of d files prn tnt op db = Inr db'"
  using assms
  by (cases op)
    (auto simp: UpsertBundle_def UpsertSource_def UpsertSecret_def UpsertStack_def UpsertToken_def DeleteBundle_def
      DeleteSource_def DeleteSecret_def DeleteStack_def SourcesDataPut_def SourcesDataPatch_def SourcesDataDelete_def
      dest!: tx1_cases split: if_splits)

lemma columns_ok [simp]:
  "''tenant_id'' \<notin> set bundle_columns" "length (bundle_values b) = length bundle_columns"
  "''tenant_id'' \<notin> set source_columns" "length (source_values s) = length source_columns"
  by (simp_all add: bundle_columns_def bundle_values_def source_columns_def source_values_def Let_def)

text \<open>Each operation keeps the part of the others; the lemmas about its parts are applied in order.\<close>

lemmas holding_rules = holding_upsert_requirements holding_link_secret holding_link_git_secret holding_deleteNotIn
  holding_delete_rows holding_upsertRel

lemma UpsertBundle_kept:
  assumes "UpsertBundle_tx d prn tnt b db = Inr db'" and "kept (tenant_id db0 tnt) db0 db"
    and kind: "d_kind d \<noteq> Mysql" and tnt: "tnt \<noteq> []"
  shows "kept (tenant_id db0 tnt) db0 db'"
proof -
  let ?h = "\<lambda>i. holding (tenant_id db0 tnt) ''bundles'' i db0"
  from assms(1) obtain db1 i db2 db3 db4 db5 db6 ids where
    s1: "prepareUpsert d prn tnt ''bundles'' (bun_Name b) ''bundles.create'' ''bundles.manage'' db = Inr db1"
    and s2: "upsert d tnt ''bundles'' bundle_columns [''name''] (bundle_values b) db1 = Inr (i, db2)"
    and s3: "link_secret d tnt ''aws'' i (Option.bind (os_AmazonS3 (bun_ObjectStorage b)) s3_Credentials) db2 = Inr db3"
    and s4: "link_secret d tnt ''gcp'' i (Option.bind (os_GCPCloudStorage (bun_ObjectStorage b)) gcp_Credentials) db3 = Inr db4"
    and s5: "link_secret d tnt ''azure'' i (Option.bind (os_AzureBlobStorage (bun_ObjectStorage b)) az_Credentials) db4 = Inr db5"
    and s6: "upsert_requirements d tnt ''lookup id of requirement source '' (\<lambda>n. Some ''table bundles_requirements'')
        ''bundles_requirements'' ''bundle_id'' ''source_id'' i (slice (bun_Requirements b)) db5 = Inr (db6, ids)"
    and s7: "bun_Requirements b \<noteq> None \<Longrightarrow> deleteNotIn ''bundles_requirements'' ''bundle_id'' (VInt i) ''source_id'' ids db6 = Inr db'"
    and s8: "bun_Requirements b = None \<Longrightarrow> db' = db6"
    by (auto simp: UpsertBundle_tx_def result_bind_Inr_iff split: if_splits)
  have "?h i db2"
    by (rule holding_upsert [OF s2 kind tnt _ _ _ kept_prepareUpsert [OF s1 kind tnt assms(2)]]) simp_all
  then have "?h i db5" using s3 s4 s5 kind by (blast intro: holding_link_secret)
  then have "?h i db6" using holding_upsert_requirements [OF s6 kind] by simp
  then have "?h i db'" using s7 s8 holding_deleteNotIn [OF _ owner_of_simps(2)] by (cases "bun_Requirements b") auto
  then show ?thesis by (rule holding_kept)
qed

lemma UpsertSource_kept:
  assumes "UpsertSource_tx d files prn tnt s db = Inr db'" and "kept (tenant_id db0 tnt) db0 db"
    and kind: "d_kind d \<noteq> Mysql" and tnt: "tnt \<noteq> []"
  shows "kept (tenant_id db0 tnt) db0 db'"
proof -
  let ?h = "\<lambda>i. holding (tenant_id db0 tnt) ''sources'' i db0"
  from assms(1) obtain db1 i db2 db3 db4 fs db5 db6 ids where
    s1: "prepareUpsert d prn tnt ''sources'' (src_Name s) ''sources.create'' ''sources.manage'' db = Inr db1"
    and s2: "upsert d tnt ''sources'' source_columns [''name''] (source_values s) db1 = Inr (i, db2)"
    and s3: "link_git_secret d tnt i (git_Credentials (src_Git s)) db2 = Inr db3"
    and s4: "fold_result (upsert_datasource d tnt i) (src_Datasources s) db3 = Inr db4"
    and s5: "fold_result (upsert_file d i) fs db4 = Inr db5"
    and s6: "upsert_requirements d tnt ''lookup id of requirement source ''
        (\<lambda>n. Some (''upsert of requirement source link '' @ n)) ''sources_requirements'' ''source_id'' ''requirement_id''
        i (slice (src_Requirements s)) db5 = Inr (db6, ids)"
    and s7: "src_Requirements s \<noteq> None \<Longrightarrow> deleteNotIn ''sources_requirements'' ''source_id'' (VInt i) ''requirement_id'' ids db6 = Inr db'"
    and s8: "src_Requirements s = None \<Longrightarrow> db' = db6"
    by (auto simp: UpsertSource_tx_def result_bind_Inr_iff split: if_splits sum.splits)
  have "?h i db2"
    by (rule holding_upsert [OF s2 kind tnt _ _ _ kept_prepareUpsert [OF s1 kind tnt assms(2)]]) simp_all
  then have "?h i db3" using holding_link_git_secret [OF s3 kind] by simp
  then have "?h i db4" by (rule holding_fold [OF s4]) (rule holding_upsert_datasource [OF _ kind])
  then have "?h i db5" by (rule holding_fold [OF s5]) (rule holding_upsert_file [OF _ kind])
  then have "?h i db6" using holding_upsert_requirements [OF s6 kind] by simp
  then have "?h i db'" using s7 s8 holding_deleteNotIn [OF _ owner_of_simps(4)] by (cases "src_Requirements s") auto
  then show ?thesis by (rule holding_kept)
qed

lemma UpsertSecret_kept:
  assumes "UpsertSecret_tx d prn tnt s db = Inr db'" and "kept (tenant_id db0 tnt) db0 db"
    and kind: "d_kind d \<noteq> Mysql" and tnt: "tnt \<noteq> []"
  shows "kept (tenant_id db0 tnt) db0 db'"
proof -
  from assms(1) obtain db1 i v where
    s1: "prepareUpsert d prn tnt ''secrets'' (sec_Name s) ''secrets.create'' ''secrets.manage'' db = Inr db1"
    and s2: "upsert d tnt ''secrets'' [''name'', ''value''] [''name''] [VStr (sec_Name s), v] db1 = Inr (i, db')"
    by (auto simp: UpsertSecret_tx_def result_bind_Inr_iff)
  show ?thesis
    by (rule holding_kept, rule holding_upsert [OF s2 kind tnt _ _ _ kept_prepareUpsert [OF s1 kind tnt assms(2)]]) simp_all
qed

lemma UpsertStack_kept:
  assumes "UpsertStack_tx d prn tnt s db = Inr db'" and "kept (tenant_id db0 tnt) db0 db"
    and kind: "d_kind d \<noteq> Mysql" and tnt: "tnt \<noteq> []"
  shows "kept (tenant_id db0 tnt) db0 db'"
proof -
  from assms(1) obtain db1 i v w db2 ids where
    s1: "prepareUpsert d prn tnt ''stacks'' (stk_Name s) ''stacks.create'' ''stacks.manage'' db = Inr db1"
    and s2: "upsert d tnt ''stacks'' [''name'', ''selector'', ''exclude_selector''] [''name''] [VStr (stk_Name s), v, w] db1 = Inr (i, db2)"
    and s3: "upsert_requirements d tnt ''lookup source '' (\<lambda>n. None) ''stacks_requirements'' ''stack_id'' ''source_id''
        i (slice (stk_Requirements s)) db2 = Inr (db', ids)"
    by (auto simp: UpsertStack_tx_def result_bind_Inr_iff)
  have "holding (tenant_id db0 tnt) ''stacks'' i db0 db2"
    by (rule holding_upsert [OF s2 kind tnt _ _ _ kept_prepareUpsert [OF s1 kind tnt assms(2)]]) simp_all
  then have "holding (tenant_id db0 tnt) ''stacks'' i db0 db'" using holding_upsert_requirements [OF s3 kind] by simp
  then show ?thesis by (rule holding_kept)
qed

lemma UpsertToken_kept:
  assumes "UpsertToken_tx d prn tnt t db = Inr db'" and "kept (tenant_id db0 tnt) db0 db"
    and kind: "d_kind d \<noteq> Mysql" and tnt: "tnt \<noteq> []"
  shows "kept (tenant_id db0 tnt) db0 db'"
proof -
  from assms(1) obtain db1 db2 vs where
    s1: "prepareUpsert d prn tnt ''tokens'' (tok_Name t) ''tokens.create'' ''tokens.manage'' db = Inr db1"
    and s2: "upsertNoID d [] ''tokens'' [''name'', ''api_key''] [''name''] vs db1 = Inr db2"
    and s3: "upsertNoID d tnt ''principals'' [''id'', ''role''] [''id''] [VStr (tok_Name t), VStr (sc_Role (hd (tok_Scopes t)))] db2 = Inr db'"
    by (auto simp: UpsertToken_tx_def UpsertPrincipalTx_def result_bind_Inr_iff)
  show ?thesis
    by (rule upsertNoID_tenant [OF s3 kind tnt _ _ _ kept_tokens [OF s2 kept_prepareUpsert [OF s1 kind tnt assms(2)]]]) simp_all
qed

lemma DeleteBundle_kept:
  assumes "DeleteBundle_tx d prn tnt n db = Inr db'" and "kept (tenant_id db0 tnt) db0 db"
    and kind: "d_kind d \<noteq> Mysql" and tnt: "tnt \<noteq> []"
  shows "kept (tenant_id db0 tnt) db0 db'"
proof -
  from assms(1) obtain i db1 db2 where i: "lookupID tnt ''bundles'' n db = Inr i"
    and s1: "delete_rows ''bundles_secrets'' ''bundle_id'' (VInt i) db = Inr db1"
    and s2: "delete_rows ''bundles_requirements'' ''bundle_id'' (VInt i) db1 = Inr db2"
    and s3: "delete_rows ''bundles'' ''id'' (VInt i) db2 = Inr db'"
    by (auto simp: DeleteBundle_tx_def guarded_def result_bind_Inr_iff split: option.splits)
  have "holding (tenant_id db0 tnt) ''bundles'' i db0 db"
    using named_row_owned [OF i assms(2)] assms(2) by (simp add: holding_def)
  then have "holding (tenant_id db0 tnt) ''bundles'' i db0 db2"
    using holding_delete_rows [OF s2 owner_of_simps(2)] holding_delete_rows [OF s1 owner_of_simps(1)] by blast
  then show ?thesis using kept_delete_entity [OF s3] by (simp add: holding_def)
qed

lemma DeleteSource_kept:
  assumes "DeleteSource_tx d prn tnt n db = Inr db'" and "kept (tenant_id db0 tnt) db0 db"
    and kind: "d_kind d \<noteq> Mysql" and tnt: "tnt \<noteq> []"
  shows "kept (tenant_id db0 tnt) db0 db'"
proof -
  from assms(1) obtain i db1 db2 db3 db4 where i: "lookupID tnt ''sources'' n db = Inr i"
    and s1: "delete_rows ''sources_datasources'' ''source_id'' (VInt i) db = Inr db1"
    and s2: "delete_rows ''sources_secrets'' ''source_id'' (VInt i) db1 = Inr db2"
    and s3: "delete_rows ''sources_requirements'' ''source_id'' (VInt i) db2 = Inr db3"
    and s4: "delete_rows ''sources_data'' ''source_id'' (VInt i) db3 = Inr db4"
    and s5: "delete_rows ''sources'' ''id'' (VInt i) db4 = Inr db'"
    by (auto simp: DeleteSource_tx_def guarded_def result_bind_Inr_iff split: option.splits)
  have "holding (tenant_id db0 tnt) ''sources'' i db0 db"
    using named_row_owned [OF i assms(2)] assms(2) by (simp add: holding_def)
  then have "holding (tenant_id db0 tnt) ''sources'' i db0 db4"
    using holding_delete_rows [OF s4 owner_of_simps(6)] holding_delete_rows [OF s3 owner_of_simps(4)]
      holding_delete_rows [OF s2 owner_of_simps(5)] holding_delete_rows [OF s1 owner_of_simps(7)] by blast
  then show ?thesis using kept_delete_entity [OF s5] by (simp add: holding_def)
qed

lemma DeleteSecret_kept:
  assumes "DeleteSecret_tx d prn tnt n db = Inr db'" and "kept (tenant_id db0 tnt) db0 db"
    and kind: "d_kind d \<noteq> Mysql" and tnt: "tnt \<noteq> []"
  shows "kept (tenant_id db0 tnt) db0 db'"
proof -
  from assms(1) obtain i where i: "lookupID tnt ''secrets'' n db = Inr i" and s: "delete_rows ''secrets'' ''id'' (VInt i) db = Inr db'"
    by (auto simp: DeleteSecret_tx_def guarded_def result_bind_Inr_iff split: option.splits)
  show ?thesis using kept_delete_entity [OF s _ assms(2) named_row_owned [OF i assms(2)]] by simp
qed

lemma DeleteStack_kept:
  assumes "DeleteStack_tx d prn tnt n db = Inr db'" and "kept (tenant_id db0 tnt) db0 db"
    and kind: "d_kind d \<noteq> Mysql" and tnt: "tnt \<noteq> []"
  shows "kept (tenant_id db0 tnt) db0 db'"
proof -
  from assms(1) obtain i db1 where i: "lookupID tnt ''stacks'' n db = Inr i"
    and s1: "delete_rows ''stacks_requirements'' ''stack_id'' (VInt i) db = Inr db1"
    and s2: "delete_rows ''stacks'' ''id'' (VInt i) db1 = Inr db'"
    by (auto simp: DeleteStack_tx_def guarded_def result_bind_Inr_iff split: option.splits)
  have "holding (tenant_id db0 tnt) ''stacks'' i db0 db"
    using named_row_owned [OF i assms(2)] assms(2) by (simp add: holding_def)
  then have "holding (tenant_id db0 tnt) ''stacks'' i db0 db1"
    by (rule holding_delete_rows [OF s1 owner_of_simps(3)])
  then show ?thesis using kept_delete_entity [OF s2] by (simp add: holding_def)
qed

lemma sourcesDataPut_kept:
  assumes "sourcesDataPut d n path v prn tnt db = Inr db'" and "kept (tenant_id db0 tnt) db0 db"
    and kind: "d_kind d \<noteq> Mysql" and tnt: "tnt \<noteq> []"
  shows "kept (tenant_id db0 tnt) db0 db'"
proof -
  from assms(1) obtain i where i: "lookupID tnt ''sources'' n db = Inr i"
    and s: "upsertRel d ''sources_data'' [''source_id'', ''path'', ''data''] [''source_id'', ''path''] [VInt i, VStr path, VJson v] db = Inr db'"
    by (auto simp: sourcesDataPut_def result_bind_Inr_iff split: if_splits)
  have "holding (tenant_id db0 tnt) ''sources'' i db0 db"
    using named_row_owned [OF i assms(2)] assms(2) by (simp add: holding_def)
  then have "holding (tenant_id db0 tnt) ''sources'' i db0 db'"
    by (rule holding_upsertRel [OF s kind owner_of_simps(6), rotated 2]) simp_all
  then show ?thesis by (rule holding_kept)
qed

lemma DropData_kept:
  assumes "tx_of d files prn tnt (DropData n path) db = Inr db'" and "kept (tenant_id db0 tnt) db0 db"
    and kind: "d_kind d \<noteq> Mysql" and tnt: "tnt \<noteq> []"
  shows "kept (tenant_id db0 tnt) db0 db'"
proof -
  from assms(1) obtain i e where i: "lookupID tnt ''sources'' n db = Inr i"
    and ok: "schema_ok v2Tables db'" and db': "db' = db(''sources_data'' := filter (\<lambda>r. \<not> data_row i path e db r) (db ''sources_data''))"
    by (auto simp: result_bind_Inr_iff split: if_splits)
  let ?rs = "filter (\<lambda>r. \<not> data_row i path e db r) (db ''sources_data'')"
  have hold: "holding (tenant_id db0 tnt) ''sources'' i db0 db"
    using named_row_owned [OF i assms(2)] assms(2) by (simp add: holding_def)
  have "filter (\<lambda>r. col r ''source_id'' \<noteq> VInt i) ?rs = filter (\<lambda>r. col r ''source_id'' \<noteq> VInt i) (db ''sources_data'')"
    unfolding filter_filter by (rule filter_cong) (auto simp: data_row_def sql_eq_def)
  from holding_update [OF hold owner_of_simps(6) _ this] ok show ?thesis
    unfolding db' by (blast intro: holding_kept)
qed

lemma tx_of_kept:
  assumes "tx_of d files prn tnt op db = Inr db'" and "kept (tenant_id db0 tnt) db0 db"
    and kind: "d_kind d \<noteq> Mysql" and tnt: "tnt \<noteq> []"
  shows "kept (tenant_id db0 tnt) db0 db'"
  using assms
  by (cases op)
    (auto simp: result_bind_Inr_iff simp del: tx_of.simps(12) split: if_splits
      intro: UpsertBundle_kept UpsertSource_kept UpsertSecret_kept UpsertStack_kept UpsertToken_kept DeleteBundle_kept
        DeleteSource_kept DeleteSecret_kept DeleteStack_kept sourcesDataPut_kept DropData_kept)

end
