(* ===== verification/Guards.thy ===== *)
theory Guards
  imports Tenancy
begin

text \<open>
  What the checks of the write operations promise when the authorizer implements the policy:
  the operations keep tenants apart, and a principal that may only view changes nothing. The
  check for a creation names no resource, and the row that makes the creator an owner is
  written before the check; so the name of the resource matters, and an empty one lets every
  principal pass.
\<close>

subsection \<open>Tenants are kept apart\<close>

lemma run_op_isolated:
  assumes "run_op d files prn tnt op db = (e, db')" and "d_kind d \<noteq> Mysql" and "tnt \<noteq> []" and "schema_ok v2Tables db"
  shows "schema_ok v2Tables db' \<and> others (tenant_id db tnt) db' = others (tenant_id db tnt) db \<and>
    db' ''tenants'' = db ''tenants'' \<and> (e \<noteq> None \<longrightarrow> db' = db)"
proof -
  have "kept (tenant_id db tnt) db db'"
    using run_op_cases [OF assms(1)] tx_of_kept [OF _ kept_refl [OF assms(4)] assms(2,3)] kept_refl [OF assms(4)] by auto
  then show ?thesis
    using run_op_cases [OF assms(1)] by (auto simp: kept_def)
qed

text \<open>
  C36: Whatever operation a tenant runs, and whether or not it succeeds, the database keeps the
  constraints of the schema, the list of tenants, and every row that belongs to another tenant;
  an operation that fails leaves no change at all. This is for the databases other than MySQL.
\<close>

theorem write_isolated:
  assumes "run_op d files prn tnt op db = (e, db')" and "d_kind d \<noteq> Mysql" and "tnt \<noteq> []" and "schema_ok v2Tables db"
  shows "schema_ok v2Tables db' \<and> others (tenant_id db tnt) db' = others (tenant_id db tnt) db \<and>
    db' ''tenants'' = db ''tenants'' \<and> (e \<noteq> None \<longrightarrow> db' = db)"
  by (rule run_op_isolated [OF assms])

subsection \<open>Viewers change nothing\<close>

text \<open>What a policy-abiding authorizer is, and a principal that may only view.\<close>

definition abides :: "authorizer \<Rightarrow> bool" where
  "abides au \<longleftrightarrow> (\<forall>db a. au_Check au db a \<longrightarrow> policy_allows db a) \<and>
     (\<forall>db a e env. au_Partial au a [] = Inr (Some e) \<and> holds db env e \<longrightarrow> policy_allows db a)"

definition only_views :: "string \<Rightarrow> db \<Rightarrow> bool" where
  "only_views prn db \<longleftrightarrow>
     list_all (\<lambda>p. col p ''id'' = VStr prn \<longrightarrow> col p ''role'' = VStr ''viewer'') (db ''principals'') \<and>
     list_all (\<lambda>rp. col rp ''principal_id'' \<noteq> VStr prn) (db ''resource_permissions'')"

fun op_name :: "'g write_op \<Rightarrow> string" where
  "op_name (PutBundle b) = bun_Name b"
| "op_name (PutSource s) = src_Name s"
| "op_name (PutSecret s) = sec_Name s"
| "op_name (PutStack s) = stk_Name s"
| "op_name (PutToken t) = tok_Name t"
| "op_name (DropBundle n) = n"
| "op_name (DropSource n) = n"
| "op_name (DropSecret n) = n"
| "op_name (DropStack n) = n"
| "op_name (PutData n path v) = n"
| "op_name (PatchData f n path) = n"
| "op_name (DropData n path) = n"

lemma describe_simps [simp]:
  "acc_principal (describe prn tnt res perm) = prn" "acc_permission (describe prn tnt res perm) = perm"
  "acc_name (describe prn tnt res perm) = []" "acc_principal (WithName n a) = acc_principal a"
  "acc_permission (WithName n a) = acc_permission a" "acc_name (WithName n a) = n"
  "acc_resource (describe prn tnt res perm) = res" "acc_tenant (describe prn tnt res perm) = tnt"
  "acc_resource (WithName n a) = acc_resource a" "acc_tenant (WithName n a) = acc_tenant a"
  by (simp_all add: describe_def access_defs)

lemma viewer_denied:
  assumes "abides au" and "only_views prn db" and "acc_principal a = prn" and "acc_permission a \<notin> set viewer_permissions"
  shows "\<not> au_Check au db a" and "au_Partial au a [] = Inr (Some e) \<Longrightarrow> \<not> holds db env e"
proof -
  have "\<not> policy_allows db a"
    using policy_restricted [of db a] assms(2-4) by (auto simp: only_views_def list_all_iff)
  then show "\<not> au_Check au db a" and "au_Partial au a [] = Inr (Some e) \<Longrightarrow> \<not> holds db env e"
    using assms(1) unfolding abides_def by blast+
qed

lemma viewer_prepareUpsert:
  assumes "abides (d_authorizer d)" and "only_views prn db" and "d_kind d \<noteq> Mysql" and "nm \<noteq> []"
    and "pc \<notin> set viewer_permissions" and "pu \<notin> set viewer_permissions"
  shows "\<exists>e. prepareUpsert d prn tnt res nm pc pu db = Inl e"
proof (cases "resourceExists tnt res nm db")
  case True
  then show ?thesis using viewer_denied(1) [OF assms(1,2)] assms(6) by (simp add: prepareUpsert_def)
next
  case False
  let ?cols = "[''name'', ''resource'', ''principal_id'', ''role'']" and ?pk = "[''name'', ''resource'']"
  let ?vs = "[VStr nm, VStr res, VStr prn, VStr ''owner'']"
  have "\<not> au_Check (d_authorizer d) db1 (describe prn tnt res pc)"
    if up: "upsertNoID d tnt ''resource_permissions'' ?cols ?pk ?vs db = Inr db1" for db1
  proof
    assume "au_Check (d_authorizer d) db1 (describe prn tnt res pc)"
    then have pol: "policy_allows db1 (describe prn tnt res pc)" using assms(1) unfolding abides_def by blast
    let ?s = "upsert_stmt (d_kind d) tnt ''resource_permissions'' ?cols ?pk"
    from up obtain j where "upsertReturning d False tnt ''resource_permissions'' ?cols ?pk ?vs db = Inr (j, db1)"
      by (auto simp: upsertNoID_def result_bind_Inr_iff)
    from upsertReturning_Inr [OF this] obtain r rs where
      ins: "insert_rows d ?s (new_row ?s (if tnt \<noteq> [] then ?vs @ [VStr tnt] else ?vs) db) db = Inr (r, rs)"
      and db1: "db1 = db(''resource_permissions'' := rs)" by auto
    from upsert_stmt_conflict [OF assms(3), of tnt "''resource_permissions''" ?cols ?pk] obtain pk cs where
      conflict: "in_conflict ?s = DoNothing pk \<or> in_conflict ?s = DoUpdate pk cs" and pk: "''name'' \<in> set pk" "''name'' \<notin> set cs"
      by (auto split: if_splits)
    have new: "col (new_row ?s (if tnt \<noteq> [] then ?vs @ [VStr tnt] else ?vs) db) ''name'' = VStr nm"
      by (simp add: new_row_first)
    have "set rs \<subseteq> set (db ''resource_permissions'') \<union> {x. col x ''name'' = VStr nm}"
      using insert_rows_touches(2) [OF ins conflict pk] by (simp only: new upsert_stmt_table) simp
    then have "\<forall>rp \<in> set (db1 ''resource_permissions''). col rp ''principal_id'' = VStr prn \<longrightarrow> col rp ''name'' \<noteq> VStr []"
      using assms(2,4) by (auto simp: db1 only_views_def list_all_iff)
    moreover have "\<forall>p \<in> set (db1 ''principals''). col p ''id'' = VStr prn \<longrightarrow> col p ''role'' = VStr ''viewer''"
      using assms(2) by (simp add: db1 only_views_def list_all_iff)
    ultimately show False
      using policy_restricted [OF pol] assms(5) by simp
  qed
  then show ?thesis
    using False
    by (cases "upsertNoID d tnt ''resource_permissions'' ?cols ?pk ?vs db") (auto simp: prepareUpsert_def)
qed

lemma viewer_prepareDelete:
  assumes "abides (d_authorizer d)" and "only_views prn db" and "pu \<notin> set viewer_permissions"
  shows "prepareDelete d prn tnt res nm pu db = Some ErrNotAuthorized"
  using viewer_denied(1) [OF assms(1,2)] assms(3) by (simp add: prepareDelete_def)

lemma viewer_data_row:
  assumes "abides (d_authorizer d)" and "only_views prn db"
    and "data_condition d (WithName nm (describe prn tnt ''sources'' ''sources.data.write'')) = Inr e"
  shows "\<not> data_row i path e db r"
proof -
  have "au_Partial (d_authorizer d) (WithName nm (describe prn tnt ''sources'' ''sources.data.write'')) [] = Inr (Some e)"
    using assms(3) by (auto simp: data_condition_def split: sum.splits option.splits)
  from viewer_denied(2) [OF assms(1,2) _ _ this] show ?thesis
    by (simp add: data_row_def viewer_permissions_def)
qed

lemma viewer_run_op:
  assumes "abides (d_authorizer d)" and "only_views prn db" and "d_kind d \<noteq> Mysql" and "op_name op \<noteq> []"
    and "run_op d files prn tnt op db = (e, db')"
  shows "db' = db"
proof -
  have "db' = db" if tx: "tx_of d files prn tnt op db = Inr db'"
  proof -
    have up: "prepareUpsert d prn tnt res (op_name op) pc pu db \<noteq> Inr db1"
      if "pc \<notin> set viewer_permissions" "pu \<notin> set viewer_permissions" for res pc pu db1
      using viewer_prepareUpsert [OF assms(1-4), of pc pu tnt res] that by auto
    have put: "\<not> au_Check (d_authorizer d) db (WithName n (describe prn tnt ''sources'' ''sources.data.write''))" for n
      by (rule viewer_denied(1) [OF assms(1,2)]) (simp_all add: viewer_permissions_def)
    show ?thesis
    proof (cases op)
      case (DropData n path)
      then show ?thesis
        using tx viewer_data_row [OF assms(1,2)] by (auto simp: result_bind_Inr_iff split: if_splits)
    qed (use tx up put viewer_prepareDelete [OF assms(1,2)] in
      \<open>auto simp: UpsertBundle_tx_def UpsertSource_tx_def UpsertSecret_tx_def UpsertStack_tx_def UpsertToken_tx_def
        DeleteBundle_tx_def DeleteSource_tx_def DeleteSecret_tx_def DeleteStack_tx_def guarded_def sourcesDataPut_def
        result_bind_Inr_iff viewer_permissions_def split: if_splits\<close>)
  qed
  with run_op_cases [OF assms(5)] show ?thesis by auto
qed

text \<open>
  Under an authorizer that abides by the policy, no operation on a resource with a name
  changes the database for a principal whose only role is viewer and who holds no resource
  permission, although the check for a creation comes after the row that makes the principal the
  owner.
\<close>

theorem viewer_changes_nothing:
  assumes "abides (d_authorizer d)" and "only_views prn db" and "d_kind d \<noteq> Mysql" and "op_name op \<noteq> []"
    and "run_op d files prn tnt op db = (e, db')"
  shows "db' = db"
  by (rule viewer_run_op [OF assms])

subsection \<open>Examples\<close>

text \<open>Two tenants, an administrator and a viewer of the first, and a secret of the second.\<close>

definition guard_db :: db where
  "guard_db t =
     (if t = ''tenants'' then [fmap_of_list [(''id'', VInt 1), (''name'', VStr ''t1'')],
        fmap_of_list [(''id'', VInt 2), (''name'', VStr ''t2'')]]
      else if t = ''principals'' then
        [fmap_of_list [(''id'', VStr ''eve''), (''role'', VStr ''viewer''), (''tenant_id'', VInt 1)],
         fmap_of_list [(''id'', VStr ''adm''), (''role'', VStr ''administrator''), (''tenant_id'', VInt 1)]]
      else if t = ''secrets'' then [fmap_of_list [(''id'', VInt 1), (''name'', VStr ''key''), (''tenant_id'', VInt 2)]]
      else [])"

definition policy_authorizer :: authorizer where
  "policy_authorizer = \<lparr>au_Check = policy_allows, au_Partial = (\<lambda>a extra. Inr (Some (Eq (Str ''a'') (Str ''b''))))\<rparr>"

definition guard_database :: "kind \<Rightarrow> database" where
  "guard_database k = \<lparr>d_kind = k, d_new_id = (\<lambda>db t. int (length (db t)) + 1), d_begin = None, d_commit = (\<lambda>db. None),
     d_authorizer = policy_authorizer\<rparr>"

definition named_secret :: "string \<Rightarrow> secret" where
  "named_secret n = \<lparr>sec_Name = n, sec_Value = None\<rparr>"

lemma guard_abides: "abides (d_authorizer (guard_database k))"
  by (simp add: abides_def guard_database_def policy_authorizer_def sql_eq_def)

lemma guard_schema_ok: "schema_ok v2Tables guard_db"
  by code_simp

lemma write_isolated_witness:
  "fst (run_op (guard_database Sqlite) (\<lambda>s. Inr []) ''adm'' ''t1'' (PutSecret (named_secret ''key'') :: nat write_op) guard_db) = None \<and>
   others (VInt 1) (snd (run_op (guard_database Sqlite) (\<lambda>s. Inr []) ''adm'' ''t1'' (PutSecret (named_secret ''key'') :: nat write_op) guard_db))
     ''secrets'' = guard_db ''secrets''"
proof -
  let ?r = "run_op (guard_database Sqlite) (\<lambda>s. Inr []) ''adm'' ''t1'' (PutSecret (named_secret ''key'') :: nat write_op) guard_db"
  have "others (tenant_id guard_db ''t1'') (snd ?r) = others (tenant_id guard_db ''t1'') guard_db"
    by (rule write_isolated [OF surjective_pairing _ _ guard_schema_ok, THEN conjunct2, THEN conjunct1])
       (simp_all add: guard_database_def)
  moreover have "tenant_id guard_db ''t1'' = VInt 1" by code_simp
  moreover have "others (VInt 1) guard_db ''secrets'' = guard_db ''secrets''"
    by (simp add: others_def entity_no_owner guard_db_def col_def fmap_of_list.rep_eq)
  moreover have "fst ?r = None" by code_simp
  ultimately show ?thesis by simp
qed

lemma viewer_changes_nothing_witness:
  "snd (run_op (guard_database Sqlite) (\<lambda>s. Inr []) ''eve'' ''t1'' (PutSecret (named_secret ''x'') :: nat write_op) guard_db) = guard_db"
proof (rule viewer_changes_nothing [OF guard_abides])
  show "only_views ''eve'' guard_db" by code_simp
  show "d_kind (guard_database Sqlite) \<noteq> Mysql" by (simp add: guard_database_def)
  show "op_name (PutSecret (named_secret ''x'') :: nat write_op) \<noteq> []" by (simp add: named_secret_def)
  show "run_op (guard_database Sqlite) (\<lambda>s. Inr []) ''eve'' ''t1'' (PutSecret (named_secret ''x'') :: nat write_op) guard_db =
      (fst (run_op (guard_database Sqlite) (\<lambda>s. Inr []) ''eve'' ''t1'' (PutSecret (named_secret ''x'') :: nat write_op) guard_db),
       snd (run_op (guard_database Sqlite) (\<lambda>s. Inr []) ''eve'' ''t1'' (PutSecret (named_secret ''x'') :: nat write_op) guard_db))"
    by (rule surjective_pairing)
qed

definition two_bundles :: db where
  "two_bundles = guard_db(''bundles'' := [fmap_of_list [(''id'', VInt 1), (''name'', VStr ''app''), (''tenant_id'', VInt 2)]],
     ''sources'' := [fmap_of_list [(''id'', VInt 1), (''name'', VStr ''lib''), (''tenant_id'', VInt 1), (''repo'', VStr [])]])"

definition app_bundle :: bundle_config where
  "app_bundle = \<lparr>bun_Name = ''app'', bun_Labels = None, bun_Revision = [],
     bun_ObjectStorage = \<lparr>os_AmazonS3 = None, os_GCPCloudStorage = None, os_AzureBlobStorage = None, os_FileSystemStorage = None\<rparr>,
     bun_Requirements = Some [\<lparr>req_Source = Some ''lib'', req_Commit = None, req_Path = [], req_Prefix = [], req_AutoMount = None\<rparr>],
     bun_ExcludedFiles = [], bun_Interval = 0, bun_Options = Options_zero\<rparr>"

text \<open>
  The name matters: the policy lets a viewer who creates a resource with the empty name pass,
  since the check for a creation names no resource and the viewer has just become the owner of
  the resource without a name. And on MySQL a write can reach another tenant: the id of an upserted
  bundle is looked up by name alone, so a requirement of a bundle goes to the bundle of that name
  of another tenant.
\<close>

theorem guards_have_gaps:
  "(let (e, db) = run_op (guard_database Sqlite) (\<lambda>s. Inr []) ''eve'' ''t1'' (PutSecret (named_secret []) :: nat write_op) guard_db
    in e = None \<and> resourceExists ''t1'' ''secrets'' [] db) \<and>
   (let (e, db) = run_op (guard_database Mysql) (\<lambda>s. Inr []) ''adm'' ''t1'' (PutBundle app_bundle :: nat write_op) two_bundles
    in e = None \<and> map (\<lambda>r. col r ''bundle_id'') (others (VInt 1) db ''bundles_requirements'') = [VInt 1]) \<and>
   others (VInt 1) two_bundles ''bundles_requirements'' = []"
proof (intro conjI)
  show "let (e, db) = run_op (guard_database Sqlite) (\<lambda>s. Inr []) ''eve'' ''t1'' (PutSecret (named_secret []) :: nat write_op) guard_db
    in e = None \<and> resourceExists ''t1'' ''secrets'' [] db" by code_simp
  show "let (e, db) = run_op (guard_database Mysql) (\<lambda>s. Inr []) ''adm'' ''t1'' (PutBundle app_bundle :: nat write_op) two_bundles
    in e = None \<and> map (\<lambda>r. col r ''bundle_id'') (others (VInt 1) db ''bundles_requirements'') = [VInt 1]" by code_simp
  show "others (VInt 1) two_bundles ''bundles_requirements'' = []" by code_simp
qed

end
