(* ===== verification/Mounts.thy ===== *)
theory Mounts
  imports Guards
begin

text \<open>
  What an upsert stores of the requirements of a bundle, a source or a stack: the exact effect of
  one requirement on its table, then of the loop and of the deletion of what is no longer
  required.
\<close>

subsection \<open>One requirement\<close>

definition at_key :: "string \<Rightarrow> string \<Rightarrow> int \<Rightarrow> int \<Rightarrow> row \<Rightarrow> bool" where
  "at_key oc rc i j x \<longleftrightarrow> col x oc = VInt i \<and> col x rc = VInt j"

lemma map_col_zip:
  assumes "distinct cs" and "length vs = length cs"
  shows "map (col (fmap_of_list (zip cs vs))) cs = vs"
  by (rule nth_equalityI) (simp_all add: assms col_def fmap_of_list.rep_eq map_of_zip_nth)

lemma new_row_columns:
  assumes "distinct columns" and "length vs = length columns"
  shows "map (col (new_row (upsert_stmt k [] t columns pk) vs db)) columns = vs"
proof -
  have "map (value_of db vs) (in_values (upsert_stmt k [] t columns pk)) = vs"
    using assms(2) map_nth [of vs] by (simp add: upsert_stmt_def Let_def o_def)
  then show ?thesis
    using map_col_zip [OF assms] by (simp add: new_row_def) (simp add: upsert_stmt_def Let_def)
qed

lemma col_set_columns_in: "c \<in> set cs \<Longrightarrow> col (set_columns cs new r) c = col new c"
proof -
  have "col (fold (\<lambda>c. fmupd c (col new c)) cs r) c = (if c \<in> set cs then col new c else col r c)" for r
    by (induction cs arbitrary: r) (auto simp: col_def)
  then show "c \<in> set cs \<Longrightarrow> col (set_columns cs new r) c = col new c" by (simp add: set_columns_def)
qed

lemma unique_key_filter:
  assumes "unique_on [oc, rc] rs" and "x \<in> set rs" and "at_key oc rc i j x"
  shows "filter (at_key oc rc i j) rs = [x]"
  using assms
proof (induction rs)
  case (Cons y rs)
  show ?case
  proof (cases "at_key oc rc i j y")
    case True
    then have "filter (at_key oc rc i j) rs = []"
      using Cons.prems(1) by (auto simp: unique_on_Cons at_key_def filter_empty_conv)
    with True Cons.prems(2,3) show ?thesis by (auto simp: filter_empty_conv)
  next
    case False
    with Cons show ?thesis by (auto simp: unique_on_Cons)
  qed
qed simp

lemma filter_update_key:
  assumes "filter P xs = [x]" and "\<And>y. P y \<Longrightarrow> P (f y)"
  shows "filter P (update_first P f xs) = [f x]"
  using assms(1)
proof (induction xs)
  case (Cons y ys)
  then show ?case by (cases "P y") (auto simp: assms(2) filter_empty_conv)
qed simp

lemma requirement_columns_distinct:
  assumes "(oc, rc) \<in> {(''bundle_id'', ''source_id''), (''source_id'', ''requirement_id''), (''stack_id'', ''source_id'')}"
  shows "distinct (requirement_columns oc rc)" and "''id'' \<notin> set (requirement_columns oc rc)"
  using assms by (auto simp: requirement_columns_def)

text \<open>The tables of requirements with their columns.\<close>

definition requirement_table :: "string \<Rightarrow> string \<Rightarrow> string \<Rightarrow> bool" where
  "requirement_table t oc rc \<longleftrightarrow> (t, oc, rc) \<in> {(''bundles_requirements'', ''bundle_id'', ''source_id''),
     (''sources_requirements'', ''source_id'', ''requirement_id''), (''stacks_requirements'', ''stack_id'', ''source_id'')}"

lemma requirement_tableD:
  assumes "requirement_table t oc rc"
  shows "distinct (requirement_columns oc rc)" and "''id'' \<notin> set (requirement_columns oc rc)"
    and "\<not> has_id t" and "schema_ok v2Tables db \<Longrightarrow> unique_on [oc, rc] (db t)"
    and "t \<noteq> ''sources''" and "t \<noteq> ''tenants''" and "t \<noteq> ''bundles''"
proof -
  have 1: "(oc, rc) \<in> {(''bundle_id'', ''source_id''), (''source_id'', ''requirement_id''), (''stack_id'', ''source_id'')}"
    using assms by (auto simp: requirement_table_def)
  show "distinct (requirement_columns oc rc)" "''id'' \<notin> set (requirement_columns oc rc)"
    by (rule requirement_columns_distinct [OF 1])+
  have "\<not> has_id ''bundles_requirements'' \<and> \<not> has_id ''sources_requirements'' \<and> \<not> has_id ''stacks_requirements''" by code_simp
  with assms show "\<not> has_id t" by (auto simp: requirement_table_def)
  have "list_all (\<lambda>(t, oc, rc). list_ex (\<lambda>s. tbl_name s = t \<and> [oc, rc] \<in> set (table_keys s)) v2Tables)
      [(''bundles_requirements'', ''bundle_id'', ''source_id''), (''sources_requirements'', ''source_id'', ''requirement_id''),
       (''stacks_requirements'', ''stack_id'', ''source_id'')]" by code_simp
  then have "list_ex (\<lambda>s. tbl_name s = t \<and> [oc, rc] \<in> set (table_keys s)) v2Tables"
    using assms unfolding requirement_table_def list_all_iff by auto
  then show "unique_on [oc, rc] (db t)" if "schema_ok v2Tables db"
    using that unfolding schema_ok_def table_ok_def list_all_iff list_ex_iff by auto
  show "t \<noteq> ''sources''" "t \<noteq> ''tenants''" "t \<noteq> ''bundles''" using assms by (auto simp: requirement_table_def)
qed

lemma upsert_conflict:
  assumes "distinct columns" and "k \<noteq> Mysql" and "columns = pk @ cs" and "cs \<noteq> []"
  shows "in_conflict (upsert_stmt k [] t columns pk) = DoUpdate pk cs"
proof -
  have "filter (\<lambda>c. c \<notin> set pk) cs = cs" and "filter (\<lambda>c. c \<notin> set pk) pk = []"
    using assms(1,3) by (auto simp: filter_empty_conv filter_id_conv)
  with assms(2-4) show ?thesis by (simp add: upsert_stmt_def Let_def)
qed

lemma upsertRel_requirement:
  assumes up: "upsertRel d t (requirement_columns oc rc) [oc, rc] (requirement_values i j r) db = Inr db'"
    and t: "requirement_table t oc rc" and kind: "d_kind d \<noteq> Mysql" and ok: "schema_ok v2Tables db"
  shows "\<exists>rs x. db' = db(t := rs) \<and> schema_ok v2Tables db' \<and>
    filter (\<lambda>y. \<not> at_key oc rc i j y) rs = filter (\<lambda>y. \<not> at_key oc rc i j y) (db t) \<and>
    filter (at_key oc rc i j) rs = [x] \<and> map (col x) (requirement_columns oc rc) = requirement_values i j r"
proof -
  note D = requirement_tableD [OF t]
  let ?cols = "requirement_columns oc rc" and ?vs = "requirement_values i j r"
  let ?cs = "[''gitcommit'', ''path'', ''prefix'', ''options'']"
  let ?s = "upsert_stmt (d_kind d) [] t ?cols [oc, rc]"
  let ?new = "new_row ?s ?vs db" and ?K = "at_key oc rc i j"
  have cols: "?cols = oc # rc # ?cs" by (simp add: requirement_columns_def)
  have s: "in_conflict ?s = DoUpdate [oc, rc] ?cs"
    using upsert_conflict [OF D(1) kind, of "[oc, rc]" ?cs] by (simp add: cols)
  from up obtain k where "upsertReturning d False [] t ?cols [oc, rc] ?vs db = Inr (k, db')"
    by (auto simp: upsertRel_def result_bind_Inr_iff)
  from upsertReturning_Inr [OF this] obtain q rs where
    ins: "insert_rows d ?s ?new db = Inr (q, rs)" and db': "db' = db(t := rs)" and ok': "schema_ok v2Tables db'" by auto
  have new: "map (col ?new) ?cols = ?vs"
    by (rule new_row_columns [OF D(1)]) (simp add: requirement_columns_def requirement_values_def)
  then have new_key: "col ?new oc = VInt i" "col ?new rc = VInt j"
    by (simp_all add: cols requirement_values_def)
  have same: "same_key ?new [oc, rc] = ?K"
    by (rule ext) (auto simp: same_key_def at_key_def sql_eq_def new_key)
  have fresh: "append_row d t ?new db = ?new" using D(3) by (simp add: append_row_def)
  have set_cols: "map (col (set_columns ?cs ?new y)) ?cols = ?vs" if "?K y" for y
  proof -
    have "col (set_columns ?cs ?new y) c = col ?new c" if "c \<in> set ?cols" for c
    proof (cases "c \<in> set ?cs")
      case True
      then show ?thesis by (rule col_set_columns_in)
    next
      case False
      with that \<open>?K y\<close> show ?thesis by (auto simp: cols col_set_columns at_key_def new_key [unfolded cols])
    qed
    then have "map (col (set_columns ?cs ?new y)) ?cols = map (col ?new) ?cols" by (rule map_cong [OF refl])
    then show ?thesis by (simp only: new)
  qed
  have keep_key: "?K (set_columns ?cs ?new y)" if "?K y" for y
    using set_cols [OF that] by (simp add: cols requirement_values_def at_key_def)
  show ?thesis
  proof (cases "\<exists>y \<in> set (db t). ?K y")
    case True
    then obtain y where y: "filter ?K (db t) = [y]"
      using unique_key_filter [OF D(4) [OF ok]] by blast
    then have "?K y" using filter_eq_ConsD by fastforce
    have "rs = update_first ?K (set_columns ?cs ?new) (db t)"
      using ins s True same by (auto simp: insert_rows_def Let_def find_None_iff split: if_splits option.splits)
    then have "filter ?K rs = [set_columns ?cs ?new y]" "filter (\<lambda>y. \<not> ?K y) rs = filter (\<lambda>y. \<not> ?K y) (db t)"
      using filter_update_key [OF y] filter_update_first [of ?K "\<lambda>y. \<not> ?K y"] keep_key by auto
    with db' ok' set_cols [OF \<open>?K y\<close>] show ?thesis by blast
  next
    case False
    then have "find ?K (db t) = None" by (simp add: find_None_iff)
    with ins s same fresh have rs: "rs = db t @ [?new]"
      by (auto simp: insert_rows_def Let_def split: if_splits)
    moreover have "?K ?new" by (simp add: at_key_def new_key)
    ultimately have "filter ?K rs = [?new]" "filter (\<lambda>y. \<not> ?K y) rs = filter (\<lambda>y. \<not> ?K y) (db t)"
      using False by (auto simp: filter_empty_conv)
    with db' ok' new show ?thesis by blast
  qed
qed

subsection \<open>The loop over the requirements\<close>

text \<open>
  What the loop means: for each required source the last requirement that names it, since each
  upsert replaces the row of the pair.
\<close>

definition mounts :: "string \<Rightarrow> db \<Rightarrow> requirement list \<Rightarrow> int \<Rightarrow> requirement option" where
  "mounts tnt db rs = fold (\<lambda>r m. case req_Source r of
       None \<Rightarrow> m
     | Some s \<Rightarrow> (case lookupID tnt ''sources'' s db of Inr j \<Rightarrow> m(j \<mapsto> r) | Inl e \<Rightarrow> m)) rs Map.empty"

lemma mounts_snoc:
  "mounts tnt db (rs @ [r]) = (case req_Source r of
     None \<Rightarrow> mounts tnt db rs
   | Some s \<Rightarrow> (case lookupID tnt ''sources'' s db of Inr j \<Rightarrow> (mounts tnt db rs)(j \<mapsto> r) | Inl e \<Rightarrow> mounts tnt db rs))"
  unfolding mounts_def by (simp split: option.split sum.split)

text \<open>The rows of an owner with their values, in the order of the columns.\<close>

definition stored :: "string \<Rightarrow> string \<Rightarrow> string \<Rightarrow> int \<Rightarrow> db \<Rightarrow> val list list" where
  "stored t oc rc i db = map (\<lambda>x. map (col x) (requirement_columns oc rc)) (filter (\<lambda>x. col x oc = VInt i) (db t))"

definition mounted :: "string \<Rightarrow> string \<Rightarrow> int \<Rightarrow> (int \<Rightarrow> requirement option) \<Rightarrow> row list \<Rightarrow> bool" where
  "mounted oc rc i m rs \<longleftrightarrow> (\<forall>j r. m j = Some r \<longrightarrow>
     (\<exists>x. filter (at_key oc rc i j) rs = [x] \<and> map (col x) (requirement_columns oc rc) = requirement_values i j r))"

lemma filter_other_key:
  assumes "filter (\<lambda>y. \<not> P y) rs' = filter (\<lambda>y. \<not> P y) rs" and "\<And>y. Q y \<Longrightarrow> \<not> P y"
  shows "filter Q rs' = filter Q rs"
proof -
  have "filter Q xs = filter Q (filter (\<lambda>y. \<not> P y) xs)" for xs
    unfolding filter_filter by (rule filter_cong) (use assms(2) in auto)
  with assms(1) show ?thesis by metis
qed

lemma mounted_update:
  assumes "mounted oc rc i m rs" and "filter (\<lambda>y. \<not> at_key oc rc i j y) rs' = filter (\<lambda>y. \<not> at_key oc rc i j y) rs"
    and "filter (at_key oc rc i j) rs' = [x]" and "map (col x) (requirement_columns oc rc) = requirement_values i j r"
  shows "mounted oc rc i (m(j \<mapsto> r)) rs'"
  unfolding mounted_def
proof (intro allI impI)
  fix j' r' assume r': "(m(j \<mapsto> r)) j' = Some r'"
  show "\<exists>x. filter (at_key oc rc i j') rs' = [x] \<and> map (col x) (requirement_columns oc rc) = requirement_values i j' r'"
  proof (cases "j' = j")
    case True
    with r' assms(3,4) show ?thesis by auto
  next
    case False
    then have "filter (at_key oc rc i j') rs' = filter (at_key oc rc i j') rs"
      by (intro filter_other_key [OF assms(2)]) (auto simp: at_key_def)
    with False r' assms(1) show ?thesis by (simp add: mounted_def)
  qed
qed

lemma lookupID_update: "t \<noteq> u \<Longrightarrow> t \<noteq> ''tenants'' \<Longrightarrow> lookupID tnt u n (db(t := rs)) = lookupID tnt u n db"
  by (simp add: lookupID_def named_row_def tenant_id_def)

lemma upsert_requirements_mounted:
  assumes "upsert_requirements d tnt msg rel t oc rc i rs db = Inr (db', ids)"
    and t: "requirement_table t oc rc" and kind: "d_kind d \<noteq> Mysql" and ok: "schema_ok v2Tables db"
  shows "\<exists>rows. db' = db(t := rows) \<and> schema_ok v2Tables db' \<and> mounted oc rc i (mounts tnt db rs) rows \<and>
    set ids = dom (mounts tnt db rs)"
  using assms(1)
proof (induction rs arbitrary: db' ids rule: rev_induct)
  case Nil
  then show ?case
    using ok by (intro exI [of _ "db t"]) (simp add: upsert_requirements_def mounts_def mounted_def)
next
  case (snoc r rs)
  from snoc.prems obtain db1 ids1 where
    first: "upsert_requirements d tnt msg rel t oc rc i rs db = Inr (db1, ids1)"
    and step: "upsert_requirement d tnt msg rel t oc rc i r (db1, ids1) = Inr (db', ids)"
    by (auto simp: upsert_requirements_def fold_result_snoc result_bind_Inr_iff)
  from snoc.IH [OF first] obtain rows where db1: "db1 = db(t := rows)" and ok1: "schema_ok v2Tables db1"
    and m: "mounted oc rc i (mounts tnt db rs) rows" and ids1: "set ids1 = dom (mounts tnt db rs)" by blast
  show ?case
  proof (cases "req_Source r")
    case None
    with step db1 ok1 m ids1 show ?thesis by (auto simp: upsert_requirement_def mounts_snoc)
  next
    case (Some n)
    with step obtain j where j: "lookupID tnt ''sources'' n db1 = Inr j" and ids: "ids = ids1 @ [j]"
      and up: "upsertRel d t (requirement_columns oc rc) [oc, rc] (requirement_values i j r) db1 = Inr db'"
      by (auto simp: upsert_requirement_def result_bind_Inr_iff)
    from j have "lookupID tnt ''sources'' n db = Inr j"
      using requirement_tableD(5,6) [OF t] by (simp add: db1 lookupID_update)
    then have mounts: "mounts tnt db (rs @ [r]) = (mounts tnt db rs)(j \<mapsto> r)" by (simp add: mounts_snoc Some)
    from upsertRel_requirement [OF up t kind ok1] obtain rows' x where
      db': "db' = db1(t := rows')" "schema_ok v2Tables db'"
      and rows': "filter (\<lambda>y. \<not> at_key oc rc i j y) rows' = filter (\<lambda>y. \<not> at_key oc rc i j y) (db1 t)"
        "filter (at_key oc rc i j) rows' = [x]" "map (col x) (requirement_columns oc rc) = requirement_values i j r" by blast
    have "mounted oc rc i (mounts tnt db (rs @ [r])) rows'"
      unfolding mounts by (rule mounted_update [OF m]) (use rows' db1 in auto)
    moreover have "set ids = dom (mounts tnt db (rs @ [r]))" by (simp add: ids ids1 mounts)
    moreover have "db' = db(t := rows')" using db'(1) by (simp add: db1)
    ultimately show ?thesis using db'(2) by blast
  qed
qed

lemma unique_on_pair:
  assumes "unique_on [a, b] rs" and "x \<in> set rs" and "y \<in> set rs" and "col x a = col y a" and "col x b = col y b"
    and "col x a \<noteq> VNull" and "col x b \<noteq> VNull"
  shows "x = y"
  using assms by (induction rs) (auto simp: unique_on_Cons)

lemma find_unique:
  assumes "P y" and "y \<in> set xs" and "\<And>x. x \<in> set xs \<Longrightarrow> P x \<Longrightarrow> x = y"
  shows "find P xs = Some y"
proof -
  from assms(1,2) obtain z where z: "find P xs = Some z" by (metis find_None_iff option.exhaust)
  then have "z \<in> set xs" "P z" by (auto simp: find_Some_iff)
  with z show ?thesis using assms(3) by simp
qed

lemma unique_on_distinct:
  assumes "unique_on ks rs" and "\<And>x. x \<in> set rs \<Longrightarrow> VNull \<notin> col x ` set ks" and "set ks \<subseteq> set cs"
  shows "distinct (map (\<lambda>x. map (col x) cs) rs)"
  using assms(1,2)
proof (induction rs)
  case (Cons r rs)
  have "map (col x) cs \<noteq> map (col r) cs" if "x \<in> set rs" for x
  proof -
    have "map (col x) ks \<noteq> map (col r) ks" using Cons.prems that by (auto simp: unique_on_Cons simp del: map_eq_conv)
    then show ?thesis using assms(3) by auto
  qed
  then have "map (col r) cs \<notin> (\<lambda>x. map (col x) cs) ` set rs" unfolding image_iff by (metis (mono_tags))
  moreover have "distinct (map (\<lambda>x. map (col x) cs) rs)"
    by (rule Cons.IH) (use Cons.prems in \<open>auto simp: unique_on_Cons\<close>)
  ultimately show ?case by simp
qed simp

lemma requirement_notnull:
  assumes "requirement_table t oc rc" and "schema_ok v2Tables db" and "x \<in> set (db t)"
  shows "col x oc \<noteq> VNull" and "col x rc \<noteq> VNull"
proof -
  have "list_all (\<lambda>(t, oc, rc). list_ex (\<lambda>s. tbl_name s = t \<and> list_ex (\<lambda>c. col_Name c = oc \<and> col_NotNull c) (tbl_columns s) \<and>
      list_ex (\<lambda>c. col_Name c = rc \<and> col_NotNull c) (tbl_columns s)) v2Tables)
      [(''bundles_requirements'', ''bundle_id'', ''source_id''), (''sources_requirements'', ''source_id'', ''requirement_id''),
       (''stacks_requirements'', ''stack_id'', ''source_id'')]" by code_simp
  then obtain s a b where "s \<in> set v2Tables" "tbl_name s = t" "a \<in> set (tbl_columns s)" "b \<in> set (tbl_columns s)"
    "col_Name a = oc" "col_Name b = rc" "col_NotNull a" "col_NotNull b"
    using assms(1) unfolding requirement_table_def list_all_iff list_ex_iff by auto
  with assms(2,3) show "col x oc \<noteq> VNull" and "col x rc \<noteq> VNull"
    unfolding schema_ok_def table_ok_def notnull_ok_def list_all_iff by fastforce+
qed

text \<open>With the deletion of the other rows the table holds exactly the requirements.\<close>

lemma deleteNotIn_mounted:
  assumes "deleteNotIn t oc (VInt i) rc ids db = Inr db'" and t: "requirement_table t oc rc"
    and ok: "schema_ok v2Tables db" and m: "mounted oc rc i m (db t)" and ids: "set ids = dom m"
  shows "set (stored t oc rc i db') = {requirement_values i j r |j r. m j = Some r}"
    and "distinct (stored t oc rc i db')" and "u \<noteq> t \<Longrightarrow> db' u = db u"
proof -
  let ?key = "\<lambda>x. map (col x) (requirement_columns oc rc)"
  have keep: "filter (\<lambda>x. col x oc = VInt i) (db' t) =
      filter (\<lambda>x. col x oc = VInt i \<and> (\<exists>j \<in> dom m. col x rc = VInt j)) (db t)"
  proof -
    have nn: "col x rc \<noteq> VNull" if "x \<in> set (db t)" for x
      using requirement_notnull(2) [OF t ok that] .
    show ?thesis
    proof (cases "ids = []")
      case True
      with assms(1) ids show ?thesis
        by (auto simp: deleteNotIn_def delete_rows_def sql_eq_def filter_empty_conv)
    next
      case False
      with assms(1) have "db' t = filter (\<lambda>r. \<not> (sql_eq (col r oc) (VInt i) \<and> col r rc \<noteq> VNull \<and> col r rc \<notin> VInt ` set ids)) (db t)"
        by (auto simp: deleteNotIn_def)
      then show ?thesis
        unfolding filter_filter using nn ids by (auto simp: sql_eq_def intro!: filter_cong)
    qed
  qed
  have row: "\<exists>j r. m j = Some r \<and> at_key oc rc i j x \<and> ?key x = requirement_values i j r"
    if "x \<in> set (db t)" and "col x oc = VInt i" and "\<exists>j \<in> dom m. col x rc = VInt j" for x
  proof -
    from that(3) obtain j r where j: "m j = Some r" "col x rc = VInt j" by auto
    with m obtain y where y: "filter (at_key oc rc i j) (db t) = [y]" "?key y = requirement_values i j r"
      unfolding mounted_def by blast
    have "x \<in> set (filter (at_key oc rc i j) (db t))" using that j by (simp add: at_key_def)
    with y j that(2) show ?thesis by (auto simp: at_key_def)
  qed
  have row': "\<exists>x \<in> set (db t). at_key oc rc i j x \<and> ?key x = requirement_values i j r" if "m j = Some r" for j r
  proof -
    from that m obtain y where y: "filter (at_key oc rc i j) (db t) = [y]" "?key y = requirement_values i j r"
      unfolding mounted_def by blast
    then have "y \<in> set (filter (at_key oc rc i j) (db t))" by simp
    with y(2) show ?thesis by auto
  qed
  show "set (stored t oc rc i db') = {requirement_values i j r |j r. m j = Some r}"
  proof (intro equalityI subsetI)
    fix v assume "v \<in> set (stored t oc rc i db')"
    then obtain x where "x \<in> set (db t)" "col x oc = VInt i" "\<exists>j \<in> dom m. col x rc = VInt j" "v = ?key x"
      unfolding stored_def keep by auto
    with row [OF this(1-3)] show "v \<in> {requirement_values i j r |j r. m j = Some r}" by auto
  next
    fix v assume "v \<in> {requirement_values i j r |j r. m j = Some r}"
    then obtain j r where j: "m j = Some r" "v = requirement_values i j r" by blast
    from row' [OF j(1)] obtain x where "x \<in> set (db t)" "at_key oc rc i j x" "?key x = v" using j(2) by blast
    with j(1) show "v \<in> set (stored t oc rc i db')"
      unfolding stored_def keep by (auto simp: at_key_def intro!: image_eqI [of _ _ x])
  qed
  show "u \<noteq> t \<Longrightarrow> db' u = db u"
    using assms(1) by (auto simp: deleteNotIn_def delete_rows_def split: if_splits)
  have "schema_ok v2Tables db'" using assms(1) by (auto simp: deleteNotIn_def delete_rows_def split: if_splits)
  then have "distinct (map ?key (db' t))"
    by (intro unique_on_distinct [OF requirement_tableD(4) [OF t]])
      (auto simp: requirement_columns_def requirement_notnull [OF t \<open>schema_ok v2Tables db'\<close>, symmetric])
  then show "distinct (stored t oc rc i db')" unfolding stored_def by (rule distinct_map_filter)
qed

subsection \<open>The requirements of a bundle after an upsert\<close>

lemma named_row_unique:
  assumes "schema_ok v2Tables db" and "t \<in> {''bundles'', ''stacks'', ''sources'', ''secrets''}"
    and "y \<in> set (db t)" and "col y ''tenant_id'' = tenant_id db tnt" and "col y ''name'' = VStr nm"
  shows "named_row tnt t nm db = Some y"
proof -
  have "list_all (\<lambda>t. list_ex (\<lambda>s. tbl_name s = t \<and> [''tenant_id'', ''name''] \<in> set (table_keys s) \<and>
      list_ex (\<lambda>c. col_Name c = ''tenant_id'' \<and> col_NotNull c) (tbl_columns s)) v2Tables)
      [''bundles'', ''stacks'', ''sources'', ''secrets'']" by code_simp
  then obtain s c where s: "s \<in> set v2Tables" "tbl_name s = t" "[''tenant_id'', ''name''] \<in> set (table_keys s)"
      "c \<in> set (tbl_columns s)" "col_Name c = ''tenant_id''" "col_NotNull c"
    using assms(2) unfolding list_all_iff list_ex_iff by auto
  have "table_ok db s" using assms(1) s(1) by (simp add: schema_ok_def list_all_iff)
  with s have u: "unique_on [''tenant_id'', ''name''] (db t)" and "notnull_ok (db t) c"
    unfolding table_ok_def list_all_iff by auto
  with s have nn: "col r ''tenant_id'' \<noteq> VNull" if "r \<in> set (db t)" for r using that by (simp add: notnull_ok_def list_all_iff)
  let ?P = "\<lambda>r. sql_eq (col r ''name'') (VStr nm) \<and> sql_eq (col r ''tenant_id'') (tenant_id db tnt)"
  have P: "?P y" using assms(3-5) nn [OF assms(3)] by (auto simp: sql_eq_def)
  have "x = y" if "x \<in> set (db t)" "?P x" for x
    using unique_on_pair [OF u that(1) assms(3)] that(2) P by (auto simp: sql_eq_def)
  with P assms(3) show ?thesis unfolding named_row_def by (rule find_unique)
qed

text \<open>The row that an upsert into a table of named entities returns is the one of the name.\<close>

lemma upsert_lookup:
  assumes "upsert d tnt t columns [''name''] vs db = Inr (i, db')" and "d_kind d \<noteq> Mysql" and "tnt \<noteq> []"
    and "columns = ''name'' # cols" and "vs = VStr nm # vals" and "''tenant_id'' \<notin> set columns" and "length vs = length columns"
    and "t \<in> {''bundles'', ''stacks'', ''sources'', ''secrets''}"
  shows "lookupID tnt t nm db' = Inr i" and "schema_ok v2Tables db'" and "u \<noteq> t \<Longrightarrow> db' u = db u"
proof -
  let ?s = "upsert_stmt (d_kind d) tnt t columns [''name'']"
  let ?new = "new_row ?s (vs @ [VStr tnt]) db"
  from upsertReturning_Inr [OF assms(1) [unfolded upsert_def]] assms(2,3) obtain r rs where
    ins: "insert_rows d ?s ?new db = Inr (r, rs)" and db': "db' = db(t := rs)" and ok: "schema_ok v2Tables db'"
    and i: "scan_id r = Inr i" by auto
  from upsert_stmt_conflict [OF assms(2), of tnt t columns "[''name'']"] assms(3) obtain cs where
    conflict: "in_conflict ?s = DoNothing [''name'', ''tenant_id''] \<or> in_conflict ?s = DoUpdate [''name'', ''tenant_id''] cs"
    and cs: "''tenant_id'' \<notin> set cs" "''name'' \<notin> set cs" by auto
  from i obtain y where y: "r = Some y" "col y ''id'' = VInt i" by (cases r) (auto split: val.splits)
  have t: "t \<noteq> ''tenants''" using assms(8) by auto
  have "col ?new ''tenant_id'' = tenant_id db' tnt"
    using new_row_tenant [OF assms(3) assms(6,7)] t by (simp add: db' tenant_id_def)
  moreover have "col ?new ''name'' = VStr nm"
    using new_row_first [of "d_kind d" tnt t "''name''" cols "[''name'']" "VStr nm" "vals @ [VStr tnt]" db] by (simp add: assms(4,5))
  ultimately have yin: "y \<in> set (db' t)" "col y ''tenant_id'' = tenant_id db' tnt" "col y ''name'' = VStr nm"
    using insert_rows_touches(3) [OF ins conflict _ cs(1) _ y(1)] insert_rows_touches(3) [OF ins conflict _ cs(2) _ y(1)]
    by (simp_all add: db')
  with ok assms(8) y(2) show "lookupID tnt t nm db' = Inr i" using named_row_unique [of db' t y] by (simp add: lookupID_def)
  show "schema_ok v2Tables db'" by (rule ok)
  show "u \<noteq> t \<Longrightarrow> db' u = db u" by (simp add: db')
qed

lemma link_secret_Inr:
  assumes "link_secret d tnt rt i cred db = Inr db'" and "schema_ok v2Tables db"
  shows "schema_ok v2Tables db'" and "u \<noteq> ''bundles_secrets'' \<Longrightarrow> db' u = db u"
proof -
  have "schema_ok v2Tables db' \<and> (u \<noteq> ''bundles_secrets'' \<longrightarrow> db' u = db u)"
  proof (cases cred)
    case None
    with assms show ?thesis by (simp add: link_secret_def)
  next
    case (Some c)
    with assms(1) obtain k j where
      "upsertReturning d False [] ''bundles_secrets'' [''bundle_id'', ''secret_id'', ''ref_type''] [''bundle_id'', ''secret_id'']
         [VInt i, VInt k, VStr rt] db = Inr (j, db')"
      by (auto simp: link_secret_def upsertRel_def result_bind_Inr_iff)
    from upsertReturning_Inr [OF this] show ?thesis by auto
  qed
  then show "schema_ok v2Tables db'" and "u \<noteq> ''bundles_secrets'' \<Longrightarrow> db' u = db u" by auto
qed

lemma lookupID_cong: "db' t = db t \<Longrightarrow> db' ''tenants'' = db ''tenants'' \<Longrightarrow> lookupID tnt t n db' = lookupID tnt t n db"
  by (simp add: lookupID_def named_row_def tenant_id_def)

lemma mounts_cong: "db' ''sources'' = db ''sources'' \<Longrightarrow> db' ''tenants'' = db ''tenants'' \<Longrightarrow> mounts tnt db' rs = mounts tnt db rs"
proof -
  assume "db' ''sources'' = db ''sources''" and "db' ''tenants'' = db ''tenants''"
  then have "lookupID tnt ''sources'' n db' = lookupID tnt ''sources'' n db" for n by (rule lookupID_cong)
  then show "mounts tnt db' rs = mounts tnt db rs" unfolding mounts_def by (simp only:)
qed


definition mount :: "string \<Rightarrow> string \<Rightarrow> requirement" where
  "mount src prf = \<lparr>req_Source = Some src, req_Commit = None, req_Path = [], req_Prefix = prf, req_AutoMount = None\<rparr>"

definition two_mounts :: bundle_config where
  "two_mounts = app_bundle\<lparr>bun_Requirements := Some [mount ''lib'' ''a'', mount ''lib'' ''b'']\<rparr>"


definition two_sources :: db where
  "two_sources = guard_db(''sources'' := [fmap_of_list [(''id'', VInt 1), (''name'', VStr ''lib''), (''tenant_id'', VInt 1), (''repo'', VStr [])],
     fmap_of_list [(''id'', VInt 2), (''name'', VStr ''app''), (''tenant_id'', VInt 1), (''repo'', VStr [])]])"

definition base_stack :: "string \<Rightarrow> nat stack" where
  "base_stack src = \<lparr>stk_Name = ''base'', stk_Selector = new_selector, stk_ExcludeSelector = None, stk_Requirements = Some [mount src []]\<rparr>"

text \<open>
  Two consequences in small. A bundle that mounts one source twice keeps one row, with the second
  prefix. The update of a stack adds its requirements and never removes one: after the stack
  that required \<open>lib\<close> and then only \<open>app\<close> was stored, both rows are there.
\<close>

theorem stored_requirements_examples:
  "(let (e, db) = UpsertBundle (guard_database Sqlite) ''adm'' ''t1'' two_mounts two_bundles in
     e = None \<and> map (\<lambda>x. (col x ''source_id'', col x ''prefix'')) (db ''bundles_requirements'') = [(VInt 1, VStr ''b'')]) \<and>
   (let (e1, db1) = UpsertStack (guard_database Sqlite) ''adm'' ''t1'' (base_stack ''lib'') two_sources;
        (e2, db2) = UpsertStack (guard_database Sqlite) ''adm'' ''t1'' (base_stack ''app'') db1 in
     e1 = None \<and> e2 = None \<and> map (\<lambda>x. col x ''source_id'') (db2 ''stacks_requirements'') = [VInt 1, VInt 2])"
  by (rule conjI) code_simp+

end
