(* ===== verification/Pages.thy ===== *)
theory Pages
  imports Listing Mounts
begin

text \<open>
  What a list returns and how a client reads a long one. The interface \<open>pager\<close> states what a
  list operation promises of a page; under it, following the cursors returns every entity once, in the
  order of the ids. The four list operations are instances.
\<close>

subsection \<open>Lists of rows\<close>

definition row_name :: "row \<Rightarrow> string" where
  "row_name r = (case col r ''name'' of VStr s \<Rightarrow> s | _ \<Rightarrow> [])"

lemma last_id_Max: "last_id is = Max (insert 0 (set is))"
  using Max.set_eq_fold [of 0 "is"] by (simp add: last_id_def)

lemma last_id_cong: "set xs = set ys \<Longrightarrow> last_id xs = last_id ys"
  by (simp add: last_id_Max)

lemma last_id_sorted:
  assumes "sorted is" and "is \<noteq> []" and "\<forall>i \<in> set is. 0 < i"
  shows "last_id is = last is"
  unfolding last_id_Max
proof (rule Max_eqI)
  show "last is \<in> insert 0 (set is)" using assms(2) by simp
  fix y assume "y \<in> insert 0 (set is)"
  with assms show "y \<le> last is"
    by (cases "is" rule: rev_cases) (auto simp: less_imp_le sorted_append)
qed simp

definition rest_after :: "int \<Rightarrow> row list \<Rightarrow> row list" where
  "rest_after i rs = filter (\<lambda>r. i < row_id r) rs"

definition ascending :: "row list \<Rightarrow> bool" where
  "ascending rs \<longleftrightarrow> sorted_wrt (<) (map row_id rs) \<and> (\<forall>r \<in> set rs. 0 < row_id r \<and> row_id r < 2 ^ 63)"

lemma rest_after_take:
  assumes "ascending rs" and "0 < k" and "k \<le> length rs"
  shows "rest_after (row_id (rs ! (k - 1))) rs = drop k rs"
proof -
  have s: "sorted_wrt (\<lambda>r r'. row_id r < row_id r') rs" using assms(1) by (simp add: ascending_def sorted_wrt_map)
  have "rest_after (row_id (rs ! (k - 1))) (take k rs) = []"
    unfolding rest_after_def filter_empty_conv
  proof
    fix r assume "r \<in> set (take k rs)"
    then obtain i where "i < k" "r = rs ! i" by (auto simp: in_set_conv_nth)
    with s assms(2,3) show "\<not> row_id (rs ! (k - 1)) < row_id r"
      by (cases "i = k - 1") (auto dest: sorted_wrt_nth_less [where i = i and j = "k - 1"])
  qed
  moreover have "rest_after (row_id (rs ! (k - 1))) (drop k rs) = drop k rs"
    unfolding rest_after_def filter_id_conv
  proof
    fix r assume "r \<in> set (drop k rs)"
    then obtain i where "i < length rs - k" "r = rs ! (k + i)" by (auto simp: in_set_conv_nth)
    then have "k + i < length rs" "r = rs ! (k + i)" by simp_all
    with assms(2) show "row_id (rs ! (k - 1)) < row_id r"
      using sorted_wrt_nth_less [OF s, of "k - 1" "k + i"] by auto
  qed
  ultimately show ?thesis
    unfolding rest_after_def by (metis append_Nil append_take_drop_id filter_append)
qed

subsection \<open>Following the cursors\<close>

text \<open>A client that asks for pages of \<open>n\<close> until no cursor comes back; the number bounds its requests.\<close>

fun follow :: "(listOptions \<Rightarrow> db_error + 'x list \<times> string) \<Rightarrow> int \<Rightarrow> string \<Rightarrow> nat \<Rightarrow> string \<Rightarrow> (db_error + 'x list) option" where
  "follow fetch n nm 0 c = None"
| "follow fetch n nm (Suc k) c =
     (case fetch \<lparr>lo_Limit = n, lo_Cursor = c, lo_name = nm\<rparr> of
        Inl e \<Rightarrow> Some (Inl e)
      | Inr (xs, c') \<Rightarrow>
          if c' = [] then Some (Inr xs)
          else map_option (\<lambda>r. result_bind r (\<lambda>ys. Inr (xs @ ys))) (follow fetch n nm k c'))"

locale pager =
  fixes fetch :: "db \<Rightarrow> listOptions \<Rightarrow> db_error + 'x list \<times> string"
    and listable :: "db \<Rightarrow> bool"
    and everything :: "db \<Rightarrow> string \<Rightarrow> row list"
    and name_of :: "'x \<Rightarrow> string"
  assumes everything_ascending: "listable db \<Longrightarrow> ascending (everything db nm)"
    and fetched: "listable db \<Longrightarrow> fetch db opts = Inr (xs, c) \<Longrightarrow>
      map name_of xs = map row_name (page_of opts (everything db (lo_name opts))) \<and>
      c = nextCursor opts (length xs) (last_id (map row_id (page_of opts (everything db (lo_name opts)))))"
begin

lemma fetch_from:
  assumes "listable db" and "0 < n" and "fetch db opts = Inr (xs, c)"
    and "opts = \<lparr>lo_Limit = n, lo_Cursor = cur, lo_name = nm\<rparr>"
    and "rs = (if cursor opts > 0 then rest_after (cursor opts) (everything db nm) else everything db nm)"
  shows "map name_of xs = map row_name (take (nat n) rs)"
    and "nat n \<le> length rs \<Longrightarrow> c = encodeCursor (row_id (rs ! (nat n - 1))) \<and> length xs = nat n"
    and "length rs < nat n \<Longrightarrow> c = []"
proof -
  have page: "page_of opts (everything db (lo_name opts)) = take (nat n) rs"
    using assms(2,4,5) by (simp add: page_of_def rest_after_def Let_def)
  note F = fetched [OF assms(1,3), unfolded page]
  then have len: "length xs = min (length rs) (nat n)" by (metis length_map length_take)
  show "map name_of xs = map row_name (take (nat n) rs)" using F by simp
  show "c = []" if "length rs < nat n" using F len that assms(4) by (auto simp: nextCursor_def)
  assume n: "nat n \<le> length rs"
  have "ascending rs"
    using everything_ascending [OF assms(1), of nm] assms(5)
    by (auto simp: ascending_def rest_after_def sorted_wrt_map sorted_wrt_filter)
  then have a: "sorted_wrt (\<lambda>r r'. row_id r < row_id r') rs" "\<forall>r \<in> set rs. 0 < row_id r" by (auto simp: ascending_def sorted_wrt_map)
  have "sorted (map row_id (take (nat n) rs))"
    unfolding sorted_map
    by (rule sorted_wrt_mono_rel [OF _ sorted_wrt_take [OF a(1), of "nat n"]]) simp
  moreover have "take (nat n) rs \<noteq> []" using n assms(2) by auto
  moreover have "\<forall>i \<in> set (map row_id (take (nat n) rs)). 0 < i" using a(2) in_set_takeD by fastforce
  ultimately have "last_id (map row_id (take (nat n) rs)) = last (map row_id (take (nat n) rs))"
    by (intro last_id_sorted) auto
  also have "\<dots> = row_id (rs ! (nat n - 1))"
    using n assms(2) \<open>take (nat n) rs \<noteq> []\<close> by (simp add: last_map last_conv_nth min_absorb2)
  finally show "c = encodeCursor (row_id (rs ! (nat n - 1))) \<and> length xs = nat n"
    using F len n assms(2,4) by (auto simp: nextCursor_def)
qed

lemma follow_rest:
  assumes "listable db" and "0 < n" and "rs = (if cursor \<lparr>lo_Limit = n, lo_Cursor = cur, lo_name = nm\<rparr> > 0
      then rest_after (cursor \<lparr>lo_Limit = n, lo_Cursor = cur, lo_name = nm\<rparr>) (everything db nm) else everything db nm)"
    and "length rs < k"
  shows "\<exists>r. follow (fetch db) n nm k cur = Some r \<and> (\<forall>xs. r = Inr xs \<longrightarrow> map name_of xs = map row_name rs) \<and>
    (\<forall>e. r = Inl e \<longrightarrow> (\<exists>opts. fetch db opts = Inl e))"
  using assms(3,4)
proof (induction k arbitrary: cur rs)
  case (Suc k)
  let ?opts = "\<lparr>lo_Limit = n, lo_Cursor = cur, lo_name = nm\<rparr>"
  show ?case
  proof (cases "fetch db ?opts")
    case (Inl e)
    then show ?thesis by auto
  next
    case (Inr p)
    obtain xs c where p: "p = (xs, c)" by (cases p)
    note F = fetch_from [OF assms(1,2) Inr [unfolded p] refl Suc.prems(1)]
    show ?thesis
    proof (cases "length rs < nat n")
      case True
      with F Inr p show ?thesis by simp
    next
      case False
      let ?i = "row_id (rs ! (nat n - 1))"
      from False F(2) have c: "c = encodeCursor ?i" by simp
      have asc: "ascending rs" "ascending (everything db nm)"
        using everything_ascending [OF assms(1), of nm] Suc.prems(1)
        by (auto simp: ascending_def rest_after_def sorted_wrt_map sorted_wrt_filter)
      have "rs ! (nat n - 1) \<in> set rs" using False assms(2) by simp
      then have i: "0 < ?i" "?i < 2 ^ 63" using asc(1) by (auto simp: ascending_def)
      then have cur: "cursor \<lparr>lo_Limit = n, lo_Cursor = c, lo_name = nm\<rparr> = ?i"
        using cursor_encodeCursor [of ?i] c by simp
      have drop: "rest_after ?i rs = drop (nat n) rs"
        using rest_after_take [OF asc(1)] False assms(2) by simp
      have "rest_after ?i (everything db nm) = rest_after ?i rs"
      proof (cases "cursor ?opts > 0")
        case True
        then have "cursor ?opts < ?i" using \<open>rs ! (nat n - 1) \<in> set rs\<close> Suc.prems(1) by (auto simp: rest_after_def)
        then show ?thesis using True Suc.prems(1) by (auto simp: rest_after_def intro!: filter_cong)
      next
        case False
        then show ?thesis using Suc.prems(1) by simp
      qed
      then have next_rs: "drop (nat n) rs = (if cursor \<lparr>lo_Limit = n, lo_Cursor = c, lo_name = nm\<rparr> > 0
          then rest_after (cursor \<lparr>lo_Limit = n, lo_Cursor = c, lo_name = nm\<rparr>) (everything db nm) else everything db nm)"
        using cur i(1) drop by simp
      have "length (drop (nat n) rs) < k" using Suc.prems(2) False assms(2) by simp
      from Suc.IH [OF next_rs this] obtain r where r: "follow (fetch db) n nm k c = Some r"
        "\<forall>xs. r = Inr xs \<longrightarrow> map name_of xs = map row_name (drop (nat n) rs)" "\<forall>e. r = Inl e \<longrightarrow> (\<exists>opts. fetch db opts = Inl e)" by blast
      have "c \<noteq> []" using c encodeCursor_nonempty by simp
      with Inr p r(1) have f: "follow (fetch db) n nm (Suc k) cur = Some (result_bind r (\<lambda>ys. Inr (xs @ ys)))" by simp
      show ?thesis
      proof (cases r)
        case (Inl e)
        with f r(3) show ?thesis by auto
      next
        case (Inr ys)
        then have "map name_of (xs @ ys) = map row_name rs"
          using r(2) F(1) by (metis append_take_drop_id map_append)
        with f Inr show ?thesis by auto
      qed
    qed
  qed
qed simp

end

subsection \<open>What the loop collects\<close>

definition entity_name :: "joined \<Rightarrow> string" where
  "entity_name j = row_name (j_entity j)"

definition collected_from :: "('x \<Rightarrow> string) \<Rightarrow> joined list \<Rightarrow> 'x collected \<Rightarrow> bool" where
  "collected_from name_of js m \<longleftrightarrow> distinct (map fst m) \<and> fst ` set m = entity_name ` set js \<and>
     (\<forall>(n, i, x) \<in> set m. name_of x = n \<and> (\<exists>j \<in> set js. entity_name j = n \<and> row_id (j_entity j) = i))"

lemma set_map_put: "set (map_put k v m) \<subseteq> insert (k, v) (set m)"
  by (induction k v m rule: map_put.induct) auto

lemma collect_row_from:
  assumes "collect_row pre new add j m = Inr m'" and "collected_from name_of js m"
    and new: "\<And>j p x. new j p = Inr x \<Longrightarrow> col (j_entity j) ''name'' = VStr (name_of x)"
    and add: "\<And>j p x x'. add j p x = Inr x' \<Longrightarrow> name_of x' = name_of x"
  shows "collected_from name_of (js @ [j]) m'"
proof -
  from assms(1) obtain n p i x x' where n: "col (j_entity j) ''name'' = VStr n"
    and e: "(case map_of m n of Some e \<Rightarrow> Inr e | None \<Rightarrow> result_bind (new j p) (\<lambda>x. Inr (row_id (j_entity j), x))) = Inr (i, x)"
    and x': "add j p x = Inr x'" and m': "m' = map_put n (i, x') m"
    by (auto simp: collect_row_def result_bind_Inr_iff scan_string_def split: val.splits)
  have name: "entity_name j = n" using n by (simp add: entity_name_def row_name_def)
  have "name_of x = n \<and> (\<exists>j' \<in> set (js @ [j]). entity_name j' = n \<and> row_id (j_entity j') = i)"
  proof (cases "map_of m n")
    case None
    with e have "new j p = Inr x" "i = row_id (j_entity j)" by (auto simp: result_bind_Inr_iff)
    with new [of j p x] n name show ?thesis by simp
  next
    case (Some q)
    with e have "(n, i, x) \<in> set m" by (auto dest: map_of_SomeD)
    with assms(2) show ?thesis unfolding collected_from_def by fastforce
  qed
  with add [OF x'] have here: "name_of x' = n" "\<exists>j' \<in> set (js @ [j]). entity_name j' = n \<and> row_id (j_entity j') = i" by simp_all
  note c = assms(2) [unfolded collected_from_def]
  show ?thesis
    unfolding collected_from_def m'
  proof (intro conjI ballI)
    show "distinct (map fst (map_put n (i, x') m))" using c by simp
    show "fst ` set (map_put n (i, x') m) = entity_name ` set (js @ [j])" using c name by simp
    fix e assume "e \<in> set (map_put n (i, x') m)"
    then consider "e = (n, i, x')" | "e \<in> set m" using set_map_put by fast
    then show "case e of (n, i, x) \<Rightarrow> name_of x = n \<and> (\<exists>j' \<in> set (js @ [j]). entity_name j' = n \<and> row_id (j_entity j') = i)"
    proof cases
      case 1
      with here show ?thesis by simp
    next
      case 2
      with c have "case e of (n, i, x) \<Rightarrow> name_of x = n \<and> (\<exists>j \<in> set js. entity_name j = n \<and> row_id (j_entity j) = i)" by blast
      then show ?thesis by (cases e) auto
    qed
  qed
qed

lemma collect_from:
  assumes "collect pre new add js = Inr m"
    and "\<And>j p x. new j p = Inr x \<Longrightarrow> col (j_entity j) ''name'' = VStr (name_of x)"
    and "\<And>j p x x'. add j p x = Inr x' \<Longrightarrow> name_of x' = name_of x"
  shows "collected_from name_of js m"
  using assms(1)
proof (induction js arbitrary: m rule: rev_induct)
  case Nil
  then show ?case by (simp add: collect_def collected_from_def)
next
  case (snoc j js)
  then obtain m1 where "collect pre new add js = Inr m1" "collect_row pre new add j m1 = Inr m"
    by (auto simp: collect_def fold_result_snoc result_bind_Inr_iff)
  with snoc.IH collect_row_from assms(2,3) show ?case by metis
qed

text \<open>The sorted entities of a page with different names and ids are those of the page, in its order.\<close>

lemma finish_page:
  assumes "collected_from name_of js m" and "j_entity ` set js = set page"
    and "ascending page" and "distinct (map row_name page)" and "finish opts js m = (xs, c)"
  shows "map name_of xs = map row_name page \<and> c = nextCursor opts (length xs) (last_id (map row_id page))"
proof -
  let ?L = "sort_key (fst \<circ> snd) m"
  have names: "inj_on row_name (set page)" and d: "distinct page" using assms(4) by (auto simp: distinct_map)
  have asc: "sorted_wrt (\<lambda>r r'. row_id r < row_id r') page" using assms(3) by (simp add: ascending_def sorted_wrt_map)
  have sd: "sorted (map row_id page)" "distinct (map row_id page)"
    using assms(3) strict_sorted_iff by (auto simp: ascending_def)
  have entity: "\<exists>r \<in> set page. row_name r = n \<and> row_id r = i \<and> name_of x = n" if "(n, i, x) \<in> set m" for n i x
    using that assms(1,2) unfolding collected_from_def entity_name_def by fastforce
  have "row_name ` set page = fst ` set m"
    using assms(1,2) unfolding collected_from_def entity_name_def by (metis (no_types, lifting) image_cong image_image)
  then have covered: "\<exists>i x. (row_name r, i, x) \<in> set m \<and> i = row_id r" if "r \<in> set page" for r
  proof -
    from that \<open>row_name ` set page = fst ` set m\<close> obtain i x where m: "(row_name r, i, x) \<in> set m" by fastforce
    from entity [OF m] obtain r' where "r' \<in> set page" "row_name r' = row_name r" "row_id r' = i" by blast
    with names that m show ?thesis by (metis inj_onD)
  qed
  have set_ids: "set (map (fst \<circ> snd) ?L) = set (map row_id page)"
  proof (intro equalityI subsetI)
    fix k assume "k \<in> set (map (fst \<circ> snd) ?L)"
    then obtain n i x where "(n, i, x) \<in> set m" "k = i" by auto
    with entity [OF this(1)] show "k \<in> set (map row_id page)" by auto
  next
    fix k assume "k \<in> set (map row_id page)"
    then obtain r where "r \<in> set page" "k = row_id r" by auto
    with covered [OF this(1)] obtain x where "(row_name r, k, x) \<in> set m" by auto
    then show "k \<in> set (map (fst \<circ> snd) ?L)" by force
  qed
  have "inj_on (fst \<circ> snd) (set m)"
  proof (rule inj_onI)
    fix e e' assume e: "e \<in> set m" "e' \<in> set m" "(fst \<circ> snd) e = (fst \<circ> snd) e'"
    obtain n i x n' i' x' where ee: "e = (n, i, x)" "e' = (n', i', x')" by (metis prod_cases3)
    from entity [OF e(1) [unfolded ee]] obtain r where r: "r \<in> set page" "row_name r = n" "row_id r = i" by blast
    from entity [OF e(2) [unfolded ee]] obtain r' where r': "r' \<in> set page" "row_name r' = n'" "row_id r' = i'" by blast
    have "inj_on row_id (set page)" using sd(2) by (simp add: distinct_map)
    moreover have "row_id r = row_id r'" using e(3) ee r(3) r'(3) by simp
    ultimately have "r = r'" using r(1) r'(1) by (rule inj_onD)
    then have "n = n'" using r(2) r'(2) by simp
    moreover have "distinct (map fst m)" using assms(1) by (simp add: collected_from_def)
    ultimately show "e = e'" using e(1,2) ee eq_key_imp_eq_value [of m n "(i, x)" "(i', x')"] by simp
  qed
  then have "distinct (map (fst \<circ> snd) ?L)"
    using assms(1) by (auto simp: collected_from_def distinct_map)
  then have ids: "map (fst \<circ> snd) ?L = map row_id page"
    using sorted_distinct_set_unique [OF sorted_sort_key _ sd set_ids] by blast
  define g where "g i = row_name (THE r. r \<in> set page \<and> row_id r = i)" for i
  have g: "g (row_id r) = row_name r" if "r \<in> set page" for r
  proof -
    have "(THE r'. r' \<in> set page \<and> row_id r' = row_id r) = r"
      using that sd(2) by (intro the_equality) (auto simp: distinct_map dest: inj_onD)
    then show ?thesis by (simp add: g_def)
  qed
  have "map name_of xs = map (name_of \<circ> (snd \<circ> snd)) ?L" using assms(5) by (auto simp: finish_def)
  also have "\<dots> = map (g \<circ> (fst \<circ> snd)) ?L"
  proof (rule map_cong [OF refl])
    fix e assume "e \<in> set ?L"
    then have "e \<in> set m" by simp
    then obtain n i x where "e = (n, i, x)" "(n, i, x) \<in> set m" by (metis prod_cases3)
    with entity [OF this(2)] g show "(name_of \<circ> (snd \<circ> snd)) e = (g \<circ> (fst \<circ> snd)) e" by auto
  qed
  also have "\<dots> = map g (map row_id page)" using ids by (metis map_map)
  also have "\<dots> = map row_name page" using g by simp
  finally have eq: "map name_of xs = map row_name page" .
  have "set (map (row_id \<circ> j_entity) js) = set (map row_id page)"
    using assms(2) by (metis image_comp set_map)
  then have last: "last_id (map (row_id \<circ> j_entity) js) = last_id (map row_id page)" by (rule last_id_cong)
  have len: "length xs = length m" using assms(5) by (auto simp: finish_def)
  have "c = nextCursor opts (length m) (last_id (map (row_id \<circ> j_entity) js))"
    using assms(5) by (auto simp: finish_def)
  with eq last len show ?thesis by simp
qed

subsection \<open>The rows of a valid database\<close>

text \<open>Ids are positive numbers of 64 bits, and the links of sources to secrets are the git credentials.\<close>

definition numbered :: "row list \<Rightarrow> bool" where
  "numbered rs = list_all (\<lambda>r. case col r ''id'' of VInt i \<Rightarrow> 0 < i \<and> i < 2 ^ 63 | _ \<Rightarrow> False) rs"

definition listable :: "db \<Rightarrow> bool" where
  "listable db \<longleftrightarrow> schema_ok v2Tables db \<and> list_all (\<lambda>t. numbered (db t)) [''bundles'', ''sources'', ''stacks'', ''secrets''] \<and>
     list_all (\<lambda>r. col r ''ref_type'' = VStr ''git_credentials'') (db ''sources_secrets'')"

definition everything :: "database \<Rightarrow> string \<Rightarrow> string \<Rightarrow> string \<Rightarrow> db \<Rightarrow> string \<Rightarrow> row list" where
  "everything d prn tnt res db nm = (case list_condition d prn tnt res of Inl e \<Rightarrow> [] | Inr e \<Rightarrow> visible res e tnt nm db)"

lemma listable_ids:
  assumes "listable db" and "res \<in> {''bundles'', ''stacks'', ''sources'', ''secrets''}" and "r \<in> set (db res)"
  shows "col r ''id'' = VInt (row_id r)" and "0 < row_id r" and "row_id r < 2 ^ 63"
proof -
  have "numbered (db res)" using assms(1,2) by (auto simp: listable_def)
  with assms(3) show "col r ''id'' = VInt (row_id r)" "0 < row_id r" "row_id r < 2 ^ 63"
    by (auto simp: numbered_def list_all_iff row_id_def split: val.splits)
qed

lemma unique_ids_distinct:
  assumes "unique_on [''id''] rs" and "\<And>r. r \<in> set rs \<Longrightarrow> col r ''id'' = VInt (row_id r)"
  shows "distinct (map row_id rs)"
  using assms
proof (induction rs)
  case (Cons r rs)
  then have "row_id r \<noteq> row_id x" if "x \<in> set rs" for x
    using that by (fastforce simp: unique_on_Cons)
  moreover have "distinct (map row_id rs)" by (rule Cons.IH) (use Cons.prems in \<open>auto simp: unique_on_Cons\<close>)
  ultimately show ?case by auto
qed simp

lemma ascending_sort:
  assumes "distinct (map row_id rs)" and "\<And>r. r \<in> set rs \<Longrightarrow> 0 < row_id r \<and> row_id r < 2 ^ 63"
  shows "ascending (sort_key row_id rs)"
proof -
  have "distinct (map row_id (sort_key row_id rs))"
    using assms(1) by (auto simp: distinct_map)
  then have "sorted_wrt (<) (map row_id (sort_key row_id rs))" using strict_sorted_iff sorted_sort_key by blast
  then show ?thesis using assms(2) by (simp add: ascending_def)
qed

lemma everything_ascending:
  assumes "listable db" and "res \<in> {''bundles'', ''stacks'', ''sources'', ''secrets''}"
  shows "ascending (everything d prn tnt res db nm)"
proof (cases "list_condition d prn tnt res")
  case Inl
  then show ?thesis by (simp add: everything_def ascending_def)
next
  case (Inr e)
  have "list_all (\<lambda>t. list_ex (\<lambda>s. tbl_name s = t \<and> [''id''] \<in> set (table_keys s)) v2Tables)
      [''bundles'', ''stacks'', ''sources'', ''secrets'']"
    by code_simp
  with assms have "unique_on [''id''] (db res)"
    unfolding listable_def schema_ok_def table_ok_def list_all_iff list_ex_iff by auto
  then have "distinct (map row_id (db res))"
    by (rule unique_ids_distinct) (use listable_ids [OF assms] in auto)
  then show ?thesis
    unfolding everything_def visible_def Inr sum.case
    by (intro ascending_sort distinct_map_filter) (use listable_ids [OF assms] in auto)
qed

lemma ascending_page: "ascending rs \<Longrightarrow> ascending (page_of opts rs)"
  by (auto simp: ascending_def page_of_def Let_def sorted_wrt_map intro!: sorted_wrt_take sorted_wrt_filter dest: in_set_takeD)

lemma tenant_names_unique:
  assumes "schema_ok v2Tables db" and "x \<in> set (db ''tenants'')" and "y \<in> set (db ''tenants'')"
    and "col x ''name'' = VStr n" and "col y ''name'' = VStr n"
  shows "x = y"
proof -
  have "list_ex (\<lambda>s. tbl_name s = ''tenants'' \<and> [''name''] \<in> set (table_keys s)) v2Tables" by code_simp
  with assms(1) have "unique_on [''name''] (db ''tenants'')"
    unfolding schema_ok_def table_ok_def list_all_iff list_ex_iff by auto
  from unique_on_inj [OF this assms(2,3)] assms(4,5) show ?thesis by simp
qed

lemma visible_names_unique:
  assumes "schema_ok v2Tables db" and "res \<in> {''bundles'', ''stacks'', ''sources'', ''secrets''}"
    and "x \<in> set (visible res e tnt nm db)" and "y \<in> set (visible res e tnt nm db)"
    and "col x ''name'' = VStr n" and "col y ''name'' = VStr n"
  shows "x = y"
proof -
  obtain t where t: "t \<in> set (db ''tenants'')" "sql_eq (col t ''id'') (col x ''tenant_id'')" "col t ''name'' = VStr tnt"
    using assms(3) by (auto simp: visible_def list_ex_iff sql_eq_def)
  obtain u where u: "u \<in> set (db ''tenants'')" "sql_eq (col u ''id'') (col y ''tenant_id'')" "col u ''name'' = VStr tnt"
    using assms(4) by (auto simp: visible_def list_ex_iff sql_eq_def)
  have "t = u" by (rule tenant_names_unique [OF assms(1) t(1) u(1) t(3) u(3)])
  have "find (\<lambda>r. col r ''name'' = VStr tnt) (db ''tenants'') = Some t"
  proof (rule find_unique)
    show "col t ''name'' = VStr tnt" "t \<in> set (db ''tenants'')" by (rule t)+
    show "v = t" if "v \<in> set (db ''tenants'')" "col v ''name'' = VStr tnt" for v
      by (rule tenant_names_unique [OF assms(1) that(1) t(1) that(2) t(3)])
  qed
  then have tid: "tenant_id db tnt = col t ''id''" by (simp add: tenant_id_def)
  have "x \<in> set (db res)" "y \<in> set (db res)" using assms(3,4) by (auto simp: visible_def)
  moreover have "col x ''tenant_id'' = tenant_id db tnt" "col y ''tenant_id'' = tenant_id db tnt"
    using t(2) u(2) \<open>t = u\<close> tid by (simp_all add: sql_eq_def)
  ultimately have "named_row tnt res n db = Some x" "named_row tnt res n db = Some y"
    using named_row_unique [OF assms(1,2)] assms(5,6) by blast+
  then show ?thesis by simp
qed

lemma left_join_nonempty: "left_join rs c v \<noteq> []"
  by (simp add: left_join_def Let_def)

lemma concat_mapI: "x \<in> set xs \<Longrightarrow> y \<in> set (f x) \<Longrightarrow> y \<in> set (concat (map f xs))"
  by auto

lemma joined_rows_entities: "j_entity ` set (joined_rows links reqs oc rc page db) = set page"
proof
  show "j_entity ` set (joined_rows links reqs oc rc page db) \<subseteq> set page" by (auto simp: joined_rows_def)
  show "set page \<subseteq> j_entity ` set (joined_rows links reqs oc rc page db)"
  proof
    fix r assume "r \<in> set page"
    define ls where "ls = (case links of None \<Rightarrow> [None] | Some (t, c) \<Rightarrow> left_join (db t) c (col r ''id''))"
    have "ls \<noteq> []" by (auto simp: ls_def left_join_nonempty split: option.split)
    then obtain l where l: "l \<in> set ls" by (cases ls) auto
    obtain s where s: "s \<in> set (left_join (db ''secrets'') ''id'' (ocol l ''secret_id''))"
      using left_join_nonempty by (metis list.set_sel(1))
    obtain q where q: "q \<in> set (left_join (db reqs) oc (col r ''id''))"
      using left_join_nonempty by (metis list.set_sel(1))
    obtain src where src: "src \<in> set (left_join (db ''sources'') ''id'' (ocol q rc))"
      using left_join_nonempty by (metis list.set_sel(1))
    have "\<lparr>j_entity = r, j_link = l, j_secret = s, j_req = q, j_source = src\<rparr> \<in> set (joined_rows links reqs oc rc page db)"
      unfolding joined_rows_def
      by (rule concat_mapI [OF \<open>r \<in> set page\<close>], rule concat_mapI [OF l [unfolded ls_def]], rule concat_mapI [OF s],
        rule concat_mapI [OF q]) (use src in simp)
    then show "r \<in> j_entity ` set (joined_rows links reqs oc rc page db)" by force
  qed
qed

subsection \<open>The four lists\<close>

lemma page_set: "set (page_of opts rs) \<subseteq> set rs"
  by (auto simp: page_of_def Let_def dest: in_set_takeD)

lemma entities_page_Inr:
  assumes "entities_page d prn tnt res opts db = Inr page"
  shows "page = page_of opts (everything d prn tnt res db (lo_name opts))"
  using assms by (auto simp: entities_page_def result_bind_Inr_iff everything_def)

lemma page_names_distinct:
  assumes "listable db" and "res \<in> {''bundles'', ''stacks'', ''sources'', ''secrets''}"
    and "page = page_of opts (everything d prn tnt res db nm)"
    and names: "\<And>r. r \<in> set page \<Longrightarrow> \<exists>n. col r ''name'' = VStr n"
  shows "distinct (map row_name page)"
proof -
  have asc: "ascending page" using ascending_page [OF everything_ascending [OF assms(1,2)]] assms(3) by simp
  then have "distinct (map row_id page)" using strict_sorted_iff by (auto simp: ascending_def)
  then have d: "distinct page" by (simp add: distinct_map)
  have "x = y" if xy: "x \<in> set page" "y \<in> set page" "row_name x = row_name y" for x y
  proof -
    obtain n where n1: "col x ''name'' = VStr n" using names [OF xy(1)] by blast
    obtain m where n2: "col y ''name'' = VStr m" using names [OF xy(2)] by blast
    note n = n1 n2
    then have "n = m" using xy(3) by (simp add: row_name_def)
    obtain e where e: "list_condition d prn tnt res = Inr e"
      using subsetD [OF page_set xy(1) [unfolded assms(3)]] by (cases "list_condition d prn tnt res") (simp_all add: everything_def)
    have "x \<in> set (visible res e tnt nm db)" "y \<in> set (visible res e tnt nm db)"
      using subsetD [OF page_set xy(1) [unfolded assms(3)]] subsetD [OF page_set xy(2) [unfolded assms(3)]] by (simp_all add: everything_def e)
    from visible_names_unique [OF _ assms(2) this n(1) n(2) [folded \<open>n = m\<close>]] assms(1) show ?thesis
      by (simp add: listable_def)
  qed
  with d show ?thesis by (auto simp: distinct_map inj_on_def)
qed

lemma collect_names:
  assumes "collect pre new add js = Inr m" and "j \<in> set js"
  shows "\<exists>n. col (j_entity j) ''name'' = VStr n"
  using assms
proof (induction js arbitrary: m rule: rev_induct)
  case (snoc j' js)
  then obtain m1 where "collect pre new add js = Inr m1" "collect_row pre new add j' m1 = Inr m"
    by (auto simp: collect_def fold_result_snoc result_bind_Inr_iff)
  with snoc show ?case
    by (auto simp: collect_row_def result_bind_Inr_iff scan_string_def split: val.splits)
qed simp

lemma collected_page:
  assumes "listable db" and "res \<in> {''bundles'', ''stacks'', ''sources'', ''secrets''}"
    and page: "entities_page d prn tnt res opts db = Inr page"
    and m: "collect pre new add js = Inr m" and js: "j_entity ` set js = set page"
    and new: "\<And>j p x. new j p = Inr x \<Longrightarrow> col (j_entity j) ''name'' = VStr (name_of x)"
    and add: "\<And>j p x x'. add j p x = Inr x' \<Longrightarrow> name_of x' = name_of x"
    and m': "collected_from name_of js m \<Longrightarrow> collected_from name_of js m'" and xs: "finish opts js m' = (xs, c)"
  shows "map name_of xs = map row_name (page_of opts (everything d prn tnt res db (lo_name opts))) \<and>
    c = nextCursor opts (length xs) (last_id (map row_id (page_of opts (everything d prn tnt res db (lo_name opts)))))"
proof -
  note p = entities_page_Inr [OF page]
  have "\<exists>n. col r ''name'' = VStr n" if "r \<in> set page" for r
  proof -
    from that js have "r \<in> j_entity ` set js" by simp
    then obtain j where "j \<in> set js" "j_entity j = r" by blast
    with collect_names [OF m this(1)] show ?thesis by simp
  qed
  from page_names_distinct [OF assms(1,2) p this] have "distinct (map row_name page)" .
  from finish_page [OF m' [OF collect_from [OF m new add]] js _ this xs] show ?thesis
    using ascending_page [OF everything_ascending [OF assms(1,2)]] p by simp
qed

lemma ListBundles_fetched:
  assumes "listable db" and "ListBundles d rank prn tnt opts db = Inr (xs, c)"
  shows "map bun_Name xs = map row_name (page_of opts (everything d prn tnt ''bundles'' db (lo_name opts))) \<and>
    c = nextCursor opts (length xs) (last_id (map row_id (page_of opts (everything d prn tnt ''bundles'' db (lo_name opts)))))"
proof -
  let ?rows = "\<lambda>page. sort_key rank (joined_rows (Some (''bundles_secrets'', ''bundle_id'')) ''bundles_requirements'' ''bundle_id'' ''source_id'' page db)"
  from assms(2) obtain page m where page: "entities_page d prn tnt ''bundles'' opts db = Inr page"
    and m: "collect bundle_secret (\<lambda>j. read_bundle (j_entity j)) add_bundle_requirement (?rows page) = Inr m"
    and xs: "finish opts (?rows page) m = (xs, c)"
    by (auto simp: ListBundles_def tx3_def result_bind_Inr_iff Let_def split: option.splits sum.splits)
  show ?thesis
  proof (rule collected_page [OF assms(1) _ page m _ _ _ _ xs])
    show "j_entity ` set (?rows page) = set page" by (simp add: joined_rows_entities)
    show "col (j_entity j) ''name'' = VStr (bun_Name x)" if "read_bundle (j_entity j) p = Inr x" for j p x
      using that by (auto simp: read_bundle_def result_bind_Inr_iff scan_string_def split: val.splits)
    show "bun_Name x' = bun_Name x" if "add_bundle_requirement j p x = Inr x'" for j p x x'
      using that by (auto simp: add_bundle_requirement_def result_bind_Inr_iff)
  qed simp_all
qed

lemma ListStacks_fetched:
  assumes "listable db" and "ListStacks d rank compile prn tnt opts db = Inr (xs, c)"
  shows "map stk_Name xs = map row_name (page_of opts (everything d prn tnt ''stacks'' db (lo_name opts))) \<and>
    c = nextCursor opts (length xs) (last_id (map row_id (page_of opts (everything d prn tnt ''stacks'' db (lo_name opts)))))"
proof -
  let ?rows = "\<lambda>page. sort_key rank (joined_rows None ''stacks_requirements'' ''stack_id'' ''source_id'' page db)"
  from assms(2) obtain page m where page: "entities_page d prn tnt ''stacks'' opts db = Inr page"
    and m: "collect (\<lambda>j. read_selector compile (col (j_entity j) ''selector'')) (new_stack compile) add_stack_requirement (?rows page) = Inr m"
    and xs: "finish opts (?rows page) m = (xs, c)"
    by (auto simp: ListStacks_def tx3_def result_bind_Inr_iff Let_def split: option.splits sum.splits)
  show ?thesis
  proof (rule collected_page [OF assms(1) _ page m _ _ _ _ xs])
    show "j_entity ` set (?rows page) = set page" by (simp add: joined_rows_entities)
    show "col (j_entity j) ''name'' = VStr (stk_Name x)" if "new_stack compile j p = Inr x" for j p x
      using that by (auto simp: new_stack_def result_bind_Inr_iff scan_string_def split: val.splits)
    show "stk_Name x' = stk_Name x" if "add_stack_requirement j p x = Inr x'" for j p x x'
      using that by (auto simp: add_stack_requirement_def result_bind_Inr_iff)
  qed simp_all
qed

text \<open>No source is lost by the filter on the type of the link.\<close>

lemma source_links:
  assumes "listable db" and "j \<in> set (joined_rows (Some (''sources_secrets'', ''source_id'')) reqs oc rc page db)"
  shows "ocol (j_link j) ''ref_type'' \<in> {VStr ''git_credentials'', VNull}"
proof -
  from assms(2) obtain r where "j_link j \<in> set (left_join (db ''sources_secrets'') ''source_id'' (col r ''id''))"
    by (auto simp: joined_rows_def)
  then have "j_link j = None \<or> (\<exists>l \<in> set (db ''sources_secrets''). j_link j = Some l)"
    by (auto simp: left_join_def Let_def split: if_splits)
  moreover have "col l ''ref_type'' = VStr ''git_credentials''" if "l \<in> set (db ''sources_secrets'')" for l
    using assms(1) that by (auto simp: listable_def list_all_iff)
  ultimately show ?thesis by (auto simp: ocol_def)
qed

lemma attach_collected:
  assumes "fold_result attach rows m = Inr m'" and "collected_from src_Name js m"
  shows "collected_from src_Name js m'"
  using assms(1,2)
proof (rule fold_result_invariant)
  fix x m m' assume m: "collected_from src_Name js m" and x: "attach x m = Inr m'"
  obtain r sec src where "x = (r, sec, src)" by (cases x)
  with x obtain n ds where m': "m' = (case map_of m n of None \<Rightarrow> m
      | Some (i, s) \<Rightarrow> map_put n (i, s\<lparr>src_Datasources := src_Datasources s @ [ds]\<rparr>) m)"
    by (auto simp: attach_def result_bind_Inr_iff)
  show "collected_from src_Name js m'"
  proof (cases "map_of m n")
    case None
    with m m' show ?thesis by simp
  next
    case (Some q)
    obtain i s where q: "q = (i, s)" by (cases q)
    let ?e = "(i, s\<lparr>src_Datasources := src_Datasources s @ [ds]\<rparr>)"
    have nm: "(n, i, s) \<in> set m" using Some q by (simp add: map_of_SomeD)
    note c = m [unfolded collected_from_def]
    have m'': "m' = map_put n ?e m" using m' Some q by simp
    show ?thesis
      unfolding collected_from_def m''
    proof (intro conjI ballI)
      show "distinct (map fst (map_put n ?e m))" using c by simp
      show "fst ` set (map_put n ?e m) = entity_name ` set js"
      proof -
        have "n \<in> fst ` set m" using nm by (metis fst_conv image_eqI)
        with c show ?thesis by (simp add: insert_absorb)
      qed
      fix e assume "e \<in> set (map_put n ?e m)"
      then consider "e = (n, ?e)" | "e \<in> set m" using set_map_put by fast
      then show "case e of (n, i, x) \<Rightarrow> src_Name x = n \<and> (\<exists>j \<in> set js. entity_name j = n \<and> row_id (j_entity j) = i)"
      proof cases
        case 1
        from c nm have "case (n, i, s) of (n, i, x) \<Rightarrow> src_Name x = n \<and> (\<exists>j \<in> set js. entity_name j = n \<and> row_id (j_entity j) = i)" by blast
        with 1 show ?thesis by simp
      next
        case 2
        with c show ?thesis by blast
      qed
    qed
  qed
qed

lemma ListSources_fetched:
  assumes "listable db" and "ListSources d rank prn tnt opts db = Inr (xs, c)"
  shows "map src_Name xs = map row_name (page_of opts (everything d prn tnt ''sources'' db (lo_name opts))) \<and>
    c = nextCursor opts (length xs) (last_id (map row_id (page_of opts (everything d prn tnt ''sources'' db (lo_name opts)))))"
proof -
  let ?joined = "\<lambda>page. joined_rows (Some (''sources_secrets'', ''source_id'')) ''sources_requirements'' ''source_id'' ''requirement_id'' page db"
  let ?rows = "\<lambda>page. filter (\<lambda>j. ocol (j_link j) ''ref_type'' \<in> {VStr ''git_credentials'', VNull}) (sort_key rank (?joined page))"
  from assms(2) obtain page m m' where page: "entities_page d prn tnt ''sources'' opts db = Inr page"
    and m: "collect (\<lambda>j. Inr ()) (\<lambda>j u. read_source (j_entity j)) add_source_row (?rows page) = Inr m"
    and m': "fold_result attach (datasource_rows db) m = Inr m'" and xs: "finish opts (?rows page) m' = (xs, c)"
    by (auto simp: ListSources_def tx3_def result_bind_Inr_iff Let_def split: option.splits sum.splits)
  show ?thesis
  proof (rule collected_page [OF assms(1) _ page m _ _ _ _ xs])
    have "set (?rows page) = set (?joined page)" unfolding set_filter set_sort using source_links [OF assms(1)] by blast
    then show "j_entity ` set (?rows page) = set page" by (simp only: joined_rows_entities)
    show "col (j_entity j) ''name'' = VStr (src_Name x)" if "read_source (j_entity j) = Inr x" for j :: joined and p :: unit and x
      using that by (auto simp: read_source_def result_bind_Inr_iff scan_string_def split: val.splits)
    show "src_Name x' = src_Name x" if "add_source_row j p x = Inr x'" for j p x x'
      using that by (auto simp: add_source_row_def result_bind_Inr_iff)
    show "collected_from src_Name (?rows page) m \<Longrightarrow> collected_from src_Name (?rows page) m'"
      using attach_collected [OF m'] .
  qed simp_all
qed

lemma read_names_Inr: "read_names rs = Inr ns \<Longrightarrow> ns = map row_name rs"
  by (induction rs arbitrary: ns) (auto simp: result_bind_Inr_iff scan_string_def row_name_def split: val.splits)

lemma ListSecrets_fetched:
  assumes "ListSecrets d prn tnt opts db = Inr (xs, c)"
  shows "map ref_Name xs = map row_name (page_of opts (everything d prn tnt ''secrets'' db (lo_name opts))) \<and>
    c = nextCursor opts (length xs) (last_id (map row_id (page_of opts (everything d prn tnt ''secrets'' db (lo_name opts)))))"
proof -
  from assms obtain page ns where page: "entities_page d prn tnt ''secrets'' opts db = Inr page" and ns: "read_names page = Inr ns"
    and xs: "xs = map (\<lambda>n. \<lparr>ref_Name = n, ref_value = None\<rparr>) ns" and c: "c = nextCursor opts (length ns) (last_id (map row_id page))"
    by (auto simp: ListSecrets_def tx3_def result_bind_Inr_iff split: option.splits sum.splits)
  have "map ref_Name xs = ns" by (simp add: xs comp_def)
  with read_names_Inr [OF ns] entities_page_Inr [OF page] c show ?thesis by (simp add: xs)
qed

interpretation bundle_list: pager "\<lambda>db opts. ListBundles d rank prn tnt opts db" listable "everything d prn tnt ''bundles''" bun_Name
  by unfold_locales (simp_all add: everything_ascending ListBundles_fetched)

interpretation source_list: pager "\<lambda>db opts. ListSources d rank prn tnt opts db" listable "everything d prn tnt ''sources''" src_Name
  by unfold_locales (simp_all add: everything_ascending ListSources_fetched)

interpretation stack_list: pager "\<lambda>db opts. ListStacks d rank compile prn tnt opts db" listable "everything d prn tnt ''stacks''" stk_Name
  by unfold_locales (simp_all add: everything_ascending ListStacks_fetched)

interpretation secret_list: pager "\<lambda>db opts. ListSecrets d prn tnt opts db" listable "everything d prn tnt ''secrets''" ref_Name
  by unfold_locales (simp_all add: everything_ascending ListSecrets_fetched)

definition complete :: "(listOptions \<Rightarrow> db_error + 'x list \<times> string) \<Rightarrow> ('x \<Rightarrow> string) \<Rightarrow> int \<Rightarrow> string \<Rightarrow> row list \<Rightarrow> bool" where
  "complete fetch name_of n nm rows \<longleftrightarrow>
     (case follow fetch n nm (Suc (length rows)) [] of
        None \<Rightarrow> False
      | Some (Inl e) \<Rightarrow> \<exists>opts. fetch opts = Inl e
      | Some (Inr xs) \<Rightarrow> map name_of xs = map row_name rows)"

lemma cursor_start: "cursor \<lparr>lo_Limit = n, lo_Cursor = [], lo_name = nm\<rparr> = 0"
  by (simp add: cursor_def)

lemma completeI:
  assumes "\<exists>r. follow fetch n nm (Suc (length rows)) [] = Some r \<and> (\<forall>xs. r = Inr xs \<longrightarrow> map name_of xs = map row_name rows) \<and>
    (\<forall>e. r = Inl e \<longrightarrow> (\<exists>opts. fetch opts = Inl e))"
  shows "complete fetch name_of n nm rows"
  using assms by (auto simp: complete_def split: sum.split simp del: follow.simps)

text \<open>
  C3: A client that asks for pages of any positive size and follows the cursors is done after at most
  one request more than there are entities, and has then read every bundle (source, stack,
  secret) of the tenant that the condition of the authorizer admits exactly once, in the order of
  the ids; unless one of the requests fails. The order in which the joined rows arrive does not matter.
\<close>

theorem lists_are_complete:
  assumes "listable db" and "0 < n"
  shows "complete (\<lambda>opts. ListBundles d rank prn tnt opts db) bun_Name n nm (everything d prn tnt ''bundles'' db nm) \<and>
    complete (\<lambda>opts. ListSources d rank prn tnt opts db) src_Name n nm (everything d prn tnt ''sources'' db nm) \<and>
    complete (\<lambda>opts. ListStacks d rank compile prn tnt opts db) stk_Name n nm (everything d prn tnt ''stacks'' db nm) \<and>
    complete (\<lambda>opts. ListSecrets d prn tnt opts db) ref_Name n nm (everything d prn tnt ''secrets'' db nm)"
  by (intro conjI completeI bundle_list.follow_rest source_list.follow_rest stack_list.follow_rest secret_list.follow_rest)
    (use assms in \<open>simp_all add: cursor_start\<close>)

definition three_secrets :: db where
  "three_secrets = guard_db(''secrets'' := [fmap_of_list [(''id'', VInt 7), (''name'', VStr ''b''), (''tenant_id'', VInt 1)],
     fmap_of_list [(''id'', VInt 2), (''name'', VStr ''c''), (''tenant_id'', VInt 1)],
     fmap_of_list [(''id'', VInt 3), (''name'', VStr ''c''), (''tenant_id'', VInt 2)],
     fmap_of_list [(''id'', VInt 4), (''name'', VStr ''a''), (''tenant_id'', VInt 1)]])"

definition open_database :: "kind \<Rightarrow> database" where
  "open_database k = (guard_database k)\<lparr>d_authorizer := policy_authorizer\<lparr>au_Partial := (\<lambda>a extra. Inr (Some (Eq (Str ''a'') (Str ''a''))))\<rparr>\<rparr>"

lemma lists_are_complete_witness:
  "map_option (map_sum id (map ref_Name)) (follow (\<lambda>opts. ListSecrets (open_database Sqlite) ''adm'' ''t1'' opts three_secrets) 2 [] 4 []) =
     Some (Inr [''c'', ''a'', ''b'']) \<and>
   complete (\<lambda>opts. ListSecrets (open_database Sqlite) ''adm'' ''t1'' opts three_secrets) ref_Name 2 []
     (everything (open_database Sqlite) ''adm'' ''t1'' ''secrets'' three_secrets [])"
proof
  show "map_option (map_sum id (map ref_Name)) (follow (\<lambda>opts. ListSecrets (open_database Sqlite) ''adm'' ''t1'' opts three_secrets) 2 [] 4 []) =
     Some (Inr [''c'', ''a'', ''b''])" by code_simp
  have "listable three_secrets" by code_simp
  have "complete (\<lambda>opts. ListSecrets d p t opts three_secrets) ref_Name 2 nm (everything d p t ''secrets'' three_secrets nm)" for d p t nm
    by (rule lists_are_complete [OF \<open>listable three_secrets\<close>, THEN conjunct2, THEN conjunct2, THEN conjunct2]) simp
  then show "complete (\<lambda>opts. ListSecrets (open_database Sqlite) ''adm'' ''t1'' opts three_secrets) ref_Name 2 []
     (everything (open_database Sqlite) ''adm'' ''t1'' ''secrets'' three_secrets [])" .
qed

subsection \<open>What a list shows of other tenants, and where it fails\<close>

definition shared_names :: db where
  "shared_names = guard_db(''sources'' := [fmap_of_list [(''id'', VInt 1), (''name'', VStr ''lib''), (''tenant_id'', VInt 1), (''repo'', VStr [])],
       fmap_of_list [(''id'', VInt 2), (''name'', VStr ''lib''), (''tenant_id'', VInt 2), (''repo'', VStr [])]],
     ''secrets'' := [fmap_of_list [(''id'', VInt 1), (''name'', VStr ''key''), (''value'', VJson (AMap (fmap_of_list [(''token'', AStr ''s3cret'')]))), (''tenant_id'', VInt 2)]],
     ''sources_datasources'' := [fmap_of_list [(''source_id'', VInt 2), (''name'', VStr ''users''), (''type'', VStr ''http''), (''path'', VStr ''users''),
       (''config'', VJson ANull), (''transform_query'', VStr []), (''secret_id'', VInt 1)]])"

definition cloud_bundle :: "string \<Rightarrow> bundle_config" where
  "cloud_bundle cred = app_bundle\<lparr>bun_ObjectStorage := (bun_ObjectStorage app_bundle)\<lparr>os_AmazonS3 := Some
     \<lparr>s3_Bucket = ''b'', s3_Key = ''k'', s3_Region = ''r'', s3_Credentials = Some \<lparr>ref_Name = cred, ref_value = None\<rparr>, s3_URL = []\<rparr>\<rparr>\<rparr>"

definition with_secrets :: db where
  "with_secrets = guard_db(''secrets'' := [fmap_of_list [(''id'', VInt 1), (''name'', VStr ''old''), (''value'', VJson (AMap fmempty)), (''tenant_id'', VInt 1)],
       fmap_of_list [(''id'', VInt 2), (''name'', VStr ''new''), (''value'', VJson (AMap fmempty)), (''tenant_id'', VInt 1)],
       fmap_of_list [(''id'', VInt 3), (''name'', VStr ''void''), (''tenant_id'', VInt 1)]],
     ''sources'' := [fmap_of_list [(''id'', VInt 1), (''name'', VStr ''lib''), (''tenant_id'', VInt 1), (''repo'', VStr [])]])"

definition linked :: "int list \<Rightarrow> db" where
  "linked is = with_secrets(''bundles'' := [fmap_of_list [(''id'', VInt 1), (''name'', VStr ''app''), (''tenant_id'', VInt 1), (''s3region'', VStr ''r''),
       (''s3bucket'', VStr ''b''), (''s3key'', VStr ''k'')]],
     ''bundles_secrets'' := map (\<lambda>i. fmap_of_list [(''bundle_id'', VInt 1), (''secret_id'', VInt i), (''ref_type'', VStr ''aws'')]) is,
     ''bundles_requirements'' := [fmap_of_list [(''bundle_id'', VInt 1), (''source_id'', VInt 1)]])"

text \<open>
  The data sources of a listed source are those of all sources of that name, whatever
  their tenant: with the credentials of the other tenant. After the credentials of a bundle were
  changed the old link stays, and a bundle with two links is listed with the credentials of one of
  them and with each requirement twice. And a bundle whose credentials are a secret without a
  value makes the list of all bundles fail by a nil dereference.
\<close>

theorem lists_have_gaps:
  "map_sum id (map (\<lambda>s. (src_ID s, map (\<lambda>ds. (ds_Name ds, map_option ref_value (ds_Credentials ds))) (src_Datasources s))) \<circ> fst)
     (ListSources (open_database Sqlite) (\<lambda>j. 0) ''adm'' ''t1'' (named []) shared_names) =
   Inr [(1, [(''users'', Some (Some \<lparr>sec_Name = ''key'', sec_Value = Some (fmap_of_list [(''token'', AStr ''s3cret'')])\<rparr>))])] \<and>
   (let (e, db) = UpsertBundle (open_database Sqlite) ''adm'' ''t1'' (cloud_bundle ''new'') (linked [1]) in
    e = None \<and> map (\<lambda>r. col r ''secret_id'') (db ''bundles_secrets'') = [VInt 1, VInt 2]) \<and>
   map_sum id (\<lambda>b. (map_option (map_option ref_Name \<circ> s3_Credentials) (os_AmazonS3 (bun_ObjectStorage b)), map req_Source (slice (bun_Requirements b))))
     (GetBundle (open_database Sqlite) (\<lambda>j. 0) ''adm'' ''t1'' ''app'' (linked [1, 2])) =
   Inr (Some (Some ''old''), [Some ''lib'', Some ''lib'']) \<and>
   fst (UpsertBundle (open_database Sqlite) ''adm'' ''t1'' (cloud_bundle ''void'') with_secrets) = None \<and>
   ListBundles (open_database Sqlite) (\<lambda>j. 0) ''adm'' ''t1'' (named []) (linked [3]) = Inl (OtherError ''nil dereference'')"
  by (intro conjI) code_simp+

end
