(* ===== verification/Server.thy ===== *)
theory Server
  imports Listing
begin

text \<open>
  The HTTP interface of \<open>internal/server/server.go\<close>: routing, authentication, the handlers and
  the mapping of errors to responses. A request carries what the handlers read of it. Routing is
  that of \<open>http.ServeMux\<close>, which matches the segments of the escaped path and hands the
  unescaped ones to the handler. What comes from other packages is a parameter: the JSON decoder
  for each type, the parsing of stored JSON, the application of a JSON patch, and the patterns of
  selectors. A panic, which the HTTP server turns into an aborted connection, is an outcome.
\<close>

subsection \<open>Requests and responses\<close>

record 'b request =
  rq_method :: string
  rq_path :: string                                  \<comment> \<open>escaped and clean\<close>
  rq_query :: "(string \<times> string list) list"
  rq_authorization :: string
  rq_body :: 'b
  rq_values :: "(string \<times> string) list"              \<comment> \<open>set by the router\<close>
  rq_auth :: "(string \<times> string) option"               \<comment> \<open>principal and tenant, set by the middleware\<close>

datatype 'g payload =
    Empty
  | Bundles "bundle_config list" string
  | OneBundle bundle_config
  | Sources "source list" string
  | OneSource source
  | Stacks "'g stack list" string
  | OneStack "'g stack"
  | Secrets "secretref list" string
  | OneSecret secretref
  | DataResult "any option"
  | ErrorBody string string
  | Plain string

record 'g response =
  rs_status :: nat
  rs_body :: "'g payload"
  rs_pretty :: bool

datatype 'g outcome = Respond "'g response" | Panic

record ('b, 'p, 'g) library =
  lib_bundle :: "'b \<Rightarrow> bundle_config option"
  lib_source :: "'b \<Rightarrow> source option"
  lib_stack :: "'b \<Rightarrow> 'g stack option"
  lib_secret :: "'b \<Rightarrow> secret option"
  lib_any :: "'b \<Rightarrow> any option"
  lib_patch :: "'b \<Rightarrow> 'p list option"
  lib_kind :: "'p \<Rightarrow> string"
  lib_apply :: "'p list \<Rightarrow> val option \<Rightarrow> any option"
  lib_parse :: "string \<Rightarrow> any option"
  lib_files :: "source \<Rightarrow> string + (string \<times> string) list"
  lib_compile :: "string \<Rightarrow> 'g option"
  lib_rank :: "joined \<Rightarrow> nat"
  lib_metrics :: string

record ('b, 'p, 'g) server =
  srv_db :: database
  srv_readyFn :: "db_error option"
  srv_apiPrefix :: string
  srv_lib :: "('b, 'p, 'g) library"

type_synonym ('b, 'g) handler = "'b request \<Rightarrow> db \<Rightarrow> 'g outcome \<times> db"

subsection \<open>Parts of the standard library\<close>

definition hex_value :: "char \<Rightarrow> nat option" where
  "hex_value c =
     (let n = byte c in
      if 48 \<le> n \<and> n \<le> 57 then Some (n - 48)
      else if 97 \<le> n \<and> n \<le> 102 then Some (n - 87)
      else if 65 \<le> n \<and> n \<le> 70 then Some (n - 55)
      else None)"

fun PathUnescape :: "string \<Rightarrow> string option" where
  "PathUnescape [] = Some []"
| "PathUnescape (c # s) =
     (if c = CHR ''%'' then
        (case s of
           a # b # rest \<Rightarrow> (case (hex_value a, hex_value b) of
               (Some x, Some y) \<Rightarrow> map_option (\<lambda>t. char_of (x * 16 + y) # t) (PathUnescape rest)
             | _ \<Rightarrow> None)
         | _ \<Rightarrow> None)
      else map_option ((#) c) (PathUnescape s))"

definition to_lower :: "char \<Rightarrow> char" where
  "to_lower c = (if 65 \<le> byte c \<and> byte c \<le> 90 then char_of (byte c + 32) else c)"

text \<open>\<open>strings.EqualFold\<close> with a word of letters that have only two cases.\<close>

definition EqualFold :: "string \<Rightarrow> string \<Rightarrow> bool" where
  "EqualFold s t \<longleftrightarrow> map to_lower s = map to_lower t"

definition Atoi :: "string \<Rightarrow> int option" where
  "Atoi s =
     (let (neg, ds) = (case s of c # t \<Rightarrow> if c = CHR ''-'' then (True, t) else if c = CHR ''+'' then (False, t) else (False, s) | [] \<Rightarrow> (False, []))
      in if ds = [] \<or> list_ex (\<lambda>c. byte c < 48 \<or> 57 < byte c) ds then None
         else let n = foldl (\<lambda>n c. n * 10 + int (byte c - 48)) 0 ds; i = (if neg then - n else n)
              in if - (2 ^ 63) \<le> i \<and> i < 2 ^ 63 then Some i else None)"

definition query_Get :: "'b request \<Rightarrow> string \<Rightarrow> string" where
  "query_Get r k = (case map_of (rq_query r) k of Some (v # vs) \<Rightarrow> v | _ \<Rightarrow> [])"

definition PathValue :: "'b request \<Rightarrow> string \<Rightarrow> string" where
  "PathValue r k = (case map_of (rq_values r) k of Some v \<Rightarrow> v | None \<Rightarrow> [])"

subsection \<open>Parameters and responses\<close>

definition getBoolParam :: "'b request \<Rightarrow> string \<Rightarrow> bool \<Rightarrow> bool" where
  "getBoolParam r name ifEmpty =
     (case map_of (rq_query r) name of
        None \<Rightarrow> False
      | Some p \<Rightarrow> if p = [[]] then ifEmpty else list_ex (\<lambda>x. EqualFold x ''true'') p)"

definition pretty :: "'b request \<Rightarrow> bool" where
  "pretty r = getBoolParam r ''pretty'' True"

definition pageLimitMax :: int where
  "pageLimitMax = 100"

definition listOptions_of :: "'b request \<Rightarrow> listOptions" where
  "listOptions_of r =
     (let limit = (case Atoi (query_Get r ''limit'') of Some n \<Rightarrow> if n \<le> pageLimitMax then n else 0 | None \<Rightarrow> 0)
      in \<lparr>lo_Limit = (if limit = 0 then pageLimitMax else limit), lo_Cursor = query_Get r ''cursor'', lo_name = []\<rparr>)"

definition JSONOK :: "'g payload \<Rightarrow> bool \<Rightarrow> 'g outcome" where
  "JSONOK v prt = Respond \<lparr>rs_status = 200, rs_body = v, rs_pretty = prt\<rparr>"

text \<open>The text of an error; the words of a message around a wrapped error are not kept apart.\<close>

fun error_text :: "db_error \<Rightarrow> string" where
  "error_text ErrNotFound = ''not found''"
| "error_text ErrNotAuthorized = ''not authorized''"
| "error_text ErrNoRows = ''sql: no rows in result set''"
| "error_text (SqlError m) = m"
| "error_text (OtherError m) = m"
| "error_text (PatchError m) = m"
| "error_text (Errorf m e) = m @ '': '' @ error_text e"

definition ErrorString :: "nat \<Rightarrow> string \<Rightarrow> string \<Rightarrow> 'g outcome" where
  "ErrorString status code m = Respond \<lparr>rs_status = status, rs_body = ErrorBody code m, rs_pretty = False\<rparr>"

text \<open>The errors are compared as values: a wrapped one is not recognised.\<close>

definition errorAuto :: "db_error \<Rightarrow> 'g outcome" where
  "errorAuto e =
     (if e = OtherError ''nil dereference'' then Panic
      else if e = ErrNotAuthorized then ErrorString 403 ''not_authorized'' (error_text e)
      else if e = ErrNotFound then ErrorString 404 ''not_found'' (error_text e)
      else ErrorString 500 ''internal_error'' (error_text e))"

definition bad_request :: "string \<Rightarrow> 'g outcome" where
  "bad_request m = ErrorString 400 ''invalid_parameter'' m"

text \<open>\<open>auth\<close>: the code panics on a request without authentication data.\<close>

definition with_auth :: "'b request \<Rightarrow> (string \<Rightarrow> string \<Rightarrow> db \<Rightarrow> 'g outcome \<times> db) \<Rightarrow> db \<Rightarrow> 'g outcome \<times> db" where
  "with_auth r f db = (case rq_auth r of None \<Rightarrow> (Panic, db) | Some (p, t) \<Rightarrow> f p t db)"

text \<open>The shapes the handlers share: an answer to a read, and to a write.\<close>

definition answer :: "('x \<Rightarrow> 'g payload) \<Rightarrow> 'b request \<Rightarrow> db_error + 'x \<Rightarrow> 'g outcome" where
  "answer f r x = (case x of Inl e \<Rightarrow> errorAuto e | Inr v \<Rightarrow> JSONOK (f v) (pretty r))"

definition written :: "'b request \<Rightarrow> db_error option \<times> db \<Rightarrow> 'g outcome \<times> db" where
  "written r x = (case x of (Some e, db) \<Rightarrow> (errorAuto e, db) | (None, db) \<Rightarrow> (JSONOK Empty (pretty r), db))"

definition with_name :: "'b request \<Rightarrow> string \<Rightarrow> (string \<Rightarrow> db \<Rightarrow> 'g outcome \<times> db) \<Rightarrow> db \<Rightarrow> 'g outcome \<times> db" where
  "with_name r k f db = (case PathUnescape (PathValue r k) of None \<Rightarrow> (bad_request ''invalid URL escape'', db) | Some n \<Rightarrow> f n db)"

text \<open>A body that names the resource must name the one of the path.\<close>

definition with_body :: "'x option \<Rightarrow> ('x \<Rightarrow> string) \<Rightarrow> string \<Rightarrow> string \<Rightarrow> ('x \<Rightarrow> db \<Rightarrow> 'g outcome \<times> db) \<Rightarrow> db \<Rightarrow> 'g outcome \<times> db" where
  "with_body body nm name what f db =
     (case body of
        None \<Rightarrow> (bad_request ''json'', db)
      | Some x \<Rightarrow> if nm x \<noteq> [] \<and> nm x \<noteq> name then (bad_request (what @ '' name must match path''), db) else f x db)"

subsection \<open>The handlers\<close>

definition health :: "('b, 'p, 'g) server \<Rightarrow> ('b, 'g) handler" where
  "health srv r db = (case srv_readyFn srv of Some e \<Rightarrow> (errorAuto e, db) | None \<Rightarrow> (JSONOK Empty False, db))"

definition v1BundlesList :: "('b, 'p, 'g) server \<Rightarrow> ('b, 'g) handler" where
  "v1BundlesList srv r = with_auth r (\<lambda>p t db.
     (answer (\<lambda>(bs, c). Bundles bs c) r (ListBundles (srv_db srv) (lib_rank (srv_lib srv)) p t (listOptions_of r) db), db))"

definition v1BundlesPut :: "('b, 'p, 'g) server \<Rightarrow> ('b, 'g) handler" where
  "v1BundlesPut srv r = with_name r ''bundle'' (\<lambda>name. with_body (lib_bundle (srv_lib srv) (rq_body r)) bun_Name name ''bundle'' (\<lambda>b.
     with_auth r (\<lambda>p t db. written r (UpsertBundle (srv_db srv) p t (b\<lparr>bun_Name := name\<rparr>) db))))"

definition v1BundlesGet :: "('b, 'p, 'g) server \<Rightarrow> ('b, 'g) handler" where
  "v1BundlesGet srv r = with_name r ''bundle'' (\<lambda>name. with_auth r (\<lambda>p t db.
     (answer OneBundle r (GetBundle (srv_db srv) (lib_rank (srv_lib srv)) p t name db), db)))"

definition v1BundlesDelete :: "('b, 'p, 'g) server \<Rightarrow> ('b, 'g) handler" where
  "v1BundlesDelete srv r = with_name r ''bundle'' (\<lambda>name. with_auth r (\<lambda>p t db.
     written r (DeleteBundle (srv_db srv) p t name db)))"

definition v1SourcesList :: "('b, 'p, 'g) server \<Rightarrow> ('b, 'g) handler" where
  "v1SourcesList srv r = with_auth r (\<lambda>p t db.
     (answer (\<lambda>(ss, c). Sources ss c) r (ListSources (srv_db srv) (lib_rank (srv_lib srv)) p t (listOptions_of r) db), db))"

definition v1SourcesPut :: "('b, 'p, 'g) server \<Rightarrow> ('b, 'g) handler" where
  "v1SourcesPut srv r = with_name r ''source'' (\<lambda>name. with_body (lib_source (srv_lib srv) (rq_body r)) src_Name name ''source'' (\<lambda>s.
     with_auth r (\<lambda>p t db. written r (UpsertSource (srv_db srv) (lib_files (srv_lib srv)) p t (s\<lparr>src_Name := name\<rparr>) db))))"

definition v1SourcesGet :: "('b, 'p, 'g) server \<Rightarrow> ('b, 'g) handler" where
  "v1SourcesGet srv r = with_name r ''source'' (\<lambda>name. with_auth r (\<lambda>p t db.
     (answer OneSource r (GetSource (srv_db srv) (lib_rank (srv_lib srv)) p t name db), db)))"

definition v1SourcesDelete :: "('b, 'p, 'g) server \<Rightarrow> ('b, 'g) handler" where
  "v1SourcesDelete srv r = with_name r ''source'' (\<lambda>name. with_auth r (\<lambda>p t db.
     written r (DeleteSource (srv_db srv) p t name db)))"

text \<open>The data of a source are kept in files named \<open>data.json\<close> below the path of the request.\<close>

definition data_path :: "'b request \<Rightarrow> string" where
  "data_path r = path_Join [PathValue r ''path'', ''data.json'']"

definition v1SourcesDataGet :: "('b, 'p, 'g) server \<Rightarrow> ('b, 'g) handler" where
  "v1SourcesDataGet srv r = with_name r ''source'' (\<lambda>name. with_auth r (\<lambda>p t db.
     (answer DataResult r (SourcesDataGet (srv_db srv) (lib_parse (srv_lib srv)) name (data_path r) p t db), db)))"

definition v1SourcesDataPut :: "('b, 'p, 'g) server \<Rightarrow> ('b, 'g) handler" where
  "v1SourcesDataPut srv r = with_name r ''source'' (\<lambda>name. with_body (lib_any (srv_lib srv) (rq_body r)) (\<lambda>v. []) name ''source'' (\<lambda>v.
     with_auth r (\<lambda>p t db. written r (SourcesDataPut (srv_db srv) name (data_path r) v p t db))))"

text \<open>\<open>jsonpatch.Apply\<close> of \<open>internal/jsonpatch/jsonpatch.go\<close>: only three kinds of operations.\<close>

definition jsonpatch_Apply :: "('p \<Rightarrow> string) \<Rightarrow> ('p list \<Rightarrow> val option \<Rightarrow> any option) \<Rightarrow> 'p list \<Rightarrow> val option \<Rightarrow> db_error + any" where
  "jsonpatch_Apply kind apply_ops p doc =
     (case find (\<lambda>op. kind op \<notin> {''replace'', ''remove'', ''add''}) p of
        Some op \<Rightarrow> Inl (PatchError (''unsupported patch operation '' @ kind op))
      | None \<Rightarrow> (case apply_ops p doc of None \<Rightarrow> Inl (OtherError ''json patch'') | Some v \<Rightarrow> Inr v))"

definition v1SourcesDataPatch :: "('b, 'p, 'g) server \<Rightarrow> ('b, 'g) handler" where
  "v1SourcesDataPatch srv r = with_name r ''source'' (\<lambda>name. with_body (lib_patch (srv_lib srv) (rq_body r)) (\<lambda>v. []) name ''source'' (\<lambda>ops.
     with_auth r (\<lambda>p t db.
       case SourcesDataPatch (srv_db srv) (jsonpatch_Apply (lib_kind (srv_lib srv)) (lib_apply (srv_lib srv)) ops) name (data_path r) p t db of
         (Some (PatchError m), db) \<Rightarrow> (bad_request m, db)
       | x \<Rightarrow> written r x)))"

definition v1SourcesDataDelete :: "('b, 'p, 'g) server \<Rightarrow> ('b, 'g) handler" where
  "v1SourcesDataDelete srv r = with_name r ''source'' (\<lambda>name. with_auth r (\<lambda>p t db.
     written r (SourcesDataDelete (srv_db srv) name (data_path r) p t db)))"

definition v1StacksList :: "('b, 'p, 'g) server \<Rightarrow> ('b, 'g) handler" where
  "v1StacksList srv r = with_auth r (\<lambda>p t db.
     (answer (\<lambda>(ss, c). Stacks ss c) r
       (ListStacks (srv_db srv) (lib_rank (srv_lib srv)) (lib_compile (srv_lib srv)) p t (listOptions_of r) db), db))"

definition v1StacksGet :: "('b, 'p, 'g) server \<Rightarrow> ('b, 'g) handler" where
  "v1StacksGet srv r = with_name r ''stack'' (\<lambda>name. with_auth r (\<lambda>p t db.
     (answer OneStack r (GetStack (srv_db srv) (lib_rank (srv_lib srv)) (lib_compile (srv_lib srv)) p t name db), db)))"

definition v1StacksDelete :: "('b, 'p, 'g) server \<Rightarrow> ('b, 'g) handler" where
  "v1StacksDelete srv r = with_name r ''stack'' (\<lambda>name. with_auth r (\<lambda>p t db.
     written r (DeleteStack (srv_db srv) p t name db)))"

definition v1StacksPut :: "('b, 'p, 'g) server \<Rightarrow> ('b, 'g) handler" where
  "v1StacksPut srv r = with_name r ''stack'' (\<lambda>name. with_body (lib_stack (srv_lib srv) (rq_body r)) stk_Name name ''stack'' (\<lambda>s.
     with_auth r (\<lambda>p t db. written r (UpsertStack (srv_db srv) p t (s\<lparr>stk_Name := name\<rparr>) db))))"

definition v1SecretsList :: "('b, 'p, 'g) server \<Rightarrow> ('b, 'g) handler" where
  "v1SecretsList srv r = with_auth r (\<lambda>p t db.
     (answer (\<lambda>(ss, c). Secrets ss c) r (ListSecrets (srv_db srv) p t (listOptions_of r) db), db))"

definition v1SecretsGet :: "('b, 'p, 'g) server \<Rightarrow> ('b, 'g) handler" where
  "v1SecretsGet srv r = with_name r ''secret'' (\<lambda>name. with_auth r (\<lambda>p t db.
     (answer OneSecret r (GetSecret (srv_db srv) p t name db), db)))"

definition v1SecretsDelete :: "('b, 'p, 'g) server \<Rightarrow> ('b, 'g) handler" where
  "v1SecretsDelete srv r = with_name r ''secret'' (\<lambda>name. with_auth r (\<lambda>p t db.
     written r (DeleteSecret (srv_db srv) p t name db)))"

definition v1SecretsPut :: "('b, 'p, 'g) server \<Rightarrow> ('b, 'g) handler" where
  "v1SecretsPut srv r = with_name r ''secret'' (\<lambda>name. with_body (lib_secret (srv_lib srv) (rq_body r)) sec_Name name ''secret'' (\<lambda>s.
     with_auth r (\<lambda>p t db. written r (UpsertSecret (srv_db srv) p t (s\<lparr>sec_Name := name\<rparr>) db))))"

subsection \<open>Authentication\<close>

definition extractBearerToken :: "'b request \<Rightarrow> string option" where
  "extractBearerToken r =
     (if rq_authorization r = [] then None
      else case split_on CHR '' '' (rq_authorization r) of
          scheme # rest \<Rightarrow> if rest = [] \<or> \<not> EqualFold scheme ''bearer'' then None else Some (join_with CHR '' '' rest)
        | [] \<Rightarrow> None)"

definition defaultTenant :: string where
  "defaultTenant = ''default''"

definition Unauthorized :: "'g outcome" where
  "Unauthorized = Respond \<lparr>rs_status = 401, rs_body = Plain ''Unauthorized'', rs_pretty = False\<rparr>"

definition authenticationMiddleware :: "('b, 'g) handler \<Rightarrow> ('b, 'g) handler" where
  "authenticationMiddleware inner r db =
     (case extractBearerToken r of
        None \<Rightarrow> (Unauthorized, db)
      | Some apiKey \<Rightarrow> (case GetPrincipalID apiKey db of
          None \<Rightarrow> (Unauthorized, db)
        | Some principalId \<Rightarrow> inner (r\<lparr>rq_auth := Some (principalId, defaultTenant)\<rparr>) db))"

text \<open>A chain of middlewares, the first outermost. The one that counts requests changes nothing.\<close>

definition Chain_then :: "('h \<Rightarrow> 'h) list \<Rightarrow> 'h \<Rightarrow> 'h" where
  "Chain_then c h = fold (\<lambda>mw h. mw h) (rev c) h"

definition InstrumentHandler :: "('b, 'g) handler \<Rightarrow> ('b, 'g) handler" where
  "InstrumentHandler h = h"

subsection \<open>Routes\<close>

datatype segment = Literal string | Wildcard string | Remainder string

definition parse_segment :: "string \<Rightarrow> segment" where
  "parse_segment w =
     (if w \<noteq> [] \<and> hd w = CHR ''{'' \<and> last w = CHR ''}'' then
        (let n = butlast (tl w) in
         if suffix ''...'' n then Remainder (take (length n - 3) n) else Wildcard n)
      else Literal w)"

definition parse_pattern :: "string \<Rightarrow> segment list" where
  "parse_pattern p = map parse_segment (tl (split_on CHR ''/'' p))"

text \<open>The router's own unescaping leaves a segment that is no escape as it is.\<close>

definition unescaped :: "string \<Rightarrow> string" where
  "unescaped s = (case PathUnescape s of None \<Rightarrow> s | Some t \<Rightarrow> t)"

fun match_segments :: "segment list \<Rightarrow> string list \<Rightarrow> (string \<times> string) list option" where
  "match_segments [] [] = Some []"
| "match_segments (Literal l # ps) (w # ws) = (if unescaped w = l then match_segments ps ws else None)"
| "match_segments (Wildcard n # ps) (w # ws) =
     (if w = [] then None else map_option ((#) (n, unescaped w)) (match_segments ps ws))"
| "match_segments (Remainder n # ps) (w # ws) = Some [(n, unescaped (join_with CHR ''/'' (w # ws)))]"
| "match_segments _ _ = None"

record ('b, 'g) route =
  rt_method :: "string option"
  rt_pattern :: string
  rt_handler :: "('b, 'g) handler"

definition match_route :: "('b, 'g) route \<Rightarrow> 'b request \<Rightarrow> (string \<times> string) list option" where
  "match_route rt r = match_segments (parse_pattern (rt_pattern rt)) (tl (split_on CHR ''/'' (rq_path r)))"

definition method_matches :: "('b, 'g) route \<Rightarrow> 'b request \<Rightarrow> bool" where
  "method_matches rt r = (case rt_method rt of
     None \<Rightarrow> True | Some m \<Rightarrow> rq_method r = m \<or> m = ''GET'' \<and> rq_method r = ''HEAD'')"

definition public_routes :: "('b, 'p, 'g) server \<Rightarrow> ('b, 'g) route list" where
  "public_routes srv =
     [\<lparr>rt_method = None, rt_pattern = srv_apiPrefix srv @ ''/metrics'',
        rt_handler = (\<lambda>r db. (Respond \<lparr>rs_status = 200, rs_body = Plain (lib_metrics (srv_lib srv)), rs_pretty = False\<rparr>, db))\<rparr>,
      \<lparr>rt_method = Some ''GET'', rt_pattern = srv_apiPrefix srv @ ''/health'', rt_handler = health srv\<rparr>]"

definition setup_route :: "('b, 'p, 'g) server \<Rightarrow> string \<Rightarrow> string \<Rightarrow> ('b, 'g) handler \<Rightarrow> ('b, 'g) route" where
  "setup_route srv meth pat hndl = \<lparr>rt_method = Some meth, rt_pattern = srv_apiPrefix srv @ pat,
     rt_handler = Chain_then ([authenticationMiddleware] @ [InstrumentHandler]) hndl\<rparr>"

definition api_routes :: "('b, 'p, 'g) server \<Rightarrow> ('b, 'g) route list" where
  "api_routes srv =
     [setup_route srv ''GET'' ''/v1/sources/{source}/data/{path...}'' (v1SourcesDataGet srv),
      setup_route srv ''POST'' ''/v1/sources/{source}/data/{path...}'' (v1SourcesDataPut srv),
      setup_route srv ''PUT'' ''/v1/sources/{source}/data/{path...}'' (v1SourcesDataPut srv),
      setup_route srv ''DELETE'' ''/v1/sources/{source}/data/{path...}'' (v1SourcesDataDelete srv),
      setup_route srv ''PATCH'' ''/v1/sources/{source}/data/{path...}'' (v1SourcesDataPatch srv),
      setup_route srv ''GET'' ''/v1/sources'' (v1SourcesList srv),
      setup_route srv ''GET'' ''/v1/sources/{source}'' (v1SourcesGet srv),
      setup_route srv ''PUT'' ''/v1/sources/{source}'' (v1SourcesPut srv),
      setup_route srv ''DELETE'' ''/v1/sources/{source}'' (v1SourcesDelete srv),
      setup_route srv ''GET'' ''/v1/bundles'' (v1BundlesList srv),
      setup_route srv ''GET'' ''/v1/bundles/{bundle}'' (v1BundlesGet srv),
      setup_route srv ''PUT'' ''/v1/bundles/{bundle}'' (v1BundlesPut srv),
      setup_route srv ''DELETE'' ''/v1/bundles/{bundle}'' (v1BundlesDelete srv),
      setup_route srv ''GET'' ''/v1/stacks'' (v1StacksList srv),
      setup_route srv ''GET'' ''/v1/stacks/{stack}'' (v1StacksGet srv),
      setup_route srv ''PUT'' ''/v1/stacks/{stack}'' (v1StacksPut srv),
      setup_route srv ''DELETE'' ''/v1/stacks/{stack}'' (v1StacksDelete srv),
      setup_route srv ''GET'' ''/v1/secrets'' (v1SecretsList srv),
      setup_route srv ''GET'' ''/v1/secrets/{secret}'' (v1SecretsGet srv),
      setup_route srv ''PUT'' ''/v1/secrets/{secret}'' (v1SecretsPut srv),
      setup_route srv ''DELETE'' ''/v1/secrets/{secret}'' (v1SecretsDelete srv)]"

definition Init :: "('b, 'p, 'g) server \<Rightarrow> ('b, 'g) route list" where
  "Init srv = public_routes srv @ api_routes srv"

text \<open>The router: no two routes of a method match the same path, so the first match is the match.\<close>

definition not_routed :: "nat \<Rightarrow> string \<Rightarrow> 'g outcome" where
  "not_routed status m = Respond \<lparr>rs_status = status, rs_body = Plain m, rs_pretty = False\<rparr>"

definition serve :: "('b, 'p, 'g) server \<Rightarrow> ('b, 'g) handler" where
  "serve srv r db =
     (case find (\<lambda>rt. match_route rt r \<noteq> None \<and> method_matches rt r) (Init srv) of
        Some rt \<Rightarrow> rt_handler rt (r\<lparr>rq_values := the (match_route rt r)\<rparr>) db
      | None \<Rightarrow>
          (if list_ex (\<lambda>rt. match_route rt r \<noteq> None) (Init srv) then not_routed 405 ''Method Not Allowed'' else not_routed 404 ''404 page not found'', db))"

text \<open>\<open>ListenAndServe\<close>: where to listen.\<close>

datatype listen = Tcp string | Unix string

definition ListenAndServe :: "string \<Rightarrow> listen" where
  "ListenAndServe addr =
     (if strings_HasPrefix addr ''unix://'' then Unix (drop 7 addr)
      else if strings_HasPrefix addr ''/'' \<or> strings_HasPrefix addr ''./'' then Unix addr
      else Tcp addr)"

end
