(* ===== verification/Api.thy ===== *)
theory Api
  imports Server Mounts
begin

text \<open>
  What the HTTP interface promises from end to end: who may change what, and which requests get
  which answers. A request either leaves the database as it is or runs one write operation of
  the principal of its token in the default tenant, on a resource with a name.
\<close>

subsection \<open>Requests as write operations\<close>

lemma PathUnescape_nonempty: "PathUnescape s = Some t \<Longrightarrow> s \<noteq> [] \<Longrightarrow> t \<noteq> []"
  by (cases s) (auto split: if_splits list.splits option.splits)

lemma unescaped_nonempty: "s \<noteq> [] \<Longrightarrow> unescaped s \<noteq> []"
  using PathUnescape_nonempty by (auto simp: unescaped_def split: option.split)

lemma with_name_cases:
  "with_name r k f db = (out, db') \<Longrightarrow> PathValue r k \<noteq> [] \<Longrightarrow> db' = db \<or> (\<exists>n. n \<noteq> [] \<and> f n db = (out, db'))"
  using PathUnescape_nonempty by (auto simp: with_name_def split: option.splits)

lemma with_body_cases:
  "with_body body nm name what f db = (out, db') \<Longrightarrow> db' = db \<or> (\<exists>x. f x db = (out, db'))"
  by (auto simp: with_body_def split: option.splits if_splits)

lemma with_auth_Some: "rq_auth r = Some (p, t) \<Longrightarrow> with_auth r f db = f p t db"
  by (simp add: with_auth_def)

definition succeeded :: "'g outcome \<Rightarrow> bool" where
  "succeeded out = (case out of Respond rs \<Rightarrow> rs_status rs = 200 | Panic \<Rightarrow> False)"

lemma written_state: "written r x = (out, db') \<Longrightarrow> \<exists>e. x = (e, db') \<and> (e = None \<longrightarrow> succeeded out)"
  by (cases x) (auto simp: written_def succeeded_def JSONOK_def split: option.splits)

definition runs :: "('b, 'p, 'g) server \<Rightarrow> string \<Rightarrow> string \<Rightarrow> db \<Rightarrow> 'g outcome \<Rightarrow> db \<Rightarrow> bool" where
  "runs srv p t db out db' \<longleftrightarrow> db' = db \<or>
     (\<exists>op :: 'g write_op. op_name op \<noteq> [] \<and> run_op (srv_db srv) (lib_files (srv_lib srv)) p t op db = (None, db') \<and> succeeded out)"

lemma runs_refl: "runs srv p t db out db"
  by (simp add: runs_def)

lemma runsI: "run_op (srv_db srv) (lib_files (srv_lib srv)) p t (op :: 'g write_op) db = (e, db') \<Longrightarrow> op_name op \<noteq> [] \<Longrightarrow>
    (e = None \<longrightarrow> succeeded out) \<Longrightarrow> runs (srv :: ('b, 'p, 'g) server) p t db out db'"
  using run_op_cases [of "srv_db srv" "lib_files (srv_lib srv)" p t op db e db'] by (auto simp: runs_def)

text \<open>The two shapes of a handler that writes: with and without a body.\<close>

lemma runs_drop:
  fixes op :: "string \<Rightarrow> 'g write_op" and srv :: "('b, 'p, 'g) server"
  assumes "with_name r k (\<lambda>name. with_auth r (\<lambda>p t db. written r (run_op (srv_db srv) (lib_files (srv_lib srv)) p t (op name) db))) db = (out, db')"
    and "rq_auth r = Some (p, t)" and "PathValue r k \<noteq> []" and "\<And>n. op_name (op n) = n"
  shows "runs srv p t db out db'"
  using with_name_cases [OF assms(1,3)]
proof (elim disjE exE conjE)
  assume "db' = db"
  then show ?thesis by (simp add: runs_refl)
next
  fix n assume "n \<noteq> []" "with_auth r (\<lambda>p t db. written r (run_op (srv_db srv) (lib_files (srv_lib srv)) p t (op n) db)) db = (out, db')"
  then have "written r (run_op (srv_db srv) (lib_files (srv_lib srv)) p t (op n) db) = (out, db')" by (simp add: with_auth_Some [OF assms(2)])
  from written_state [OF this] obtain e where
    "run_op (srv_db srv) (lib_files (srv_lib srv)) p t (op n) db = (e, db')" "e = None \<longrightarrow> succeeded out" by blast
  with \<open>n \<noteq> []\<close> show ?thesis using assms(4) by (metis runsI)
qed

lemma runs_put:
  fixes op :: "string \<Rightarrow> 'x \<Rightarrow> 'g write_op" and srv :: "('b, 'p, 'g) server"
  assumes "with_name r k (\<lambda>name. with_body body nm name what (\<lambda>x. with_auth r (\<lambda>p t db. answer_of (name, x, p, t, db)))) db = (out, db')"
    and "rq_auth r = Some (p, t)" and "PathValue r k \<noteq> []" and "\<And>n x. op_name (op n x) = n"
    and "\<And>n x out db'. answer_of (n, x, p, t, db) = (out, db') \<Longrightarrow>
      \<exists>e. run_op (srv_db srv) (lib_files (srv_lib srv)) p t (op n x) db = (e, db') \<and> (e = None \<longrightarrow> succeeded out)"
  shows "runs srv p t db out db'"
  using with_name_cases [OF assms(1,3)]
proof (elim disjE exE conjE)
  assume "db' = db"
  then show ?thesis by (simp add: runs_refl)
next
  fix n assume n: "n \<noteq> []" "with_body body nm n what (\<lambda>x. with_auth r (\<lambda>p t db. answer_of (n, x, p, t, db))) db = (out, db')"
  from with_body_cases [OF n(2)] show ?thesis
  proof (elim disjE exE)
    assume "db' = db"
    then show ?thesis by (simp add: runs_refl)
  next
    fix x assume "with_auth r (\<lambda>p t db. answer_of (n, x, p, t, db)) db = (out, db')"
    then have "answer_of (n, x, p, t, db) = (out, db')" by (simp add: with_auth_Some [OF assms(2)])
    from assms(5) [OF this] n(1) show ?thesis using assms(4) by (metis runsI)
  qed
qed

lemma read_only:
  assumes "with_auth r (\<lambda>p t db. (f p t db, db)) db = (out, db')" shows "db' = db"
  using assms by (auto simp: with_auth_def split: option.splits)

lemma read_only_named:
  assumes "with_name r k (\<lambda>name. with_auth r (\<lambda>p t db. (f name p t db, db))) db = (out, db')" shows "db' = db"
  using assms by (auto simp: with_name_def with_auth_def split: option.splits)

lemma patch_state:
  "(case x of (Some (PatchError m), db) \<Rightarrow> (bad_request m, db) | x \<Rightarrow> written r x) = (out, db') \<Longrightarrow>
    \<exists>e. x = (e, db') \<and> (e = None \<longrightarrow> succeeded out)"
  by (cases x) (auto simp: written_def succeeded_def JSONOK_def split: option.splits db_error.splits)

lemma handlers_run:
  fixes srv :: "('b, 'p, 'g) server"
  assumes "rq_auth r = Some (p, t)"
  shows "PathValue r ''bundle'' \<noteq> [] \<Longrightarrow> v1BundlesPut srv r db = (out, db') \<Longrightarrow> runs srv p t db out db'"
    and "PathValue r ''bundle'' \<noteq> [] \<Longrightarrow> v1BundlesDelete srv r db = (out, db') \<Longrightarrow> runs srv p t db out db'"
    and "PathValue r ''source'' \<noteq> [] \<Longrightarrow> v1SourcesPut srv r db = (out, db') \<Longrightarrow> runs srv p t db out db'"
    and "PathValue r ''source'' \<noteq> [] \<Longrightarrow> v1SourcesDelete srv r db = (out, db') \<Longrightarrow> runs srv p t db out db'"
    and "PathValue r ''source'' \<noteq> [] \<Longrightarrow> v1SourcesDataPut srv r db = (out, db') \<Longrightarrow> runs srv p t db out db'"
    and "PathValue r ''source'' \<noteq> [] \<Longrightarrow> v1SourcesDataPatch srv r db = (out, db') \<Longrightarrow> runs srv p t db out db'"
    and "PathValue r ''source'' \<noteq> [] \<Longrightarrow> v1SourcesDataDelete srv r db = (out, db') \<Longrightarrow> runs srv p t db out db'"
    and "PathValue r ''stack'' \<noteq> [] \<Longrightarrow> v1StacksPut srv r db = (out, db') \<Longrightarrow> runs srv p t db out db'"
    and "PathValue r ''stack'' \<noteq> [] \<Longrightarrow> v1StacksDelete srv r db = (out, db') \<Longrightarrow> runs srv p t db out db'"
    and "PathValue r ''secret'' \<noteq> [] \<Longrightarrow> v1SecretsPut srv r db = (out, db') \<Longrightarrow> runs srv p t db out db'"
    and "PathValue r ''secret'' \<noteq> [] \<Longrightarrow> v1SecretsDelete srv r db = (out, db') \<Longrightarrow> runs srv p t db out db'"
proof -
  show "runs srv p t db out db'" if "PathValue r ''bundle'' \<noteq> []" "v1BundlesDelete srv r db = (out, db')"
    by (rule runs_drop [where op = DropBundle, OF _ assms that(1)]) (use that(2) in \<open>simp_all add: v1BundlesDelete_def\<close>)
  show "runs srv p t db out db'" if "PathValue r ''source'' \<noteq> []" "v1SourcesDelete srv r db = (out, db')"
    by (rule runs_drop [where op = DropSource, OF _ assms that(1)]) (use that(2) in \<open>simp_all add: v1SourcesDelete_def\<close>)
  show "runs srv p t db out db'" if "PathValue r ''source'' \<noteq> []" "v1SourcesDataDelete srv r db = (out, db')"
    by (rule runs_drop [where op = "\<lambda>n. DropData n (data_path r)", OF _ assms that(1)]) (use that(2) in \<open>simp_all add: v1SourcesDataDelete_def\<close>)
  show "runs srv p t db out db'" if "PathValue r ''stack'' \<noteq> []" "v1StacksDelete srv r db = (out, db')"
    by (rule runs_drop [where op = DropStack, OF _ assms that(1)]) (use that(2) in \<open>simp_all add: v1StacksDelete_def\<close>)
  show "runs srv p t db out db'" if "PathValue r ''secret'' \<noteq> []" "v1SecretsDelete srv r db = (out, db')"
    by (rule runs_drop [where op = DropSecret, OF _ assms that(1)]) (use that(2) in \<open>simp_all add: v1SecretsDelete_def\<close>)
  show "runs srv p t db out db'" if "PathValue r ''bundle'' \<noteq> []" "v1BundlesPut srv r db = (out, db')"
    by (rule runs_put [where op = "\<lambda>n b. PutBundle (b\<lparr>bun_Name := n\<rparr>)" and
          answer_of = "\<lambda>(n, b, p, t, db). written r (UpsertBundle (srv_db srv) p t (b\<lparr>bun_Name := n\<rparr>) db)", OF _ assms that(1)])
      (use that(2) in \<open>auto simp: v1BundlesPut_def dest: written_state\<close>)
  show "runs srv p t db out db'" if "PathValue r ''source'' \<noteq> []" "v1SourcesPut srv r db = (out, db')"
    by (rule runs_put [where op = "\<lambda>n s. PutSource (s\<lparr>src_Name := n\<rparr>)" and
          answer_of = "\<lambda>(n, s, p, t, db). written r (UpsertSource (srv_db srv) (lib_files (srv_lib srv)) p t (s\<lparr>src_Name := n\<rparr>) db)", OF _ assms that(1)])
      (use that(2) in \<open>auto simp: v1SourcesPut_def dest: written_state\<close>)
  show "runs srv p t db out db'" if "PathValue r ''source'' \<noteq> []" "v1SourcesDataPut srv r db = (out, db')"
    by (rule runs_put [where op = "\<lambda>n v. PutData n (data_path r) v" and
          answer_of = "\<lambda>(n, v, p, t, db). written r (SourcesDataPut (srv_db srv) n (data_path r) v p t db)", OF _ assms that(1)])
      (use that(2) in \<open>auto simp: v1SourcesDataPut_def dest: written_state\<close>)
  show "runs srv p t db out db'" if "PathValue r ''source'' \<noteq> []" "v1SourcesDataPatch srv r db = (out, db')"
    by (rule runs_put [where op = "\<lambda>n ops. PatchData (jsonpatch_Apply (lib_kind (srv_lib srv)) (lib_apply (srv_lib srv)) ops) n (data_path r)" and
          answer_of = "\<lambda>(n, ops, p, t, db). case SourcesDataPatch (srv_db srv) (jsonpatch_Apply (lib_kind (srv_lib srv)) (lib_apply (srv_lib srv)) ops) n (data_path r) p t db of
         (Some (PatchError m), db) \<Rightarrow> (bad_request m, db) | x \<Rightarrow> written r x", OF _ assms that(1)])
      (use that(2) in \<open>auto simp: v1SourcesDataPatch_def dest: patch_state\<close>)
  show "runs srv p t db out db'" if "PathValue r ''stack'' \<noteq> []" "v1StacksPut srv r db = (out, db')"
    by (rule runs_put [where op = "\<lambda>n s. PutStack (s\<lparr>stk_Name := n\<rparr>)" and
          answer_of = "\<lambda>(n, s, p, t, db). written r (UpsertStack (srv_db srv) p t (s\<lparr>stk_Name := n\<rparr>) db)", OF _ assms that(1)])
      (use that(2) in \<open>auto simp: v1StacksPut_def dest: written_state\<close>)
  show "runs srv p t db out db'" if "PathValue r ''secret'' \<noteq> []" "v1SecretsPut srv r db = (out, db')"
    by (rule runs_put [where op = "\<lambda>n s. PutSecret (s\<lparr>sec_Name := n\<rparr>)" and
          answer_of = "\<lambda>(n, s, p, t, db). written r (UpsertSecret (srv_db srv) p t (s\<lparr>sec_Name := n\<rparr>) db)", OF _ assms that(1)])
      (use that(2) in \<open>auto simp: v1SecretsPut_def dest: written_state\<close>)
qed

subsection \<open>Routing\<close>

definition plain_prefix :: "('b, 'p, 'g) server \<Rightarrow> bool" where
  "plain_prefix srv \<longleftrightarrow> CHR ''{'' \<notin> set (srv_apiPrefix srv)"

lemma split_on_subset: "w \<in> set (split_on c s) \<Longrightarrow> set w \<subseteq> set s"
proof (induction s arbitrary: w)
  case (Cons x s)
  then show ?case by (auto split: if_splits list.splits) blast+
qed simp

lemma parse_pattern_prefix:
  assumes "CHR ''{'' \<notin> set pre"
  shows "parse_pattern (pre @ CHR ''/'' # q) = map Literal (tl (split_on CHR ''/'' pre)) @ map parse_segment (split_on CHR ''/'' q)"
proof -
  have "parse_segment w = Literal w" if "w \<in> set (tl (split_on CHR ''/'' pre))" for w
  proof -
    have "w \<in> set (split_on CHR ''/'' pre)" using that by (simp add: list.set_sel(2))
    from split_on_subset [OF this] assms have "CHR ''{'' \<notin> set w" by blast
    then show ?thesis by (cases w) (auto simp: parse_segment_def)
  qed
  then have "map parse_segment (tl (split_on CHR ''/'' pre)) = map Literal (tl (split_on CHR ''/'' pre))" by simp
  then show ?thesis by (simp add: parse_pattern_def split_on_append)
qed

lemma match_literals:
  "match_segments (map Literal ls @ ps) ws = Some vs \<Longrightarrow> \<exists>ws'. match_segments ps ws' = Some vs"
proof (induction ls arbitrary: ws)
  case (Cons l ls)
  then show ?case by (cases ws) (auto split: if_splits)
qed auto

lemma match_wildcard:
  assumes "match_segments (Literal a # Literal b # Wildcard k # ps) ws = Some vs"
  shows "map_of vs k \<noteq> None \<and> map_of vs k \<noteq> Some []"
proof -
  from assms obtain x ws1 where 1: "match_segments (Literal b # Wildcard k # ps) ws1 = Some vs"
    by (cases ws) (simp_all split: if_splits)
  then obtain y ws2 where 2: "match_segments (Wildcard k # ps) ws2 = Some vs"
    by (cases ws1) (simp_all split: if_splits)
  then obtain w ws3 vs' where "w \<noteq> []" "vs = (k, unescaped w) # vs'"
    by (cases ws2) (auto split: if_splits)
  then show ?thesis using unescaped_nonempty by simp
qed

lemma route_name:
  assumes "plain_prefix srv" and "match_route (setup_route srv m pat h) r = Some vs"
    and "pat = CHR ''/'' # q" and "map parse_segment (split_on CHR ''/'' q) = Literal a # Literal b # Wildcard k # ps"
  shows "PathValue (r\<lparr>rq_values := vs, rq_auth := au\<rparr>) k \<noteq> []"
proof -
  have "match_segments (map Literal (tl (split_on CHR ''/'' (srv_apiPrefix srv))) @ Literal a # Literal b # Wildcard k # ps)
      (tl (split_on CHR ''/'' (rq_path r))) = Some vs"
    using assms parse_pattern_prefix [of "srv_apiPrefix srv" q] by (simp add: match_route_def setup_route_def plain_prefix_def)
  from match_literals [OF this] obtain ws' where "match_segments (Literal a # Literal b # Wildcard k # ps) ws' = Some vs" by blast
  from match_wildcard [OF this] show ?thesis by (auto simp: PathValue_def)
qed

lemma api_patterns:
  "map parse_segment (split_on CHR ''/'' ''v1/bundles/{bundle}'') = Literal ''v1'' # Literal ''bundles'' # Wildcard ''bundle'' # []"
  "map parse_segment (split_on CHR ''/'' ''v1/sources/{source}'') = Literal ''v1'' # Literal ''sources'' # Wildcard ''source'' # []"
  "map parse_segment (split_on CHR ''/'' ''v1/stacks/{stack}'') = Literal ''v1'' # Literal ''stacks'' # Wildcard ''stack'' # []"
  "map parse_segment (split_on CHR ''/'' ''v1/secrets/{secret}'') = Literal ''v1'' # Literal ''secrets'' # Wildcard ''secret'' # []"
  "map parse_segment (split_on CHR ''/'' ''v1/sources/{source}/data/{path...}'') =
     Literal ''v1'' # Literal ''sources'' # Wildcard ''source'' # [Literal ''data'', Remainder ''path'']"
  by code_simp+

text \<open>A route with its handler behind the middleware.\<close>

lemma middleware_cases:
  assumes "rt_handler (setup_route srv m pat h) r db = (out, db')"
  shows "(out = Unauthorized \<and> db' = db \<and> (\<forall>key. extractBearerToken r = Some key \<longrightarrow> GetPrincipalID key db = None)) \<or>
    (\<exists>key p. extractBearerToken r = Some key \<and> GetPrincipalID key db = Some p \<and> h (r\<lparr>rq_auth := Some (p, defaultTenant)\<rparr>) db = (out, db'))"
  using assms by (auto simp: setup_route_def Chain_then_def InstrumentHandler_def authenticationMiddleware_def split: option.splits)

definition handler_ok :: "('b, 'p, 'g) server \<Rightarrow> ('b, 'g) route \<Rightarrow> bool" where
  "handler_ok srv rt \<longleftrightarrow> (\<forall>r vs db out db'. match_route rt r = Some vs \<longrightarrow> rt_handler rt (r\<lparr>rq_values := vs\<rparr>) db = (out, db') \<longrightarrow>
     (out = Unauthorized \<and> db' = db) \<or>
     (\<exists>key p. extractBearerToken r = Some key \<and> GetPrincipalID key db = Some p \<and> runs srv p defaultTenant db out db'))"

lemma handler_okI:
  fixes srv :: "('b, 'p, 'g) server"
  assumes "\<And>r vs p db out db'. match_route (setup_route srv m pat h) r = Some vs \<Longrightarrow>
      h (r\<lparr>rq_values := vs, rq_auth := Some (p, defaultTenant)\<rparr>) db = (out, db') \<Longrightarrow> runs srv p defaultTenant db out db'"
  shows "handler_ok srv (setup_route srv m pat h)"
  unfolding handler_ok_def
proof (intro allI impI)
  fix r vs db out db'
  assume m: "match_route (setup_route srv m pat h) r = Some vs" and h: "rt_handler (setup_route srv m pat h) (r\<lparr>rq_values := vs\<rparr>) db = (out, db')"
  have e: "extractBearerToken (r\<lparr>rq_values := vs\<rparr>) = extractBearerToken r" by (simp add: extractBearerToken_def)
  from middleware_cases [OF h, unfolded e] show "(out = Unauthorized \<and> db' = db) \<or>
     (\<exists>key p. extractBearerToken r = Some key \<and> GetPrincipalID key db = Some p \<and> runs srv p defaultTenant db out db')"
    using assms [OF m] by auto
qed

lemma handler_ok_name:
  fixes srv :: "('b, 'p, 'g) server"
  assumes "plain_prefix srv" and "pat = CHR ''/'' # q" and "map parse_segment (split_on CHR ''/'' q) = Literal a # Literal b # Wildcard k # ps"
    and "\<And>r p t db out db'. rq_auth r = Some (p, t) \<Longrightarrow> PathValue r k \<noteq> [] \<Longrightarrow> h r db = (out, db') \<Longrightarrow> runs srv p t db out db'"
  shows "handler_ok srv (setup_route srv m pat h)"
  by (rule handler_okI, rule assms(4)) (use route_name [OF assms(1) _ assms(2,3)] in simp_all)

lemma handler_ok_read:
  fixes srv :: "('b, 'p, 'g) server"
  assumes "\<And>r db out db'. h r db = (out, db') \<Longrightarrow> db' = db"
  shows "handler_ok srv (setup_route srv m pat h)"
  by (rule handler_okI) (use assms in \<open>auto simp: runs_def\<close>)

lemma read_handlers:
  "v1BundlesList srv r db = (out, db') \<Longrightarrow> db' = db" "v1SourcesList srv r db = (out, db') \<Longrightarrow> db' = db"
  "v1StacksList srv r db = (out, db') \<Longrightarrow> db' = db" "v1SecretsList srv r db = (out, db') \<Longrightarrow> db' = db"
  "v1BundlesGet srv r db = (out, db') \<Longrightarrow> db' = db" "v1SourcesGet srv r db = (out, db') \<Longrightarrow> db' = db"
  "v1StacksGet srv r db = (out, db') \<Longrightarrow> db' = db" "v1SecretsGet srv r db = (out, db') \<Longrightarrow> db' = db"
  "v1SourcesDataGet srv r db = (out, db') \<Longrightarrow> db' = db"
  unfolding v1BundlesList_def v1SourcesList_def v1StacksList_def v1SecretsList_def
    v1BundlesGet_def v1SourcesGet_def v1StacksGet_def v1SecretsGet_def v1SourcesDataGet_def
  by (erule read_only read_only_named)+

lemma api_handlers_ok:
  fixes srv :: "('b, 'p, 'g) server"
  assumes "plain_prefix srv" and "rt \<in> set (api_routes srv)"
  shows "handler_ok srv rt"
proof -
  note put = handler_ok_name [OF assms(1)]
  have puts:
    "handler_ok srv (setup_route srv m ''/v1/bundles/{bundle}'' (v1BundlesPut srv))"
    "handler_ok srv (setup_route srv m ''/v1/bundles/{bundle}'' (v1BundlesDelete srv))"
    "handler_ok srv (setup_route srv m ''/v1/sources/{source}'' (v1SourcesPut srv))"
    "handler_ok srv (setup_route srv m ''/v1/sources/{source}'' (v1SourcesDelete srv))"
    "handler_ok srv (setup_route srv m ''/v1/sources/{source}/data/{path...}'' (v1SourcesDataPut srv))"
    "handler_ok srv (setup_route srv m ''/v1/sources/{source}/data/{path...}'' (v1SourcesDataPatch srv))"
    "handler_ok srv (setup_route srv m ''/v1/sources/{source}/data/{path...}'' (v1SourcesDataDelete srv))"
    "handler_ok srv (setup_route srv m ''/v1/stacks/{stack}'' (v1StacksPut srv))"
    "handler_ok srv (setup_route srv m ''/v1/stacks/{stack}'' (v1StacksDelete srv))"
    "handler_ok srv (setup_route srv m ''/v1/secrets/{secret}'' (v1SecretsPut srv))"
    "handler_ok srv (setup_route srv m ''/v1/secrets/{secret}'' (v1SecretsDelete srv))" for m
    by (rule put [OF refl api_patterns(1)], rule handlers_run(1), assumption+)
      (rule put [OF refl api_patterns(1)], rule handlers_run(2), assumption+,
       rule put [OF refl api_patterns(2)], rule handlers_run(3), assumption+,
       rule put [OF refl api_patterns(2)], rule handlers_run(4), assumption+,
       rule put [OF refl api_patterns(5)], rule handlers_run(5), assumption+,
       rule put [OF refl api_patterns(5)], rule handlers_run(6), assumption+,
       rule put [OF refl api_patterns(5)], rule handlers_run(7), assumption+,
       rule put [OF refl api_patterns(3)], rule handlers_run(8), assumption+,
       rule put [OF refl api_patterns(3)], rule handlers_run(9), assumption+,
       rule put [OF refl api_patterns(4)], rule handlers_run(10), assumption+,
       rule put [OF refl api_patterns(4)], rule handlers_run(11), assumption+)
  have lists: "handler_ok srv (setup_route srv m pat (v1BundlesList srv))" "handler_ok srv (setup_route srv m pat (v1SourcesList srv))"
    "handler_ok srv (setup_route srv m pat (v1StacksList srv))" "handler_ok srv (setup_route srv m pat (v1SecretsList srv))" for m pat
    by (rule handler_ok_read, erule read_handlers)+
  have gets: "handler_ok srv (setup_route srv m pat (v1BundlesGet srv))" "handler_ok srv (setup_route srv m pat (v1SourcesGet srv))"
    "handler_ok srv (setup_route srv m pat (v1StacksGet srv))" "handler_ok srv (setup_route srv m pat (v1SecretsGet srv))"
    "handler_ok srv (setup_route srv m pat (v1SourcesDataGet srv))" for m pat
    by (rule handler_ok_read, erule read_handlers)+
  have "list_all (handler_ok srv) (api_routes srv)"
    by (simp only: api_routes_def list.pred_inject puts lists gets simp_thms)
  with assms(2) show ?thesis by (simp add: list_all_iff)
qed

lemma public_handlers: "rt \<in> set (public_routes srv) \<Longrightarrow> rt_handler rt r db = (out, db') \<Longrightarrow> db' = db"
  by (auto simp: public_routes_def health_def split: option.splits)

lemma find_SomeD: "find P xs = Some x \<Longrightarrow> x \<in> set xs \<and> P x"
  by (induction xs) (auto split: if_splits)

text \<open>A request, from end to end.\<close>

lemma serve_runs:
  fixes srv :: "('b, 'p, 'g) server"
  assumes "serve srv r db = (out, db')" and "plain_prefix srv"
  shows "db' = db \<or> (\<exists>key p. extractBearerToken r = Some key \<and> GetPrincipalID key db = Some p \<and> runs srv p defaultTenant db out db')"
proof (cases "find (\<lambda>rt. match_route rt r \<noteq> None \<and> method_matches rt r) (Init srv)")
  case None
  with assms(1) show ?thesis by (simp add: serve_def)
next
  case (Some rt)
  then have rt: "rt \<in> set (public_routes srv) \<or> rt \<in> set (api_routes srv)" and m: "match_route rt r \<noteq> None"
    using find_SomeD [OF Some] by (auto simp: Init_def)
  then obtain vs where vs: "match_route rt r = Some vs" by blast
  with Some assms(1) have h: "rt_handler rt (r\<lparr>rq_values := vs\<rparr>) db = (out, db')" by (simp add: serve_def)
  from rt show ?thesis
  proof
    assume "rt \<in> set (public_routes srv)"
    from public_handlers [OF this h] show ?thesis by simp
  next
    assume "rt \<in> set (api_routes srv)"
    from api_handlers_ok [OF assms(2) this] vs h show ?thesis unfolding handler_ok_def by blast
  qed
qed

subsection \<open>Who may change what\<close>




text \<open>
  The options of a list have a limit of at most 100 that is not zero, whatever the query says, and it
  is negative exactly when the query asks for a negative number: then the page is not limited at all.
\<close>

theorem listOptions_bounds:
  "lo_Limit (listOptions_of r) \<le> 100 \<and> lo_Limit (listOptions_of r) \<noteq> 0 \<and>
   (lo_Limit (listOptions_of r) < 0 \<longleftrightarrow> (case Atoi (query_Get r ''limit'') of Some n \<Rightarrow> n < 0 | None \<Rightarrow> False)) \<and>
   length (page_of (listOptions_of r) rs) \<le> (if lo_Limit (listOptions_of r) < 0 then length rs else 100) \<and>
   (lo_Limit (listOptions_of r) < 0 \<and> query_Get r ''cursor'' = [] \<longrightarrow> page_of (listOptions_of r) rs = rs)"
proof -
  have 1: "lo_Limit (listOptions_of r) \<le> 100 \<and> lo_Limit (listOptions_of r) \<noteq> 0 \<and>
   (lo_Limit (listOptions_of r) < 0 \<longleftrightarrow> (case Atoi (query_Get r ''limit'') of Some n \<Rightarrow> n < 0 | None \<Rightarrow> False))"
    by (auto simp: listOptions_of_def pageLimitMax_def Let_def split: option.split)
  have 2: "length (page_of (listOptions_of r) rs) \<le> (if lo_Limit (listOptions_of r) < 0 then length rs else 100)"
    using 1 length_filter_le [of _ rs] by (auto simp: page_of_def Let_def)
  have 3: "page_of (listOptions_of r) rs = rs" if "lo_Limit (listOptions_of r) < 0" "query_Get r ''cursor'' = []"
    using that by (simp add: page_of_def cursor_def listOptions_of_def Let_def)
  show ?thesis using 1 2 3 by blast
qed

subsection \<open>Examples\<close>

definition api_db :: db where
  "api_db = guard_db(''tenants'' := [fmap_of_list [(''id'', VInt 1), (''name'', VStr ''default'')]],
     ''tokens'' := [fmap_of_list [(''id'', VInt 1), (''name'', VStr ''adm''), (''api_key'', VStr ''k1'')],
       fmap_of_list [(''id'', VInt 2), (''name'', VStr ''eve''), (''api_key'', VStr ''k2'')]],
     ''secrets'' := [],
     ''sources'' := [fmap_of_list [(''id'', VInt 1), (''name'', VStr ''lib''), (''tenant_id'', VInt 1), (''repo'', VStr [])]])"

definition api_lib :: "(any, string, nat) library" where
  "api_lib = \<lparr>lib_bundle = (\<lambda>b. None), lib_source = (\<lambda>b. None), lib_stack = (\<lambda>b. None),
     lib_secret = (\<lambda>b. Some (named_secret [])), lib_any = Some, lib_patch = (\<lambda>b. None), lib_kind = id, lib_apply = (\<lambda>ps v. None),
     lib_parse = (\<lambda>s. None), lib_files = (\<lambda>s. Inr []), lib_compile = (\<lambda>s. None), lib_rank = (\<lambda>j. 0), lib_metrics = []\<rparr>"

definition api_server :: "(any, string, nat) server" where
  "api_server = \<lparr>srv_db = guard_database Sqlite, srv_readyFn = None, srv_apiPrefix = ''/api'', srv_lib = api_lib\<rparr>"

definition api_request :: "string \<Rightarrow> string \<Rightarrow> string \<Rightarrow> any request" where
  "api_request meth pat auth = \<lparr>rq_method = meth, rq_path = pat, rq_query = [(''limit'', [''-1''])], rq_authorization = auth, rq_body = ANull,
     rq_values = [], rq_auth = None\<rparr>"

definition status_of :: "'g outcome \<Rightarrow> nat" where
  "status_of out = (case out of Respond rs \<Rightarrow> rs_status rs | Panic \<Rightarrow> 0)"




lemma listOptions_bounds_witness:
  "lo_Limit (listOptions_of (api_request ''GET'' ''/api/v1/secrets'' [])) = -1 \<and>
   page_of (listOptions_of (api_request ''GET'' ''/api/v1/secrets'' [])) [fmempty, fmempty] = [fmempty, fmempty]"
proof -
  let ?r = "api_request ''GET'' ''/api/v1/secrets'' []"
  have "lo_Limit (listOptions_of ?r) = -1" "query_Get ?r ''cursor'' = []" by code_simp+
  with listOptions_bounds [of ?r "[fmempty, fmempty]"] show ?thesis by simp
qed

text \<open>
  Names are unescaped twice, by the router and by the handler: a request for the secret named
  \<open>50%\<close> is answered with 400, and one for the secret named \<open>%41\<close> stores a secret named
  \<open>A\<close>. A principal without permission gets 403 for a secret, but 500 for the data of a source.
  Escaped dots in the path of data are kept: the data are stored for a path outside of the source.
\<close>

theorem api_has_gaps:
  "status_of (fst (serve api_server (api_request ''PUT'' ''/api/v1/secrets/50%25'' ''Bearer k1'') api_db)) = 400 \<and>
   map (\<lambda>r. col r ''name'') (snd (serve api_server (api_request ''PUT'' ''/api/v1/secrets/%2541'' ''Bearer k1'') api_db) ''secrets'') = [VStr ''A''] \<and>
   status_of (fst (serve api_server (api_request ''PUT'' ''/api/v1/secrets/x'' ''Bearer k2'') api_db)) = 403 \<and>
   status_of (fst (serve api_server (api_request ''PUT'' ''/api/v1/sources/lib/data/x'' ''Bearer k2'') api_db)) = 500 \<and>
   map (\<lambda>r. col r ''path'') (snd (serve api_server (api_request ''PUT'' ''/api/v1/sources/lib/data/%2e%2e/%2e%2e/x'' ''Bearer k1'') api_db) ''sources_data'') =
     [VStr ''../../x/data.json'']"
  by (intro conjI) code_simp+

end
