(* ===== verification/AuthzCache.thy ===== *)
theory AuthzCache
  imports Authz
begin

text \<open>
  The cache of partial evaluations, from \<open>internal/authz/cache.go\<close>: its key, and \<open>Get\<close> as the
  steps of goroutines over the shared cache. A step is one critical section of the mutex, the call
  of \<open>miss\<close> outside of it, or the receive from the channel \<open>ready\<close>; the steps interleave freely.

  The LRU is a package of its own and a parameter: its \<open>Get\<close> and \<open>Add\<close>, with the entries it holds.
  A \<open>pendingGet\<close> is a number; its value is there once its channel is closed. What \<open>miss\<close> answers
  may differ from call to call: the evaluation runs under the context of the request that missed.
\<close>

subsection \<open>Keys\<close>

type_synonym mappings = "(string \<times> string \<times> string) list"
type_synonym cacheKey = "access \<times> mappings"

definition sorted_mappings :: "mappings \<Rightarrow> mappings" where
  "sorted_mappings m = map (\<lambda>k. (k, the (map_of m k))) (sorted_list_of_set (set (map fst m)))"

definition newCacheKey :: "access \<Rightarrow> mappings \<Rightarrow> cacheKey" where
  "newCacheKey a m = (a, sorted_mappings m)"

lemma map_of_sorted_mappings: "map_of (sorted_mappings m) = map_of m"
proof
  fix k
  show "map_of (sorted_mappings m) k = map_of m k"
  proof (cases "map_of m k")
    case None
    then have "k \<notin> fst ` set m" by (simp add: map_of_eq_None_iff)
    then show ?thesis unfolding None sorted_mappings_def by (subst map_of_map_restrict) simp
  next
    case (Some v)
    then have "k \<in> fst ` set m" by (metis domI dom_map_of_conv_image_fst)
    with Some show ?thesis by (simp add: sorted_mappings_def map_of_map_restrict restrict_map_def)
  qed
qed

lemma sorted_mappings_cong:
  assumes "map_of m = map_of m'"
  shows "sorted_mappings m = sorted_mappings m'"
proof -
  have "set (map fst m) = set (map fst m')"
    unfolding list.set_map dom_map_of_conv_image_fst [symmetric] assms ..
  then show ?thesis unfolding sorted_mappings_def assms by (rule arg_cong)
qed

lemma newCacheKey_iff:
  "newCacheKey a m = newCacheKey a' m' \<longleftrightarrow> a = a' \<and> map_of m = map_of m'"
  unfolding newCacheKey_def prod.inject using map_of_sorted_mappings sorted_mappings_cong by metis

subsection \<open>The cache and its goroutines\<close>

record ('l, 'k, 'v, 'e) cache =
  lru :: 'l
  pending :: "'k \<rightharpoonup> nat"
  ready :: "nat \<rightharpoonup> 'e + 'v"
  allocated :: nat

datatype ('k, 'r) goroutine =
    Start 'k
  | Missing nat 'k
  | Missed nat 'k
  | Waiting nat 'k
  | Returned 'k 'r

definition newCache :: "'l \<Rightarrow> ('l, 'k, 'v, 'e) cache" where
  "newCache l = \<lparr>lru = l, pending = Map.empty, ready = Map.empty, allocated = 0\<rparr>"

text \<open>The first critical section: a hit, a miss of another goroutine to wait for, or a miss.\<close>

definition enter ::
    "('l \<Rightarrow> 'k \<Rightarrow> 'v option \<times> 'l) \<Rightarrow> 'k \<Rightarrow> ('l, 'k, 'v, 'e) cache \<Rightarrow>
     ('l, 'k, 'v, 'e) cache \<times> ('k, 'e + 'v) goroutine" where
  "enter lru_Get key c =
     (let (hit, l) = lru_Get (lru c) key; p = allocated c; c = c\<lparr>lru := l\<rparr> in
      case hit of
        Some v \<Rightarrow> (c\<lparr>ready := (ready c)(p \<mapsto> Inr v), allocated := p + 1\<rparr>, Waiting p key)
      | None \<Rightarrow>
          (case pending c key of
             Some q \<Rightarrow> (c, Waiting q key)
           | None \<Rightarrow> (c\<lparr>pending := (pending c)(key \<mapsto> p), allocated := p + 1\<rparr>, Missing p key)))"

text \<open>The second one, after the miss: errors are not cached.\<close>

definition settle ::
    "('l \<Rightarrow> 'k \<Rightarrow> 'v \<Rightarrow> 'l) \<Rightarrow> nat \<Rightarrow> 'k \<Rightarrow> ('l, 'k, 'v, 'e) cache \<Rightarrow> ('l, 'k, 'v, 'e) cache" where
  "settle lru_Add p key c =
     (let c = c\<lparr>pending := (pending c)(key := None)\<rparr> in
      case ready c p of
        Some (Inr v) \<Rightarrow> c\<lparr>lru := lru_Add (lru c) key v\<rparr>
      | _ \<Rightarrow> c)"

text \<open>One step of a goroutine; \<open>r\<close> is what \<open>miss\<close> answers, if the step is its return.\<close>

fun advance ::
    "('l \<Rightarrow> 'k \<Rightarrow> 'v option \<times> 'l) \<Rightarrow> ('l \<Rightarrow> 'k \<Rightarrow> 'v \<Rightarrow> 'l) \<Rightarrow> 'e + 'v \<Rightarrow>
     ('k, 'e + 'v) goroutine \<Rightarrow> ('l, 'k, 'v, 'e) cache \<Rightarrow>
     (('l, 'k, 'v, 'e) cache \<times> ('k, 'e + 'v) goroutine) option" where
  "advance lru_Get lru_Add r (Start key) c = Some (enter lru_Get key c)"
| "advance lru_Get lru_Add r (Missing p key) c = Some (c\<lparr>ready := (ready c)(p \<mapsto> r)\<rparr>, Missed p key)"
| "advance lru_Get lru_Add r (Missed p key) c = Some (settle lru_Add p key c, Waiting p key)"
| "advance lru_Get lru_Add r (Waiting p key) c = map_option (\<lambda>v. (c, Returned key v)) (ready c p)"
| "advance lru_Get lru_Add r (Returned key v) c = None"

type_synonym ('l, 'k, 'v, 'e) system = "('l, 'k, 'v, 'e) cache \<times> ('k, 'e + 'v) goroutine list"

definition run_goroutine ::
    "('l \<Rightarrow> 'k \<Rightarrow> 'v option \<times> 'l) \<Rightarrow> ('l \<Rightarrow> 'k \<Rightarrow> 'v \<Rightarrow> 'l) \<Rightarrow> nat \<Rightarrow> 'e + 'v \<Rightarrow>
     ('l, 'k, 'v, 'e) system \<Rightarrow> ('l, 'k, 'v, 'e) system option" where
  "run_goroutine lru_Get lru_Add t r s =
     (if t < length (snd s)
      then map_option (\<lambda>(c, g). (c, (snd s)[t := g])) (advance lru_Get lru_Add r (snd s ! t) (fst s))
      else None)"

fun run_schedule where
  "run_schedule lru_Get lru_Add [] s = Some s"
| "run_schedule lru_Get lru_Add ((t, r) # sch) s =
     Option.bind (run_goroutine lru_Get lru_Add t r s) (run_schedule lru_Get lru_Add sch)"

fun goroutine_key :: "('k, 'r) goroutine \<Rightarrow> 'k" where
  "goroutine_key (Start k) = k"
| "goroutine_key (Missing p k) = k"
| "goroutine_key (Missed p k) = k"
| "goroutine_key (Waiting p k) = k"
| "goroutine_key (Returned k r) = k"

text \<open>The systems that some interleaving reaches in \<open>n\<close> steps, with answers of \<open>miss\<close> as allowed.\<close>

inductive reachable ::
    "('l \<Rightarrow> 'k \<Rightarrow> 'v option \<times> 'l) \<Rightarrow> ('l \<Rightarrow> 'k \<Rightarrow> 'v \<Rightarrow> 'l) \<Rightarrow> ('k \<Rightarrow> ('e + 'v) set) \<Rightarrow> 'l \<Rightarrow> 'k list \<Rightarrow>
     nat \<Rightarrow> ('l, 'k, 'v, 'e) system \<Rightarrow> bool"
  for lru_Get lru_Add answers l0 ks where
  started: "reachable lru_Get lru_Add answers l0 ks 0 (newCache l0, map Start ks)"
| stepped: "reachable lru_Get lru_Add answers l0 ks n s \<Longrightarrow>
    r \<in> answers (goroutine_key (snd s ! t)) \<Longrightarrow>
    run_goroutine lru_Get lru_Add t r s = Some s' \<Longrightarrow> reachable lru_Get lru_Add answers l0 ks (Suc n) s'"

text \<open>What is relied on of the LRU: a hit is an entry, and adding one brings in no other.\<close>

definition lru_laws ::
    "('l \<Rightarrow> 'k \<Rightarrow> 'v option \<times> 'l) \<Rightarrow> ('l \<Rightarrow> 'k \<Rightarrow> 'v \<Rightarrow> 'l) \<Rightarrow> ('l \<Rightarrow> 'k \<rightharpoonup> 'v) \<Rightarrow> bool" where
  "lru_laws lru_Get lru_Add entries \<longleftrightarrow>
     (\<forall>l k. fst (lru_Get l k) = entries l k \<and> entries (snd (lru_Get l k)) = entries l) \<and>
     (\<forall>l k v. entries (lru_Add l k v) \<subseteq>\<^sub>m (entries l)(k \<mapsto> v))"

subsection \<open>The invariant\<close>

definition in_flight :: "nat \<Rightarrow> 'k \<Rightarrow> ('k, 'r) goroutine \<Rightarrow> bool" where
  "in_flight p k g \<longleftrightarrow> g = Missing p k \<or> g = Missed p k"

fun goroutine_ok :: "('k \<Rightarrow> ('e + 'v) set) \<Rightarrow> ('l, 'k, 'v, 'e) cache \<Rightarrow> ('k, 'e + 'v) goroutine \<Rightarrow> bool" where
  "goroutine_ok answers c (Start k) \<longleftrightarrow> True"
| "goroutine_ok answers c (Missing p k) \<longleftrightarrow> pending c k = Some p \<and> ready c p = None"
| "goroutine_ok answers c (Missed p k) \<longleftrightarrow> pending c k = Some p \<and> (\<exists>r \<in> answers k. ready c p = Some r)"
| "goroutine_ok answers c (Waiting p k) \<longleftrightarrow>
     (case ready c p of None \<Rightarrow> pending c k = Some p | Some r \<Rightarrow> r \<in> answers k) \<and> p < allocated c"
| "goroutine_ok answers c (Returned k r) \<longleftrightarrow> r \<in> answers k"

definition cache_ok ::
    "('l \<Rightarrow> 'k \<rightharpoonup> 'v) \<Rightarrow> ('k \<Rightarrow> ('e + 'v) set) \<Rightarrow> ('l, 'k, 'v, 'e) cache \<Rightarrow> bool" where
  "cache_ok entries answers c \<longleftrightarrow>
     (\<forall>k v. entries (lru c) k = Some v \<longrightarrow> Inr v \<in> answers k) \<and>
     (\<forall>k p. pending c k = Some p \<longrightarrow> p < allocated c) \<and>
     (\<forall>k k' p. pending c k = Some p \<longrightarrow> pending c k' = Some p \<longrightarrow> k = k') \<and>
     (\<forall>p r. ready c p = Some r \<longrightarrow> p < allocated c)"

definition system_ok where
  "system_ok entries answers s \<longleftrightarrow>
     cache_ok entries answers (fst s) \<and>
     (\<forall>i < length (snd s). goroutine_ok answers (fst s) (snd s ! i)) \<and>
     (\<forall>k p. pending (fst s) k = Some p \<longrightarrow> (\<exists>i < length (snd s). in_flight p k (snd s ! i))) \<and>
     (\<forall>i < length (snd s). \<forall>j < length (snd s). \<forall>p q k.
        in_flight p k (snd s ! i) \<longrightarrow> in_flight q k (snd s ! j) \<longrightarrow> i = j)"

lemma in_flight_simps [simp]:
  "\<not> in_flight p k (Start k')" "\<not> in_flight p k (Waiting q k')" "\<not> in_flight p k (Returned k' r)"
  "in_flight p k (Missing q k') \<longleftrightarrow> q = p \<and> k' = k" "in_flight p k (Missed q k') \<longleftrightarrow> q = p \<and> k' = k"
  by (auto simp: in_flight_def)

lemma system_ok_update:
  assumes "system_ok entries answers (c, gs)" and "t < length gs"
    and "cache_ok entries answers c'" and "goroutine_ok answers c' g"
    and "\<And>j. j < length gs \<Longrightarrow> j \<noteq> t \<Longrightarrow> goroutine_ok answers c' (gs ! j)"
    and "\<And>k p. pending c' k = Some p \<Longrightarrow> in_flight p k g \<or> (\<exists>j < length gs. j \<noteq> t \<and> in_flight p k (gs ! j))"
    and "\<And>k p q j. j < length gs \<Longrightarrow> j \<noteq> t \<Longrightarrow> in_flight p k g \<Longrightarrow> \<not> in_flight q k (gs ! j)"
  shows "system_ok entries answers (c', gs[t := g])"
  unfolding system_ok_def fst_conv snd_conv length_list_update
proof (intro conjI allI impI)
  show "cache_ok entries answers c'" by fact
next
  fix i assume "i < length gs"
  then show "goroutine_ok answers c' (gs[t := g] ! i)"
    using assms(2,4,5) by (cases "i = t") simp_all
next
  fix k p assume "pending c' k = Some p"
  from assms(6)[OF this] show "\<exists>i<length gs. in_flight p k (gs[t := g] ! i)"
    using assms(2) by (metis nth_list_update_eq nth_list_update_neq)
next
  fix i j p q k
  assume "i < length gs" "j < length gs" "in_flight p k (gs[t := g] ! i)" "in_flight q k (gs[t := g] ! j)"
  moreover have "i = j" if "i \<noteq> t" "j \<noteq> t" "i < length gs" "j < length gs" "in_flight p k (gs ! i)" "in_flight q k (gs ! j)"
    using assms(1) that unfolding system_ok_def by (metis fst_conv snd_conv)
  ultimately show "i = j"
    using assms(2) assms(7)[of i q k p] assms(7)[of j p k q]
    by (cases "i = t"; cases "j = t") simp_all
qed


lemma enter_ok:
  assumes laws: "lru_laws lru_Get lru_Add entries" and ok: "system_ok entries answers (c, gs)"
    and t: "t < length gs" "gs ! t = Start k" and e: "enter lru_Get k c = (c', g)"
  shows "system_ok entries answers (c', gs[t := g])"
proof -
  from ok have c: "cache_ok entries answers c" by (simp add: system_ok_def)
  obtain hit l where get: "lru_Get (lru c) k = (hit, l)" by fastforce
  with laws have l: "hit = entries (lru c) k" "entries l = entries (lru c)"
    unfolding lru_laws_def by (metis fst_conv, metis snd_conv)
  have others: "goroutine_ok answers c (gs ! j)" if "j < length gs" for j
    using ok that by (simp add: system_ok_def)
  have covered: "\<exists>j < length gs. j \<noteq> t \<and> in_flight p k' (gs ! j)" if "pending c k' = Some p" for k' p
  proof -
    have "\<exists>j < length gs. in_flight p k' (gs ! j)"
      using ok that by (simp add: system_ok_def)
    with t show ?thesis by (metis in_flight_simps(1))
  qed
  let ?p = "allocated c"
  have fresh: "pending c k' \<noteq> Some ?p" "ready c ?p = None" for k'
    using c unfolding cache_ok_def by (metis nat_neq_iff, metis nat_neq_iff not_Some_eq)
  show ?thesis
  proof (cases hit)
    case (Some v)
    with e get have e': "c' = c\<lparr>lru := l, ready := (ready c)(?p \<mapsto> Inr v), allocated := ?p + 1\<rparr>" "g = Waiting ?p k"
      by (simp_all add: enter_def Let_def)
    show ?thesis
    proof (rule system_ok_update [OF ok t(1)])
      show "cache_ok entries answers c'"
        using c l Some unfolding cache_ok_def e' by (auto simp: less_Suc_eq)
      show "goroutine_ok answers c' g"
        using c l Some unfolding cache_ok_def e' by simp
      show "goroutine_ok answers c' (gs ! j)" if "j < length gs" "j \<noteq> t" for j
        using others [OF that(1)] fresh unfolding e'
        by (cases "gs ! j") (auto split: option.splits)
    qed (use covered in \<open>auto simp: e'\<close>)
  next
    case None
    show ?thesis
    proof (cases "pending c k")
      case (Some q)
      with e get None have e': "c' = c\<lparr>lru := l\<rparr>" "g = Waiting q k"
        by (simp_all add: enter_def Let_def)
      obtain j where j: "j < length gs" "in_flight q k (gs ! j)"
        using covered [OF Some] by blast
      show ?thesis
      proof (rule system_ok_update [OF ok t(1)])
        show "cache_ok entries answers c'"
          using c l unfolding cache_ok_def e' by simp
        show "goroutine_ok answers c' g"
          using c others [OF j(1)] j(2) Some unfolding cache_ok_def e'
          by (cases "gs ! j") auto
        show "goroutine_ok answers c' (gs ! i)" if "i < length gs" "i \<noteq> t" for i
          using others [OF that(1)] unfolding e' by (cases "gs ! i") (auto split: option.splits)
      qed (use covered in \<open>auto simp: e'\<close>)
    next
      case None': None
      with e get None have e': "c' = c\<lparr>lru := l, pending := (pending c)(k \<mapsto> ?p), allocated := ?p + 1\<rparr>" "g = Missing ?p k"
        by (simp_all add: enter_def Let_def)
      show ?thesis
      proof (rule system_ok_update [OF ok t(1)])
        show "cache_ok entries answers c'"
          using c l fresh unfolding cache_ok_def e' by (auto simp: less_Suc_eq)
        show "goroutine_ok answers c' g"
          using fresh unfolding e' by simp
        show "goroutine_ok answers c' (gs ! i)" if "i < length gs" "i \<noteq> t" for i
          using others [OF that(1)] None' unfolding e' by (cases "gs ! i") (auto split: option.splits)
        show "\<not> in_flight q k' (gs ! i)" if "i < length gs" "i \<noteq> t" "in_flight p k' g" for k' p q i
          using others [OF that(1)] None' that(3) unfolding e' by (cases "gs ! i") auto
        show "in_flight p k' g \<or> (\<exists>j<length gs. j \<noteq> t \<and> in_flight p k' (gs ! j))"
          if "pending c' k' = Some p" for k' p
          using covered that by (auto simp: e' split: if_splits)
      qed
    qed
  qed
qed


lemma miss_ok:
  assumes ok: "system_ok entries answers (c, gs)" and t: "t < length gs" "gs ! t = Missing p k"
    and r: "r \<in> answers k"
  shows "system_ok entries answers (c\<lparr>ready := (ready c)(p \<mapsto> r)\<rparr>, gs[t := Missed p k])"
proof (rule system_ok_update [OF ok t(1)])
  from ok have c: "cache_ok entries answers c" by (simp add: system_ok_def)
  have here: "pending c k = Some p" "ready c p = None"
    using ok t unfolding system_ok_def by (metis fst_conv goroutine_ok.simps(2) snd_conv)+
  have owner: "k' = k" if "pending c k' = Some p" for k'
    using c here(1) that unfolding cache_ok_def by blast
  have single: "j = t" if "j < length gs" "in_flight q k (gs ! j)" for j q
    using ok t that unfolding system_ok_def by (metis fst_conv snd_conv in_flight_simps(4))
  show "cache_ok entries answers (c\<lparr>ready := (ready c)(p \<mapsto> r)\<rparr>)"
    using c here unfolding cache_ok_def by auto
  show "goroutine_ok answers (c\<lparr>ready := (ready c)(p \<mapsto> r)\<rparr>) (Missed p k)"
    using here r by simp
  show "goroutine_ok answers (c\<lparr>ready := (ready c)(p \<mapsto> r)\<rparr>) (gs ! j)" if j: "j < length gs" "j \<noteq> t" for j
  proof -
    have "goroutine_ok answers c (gs ! j)"
      using ok j by (simp add: system_ok_def)
    then show ?thesis
      using single [OF j(1)] j(2) r here by (cases "gs ! j") (auto split: option.splits dest: owner)
  qed
  show "in_flight q k' (Missed p k) \<or> (\<exists>j<length gs. j \<noteq> t \<and> in_flight q k' (gs ! j))"
    if "pending (c\<lparr>ready := (ready c)(p \<mapsto> r)\<rparr>) k' = Some q" for k' q
  proof -
    have "\<exists>j<length gs. in_flight q k' (gs ! j)"
      using ok that by (simp add: system_ok_def)
    with t show ?thesis by (metis in_flight_simps(4,5))
  qed
  show "\<not> in_flight q k' (gs ! j)" if "j < length gs" "j \<noteq> t" "in_flight p' k' (Missed p k)" for k' p' q j
    using single [OF that(1)] that by auto
qed

lemma settle_ok:
  assumes laws: "lru_laws lru_Get lru_Add entries" and ok: "system_ok entries answers (c, gs)"
    and t: "t < length gs" "gs ! t = Missed p k"
  shows "system_ok entries answers (settle lru_Add p k c, gs[t := Waiting p k])"
proof -
  from ok have c: "cache_ok entries answers c" by (simp add: system_ok_def)
  have "goroutine_ok answers c (Missed p k)"
    using ok t unfolding system_ok_def by (metis fst_conv snd_conv)
  then obtain r where here: "pending c k = Some p" "ready c p = Some r" "r \<in> answers k" by auto
  have single: "j = t" if "j < length gs" "in_flight q k (gs ! j)" for j q
    using ok t that unfolding system_ok_def by (metis fst_conv snd_conv in_flight_simps(5))
  obtain l where l: "settle lru_Add p k c = c\<lparr>pending := (pending c)(k := None), lru := l\<rparr>"
    and entries: "\<And>k' v. entries l k' = Some v \<Longrightarrow> Inr v \<in> answers k'"
  proof (cases r)
    case (Inl e)
    show ?thesis
    proof (rule that)
      show "settle lru_Add p k c = c\<lparr>pending := (pending c)(k := None), lru := lru c\<rparr>"
        using here Inl by (simp add: settle_def Let_def)
    qed (use c in \<open>auto simp: cache_ok_def\<close>)
  next
    case (Inr v)
    show ?thesis
    proof (rule that)
      show "settle lru_Add p k c = c\<lparr>pending := (pending c)(k := None), lru := lru_Add (lru c) k v\<rparr>"
        using here Inr by (simp add: settle_def Let_def)
    next
      fix k' w assume "entries (lru_Add (lru c) k v) k' = Some w"
      moreover have "entries (lru_Add (lru c) k v) \<subseteq>\<^sub>m (entries (lru c))(k \<mapsto> v)"
        using laws by (simp add: lru_laws_def)
      ultimately have "((entries (lru c))(k \<mapsto> v)) k' = Some w"
        unfolding map_le_def by (metis domI)
      then show "Inr w \<in> answers k'"
        using c here(3) Inr by (auto simp: cache_ok_def split: if_splits)
    qed
  qed
  show ?thesis
    unfolding l
  proof (rule system_ok_update [OF ok t(1)])
    let ?c = "c\<lparr>pending := (pending c)(k := None), lru := l\<rparr>"
    show "cache_ok entries answers ?c"
      using c entries unfolding cache_ok_def by (auto split: if_splits)
    show "goroutine_ok answers ?c (Waiting p k)"
      using c here unfolding cache_ok_def by simp
    show "goroutine_ok answers ?c (gs ! j)" if j: "j < length gs" "j \<noteq> t" for j
    proof -
      have "goroutine_ok answers c (gs ! j)"
        using ok j by (simp add: system_ok_def)
      then show ?thesis
        using single [OF j(1)] j(2) here by (cases "gs ! j") (auto split: option.splits)
    qed
    show "in_flight q k' (Waiting p k) \<or> (\<exists>j<length gs. j \<noteq> t \<and> in_flight q k' (gs ! j))"
      if "pending ?c k' = Some q" for k' q
    proof -
      from that have k': "k' \<noteq> k" "pending c k' = Some q" by (auto split: if_splits)
      then have "\<exists>j<length gs. in_flight q k' (gs ! j)"
        using ok by (simp add: system_ok_def)
      with t k' show ?thesis by (metis in_flight_simps(5))
    qed
  qed simp
qed

lemma receive_ok:
  assumes ok: "system_ok entries answers (c, gs)" and t: "t < length gs" "gs ! t = Waiting p k"
    and r: "ready c p = Some r"
  shows "system_ok entries answers (c, gs[t := Returned k r])"
proof (rule system_ok_update [OF ok t(1)])
  have "goroutine_ok answers c (Waiting p k)"
    using ok t unfolding system_ok_def by (metis fst_conv snd_conv)
  with r show "goroutine_ok answers c (Returned k r)" by simp
  show "in_flight q k' (Returned k r) \<or> (\<exists>j<length gs. j \<noteq> t \<and> in_flight q k' (gs ! j))"
    if "pending c k' = Some q" for k' q
  proof -
    have "\<exists>j<length gs. in_flight q k' (gs ! j)"
      using ok that by (simp add: system_ok_def)
    with t show ?thesis by (metis in_flight_simps(2))
  qed
qed (use ok in \<open>auto simp: system_ok_def\<close>)

lemma run_goroutine_ok:
  assumes laws: "lru_laws lru_Get lru_Add entries" and ok: "system_ok entries answers s"
    and r: "r \<in> answers (goroutine_key (snd s ! t))" and step: "run_goroutine lru_Get lru_Add t r s = Some s'"
  shows "system_ok entries answers s'"
proof -
  obtain c gs where s: "s = (c, gs)" by (cases s)
  from step s obtain c' g where t: "t < length gs"
    and adv: "advance lru_Get lru_Add r (gs ! t) c = Some (c', g)" and s': "s' = (c', gs[t := g])"
    by (auto simp: run_goroutine_def split: if_splits)
  show ?thesis
  proof (cases "gs ! t")
    case (Start k)
    with adv have "enter lru_Get k c = (c', g)" by simp
    then show ?thesis
      unfolding s' using enter_ok [OF laws _ t Start] ok s by metis
  next
    case (Missing p k)
    with adv r s show ?thesis
      unfolding s' using miss_ok [OF _ t Missing] ok by fastforce
  next
    case (Missed p k)
    with adv show ?thesis
      unfolding s' using settle_ok [OF laws _ t Missed] ok s by fastforce
  next
    case (Waiting p k)
    with adv show ?thesis
      unfolding s' using receive_ok [OF _ t Waiting] ok s by fastforce
  next
    case (Returned k v)
    with adv show ?thesis by simp
  qed
qed

lemma reachable_ok:
  assumes "lru_laws lru_Get lru_Add entries" and "entries l0 = Map.empty"
    and "reachable lru_Get lru_Add answers l0 ks n s"
  shows "system_ok entries answers s"
  using assms(3)
proof induction
  case started
  show ?case
    using assms(2) by (simp add: system_ok_def cache_ok_def newCache_def)
next
  case (stepped n s r t s')
  then show ?case
    using run_goroutine_ok [OF assms(1)] by blast
qed


subsection \<open>What the callers get\<close>

lemma system_answers:
  assumes "system_ok entries answers (c, gs)" and "t < length gs" and "gs ! t = Returned k r"
  shows "r \<in> answers k"
  using assms unfolding system_ok_def by (metis fst_conv snd_conv goroutine_ok.simps(5))

lemma single_flight:
  assumes "system_ok entries answers (c, gs)"
  shows "card {t. t < length gs \<and> (\<exists>p. in_flight p k (gs ! t))} \<le> 1"
proof -
  have "i = j" if "i \<in> {t. t < length gs \<and> (\<exists>p. in_flight p k (gs ! t))}"
      and "j \<in> {t. t < length gs \<and> (\<exists>p. in_flight p k (gs ! t))}" for i j
    using assms that unfolding system_ok_def by auto
  then show ?thesis
    unfolding One_nat_def by (subst card_le_Suc0_iff_eq) (simp, blast)
qed

text \<open>The call: \<open>Partial\<close> asks the cache, and a miss evaluates the request that missed.\<close>

definition Partial_answers ::
    "(access \<Rightarrow> string list \<Rightarrow> string + partial_queries) set \<Rightarrow> columnMapper \<Rightarrow> cacheKey \<Rightarrow>
     (authz_error + expr option) set" where
  "Partial_answers opas defaults key =
     {partial opa defaults a m | opa a m. opa \<in> opas \<and> newCacheKey a m = key}"


lemma advance_key: "advance lru_Get lru_Add r g c = Some (c', g') \<Longrightarrow> goroutine_key g' = goroutine_key g"
  by (cases g) (auto simp: enter_def Let_def split: prod.splits option.splits)

lemma run_goroutineE:
  assumes "run_goroutine lru_Get lru_Add t r s = Some s'"
  obtains c' g where "t < length (snd s)" "advance lru_Get lru_Add r (snd s ! t) (fst s) = Some (c', g)"
    "s' = (c', (snd s)[t := g])"
  using assms by (auto simp: run_goroutine_def split: if_splits)

lemma reachable_keys:
  assumes "reachable lru_Get lru_Add answers l0 ks n s"
  shows "map goroutine_key (snd s) = ks"
  using assms
proof induction
  case started
  show ?case by (simp add: comp_def)
next
  case (stepped n s r t s')
  from stepped.hyps(3) show ?case
  proof (rule run_goroutineE)
    fix c' g assume t: "t < length (snd s)" "advance lru_Get lru_Add r (snd s ! t) (fst s) = Some (c', g)"
      and s': "s' = (c', (snd s)[t := g])"
    from t have "map goroutine_key (snd s') = (map goroutine_key (snd s))[t := map goroutine_key (snd s) ! t]"
      unfolding s' by (simp add: map_update advance_key)
    with stepped.IH show ?thesis by simp
  qed
qed

text \<open>
  C26: Whatever the interleaving of concurrent calls, a caller gets an evaluation of the access and
  the columns it asked for (in some order of the columns), the LRU holds only successful
  evaluations of their keys, and of each key at most one evaluation runs at a time. An error goes
  to all who wait for it, also when it is due to the context of another request.
\<close>
theorem cache_answers:
  assumes "lru_laws lru_Get lru_Add entries" and "entries l0 = Map.empty"
    and "reachable lru_Get lru_Add (Partial_answers opas defaults) l0 (map (\<lambda>(a, m). newCacheKey a m) calls) n (c, gs)"
  shows "length gs = length calls \<and>
    (\<forall>t < length calls. \<forall>key r a m. gs ! t = Returned key r \<longrightarrow> calls ! t = (a, m) \<longrightarrow>
       (\<exists>opa \<in> opas. \<exists>m'. map_of m' = map_of m \<and> r = partial opa defaults a m')) \<and>
    (\<forall>key e. entries (lru c) key = Some e \<longrightarrow> Inr e \<in> Partial_answers opas defaults key) \<and>
    (\<forall>key. card {t. t < length gs \<and> (\<exists>p. in_flight p key (gs ! t))} \<le> 1)"
proof (intro conjI)
  note keys = reachable_keys [OF assms(3), unfolded snd_conv]
  note ok = reachable_ok [OF assms]
  show len: "length gs = length calls"
    using keys by (metis length_map)
  show "\<forall>t < length calls. \<forall>key r a m. gs ! t = Returned key r \<longrightarrow> calls ! t = (a, m) \<longrightarrow>
      (\<exists>opa \<in> opas. \<exists>m'. map_of m' = map_of m \<and> r = partial opa defaults a m')"
  proof (intro allI impI)
    fix t key r a m
    assume t: "t < length calls" "gs ! t = Returned key r" "calls ! t = (a, m)"
    have "map goroutine_key gs ! t = newCacheKey a m"
      unfolding keys using t by simp
    with t len have "key = newCacheKey a m" by simp
    then have "r \<in> Partial_answers opas defaults (newCacheKey a m)"
      using system_answers [OF ok] t len by simp
    then show "\<exists>opa \<in> opas. \<exists>m'. map_of m' = map_of m \<and> r = partial opa defaults a m'"
      unfolding Partial_answers_def newCacheKey_iff by blast
  qed
  show "\<forall>key e. entries (lru c) key = Some e \<longrightarrow> Inr e \<in> Partial_answers opas defaults key"
    using ok by (simp add: system_ok_def cache_ok_def)
  show "\<forall>key. card {t. t < length gs \<and> (\<exists>p. in_flight p key (gs ! t))} \<le> 1"
    using single_flight [OF ok] by blast
qed

subsection \<open>Every caller returns\<close>

fun steps_left :: "('k, 'r) goroutine \<Rightarrow> nat" where
  "steps_left (Start k) = 4"
| "steps_left (Missing p k) = 3"
| "steps_left (Missed p k) = 2"
| "steps_left (Waiting p k) = 1"
| "steps_left (Returned k r) = 0"

lemma advance_steps: "advance lru_Get lru_Add r g c = Some (c', g') \<Longrightarrow> steps_left g' < steps_left g"
  by (cases g) (auto simp: enter_def Let_def split: prod.splits option.splits)

lemma sum_list_update_less:
  "t < length gs \<Longrightarrow> f g < f (gs ! t) \<Longrightarrow> sum_list (map f (gs[t := g])) < (sum_list (map f gs) :: nat)"
proof (induction gs arbitrary: t)
  case (Cons x gs)
  then show ?case by (cases t) auto
qed simp

lemma reachable_steps:
  assumes "reachable lru_Get lru_Add answers l0 ks n s"
  shows "n + sum_list (map steps_left (snd s)) \<le> 4 * length ks"
  using assms
proof induction
  case started
  show ?case by (simp add: comp_def sum_list_triv)
next
  case (stepped n s r t s')
  from stepped.hyps(3) show ?case
  proof (rule run_goroutineE)
    fix c' g assume t: "t < length (snd s)" "advance lru_Get lru_Add r (snd s ! t) (fst s) = Some (c', g)"
      and s': "s' = (c', (snd s)[t := g])"
    have "sum_list (map steps_left (snd s')) < sum_list (map steps_left (snd s))"
      unfolding s' snd_conv by (rule sum_list_update_less [OF t(1)]) (rule advance_steps [OF t(2)])
    with stepped.IH show ?thesis by simp
  qed
qed

lemma someone_can_advance:
  assumes ok: "system_ok entries answers (c, gs)" and t: "t < length gs" "\<forall>k r. gs ! t \<noteq> Returned k r"
  obtains t' where "t' < length gs" "\<And>r. advance lru_Get lru_Add r (gs ! t') c \<noteq> None"
proof (cases "\<forall>r. advance lru_Get lru_Add r (gs ! t) c \<noteq> None")
  case True
  with t(1) that show ?thesis by blast
next
  case False
  then obtain p k where w: "gs ! t = Waiting p k" "ready c p = None"
    using t(2) by (cases "gs ! t") auto
  have "goroutine_ok answers c (gs ! t)"
    using ok t(1) by (simp add: system_ok_def)
  with w have "pending c k = Some p" by simp
  then obtain j where j: "j < length gs" "in_flight p k (gs ! j)"
    using ok unfolding system_ok_def by (metis fst_conv snd_conv)
  then have "\<And>r. advance lru_Get lru_Add r (gs ! j) c \<noteq> None"
    by (cases "gs ! j") auto
  with j(1) that show ?thesis by blast
qed

text \<open>
  C27: The cache never deadlocks: as long as a caller has not returned, some goroutine can take its
  next step, whatever its evaluation answers, and after at most four steps for each caller all
  have returned.
\<close>
theorem cache_returns:
  assumes "lru_laws lru_Get lru_Add entries" and "entries l0 = Map.empty"
    and "reachable lru_Get lru_Add (Partial_answers opas defaults) l0 (map (\<lambda>(a, m). newCacheKey a m) calls) n (c, gs)"
  shows "n \<le> 4 * length calls \<and>
    ((\<forall>g \<in> set gs. \<exists>key r. g = Returned key r) \<or>
     (\<exists>t < length gs. \<forall>r. run_goroutine lru_Get lru_Add t r (c, gs) \<noteq> None))"
proof (intro conjI)
  show "n \<le> 4 * length calls"
    using reachable_steps [OF assms(3)] by simp
  show "(\<forall>g \<in> set gs. \<exists>key r. g = Returned key r) \<or>
      (\<exists>t < length gs. \<forall>r. run_goroutine lru_Get lru_Add t r (c, gs) \<noteq> None)"
  proof (cases "\<forall>g \<in> set gs. \<exists>key r. g = Returned key r")
    case False
    then obtain t where t: "t < length gs" "\<forall>k r. gs ! t \<noteq> Returned k r"
      by (metis in_set_conv_nth)
    obtain t' where "t' < length gs" "\<And>r. advance lru_Get lru_Add r (gs ! t') c \<noteq> None"
      using someone_can_advance [OF reachable_ok [OF assms] t] by metis
    then show ?thesis
      by (auto simp: run_goroutine_def)
  qed simp
qed

subsection \<open>An LRU of two entries\<close>

text \<open>The most recent entry comes first; a third one pushes the last one out.\<close>

definition list_Get :: "('k \<times> 'v) list \<Rightarrow> 'k \<Rightarrow> 'v option \<times> ('k \<times> 'v) list" where
  "list_Get l k = (case map_of l k of None \<Rightarrow> (None, l) | Some v \<Rightarrow> (Some v, (k, v) # filter (\<lambda>e. fst e \<noteq> k) l))"

definition list_Add :: "('k \<times> 'v) list \<Rightarrow> 'k \<Rightarrow> 'v \<Rightarrow> ('k \<times> 'v) list" where
  "list_Add l k v = take 2 ((k, v) # filter (\<lambda>e. fst e \<noteq> k) l)"

lemma map_of_filter_key: "map_of (filter (\<lambda>e. fst e \<noteq> k) l) k' = (if k' = k then None else map_of l k')"
  by (induction l) auto

lemma map_of_take_le: "map_of (take n l) k = Some v \<Longrightarrow> map_of l k = Some v"
proof (induction l arbitrary: n)
  case (Cons e l)
  then show ?case by (cases n) (auto split: if_splits)
qed simp

lemma list_lru_laws: "lru_laws list_Get list_Add map_of"
  unfolding lru_laws_def
proof (intro conjI allI)
  fix l :: "('a \<times> 'b) list" and k
  show "fst (list_Get l k) = map_of l k"
    by (simp add: list_Get_def split: option.splits)
  show "map_of (snd (list_Get l k)) = map_of l"
    by (auto simp: list_Get_def map_of_filter_key fun_eq_iff split: option.splits)
next
  fix l :: "('a \<times> 'b) list" and k v
  show "map_of (list_Add l k v) \<subseteq>\<^sub>m (map_of l)(k \<mapsto> v)"
    unfolding map_le_def
  proof
    fix k' assume "k' \<in> dom (map_of (list_Add l k v))"
    then obtain w where w: "map_of (list_Add l k v) k' = Some w" by blast
    then have "map_of ((k, v) # filter (\<lambda>e. fst e \<noteq> k) l) k' = Some w"
      unfolding list_Add_def by (rule map_of_take_le)
    with w show "map_of (list_Add l k v) k' = ((map_of l)(k \<mapsto> v)) k'"
      by (auto simp: map_of_filter_key split: if_splits)
  qed
qed


subsection \<open>An example\<close>

text \<open>
  Two requests for the same access. The evaluation of the first ends with an error, as when its
  client has gone away; the second gets that error too, and a third, later, evaluates again.
\<close>

definition cancelled :: "access \<Rightarrow> string list \<Rightarrow> string + partial_queries" where
  "cancelled a u = Inl ''context canceled''"

definition granted :: "access \<Rightarrow> string list \<Rightarrow> string + partial_queries" where
  "granted a u = Inr \<lparr>pq_Queries = [[\<lparr>re_op = ''eq'', re_0 = RString ''a'', re_1 = RString ''a''\<rparr>]], pq_Support = False\<rparr>"

definition example_calls :: "(access \<times> mappings) list" where
  "example_calls =
     [(NewAccess, []), (NewAccess, []), (NewAccess, []), (NewAccess, [(''c'', (''t'', ''c'')), (''b'', (''t'', ''b''))])]"

definition example_schedule :: "(nat \<times> (authz_error + expr option)) list" where
  "example_schedule =
     (let no = partial cancelled Map.empty NewAccess []; yes = partial granted Map.empty NewAccess [] in
      [(0, no), (1, no), (0, no), (1, no), (0, no), (0, no),
       (2, yes), (2, yes), (2, yes), (2, yes), (3, yes), (3, yes), (3, yes), (3, yes)])"


lemma run_schedule_reachable:
  assumes "reachable lru_Get lru_Add answers l0 ks n s"
    and "\<forall>(t, r) \<in> set sch. \<forall>k \<in> set ks. r \<in> answers k" and "run_schedule lru_Get lru_Add sch s = Some s'"
  shows "reachable lru_Get lru_Add answers l0 ks (n + length sch) s'"
  using assms
proof (induction sch arbitrary: n s)
  case (Cons e sch)
  obtain t r where e: "e = (t, r)" by (cases e)
  from Cons.prems(3) e obtain u where u: "run_goroutine lru_Get lru_Add t r s = Some u"
    "run_schedule lru_Get lru_Add sch u = Some s'"
    by (cases "run_goroutine lru_Get lru_Add t r s") auto
  have "t < length (snd s)"
    using u(1) by (rule run_goroutineE)
  then have "goroutine_key (snd s ! t) \<in> set ks"
    using reachable_keys [OF Cons.prems(1)] by (metis imageI list.set_map nth_mem)
  with Cons.prems(2) e have "r \<in> answers (goroutine_key (snd s ! t))" by auto
  from stepped [OF Cons.prems(1) this u(1)] have "reachable lru_Get lru_Add answers l0 ks (Suc n) u" .
  from Cons.IH [OF this _ u(2)] Cons.prems(2) show ?case by simp
qed simp

definition example_result where
  "example_result = run_schedule list_Get list_Add example_schedule
     (newCache [], map Start (map (\<lambda>(a, m). newCacheKey a m) example_calls))"

definition example_expr :: expr where
  "example_expr = Exists [1] [] (Eq (Str ''a'') (Str ''a''))"

lemma example_partial:
  "partial cancelled d a m = Inl (PartialError ''context canceled'')"
  "partial granted d a m = Inr (Some example_expr)"
  by (simp_all add: partial_def cancelled_def granted_def translate_query_def translate_expr_def where_And_def
      where_Or_def example_expr_def)

lemma example_run:
  "map_option snd example_result =
     Some (let k = newCacheKey NewAccess [] in
       [Returned k (Inl (PartialError ''context canceled'')), Returned k (Inl (PartialError ''context canceled'')),
        Returned k (Inr (Some example_expr)),
        Returned (newCacheKey NewAccess [(''b'', (''t'', ''b'')), (''c'', (''t'', ''c''))]) (Inr (Some example_expr))])"
  by code_simp

lemma example_reachable:
  obtains c gs where "example_result = Some (c, gs)"
    "reachable list_Get list_Add (Partial_answers {cancelled, granted} Map.empty) []
       (map (\<lambda>(a, m). newCacheKey a m) example_calls) 14 (c, gs)"
proof -
  obtain c gs where run: "example_result = Some (c, gs)"
    using example_run by (cases example_result) auto
  have "\<forall>(t, r) \<in> set example_schedule. \<forall>k \<in> set (map (\<lambda>(a, m). newCacheKey a m) example_calls).
      r \<in> Partial_answers {cancelled, granted} Map.empty k"
    unfolding example_schedule_def Let_def example_partial example_calls_def Partial_answers_def
    by (force simp: example_partial)
  from run_schedule_reachable [OF started this run [unfolded example_result_def]]
  have "reachable list_Get list_Add (Partial_answers {cancelled, granted} Map.empty) []
      (map (\<lambda>(a, m). newCacheKey a m) example_calls) (0 + length example_schedule) (c, gs)" .
  moreover have "0 + length example_schedule = 14" by (simp add: example_schedule_def Let_def)
  ultimately show thesis using run that by metis
qed

lemma cache_answers_witness:
  "\<exists>c gs. example_result = Some (c, gs) \<and>
     gs ! 1 = Returned (newCacheKey NewAccess []) (Inl (PartialError ''context canceled'')) \<and>
     gs ! 2 = Returned (newCacheKey NewAccess []) (Inr (Some example_expr)) \<and>
     (\<exists>opa \<in> {cancelled, granted}. \<exists>m'. map_of m' = map_of [] \<and>
        Inr (Some example_expr) = partial opa Map.empty NewAccess m')"
proof -
  obtain c gs where run: "example_result = Some (c, gs)"
    and reach: "reachable list_Get list_Add (Partial_answers {cancelled, granted} Map.empty) []
       (map (\<lambda>(a, m). newCacheKey a m) example_calls) 14 (c, gs)"
    by (rule example_reachable)
  have "Some gs = map_option snd example_result" by (simp only: run option.map snd_conv)
  then have gs: "gs ! 1 = Returned (newCacheKey NewAccess []) (Inl (PartialError ''context canceled''))"
    "gs ! 2 = Returned (newCacheKey NewAccess []) (Inr (Some example_expr))"
    unfolding example_run Let_def option.inject by simp_all
  have "\<exists>opa \<in> {cancelled, granted}. \<exists>m'. map_of m' = map_of [] \<and>
      Inr (Some example_expr) = partial opa Map.empty NewAccess m'"
  proof -
    have "map_of ([] :: (cacheKey \<times> expr option) list) = Map.empty" by simp
    note answers = cache_answers [OF list_lru_laws this reach, THEN conjunct2, THEN conjunct1, rule_format]
    show ?thesis
      by (rule answers [OF _ gs(2)]) (simp_all add: example_calls_def)
  qed
  with run gs show ?thesis by blast
qed

lemma cache_returns_witness:
  "\<exists>c gs. example_result = Some (c, gs) \<and> (14::nat) \<le> 4 * length example_calls \<and>
     ((\<forall>g \<in> set gs. \<exists>key r. g = Returned key r) \<or>
      (\<exists>t < length gs. \<forall>r. run_goroutine list_Get list_Add t r (c, gs) \<noteq> None))"
proof -
  obtain c gs where run: "example_result = Some (c, gs)"
    and reach: "reachable list_Get list_Add (Partial_answers {cancelled, granted} Map.empty) []
       (map (\<lambda>(a, m). newCacheKey a m) example_calls) 14 (c, gs)"
    by (rule example_reachable)
  have "map_of ([] :: (cacheKey \<times> expr option) list) = Map.empty" by simp
  from cache_returns [OF list_lru_laws this reach] run show ?thesis by blast
qed

end
