(* ===== verification/Secret.thy ===== *)
theory Secret
  imports Config Cursor
begin

text \<open>
  Secrets in use, from \<open>internal/config/secret.go\<close>: environment variables are expanded, the value
  is decoded into the structure of its type, and some types become an HTTP client or a token.

  Decoding a map into a structure (\<open>mapstructure\<close>), the discovery of a token endpoint and the
  token request (\<open>go-oidc\<close>, \<open>oauth2\<close>) and the reading of certificates are parameters. Of an
  outgoing request the model has the parts a client changes: its headers and its query, each as
  the values of a key.
\<close>

subsection \<open>Expansion of environment variables\<close>

text \<open>\<open>os.Expand\<close>: \<open>getShellName\<close> gives the name behind a dollar sign and how much of the text it takes.\<close>

definition isShellSpecialVar :: "char \<Rightarrow> bool" where
  "isShellSpecialVar c \<longleftrightarrow> c \<in> set ''*#$@!?-0123456789''"

definition isAlphaNum :: "char \<Rightarrow> bool" where
  "isAlphaNum c \<longleftrightarrow> c = CHR ''_'' \<or>
     list_ex (\<lambda>(lo, hi). lo \<le> c \<and> c \<le> hi) [(CHR ''0'', CHR ''9''), (CHR ''a'', CHR ''z''), (CHR ''A'', CHR ''Z'')]"

definition getShellName :: "string \<Rightarrow> string \<times> nat" where
  "getShellName s =
     (if hd s = CHR ''{'' then
        (if length s > 2 \<and> isShellSpecialVar (s ! 1) \<and> s ! 2 = CHR ''}'' then ([s ! 1], 3)
         else (let name = takeWhile (\<lambda>c. c \<noteq> CHR ''}'') (tl s) in
           if length name < length (tl s) then (if name = [] then ([], 2) else (name, length name + 2))
           else ([], 1)))
      else if isShellSpecialVar (hd s) then ([hd s], 1)
      else (let name = takeWhile isAlphaNum s in (name, length name)))"

function os_Expand :: "(string \<Rightarrow> string) \<Rightarrow> string \<Rightarrow> string" where
  "os_Expand mapping [] = []"
| "os_Expand mapping (c # s) =
     (if c \<noteq> CHR ''$'' \<or> s = [] then c # os_Expand mapping s
      else (let (name, w) = getShellName s in
        (if name = [] \<and> w > 0 then [] else if name = [] then ''$'' else mapping name) @
        os_Expand mapping (drop w s)))"
  by pat_completeness auto
termination
  by (relation "measure (\<lambda>(m, s). length s)") auto

lemma os_Expand_no_dollar: "CHR ''$'' \<notin> set s \<Longrightarrow> os_Expand mapping s = s"
  by (induction s) auto

lemma os_Expand_before: "CHR ''$'' \<notin> set s \<Longrightarrow> os_Expand mapping (s @ t) = s @ os_Expand mapping t"
  by (induction s) auto

lemma os_Expand_braces:
  assumes "name \<noteq> []" and "CHR ''}'' \<notin> set name"
  shows "os_Expand mapping (''${'' @ name @ ''}'' @ s) = mapping name @ os_Expand mapping s"
proof -
  have take: "takeWhile (\<lambda>c. c \<noteq> CHR ''}'') (name @ CHR ''}'' # s) = name"
    using assms(2) by (subst takeWhile_append2) auto
  have one: "\<exists>x. name = [x]" if "(name @ CHR ''}'' # s) ! 1 = CHR ''}''"
    using that assms by (cases name; cases "tl name") auto
  have "getShellName (CHR ''{'' # name @ CHR ''}'' # s) = (name, length name + 2)"
  proof (cases "(name @ CHR ''}'' # s) ! 1 = CHR ''}''")
    case True
    then obtain x where "name = [x]" using one by blast
    then show ?thesis using take by (auto simp: getShellName_def Let_def)
  next
    case False
    then show ?thesis using take assms(1) by (auto simp: getShellName_def Let_def)
  qed
  then show ?thesis
    using assms(1) by simp
qed

subsection \<open>Types of secrets\<close>

record secretAWS =
  aws_AccessKeyID :: string
  aws_SecretAccessKey :: string
  aws_SessionToken :: string

record secretGCP =
  gcp_APIKey :: string
  gcp_CredentialsJSON :: string

record secretAzure =
  azure_AccountName :: string
  azure_AccountKey :: string

record secretGitHubApp =
  gh_IntegrationID :: int
  gh_InstallationID :: int
  gh_PrivateKey :: string

record secretSSHKey =
  ssh_Key :: string
  ssh_Passphrase :: string
  ssh_Fingerprints :: "string list"

record secretBasicAuth =
  ba_Username :: string
  ba_Password :: string
  ba_Headers :: "string list"

record secretOIDC =
  oidc_Issuer :: string
  oidc_TokenURL :: string
  oidc_ClientID :: string
  oidc_ClientSecret :: string
  oidc_Scopes :: "string list"

record secretTLSCert =
  tls_RootCA :: string
  tls_TLSCert :: string
  tls_TLSKey :: string

record secretAPIKey =
  api_Key :: string
  api_Value :: string
  api_In :: string

text \<open>What \<open>Typed\<close> returns is a pointer for some types and a value for the others.\<close>

datatype typed =
    PtrAWS secretAWS
  | Azure secretAzure
  | GCP secretGCP
  | GitHubApp secretGitHubApp
  | SSHKey secretSSHKey
  | PtrBasicAuth secretBasicAuth
  | PtrTokenAuth string
  | PtrOIDC secretOIDC
  | Password string
  | TLSCert secretTLSCert
  | PtrAPIKey secretAPIKey

definition wellknownFingerprints :: "string list" where
  "wellknownFingerprints =
     [''SHA256:uNiVztksCsDhcc0u9e8BujQXVUpKZIDTMczCvj3tD2s'', ''SHA256:p2QAMXNIC1TJYWeIOttrVc98/R1BUFWu3/LiyKgUfQM'',
      ''SHA256:+DiY3wvvV6TuJJhbpZisF/zLDA0zPMSvHdkr4UvCOqU'', ''SHA256:zzXQOXSRBEiUtuE8AikJYKwbHaxvSc0ojez9YXaGp1A'',
      ''SHA256:ohD8VZEXGWo6Ez8GSEJQ9WpafgLFsOfLOtGGQCQo6Og'']"

datatype secret_error =
    NotFound string
  | NotConfigured string
  | DecodeError string
  | MissingField string
  | UnknownType
  | InvalidConfiguration string
  | DiscoveryFailed string
  | TokenFailed string
  | BadCertificate string

text \<open>The decoder reads a field of a structure by its JSON name; the first field that fails is the error.\<close>

record decoder =
  dec_string :: "(string, any) fmap \<Rightarrow> string \<Rightarrow> string + string"
  dec_int :: "(string, any) fmap \<Rightarrow> string \<Rightarrow> string + int"
  dec_strings :: "(string, any) fmap \<Rightarrow> string \<Rightarrow> string + string list"

definition field :: "string + 'a \<Rightarrow> ('a \<Rightarrow> secret_error + 'b) \<Rightarrow> secret_error + 'b" where
  "field d f = (case d of Inl e \<Rightarrow> Inl (DecodeError e) | Inr x \<Rightarrow> f x)"

definition secret_get :: "(string \<Rightarrow> string) \<Rightarrow> secret \<Rightarrow> (string, any) fmap" where
  "secret_get getenv s =
     fmmap (\<lambda>v. case v of AStr t \<Rightarrow> AStr (os_Expand getenv t) | _ \<Rightarrow> v) (gomap (sec_Value s))"

definition typed_by :: "decoder \<Rightarrow> string \<Rightarrow> (string, any) fmap \<Rightarrow> secret_error + typed" where
  "typed_by d ty m =
     (let str = (\<lambda>k. dec_string d m k) in
      if ty = ''aws_auth'' then
        field (str ''access_key_id'') (\<lambda>i. field (str ''secret_access_key'') (\<lambda>k. field (str ''session_token'') (\<lambda>t.
          if i = [] \<or> k = [] then Inl (MissingField ''access_key_id or secret_access_key'')
          else Inr (PtrAWS \<lparr>aws_AccessKeyID = i, aws_SecretAccessKey = k, aws_SessionToken = t\<rparr>))))
      else if ty = ''azure_auth'' then
        field (str ''account_name'') (\<lambda>n. field (str ''account_key'') (\<lambda>k.
          if n = [] \<or> k = [] then Inl (MissingField ''account_name or account_key'')
          else Inr (Azure \<lparr>azure_AccountName = n, azure_AccountKey = k\<rparr>)))
      else if ty = ''gcp_auth'' then
        field (str ''api_key'') (\<lambda>k. field (str ''credentials'') (\<lambda>c.
          if k = [] \<and> c = [] then Inl (MissingField ''api_key or credentials'')
          else Inr (GCP \<lparr>gcp_APIKey = k, gcp_CredentialsJSON = c\<rparr>)))
      else if ty = ''github_app_auth'' then
        field (dec_int d m ''integration_id'') (\<lambda>i. field (dec_int d m ''installation_id'') (\<lambda>n.
        field (str ''private_key'') (\<lambda>k.
          Inr (GitHubApp \<lparr>gh_IntegrationID = i, gh_InstallationID = n, gh_PrivateKey = k\<rparr>))))
      else if ty = ''ssh_key'' then
        field (str ''key'') (\<lambda>k. field (str ''passphrase'') (\<lambda>p. field (dec_strings d m ''fingerprints'') (\<lambda>fs.
          if k = [] then Inl (MissingField ''key'')
          else Inr (SSHKey \<lparr>ssh_Key = k, ssh_Passphrase = p,
            ssh_Fingerprints = (if fs = [] then wellknownFingerprints else fs)\<rparr>))))
      else if ty = ''basic_auth'' then
        field (str ''username'') (\<lambda>u. field (str ''password'') (\<lambda>p. field (dec_strings d m ''headers'') (\<lambda>h.
          Inr (PtrBasicAuth \<lparr>ba_Username = u, ba_Password = p, ba_Headers = h\<rparr>))))
      else if ty = ''token_auth'' then field (str ''token'') (\<lambda>t. Inr (PtrTokenAuth t))
      else if ty = ''oidc_client_credentials'' then
        field (str ''issuer'') (\<lambda>i. field (str ''token_endpoint'') (\<lambda>u. field (str ''client_id'') (\<lambda>c.
        field (str ''client_secret'') (\<lambda>s. field (dec_strings d m ''scopes'') (\<lambda>sc.
          Inr (PtrOIDC \<lparr>oidc_Issuer = i, oidc_TokenURL = u, oidc_ClientID = c, oidc_ClientSecret = s, oidc_Scopes = sc\<rparr>))))))
      else if ty = ''password'' then field (str ''password'') (\<lambda>p. Inr (Password p))
      else if ty = ''tls_cert'' then
        field (str ''root_ca'') (\<lambda>r. field (str ''tls_cert'') (\<lambda>c. field (str ''tls_key'') (\<lambda>k.
          Inr (TLSCert \<lparr>tls_RootCA = r, tls_TLSCert = c, tls_TLSKey = k\<rparr>))))
      else if ty = ''api_key'' then
        field (str ''key'') (\<lambda>k. field (str ''value'') (\<lambda>v. field (str ''in'') (\<lambda>i.
          Inr (PtrAPIKey \<lparr>api_Key = k, api_Value = v, api_In = i\<rparr>))))
      else Inl UnknownType)"

definition Typed :: "(string \<Rightarrow> string) \<Rightarrow> decoder \<Rightarrow> secret \<Rightarrow> secret_error + typed" where
  "Typed getenv d s =
     (let m = secret_get getenv s in
      if m = fmempty then Inl (NotConfigured (sec_Name s))
      else (case fmlookup m ''type'' of
          Some (AStr ty) \<Rightarrow> typed_by d ty m
        | _ \<Rightarrow> Inl UnknownType))"

definition SecretRef_Resolve :: "(string \<Rightarrow> string) \<Rightarrow> decoder \<Rightarrow> secretref \<Rightarrow> secret_error + typed" where
  "SecretRef_Resolve getenv d r =
     (case ref_value r of None \<Rightarrow> Inl (NotFound (ref_Name r)) | Some s \<Rightarrow> Typed getenv d s)"


text \<open>What every typed secret satisfies.\<close>

fun typed_ok :: "typed \<Rightarrow> bool" where
  "typed_ok (PtrAWS v) \<longleftrightarrow> aws_AccessKeyID v \<noteq> [] \<and> aws_SecretAccessKey v \<noteq> []"
| "typed_ok (Azure v) \<longleftrightarrow> azure_AccountName v \<noteq> [] \<and> azure_AccountKey v \<noteq> []"
| "typed_ok (GCP v) \<longleftrightarrow> gcp_APIKey v \<noteq> [] \<or> gcp_CredentialsJSON v \<noteq> []"
| "typed_ok (SSHKey v) \<longleftrightarrow> ssh_Key v \<noteq> [] \<and> ssh_Fingerprints v \<noteq> []"
| "typed_ok _ \<longleftrightarrow> True"

fun type_name :: "typed \<Rightarrow> string" where
  "type_name (PtrAWS v) = ''aws_auth''"
| "type_name (Azure v) = ''azure_auth''"
| "type_name (GCP v) = ''gcp_auth''"
| "type_name (GitHubApp v) = ''github_app_auth''"
| "type_name (SSHKey v) = ''ssh_key''"
| "type_name (PtrBasicAuth v) = ''basic_auth''"
| "type_name (PtrTokenAuth v) = ''token_auth''"
| "type_name (PtrOIDC v) = ''oidc_client_credentials''"
| "type_name (Password v) = ''password''"
| "type_name (TLSCert v) = ''tls_cert''"
| "type_name (PtrAPIKey v) = ''api_key''"

lemma field_Inr_iff: "field d f = Inr t \<longleftrightarrow> (\<exists>x. d = Inr x \<and> f x = Inr t)"
  by (auto simp: field_def split: sum.splits)

lemma typed_by_ok:
  assumes "typed_by d ty m = Inr t"
  shows "typed_ok t \<and> type_name t = ty"
  using assms unfolding typed_by_def Let_def
  by (auto simp: field_Inr_iff wellknownFingerprints_def split: if_splits)

lemma Typed_ok:
  assumes "Typed getenv d s = Inr t"
  shows "typed_ok t \<and> fmlookup (secret_get getenv s) ''type'' = Some (AStr (type_name t))"
proof -
  from assms obtain ty where "fmlookup (secret_get getenv s) ''type'' = Some (AStr ty)"
    "typed_by d ty (secret_get getenv s) = Inr t"
    by (auto simp: Typed_def Let_def split: if_splits option.splits any.splits)
  with typed_by_ok show ?thesis by blast
qed

text \<open>
  A text value of a secret without dollar signs is used as it is, and the name of a variable
  in braces is replaced by the variable's value wherever it stands; values that are not texts are
  kept. A dollar sign that is meant literally is not safe: in a password it starts the name of a
  variable, even without braces, and a doubled one is dropped.
\<close>
theorem secret_expansion:
  assumes "fmlookup (gomap (sec_Value s)) k = Some v"
  shows "(\<forall>t. v = AStr t \<longrightarrow> CHR ''$'' \<notin> set t \<longrightarrow> fmlookup (secret_get getenv s) k = Some v) \<and>
    (\<forall>before name after. v = AStr (before @ ''${'' @ name @ ''}'' @ after) \<longrightarrow>
       CHR ''$'' \<notin> set (before @ after) \<longrightarrow> name \<noteq> [] \<longrightarrow> CHR ''}'' \<notin> set name \<longrightarrow>
       fmlookup (secret_get getenv s) k = Some (AStr (before @ getenv name @ after))) \<and>
    ((\<forall>t. v \<noteq> AStr t) \<longrightarrow> fmlookup (secret_get getenv s) k = Some v) \<and>
    (v = AStr ''pa$$sword'' \<longrightarrow> fmlookup (secret_get getenv s) k = Some (AStr (''pa'' @ getenv ''$'' @ ''sword''))) \<and>
    (v = AStr ''pa$sword!'' \<longrightarrow> fmlookup (secret_get getenv s) k = Some (AStr (''pa'' @ getenv ''sword'' @ ''!'')))"
proof -
  have look: "fmlookup (secret_get getenv s) k = Some (case v of AStr t \<Rightarrow> AStr (os_Expand getenv t) | _ \<Rightarrow> v)"
    using assms by (simp add: secret_get_def)
  have "os_Expand getenv (before @ ''${'' @ name @ ''}'' @ after) = before @ getenv name @ after"
    if "CHR ''$'' \<notin> set (before @ after)" "name \<noteq> []" "CHR ''}'' \<notin> set name" for before name after
  proof -
    from that(1) have b: "CHR ''$'' \<notin> set before" and a: "CHR ''$'' \<notin> set after" by simp_all
    show ?thesis
      unfolding os_Expand_before [OF b] os_Expand_braces [OF that(2,3)] os_Expand_no_dollar [OF a] ..
  qed
  moreover have "os_Expand getenv ''pa$$sword'' = ''pa'' @ getenv ''$'' @ ''sword''"
    by (simp add: getShellName_def isShellSpecialVar_def)
  moreover have "os_Expand getenv ''pa$sword!'' = ''pa'' @ getenv ''sword'' @ ''!''"
    by (simp add: getShellName_def isShellSpecialVar_def isAlphaNum_def)
  ultimately show ?thesis
    unfolding look by (auto simp: os_Expand_no_dollar split: any.splits)
qed

lemma secret_expansion_witness:
  "let getenv = (\<lambda>n. if n = ''HOME'' then ''/root'' else []);
       v = AStr (''a'' @ ''${'' @ ''HOME'' @ ''}'' @ ''b'') in
   fmlookup (secret_get getenv \<lparr>sec_Name = ''s'', sec_Value = Some (fmap_of_list [(''k'', v)])\<rparr>) ''k'' =
     Some (AStr (''a'' @ getenv ''HOME'' @ ''b'')) \<and> getenv ''HOME'' = ''/root''"
proof -
  let ?v = "AStr (''a'' @ ''${'' @ ''HOME'' @ ''}'' @ ''b'')"
  have "fmlookup (gomap (sec_Value \<lparr>sec_Name = ''s'', sec_Value = Some (fmap_of_list [(''k'', ?v)])\<rparr>)) ''k'' = Some ?v"
    by simp
  note expanded = secret_expansion [OF this, THEN conjunct2, THEN conjunct1, rule_format, OF refl]
  show ?thesis
    unfolding Let_def by (rule conjI, rule expanded) simp_all
qed

end
