(* ===== verification/HttpSync.thy ===== *)
theory HttpSync
  imports Secret
begin

text \<open>
  Secrets as HTTP clients (\<open>internal/config/secret.go\<close>), AWS credentials from a secret
  (\<open>internal/aws/aws.go\<close>) and the synchronizer of HTTP and S3 data sources
  (\<open>internal/httpsync/httpsync.go\<close>). The network, the AWS SDK and the parsing of URLs and
  certificates are parameters. The disk is a map from paths to contents; which paths can be
  created is a parameter.
\<close>

subsection \<open>Outgoing requests\<close>

record out_request =
  or_method :: string
  or_url :: string
  or_body :: string
  or_headers :: "(string, string list) fmap"
  or_query :: "(string, string list) fmap"

text \<open>\<open>http.Header.Set\<close> canonicalizes its key, if that is made of the characters of a token.\<close>

definition header_char :: "char \<Rightarrow> bool" where
  "header_char c \<longleftrightarrow> isAlphaNum c \<or> c \<in> set ''!#$%&*+-.^|~'' \<or> c = CHR 0x27 \<or> c = CHR 0x60"

fun canonical_from :: "bool \<Rightarrow> string \<Rightarrow> string" where
  "canonical_from upper [] = []"
| "canonical_from upper (c # s) =
     (if upper \<and> CHR ''a'' \<le> c \<and> c \<le> CHR ''z'' then char_of (byte c - 32)
      else if \<not> upper \<and> CHR ''A'' \<le> c \<and> c \<le> CHR ''Z'' then char_of (byte c + 32)
      else c) # canonical_from (c = CHR ''-'') s"

definition CanonicalHeaderKey :: "string \<Rightarrow> string" where
  "CanonicalHeaderKey s = (if list_all header_char s then canonical_from True s else s)"

definition Header_Set :: "string \<Rightarrow> string \<Rightarrow> out_request \<Rightarrow> out_request" where
  "Header_Set k v r = r\<lparr>or_headers := fmupd (CanonicalHeaderKey k) [v] (or_headers r)\<rparr>"

text \<open>\<open>SetBasicAuth\<close> uses the standard alphabet of base 64, which has two other symbols.\<close>

definition b64_std :: "string \<Rightarrow> string" where
  "b64_std s = map (\<lambda>c. if c = CHR ''-'' then CHR ''+'' else if c = CHR ''_'' then CHR ''/'' else c) (b64_encode s)"

definition SetBasicAuth :: "string \<Rightarrow> string \<Rightarrow> out_request \<Rightarrow> out_request" where
  "SetBasicAuth u p = Header_Set ''Authorization'' (''Basic '' @ b64_std (u @ '':'' @ p))"

subsection \<open>Clients of secrets\<close>

record cc_config =
  cc_ClientID :: string
  cc_ClientSecret :: string
  cc_Scopes :: "string list"
  cc_TokenURL :: string

record 'cert tls_config =
  tlsc_RootCAs :: "string option"
  tlsc_Certificates :: "'cert list"

datatype 'cert http_client =
    DefaultClient
  | WrappedClient typed
  | OAuth2Client cc_config
  | TLSClient "'cert tls_config"

text \<open>
  The parameters: the environment, the decoder, the endpoint an issuer announces, the token of a
  client, the reading of certificates.
\<close>

record 'cert secret_env =
  se_getenv :: "string \<Rightarrow> string"
  se_decoder :: decoder
  se_discover :: "string \<Rightarrow> string + string"
  se_token :: "cc_config \<Rightarrow> string + string"
  se_AppendCertsFromPEM :: "string \<Rightarrow> bool"
  se_X509KeyPair :: "string \<Rightarrow> string \<Rightarrow> string + 'cert"

definition validate_oidc :: "secretOIDC \<Rightarrow> secret_error + unit" where
  "validate_oidc v =
     (if oidc_ClientID v = [] then Inl (InvalidConfiguration ''client_id is required'')
      else if oidc_ClientSecret v = [] then Inl (InvalidConfiguration ''client_secret is required'')
      else if oidc_TokenURL v = [] \<and> oidc_Issuer v = []
        then Inl (InvalidConfiguration ''either issuer or token_endpoint must be provided'')
      else Inr ())"

definition getClientCredentialsConfig :: "'cert secret_env \<Rightarrow> secretOIDC \<Rightarrow> secret_error + cc_config" where
  "getClientCredentialsConfig env v =
     result_bind (validate_oidc v) (\<lambda>_.
     result_bind
       (if oidc_TokenURL v \<noteq> [] then Inr (oidc_TokenURL v)
        else (case se_discover env (oidc_Issuer v) of
            Inl e \<Rightarrow> Inl (DiscoveryFailed e)
          | Inr u \<Rightarrow> if u = [] then Inl (DiscoveryFailed ''no token endpoint'') else Inr u))
       (\<lambda>u. Inr \<lparr>cc_ClientID = oidc_ClientID v, cc_ClientSecret = oidc_ClientSecret v,
          cc_Scopes = oidc_Scopes v, cc_TokenURL = u\<rparr>))"

definition OIDC_Client :: "'cert secret_env \<Rightarrow> secretOIDC \<Rightarrow> secret_error + 'cert http_client" where
  "OIDC_Client env v = result_bind (getClientCredentialsConfig env v) (\<lambda>c. Inr (OAuth2Client c))"

definition OIDC_Token :: "'cert secret_env \<Rightarrow> secretOIDC \<Rightarrow> secret_error + string" where
  "OIDC_Token env v =
     result_bind (getClientCredentialsConfig env v) (\<lambda>c.
       case se_token env c of
         Inl e \<Rightarrow> Inl (TokenFailed e)
       | Inr t \<Rightarrow> if t = [] then Inl (TokenFailed ''empty access token'') else Inr t)"

definition TLSCert_ToConfig :: "'cert secret_env \<Rightarrow> secretTLSCert \<Rightarrow> secret_error + 'cert tls_config" where
  "TLSCert_ToConfig env v =
     (if tls_RootCA v \<noteq> [] \<and> \<not> se_AppendCertsFromPEM env (tls_RootCA v) then Inl (BadCertificate ''root CA'')
      else
        (let roots = (if tls_RootCA v = [] then None else Some (tls_RootCA v)) in
         if tls_TLSCert v \<noteq> [] \<and> tls_TLSKey v \<noteq> [] then
           (case se_X509KeyPair env (tls_TLSCert v) (tls_TLSKey v) of
              Inl e \<Rightarrow> Inl (BadCertificate e)
            | Inr c \<Rightarrow> Inr \<lparr>tlsc_RootCAs = roots, tlsc_Certificates = [c]\<rparr>)
         else Inr \<lparr>tlsc_RootCAs = roots, tlsc_Certificates = []\<rparr>))"

definition TLSCert_Client :: "'cert secret_env \<Rightarrow> secretTLSCert \<Rightarrow> secret_error + 'cert http_client" where
  "TLSCert_Client env v = result_bind (TLSCert_ToConfig env v) (\<lambda>c. Inr (TLSClient c))"

text \<open>
  The type assertion \<open>value.(ClientSecret)\<close>: it holds of the pointers whose types have a method
  \<open>Client\<close>, and of no structure, since all these methods have pointer receivers. The result is
  the call of that method, if there is one.
\<close>

fun as_ClientSecret :: "'cert secret_env \<Rightarrow> typed \<Rightarrow> (secret_error + 'cert http_client) option" where
  "as_ClientSecret env (PtrBasicAuth v) = Some (Inr (WrappedClient (PtrBasicAuth v)))"
| "as_ClientSecret env (PtrTokenAuth t) = Some (Inr (WrappedClient (PtrTokenAuth t)))"
| "as_ClientSecret env (PtrOIDC v) = Some (OIDC_Client env v)"
| "as_ClientSecret env (PtrAPIKey v) = Some (Inr (WrappedClient (PtrAPIKey v)))"
| "as_ClientSecret env _ = None"

text \<open>What the round tripper of a wrapped client does to each request.\<close>

fun wrap_request :: "typed \<Rightarrow> out_request \<Rightarrow> out_request" where
  "wrap_request (PtrBasicAuth v) r = SetBasicAuth (ba_Username v) (ba_Password v) r"
| "wrap_request (PtrTokenAuth t) r = Header_Set ''Authorization'' (''Bearer '' @ t) r"
| "wrap_request (PtrAPIKey v) r =
     (let place = cmp_Or (api_In v) ''header'' in
      if place = ''header'' then Header_Set (api_Key v) (api_Value v) r
      else if place = ''query'' then r\<lparr>or_query := fmupd (api_Key v) [api_Value v] (or_query r)\<rparr>
      else r)"
| "wrap_request _ r = r"

text \<open>\<open>RoundTrip\<close>: a wrapped client changes each request it sends, also those that follow a redirect.\<close>

definition RoundTrip :: "'cert http_client \<Rightarrow> out_request \<Rightarrow> out_request" where
  "RoundTrip c r = (case c of WrappedClient t \<Rightarrow> wrap_request t r | _ \<Rightarrow> r)"


subsection \<open>AWS credentials\<close>

text \<open>The credentials of a secret; they expire after the refresh interval. \<open>Config\<close> asks for them, or for the default chain.\<close>

datatype aws_error = Unresolved secret_error | MissingKey | UnsupportedType string

definition Retrieve :: "'cert secret_env \<Rightarrow> secretref \<Rightarrow> aws_error + secretAWS" where
  "Retrieve env ref =
     (case SecretRef_Resolve (se_getenv env) (se_decoder env) ref of
        Inl e \<Rightarrow> Inl (Unresolved e)
      | Inr (PtrAWS v) \<Rightarrow>
          if aws_AccessKeyID v \<noteq> [] \<or> aws_SecretAccessKey v \<noteq> [] \<or> aws_SessionToken v \<noteq> [] then Inr v
          else Inl MissingKey
      | Inr t \<Rightarrow> Inl (UnsupportedType (type_name t)))"

record aws_options =
  ao_Region :: "string option"
  ao_Credentials :: "secretref option"

definition aws_Config :: "string \<Rightarrow> secretref option \<Rightarrow> aws_options" where
  "aws_Config region credentials =
     \<lparr>ao_Region = (if region \<noteq> [] then Some region else None), ao_Credentials = credentials\<rparr>"

subsection \<open>The synchronizer\<close>

record s3_client =
  sc_Options :: aws_options
  sc_BaseEndpoint :: "string option"
  sc_UsePathStyle :: bool

record 'cert httpsync =
  hs_path :: string
  hs_url :: string
  hs_method :: string
  hs_body :: string
  hs_headers :: "(string \<times> any) list"
  hs_credentials :: "secretref option"
  hs_provider :: "(string \<Rightarrow> string + (string, any) fmap) option"
  hs_region :: string
  hs_endpoint :: string
  hs_client :: "'cert http_client option"
  hs_s3Client :: "s3_client option"

definition httpsync_New where
  "httpsync_New path url method body headers credentials =
     \<lparr>hs_path = path, hs_url = url, hs_method = method, hs_body = body, hs_headers = headers,
      hs_credentials = credentials, hs_provider = None, hs_region = [], hs_endpoint = [],
      hs_client = None, hs_s3Client = None\<rparr>"

definition httpsync_NewS3 where
  "httpsync_NewS3 path url region endpoint credentials =
     \<lparr>hs_path = path, hs_url = url, hs_method = [], hs_body = [], hs_headers = [],
      hs_credentials = credentials, hs_provider = None, hs_region = region, hs_endpoint = endpoint,
      hs_client = None, hs_s3Client = None\<rparr>"

definition hs_WithSecretProvider where
  "hs_WithSecretProvider provider s = s\<lparr>hs_provider := Some provider\<rparr>"

datatype sync_error =
    OSError string
  | SecretError secret_error
  | ProviderError string
  | NotForHTTP string
  | RequestError string
  | ResponseError string
  | Status int
  | InvalidS3URL string
  | CopyError string

text \<open>
  The outside world: what can be created; the parsing of a request's method and URL and of an S3
  URL into host and path; what comes back, with the body as what can be read of it and the error
  that ends the reading, if any; and the AWS SDK.
\<close>

type_synonym body = "string \<times> string option"

record 'cert http_env = "'cert secret_env" +
  he_create :: "string \<Rightarrow> string option"
  he_NewRequest :: "string \<Rightarrow> string \<Rightarrow> string + (string, string list) fmap"
  he_Do :: "'cert http_client \<Rightarrow> out_request \<Rightarrow> string + int \<times> body"
  he_ParseURL :: "string \<Rightarrow> string + string \<times> string"
  he_LoadConfig :: "aws_options \<Rightarrow> string option"
  he_GetObject :: "s3_client \<Rightarrow> string \<Rightarrow> string \<Rightarrow> string + body"

definition initClient :: "('cert, 'z) http_env_scheme \<Rightarrow> 'cert httpsync \<Rightarrow> sync_error + 'cert httpsync" where
  "initClient env s =
     (let env0 = secret_env.truncate env;
          use = (\<lambda>t. case as_ClientSecret env0 t of
              None \<Rightarrow> Inl (NotForHTTP (type_name t))
            | Some (Inl e) \<Rightarrow> Inl (SecretError e)
            | Some (Inr c) \<Rightarrow> Inr (s\<lparr>hs_client := Some c\<rparr>)) in
      if hs_client s \<noteq> None then Inr s
      else (case (hs_provider s, hs_credentials s) of
          (Some provider, Some ref) \<Rightarrow>
            (case provider (ref_Name ref) of
               Inl e \<Rightarrow> Inl (ProviderError e)
             | Inr v \<Rightarrow>
                 (case Typed (se_getenv env) (se_decoder env) \<lparr>sec_Name = ref_Name ref, sec_Value = Some v\<rparr> of
                    Inl e \<Rightarrow> Inl (SecretError e)
                  | Inr t \<Rightarrow> use t))
        | (None, Some ref) \<Rightarrow>
            (case SecretRef_Resolve (se_getenv env) (se_decoder env) ref of
               Inl e \<Rightarrow> Inl (SecretError e)
             | Inr t \<Rightarrow> use t)
        | (_, None) \<Rightarrow> Inr (s\<lparr>hs_client := Some DefaultClient\<rparr>)))"

fun setHeaders :: "(string \<times> any) list \<Rightarrow> out_request \<Rightarrow> out_request" where
  "setHeaders [] r = r"
| "setHeaders ((k, AStr v) # hs) r = setHeaders hs (if v \<noteq> [] then Header_Set k v r else r)"
| "setHeaders ((k, _) # hs) r = setHeaders hs r"

definition hs_request :: "('cert, 'z) http_env_scheme \<Rightarrow> 'cert httpsync \<Rightarrow> sync_error + out_request" where
  "hs_request env s =
     (case he_NewRequest env (hs_method s) (hs_url s) of
        Inl e \<Rightarrow> Inl (RequestError e)
      | Inr q \<Rightarrow> Inr (setHeaders (hs_headers s)
          \<lparr>or_method = hs_method s, or_url = hs_url s, or_body = hs_body s, or_headers = fmempty, or_query = q\<rparr>))"

text \<open>\<open>executeHTTP\<close>, with the synchronizer that keeps the client.\<close>

definition executeHTTP :: "('cert, 'z) http_env_scheme \<Rightarrow> 'cert httpsync \<Rightarrow> (sync_error + body) \<times> 'cert httpsync" where
  "executeHTTP env s =
     (case initClient env s of
        Inl e \<Rightarrow> (Inl e, s)
      | Inr s \<Rightarrow>
          (case hs_request env s of
             Inl e \<Rightarrow> (Inl e, s)
           | Inr r \<Rightarrow>
               (case he_Do env (the (hs_client s)) (RoundTrip (the (hs_client s)) r) of
                  Inl e \<Rightarrow> (Inl (ResponseError e), s)
                | Inr (status, b) \<Rightarrow>
                    if status < 200 \<or> status \<ge> 300 then (Inl (Status status), s) else (Inr b, s))))"

definition initS3Client :: "('cert, 'z) http_env_scheme \<Rightarrow> 'cert httpsync \<Rightarrow> sync_error + 'cert httpsync" where
  "initS3Client env s =
     (if hs_s3Client s \<noteq> None then Inr s
      else (let c = aws_Config (hs_region s) (hs_credentials s) in
        case he_LoadConfig env c of
          Some e \<Rightarrow> Inl (RequestError e)
        | None \<Rightarrow> Inr (s\<lparr>hs_s3Client := Some \<lparr>sc_Options = c,
            sc_BaseEndpoint = (if hs_endpoint s \<noteq> [] then Some (hs_endpoint s) else None),
            sc_UsePathStyle = (hs_endpoint s \<noteq> [])\<rparr>\<rparr>)))"

text \<open>\<open>strings.SplitN(p, "/", 2)\<close>: the text before and after the first slash, if there is one.\<close>

definition cut_slash :: "string \<Rightarrow> (string \<times> string) option" where
  "cut_slash p =
     (case dropWhile (\<lambda>c. c \<noteq> CHR ''/'') p of
        [] \<Rightarrow> None
      | _ # rest \<Rightarrow> Some (takeWhile (\<lambda>c. c \<noteq> CHR ''/'') p, rest))"

definition trim_slash :: "string \<Rightarrow> string" where
  "trim_slash p = (if strings_HasPrefix p ''/'' then tl p else p)"

definition parseS3URL :: "(string \<Rightarrow> string + string \<times> string) \<Rightarrow> string \<Rightarrow> sync_error + string \<times> string" where
  "parseS3URL parse urlStr =
     (case parse urlStr of
        Inl e \<Rightarrow> Inl (RequestError e)
      | Inr (host, path) \<Rightarrow>
          if strings_HasPrefix host ''s3.'' \<or> strings_HasPrefix host ''s3-'' \<or> \<not> sublist ''.s3.'' host then
            (case cut_slash (trim_slash path) of
               None \<Rightarrow> Inl (InvalidS3URL urlStr)
             | Some bk \<Rightarrow> Inr bk)
          else
            (let bucket = hd (split_on CHR ''.'' host); key = trim_slash path in
             if key = [] then Inl (InvalidS3URL urlStr) else Inr (bucket, key)))"

definition executeS3 :: "('cert, 'z) http_env_scheme \<Rightarrow> 'cert httpsync \<Rightarrow> (sync_error + body) \<times> 'cert httpsync" where
  "executeS3 env s =
     (case initS3Client env s of
        Inl e \<Rightarrow> (Inl e, s)
      | Inr s \<Rightarrow>
          (case parseS3URL (he_ParseURL env) (hs_url s) of
             Inl e \<Rightarrow> (Inl e, s)
           | Inr (bucket, key) \<Rightarrow>
               (case he_GetObject env (the (hs_s3Client s)) bucket key of
                  Inl e \<Rightarrow> (Inl (ResponseError e), s)
                | Inr b \<Rightarrow> (Inr b, s))))"

type_synonym disk = "(string, string) fmap"

definition httpsync_Execute ::
    "('cert, 'z) http_env_scheme \<Rightarrow> 'cert httpsync \<Rightarrow> disk \<Rightarrow> (sync_error + unit) \<times> 'cert httpsync \<times> disk" where
  "httpsync_Execute env s files =
     (case he_create env (hs_path s) of
        Some e \<Rightarrow> (Inl (OSError e), s, files)
      | None \<Rightarrow>
          (let empty = fmupd (hs_path s) [] files in
           case (if hs_region s \<noteq> [] then executeS3 env s else executeHTTP env s) of
             (Inl e, s') \<Rightarrow> (Inl e, s', empty)
           | (Inr (data, None), s') \<Rightarrow> (Inr (), s', fmupd (hs_path s) data files)
           | (Inr (data, Some e), s') \<Rightarrow> (Inl (CopyError e), s', empty)))"


subsection \<open>What a synchronization leaves on disk\<close>

lemma initClient_url:
  assumes "initClient env s = Inr s'"
  shows "hs_url s' = hs_url s" "hs_method s' = hs_method s" "hs_headers s' = hs_headers s" "hs_body s' = hs_body s"
    "hs_client s' \<noteq> None"
  using assms unfolding initClient_def Let_def
  by (auto split: if_splits option.splits sum.splits)

lemma hs_request_cong:
  assumes "hs_url s' = hs_url s" "hs_method s' = hs_method s" "hs_headers s' = hs_headers s" "hs_body s' = hs_body s"
  shows "hs_request env s' = hs_request env s"
  unfolding hs_request_def assms ..

lemma executeHTTP_Inr:
  assumes "executeHTTP env s = (Inr b, s')"
  obtains c r status where "hs_client s' = Some c" "hs_request env s = Inr r"
    "he_Do env c (RoundTrip c r) = Inr (status, b)" "200 \<le> status" "status < 300"
proof -
  from assms obtain s1 where init: "initClient env s = Inr s1"
    by (auto simp: executeHTTP_def split: sum.splits)
  note cong = hs_request_cong [OF initClient_url(1-4) [OF init], of env]
  obtain c where c: "hs_client s1 = Some c"
    using initClient_url(5) [OF init] by blast
  from assms init c cong obtain r status where
    "hs_request env s = Inr r" "he_Do env c (RoundTrip c r) = Inr (status, b)" "200 \<le> status" "status < 300" "s' = s1"
    by (auto simp: executeHTTP_def split: sum.splits if_splits)
  with c that show thesis by blast
qed

lemma executeS3_Inr:
  assumes "executeS3 env s = (Inr b, s')"
  obtains bucket key c where "parseS3URL (he_ParseURL env) (hs_url s) = Inr (bucket, key)"
    "hs_s3Client s' = Some c" "he_GetObject env c bucket key = Inr b"
proof -
  from assms obtain s1 where init: "initS3Client env s = Inr s1"
    by (auto simp: executeS3_def split: sum.splits)
  then have s1: "hs_url s1 = hs_url s" "hs_s3Client s1 \<noteq> None"
    by (auto simp: initS3Client_def Let_def split: if_splits option.splits)
  from assms init s1 obtain bucket key where "parseS3URL (he_ParseURL env) (hs_url s) = Inr (bucket, key)"
    "he_GetObject env (the (hs_s3Client s1)) bucket key = Inr b" "s' = s1"
    by (auto simp: executeS3_def split: sum.splits prod.splits)
  with s1 that show thesis by auto
qed

text \<open>
  C30: A synchronization writes one file. When it succeeds, the file holds the whole body of an
  answer with a status of success to the request of the configuration, sent through the client of
  its credentials, or the whole object of the bucket; when it fails, the file is empty (the
  earlier contents are lost), or nothing has changed at all.
\<close>
theorem Execute_effect:
  assumes "httpsync_Execute env s files = (out, s', files')"
  shows "(\<forall>q. q \<noteq> hs_path s \<longrightarrow> fmlookup files' q = fmlookup files q) \<and>
    (case out of
       Inl e \<Rightarrow> (if he_create env (hs_path s) = None then fmlookup files' (hs_path s) = Some [] else files' = files)
     | Inr _ \<Rightarrow> (\<exists>data. fmlookup files' (hs_path s) = Some data \<and>
         (if hs_region s = [] then
            (\<exists>c r status. hs_client s' = Some c \<and> hs_request env s = Inr r \<and>
               he_Do env c (RoundTrip c r) = Inr (status, data, None) \<and> 200 \<le> status \<and> status < 300)
          else
            (\<exists>c bucket key. hs_s3Client s' = Some c \<and> parseS3URL (he_ParseURL env) (hs_url s) = Inr (bucket, key) \<and>
               he_GetObject env c bucket key = Inr (data, None)))))"
proof (cases "he_create env (hs_path s)")
  case (Some e)
  with assms show ?thesis by (auto simp: httpsync_Execute_def)
next
  case None
  let ?e = "if hs_region s \<noteq> [] then executeS3 env s else executeHTTP env s"
  obtain res s1 where e: "?e = (res, s1)" by fastforce
  show ?thesis
  proof (cases res)
    case (Inl err)
    with assms None e show ?thesis by (auto simp: httpsync_Execute_def Let_def)
  next
    case (Inr b)
    obtain data oerr where b: "b = (data, oerr)" by (cases b)
    show ?thesis
    proof (cases oerr)
      case (Some err)
      with assms None e Inr b show ?thesis by (auto simp: httpsync_Execute_def Let_def)
    next
      case None': None
      with assms None e Inr b have res: "out = Inr ()" "s' = s1" "files' = fmupd (hs_path s) data files"
        by (auto simp: httpsync_Execute_def Let_def)
      show ?thesis
      proof (cases "hs_region s = []")
        case True
        with e Inr b None' have "executeHTTP env s = (Inr (data, None), s')" by (simp add: res)
        then show ?thesis
          by (rule executeHTTP_Inr) (auto simp: res True)
      next
        case False
        with e Inr b None' have "executeS3 env s = (Inr (data, None), s')" by (simp add: res)
        then show ?thesis
          by (rule executeS3_Inr) (auto simp: res False)
      qed
    qed
  qed
qed

subsection \<open>Credentials of a client\<close>

lemma authorization_key: "CanonicalHeaderKey ''Authorization'' = ''Authorization''"
  by code_simp

text \<open>
  Of the types of secrets, exactly four can become the client of an HTTP data source; a
  secret for mutual TLS never can, although it has a client of its own, since it is resolved to a
  structure and its method belongs to the pointer. The token of a secret is sent with each
  request of the client, to whatever URL it goes, and no configured header takes its place.
\<close>
theorem client_types:
  assumes "hs_client s = None" and "hs_provider s = None" and "hs_credentials s = Some ref"
    and "SecretRef_Resolve (se_getenv env) (se_decoder env) ref = Inr t"
  shows "(initClient env s = Inr s' \<longrightarrow> (\<exists>c. hs_client s' = Some c) \<and>
      type_name t \<in> {''basic_auth'', ''token_auth'', ''oidc_client_credentials'', ''api_key''}) \<and>
    (type_name t \<in> {''basic_auth'', ''token_auth'', ''api_key''} \<longrightarrow>
      initClient env s = Inr (s\<lparr>hs_client := Some (WrappedClient t)\<rparr>)) \<and>
    (type_name t = ''tls_cert'' \<longrightarrow> initClient env s = Inl (NotForHTTP ''tls_cert'')) \<and>
    (t = PtrTokenAuth tok \<longrightarrow>
      (\<forall>r hs url. fmlookup (or_headers (RoundTrip (WrappedClient t) (setHeaders hs r\<lparr>or_url := url\<rparr>))) ''Authorization''
         = Some [''Bearer '' @ tok]))"
proof (intro conjI impI)
  have init: "initClient env s =
      (case as_ClientSecret (secret_env.truncate env) t of
          None \<Rightarrow> Inl (NotForHTTP (type_name t))
        | Some (Inl e) \<Rightarrow> Inl (SecretError e)
        | Some (Inr c) \<Rightarrow> Inr (s\<lparr>hs_client := Some c\<rparr>))"
    using assms by (simp add: initClient_def Let_def)
  show "\<exists>c. hs_client s' = Some c" if "initClient env s = Inr s'"
    using initClient_url(5) [OF that] by blast
  show "type_name t \<in> {''basic_auth'', ''token_auth'', ''oidc_client_credentials'', ''api_key''}" if "initClient env s = Inr s'"
    using that unfolding init by (cases t) simp_all
  show "initClient env s = Inr (s\<lparr>hs_client := Some (WrappedClient t)\<rparr>)"
    if "type_name t \<in> {''basic_auth'', ''token_auth'', ''api_key''}"
    using that unfolding init by (cases t) simp_all
  show "initClient env s = Inl (NotForHTTP ''tls_cert'')" if "type_name t = ''tls_cert''"
    using that unfolding init by (cases t) simp_all
  show "\<forall>r hs url. fmlookup (or_headers (RoundTrip (WrappedClient t) (setHeaders hs r\<lparr>or_url := url\<rparr>))) ''Authorization''
      = Some [''Bearer '' @ tok]" if "t = PtrTokenAuth tok"
    using that by (simp add: RoundTrip_def Header_Set_def authorization_key)
qed

subsection \<open>URLs of S3 objects\<close>

lemma parse_virtual:
  assumes "CHR ''.'' \<notin> set bucket" and "\<not> prefix ''s3-'' bucket" and "bucket \<noteq> ''s3''"
    and "sublist ''.s3.'' (bucket @ ''.'' @ rest)" and "key \<noteq> []"
    and "parse u = Inr (bucket @ ''.'' @ rest, ''/'' @ key)"
  shows "parseS3URL parse u = Inr (bucket, key)"
proof -
  let ?host = "bucket @ ''.'' @ rest"
  have first: "takeWhile (\<lambda>c. c \<noteq> CHR ''.'') ?host = bucket"
    using assms(1) by (subst takeWhile_append2) auto
  have "\<not> prefix ''s3.'' ?host"
  proof
    assume "prefix ''s3.'' ?host"
    then obtain x where "?host = ''s3.'' @ x" by (auto elim: prefixE)
    with first have "bucket = ''s3''" by simp
    with assms(3) show False ..
  qed
  moreover have "\<not> prefix ''s3-'' ?host"
  proof
    assume "prefix ''s3-'' ?host"
    then obtain x where "?host = ''s3-'' @ x" by (auto elim: prefixE)
    with first have "bucket = ''s3-'' @ takeWhile (\<lambda>c. c \<noteq> CHR ''.'') x" by simp
    with assms(2) show False by (metis prefixI)
  qed
  moreover have "hd (split_on CHR ''.'' ?host) = bucket"
    using split_append_sep [OF assms(1), of rest] by simp
  ultimately show ?thesis
    using assms(4,5) unfolding parseS3URL_def assms(6)
    by (simp del: append_Cons add: strings_HasPrefix_def trim_slash_def)
qed

lemma parse_path_style:
  assumes "\<not> sublist ''.s3.'' host" and "CHR ''/'' \<notin> set bucket"
    and "parse u = Inr (host, ''/'' @ bucket @ ''/'' @ key)"
  shows "parseS3URL parse u = Inr (bucket, key)"
proof -
  have "takeWhile (\<lambda>c. c \<noteq> CHR ''/'') (bucket @ CHR ''/'' # key) = bucket"
    and "dropWhile (\<lambda>c. c \<noteq> CHR ''/'') (bucket @ CHR ''/'' # key) = CHR ''/'' # key"
    using assms(2) by (subst takeWhile_append2, auto, subst dropWhile_append2, auto)
  then show ?thesis
    using assms(1) by (simp add: parseS3URL_def assms(3) strings_HasPrefix_def trim_slash_def cut_slash_def)
qed

subsection \<open>An example\<close>

text \<open>A token from the environment, and a server that answers with the token it gets.\<close>

definition example_decoder :: decoder where
  "example_decoder = \<lparr>
     dec_string = (\<lambda>m k. case fmlookup m k of None \<Rightarrow> Inr [] | Some (AStr s) \<Rightarrow> Inr s | _ \<Rightarrow> Inl k),
     dec_int = (\<lambda>m k. case fmlookup m k of None \<Rightarrow> Inr 0 | Some (AInt i) \<Rightarrow> Inr i | _ \<Rightarrow> Inl k),
     dec_strings = (\<lambda>m k. case fmlookup m k of None \<Rightarrow> Inr [] | _ \<Rightarrow> Inl k)\<rparr>"

definition example_env :: "nat http_env" where
  "example_env = \<lparr>
     se_getenv = (\<lambda>n. if n = ''TOKEN'' then ''t0p'' else []),
     se_decoder = example_decoder,
     se_discover = (\<lambda>i. Inl i), se_token = (\<lambda>c. Inl []),
     se_AppendCertsFromPEM = (\<lambda>p. True), se_X509KeyPair = (\<lambda>c k. Inr 0),
     he_create = (\<lambda>p. None), he_NewRequest = (\<lambda>m u. Inr fmempty),
     he_Do = (\<lambda>c r. Inr (200, (case fmlookup (or_headers r) ''Authorization'' of Some [v] \<Rightarrow> v | _ \<Rightarrow> []), None)),
     he_ParseURL = (\<lambda>u. Inl u), he_LoadConfig = (\<lambda>c. None), he_GetObject = (\<lambda>c b k. Inl k)\<rparr>"

definition example_ref :: "(string \<times> any) list \<Rightarrow> secretref" where
  "example_ref m = Secret_Ref \<lparr>sec_Name = ''s'', sec_Value = Some (fmap_of_list m)\<rparr>"

definition example_sync :: "(string \<times> any) list \<Rightarrow> nat httpsync" where
  "example_sync m = httpsync_New ''d/data.json'' ''https://example.com'' ''GET'' []
     [(''authorization'', AStr ''none'')] (Some (example_ref m))"

definition token_secret :: "(string \<times> any) list" where
  "token_secret = [(''type'', AStr ''token_auth''), (''token'', AStr ''${TOKEN}'')]"

lemma example_token:
  "SecretRef_Resolve (se_getenv example_env) (se_decoder example_env) (example_ref token_secret) = Inr (PtrTokenAuth ''t0p'')"
  by code_simp

lemma example_execute:
  "fst (httpsync_Execute example_env (example_sync token_secret) (fmap_of_list [(''x'', ''y'')])) = Inr ()"
  "fmlookup (snd (snd (httpsync_Execute example_env (example_sync token_secret) (fmap_of_list [(''x'', ''y'')])))) ''d/data.json'' = Some ''Bearer t0p''"
  by code_simp+

lemma Execute_effect_witness:
  "\<exists>s' files'. httpsync_Execute example_env (example_sync token_secret) (fmap_of_list [(''x'', ''y'')]) = (Inr (), s', files') \<and>
     fmlookup files' ''d/data.json'' = Some ''Bearer t0p'' \<and> fmlookup files' ''x'' = Some ''y'' \<and>
     (\<exists>c r status. hs_client s' = Some c \<and>
        he_Do example_env c (RoundTrip c r) = Inr (status, ''Bearer t0p'', None) \<and> 200 \<le> status \<and> status < 300)"
proof -
  obtain out s' files' where e: "httpsync_Execute example_env (example_sync token_secret) (fmap_of_list [(''x'', ''y'')]) = (out, s', files')"
    by (metis prod_cases3)
  with example_execute have out: "out = Inr ()" and content: "fmlookup files' ''d/data.json'' = Some ''Bearer t0p''" by simp_all
  have sync: "hs_path (example_sync token_secret) = ''d/data.json''" "hs_region (example_sync token_secret) = []"
    by (simp_all add: example_sync_def httpsync_New_def)
  have effect: "fmlookup files' ''x'' = fmlookup (fmap_of_list [(''x'', ''y'')]) ''x''"
    and sent: "\<exists>data. fmlookup files' ''d/data.json'' = Some data \<and> (\<exists>c r status. hs_client s' = Some c \<and>
      hs_request example_env (example_sync token_secret) = Inr r \<and>
      he_Do example_env c (RoundTrip c r) = Inr (status, data, None) \<and> 200 \<le> status \<and> status < 300)"
    using Execute_effect [OF e] unfolding out sync by simp_all
  from sent content have "\<exists>c r status. hs_client s' = Some c \<and>
      he_Do example_env c (RoundTrip c r) = Inr (status, ''Bearer t0p'', None) \<and> 200 \<le> status \<and> status < 300"
    by auto
  with e out content effect show ?thesis by auto
qed

lemma client_types_witness:
  "initClient example_env (example_sync token_secret) =
     Inr ((example_sync token_secret)\<lparr>hs_client := Some (WrappedClient (PtrTokenAuth ''t0p''))\<rparr>)"
proof -
  have "hs_client (example_sync token_secret) = None" "hs_provider (example_sync token_secret) = None"
    "hs_credentials (example_sync token_secret) = Some (example_ref token_secret)"
    by (simp_all add: example_sync_def httpsync_New_def)
  from client_types [OF this example_token, THEN conjunct2, THEN conjunct1] show ?thesis by simp
qed

end
