(* ===== verification/DataSync.thy ===== *)
theory DataSync
  imports HttpSync Deps
begin

text \<open>
  The data of a source on disk: the synchronizer of the files kept in the database
  (\<open>internal/sqlsync/sqlsync.go\<close>), and what the synchronizers that the service sets up
  (\<open>SyncSourceSQL\<close>, \<open>SyncDatasources\<close> of \<open>pkg/service/service.go\<close>) write and ask for.
  The disk is a finite map from clean paths to contents; directories exist as far as files need
  them. What the operating system refuses is a parameter, and so is SHA-256.
\<close>

subsection \<open>The synchronizer\<close>

record sqlsync =
  ss_path :: string
  ss_query :: "(string + string \<times> string) list"          \<comment> \<open>a row is a path with its data\<close>
  ss_id :: string
  ss_metadataFields :: "string list"

definition NewSQLSourceDataSynchronizer :: "string \<Rightarrow> (string + string \<times> string) list \<Rightarrow> string \<Rightarrow> string list \<Rightarrow> sqlsync" where
  "NewSQLSourceDataSynchronizer path rows sourceName metadata =
     \<lparr>ss_path = path, ss_query = rows, ss_id = sourceName, ss_metadataFields = metadata\<rparr>"

text \<open>The loop over the rows; the disk keeps what was written before an error.\<close>

fun write_rows ::
    "(disk \<Rightarrow> string \<Rightarrow> string option) \<Rightarrow> string \<Rightarrow> (string + string \<times> string) list \<Rightarrow> disk \<Rightarrow> string option \<times> disk" where
  "write_rows os_error root [] files = (None, files)"
| "write_rows os_error root (Inl e # rows) files = (Some e, files)"
| "write_rows os_error root (Inr (p, data) # rows) files =
     (let path = path_Join [root, p] in
      case os_error files path of
        Some e \<Rightarrow> (Some e, files)
      | None \<Rightarrow> write_rows os_error root rows (fmupd path data files))"

text \<open>\<open>computeDirectoryHash\<close>: names relative to the directory, sorted, each with a zero byte and its contents.\<close>

definition below :: "string \<Rightarrow> string \<Rightarrow> bool" where
  "below root p \<longleftrightarrow> strings_HasPrefix p (root @ ''/'')"

definition directory_files :: "string \<Rightarrow> disk \<Rightarrow> string list" where
  "directory_files root files =
     sort (map (drop (length root + 1)) (sorted_list_of_set (fset (fmdom (fmfilter (below root) files)))))"

definition hash_input :: "string \<Rightarrow> disk \<Rightarrow> string" where
  "hash_input root files =
     concat (map (\<lambda>f. f @ [CHR 0x00] @ the (fmlookup files (root @ ''/'' @ f))) (directory_files root files))"

definition hex_digit :: "nat \<Rightarrow> char" where
  "hex_digit n = ''0123456789abcdef'' ! n"

definition hex_EncodeToString :: "string \<Rightarrow> string" where
  "hex_EncodeToString s = concat (map (\<lambda>c. [hex_digit (byte c div 16), hex_digit (byte c mod 16)]) s)"

definition computeDirectoryHash :: "(string \<Rightarrow> string) \<Rightarrow> string \<Rightarrow> disk \<Rightarrow> string" where
  "computeDirectoryHash sha256 root files = hex_EncodeToString (sha256 (hash_input root files))"

definition sqlsync_Execute ::
    "(string \<Rightarrow> string) \<Rightarrow> (disk \<Rightarrow> string \<Rightarrow> string option) \<Rightarrow> sqlsync \<Rightarrow> disk \<Rightarrow>
     (string + (string, string) fmap option) \<times> disk" where
  "sqlsync_Execute sha256 os_error s files =
     (case os_error files (ss_path s) of
        Some e \<Rightarrow> (Inl e, files)
      | None \<Rightarrow>
          (case write_rows os_error (ss_path s) (ss_query s) files of
             (Some e, files) \<Rightarrow> (Inl e, files)
           | (None, files) \<Rightarrow>
               (Inr (if ''hash'' \<in> set (ss_metadataFields s)
                     then Some (fmap_of_list [(''hash'', computeDirectoryHash sha256 (ss_path s) files)])
                     else None), files)))"

text \<open>\<open>Wipe\<close> of a directory: everything below it is removed.\<close>

definition removeDir :: "string \<Rightarrow> disk \<Rightarrow> disk" where
  "removeDir root files = (if root = [] then files else fmfilter (\<lambda>p. \<not> below root p) files)"


subsection \<open>Where a row is written\<close>

definition rel_elements :: "string \<Rightarrow> string list" where
  "rel_elements p = clean_step False [] (split_on CHR ''/'' p)"

text \<open>A row stays below its directory when its cleaned path, read as a relative one, does not climb.\<close>

definition confined :: "string \<Rightarrow> bool" where
  "confined p \<longleftrightarrow> rel_elements p \<noteq> [] \<and> ''..'' \<notin> set (rel_elements p)"

definition directory :: "string \<Rightarrow> bool" where
  "directory root \<longleftrightarrow> path_Clean root = root \<and> path_elements root \<noteq> []"

lemma clean_step_append: "clean_step r st (xs @ ys) = clean_step r (rev (clean_step r st xs)) ys"
  by (induction r st xs rule: clean_step.induct) (auto split: list.splits)

lemma clean_step_climbs:
  "st \<noteq> [] \<Longrightarrow> last st = ''..'' \<Longrightarrow> ''..'' \<in> set (clean_step False st es)"
proof (induction False st es rule: clean_step.induct)
  case (1 st)
  then show ?case by (metis clean_step.simps(1) last_in_set set_rev)
next
  case (2 st e es)
  from "2.prems" obtain t st' where st: "st = t # st'" by (cases st) auto
  with 2 show ?case by (cases "st' = []") auto
qed

lemma clean_step_confined:
  "''..'' \<notin> set (clean_step False st' es) \<Longrightarrow> clean_step r (st' @ st) es = rev st @ clean_step False st' es"
proof (induction False st' es rule: clean_step.induct)
  case (2 st' e es)
  show ?case
  proof (cases "e = ''..'' \<and> st' = []")
    case True
    then have "''..'' \<in> set (clean_step False st' (e # es))"
      using clean_step_climbs [of "[''..'']" es] by simp
    with "2.prems" show ?thesis by simp
  next
    case False
    with 2 show ?thesis by (auto split: list.splits if_splits)
  qed
qed simp

lemma join_with_append:
  "xs \<noteq> [] \<Longrightarrow> ys \<noteq> [] \<Longrightarrow> join_with c (xs @ ys) = join_with c xs @ c # join_with c ys"
proof (induction c xs rule: join_with.induct)
  case (2 c w)
  then show ?case by (cases ys) auto
qed auto

lemma join_confined:
  assumes "directory root" and "confined p"
  shows "path_Join [root, p] = root @ ''/'' @ join_with CHR ''/'' (rel_elements p)"
proof -
  have root: "root \<noteq> []"
    using assms(1) by (metis directory_def path_Clean_not_Nil)
  then have rooted: "path_rooted (root @ ''/'' @ p) = path_rooted root"
    by (cases root) (auto simp: path_rooted_def strings_HasPrefix_def)
  let ?r = "path_rooted root"
  have "path_elements (root @ ''/'' @ p) = clean_step ?r (rev (path_elements root)) (split_on CHR ''/'' p)"
    unfolding path_elements_def rooted using split_on_append [of "CHR ''/''" root p]
    by (simp add: clean_step_append)
  also have "\<dots> = path_elements root @ rel_elements p"
    using clean_step_confined [of "[]" "split_on CHR ''/'' p" ?r "rev (path_elements root)"] assms(2)
    by (simp add: confined_def rel_elements_def)
  finally have els: "path_elements (root @ ''/'' @ p) = path_elements root @ rel_elements p" .
  have ne: "path_elements root \<noteq> []" "rel_elements p \<noteq> []"
    using assms by (auto simp: directory_def confined_def)
  let ?q = "(if ?r then ''/'' else []) @ join_with CHR ''/'' (path_elements root)"
  have "join_with CHR ''/'' (path_elements root) \<noteq> []"
    using ne(1) path_elements_nonempty by (simp add: join_with_Nil_iff)
  then have "path_Clean root = ?q" by (simp add: path_Clean_def)
  then have q: "root = ?q" using assms(1) by (simp add: directory_def)
  have "path_Clean (root @ ''/'' @ p) = ?q @ ''/'' @ join_with CHR ''/'' (rel_elements p)"
    unfolding path_Clean_def rooted els Let_def join_with_append [OF ne] by simp
  then have "path_Clean (root @ ''/'' @ p) = root @ ''/'' @ join_with CHR ''/'' (rel_elements p)"
    by (subst (2) q)
  then show ?thesis
    using root by (simp add: path_Join_def)
qed


lemma write_rows_files:
  "write_rows os_error root (map Inr ps) files = (None, files') \<Longrightarrow>
   fmlookup files' q = (case map_of (rev (map (\<lambda>(p, d). (path_Join [root, p], d)) ps)) q of
       Some d \<Rightarrow> Some d
     | None \<Rightarrow> fmlookup files q)"
proof (induction ps arbitrary: files)
  case (Cons r ps)
  obtain p d where r: "r = (p, d)" by (cases r)
  from Cons.prems r have "write_rows os_error root (map Inr ps) (fmupd (path_Join [root, p]) d files) = (None, files')"
    by (simp add: Let_def split: option.splits)
  from Cons.IH [OF this] show ?case
    by (simp add: r map_add_def split: option.splits)
qed simp

lemma map_of_below:
  "map_of (map (\<lambda>(p, d). (root @ ''/'' @ f p, d)) ps) q =
   (if below root q then map_of (map (\<lambda>(p, d). (f p, d)) ps) (drop (length root + 1) q) else None)"
  by (induction ps) (auto simp: below_def strings_HasPrefix_def prefix_def)

text \<open>
  C28: When the directory of a source has been wiped, the synchronizer fills it with exactly the
  rows of the database, at their cleaned paths, a later row over an earlier one, and touches no
  file outside, as long as no path climbs out of the directory. A path that climbs is written
  outside: from one source into the directory of another.
\<close>
theorem sql_directory:
  assumes "directory (ss_path s)" and "ss_query s = map Inr ps" and "\<forall>(p, d) \<in> set ps. confined p"
    and "sqlsync_Execute sha256 os_error s (removeDir (ss_path s) files) = (Inr metadata, files')"
  shows "(\<forall>q. fmlookup files' q =
      (if below (ss_path s) q
       then map_of (rev (map (\<lambda>(p, d). (join_with CHR ''/'' (rel_elements p), d)) ps)) (drop (length (ss_path s) + 1) q)
       else fmlookup files q)) \<and>
    snd (sqlsync_Execute sha256 (\<lambda>files p. None)
        (NewSQLSourceDataSynchronizer ''b/sources/s/database'' [Inr (''../../t/database/x.json'', ''1'')] ''s'' []) fmempty) =
      fmap_of_list [(''b/sources/t/database/x.json'', ''1'')]"
proof (intro conjI allI)
  fix q
  let ?root = "ss_path s"
  have rows: "write_rows os_error ?root (map Inr ps) (removeDir ?root files) = (None, files')"
    using assms(2,4) unfolding sqlsync_Execute_def
    by (auto split: option.splits prod.splits)
  have "map (\<lambda>(p, d). (path_Join [?root, p], d)) ps =
      map (\<lambda>(p, d). (?root @ ''/'' @ join_with CHR ''/'' (rel_elements p), d)) ps"
    using assms(3) join_confined [OF assms(1)] by auto
  then have paths: "rev (map (\<lambda>(p, d). (path_Join [?root, p], d)) ps) =
      map (\<lambda>(p, d). (?root @ ''/'' @ join_with CHR ''/'' (rel_elements p), d)) (rev ps)"
    by (simp only: rev_map)
  have "?root \<noteq> []"
    using assms(1) by (metis directory_def path_Clean_not_Nil)
  with write_rows_files [OF rows, of q, unfolded paths map_of_below] show "fmlookup files' q =
      (if below ?root q
       then map_of (rev (map (\<lambda>(p, d). (join_with CHR ''/'' (rel_elements p), d)) ps)) (drop (length ?root + 1) q)
       else fmlookup files q)"
    by (auto simp: removeDir_def rev_map split: option.splits)
next
  show "snd (sqlsync_Execute sha256 (\<lambda>files p. None)
      (NewSQLSourceDataSynchronizer ''b/sources/s/database'' [Inr (''../../t/database/x.json'', ''1'')] ''s'' []) fmempty) =
    fmap_of_list [(''b/sources/t/database/x.json'', ''1'')]"
    by code_simp
qed

definition example_rows :: "(string \<times> string) list" where
  "example_rows = [(''a/../x.json'', ''1''), (''x.json'', ''2'')]"

definition example_sql :: sqlsync where
  "example_sql = NewSQLSourceDataSynchronizer ''d'' (map Inr example_rows) ''s'' []"

definition example_disk :: disk where
  "example_disk = fmap_of_list [(''d/old.json'', ''0''), (''e'', ''3'')]"

lemma sql_directory_witness:
  "\<exists>files'. sqlsync_Execute id (\<lambda>files p. None) example_sql (removeDir ''d'' example_disk) = (Inr None, files') \<and>
     fmlookup files' ''d/x.json'' = Some ''2'' \<and> fmlookup files' ''d/old.json'' = None \<and> fmlookup files' ''e'' = Some ''3''"
proof -
  have s: "ss_path example_sql = ''d''" "ss_query example_sql = map Inr example_rows"
    by (simp_all add: example_sql_def NewSQLSourceDataSynchronizer_def)
  have "directory (ss_path example_sql)" "\<forall>(p, d) \<in> set example_rows. confined p"
    by code_simp+
  moreover have "fst (sqlsync_Execute id (\<lambda>files p. None) example_sql (removeDir ''d'' example_disk)) = Inr None"
    by code_simp
  then obtain files' where e: "sqlsync_Execute id (\<lambda>files p. None) example_sql (removeDir ''d'' example_disk) = (Inr None, files')"
    by (metis prod.collapse)
  ultimately have at: "fmlookup files' q =
      (if below ''d'' q
       then map_of (rev (map (\<lambda>(p, d). (join_with CHR ''/'' (rel_elements p), d)) example_rows)) (drop (length ''d'' + 1) q)
       else fmlookup example_disk q)" for q
    using sql_directory [OF _ s(2), of id "\<lambda>files p. None" example_disk None files'] unfolding s(1) by blast
  have "fmlookup files' ''d/x.json'' = Some ''2''" "fmlookup files' ''d/old.json'' = None" "fmlookup files' ''e'' = Some ''3''"
    unfolding at by code_simp+
  with e show ?thesis by blast
qed

subsection \<open>The hash of a directory\<close>

lemma directory_files_cong:
  assumes "\<forall>q. below root q \<longrightarrow> fmlookup files q = fmlookup files' q"
  shows "fmfilter (below root) files = fmfilter (below root) files'"
  using assms by (auto simp: fmap_eq_iff)

text \<open>
  The hash is that of the contents of the directory, whatever else is on the disk. It does not
  tell all contents apart: a name follows the contents before it without a separator, so a piece
  of text can move from a file to the name of the next one.
\<close>
theorem hash_of_directory:
  assumes "\<forall>q. below root q \<longrightarrow> fmlookup files q = fmlookup files' q"
  shows "computeDirectoryHash sha256 root files = computeDirectoryHash sha256 root files' \<and>
    computeDirectoryHash sha256 ''d'' (fmap_of_list [(''d/a'', ''x''), (''d/b'', ''y'')]) =
      computeDirectoryHash sha256 ''d'' (fmap_of_list [(''d/a'', []), (''d/xb'', ''y'')])"
proof
  have "fmlookup files (root @ ''/'' @ f) = fmlookup files' (root @ ''/'' @ f)" for f
    using assms by (simp add: below_def strings_HasPrefix_def)
  then show "computeDirectoryHash sha256 root files = computeDirectoryHash sha256 root files'"
    unfolding computeDirectoryHash_def hash_input_def directory_files_def directory_files_cong [OF assms] by simp
  have "hash_input ''d'' (fmap_of_list [(''d/a'', ''x''), (''d/b'', ''y'')]) =
      hash_input ''d'' (fmap_of_list [(''d/a'', []), (''d/xb'', ''y'')])"
    by code_simp
  then show "computeDirectoryHash sha256 ''d'' (fmap_of_list [(''d/a'', ''x''), (''d/b'', ''y'')]) =
      computeDirectoryHash sha256 ''d'' (fmap_of_list [(''d/a'', []), (''d/xb'', ''y'')])"
    by (simp only: computeDirectoryHash_def)
qed

lemma hash_of_directory_witness:
  "computeDirectoryHash id ''d'' (fmap_of_list [(''d/a'', ''x''), (''e'', ''1'')]) =
   computeDirectoryHash id ''d'' (fmap_of_list [(''d/a'', ''x''), (''e'', ''2'')])"
proof -
  have "\<forall>q. below ''d'' q \<longrightarrow> fmlookup (fmap_of_list [(''d/a'', ''x''), (''e'', ''1'')]) q =
      fmlookup (fmap_of_list [(''d/a'', ''x''), (''e'', ''2'')]) q"
    by (simp add: below_def strings_HasPrefix_def fmlookup_of_list)
  from hash_of_directory [OF this] show ?thesis by blast
qed


subsection \<open>The object an S3 data source asks for\<close>

text \<open>
  What is relied on of \<open>url.Parse\<close>: a URL of letters, digits and the marks below has the host
  and the path that its text shows.
\<close>

definition plain_host :: "string \<Rightarrow> bool" where
  "plain_host h \<longleftrightarrow> h \<noteq> [] \<and> list_all (\<lambda>c. isAlphaNum c \<or> c = CHR ''-'' \<or> c = CHR ''.'') h"

definition plain_path :: "string \<Rightarrow> bool" where
  "plain_path p \<longleftrightarrow> list_all (\<lambda>c. isAlphaNum c \<or> c \<in> set ''-./='') p"

definition parses_plain :: "(string \<Rightarrow> string + string \<times> string) \<Rightarrow> bool" where
  "parses_plain url_Parse \<longleftrightarrow>
     (\<forall>host path. plain_host host \<longrightarrow> plain_path path \<longrightarrow>
        url_Parse (''https://'' @ host @ ''/'' @ path) = Inr (host, ''/'' @ path))"

lemma slash_not_plain: "\<not> (isAlphaNum CHR ''/'' \<or> CHR ''/'' = CHR ''-'' \<or> CHR ''/'' = CHR ''.'')"
  by code_simp

lemma plain_host_no_slash:
  assumes "plain_host h"
  shows "CHR ''/'' \<notin> set h"
proof
  assume "CHR ''/'' \<in> set h"
  have "\<forall>c \<in> set h. isAlphaNum c \<or> c = CHR ''-'' \<or> c = CHR ''.''"
    using assms unfolding plain_host_def list_all_iff by (rule conjunct2)
  then have "isAlphaNum CHR ''/'' \<or> CHR ''/'' = CHR ''-'' \<or> CHR ''/'' = CHR ''.''"
    using \<open>CHR ''/'' \<in> set h\<close> by (rule bspec)
  with slash_not_plain show False by (rule notE)
qed

lemma plain_host_append: "plain_host s \<Longrightarrow> plain_host t \<Longrightarrow> plain_host (s @ t)"
  by (simp add: plain_host_def)

lemma parses_plainD:
  assumes "parses_plain url_Parse" "plain_host host" "plain_path path" "u = ''https://'' @ host @ ''/'' @ path"
  shows "url_Parse u = Inr (host, ''/'' @ path)"
  using assms by (simp only: parses_plain_def)

lemma amazonaws_plain: "plain_host ''.s3.''" "plain_host ''.amazonaws.com''"
  by (simp_all add: plain_host_def isAlphaNum_def)

definition object_of :: "datasource \<Rightarrow> string \<times> string" where
  "object_of d = (config_string d ''bucket'', config_string d ''key'')"

text \<open>
  The URL that the service makes of an S3 data source is read back by its synchronizer as the
  configured bucket and key, with Amazon's endpoint and with one of its own, if the bucket has no
  dot; a bucket with a dot in its name is replaced by the part before the dot.
\<close>
theorem s3_object_asked:
  assumes "parses_plain url_Parse" and "object_of d = (bucket, key)"
    and "plain_host bucket" and "plain_path key" and "key \<noteq> []"
    and "CHR ''.'' \<notin> set bucket" and "\<not> prefix ''s3-'' bucket" and "bucket \<noteq> ''s3''"
    and "plain_host (cmp_Or (config_string d ''region'') ''us-east-1'')"
  shows "(config_string d ''endpoint'' = [] \<longrightarrow> parseS3URL url_Parse (s3_url d) = Inr (object_of d)) \<and>
    (\<forall>host. config_string d ''endpoint'' = ''https://'' @ host \<longrightarrow> plain_host host \<longrightarrow> \<not> sublist ''.s3.'' host \<longrightarrow>
       parseS3URL url_Parse (s3_url d) = Inr (object_of d)) \<and>
    (\<forall>e rest. config_string e ''endpoint'' = [] \<longrightarrow> object_of e = (bucket @ ''.'' @ rest, key) \<longrightarrow> plain_host rest \<longrightarrow>
       plain_host (cmp_Or (config_string e ''region'') ''us-east-1'') \<longrightarrow>
       parseS3URL url_Parse (s3_url e) = Inr (bucket, key))"
proof (intro conjI allI impI)
  let ?aws = "\<lambda>region. region @ ''.amazonaws.com''"
  have virtual: "parseS3URL url_Parse (''https://'' @ (bucket @ ''.'' @ rest) @ ''/'' @ key) = Inr (bucket, key)"
    if "plain_host (''.'' @ rest)" "sublist ''.s3.'' (bucket @ ''.'' @ rest)" for rest
    by (rule parse_virtual [OF assms(6,7,8) that(2) assms(5)])
      (rule parses_plainD [OF assms(1) plain_host_append [OF assms(3) that(1)] assms(4) refl])
  show "parseS3URL url_Parse (s3_url d) = Inr (object_of d)" if "config_string d ''endpoint'' = []"
  proof -
    let ?r = "cmp_Or (config_string d ''region'') ''us-east-1''"
    have "plain_host (''.s3.'' @ ?r @ ''.amazonaws.com'')"
      by (intro plain_host_append amazonaws_plain assms(9))
    moreover have "sublist ''.s3.'' (bucket @ ''.s3.'' @ ?aws ?r)" by (rule sublist_appendI)
    moreover have "s3_url d = ''https://'' @ (bucket @ ''.s3.'' @ ?aws ?r) @ ''/'' @ key"
      using assms(2) that by (simp add: s3_url_def object_of_def Let_def)
    ultimately show ?thesis
      using virtual [of "''s3.'' @ ?aws ?r"] assms(2) by simp
  qed
  show "parseS3URL url_Parse (s3_url d) = Inr (object_of d)"
    if "config_string d ''endpoint'' = ''https://'' @ host" "plain_host host" "\<not> sublist ''.s3.'' host" for host
  proof -
    have "plain_path (bucket @ ''/'' @ key)"
      using assms(3,4) unfolding plain_host_def plain_path_def by (auto simp: list_all_iff)
    then have "url_Parse (s3_url d) = Inr (host, ''/'' @ bucket @ ''/'' @ key)"
      by (rule parses_plainD [OF assms(1) that(2)])
        (use assms(2) that(1) in \<open>simp add: s3_url_def object_of_def Let_def\<close>)
    moreover have "CHR ''/'' \<notin> set bucket"
      using assms(3) by (rule plain_host_no_slash)
    ultimately show ?thesis
      unfolding assms(2) by (rule parse_path_style [OF that(3), rotated])
  qed
  show "parseS3URL url_Parse (s3_url e) = Inr (bucket, key)"
    if "config_string e ''endpoint'' = []" "object_of e = (bucket @ ''.'' @ rest, key)" "plain_host rest"
      "plain_host (cmp_Or (config_string e ''region'') ''us-east-1'')" for e rest
  proof -
    let ?r = "cmp_Or (config_string e ''region'') ''us-east-1''"
    have "plain_host (''.'' @ rest @ ''.s3.'' @ ?aws ?r)"
      using that(3,4) amazonaws_plain by (simp add: plain_host_def)
    moreover have "sublist ''.s3.'' ((bucket @ ''.'' @ rest) @ ''.s3.'' @ ?aws ?r)" by (rule sublist_appendI)
    moreover have "s3_url e = ''https://'' @ (bucket @ ''.'' @ rest @ ''.s3.'' @ ?aws ?r) @ ''/'' @ key"
      using that by (simp add: s3_url_def object_of_def Let_def)
    ultimately show ?thesis
      using virtual [of "rest @ ''.s3.'' @ ?aws ?r"] by simp
  qed
qed


definition plain_url_Parse :: "string \<Rightarrow> string + string \<times> string" where
  "plain_url_Parse u =
     (if strings_HasPrefix u ''https://''
      then (let rest = drop 8 u in Inr (takeWhile (\<lambda>c. c \<noteq> CHR ''/'') rest, dropWhile (\<lambda>c. c \<noteq> CHR ''/'') rest))
      else Inl u)"

lemma plain_url_parses: "parses_plain plain_url_Parse"
  unfolding parses_plain_def
proof (intro allI impI)
  fix host path assume "plain_host host"
  then have "CHR ''/'' \<notin> set host" by (rule plain_host_no_slash)
  then have "takeWhile (\<lambda>c. c \<noteq> CHR ''/'') (host @ CHR ''/'' # path) = host"
    and "dropWhile (\<lambda>c. c \<noteq> CHR ''/'') (host @ CHR ''/'' # path) = CHR ''/'' # path"
    by (subst takeWhile_append2, auto, subst dropWhile_append2, auto)
  then show "plain_url_Parse (''https://'' @ host @ ''/'' @ path) = Inr (host, ''/'' @ path)"
    by (simp add: plain_url_Parse_def strings_HasPrefix_def Let_def)
qed

definition s3_source :: "string \<Rightarrow> string \<Rightarrow> datasource" where
  "s3_source bucket key = \<lparr>ds_Name = ''d'', ds_Path = ''p'', ds_Type = ''s3'', ds_TransformQuery = [],
     ds_Config = Some (fmap_of_list [(''bucket'', AStr bucket), (''key'', AStr key)]), ds_Credentials = None\<rparr>"

lemma s3_object_asked_witness:
  "parseS3URL plain_url_Parse (s3_url (s3_source ''logs'' ''a/b.json'')) = Inr (''logs'', ''a/b.json'') \<and>
   parseS3URL plain_url_Parse (s3_url (s3_source ''logs.example'' ''a/b.json'')) = Inr (''logs'', ''a/b.json'')"
proof -
  let ?d = "s3_source ''logs'' ''a/b.json''" and ?e = "s3_source ''logs.example'' ''a/b.json''"
  have d: "object_of ?d = (''logs'', ''a/b.json'')" "plain_host ''logs''" "plain_path ''a/b.json''" "''a/b.json'' \<noteq> []"
    "CHR ''.'' \<notin> set ''logs''" "\<not> prefix ''s3-'' ''logs''" "''logs'' \<noteq> ''s3''"
    "plain_host (cmp_Or (config_string ?d ''region'') ''us-east-1'')" "config_string ?d ''endpoint'' = []"
    by code_simp+
  have e: "config_string ?e ''endpoint'' = []" "object_of ?e = (''logs'' @ ''.'' @ ''example'', ''a/b.json'')"
    "plain_host ''example''" "plain_host (cmp_Or (config_string ?e ''region'') ''us-east-1'')"
    by code_simp+
  note asked = s3_object_asked [OF plain_url_parses d(1-8)]
  from asked d(1,9) have "parseS3URL plain_url_Parse (s3_url ?d) = Inr (''logs'', ''a/b.json'')" by metis
  moreover from asked e have "parseS3URL plain_url_Parse (s3_url ?e) = Inr (''logs'', ''a/b.json'')" by blast
  ultimately show ?thesis ..
qed

end
