(* ===== verification/GitSync.thy ===== *)
theory GitSync
  imports HttpSync
begin

text \<open>
  The Git synchronizer of \<open>internal/gitsync/gitsync.go\<close>. What it does to the local repository and
  the network is recorded as a trace of events; the answers of the file system and of \<open>go-git\<close>
  are parameters, which may depend on the trace so far. The file \<open>ocpconfig\<close> holds a
  configuration as JSON: of the text, the model has the value it encodes.
\<close>

subsection \<open>The configuration on disk\<close>

datatype stored_ref = Absent | Null | Named string

record stored =
  st_Repo :: string
  st_Reference :: "string option"
  st_Commit :: "string option"
  st_Path :: "string option"
  st_IncludedFiles :: stringset
  st_ExcludedFiles :: stringset
  st_Credentials :: stored_ref

definition Git_Marshal :: "git \<Rightarrow> stored" where
  "Git_Marshal g =
     \<lparr>st_Repo = git_Repo g, st_Reference = git_Reference g, st_Commit = git_Commit g, st_Path = git_Path g,
      st_IncludedFiles = git_IncludedFiles g, st_ExcludedFiles = git_ExcludedFiles g,
      st_Credentials = (case git_Credentials g of
          None \<Rightarrow> Absent
        | Some r \<Rightarrow> if ref_Name r = [] then Null else Named (ref_Name r))\<rparr>"

text \<open>
  Decoding into a configuration that has the credentials of the synchronizer: a name is written
  through their pointer, so it changes the synchronizer as well. The second component is what its
  credentials are afterwards.
\<close>

definition Git_Unmarshal :: "stored \<Rightarrow> secretref option \<Rightarrow> git \<times> secretref option" where
  "Git_Unmarshal st credentials =
     (let (decoded, shared) =
        (case st_Credentials st of
           Absent \<Rightarrow> (credentials, credentials)
         | Null \<Rightarrow> (None, credentials)
         | Named n \<Rightarrow>
             (case credentials of
                None \<Rightarrow> (Some \<lparr>ref_Name = n, ref_value = None\<rparr>, None)
              | Some r \<Rightarrow> (Some (r\<lparr>ref_Name := n\<rparr>), Some (r\<lparr>ref_Name := n\<rparr>))))
      in (\<lparr>git_Repo = st_Repo st, git_Reference = st_Reference st, git_Commit = st_Commit st, git_Path = st_Path st,
           git_IncludedFiles = st_IncludedFiles st, git_ExcludedFiles = st_ExcludedFiles st,
           git_Credentials = decoded\<rparr>, shared))"

subsection \<open>Authentication\<close>

record 'tr github =
  ghc_integrationID :: int
  ghc_installationID :: int
  ghc_privateKey :: string
  ghc_tr :: "'tr option"

datatype 'signer auth_method =
    GitBasicAuth string string "string list"
  | HTTPBasicAuth string string
  | SSHPublicKeys string 'signer "string list"
  | GitTokenAuth typed string

datatype git_error =
    NeitherReferenceNorCommit
  | GitFailed string
  | GitSecret secret_error
  | GitProvider string
  | NotForGit string
  | NoFingerprints

record ('tr, 'signer) auth_env =
  ae_getenv :: "string \<Rightarrow> string"
  ae_decoder :: decoder
  ae_ReadFile :: "string \<Rightarrow> string + string"
  ae_NewTransport :: "int \<Rightarrow> int \<Rightarrow> string \<Rightarrow> string + 'tr"
  ae_Token :: "'tr \<Rightarrow> string + string"
  ae_ParsePrivateKey :: "string \<Rightarrow> string option \<Rightarrow> string + 'signer"

text \<open>The transport of a GitHub app is kept as long as the identifiers and the key stay the same.\<close>

definition github_transport ::
    "('tr, 'signer) auth_env \<Rightarrow> int \<Rightarrow> int \<Rightarrow> string \<Rightarrow> 'tr github \<Rightarrow> (string + 'tr) \<times> 'tr github" where
  "github_transport env integration installation key gh =
     (if ghc_tr gh = None \<or> ghc_integrationID gh \<noteq> integration \<or> ghc_installationID gh \<noteq> installation \<or>
         ghc_privateKey gh \<noteq> key
      then (case ae_NewTransport env integration installation key of
          Inl e \<Rightarrow> (Inl e, gh)
        | Inr tr \<Rightarrow> (Inr tr, \<lparr>ghc_integrationID = integration, ghc_installationID = installation,
            ghc_privateKey = key, ghc_tr = Some tr\<rparr>))
      else (Inr (the (ghc_tr gh)), gh))"

definition github_Token ::
    "('tr, 'signer) auth_env \<Rightarrow> secretGitHubApp \<Rightarrow> 'tr github \<Rightarrow> (string + string) \<times> 'tr github" where
  "github_Token env v gh =
     (case ae_ReadFile env (gh_PrivateKey v) of
        Inl e \<Rightarrow> (Inl e, gh)
      | Inr key \<Rightarrow>
          (case github_transport env (gh_IntegrationID v) (gh_InstallationID v) key gh of
             (Inl e, gh) \<Rightarrow> (Inl e, gh)
           | (Inr tr, gh) \<Rightarrow> (ae_Token env tr, gh)))"

definition newSSHAuth :: "('tr, 'signer) auth_env \<Rightarrow> secretSSHKey \<Rightarrow> git_error + 'signer auth_method" where
  "newSSHAuth env v =
     (case ae_ParsePrivateKey env (ssh_Key v) (if ssh_Passphrase v \<noteq> [] then Some (ssh_Passphrase v) else None) of
        Inl e \<Rightarrow> Inl (GitFailed e)
      | Inr signer \<Rightarrow>
          if ssh_Fingerprints v = [] then Inl NoFingerprints
          else Inr (SSHPublicKeys ''git'' signer (ssh_Fingerprints v)))"

text \<open>The callback that checks the key of a host: its fingerprint must be in the list.\<close>

definition newCheckFingerprints :: "string list \<Rightarrow> string \<Rightarrow> string + unit" where
  "newCheckFingerprints fingerprints fingerprint =
     (if fingerprint \<in> set fingerprints then Inr () else Inl fingerprint)"

definition authFromTyped ::
    "('tr, 'signer) auth_env \<Rightarrow> typed \<Rightarrow> 'tr github \<Rightarrow> (git_error + 'signer auth_method) \<times> 'tr github" where
  "authFromTyped env t gh =
     (case t of
        PtrBasicAuth v \<Rightarrow> (Inr (GitBasicAuth (ba_Username v) (ba_Password v) (ba_Headers v)), gh)
      | GitHubApp v \<Rightarrow>
          (case github_Token env v gh of
             (Inl e, gh) \<Rightarrow> (Inl (GitFailed e), gh)
           | (Inr token, gh) \<Rightarrow> (Inr (HTTPBasicAuth ''x-access-token'' token), gh))
      | SSHKey v \<Rightarrow> (newSSHAuth env v, gh)
      | PtrOIDC v \<Rightarrow> (Inr (GitTokenAuth t ''oidc-client-credentials''), gh)
      | PtrTokenAuth v \<Rightarrow> (Inr (GitTokenAuth t ''bearer-token''), gh)
      | _ \<Rightarrow> (Inl (NotForGit (type_name t)), gh))"

record 'tr gitsync =
  gs_path :: string
  gs_config :: git
  gs_gh :: "'tr github"
  gs_sourceName :: string
  gs_secretProvider :: "(string \<Rightarrow> string + (string, any) fmap) option"

definition gitsync_New :: "string \<Rightarrow> git \<Rightarrow> string \<Rightarrow> 'tr gitsync" where
  "gitsync_New path config sourceName =
     \<lparr>gs_path = path, gs_config = config,
      gs_gh = \<lparr>ghc_integrationID = 0, ghc_installationID = 0, ghc_privateKey = [], ghc_tr = None\<rparr>,
      gs_sourceName = sourceName, gs_secretProvider = None\<rparr>"

definition gs_WithSecretProvider where
  "gs_WithSecretProvider provider s = s\<lparr>gs_secretProvider := Some provider\<rparr>"

text \<open>\<open>auth\<close>: no method for a configuration without credentials.\<close>

definition git_typed :: "('tr, 'signer) auth_env \<Rightarrow> 'tr gitsync \<Rightarrow> secretref \<Rightarrow> git_error + typed" where
  "git_typed env s ref =
     (let typed_of = (\<lambda>r. case r of Inl e \<Rightarrow> Inl (GitSecret e) | Inr t \<Rightarrow> Inr t) in
      case gs_secretProvider s of
        Some provider \<Rightarrow>
          (case provider (ref_Name ref) of
             Inl e \<Rightarrow> Inl (GitProvider e)
           | Inr m \<Rightarrow> typed_of (Typed (ae_getenv env) (ae_decoder env) \<lparr>sec_Name = ref_Name ref, sec_Value = Some m\<rparr>))
      | None \<Rightarrow> typed_of (SecretRef_Resolve (ae_getenv env) (ae_decoder env) ref))"

definition git_auth ::
    "('tr, 'signer) auth_env \<Rightarrow> 'tr gitsync \<Rightarrow> (git_error + 'signer auth_method option) \<times> 'tr gitsync" where
  "git_auth env s =
     (case git_Credentials (gs_config s) of
        None \<Rightarrow> (Inr None, s)
      | Some ref \<Rightarrow>
          (case git_typed env s ref of
             Inl e \<Rightarrow> (Inl e, s)
           | Inr t \<Rightarrow>
               (case authFromTyped env t (gs_gh s) of
                  (Inl e, gh) \<Rightarrow> (Inl e, s\<lparr>gs_gh := gh\<rparr>)
                | (Inr a, gh) \<Rightarrow> (Inr (Some a), s\<lparr>gs_gh := gh\<rparr>))))"


text \<open>What the methods of this package put into a request: extra headers, or a token, if there is one.\<close>

definition is_space :: "char \<Rightarrow> bool" where
  "is_space c \<longleftrightarrow> c = CHR '' '' \<or> 9 \<le> byte c \<and> byte c \<le> 13"

definition TrimSpace :: "string \<Rightarrow> string" where
  "TrimSpace s = rev (dropWhile is_space (rev (dropWhile is_space s)))"

definition extra_header :: "string \<Rightarrow> out_request \<Rightarrow> out_request" where
  "extra_header header r =
     (case dropWhile (\<lambda>c. c \<noteq> CHR '':'') header of
        [] \<Rightarrow> r
      | _ # v \<Rightarrow> Header_Set (TrimSpace (takeWhile (\<lambda>c. c \<noteq> CHR '':'') header)) (TrimSpace v) r)"

fun SetAuth :: "'cert secret_env \<Rightarrow> 'signer auth_method \<Rightarrow> out_request \<Rightarrow> out_request" where
  "SetAuth env (GitBasicAuth u p hs) r = fold extra_header hs (SetBasicAuth u p r)"
| "SetAuth env (GitTokenAuth (PtrTokenAuth t) name) r = Header_Set ''Authorization'' (''Bearer '' @ t) r"
| "SetAuth env (GitTokenAuth (PtrOIDC v) name) r =
     (case OIDC_Token env v of
        Inl e \<Rightarrow> r
      | Inr t \<Rightarrow> Header_Set ''Authorization'' (''Bearer '' @ t) r)"
| "SetAuth env _ r = r"

subsection \<open>A synchronization\<close>

datatype 'signer git_event =
    ReadConfig
  | RemoveAll
  | PlainOpen
  | Clone string "'signer auth_method option" string
  | WriteConfig stored
  | Worktree
  | CheckoutHash string
  | CheckoutBranch string
  | Fetch "'signer auth_method option"
  | ReadHead

datatype read_result = NoConfig | Unreadable string | Garbled | Config_file stored

datatype open_result = Opened | NotExists | OpenFailed string

record ('tr, 'signer) git_env = "('tr, 'signer) auth_env" +
  ge_ReadFile :: "'signer git_event list \<Rightarrow> read_result"
  ge_RemoveAll :: "'signer git_event list \<Rightarrow> string option"
  ge_PlainOpen :: "'signer git_event list \<Rightarrow> open_result"
  ge_PlainClone :: "'signer git_event list \<Rightarrow> string option"
  ge_WriteFile :: "'signer git_event list \<Rightarrow> string option"
  ge_Worktree :: "'signer git_event list \<Rightarrow> string option"
  ge_Checkout :: "'signer git_event list \<Rightarrow> string option"
  ge_Fetch :: "'signer git_event list \<Rightarrow> string option"
  ge_Head :: "'signer git_event list \<Rightarrow> string + string"

text \<open>An event with its answer: the operation sees the trace that ends with itself.\<close>

definition happen ::
    "('signer git_event list \<Rightarrow> string option) \<Rightarrow> 'signer git_event \<Rightarrow> 'signer git_event list \<Rightarrow>
     (git_error + unit) \<times> 'signer git_event list" where
  "happen answer e t =
     (case answer (t @ [e]) of
        Some err \<Rightarrow> (Inl (GitFailed err), t @ [e])
      | None \<Rightarrow> (Inr (), t @ [e]))"

text \<open>A clone made for another configuration is removed; the comparison is \<open>Git.Equal\<close>.\<close>

definition check_clone ::
    "('tr, 'signer, 'z) git_env_scheme \<Rightarrow> 'tr gitsync \<Rightarrow> (git_error + unit) \<times> 'signer git_event list \<times> 'tr gitsync" where
  "check_clone env s =
     (case ge_ReadFile env [ReadConfig] of
        NoConfig \<Rightarrow> (Inr (), [ReadConfig], s)
      | Unreadable e \<Rightarrow> (Inl (GitFailed e), [ReadConfig], s)
      | Garbled \<Rightarrow> (let (r, t) = happen (ge_RemoveAll env) RemoveAll [ReadConfig] in (r, t, s))
      | Config_file st \<Rightarrow>
          (let (config, shared) = Git_Unmarshal st (git_Credentials (gs_config s));
               s = s\<lparr>gs_config := (gs_config s)\<lparr>git_Credentials := shared\<rparr>\<rparr>
           in if Git_Equal (Some config) (Some (gs_config s)) then (Inr (), [ReadConfig], s)
              else (let (r, t) = happen (ge_RemoveAll env) RemoveAll [ReadConfig] in (r, t, s))))"

text \<open>Opens the repository, or clones it and records the configuration; with whether it was cloned and how.\<close>

definition open_or_clone where
  "open_or_clone env t s =
     (case ge_PlainOpen env (t @ [PlainOpen]) of
        Opened \<Rightarrow> (Inr (False, None), t @ [PlainOpen], s)
      | OpenFailed e \<Rightarrow> (Inl (GitFailed e), t @ [PlainOpen], s)
      | NotExists \<Rightarrow>
          (let t = t @ [PlainOpen] in
           case git_auth (auth_env.truncate env) s of
             (Inl e, s) \<Rightarrow> (Inl e, t, s)
           | (Inr a, s) \<Rightarrow>
               (case happen (ge_PlainClone env)
                    (Clone (git_Repo (gs_config s)) a (case git_Reference (gs_config s) of None \<Rightarrow> [] | Some r \<Rightarrow> r)) t of
                  (Inl e, t) \<Rightarrow> (Inl e, t, s)
                | (Inr _, t) \<Rightarrow>
                    (case happen (ge_WriteFile env) (WriteConfig (Git_Marshal (gs_config s))) t of
                       (Inl e, t) \<Rightarrow> (Inl e, t, s)
                     | (Inr _, t) \<Rightarrow> (Inr (True, a), t, s)))))"

definition read_head where
  "read_head env fetched t s =
     (case ge_Head env (t @ [ReadHead]) of
        Inl e \<Rightarrow> (Inl (GitFailed e), t @ [ReadHead], s)
      | Inr h \<Rightarrow> (Inr (fetched, h), t @ [ReadHead], s))"

text \<open>Fetches everything and checks out the commit, or the reference of the remote.\<close>

definition fetch_and_checkout where
  "fetch_and_checkout env a t s =
     (case (case a of None \<Rightarrow> git_auth (auth_env.truncate env) s | Some m \<Rightarrow> (Inr (Some m), s)) of
        (Inl e, s) \<Rightarrow> (Inl e, t, s)
      | (Inr a, s) \<Rightarrow>
          (case happen (ge_Fetch env) (Fetch a) t of
             (Inl e, t) \<Rightarrow> (Inl e, t, s)
           | (Inr _, t) \<Rightarrow>
               (case happen (ge_Checkout env)
                    (case git_Commit (gs_config s) of
                       Some c \<Rightarrow> CheckoutHash c
                     | None \<Rightarrow> CheckoutBranch (''refs/remotes/origin/'' @ (case git_Reference (gs_config s) of None \<Rightarrow> [] | Some r \<Rightarrow> r))) t of
                  (Inl e, t) \<Rightarrow> (Inl e, t, s)
                | (Inr _, t) \<Rightarrow> read_head env True t s)))"

definition checkout where
  "checkout env fetched a t s =
     (case happen (ge_Worktree env) Worktree t of
        (Inl e, t) \<Rightarrow> (Inl e, t, s)
      | (Inr _, t) \<Rightarrow>
          (case git_Commit (gs_config s) of
             None \<Rightarrow> fetch_and_checkout env a t s
           | Some c \<Rightarrow>
               (case happen (ge_Checkout env) (CheckoutHash c) t of
                  (Inr _, t) \<Rightarrow> read_head env fetched t s
                | (Inl _, t) \<Rightarrow> fetch_and_checkout env a t s)))"

definition gitsync_execute ::
    "('tr, 'signer, 'z) git_env_scheme \<Rightarrow> 'tr gitsync \<Rightarrow>
     (git_error + bool \<times> string) \<times> 'signer git_event list \<times> 'tr gitsync" where
  "gitsync_execute env s =
     (if git_Commit (gs_config s) = None \<and> git_Reference (gs_config s) = None
      then (Inl NeitherReferenceNorCommit, [], s)
      else
        (case check_clone env s of
           (Inl e, t, s) \<Rightarrow> (Inl e, t, s)
         | (Inr _, t, s) \<Rightarrow>
             (case open_or_clone env t s of
                (Inl e, t, s) \<Rightarrow> (Inl e, t, s)
              | (Inr (fetched, a), t, s) \<Rightarrow> checkout env fetched a t s)))"

text \<open>\<open>Execute\<close>: the metadata is the commit. The metrics are left out.\<close>

definition gitsync_Execute where
  "gitsync_Execute env s =
     (case gitsync_execute env s of
        (Inl e, t, s) \<Rightarrow> (Inl (gs_sourceName s, git_Repo (gs_config s), e), t, s)
      | (Inr (fetched, h), t, s) \<Rightarrow> (Inr (fmap_of_list [(''commit'', h)]), t, s))"


subsection \<open>What a successful synchronization has done\<close>

fun is_network :: "'signer git_event \<Rightarrow> bool" where
  "is_network (Clone u a r) \<longleftrightarrow> True"
| "is_network (Fetch a) \<longleftrightarrow> True"
| "is_network _ \<longleftrightarrow> False"

lemma happen_Inr [simp]: "happen answer e t = (Inr u, t') \<longleftrightarrow> answer (t @ [e]) = None \<and> t' = t @ [e]"
  by (auto simp: happen_def split: option.splits)

lemma happen_trace: "snd (happen answer e t) = t @ [e]"
  by (auto simp: happen_def split: option.splits)

lemma git_auth_config: "gs_config (snd (git_auth env s)) = gs_config s"
  by (auto simp: git_auth_def split: option.splits sum.splits prod.splits)

definition wanted :: "git \<Rightarrow> 'signer git_event" where
  "wanted g =
     (case git_Commit g of
        Some c \<Rightarrow> CheckoutHash c
      | None \<Rightarrow> CheckoutBranch (''refs/remotes/origin/'' @ (case git_Reference g of None \<Rightarrow> [] | Some r \<Rightarrow> r)))"

text \<open>The configuration that counts: the given one, with the credentials under their recorded name.\<close>

definition same_but_credentials :: "git \<Rightarrow> git \<Rightarrow> bool" where
  "same_but_credentials g g' \<longleftrightarrow> g'\<lparr>git_Credentials := git_Credentials g\<rparr> = g"

lemma same_but_credentialsD:
  assumes "same_but_credentials g g'"
  shows "git_Commit g' = git_Commit g" "git_Reference g' = git_Reference g" "git_Repo g' = git_Repo g"
  using arg_cong [OF assms [unfolded same_but_credentials_def], of git_Commit]
    arg_cong [OF assms [unfolded same_but_credentials_def], of git_Reference]
    arg_cong [OF assms [unfolded same_but_credentials_def], of git_Repo] by simp_all

lemma check_clone_Inr:
  assumes "check_clone env s = (Inr u, t, s')"
  shows "(t = [ReadConfig] \<or> t = [ReadConfig, RemoveAll]) \<and> same_but_credentials (gs_config s) (gs_config s')"
  using assms unfolding check_clone_def Let_def
  by (auto simp: same_but_credentials_def split: read_result.splits prod.splits if_splits)

lemma open_or_clone_Inr:
  assumes "open_or_clone env t s = (Inr (fetched, a), t', s')"
  shows "gs_config s' = gs_config s \<and>
    (\<not> fetched \<and> t' = t @ [PlainOpen] \<or>
     fetched \<and> (\<exists>b ref. t' = t @ [PlainOpen, Clone (git_Repo (gs_config s)) b ref, WriteConfig (Git_Marshal (gs_config s))]))"
  using assms git_auth_config [of "auth_env.truncate env" s] unfolding open_or_clone_def Let_def
  by (auto split: open_result.splits prod.splits sum.splits)

lemma read_head_Inr:
  "read_head env f t s = (Inr (fetched, h), t', s') \<longleftrightarrow>
   fetched = f \<and> ge_Head env (t @ [ReadHead]) = Inr h \<and> t' = t @ [ReadHead] \<and> s' = s"
  by (auto simp: read_head_def split: sum.splits)

lemma fetch_and_checkout_Inr:
  assumes "fetch_and_checkout env a t s = (Inr (fetched, h), t', s')"
  shows "fetched \<and> gs_config s' = gs_config s \<and> (\<exists>b. t' = t @ [Fetch b, wanted (gs_config s), ReadHead]) \<and>
    ge_Checkout env (butlast t') = None \<and> ge_Head env t' = Inr h"
proof -
  obtain r s1 where r: "(case a of None \<Rightarrow> git_auth (auth_env.truncate env) s | Some m \<Rightarrow> (Inr (Some m), s)) = (r, s1)"
    by fastforce
  have config: "gs_config s1 = gs_config s"
    using r git_auth_config [of "auth_env.truncate env" s] by (auto split: option.splits)
  from assms r obtain b where b: "r = Inr b"
    by (auto simp: fetch_and_checkout_def split: sum.splits)
  let ?t = "t @ [Fetch b]"
  have "ge_Fetch env ?t = None" and co: "ge_Checkout env (?t @ [wanted (gs_config s)]) = None"
    and "read_head env True (?t @ [wanted (gs_config s)]) s1 = (Inr (fetched, h), t', s')"
    using assms r b unfolding fetch_and_checkout_def wanted_def [symmetric]
    by (auto simp: config split: prod.splits sum.splits)
  then show ?thesis
    using config by (auto simp: read_head_Inr butlast_append)
qed

lemma checkout_Inr:
  assumes "checkout env f a t s = (Inr (fetched, h), t', s')"
  shows "gs_config s' = gs_config s \<and> ge_Checkout env (butlast t') = None \<and> ge_Head env t' = Inr h \<and>
    (\<exists>u. t' = t @ u @ [wanted (gs_config s), ReadHead] \<and> (\<forall>repo b ref. Clone repo b ref \<notin> set u) \<and>
      (fetched = f \<and> filter is_network u = [] \<and> git_Commit (gs_config s) \<noteq> None \<or>
       fetched \<and> (\<exists>x \<in> set u. is_network x)))"
proof (cases "git_Commit (gs_config s)")
  case None
  with assms have "fetch_and_checkout env a (t @ [Worktree]) s = (Inr (fetched, h), t', s')"
    by (auto simp: checkout_def split: prod.splits sum.splits)
  from fetch_and_checkout_Inr [OF this] show ?thesis by force
next
  case (Some c)
  note commit = this
  show ?thesis
  proof (cases "ge_Checkout env (t @ [Worktree, CheckoutHash c])")
    case None
    with assms Some have "read_head env f (t @ [Worktree, CheckoutHash c]) s = (Inr (fetched, h), t', s')"
      by (auto simp: checkout_def happen_def split: prod.splits sum.splits option.splits)
    with None commit show ?thesis
      by (auto simp: read_head_Inr wanted_def butlast_append intro!: exI [of _ "[Worktree]"])
  next
    case (Some e)
    with assms commit have "fetch_and_checkout env a (t @ [Worktree, CheckoutHash c]) s = (Inr (fetched, h), t', s')"
      by (auto simp: checkout_def happen_def split: prod.splits sum.splits option.splits)
    from fetch_and_checkout_Inr [OF this] show ?thesis by force
  qed
qed




subsection \<open>Changes of the configuration\<close>

lemma Git_Equal_recorded:
  assumes "git_Credentials g = Some r" and "ref_Name r \<noteq> []"
  shows "Git_Equal (Some (fst (Git_Unmarshal (Git_Marshal g) (Some r'))))
      (Some (new\<lparr>git_Credentials := Some (r'\<lparr>ref_Name := ref_Name r\<rparr>)\<rparr>)) \<longleftrightarrow>
    git_Reference g = git_Reference new \<and> git_Commit g = git_Commit new \<and> git_Path g = git_Path new \<and>
    set (git_IncludedFiles g) = set (git_IncludedFiles new) \<and> set (git_ExcludedFiles g) = set (git_ExcludedFiles new)"
  using assms by (simp add: Git_Unmarshal_def Git_Marshal_def Git_Equal_def eq_simps)

lemma Git_Unmarshal_shared:
  assumes "git_Credentials g = Some r" and "ref_Name r \<noteq> []"
  shows "snd (Git_Unmarshal (Git_Marshal g) (Some r')) = Some (r'\<lparr>ref_Name := ref_Name r\<rparr>)"
  using assms by (simp add: Git_Unmarshal_def Git_Marshal_def)


subsection \<open>An example\<close>

definition example_git :: "string \<Rightarrow> string \<Rightarrow> git" where
  "example_git repo credentials = \<lparr>git_Repo = repo, git_Reference = Some ''refs/heads/main'', git_Commit = None,
     git_Path = None, git_IncludedFiles = [], git_ExcludedFiles = [],
     git_Credentials = Some \<lparr>ref_Name = credentials, ref_value = None\<rparr>\<rparr>"

text \<open>An environment with a clone of the repository \<open>a\<close>, made with the credentials \<open>old\<close>; only these are known.\<close>

definition example_git_env :: "(unit, unit) git_env" where
  "example_git_env = \<lparr>ae_getenv = (\<lambda>n. []), ae_decoder = example_decoder, ae_ReadFile = (\<lambda>f. Inl f),
     ae_NewTransport = (\<lambda>i n k. Inr ()), ae_Token = (\<lambda>t. Inr ''t''), ae_ParsePrivateKey = (\<lambda>k p. Inr ()),
     ge_ReadFile = (\<lambda>t. Config_file (Git_Marshal (example_git ''a'' ''old''))),
     ge_RemoveAll = (\<lambda>t. None), ge_PlainOpen = (\<lambda>t. Opened), ge_PlainClone = (\<lambda>t. None), ge_WriteFile = (\<lambda>t. None),
     ge_Worktree = (\<lambda>t. None), ge_Checkout = (\<lambda>t. None), ge_Fetch = (\<lambda>t. None), ge_Head = (\<lambda>t. Inr ''4b825dc'')\<rparr>"

definition example_provider :: "string \<Rightarrow> string + (string, any) fmap" where
  "example_provider n =
     (if n = ''old'' then Inr (fmap_of_list [(''type'', AStr ''token_auth''), (''token'', AStr ''t'')]) else Inl n)"

definition example_gitsync :: "string \<Rightarrow> string \<Rightarrow> unit gitsync" where
  "example_gitsync repo credentials =
     gs_WithSecretProvider example_provider (gitsync_New ''dir'' (example_git repo credentials) ''source'')"

text \<open>The repository \<open>b\<close> is configured now, with new credentials: the clone of \<open>a\<close> is used, with the old ones.\<close>

lemma example_synchronization:
  "fst (gitsync_execute example_git_env (example_gitsync ''b'' ''new'')) = Inr (True, ''4b825dc'')"
  "fst (snd (gitsync_execute example_git_env (example_gitsync ''b'' ''new''))) =
     [ReadConfig, PlainOpen, Worktree, Fetch (Some (GitTokenAuth (PtrTokenAuth ''t'') ''bearer-token'')),
      CheckoutBranch ''refs/remotes/origin/refs/heads/main'', ReadHead]"
  by code_simp+



end
