(* ===== verification/LibraryTables.thy ===== *)
theory LibraryTables
  imports Config
begin

text \<open>
  The tables of \<open>cmd/migrate/migrate.go\<close>: the types of systems and stacks, the libraries each type
  requires, and the sources with built-in files they are made of.
\<close>

subsection \<open>Tables\<close>

definition empty_git :: git where
  "empty_git = \<lparr>git_Repo = [], git_Reference = None, git_Commit = None, git_Path = None,
     git_IncludedFiles = [], git_ExcludedFiles = [], git_Credentials = None\<rparr>"

definition empty_source :: "string \<Rightarrow> source" where
  "empty_source name = \<lparr>src_ID = 0, src_Name = name, src_Builtin = None, src_Git = empty_git, src_Datasources = [],
     src_EmbeddedFiles = None, src_Directory = [], src_Paths = [], src_Requirements = None\<rparr>"

definition source_requirement :: "string \<Rightarrow> requirement" where
  "source_requirement name = \<lparr>req_Source = Some name, req_Commit = None, req_Path = [], req_Prefix = [],
     req_AutoMount = None\<rparr>"

definition type_library :: "string \<Rightarrow> string list \<Rightarrow> source" where
  "type_library name required =
     (empty_source name)\<lparr>src_Requirements := Some (map source_requirement required)\<rparr>"

definition base_library :: "string \<Rightarrow> string \<Rightarrow> source" where
  "base_library name builtin = (empty_source name)\<lparr>src_Builtin := Some builtin\<rparr>"

definition systemTypeMapping :: "(string \<times> string) list" where
  "systemTypeMapping =
     [(''kubernetes'', ''kubernetes:v1''),
      (''kubernetes:v2'', ''kubernetes:v2''),
      (''envoy'', ''envoy:v1''),
      (''template.envoy:2.1'', ''template.envoy:2.1''),
      (''template.envoy:2.0'', ''template.envoy:2.0''),
      (''template.istio:1.0'', ''template.istio:1.0''),
      (''template.kuma:1.0'', ''template.kuma:1.0''),
      (''template.kong-gateway:1.0'', ''template.kong-gateway:1.0''),
      (''template.terraform:2.0'', ''template.terraform:2.0''),
      (''template.entitlements:1.0'', ''template.entitlements:1.0'')]"

definition stackTypeMapping :: "(string \<times> string) list" where
  "stackTypeMapping =
     [(''kubernetes'', ''kubernetes:v1-stack''),
      (''kubernetes:v2'', ''kubernetes:v2-stack''),
      (''envoy'', ''envoy:v1-stack''),
      (''template.envoy:2.1'', ''template.envoy:2.1-stack''),
      (''template.envoy:2.0'', ''template.envoy:2.0-stack''),
      (''template.istio:1.0'', ''template.istio:1.0-stack''),
      (''template.kuma:1.0'', ''template.kuma:1.0-stack''),
      (''template.kong-gateway:1.0'', ''template.kong-gateway:1.0-stack''),
      (''template.terraform:2.0'', ''template.terraform:2.0-stack''),
      (''template.entitlements:1.0'', ''template.entitlements:1.0-stack'')]"

definition systemTypeLibraries :: "source list" where
  "systemTypeLibraries =
     [type_library ''template.envoy:2.1'' [''template.envoy:2.1-entrypoint-application'', ''template.envoy:2.1-entrypoint-main'', ''template.envoy:2.1-entrypoint-authz'', ''template.envoy:2.1-entrypoint-log'', ''template.envoy:2.1-conflicts''],
      type_library ''template.envoy:2.0'' [''template.envoy:2.0-entrypoint-application'', ''template.envoy:2.0-entrypoint-main'', ''template.envoy:2.0-entrypoint-authz'', ''template.envoy:2.0-entrypoint-log'', ''template.envoy:2.0-conflicts''],
      type_library ''envoy:v1'' [''envoy:v1-entrypoint-application'', ''envoy:v1-entrypoint-egress'', ''envoy:v1-entrypoint-ingress'', ''envoy:v1-entrypoint-resolver'', ''envoy:v1-entrypoint-inject'', ''envoy:v1-entrypoint-log'', ''envoy:v1-conflicts'', ''envoy:v1-injection''],
      type_library ''template.istio:1.0'' [''template.envoy:2.0-entrypoint-application'', ''template.envoy:2.0-entrypoint-main'', ''template.envoy:2.0-entrypoint-authz'', ''template.envoy:2.0-entrypoint-log'', ''template.envoy:2.0-conflicts''],
      type_library ''template.kuma:1.0'' [''template.envoy:2.0-entrypoint-application'', ''template.envoy:2.0-entrypoint-main'', ''template.envoy:2.0-entrypoint-authz'', ''template.envoy:2.0-entrypoint-log'', ''template.envoy:2.0-conflicts''],
      type_library ''template.kong-gateway:1.0'' [''template.kong-gateway:1.0-entrypoint-main'', ''template.kong-gateway:1.0-conflicts''],
      type_library ''kubernetes:v2'' [''kubernetes:v2-entrypoint-validating'', ''kubernetes:v2-entrypoint-mutating'', ''kubernetes:v2-entrypoint-log'', ''kubernetes:v2-conflicts'', ''kubernetes:v2-library''],
      type_library ''kubernetes:v1'' [''kubernetes:v1-entrypoint-main'', ''kubernetes:v2-entrypoint-log'', ''kubernetes:v1-conflicts''],
      type_library ''template.terraform:2.0'' [''template.terraform:2.0-entrypoint-main'', ''template.terraform:2.0-conflicts'', ''template.terraform:2.0-library''],
      type_library ''template.entitlements:1.0'' [''template.entitlements:1.0-entrypoint-main'', ''template.entitlements:1.0-object'', ''template.entitlements:1.0-completions'', ''template.entitlements:1.0-conflicts'', ''template.entitlements:1.0-transform'', ''template.entitlements:1.0-library'']]"

definition stackTypeLibraries :: "source list" where
  "stackTypeLibraries =
     [type_library ''template.envoy:2.1-stack'' [''match-v1''],
      type_library ''template.envoy:2.0-stack'' [''match-v1''],
      type_library ''envoy:v1-stack'' [''match-v1''],
      type_library ''template.istio:1.0-stack'' [''match-v1''],
      type_library ''template.kuma:1.0-stack'' [''match-v1''],
      type_library ''template.kong-gateway:1.0-stack'' [''match-v1''],
      type_library ''kubernetes:v2-stack'' [''kubernetes:v2-library'', ''match-v1''],
      type_library ''kubernetes:v1-stack'' [''kubernetes:v2-library'', ''match-v1''],
      type_library ''template.terraform:2.0-stack'' [''template.terraform:2.0-library'', ''match-v1''],
      type_library ''template.entitlements:1.0-stack'' [''template.entitlements:1.0-library'', ''match-v1'']]"

definition baseLibraries :: "source list" where
  "baseLibraries =
     [base_library ''template.envoy:2.1-entrypoint-application'' ''envoy-v2.1/application'',
      base_library ''template.envoy:2.1-entrypoint-main'' ''envoy-v2.1/main'',
      base_library ''template.envoy:2.1-entrypoint-authz'' ''envoy-v2.1/authz'',
      base_library ''template.envoy:2.1-entrypoint-log'' ''envoy-v2.1/log'',
      base_library ''template.envoy:2.1-conflicts'' ''envoy-v2.1/conflicts'',
      base_library ''template.envoy:2.0-entrypoint-application'' ''envoy-v2.0/application'',
      base_library ''template.envoy:2.0-entrypoint-main'' ''envoy-v2.0/main'',
      base_library ''template.envoy:2.0-entrypoint-authz'' ''envoy-v2.0/authz'',
      base_library ''template.envoy:2.0-entrypoint-log'' ''envoy-v2.0/log'',
      base_library ''template.envoy:2.0-conflicts'' ''envoy-v2.0/conflicts'',
      base_library ''envoy:v1-entrypoint-application'' ''envoy-v1/application'',
      base_library ''envoy:v1-entrypoint-egress'' ''envoy-v1/egress'',
      base_library ''envoy:v1-entrypoint-ingress'' ''envoy-v1/ingress'',
      base_library ''envoy:v1-entrypoint-resolver'' ''envoy-v1/resolver'',
      base_library ''envoy:v1-entrypoint-inject'' ''envoy-v1/inject'',
      base_library ''envoy:v1-entrypoint-log'' ''envoy-v1/log'',
      base_library ''envoy:v1-conflicts'' ''envoy-v1/conflicts'',
      base_library ''envoy:v1-injection'' ''envoy-v1/injection'',
      base_library ''template.kong-gateway:1.0-entrypoint-main'' ''kong-gateway-v1/main'',
      base_library ''template.kong-gateway:1.0-conflicts'' ''kong-gateway-v1/conflicts'',
      base_library ''kubernetes:v2-entrypoint-validating'' ''kubernetes-v2/validating'',
      base_library ''kubernetes:v2-entrypoint-mutating'' ''kubernetes-v2/mutating'',
      base_library ''kubernetes:v2-entrypoint-log'' ''kubernetes-v2/log'',
      base_library ''kubernetes:v2-conflicts'' ''kubernetes-v2/conflicts'',
      base_library ''kubernetes:v2-library'' ''kubernetes-v2/library'',
      base_library ''kubernetes:v1-entrypoint-main'' ''kubernetes-v1/main'',
      base_library ''kubernetes:v1-conflicts'' ''kubernetes-v1/conflicts'',
      base_library ''template.terraform:2.0-entrypoint-main'' ''terraform-v2.0/main'',
      base_library ''template.terraform:2.0-conflicts'' ''terraform-v2.0/conflicts'',
      base_library ''template.terraform:2.0-library'' ''terraform-v2.0/library'',
      base_library ''template.entitlements:1.0-completions'' ''entitlements-v1/completions'',
      base_library ''template.entitlements:1.0-transform'' ''entitlements-v1/transform'',
      base_library ''template.entitlements:1.0-object'' ''entitlements-v1/object'',
      base_library ''template.entitlements:1.0-library'' ''entitlements-v1/library'',
      base_library ''template.entitlements:1.0-conflicts'' ''entitlements-v1/conflicts'',
      base_library ''template.entitlements:1.0-entrypoint-main'' ''entitlements-v1/main'',
      base_library ''match-v1'' ''match-v1'']"

subsection \<open>Lookups\<close>

definition find_source :: "string \<Rightarrow> source list \<Rightarrow> source option" where
  "find_source name = find (\<lambda>l. src_Name l = name)"

text \<open>A type that is not in the mapping has the empty name, which no library has.\<close>

definition mapped :: "(string \<times> string) list \<Rightarrow> string \<Rightarrow> string" where
  "mapped m t = (case map_of m t of None \<Rightarrow> [] | Some n \<Rightarrow> n)"

definition getSystemTypeLib :: "string \<Rightarrow> source option" where
  "getSystemTypeLib t = find_source (mapped systemTypeMapping t) systemTypeLibraries"

definition getStackTypeLib :: "string \<Rightarrow> source option" where
  "getStackTypeLib t = find_source (mapped stackTypeMapping t) stackTypeLibraries"

definition getBaseLib :: "requirement \<Rightarrow> source option" where
  "getBaseLib r = find_source (the (req_Source r)) baseLibraries"

definition isTypeLibrary :: "string \<Rightarrow> bool" where
  "isTypeLibrary t \<longleftrightarrow>
     (\<exists>src \<in> set (systemTypeLibraries @ stackTypeLibraries @ baseLibraries). src_Name src = t)"

definition typeLibraries :: "source list" where
  "typeLibraries = systemTypeLibraries @ stackTypeLibraries @ baseLibraries"

text \<open>
  The tables fit together: their names are distinct, each type leads to a library, and each
  required library is there, so that the index over the built-in files is built without a panic.
\<close>

lemma tables_distinct: "distinct (map src_Name typeLibraries)"
  by code_simp

lemma mapped_types:
  "\<forall>(t, n) \<in> set systemTypeMapping. map_option src_Name (getSystemTypeLib t) = Some n"
  "\<forall>(t, n) \<in> set stackTypeMapping. map_option src_Name (getStackTypeLib t) = Some n"
  by code_simp+

lemma required_libraries:
  "\<forall>l \<in> set (systemTypeLibraries @ stackTypeLibraries). \<forall>r \<in> set (slice (src_Requirements l)).
     req_Source r \<noteq> None \<and> getBaseLib r \<noteq> None"
  by code_simp

end
