(* ===== verification/PackageIndex.thy ===== *)
theory PackageIndex
  imports Paths Values
begin

text \<open>
  Helpers of \<open>cmd/migrate/migrate.go\<close>: the index from package paths to libraries, a tree of path
  elements; the test whether a path lies below one of a list of roots; and the factory of names.
  The children of a node are an association list: its order is the order in which the runtime
  iterates. Libraries without a name are not stored: the empty string marks a node without one.
\<close>

subsection \<open>The index\<close>

datatype package_index = Index "(string \<times> package_index) list" string

definition newLibraryPackageIndex :: package_index where
  "newLibraryPackageIndex = Index [] []"

fun index_nodes :: "package_index \<Rightarrow> (string \<times> package_index) list" where
  "index_nodes (Index ns l) = ns"

fun index_library :: "package_index \<Rightarrow> string" where
  "index_library (Index ns l) = l"

fun add_keys :: "string list \<Rightarrow> string \<Rightarrow> package_index \<Rightarrow> package_index" where
  "add_keys [] lib (Index ns l) = Index ns lib"
| "add_keys (k # ks) lib (Index ns l) =
     Index (map_put k (add_keys ks lib (case map_of ns k of None \<Rightarrow> newLibraryPackageIndex | Some n \<Rightarrow> n)) ns) l"

definition index_Add :: "string \<Rightarrow> string \<Rightarrow> package_index \<Rightarrow> package_index" where
  "index_Add path lib idx = add_keys (split_on CHR ''/'' path) lib idx"

text \<open>\<open>strings.Trim(path, "/")\<close>.\<close>

definition trim_slashes :: "string \<Rightarrow> string" where
  "trim_slashes s = rev (dropWhile (\<lambda>c. c = CHR ''/'') (rev (dropWhile (\<lambda>c. c = CHR ''/'') s)))"

definition library_of :: "package_index \<Rightarrow> string list" where
  "library_of n = (if index_library n \<noteq> [] then [index_library n] else [])"

text \<open>The walk along the path: the libraries it passes, and where it ends if it does not leave the tree.\<close>

fun walk_keys :: "string list \<Rightarrow> package_index \<Rightarrow> string list \<times> package_index option" where
  "walk_keys [] cur = ([], Some cur)"
| "walk_keys (key # keys) cur =
     (case map_of (index_nodes cur) key of
        None \<Rightarrow> ([], None)
      | Some node \<Rightarrow> (let (ls, n) = walk_keys keys node in (library_of node @ ls, n)))"

text \<open>The loop over the nodes still to visit; the measure is the number of nodes below them.\<close>

fun index_size :: "package_index \<Rightarrow> nat" where
  "index_size (Index ns l) = Suc (sum_list (map (\<lambda>(k, n). index_size n) ns))"

function visit :: "package_index list \<Rightarrow> string list" where
  "visit [] = []"
| "visit (nxt # rest) = library_of nxt @ visit (rest @ map snd (index_nodes nxt))"
  by pat_completeness auto
termination
proof (relation "measure (\<lambda>q. sum_list (map index_size q))")
  fix n rest
  have "sum_list (map (index_size \<circ> snd) (index_nodes n)) < index_size n"
    by (cases n) (simp add: case_prod_unfold comp_def)
  then show "(rest @ map snd (index_nodes n), n # rest) \<in> measure (\<lambda>q. sum_list (map index_size q))"
    by (simp add: comp_def)
qed simp

definition Lookup :: "string \<Rightarrow> package_index \<Rightarrow> string set" where
  "Lookup path idx =
     (case walk_keys (split_on CHR ''/'' (trim_slashes path)) idx of
        (ls, None) \<Rightarrow> set ls
      | (ls, Some cur) \<Rightarrow> set ls \<union> set (visit [cur]))"

subsection \<open>What it stands for\<close>

text \<open>The libraries of an index, as a map from paths.\<close>

fun library_at :: "package_index \<Rightarrow> string list \<Rightarrow> string" where
  "library_at (Index ns l) [] = l"
| "library_at (Index ns l) (k # ks) = (case map_of ns k of None \<Rightarrow> [] | Some n \<Rightarrow> library_at n ks)"

inductive well_formed :: "package_index \<Rightarrow> bool" where
  "distinct (map fst ns) \<Longrightarrow> (\<And>k n. (k, n) \<in> set ns \<Longrightarrow> well_formed n) \<Longrightarrow> well_formed (Index ns l)"

inductive_simps well_formed_Index: "well_formed (Index ns l)"

lemma library_at_new [simp]: "library_at newLibraryPackageIndex p = []"
  by (cases p) (simp_all add: newLibraryPackageIndex_def)

lemma well_formed_new [simp]: "well_formed newLibraryPackageIndex"
  by (simp add: newLibraryPackageIndex_def well_formed_Index)

lemma library_at_add: "library_at (add_keys p lib t) q = (if q = p then lib else library_at t q)"
proof (induction p lib t arbitrary: q rule: add_keys.induct)
  case (1 lib ns l)
  then show ?case by (cases q) auto
next
  case (2 k ks lib ns l)
  show ?case
  proof (cases q)
    case Nil
    then show ?thesis by simp
  next
    case (Cons k' ks')
    with 2 [of ks'] show ?thesis by (auto split: option.splits)
  qed
qed

lemma well_formed_add: "well_formed t \<Longrightarrow> well_formed (add_keys p lib t)"
proof (induction p lib t rule: add_keys.induct)
  case (2 k ks lib ns l)
  let ?child = "case map_of ns k of None \<Rightarrow> newLibraryPackageIndex | Some n \<Rightarrow> n"
  have "well_formed ?child"
    using "2.prems" by (auto simp: well_formed_Index split: option.splits dest: map_of_SomeD)
  from "2.IH" [OF this] have child: "well_formed (add_keys ks lib ?child)" .
  have "well_formed n" if "(k', n) \<in> set (map_put k (add_keys ks lib ?child) ns)" for k' n
  proof -
    have "distinct (map fst (map_put k (add_keys ks lib ?child) ns))"
      using "2.prems" by (simp add: well_formed_Index)
    with that have "((map_of ns)(k \<mapsto> add_keys ks lib ?child)) k' = Some n"
      by (metis map_of_eq_Some_iff map_of_map_put)
    then show ?thesis
      using child "2.prems" by (auto simp: well_formed_Index split: if_splits dest: map_of_SomeD)
  qed
  then show ?case
    using "2.prems" by (simp add: well_formed_Index)
qed (simp add: well_formed_Index)

text \<open>Every library below some node of the queue is visited.\<close>

lemma set_visit:
  "list_all well_formed q \<Longrightarrow> set (visit q) = {lib. lib \<noteq> [] \<and> (\<exists>n \<in> set q. \<exists>p. library_at n p = lib)}"
proof (induction q rule: visit.induct)
  case (2 n rest)
  obtain ns l where n: "n = Index ns l" by (cases n)
  from "2.prems" n have ns: "distinct (map fst ns)" "\<And>k m. (k, m) \<in> set ns \<Longrightarrow> well_formed m"
    by (simp_all add: well_formed_Index)
  have "list_all well_formed (rest @ map snd (index_nodes n))"
    using "2.prems" ns by (auto simp: n list_all_iff)
  note IH = "2.IH" [OF this]
  have below: "(\<exists>p. library_at n p = lib) \<longleftrightarrow> lib = l \<or> (\<exists>m \<in> snd ` set ns. \<exists>p. library_at m p = lib)"
    if "lib \<noteq> []" for lib
  proof
    assume "\<exists>p. library_at n p = lib"
    then obtain p where p: "library_at n p = lib" ..
    show "lib = l \<or> (\<exists>m \<in> snd ` set ns. \<exists>p. library_at m p = lib)"
    proof (cases p)
      case (Cons k ks)
      with p n that obtain m where "map_of ns k = Some m" "library_at m ks = lib"
        by (auto split: option.splits)
      then show ?thesis by (metis image_eqI map_of_SomeD snd_conv)
    qed (use p n in simp)
  next
    assume "lib = l \<or> (\<exists>m \<in> snd ` set ns. \<exists>p. library_at m p = lib)"
    then show "\<exists>p. library_at n p = lib"
    proof
      assume "lib = l"
      then have "library_at n [] = lib" by (simp add: n)
      then show ?thesis ..
    next
      assume "\<exists>m \<in> snd ` set ns. \<exists>p. library_at m p = lib"
      then obtain k m p where m: "(k, m) \<in> set ns" "library_at m p = lib" by auto
      then have "library_at n (k # p) = lib"
        using ns(1) by (simp add: n)
      then show ?thesis ..
    qed
  qed
  show ?case
  proof (rule set_eqI)
    fix lib
    have "lib \<in> set (visit (n # rest)) \<longleftrightarrow>
        lib \<noteq> [] \<and> (lib = l \<or> (\<exists>m \<in> set rest \<union> snd ` set ns. \<exists>p. library_at m p = lib))"
      unfolding visit.simps set_append Un_iff IH by (simp add: library_of_def n) blast
    also have "\<dots> \<longleftrightarrow> lib \<noteq> [] \<and> (\<exists>m \<in> set (n # rest). \<exists>p. library_at m p = lib)"
      using below [of lib] by auto
    finally show "lib \<in> set (visit (n # rest)) \<longleftrightarrow>
        lib \<in> {lib. lib \<noteq> [] \<and> (\<exists>m \<in> set (n # rest). \<exists>p. library_at m p = lib)}"
      by simp
  qed
qed simp


lemma walk_keys_passed:
  "set (fst (walk_keys ks t)) = {lib. lib \<noteq> [] \<and> (\<exists>p. p \<noteq> [] \<and> prefix p ks \<and> library_at t p = lib)}"
proof (induction ks t rule: walk_keys.induct)
  case (2 key keys cur)
  obtain ns l where cur: "cur = Index ns l" by (cases cur)
  show ?case
  proof (cases "map_of ns key")
    case None
    then have "library_at cur p = []" if "p \<noteq> []" "prefix p (key # keys)" for p
      using that by (cases p) (auto simp: cur)
    with None cur show ?thesis by auto
  next
    case (Some node)
    obtain nns nl where node: "node = Index nns nl" by (cases node)
    have "(\<exists>p. p \<noteq> [] \<and> prefix p (key # keys) \<and> library_at cur p = lib) \<longleftrightarrow>
        library_at node [] = lib \<or> (\<exists>p. p \<noteq> [] \<and> prefix p keys \<and> library_at node p = lib)" for lib
    proof
      assume "\<exists>p. p \<noteq> [] \<and> prefix p (key # keys) \<and> library_at cur p = lib"
      then obtain p where "prefix p keys" "library_at cur (key # p) = lib"
        by (auto simp: prefix_Cons)
      then show "library_at node [] = lib \<or> (\<exists>p. p \<noteq> [] \<and> prefix p keys \<and> library_at node p = lib)"
        using Some by (cases p) (auto simp: cur)
    next
      assume "library_at node [] = lib \<or> (\<exists>p. p \<noteq> [] \<and> prefix p keys \<and> library_at node p = lib)"
      then obtain p where "prefix p keys" "library_at node p = lib" by (metis Nil_prefix)
      then show "\<exists>p. p \<noteq> [] \<and> prefix p (key # keys) \<and> library_at cur p = lib"
        using Some by (intro exI [of _ "key # p"]) (simp add: cur)
    qed
    then show ?thesis
      using 2 [of node] Some cur by (auto simp: library_of_def node split: prod.splits)
  qed
qed auto

lemma walk_keys_end:
  "well_formed t \<Longrightarrow>
   (case snd (walk_keys ks t) of
      None \<Rightarrow> \<forall>q. library_at t (ks @ q) = []
    | Some n \<Rightarrow> well_formed n \<and> (\<forall>q. library_at t (ks @ q) = library_at n q))"
proof (induction ks t rule: walk_keys.induct)
  case (2 key keys cur)
  obtain ns l where cur: "cur = Index ns l" by (cases cur)
  show ?case
  proof (cases "map_of ns key")
    case None
    then show ?thesis by (simp add: cur)
  next
    case (Some node)
    then have "well_formed node"
      using "2.prems" by (auto simp: cur well_formed_Index dest: map_of_SomeD)
    with "2.IH" [of node] Some show ?thesis
      by (cases "walk_keys keys node") (simp add: cur split: option.splits)
  qed
qed simp

lemma Lookup_iff:
  assumes "well_formed t"
  shows "lib \<in> Lookup path t \<longleftrightarrow> lib \<noteq> [] \<and> (\<exists>p. p \<noteq> [] \<and> library_at t p = lib \<and>
    (prefix p (split_on CHR ''/'' (trim_slashes path)) \<or> prefix (split_on CHR ''/'' (trim_slashes path)) p))"
proof -
  let ?ks = "split_on CHR ''/'' (trim_slashes path)"
  obtain ls n where w: "walk_keys ?ks t = (ls, n)" by fastforce
  have passed: "lib \<in> set ls \<longleftrightarrow> lib \<noteq> [] \<and> (\<exists>p. p \<noteq> [] \<and> prefix p ?ks \<and> library_at t p = lib)"
    using walk_keys_passed [of ?ks t] w by simp
  show ?thesis
  proof (cases n)
    case None
    then have "library_at t p = []" if "prefix ?ks p" for p
      using walk_keys_end [OF assms, of ?ks] w that by (auto simp: prefix_def)
    then show ?thesis
      using passed None w by (auto simp: Lookup_def)
  next
    case (Some c)
    then have c: "well_formed c" "\<And>q. library_at t (?ks @ q) = library_at c q"
      using walk_keys_end [OF assms, of ?ks] w by auto
    have "(\<exists>q. library_at c q = lib) \<longleftrightarrow> (\<exists>p. p \<noteq> [] \<and> prefix ?ks p \<and> library_at t p = lib)"
      unfolding c(2) [symmetric] by (metis append_is_Nil_conv prefix_def split_on_not_Nil)
    then show ?thesis
      using passed Some w set_visit [of "[c]"] c(1) by (auto simp: Lookup_def)
  qed
qed

definition index_of :: "(string \<times> string) list \<Rightarrow> package_index" where
  "index_of es = fold (\<lambda>(path, lib). index_Add path lib) es newLibraryPackageIndex"

lemma index_of_snoc: "index_of (es @ [(p, lib)]) = index_Add p lib (index_of es)"
  by (simp add: index_of_def)

lemma split_on_inject: "split_on c s = split_on c t \<longleftrightarrow> s = t"
  by (metis join_split)

lemma library_at_index_of:
  "well_formed (index_of es) \<and>
   (\<forall>q. library_at (index_of es) (split_on CHR ''/'' q) = (case map_of (rev es) q of None \<Rightarrow> [] | Some lib \<Rightarrow> lib)) \<and>
   (\<forall>p. library_at (index_of es) p \<noteq> [] \<longrightarrow> (\<exists>q. p = split_on CHR ''/'' q))"
proof (induction es rule: rev_induct)
  case Nil
  then show ?case by (simp add: index_of_def)
next
  case (snoc e es)
  obtain p lib where e: "e = (p, lib)" by (cases e)
  with snoc show ?case
    by (auto simp: index_of_snoc index_Add_def library_at_add well_formed_add split_on_inject split: if_splits)
qed

text \<open>
  Whatever has been added to the index, in any order, a lookup gives exactly the libraries
  whose path, element by element, is a prefix of the path that is looked up or continues it;
  of two libraries added for one path only the later one is found.
\<close>

lemma Lookup_index_of:
  "Lookup path (index_of es) =
   {lib. lib \<noteq> [] \<and> (\<exists>q. map_of (rev es) q = Some lib \<and>
      (let p = split_on CHR ''/'' q; keys = split_on CHR ''/'' (trim_slashes path) in prefix p keys \<or> prefix keys p))}"
proof -
  let ?t = "index_of es" and ?ks = "split_on CHR ''/'' (trim_slashes path)"
  have wf: "well_formed ?t"
    and at: "\<And>q. library_at ?t (split_on CHR ''/'' q) = (case map_of (rev es) q of None \<Rightarrow> [] | Some lib \<Rightarrow> lib)"
    and split: "\<And>p. library_at ?t p \<noteq> [] \<Longrightarrow> \<exists>q. p = split_on CHR ''/'' q"
    using library_at_index_of [of es] by blast+
  have "(\<exists>p. p \<noteq> [] \<and> library_at ?t p = lib \<and> (prefix p ?ks \<or> prefix ?ks p)) \<longleftrightarrow>
      (\<exists>q. map_of (rev es) q = Some lib \<and> (prefix (split_on CHR ''/'' q) ?ks \<or> prefix ?ks (split_on CHR ''/'' q)))"
    if "lib \<noteq> []" for lib
  proof
    assume "\<exists>p. p \<noteq> [] \<and> library_at ?t p = lib \<and> (prefix p ?ks \<or> prefix ?ks p)"
    then obtain p where p: "library_at ?t p = lib" "prefix p ?ks \<or> prefix ?ks p" by blast
    with that have "library_at ?t p \<noteq> []" by simp
    from split [OF this] obtain q where "p = split_on CHR ''/'' q" ..
    with p have "library_at ?t (split_on CHR ''/'' q) = lib"
      "prefix (split_on CHR ''/'' q) ?ks \<or> prefix ?ks (split_on CHR ''/'' q)"
      by simp_all
    with at [of q] that show "\<exists>q. map_of (rev es) q = Some lib \<and>
        (prefix (split_on CHR ''/'' q) ?ks \<or> prefix ?ks (split_on CHR ''/'' q))"
      by (auto split: option.splits)
  next
    assume "\<exists>q. map_of (rev es) q = Some lib \<and>
        (prefix (split_on CHR ''/'' q) ?ks \<or> prefix ?ks (split_on CHR ''/'' q))"
    then obtain q where q: "map_of (rev es) q = Some lib"
      "prefix (split_on CHR ''/'' q) ?ks \<or> prefix ?ks (split_on CHR ''/'' q)" by blast
    with at [of q] show "\<exists>p. p \<noteq> [] \<and> library_at ?t p = lib \<and> (prefix p ?ks \<or> prefix ?ks p)"
      by (intro exI [of _ "split_on CHR ''/'' q"]) simp
  qed
  then show ?thesis
    unfolding set_eq_iff Lookup_iff [OF wf] Let_def mem_Collect_eq by blast
qed

subsection \<open>Roots\<close>

fun stringSlicePrefix :: "string list \<Rightarrow> string list \<Rightarrow> bool" where
  "stringSlicePrefix [] s = True"
| "stringSlicePrefix (p # ps) [] = False"
| "stringSlicePrefix (p # ps) (x # xs) = (p = x \<and> stringSlicePrefix ps xs)"

definition rootsPrefix :: "string list \<Rightarrow> string \<Rightarrow> bool" where
  "rootsPrefix roots path =
     (let pathParts = split_on CHR ''/'' (trim_slashes path) in
      list_ex (\<lambda>r. let rParts = split_on CHR ''/'' (trim_slashes r) in
        rParts = [[]] \<or> stringSlicePrefix rParts pathParts) roots)"

lemma stringSlicePrefix_iff: "stringSlicePrefix ps xs \<longleftrightarrow> prefix ps xs"
  by (induction ps xs rule: stringSlicePrefix.induct) auto

subsection \<open>Names\<close>

type_synonym nameFactory = "(string, nat) fmap"

definition AssignSafeName :: "string \<Rightarrow> nameFactory \<Rightarrow> string \<times> nameFactory" where
  "AssignSafeName basename nf =
     (let count = (case fmlookup nf basename of None \<Rightarrow> 0 | Some n \<Rightarrow> n) in
      (if count = 0 then basename else basename @ ''-'' @ Itoa count, fmupd basename (count + 1) nf))"

fun assign_names :: "string list \<Rightarrow> nameFactory \<Rightarrow> string list \<times> nameFactory" where
  "assign_names [] nf = ([], nf)"
| "assign_names (b # bs) nf =
     (let (n, nf) = AssignSafeName b nf; (ns, nf) = assign_names bs nf in (n # ns, nf))"

end
