(* ===== verification/Das.thy ===== *)
theory Das
  imports HttpSync
begin

text \<open>
  The client of the system the configuration is migrated from (\<open>cmd/internal/das/das.go\<close>): the
  types of its API, names made of allowed characters, and the request with its retries. The server
  is a parameter that answers each attempt; how a response is decoded is a parameter too.
\<close>

subsection \<open>Types\<close>

record v1_git =
  g1_Commit :: string
  g1_Path :: string
  g1_Reference :: string
  g1_Credentials :: string
  g1_Passphrase :: string
  g1_PrivateKey :: string
  g1_URL :: string

record v1_system =
  sy_Id :: string
  sy_Name :: string
  sy_Type :: string
  sy_Policies :: "string list"        \<comment> \<open>their ids\<close>
  sy_Origin :: "v1_git option"        \<comment> \<open>\<open>SourceControl.Origin\<close>\<close>
  sy_Datasources :: "string list"
  sy_ManualDeployment :: bool
  sy_MatchingStacks :: "string list"

record v1_library_control =
  lc_UseWorkspaceSettings :: bool
  lc_Origin :: v1_git
  lc_LibraryOrigin :: v1_git

record v1_library =
  li_Id :: string
  li_Policies :: "string list"
  li_SourceControl :: "v1_library_control option"
  li_Datasources :: "string list"

record v1_stack_control =
  kc_UseWorkspaceSettings :: bool
  kc_Origin :: v1_git
  kc_StackOrigin :: v1_git

record v1_stack =
  st_Id :: string
  st_Name :: string
  st_Type :: string
  st_Policies :: "string list"
  st_SourceControl :: "v1_stack_control option"
  st_Datasources :: "string list"
  st_MatchingSystems :: "string list"

record v1_header =
  h1_Name :: string
  h1_Value :: "string option"
  h1_SecretId :: "string option"

record v1_datasource =
  d1_Id :: string
  d1_Category :: string
  d1_Type :: string
  d1_URL :: string
  d1_Headers :: "v1_header list"

record v1_origin =
  o1_Id :: string
  o1_Commit :: string
  o1_Roots :: "string list"

text \<open>\<open>Active\<close> is the time of activation; its order is all that is used.\<close>

record v1_bundle =
  b1_Id :: string
  b1_Active :: int
  b1_Origins :: "v1_origin list"

text \<open>The modules are in the order in which the runtime iterates over their map.\<close>

record v1_policy =
  p1_Package :: string
  p1_Modules :: "(string \<times> string) list"
  p1_Packages :: "string list"

subsection \<open>Names\<close>

text \<open>
  The runes of a string as the range loop decodes them: a byte that does not start a valid sequence
  is one rune.
\<close>

definition rune_error :: nat where
  "rune_error = 0xFFFD"

definition cont :: "nat \<Rightarrow> nat \<Rightarrow> char \<Rightarrow> bool" where
  "cont lo hi c \<longleftrightarrow> lo \<le> byte c \<and> byte c \<le> hi"

fun DecodeRune :: "string \<Rightarrow> nat \<times> nat" where
  "DecodeRune [] = (rune_error, 0)"
| "DecodeRune (a # s) =
     (let x = byte a in
      if x < 0x80 then (x, 1)
      else case s of
        [] \<Rightarrow> (rune_error, 1)
      | b # s \<Rightarrow>
          if 0xC2 \<le> x \<and> x \<le> 0xDF then
            (if cont 0x80 0xBF b then (64 * (x - 0xC0) + (byte b - 0x80), 2) else (rune_error, 1))
          else case s of
            [] \<Rightarrow> (rune_error, 1)
          | c # s \<Rightarrow>
              if 0xE0 \<le> x \<and> x \<le> 0xEF then
                (if cont (if x = 0xE0 then 0xA0 else 0x80) (if x = 0xED then 0x9F else 0xBF) b \<and> cont 0x80 0xBF c
                 then (64 * (64 * (x - 0xE0) + (byte b - 0x80)) + (byte c - 0x80), 3) else (rune_error, 1))
              else case s of
                [] \<Rightarrow> (rune_error, 1)
              | d # s \<Rightarrow>
                  if 0xF0 \<le> x \<and> x \<le> 0xF4 \<and> cont (if x = 0xF0 then 0x90 else 0x80) (if x = 0xF4 then 0x8F else 0xBF) b \<and>
                     cont 0x80 0xBF c \<and> cont 0x80 0xBF d
                  then (64 * (64 * (64 * (x - 0xF0) + (byte b - 0x80)) + (byte c - 0x80)) + (byte d - 0x80), 4)
                  else (rune_error, 1))"

function runes :: "string \<Rightarrow> nat list" where
  "runes [] = []"
| "runes (c # s) = (let (r, w) = DecodeRune (c # s) in r # runes (drop (w - 1) s))"
  by pat_completeness auto
termination
  by (relation "measure length") auto

text \<open>
  Lower case. Of the runes beyond ASCII two have a lower case in ASCII, the dotted capital I and the
  Kelvin sign; where the others go does not matter, since they are replaced.
\<close>

definition lower_rune :: "nat \<Rightarrow> nat" where
  "lower_rune r =
     (if 65 \<le> r \<and> r \<le> 90 then r + 32 else if r = 0x130 then 0x69 else if r = 0x212A then 0x6B else r)"

definition allowed_rune :: "nat \<Rightarrow> bool" where
  "allowed_rune r \<longleftrightarrow> 97 \<le> r \<and> r \<le> 122 \<or> 48 \<le> r \<and> r \<le> 57 \<or> r = 45 \<or> r = 95 \<or> r = 58 \<or> r = 46"

definition Sanitize :: "string \<Rightarrow> string" where
  "Sanitize name = map (\<lambda>r. if allowed_rune r then char_of r else CHR ''_'') (map lower_rune (runes name))"

definition System_SanitizedName :: "v1_system \<Rightarrow> string" where
  "System_SanitizedName v1 = Sanitize (sy_Name v1)"

definition Library_SanitizedName :: "v1_library \<Rightarrow> string" where
  "Library_SanitizedName v1 = Sanitize (li_Id v1)"

definition Stack_SanitizedName :: "v1_stack \<Rightarrow> string" where
  "Stack_SanitizedName v1 = Sanitize (st_Name v1)"

lemma byte_bound: "byte c < 256"
  by (simp add: byte_def)

lemma runes_ascii: "\<forall>c \<in> set s. byte c < 128 \<Longrightarrow> runes s = map byte s"
  by (induction s) (simp_all add: Let_def)

lemma byte_char_of: "r < 256 \<Longrightarrow> byte (char_of r) = r"
  by (simp add: byte_def)

lemma allowed_bound: "allowed_rune r \<Longrightarrow> r < 128"
  by (auto simp: allowed_rune_def)

lemma Sanitize_allowed: "c \<in> set (Sanitize s) \<Longrightarrow> allowed_rune (byte c)"
proof -
  assume "c \<in> set (Sanitize s)"
  then obtain r where "c = (if allowed_rune r then char_of r else CHR ''_'')" unfolding Sanitize_def set_map by blast
  moreover have "byte (char_of r) = r" if "allowed_rune r"
    using allowed_bound [OF that] by (simp add: byte_char_of)
  moreover have "allowed_rune (byte CHR ''_'')" by code_simp
  ultimately show ?thesis by (cases "allowed_rune r") simp_all
qed

lemma lower_allowed: "allowed_rune r \<Longrightarrow> lower_rune r = r"
  by (auto simp: allowed_rune_def lower_rune_def)

text \<open>A sanitized name stays as it is.\<close>

lemma Sanitize_id: "(\<And>c. c \<in> set s \<Longrightarrow> allowed_rune (byte c)) \<Longrightarrow> Sanitize s = s"
proof -
  assume ok: "\<And>c. c \<in> set s \<Longrightarrow> allowed_rune (byte c)"
  then have "runes s = map byte s"
    by (intro runes_ascii) (use allowed_bound in blast)
  then show ?thesis
    using ok by (auto simp: Sanitize_def comp_def lower_allowed byte_def intro!: map_idI)
qed

lemma Sanitize_Sanitize [simp]: "Sanitize (Sanitize s) = Sanitize s"
  by (rule Sanitize_id) (rule Sanitize_allowed)

lemma Sanitize_no_slash: "CHR ''/'' \<notin> set (Sanitize s)"
proof
  assume "CHR ''/'' \<in> set (Sanitize s)"
  from Sanitize_allowed [OF this] show False by (simp add: allowed_rune_def byte_def)
qed

subsection \<open>Requests\<close>

record das_client =
  dc_URL :: string
  dc_Token :: string
  dc_Headers :: "string list"

datatype das_error =
    BadURL string
  | BadHeader string
  | Transport string
  | Status string nat        \<comment> \<open>the URL and the code\<close>
  | Undecodable string

definition QueryEscape :: "string \<Rightarrow> string" where
  "QueryEscape s = concat (map (\<lambda>c.
     if isAlphaNum c \<or> c \<in> set ''-.~'' then [c]
     else if c = CHR '' '' then ''+''
     else CHR ''%'' # (let hex = (\<lambda>n. ''0123456789ABCDEF'' ! n) in [hex (byte c div 16), hex (byte c mod 16)])) s)"

definition trim_one_slash :: "string \<Rightarrow> string" where
  "trim_one_slash p = (case p of [] \<Rightarrow> [] | c # s \<Rightarrow> if c = CHR ''/'' then s else p)"

definition Header_Add :: "string \<Rightarrow> string \<Rightarrow> out_request \<Rightarrow> out_request" where
  "Header_Add k v r =
     (let k = CanonicalHeaderKey k in r\<lparr>or_headers := fmupd k (fm_get (or_headers r) k @ [v]) (or_headers r)\<rparr>)"

definition add_header :: "string \<Rightarrow> out_request \<Rightarrow> das_error + out_request" where
  "add_header h req =
     (case dropWhile (\<lambda>c. c \<noteq> CHR '':'') h of
        [] \<Rightarrow> Inl (BadHeader h)
      | _ # v \<Rightarrow> Inr (Header_Add (takeWhile (\<lambda>c. c \<noteq> CHR '':'') h) v req))"

text \<open>The loop of at most three attempts: \<open>left\<close> counts the attempts left, \<open>i\<close> those made.\<close>

fun attempts :: "(nat \<Rightarrow> out_request \<Rightarrow> string + nat \<times> string) \<Rightarrow> out_request \<Rightarrow> nat \<Rightarrow> nat \<Rightarrow> nat \<times> string \<Rightarrow>
    das_error + nat \<times> string" where
  "attempts send req i 0 resp = Inr resp"
| "attempts send req i (Suc left) resp =
     (case send i req of
        Inl e \<Rightarrow> Inl (Transport e)
      | Inr resp \<Rightarrow>
          if fst resp = 503 \<or> fst resp = 502 then attempts send req (Suc i) left resp else Inr resp)"

text \<open>The query is in the order in which the runtime iterates over its map.\<close>

definition client_url :: "das_client \<Rightarrow> string \<Rightarrow> (string \<times> string) list \<Rightarrow> string" where
  "client_url c path query =
     (let url = dc_URL c @ ''/'' @ ''/'' @ trim_one_slash path in
      if query = [] then url
      else url @ ''?'' @ strings_Join (map (\<lambda>(k, v). QueryEscape k @ ''='' @ QueryEscape v) query) ''&'')"

definition client_Get :: "(string \<Rightarrow> bool) \<Rightarrow> (nat \<Rightarrow> out_request \<Rightarrow> string + nat \<times> string) \<Rightarrow> das_client \<Rightarrow>
    string \<Rightarrow> (string \<times> string) list \<Rightarrow> das_error + string" where
  "client_Get valid_url send c path query =
     (let url = client_url c path query in
      if \<not> valid_url url then Inl (BadURL url)
      else
        let req = \<lparr>or_method = ''GET'', or_url = url, or_body = [], or_headers = fmempty, or_query = fmempty\<rparr> in
        result_bind (fold_result add_header (dc_Headers c) req) (\<lambda>req.
          let req = (if dc_Token c = [] then req else Header_Add ''authorization'' (''Bearer '' @ dc_Token c) req) in
          result_bind (attempts send req 0 3 (0, [])) (\<lambda>(status, body).
            if status \<noteq> 200 then Inl (Status url status) else Inr body)))"

definition client_JSON :: "(string \<Rightarrow> bool) \<Rightarrow> (nat \<Rightarrow> out_request \<Rightarrow> string + nat \<times> string) \<Rightarrow>
    (string \<Rightarrow> string + string) \<Rightarrow> das_client \<Rightarrow> string \<Rightarrow> (string \<times> string) list \<Rightarrow> das_error + string" where
  "client_JSON valid_url send decode c path query =
     result_bind (client_Get valid_url send c path query) (\<lambda>body.
       case decode body of Inl e \<Rightarrow> Inl (Undecodable e) | Inr result \<Rightarrow> Inr result)"

definition busy :: "string + nat \<times> string \<Rightarrow> bool" where
  "busy r = (case r of Inl e \<Rightarrow> False | Inr (st, body) \<Rightarrow> st = 503 \<or> st = 502)"

text \<open>The attempts give the answer to the first that is not refused as busy, or to the last.\<close>

lemma attempts_spec:
  "(\<exists>k < Suc left. (\<forall>j < k. busy (send (i + j) req)) \<and> (k = left \<or> \<not> busy (send (i + k) req)) \<and>
     attempts send req i (Suc left) resp = (case send (i + k) req of Inl e \<Rightarrow> Inl (Transport e) | Inr r \<Rightarrow> Inr r))"
proof (induction left arbitrary: i resp)
  case 0
  show ?case
    by (intro exI [of _ 0]) (auto split: sum.splits)
next
  case (Suc left)
  show ?case
  proof (cases "busy (send i req)")
    case True
    then obtain r where r: "send i req = Inr r" "fst r = 503 \<or> fst r = 502"
      by (auto simp: busy_def split: sum.splits)
    from Suc.IH [of "Suc i" r] obtain k where k: "k < Suc left" "\<forall>j < k. busy (send (Suc i + j) req)"
      "k = left \<or> \<not> busy (send (Suc i + k) req)"
      "attempts send req (Suc i) (Suc left) r =
         (case send (Suc i + k) req of Inl e \<Rightarrow> Inl (Transport e) | Inr r \<Rightarrow> Inr r)" by blast
    have "\<forall>j < Suc k. busy (send (i + j) req)"
      using k(2) True by (auto simp: less_Suc_eq_0_disj)
    with k r show ?thesis
      by (intro exI [of _ "Suc k"]) simp
  next
    case False
    then show ?thesis
      by (intro exI [of _ 0]) (auto simp: busy_def split: sum.splits)
  qed
qed

end
