(* ===== verification/Policies.thy ===== *)
theory Policies
  imports LibraryTables PackageIndex Das
begin

text \<open>
  The policies of a system or stack in \<open>cmd/migrate/migrate.go\<close>: the files of the built-in libraries
  and the index of their packages, which policies are copied and which a requirement on a library
  replaces, the paths that git provides, and the requirements that references to libraries call for.
  The embedded files, the parser and the references of a module are parameters.
\<close>

subsection \<open>Errors\<close>

datatype migrate_error =
    Das das_error
  | Parse string
  | WalkError string
  | Panic
  | Undecoded string string    \<comment> \<open>what, and the error\<close>
  | ForeignSystem string
  | MissingStack string
  | UnknownResource string
  | MissingSelectorFile string
  | MissingSelector string
  | BadSelector string

definition das :: "das_error + 'a \<Rightarrow> migrate_error + 'a" where
  "das r = (case r of Inl e \<Rightarrow> Inl (Das e) | Inr x \<Rightarrow> Inr x)"

subsection \<open>Built-in libraries\<close>

text \<open>
  The parameters. \<open>ps_walk\<close> gives the embedded files below a directory, in the order of the walk,
  each by its path from the root; \<open>ps_parse\<close> parses a module; \<open>ps_package\<close> is the path of its
  package as a pointer; \<open>ps_refs\<close> gives the references of a module in the order of the walk: nothing
  for one that does not lie below the root document, else the pointer of its constant prefix.
\<close>

record 'm parsers =
  ps_walk :: "string \<Rightarrow> (string \<times> string) list"
  ps_parse :: "string \<Rightarrow> string \<Rightarrow> string + 'm"
  ps_package :: "'m \<Rightarrow> string + string"
  ps_refs :: "'m \<Rightarrow> (string + string) option list"

definition TrimPrefix :: "string \<Rightarrow> string \<Rightarrow> string" where
  "TrimPrefix s pre = (if strings_HasPrefix s pre then drop (length pre) s else s)"

definition builtin_of :: "source \<Rightarrow> string" where
  "builtin_of s = (case src_Builtin s of None \<Rightarrow> [] | Some b \<Rightarrow> b)"

definition baseLibFiles :: "'m parsers \<Rightarrow> (string, (string, string) fmap) fmap" where
  "baseLibFiles ps =
     fold (\<lambda>bi result. fmupd (src_Name bi)
       (fold (\<lambda>(path, content). fmupd (TrimPrefix path (builtin_of bi)) content) (ps_walk ps (builtin_of bi)) fmempty) result)
     baseLibraries fmempty"

type_synonym indexes = "(string, package_index) fmap"

definition index_file :: "'m parsers \<Rightarrow> string \<Rightarrow> string \<Rightarrow> string \<times> string \<Rightarrow> indexes \<Rightarrow> migrate_error + indexes" where
  "index_file ps lib bi f result =
     (let (path, content) = f in
      if path_Ext path \<noteq> ''.rego'' then Inr result
      else case ps_parse ps path content of
        Inl e \<Rightarrow> Inl (Parse e)
      | Inr m \<Rightarrow>
          (case ps_package ps m of
             Inl e \<Rightarrow> Inl (WalkError e)
           | Inr ptr \<Rightarrow>
               (let index = (case fmlookup result lib of None \<Rightarrow> newLibraryPackageIndex | Some i \<Rightarrow> i)
                in Inr (fmupd lib (index_Add ptr bi index) result))))"

definition addReqs :: "'m parsers \<Rightarrow> source \<Rightarrow> indexes \<Rightarrow> migrate_error + indexes" where
  "addReqs ps lib =
     fold_result (\<lambda>r result.
       case getBaseLib r of
         None \<Rightarrow> Inl Panic
       | Some bi \<Rightarrow> fold_result (index_file ps (src_Name lib) (src_Name bi)) (ps_walk ps (builtin_of bi)) result)
     (slice (src_Requirements lib))"

definition baseLibPackageIndex :: "'m parsers \<Rightarrow> migrate_error + indexes" where
  "baseLibPackageIndex ps =
     result_bind (fold_result (addReqs ps) systemTypeLibraries fmempty) (fold_result (addReqs ps) stackTypeLibraries)"

subsection \<open>Policies\<close>

text \<open>What the loop over the policies builds. The two tables are arguments, computed once above.\<close>

record policy_state =
  ps_exclude :: "string set"
  ps_files :: "(string, string) fmap option"

definition policy_modules :: "string list \<Rightarrow> string \<Rightarrow> v1_policy \<Rightarrow> (string, string) fmap" where
  "policy_modules gitRoots pkg p =
     fold (\<lambda>(path, str) modules.
       let path = TrimPrefix pkg ''/'' @ ''/'' @ path in
       if path \<notin> set gitRoots then fmupd path str modules else modules)
     (p1_Modules p) fmempty"

text \<open>The files of the libraries, in the order in which the runtime iterates over the set; a name without files adds none.\<close>

definition library_files :: "(string, (string, string) fmap) fmap \<Rightarrow> string list \<Rightarrow> (string, string) fmap" where
  "library_files libs names =
     fold (\<lambda>name libFiles.
       case fmlookup libs name of
         None \<Rightarrow> libFiles
       | Some fs \<Rightarrow> fold (\<lambda>(path, str). fmupd (TrimPrefix path ''/'') str) (sorted_list_of_fmap fs) libFiles)
     names fmempty"

definition lookup_library :: "indexes \<Rightarrow> source \<Rightarrow> string \<Rightarrow> migrate_error + string set" where
  "lookup_library idx typeLib pkg =
     (case fmlookup idx (src_Name typeLib) of None \<Rightarrow> Inl Panic | Some i \<Rightarrow> Inr (Lookup pkg i))"

definition migrate_policy :: "(string, (string, string) fmap) fmap \<Rightarrow> indexes \<Rightarrow> source option \<Rightarrow> string \<Rightarrow> string list \<Rightarrow>
    v1_policy \<Rightarrow> policy_state \<Rightarrow> migrate_error + policy_state" where
  "migrate_policy libs idx typeLib nsPrefix gitRoots p s =
     (let pkg = TrimPrefix (p1_Package p) nsPrefix in
      if rootsPrefix gitRoots pkg then
        (case typeLib of
           None \<Rightarrow> Inr s
         | Some lib \<Rightarrow>
             result_bind (lookup_library idx lib pkg) (\<lambda>baseLibs. Inr (s\<lparr>ps_exclude := ps_exclude s \<union> baseLibs\<rparr>)))
      else
        let modules = policy_modules gitRoots pkg p;
            add = (\<lambda>s. if modules = fmempty then s else s\<lparr>ps_files := Some (gomap (ps_files s) ++\<^sub>f modules)\<rparr>)
        in case typeLib of
             None \<Rightarrow> Inr (add s)
           | Some lib \<Rightarrow>
               result_bind (lookup_library idx lib pkg) (\<lambda>baseLibs.
                 if modules = library_files libs (sorted_list_of_set baseLibs) then Inr s
                 else Inr (add (s\<lparr>ps_exclude := ps_exclude s \<union> baseLibs\<rparr>))))"

definition policy_requirements :: "source option \<Rightarrow> string set \<Rightarrow> requirements option" where
  "policy_requirements typeLib exclude =
     (case typeLib of
        None \<Rightarrow> None
      | Some lib \<Rightarrow>
          if exclude = {} then Some [Source_Requirement lib]
          else (let rs = filter (\<lambda>r. case req_Source r of None \<Rightarrow> True | Some n \<Rightarrow> n \<notin> exclude) (slice (src_Requirements lib))
                in if rs = [] then None else Some rs))"

definition migrateV1Policies :: "(string, (string, string) fmap) fmap \<Rightarrow> indexes \<Rightarrow> source option \<Rightarrow> string \<Rightarrow>
    v1_policy list \<Rightarrow> string list \<Rightarrow> migrate_error + (string, string) fmap option \<times> requirements option" where
  "migrateV1Policies libs idx typeLib nsPrefix policies gitRoots =
     result_bind (fold_result (migrate_policy libs idx typeLib nsPrefix gitRoots) policies \<lparr>ps_exclude = {}, ps_files = None\<rparr>)
       (\<lambda>s. Inr (ps_files s, policy_requirements typeLib (ps_exclude s)))"

subsection \<open>What becomes of a policy\<close>

text \<open>The library the type names for a package: none without a type library.\<close>

definition libraries_for :: "indexes \<Rightarrow> source option \<Rightarrow> string \<Rightarrow> string set" where
  "libraries_for idx typeLib pkg =
     (case typeLib of None \<Rightarrow> {}
      | Some lib \<Rightarrow> (case fmlookup idx (src_Name lib) of None \<Rightarrow> {} | Some i \<Rightarrow> Lookup pkg i))"

definition unchanged :: "(string, (string, string) fmap) fmap \<Rightarrow> indexes \<Rightarrow> source option \<Rightarrow> string \<Rightarrow> string list \<Rightarrow>
    v1_policy \<Rightarrow> bool" where
  "unchanged libs idx typeLib nsPrefix gitRoots p \<longleftrightarrow>
     typeLib \<noteq> None \<and>
     policy_modules gitRoots (TrimPrefix (p1_Package p) nsPrefix) p =
       library_files libs (sorted_list_of_set (libraries_for idx typeLib (TrimPrefix (p1_Package p) nsPrefix)))"

definition git_backed :: "string \<Rightarrow> string list \<Rightarrow> v1_policy \<Rightarrow> bool" where
  "git_backed nsPrefix gitRoots p = rootsPrefix gitRoots (TrimPrefix (p1_Package p) nsPrefix)"

definition copied_policy :: "(string, (string, string) fmap) fmap \<Rightarrow> indexes \<Rightarrow> source option \<Rightarrow> string \<Rightarrow> string list \<Rightarrow>
    v1_policy \<Rightarrow> bool" where
  "copied_policy libs idx typeLib nsPrefix gitRoots p \<longleftrightarrow>
     \<not> git_backed nsPrefix gitRoots p \<and> \<not> unchanged libs idx typeLib nsPrefix gitRoots p"

definition policies_ok :: "(string, (string, string) fmap) fmap \<Rightarrow> indexes \<Rightarrow> source option \<Rightarrow> string \<Rightarrow> string list \<Rightarrow>
    v1_policy list \<Rightarrow> policy_state \<Rightarrow> bool" where
  "policies_ok libs idx typeLib nsPrefix gitRoots done s \<longleftrightarrow>
     (\<forall>path str. fmlookup (gomap (ps_files s)) path = Some str \<longrightarrow>
        (\<exists>p \<in> set done. copied_policy libs idx typeLib nsPrefix gitRoots p \<and>
           fmlookup (policy_modules gitRoots (TrimPrefix (p1_Package p) nsPrefix) p) path = Some str)) \<and>
     (\<forall>p \<in> set done. copied_policy libs idx typeLib nsPrefix gitRoots p \<longrightarrow>
        fmdom (policy_modules gitRoots (TrimPrefix (p1_Package p) nsPrefix) p) |\<subseteq>| fmdom (gomap (ps_files s))) \<and>
     ps_exclude s = (\<Union>p \<in> {p \<in> set done. \<not> unchanged libs idx typeLib nsPrefix gitRoots p \<or> git_backed nsPrefix gitRoots p}.
        libraries_for idx typeLib (TrimPrefix (p1_Package p) nsPrefix))"

lemma migrate_policy_ok:
  assumes "policies_ok libs idx typeLib nsPrefix gitRoots done s"
    and "migrate_policy libs idx typeLib nsPrefix gitRoots p s = Inr s'"
  shows "policies_ok libs idx typeLib nsPrefix gitRoots (done @ [p]) s'"
proof -
  let ?pkg = "TrimPrefix (p1_Package p) nsPrefix"
  let ?modules = "policy_modules gitRoots ?pkg p"
  let ?libs = "libraries_for idx typeLib ?pkg"
  have look: "baseLibs = ?libs" if "typeLib = Some lib" "lookup_library idx lib ?pkg = Inr baseLibs" for lib baseLibs
    using that by (simp add: libraries_for_def lookup_library_def split: option.splits)
  consider (git) "git_backed nsPrefix gitRoots p" "s' = s\<lparr>ps_exclude := ps_exclude s \<union> ?libs\<rparr>"
    | (same) "\<not> git_backed nsPrefix gitRoots p" "unchanged libs idx typeLib nsPrefix gitRoots p" "s' = s"
    | (copy) "copied_policy libs idx typeLib nsPrefix gitRoots p" "\<not> git_backed nsPrefix gitRoots p"
        "\<not> unchanged libs idx typeLib nsPrefix gitRoots p"
        "ps_exclude s' = ps_exclude s \<union> ?libs" "gomap (ps_files s') = gomap (ps_files s) ++\<^sub>f ?modules"
  proof (cases "git_backed nsPrefix gitRoots p")
    case True
    then have "s' = s\<lparr>ps_exclude := ps_exclude s \<union> ?libs\<rparr>"
      using assms(2) look
      by (cases typeLib) (auto simp: migrate_policy_def git_backed_def result_bind_Inr_iff libraries_for_def [of _ None] Let_def)
    with True show ?thesis by (rule git)
  next
    case False
    show ?thesis
    proof (cases "unchanged libs idx typeLib nsPrefix gitRoots p")
      case True
      then obtain lib where lib: "typeLib = Some lib" and eq: "?modules = library_files libs (sorted_list_of_set ?libs)"
        by (auto simp: unchanged_def)
      have "s' = s"
        using assms(2) False look [OF lib] eq
        by (auto simp: migrate_policy_def git_backed_def lib result_bind_Inr_iff Let_def)
      with False True show ?thesis by (rule same)
    next
      case changed: False
      have c: "copied_policy libs idx typeLib nsPrefix gitRoots p"
        using False changed by (simp add: copied_policy_def)
      have "ps_exclude s' = ps_exclude s \<union> ?libs \<and> gomap (ps_files s') = gomap (ps_files s) ++\<^sub>f ?modules"
      proof (cases typeLib)
        case None
        then show ?thesis
          using assms(2) False by (auto simp: migrate_policy_def git_backed_def libraries_for_def Let_def split: if_splits)
      next
        case (Some lib)
        then obtain baseLibs where b: "lookup_library idx lib ?pkg = Inr baseLibs"
          using assms(2) False by (auto simp: migrate_policy_def git_backed_def result_bind_Inr_iff Let_def)
        have "?modules \<noteq> library_files libs (sorted_list_of_set ?libs)"
          using changed Some by (simp add: unchanged_def)
        then show ?thesis
          using assms(2) False b look [OF Some b]
          by (auto simp: migrate_policy_def git_backed_def Some Let_def split: if_splits)
      qed
      with c False changed show ?thesis by (intro copy) simp_all
    qed
  qed
  then show ?thesis
  proof cases
    case git
    then show ?thesis
      using assms(1) by (auto simp: policies_ok_def copied_policy_def)
  next
    case same
    then show ?thesis
      using assms(1) by (auto simp: policies_ok_def copied_policy_def)
  next
    case copy
    show ?thesis
      unfolding policies_ok_def
    proof (intro conjI allI impI ballI)
      fix path str
      assume l: "fmlookup (gomap (ps_files s')) path = Some str"
      show "\<exists>p \<in> set (done @ [p]). copied_policy libs idx typeLib nsPrefix gitRoots p \<and>
           fmlookup (policy_modules gitRoots (TrimPrefix (p1_Package p) nsPrefix) p) path = Some str"
      proof (cases "path |\<in>| fmdom ?modules")
        case True
        with l copy(1,5) show ?thesis by simp
      next
        case False
        with l copy(5) have "fmlookup (gomap (ps_files s)) path = Some str" by simp
        with assms(1) show ?thesis by (force simp: policies_ok_def)
      qed
    next
      fix q
      assume "q \<in> set (done @ [p])" "copied_policy libs idx typeLib nsPrefix gitRoots q"
      then show "fmdom (policy_modules gitRoots (TrimPrefix (p1_Package q) nsPrefix) q) |\<subseteq>| fmdom (gomap (ps_files s'))"
        using assms(1) unfolding copy(5) fmdom_add by (auto simp: policies_ok_def)
    next
      show "ps_exclude s' = (\<Union>q \<in> {q \<in> set (done @ [p]). \<not> unchanged libs idx typeLib nsPrefix gitRoots q \<or>
          git_backed nsPrefix gitRoots q}. libraries_for idx typeLib (TrimPrefix (p1_Package q) nsPrefix))"
        using assms(1) copy(3,4) by (auto simp: policies_ok_def)
    qed
  qed
qed

lemma migrate_policies_ok:
  "fold_result (migrate_policy libs idx typeLib nsPrefix gitRoots) ps \<lparr>ps_exclude = {}, ps_files = None\<rparr> = Inr s \<Longrightarrow>
   policies_ok libs idx typeLib nsPrefix gitRoots ps s"
proof (induction ps arbitrary: s rule: rev_induct)
  case Nil
  then show ?case by (auto simp: policies_ok_def)
next
  case (snoc p ps)
  then obtain t where "fold_result (migrate_policy libs idx typeLib nsPrefix gitRoots) ps \<lparr>ps_exclude = {}, ps_files = None\<rparr> = Inr t"
    and p: "migrate_policy libs idx typeLib nsPrefix gitRoots p t = Inr s"
    by (auto simp: fold_result_snoc result_bind_Inr_iff)
  from migrate_policy_ok [OF snoc.IH [OF this(1)] p] show ?case .
qed

text \<open>
  C21: If the policies of a system or stack are migrated, every file of the result is a module of a
  policy that is neither git-backed nor the same as the files of the libraries its package lies
  at, and every module of such a policy is in the result, under its path. The source
  requires the library of its type if no library is touched by a policy that is copied or git-backed;
  else it requires those of the type's base libraries that none of them touches.
\<close>
theorem policies_migrated:
  assumes "migrateV1Policies libs idx typeLib nsPrefix policies gitRoots = Inr (files, rs)"
  shows "(\<forall>path str. fmlookup (gomap files) path = Some str \<longrightarrow>
      (\<exists>p \<in> set policies. copied_policy libs idx typeLib nsPrefix gitRoots p \<and>
         fmlookup (policy_modules gitRoots (TrimPrefix (p1_Package p) nsPrefix) p) path = Some str)) \<and>
    (\<forall>p \<in> set policies. copied_policy libs idx typeLib nsPrefix gitRoots p \<longrightarrow>
      fmdom (policy_modules gitRoots (TrimPrefix (p1_Package p) nsPrefix) p) |\<subseteq>| fmdom (gomap files)) \<and>
    (\<exists>touched. touched = (\<Union>p \<in> {p \<in> set policies. \<not> unchanged libs idx typeLib nsPrefix gitRoots p \<or>
        git_backed nsPrefix gitRoots p}. libraries_for idx typeLib (TrimPrefix (p1_Package p) nsPrefix)) \<and>
      (typeLib = None \<longrightarrow> rs = None) \<and>
      (\<forall>lib. typeLib = Some lib \<longrightarrow>
         slice rs = (if touched = {} then [Source_Requirement lib]
           else filter (\<lambda>r. case req_Source r of None \<Rightarrow> True | Some n \<Rightarrow> n \<notin> touched) (slice (src_Requirements lib)))))"
proof -
  from assms obtain s where s: "fold_result (migrate_policy libs idx typeLib nsPrefix gitRoots) policies
      \<lparr>ps_exclude = {}, ps_files = None\<rparr> = Inr s"
    and files: "files = ps_files s" and rs: "rs = policy_requirements typeLib (ps_exclude s)"
    by (auto simp: migrateV1Policies_def result_bind_Inr_iff)
  note ok = migrate_policies_ok [OF s, unfolded policies_ok_def]
  have "(typeLib = None \<longrightarrow> rs = None) \<and>
      (\<forall>lib. typeLib = Some lib \<longrightarrow>
         slice rs = (if ps_exclude s = {} then [Source_Requirement lib]
           else filter (\<lambda>r. case req_Source r of None \<Rightarrow> True | Some n \<Rightarrow> n \<notin> ps_exclude s) (slice (src_Requirements lib))))"
    by (auto simp: rs policy_requirements_def Let_def)
  with ok show ?thesis unfolding files by blast
qed

text \<open>
  A policy whose files are those of its type's libraries is not copied, since a requirement is to
  bring them. If another policy at or below one of these libraries is copied or git-backed, the
  source does not require the library either: the files of the first policy are in neither place.
\<close>
theorem policies_lost:
  assumes "migrateV1Policies libs idx typeLib nsPrefix policies gitRoots = Inr (files, rs)"
    and "p \<in> set policies" and "unchanged libs idx typeLib nsPrefix gitRoots p" and "\<not> git_backed nsPrefix gitRoots p"
    and "q \<in> set policies" and "copied_policy libs idx typeLib nsPrefix gitRoots q \<or> git_backed nsPrefix gitRoots q"
    and "lib \<in> libraries_for idx typeLib (TrimPrefix (p1_Package p) nsPrefix)"
    and "lib \<in> libraries_for idx typeLib (TrimPrefix (p1_Package q) nsPrefix)"
    and "\<forall>q \<in> set policies. copied_policy libs idx typeLib nsPrefix gitRoots q \<longrightarrow>
      path |\<notin>| fmdom (policy_modules gitRoots (TrimPrefix (p1_Package q) nsPrefix) q)"
  shows "fmlookup (gomap files) path = None \<and> (\<forall>r \<in> set (slice rs). req_Source r \<noteq> Some lib)"
proof -
  from assms(1) obtain s where s: "fold_result (migrate_policy libs idx typeLib nsPrefix gitRoots) policies
      \<lparr>ps_exclude = {}, ps_files = None\<rparr> = Inr s"
    and files: "files = ps_files s" and rs: "rs = policy_requirements typeLib (ps_exclude s)"
    by (auto simp: migrateV1Policies_def result_bind_Inr_iff)
  note ok = migrate_policies_ok [OF s, unfolded policies_ok_def]
  have "lib \<in> ps_exclude s"
    using ok assms(5,6,8) by (auto simp: copied_policy_def)
  then have "\<forall>r \<in> set (slice rs). req_Source r \<noteq> Some lib"
    unfolding rs by (auto simp: policy_requirements_def Let_def split: option.splits)
  moreover have "fmlookup (gomap files) path = None"
  proof (rule ccontr)
    assume "fmlookup (gomap files) path \<noteq> None"
    then obtain str where "fmlookup (gomap (ps_files s)) path = Some str" by (auto simp: files)
    with ok obtain q where "q \<in> set policies" "copied_policy libs idx typeLib nsPrefix gitRoots q"
      "fmlookup (policy_modules gitRoots (TrimPrefix (p1_Package q) nsPrefix) q) path = Some str" by blast
    with assms(9) show False by (metis fmdomI)
  qed
  ultimately show ?thesis by blast
qed

subsection \<open>An example\<close>

text \<open>
  A system of type envoy: its main policy is the one of the built-in library; a test package the user
  wrote lies below it.
\<close>

definition example_libs :: "(string, (string, string) fmap) fmap" where
  "example_libs = fmap_of_list [(''envoy:v1-entrypoint-application'', fmap_of_list [(''/policy/app/main/main.rego'', ''main'')])]"

definition example_idx :: indexes where
  "example_idx = fmap_of_list [(''envoy:v1'', index_of [(''policy/app/main'', ''envoy:v1-entrypoint-application'')])]"

definition example_main :: v1_policy where
  "example_main = \<lparr>p1_Package = ''systems/7/policy/app/main'', p1_Modules = [(''main.rego'', ''main'')], p1_Packages = []\<rparr>"

definition example_test :: v1_policy where
  "example_test = \<lparr>p1_Package = ''systems/7/policy/app/main/test'', p1_Modules = [(''t.rego'', ''test'')], p1_Packages = []\<rparr>"

definition envoy :: "source option" where
  "envoy = getSystemTypeLib ''envoy''"

lemma example_facts:
  "migrateV1Policies example_libs example_idx envoy ''systems/7/'' [example_main] [] = Inr (None, Some [source_requirement ''envoy:v1''])"
  "copied_policy example_libs example_idx envoy ''systems/7/'' [] example_test"
  "unchanged example_libs example_idx envoy ''systems/7/'' [] example_main"
  "\<not> git_backed ''systems/7/'' [] example_main"
  by code_simp+

lemma example_files:
  "(case migrateV1Policies example_libs example_idx envoy ''systems/7/'' [example_main, example_test] [] of
      Inr (files, rs) \<Rightarrow> fmlookup (gomap files) ''policy/app/main/test/t.rego'' = Some ''test'' \<and>
        fmlookup (gomap files) ''policy/app/main/main.rego'' = None \<and>
        rs = Some (filter (\<lambda>r. req_Source r \<noteq> Some ''envoy:v1-entrypoint-application'') (slice (src_Requirements (the envoy)))) 
    | Inl e \<Rightarrow> False)"
  by code_simp

theorem policies_migrated_witness:
  "\<exists>files rs. migrateV1Policies example_libs example_idx envoy ''systems/7/'' [example_main, example_test] [] = Inr (files, rs) \<and>
     ''policy/app/main/test/t.rego'' |\<in>| fmdom (gomap files)"
proof -
  obtain files rs where r: "migrateV1Policies example_libs example_idx envoy ''systems/7/'' [example_main, example_test] [] = Inr (files, rs)"
    using example_files by (auto split: sum.splits)
  have "copied_policy example_libs example_idx envoy ''systems/7/'' [] example_test" by (rule example_facts)
  then have "fmdom (policy_modules [] (TrimPrefix (p1_Package example_test) ''systems/7/'') example_test) |\<subseteq>| fmdom (gomap files)"
    using policies_migrated [OF r] by simp
  moreover have "''policy/app/main/test/t.rego'' |\<in>|
      fmdom (policy_modules [] (TrimPrefix (p1_Package example_test) ''systems/7/'') example_test)"
    by code_simp
  ultimately show ?thesis using r by blast
qed

theorem policies_lost_witness:
  "\<exists>files rs. migrateV1Policies example_libs example_idx envoy ''systems/7/'' [example_main, example_test] [] = Inr (files, rs) \<and>
     fmlookup (gomap files) ''policy/app/main/main.rego'' = None \<and>
     (\<forall>r \<in> set (slice rs). req_Source r \<noteq> Some ''envoy:v1-entrypoint-application'')"
proof -
  obtain files rs where r: "migrateV1Policies example_libs example_idx envoy ''systems/7/'' [example_main, example_test] [] = Inr (files, rs)"
    using example_files by (auto split: sum.splits)
  have "''envoy:v1-entrypoint-application'' \<in> libraries_for example_idx envoy (TrimPrefix (p1_Package example_main) ''systems/7/'')"
    "''envoy:v1-entrypoint-application'' \<in> libraries_for example_idx envoy (TrimPrefix (p1_Package example_test) ''systems/7/'')"
    "''policy/app/main/main.rego'' |\<notin>|
       fmdom (policy_modules [] (TrimPrefix (p1_Package example_test) ''systems/7/'') example_test)"
    by code_simp+
  moreover have "\<not> copied_policy example_libs example_idx envoy ''systems/7/'' [] example_main"
    using example_facts(3) by (simp add: copied_policy_def)
  ultimately show ?thesis
    using policies_lost [OF r, of example_main example_test "''envoy:v1-entrypoint-application''" "''policy/app/main/main.rego''"]
      example_facts r by auto
qed

end
