(* ===== verification/Migrate.thy ===== *)
theory Migrate
  imports Policies ConfigRoot
begin

text \<open>
  How \<open>cmd/migrate/migrate.go\<close> maps one library, system or stack: its git repository with the secret,
  its data sources, its policies, its labels and pinned revisions, and the selector of a stack,
  read from the syntax tree of its selector policy. Requests go to a function that gives the raw result
  of a path; the decoders of the results are parameters.
\<close>

subsection \<open>Parameters\<close>

text \<open>The parts of a syntax tree the selector logic looks at. A term it does not know is a number.\<close>

datatype aterm = AVar string | AString string | ARef "aterm list" | ATerm nat

record aexpr =
  ex_terms :: "aterm list option"     \<comment> \<open>nothing for a single term\<close>
  ex_negated :: bool

text \<open>\<open>me_rules\<close> gives the rules of a module: the name of the head and the expressions in the order
  of the walk.\<close>

record ('m, 'g) migrate_env =
  me_json :: "string \<Rightarrow> das_error + string"
  me_datasource :: "string \<Rightarrow> string + v1_datasource"
  me_bundles :: "string \<Rightarrow> string + v1_bundle list"
  me_labels :: "string \<Rightarrow> string + labels option"
  me_parsers :: "'m parsers"
  me_libs :: "(string, (string, string) fmap) fmap"
  me_index :: indexes
  me_rules :: "'m \<Rightarrow> (string \<times> aexpr list) list"
  me_ast_JSON :: "aterm \<Rightarrow> string + any"
  me_compile :: "string \<Rightarrow> 'g option"

definition decoded :: "string \<Rightarrow> string + 'a \<Rightarrow> migrate_error + 'a" where
  "decoded what r = (case r of Inl e \<Rightarrow> Inl (Undecoded what e) | Inr x \<Rightarrow> Inr x)"

subsection \<open>Git\<close>

definition bare_secret :: "string \<Rightarrow> secret" where
  "bare_secret name = \<lparr>sec_Name = name, sec_Value = None\<rparr>"

definition secret_ref :: "secret \<Rightarrow> secretref" where
  "secret_ref s = \<lparr>ref_Name = sec_Name s, ref_value = None\<rparr>"

text \<open>A nil origin is dereferenced: a panic.\<close>

definition migrateV1GitConfig :: "v1_git option \<Rightarrow> source \<Rightarrow> migrate_error + source \<times> secret option" where
  "migrateV1GitConfig origin src =
     (case origin of
        None \<Rightarrow> Inl Panic
      | Some o1 \<Rightarrow>
          let g = (src_Git src)\<lparr>git_Repo := g1_URL o1\<rparr>;
              g = (if g1_Commit o1 \<noteq> [] then g\<lparr>git_Commit := Some (g1_Commit o1)\<rparr>
                   else if g1_Reference o1 \<noteq> [] then g\<lparr>git_Reference := Some (g1_Reference o1)\<rparr> else g);
              g = (if g1_Path o1 \<noteq> [] then g\<lparr>git_Path := Some (g1_Path o1)\<rparr> else g);
              secret = (if g1_Credentials o1 \<noteq> [] then Some (bare_secret (Sanitize (g1_Credentials o1)))
                        else if g1_PrivateKey o1 \<noteq> [] then Some (bare_secret (Sanitize (g1_PrivateKey o1)))
                        else None);
              g = (case secret of None \<Rightarrow> g | Some s \<Rightarrow> g\<lparr>git_Credentials := Some (secret_ref s)\<rparr>);
              g = (if git_Repo g \<noteq> [] then g\<lparr>git_ExcludedFiles := [''.*/*'']\<rparr> else g)
          in Inr (src\<lparr>src_Git := g\<rparr>, secret))"

definition getLibraryGitOrigin :: "v1_library \<Rightarrow> bool \<times> v1_git option" where
  "getLibraryGitOrigin v1 =
     (case li_SourceControl v1 of
        None \<Rightarrow> (False, None)
      | Some c \<Rightarrow> if lc_UseWorkspaceSettings c \<and> g1_URL (lc_Origin c) \<noteq> [] then (True, Some (lc_Origin c))
                 else (False, Some (lc_LibraryOrigin c)))"

definition getStackGitOrigin :: "v1_stack \<Rightarrow> bool \<times> v1_git option" where
  "getStackGitOrigin v1 =
     (case st_SourceControl v1 of
        None \<Rightarrow> (False, None)
      | Some c \<Rightarrow> if kc_UseWorkspaceSettings c \<and> g1_URL (kc_Origin c) \<noteq> [] then (True, Some (kc_Origin c))
                 else (False, Some (kc_StackOrigin c)))"

subsection \<open>Data sources\<close>

text \<open>
  The loop over the headers: the credentials and the secret. Header values are put into a map that
  is not used afterwards.
\<close>

definition migrate_header :: "v1_header \<Rightarrow> secretref option \<times> secret option \<times> (string, string) fmap \<Rightarrow>
    secretref option \<times> secret option \<times> (string, string) fmap" where
  "migrate_header h s =
     (case s of (cred, secret, headers) \<Rightarrow>
        if h1_Name h = ''Authorization'' then
          (case h1_Value h of
             Some v \<Rightarrow> (cred, secret, fmupd ''authorization'' v headers)
           | None \<Rightarrow>
               (case h1_SecretId h of
                  None \<Rightarrow> (cred, secret, headers)
                | Some sid \<Rightarrow>
                    let x = \<lparr>sec_Name = Sanitize sid,
                      sec_Value = Some (fmap_of_list [(''type'', AStr ''token_auth''), (''token'', AStr [])])\<rparr>
                    in (Some (secret_ref x), Some x, headers)))
        else
          (case h1_Value h of
             Some v \<Rightarrow> (cred, secret, fmupd (h1_Name h) v headers)
           | None \<Rightarrow> (cred, secret, headers)))"

definition migrateV1HTTPPullDatasource :: "string \<Rightarrow> v1_datasource \<Rightarrow> datasource \<times> secret option" where
  "migrateV1HTTPPullDatasource nsPrefix v1 =
     (let (cred, secret, headers) = fold migrate_header (d1_Headers v1) (None, None, fmempty)
      in (\<lparr>ds_Name = d1_Id v1, ds_Path = TrimPrefix (d1_Id v1) nsPrefix, ds_Type = ''http'', ds_TransformQuery = [],
           ds_Config = Some (fmap_of_list [(''url'', AStr (d1_URL v1))]), ds_Credentials = cred\<rparr>, secret))"

definition migrateV1DatasourceContent :: "('m, 'g) migrate_env \<Rightarrow> string \<Rightarrow> string \<Rightarrow>
    migrate_error + string \<times> string" where
  "migrateV1DatasourceContent env nsPrefix dsid =
     result_bind (das (me_json env (''v1/data/'' @ dsid))) (\<lambda>raw.
       Inr (TrimPrefix dsid nsPrefix @ ''/data.json'', raw))"

type_synonym datasources_state = "datasource list \<times> (string \<times> string) list \<times> secret list"

definition migrate_datasource :: "('m, 'g) migrate_env \<Rightarrow> string \<Rightarrow> bool \<Rightarrow> string \<Rightarrow> datasources_state \<Rightarrow>
    migrate_error + datasources_state" where
  "migrate_datasource env nsPrefix migrateDSContent ref s =
     (case s of (dss, files, secrets) \<Rightarrow>
        result_bind (das (me_json env (''v1/datasources/'' @ ref))) (\<lambda>raw.
        result_bind (decoded ''datasource'' (me_datasource env raw)) (\<lambda>ds.
          let (dss, secrets) =
                (if d1_Category ds = ''http'' \<and> d1_Type ds = ''pull'' then
                   (let (d, secret) = migrateV1HTTPPullDatasource nsPrefix ds
                    in (dss @ [d], case secret of None \<Rightarrow> secrets | Some x \<Rightarrow> secrets @ [x]))
                 else (dss, secrets))
          in if migrateDSContent then
               result_bind (migrateV1DatasourceContent env nsPrefix (d1_Id ds)) (\<lambda>f. Inr (dss, files @ [f], secrets))
             else Inr (dss, files, secrets))))"

definition migrateV1Datasources :: "('m, 'g) migrate_env \<Rightarrow> string \<Rightarrow> string list \<Rightarrow> bool \<Rightarrow>
    migrate_error + datasources_state" where
  "migrateV1Datasources env nsPrefix refs migrateDSContent =
     fold_result (migrate_datasource env nsPrefix migrateDSContent) refs ([], [], [])"

text \<open>What a source gets from its data sources, if it has any.\<close>

definition add_datasources :: "('m, 'g) migrate_env \<Rightarrow> string \<Rightarrow> string list \<Rightarrow> bool \<Rightarrow> source \<Rightarrow>
    migrate_error + source \<times> secret list" where
  "add_datasources env nsPrefix refs migrateDSContent src =
     (if refs = [] then Inr (src, [])
      else result_bind (migrateV1Datasources env nsPrefix refs migrateDSContent) (\<lambda>(ds, files, secrets).
        Inr (fold (\<lambda>(path, content). SetEmbeddedFile path content) files (src\<lparr>src_Datasources := ds\<rparr>), secrets)))"

text \<open>Of a repository only the files of the library or stack are included.\<close>

definition include_files :: "string \<Rightarrow> source \<Rightarrow> source" where
  "include_files inc src =
     (if git_Repo (src_Git src) \<noteq> [] then src\<lparr>src_Git := (src_Git src)\<lparr>git_IncludedFiles := [inc]\<rparr>\<rparr> else src)"

subsection \<open>Libraries\<close>

definition mapV1LibraryToSourceAndSecretConfig :: "('m, 'g) migrate_env \<Rightarrow> nameFactory \<Rightarrow> v1_library \<Rightarrow> bool \<Rightarrow>
    (migrate_error + source \<times> secret list) \<times> nameFactory" where
  "mapV1LibraryToSourceAndSecretConfig env nf v1 datasources =
     (let (name, nf) = AssignSafeName (li_Id v1) nf in
      (result_bind (migrateV1GitConfig (snd (getLibraryGitOrigin v1)) (empty_source name)) (\<lambda>(src, secret).
         result_bind (add_datasources env [] (li_Datasources v1) datasources
             (include_files (''libraries/'' @ li_Id v1 @ ''/*'') src)) (\<lambda>(src, secrets).
              Inr (src, (case secret of None \<Rightarrow> [] | Some x \<Rightarrow> [x]) @ secrets))), nf))"

definition embed_policies :: "v1_policy list \<Rightarrow> source \<Rightarrow> source" where
  "embed_policies policies src =
     fold (\<lambda>p. fold (\<lambda>(file, str). SetEmbeddedFile (p1_Package p @ ''/'' @ file) str) (p1_Modules p)) policies src"

definition migrateV1Library :: "('m, 'g) migrate_env \<Rightarrow> nameFactory \<Rightarrow> v1_policy list \<Rightarrow> v1_library \<Rightarrow> bool \<Rightarrow>
    (migrate_error + source \<times> secret list) \<times> nameFactory" where
  "migrateV1Library env nf policies v1 migrateDSContent =
     (let (r, nf) = mapV1LibraryToSourceAndSecretConfig env nf v1 migrateDSContent in
      (result_bind r (\<lambda>(src, secrets).
         if git_Repo (src_Git src) \<noteq> [] then Inr (src, secrets)
         else Inr (embed_policies policies src, secrets)), nf))"

subsection \<open>The paths git provides\<close>

definition getSystemGitRoots :: "('m, 'g) migrate_env \<Rightarrow> bool \<Rightarrow> v1_system \<Rightarrow> migrate_error + string list" where
  "getSystemGitRoots env sbomEnabled v1 =
     (if sy_Origin v1 = None then Inr []
      else if \<not> sbomEnabled then Inr [[]]
      else result_bind (das (me_json env (''v1/systems/'' @ sy_Id v1 @ ''/bundles''))) (\<lambda>raw.
           result_bind (decoded ''bundles'' (me_bundles env raw)) (\<lambda>bundles.
             case bundles of
               [] \<Rightarrow> Inr []
             | b # _ \<Rightarrow> Inr (concat (map o1_Roots (b1_Origins b))))))"

definition getStackGitRoots :: "('m, 'g) migrate_env \<Rightarrow> bool \<Rightarrow> v1_stack \<Rightarrow> migrate_error + string list" where
  "getStackGitRoots env sbomEnabled v1 =
     (if st_SourceControl v1 = None then Inr []
      else case st_MatchingSystems v1 of
        [] \<Rightarrow> Inr [[]]
      | system # _ \<Rightarrow>
          if \<not> sbomEnabled then Inr [[]]
          else result_bind (das (me_json env (''v1/systems/'' @ system @ ''/bundles''))) (\<lambda>raw.
               result_bind (decoded ''bundles'' (me_bundles env raw)) (\<lambda>bundles.
                 case bundles of
                   [] \<Rightarrow> Inr []
                 | b # _ \<Rightarrow> Inr (filter (\<lambda>r. strings_HasPrefix r (''stacks/'' @ st_Id v1 @ ''/''))
                     (concat (map o1_Roots (b1_Origins b)))))))"

subsection \<open>Systems\<close>

definition mapV1SystemToBundleSourceAndSecretConfig :: "nameFactory \<Rightarrow> v1_system \<Rightarrow>
    bundle_config \<times> source \<times> secret option \<times> nameFactory" where
  "mapV1SystemToBundleSourceAndSecretConfig nf v1 =
     (let (name, nf) = AssignSafeName (System_SanitizedName v1) nf;
          src = empty_source name;
          bundle = zero_bundle\<lparr>bun_Name := System_SanitizedName v1, bun_Requirements := Some [source_requirement name]\<rparr>
      in case sy_Origin v1 of
           None \<Rightarrow> (bundle, src, None, nf)
         | Some origin \<Rightarrow>
             (case migrateV1GitConfig (Some origin) src of
                Inl e \<Rightarrow> (bundle, src, None, nf)
              | Inr (src, secret) \<Rightarrow> (bundle, src, secret, nf)))"

definition set_label :: "string \<Rightarrow> string \<Rightarrow> bundle_config \<Rightarrow> bundle_config" where
  "set_label k v b = b\<lparr>bun_Labels := Some (fmupd k v (gomap (bun_Labels b)))\<rparr>"

text \<open>The labels of a system. An assignment to an entry of a nil map is a panic.\<close>

definition system_labels :: "('m, 'g) migrate_env \<Rightarrow> v1_system \<Rightarrow> bundle_config \<Rightarrow> migrate_error + bundle_config" where
  "system_labels env v1 bundle =
     result_bind (das (me_json env (''v1/data/metadata/'' @ sy_Id v1 @ ''/labels''))) (\<lambda>raw.
     result_bind
       (if raw \<noteq> [] then
          result_bind (decoded ''labels'' (me_labels env raw)) (\<lambda>labels.
            case labels of
              None \<Rightarrow> Inl Panic
            | Some l \<Rightarrow> Inr (set_label ''system-type'' (sy_Type v1) (bundle\<lparr>bun_Labels := Some l\<rparr>)))
        else Inr (bundle\<lparr>bun_Labels := Some fmempty\<rparr>))
       (\<lambda>bundle. Inr (set_label ''system-id'' (sy_Id v1) bundle)))"

fun MaxFunc :: "v1_bundle list \<Rightarrow> v1_bundle \<Rightarrow> v1_bundle" where
  "MaxFunc [] m = m"
| "MaxFunc (b # bs) m = MaxFunc bs (if b1_Active b > b1_Active m then b else m)"

definition pin_first :: "string \<Rightarrow> requirements option \<Rightarrow> requirements option" where
  "pin_first commit rs =
     (case slice rs of [] \<Rightarrow> rs | r # rest \<Rightarrow> Some (r\<lparr>req_Commit := Some commit\<rparr> # rest))"

definition pinned_requirement :: "string \<Rightarrow> string \<Rightarrow> requirement" where
  "pinned_requirement name commit = (source_requirement name)\<lparr>req_Commit := Some commit\<rparr>"

definition add_pinned :: "requirement \<Rightarrow> bundle_config \<Rightarrow> bundle_config" where
  "add_pinned r b = b\<lparr>bun_Requirements := Some (slice (bun_Requirements b) @ [r])\<rparr>"

definition pin_origin :: "(string \<times> v1_stack) list \<Rightarrow> v1_system \<Rightarrow> v1_origin \<Rightarrow> bundle_config \<times> string list \<Rightarrow>
    migrate_error + bundle_config \<times> string list" where
  "pin_origin stacks v1 o1 s =
     (case s of (bundle, excludeStacks) \<Rightarrow>
        if strings_HasPrefix (o1_Id o1) ''systems/'' then
          (if TrimPrefix (o1_Id o1) ''systems/'' = sy_Id v1
           then Inr (bundle\<lparr>bun_Requirements := pin_first (o1_Commit o1) (bun_Requirements bundle)\<rparr>, excludeStacks)
           else Inl (ForeignSystem (o1_Id o1)))
        else if strings_HasPrefix (o1_Id o1) ''stacks/'' then
          (let sid = TrimPrefix (o1_Id o1) ''stacks/'' in
           case map_of stacks sid of
             None \<Rightarrow> Inl (MissingStack (o1_Id o1))
           | Some stack \<Rightarrow>
               Inr (add_pinned (pinned_requirement (Stack_SanitizedName stack) (o1_Commit o1)) bundle,
                    List.insert sid excludeStacks))
        else if strings_HasPrefix (o1_Id o1) ''libraries/'' then
          Inr (add_pinned (pinned_requirement (Sanitize (TrimPrefix (o1_Id o1) ''libraries/'')) (o1_Commit o1)) bundle,
               excludeStacks)
        else Inl (UnknownResource (o1_Id o1)))"

definition pin_deployed :: "('m, 'g) migrate_env \<Rightarrow> (string \<times> v1_stack) list \<Rightarrow> v1_system \<Rightarrow> bundle_config \<Rightarrow>
    migrate_error + bundle_config" where
  "pin_deployed env stacks v1 bundle =
     result_bind (das (me_json env (''v1/systems/'' @ sy_Id v1 @ ''/bundles''))) (\<lambda>raw.
     result_bind (decoded ''bundles'' (me_bundles env raw)) (\<lambda>deployed.
       case filter (\<lambda>b. b1_Id b = ''policy'') deployed of
         [] \<Rightarrow> Inr bundle
       | b # bs \<Rightarrow>
           result_bind (fold_result (pin_origin stacks v1) (b1_Origins (MaxFunc bs b)) (bundle, []))
             (\<lambda>(bundle, excludeStacks).
                Inr (fold (\<lambda>sid. set_label (''exclude-stack-'' @ sid) ''true'') excludeStacks bundle))))"

definition migrateV1System :: "('m, 'g) migrate_env \<Rightarrow> bool \<Rightarrow> (string \<times> v1_stack) list \<Rightarrow> nameFactory \<Rightarrow> v1_policy list \<Rightarrow>
    v1_system \<Rightarrow> bool \<Rightarrow> (migrate_error + bundle_config \<times> source \<times> secret list) \<times> nameFactory" where
  "migrateV1System env sbom stacks nf policies v1 migrateDSContent =
     (let (bundle, src, secret, nf) = mapV1SystemToBundleSourceAndSecretConfig nf v1;
          ns = ''systems/'' @ sy_Id v1 @ ''/''
      in (result_bind (getSystemGitRoots env sbom v1) (\<lambda>gitRoots.
          result_bind (migrateV1Policies (me_libs env) (me_index env) (getSystemTypeLib (sy_Type v1)) ns policies gitRoots)
            (\<lambda>(files, rs).
          let src = SetEmbeddedFiles (sorted_list_of_fmap (gomap files)) (src\<lparr>src_Requirements := rs\<rparr>) in
          result_bind (system_labels env v1 bundle) (\<lambda>bundle.
          result_bind (add_datasources env ns (sy_Datasources v1) migrateDSContent src) (\<lambda>(src, dsSecrets).
          result_bind (if sy_ManualDeployment v1 then pin_deployed env stacks v1 bundle else Inr bundle) (\<lambda>bundle.
            Inr (bundle, src, (case secret of None \<Rightarrow> [] | Some x \<Rightarrow> [x]) @ dsSecrets)))))), nf))"

subsection \<open>Stacks\<close>

definition mapV1StackToSourceAndSecretConfig :: "('m, 'g) migrate_env \<Rightarrow> nameFactory \<Rightarrow> v1_stack \<Rightarrow> bool \<Rightarrow>
    (migrate_error + source \<times> secret list) \<times> nameFactory" where
  "mapV1StackToSourceAndSecretConfig env nf v1 migrateDSContent =
     (let (name, nf) = AssignSafeName (Stack_SanitizedName v1) nf in
      (result_bind (add_datasources env [] (st_Datasources v1) migrateDSContent (empty_source name)) (\<lambda>(src, secrets).
         case snd (getStackGitOrigin v1) of
           None \<Rightarrow> Inr (src, secrets)
         | Some origin \<Rightarrow>
             result_bind (migrateV1GitConfig (Some origin) src) (\<lambda>(src, secret).
               Inr (include_files (''stacks/'' @ st_Id v1 @ ''/*'') src,
                 secrets @ (case secret of None \<Rightarrow> [] | Some x \<Rightarrow> [x])))), nf))"

text \<open>A JSON value as the map the selector is read from.\<close>

definition raw_string :: "any \<Rightarrow> string + string" where
  "raw_string x = (case x of AStr s \<Rightarrow> Inr s | ANull \<Rightarrow> Inr [] | _ \<Rightarrow> Inl ''not a string'')"

definition raw_strings :: "any \<Rightarrow> string + string list" where
  "raw_strings x =
     (case x of
        ANull \<Rightarrow> Inr []
      | AList xs \<Rightarrow> fold_result (\<lambda>x ys. result_bind (raw_string x) (\<lambda>y. Inr (ys @ [y]))) xs []
      | _ \<Rightarrow> Inl ''not a list'')"

definition raw_selector :: "any \<Rightarrow> string + (string \<times> string list) list" where
  "raw_selector x =
     (case x of
        ANull \<Rightarrow> Inr []
      | AMap m \<Rightarrow> fold_result (\<lambda>(k, v) ys. result_bind (raw_strings v) (\<lambda>vs. Inr (ys @ [(k, vs)]))) (sorted_list_of_fmap m) []
      | _ \<Rightarrow> Inl ''not an object'')"

definition selector_of :: "('m, 'g) migrate_env \<Rightarrow> any \<Rightarrow> migrate_error + 'g selector" where
  "selector_of env val =
     (case raw_selector val of
        Inl e \<Rightarrow> Inl (BadSelector e)
      | Inr raw \<Rightarrow> (case Selector_unmarshal (me_compile env) raw of
            Inl (BadPattern key) \<Rightarrow> Inl (BadSelector key)
          | Inr s \<Rightarrow> Inr s))"

record 'g logic_state =
  lg_selector :: "'g selector"
  lg_excludeIsEmpty :: bool
  lg_excludeSelector :: "'g selector option"
  lg_matchAllFound :: bool
  lg_innerErr :: "migrate_error option"

definition logic_done :: "'g logic_state \<Rightarrow> bool" where
  "logic_done s \<longleftrightarrow> lg_matchAllFound s \<and> Selector_Len (lg_selector s) > 0 \<and> (lg_excludeIsEmpty s \<or> lg_excludeSelector s \<noteq> None)"

definition is_assignment :: "aexpr \<Rightarrow> bool" where
  "is_assignment x = (case ex_terms x of Some (ARef [AVar f] # _) \<Rightarrow> f = ''assign'' | _ \<Rightarrow> False)"

definition ast_value :: "('m, 'g) migrate_env \<Rightarrow> aterm \<Rightarrow> migrate_error + any" where
  "ast_value env t = (case me_ast_JSON env t of Inl e \<Rightarrow> Inl (BadSelector e) | Inr v \<Rightarrow> Inr v)"

definition failing :: "'g logic_state \<Rightarrow> migrate_error + 'g logic_state \<Rightarrow> 'g logic_state" where
  "failing s r = (case r of Inl e \<Rightarrow> s\<lparr>lg_innerErr := Some e\<rparr> | Inr s' \<Rightarrow> s')"

definition walk_assignment :: "('m, 'g) migrate_env \<Rightarrow> aterm \<Rightarrow> aterm \<Rightarrow> 'g logic_state \<Rightarrow> 'g logic_state" where
  "walk_assignment env lhs rhs s =
     (if lhs = AVar ''include'' then
        failing s (result_bind (ast_value env rhs) (\<lambda>v.
          result_bind (selector_of env v) (\<lambda>sel. Inr (s\<lparr>lg_selector := sel\<rparr>))))
      else if lhs = AVar ''exclude'' then
        failing s (result_bind (ast_value env rhs) (\<lambda>v.
          if v = AMap fmempty then Inr (s\<lparr>lg_excludeIsEmpty := True\<rparr>)
          else result_bind (selector_of env v) (\<lambda>sel. Inr (s\<lparr>lg_excludeSelector := Some sel\<rparr>))))
      else s)"

text \<open>\<open>match.all(_, include, exclude)\<close>\<close>

definition is_match_all :: "aterm list \<Rightarrow> bool" where
  "is_match_all ts \<longleftrightarrow> length ts > 3 \<and> ts ! 0 = ARef [AVar ''match'', AString ''all''] \<and>
     ts ! 2 = AVar ''include'' \<and> ts ! 3 = AVar ''exclude''"

definition walk_expr :: "('m, 'g) migrate_env \<Rightarrow> aexpr \<Rightarrow> 'g logic_state \<Rightarrow> 'g logic_state" where
  "walk_expr env x s =
     (if lg_innerErr s \<noteq> None \<or> logic_done s then s
      else if is_assignment x then
        (case ex_terms x of
           Some (op # lhs # rhs # _) \<Rightarrow> walk_assignment env lhs rhs s
         | _ \<Rightarrow> s\<lparr>lg_innerErr := Some Panic\<rparr>)
      else case ex_terms x of
        None \<Rightarrow> s
      | Some ts \<Rightarrow> if is_match_all ts then s\<lparr>lg_matchAllFound := \<not> ex_negated x\<rparr> else s)"

text \<open>The result: the two selectors and whether the policy has the expected form.\<close>

definition migrateV1SelectorLogic :: "('m, 'g) migrate_env \<Rightarrow> 'm \<Rightarrow> migrate_error + 'g selector \<times> 'g selector option \<times> bool" where
  "migrateV1SelectorLogic env m =
     (case me_rules env m of
        [(head, exprs)] \<Rightarrow>
          if head \<noteq> ''systems'' then Inr (new_selector, None, False)
          else
            let s = fold (walk_expr env) exprs \<lparr>lg_selector = new_selector, lg_excludeIsEmpty = False,
                  lg_excludeSelector = None, lg_matchAllFound = False, lg_innerErr = None\<rparr>
            in (case lg_innerErr s of
                  Some e \<Rightarrow> Inl e
                | None \<Rightarrow>
                    if \<not> logic_done s then Inr (new_selector, lg_excludeSelector s, False)
                    else if Selector_Len (lg_selector s) = 0 then
                      (case Selector_Set (me_compile env) ''do-not-match'' [] (lg_selector s) of
                         Inl (BadPattern key) \<Rightarrow> Inl (BadSelector key)
                       | Inr sel \<Rightarrow> Inr (sel, lg_excludeSelector s, True))
                    else Inr (lg_selector s, lg_excludeSelector s, True))
      | _ \<Rightarrow> Inr (new_selector, None, False))"

definition staticStackSelectorPrefix :: string where
  "staticStackSelectorPrefix = ''stack-''"

definition set_selector :: "('m, 'g) migrate_env \<Rightarrow> string \<Rightarrow> string list \<Rightarrow> 'g selector \<Rightarrow> migrate_error + 'g selector" where
  "set_selector env k vs s =
     (case Selector_Set (me_compile env) k vs s of Inl (BadPattern key) \<Rightarrow> Inl (BadSelector key) | Inr s \<Rightarrow> Inr s)"

definition migrateV1Selector :: "('m, 'g) migrate_env \<Rightarrow> v1_stack \<Rightarrow> 'm \<Rightarrow> migrate_error + 'g selector \<times> 'g selector option" where
  "migrateV1Selector env v1 m =
     result_bind (migrateV1SelectorLogic env m) (\<lambda>(sel, exclude, ok).
     result_bind (if ok then Inr sel else set_selector env (staticStackSelectorPrefix @ st_Id v1) [''*''] sel) (\<lambda>sel.
     result_bind (set_selector env ''system-type'' [st_Type v1] sel) (\<lambda>sel. Inr (sel, exclude))))"

definition find_policy :: "string \<Rightarrow> v1_policy list \<Rightarrow> v1_policy option" where
  "find_policy pkg ps = List.find (\<lambda>p. p1_Package p = pkg) ps"

definition stack_selector :: "('m, 'g) migrate_env \<Rightarrow> v1_policy list \<Rightarrow> v1_stack \<Rightarrow> migrate_error + 'g selector \<times> 'g selector option" where
  "stack_selector env policies v1 =
     (case find_policy (''stacks/'' @ st_Id v1 @ ''/selectors'') policies of
        None \<Rightarrow> Inl (MissingSelector (st_Id v1))
      | Some p \<Rightarrow>
          (case map_of (p1_Modules p) ''selector.rego'' of
             None \<Rightarrow> Inl (MissingSelectorFile (st_Id v1))
           | Some str \<Rightarrow>
               (case ps_parse (me_parsers env) ''selector.rego'' str of
                  Inl e \<Rightarrow> Inl (Parse e)
                | Inr m \<Rightarrow> migrateV1Selector env v1 m)))"

definition migrateV1Stack :: "('m, 'g) migrate_env \<Rightarrow> bool \<Rightarrow> nameFactory \<Rightarrow> v1_policy list \<Rightarrow> v1_stack \<Rightarrow> bool \<Rightarrow>
    (migrate_error + 'g stack \<times> source \<times> secret list) \<times> nameFactory" where
  "migrateV1Stack env sbom nf policies v1 migrateDSContent =
     (let (r, nf) = mapV1StackToSourceAndSecretConfig env nf v1 migrateDSContent in
      (result_bind r (\<lambda>(src, secrets).
       result_bind (getStackGitRoots env sbom v1) (\<lambda>gitRoots.
       result_bind (migrateV1Policies (me_libs env) (me_index env) (getStackTypeLib (st_Type v1)) [] policies gitRoots)
         (\<lambda>(files, rs).
       let src = fold (\<lambda>(path, content). SetEmbeddedFile path content) (sorted_list_of_fmap (gomap files))
             (src\<lparr>src_Requirements := rs\<rparr>) in
       result_bind (stack_selector env policies v1) (\<lambda>(sel, exclude).
         Inr (\<lparr>stk_Name = Stack_SanitizedName v1, stk_Selector = sel, stk_ExcludeSelector = exclude,
               stk_Requirements = Some [source_requirement (src_Name src)]\<rparr>, src, secrets))))), nf))"

subsection \<open>Requirements from references\<close>

definition collect_refs :: "package_index \<Rightarrow> string \<Rightarrow> (string + string) option list \<Rightarrow> string option \<times> string set \<Rightarrow>
    string option \<times> string set" where
  "collect_refs idx ignore refs s =
     fold (\<lambda>r (innerErr, libs).
       case r of
         None \<Rightarrow> (innerErr, libs)
       | Some (Inl e) \<Rightarrow> (Some e, libs)
       | Some (Inr ptr) \<Rightarrow> (innerErr, libs \<union> {n \<in> Lookup ptr idx. n \<noteq> ignore})) refs s"

definition collect_file :: "'m parsers \<Rightarrow> package_index \<Rightarrow> string \<Rightarrow> string \<Rightarrow> string \<times> string \<Rightarrow> string set \<Rightarrow>
    migrate_error + string set" where
  "collect_file ps idx ignore pkg f libs =
     (let (file, content) = f in
      if path_Ext file \<noteq> ''.rego'' then Inr libs
      else case ps_parse ps (pkg @ ''/'' @ file) content of
        Inl e \<Rightarrow> Inl (Parse e)
      | Inr m \<Rightarrow>
          (case collect_refs idx ignore (ps_refs ps m) (None, libs) of
             (Some e, libs) \<Rightarrow> Inl (WalkError e)
           | (None, libs) \<Rightarrow> Inr libs))"

definition getRequirementsForPolicies :: "'m parsers \<Rightarrow> v1_policy list \<Rightarrow> package_index \<Rightarrow> string \<Rightarrow>
    migrate_error + requirement list" where
  "getRequirementsForPolicies ps policies idx ignore =
     result_bind (fold_result (\<lambda>p. fold_result (collect_file ps idx ignore (p1_Package p)) (p1_Modules p)) policies {})
       (\<lambda>libs. Inr (map source_requirement (sorted_list_of_set libs)))"

end
