(* ===== verification/Prune.thy ===== *)
theory Prune
  imports ConfigRoot
begin

text \<open>
  \<open>pruneConfig\<close> of \<open>cmd/migrate/migrate.go\<close>: the stacks that match no bundle, the sources that
  neither a bundle nor a stack requires_source, directly or through other sources, and the secrets that no
  source names are removed from the migrated configuration or only reported. The maps of the
  configuration are association lists from names to entries: their order is the order in which the
  runtime iterates. The requirements are a graph from a source to the entries that require it, and
  the search in it marks the sources it has visited; each call that goes on marks one more, so that
  one unit of fuel more than there are sources in the graph is enough.
\<close>

subsection \<open>The search\<close>

record gnode =
  node_name :: string
  node_lib :: bool

type_synonym graph = "(string, gnode list) fmap"

text \<open>The loop over the edges, with the recursive call as a parameter. The result is the nodes
  \<open>iter\<close> is called with, in order, and the marked names.\<close>

fun dfs_edges :: "(string \<Rightarrow> string fset \<Rightarrow> (gnode list \<times> string fset) option) \<Rightarrow> gnode list \<Rightarrow> string fset \<Rightarrow>
    (gnode list \<times> string fset) option" where
  "dfs_edges rec [] visited = Some ([], visited)"
| "dfs_edges rec (e # es) visited =
     (case rec (node_name e) visited of
        None \<Rightarrow> None
      | Some (cs, visited) \<Rightarrow>
          map_option (\<lambda>(cs', visited). (e # cs @ cs', visited)) (dfs_edges rec es visited))"

fun dfs :: "nat \<Rightarrow> graph \<Rightarrow> string \<Rightarrow> string fset \<Rightarrow> (gnode list \<times> string fset) option" where
  "dfs 0 g n visited = None"
| "dfs (Suc fuel) g n visited =
     (if n |\<in>| visited then Some ([], visited)
      else case fmlookup g n of
        None \<Rightarrow> Some ([], visited)
      | Some edges \<Rightarrow> dfs_edges (dfs fuel g) edges (finsert n visited))"

definition DFS :: "graph \<Rightarrow> string \<Rightarrow> gnode list" where
  "DFS g n = (case dfs (Suc (fcard (fmdom g))) g n {||} of None \<Rightarrow> [] | Some (cs, visited) \<Rightarrow> cs)"

subsection \<open>Pruning\<close>

record 'g migrated =
  out_Metadata :: metadata
  out_Bundles :: "(string \<times> bundle_config) list"
  out_Stacks :: "(string \<times> 'g stack) list"
  out_Sources :: "(string \<times> source) list"
  out_Secrets :: "(string \<times> secret) list"

definition add_edge :: "gnode \<Rightarrow> requirement \<Rightarrow> graph \<Rightarrow> graph" where
  "add_edge n r g = (case req_Source r of None \<Rightarrow> g | Some s \<Rightarrow> fmupd s (fm_get g s @ [n]) g)"

definition requirements_graph :: "'g migrated \<Rightarrow> graph" where
  "requirements_graph root =
     (let g = fold (\<lambda>(k, b). fold (add_edge \<lparr>node_name = bun_Name b, node_lib = False\<rparr>) (slice (bun_Requirements b)))
                (out_Bundles root) fmempty;
          g = fold (\<lambda>(k, t). fold (add_edge \<lparr>node_name = stk_Name t, node_lib = False\<rparr>) (slice (stk_Requirements t)))
                (out_Stacks root) g
      in fold (\<lambda>(k, s). fold (add_edge \<lparr>node_name = src_Name s, node_lib = True\<rparr>) (slice (src_Requirements s)))
           (out_Sources root) g)"

text \<open>A loop that deletes from the map it iterates over: an entry that is deleted before the loop
  reaches it is not visited.\<close>

fun prune_loop :: "bool \<Rightarrow> ('a \<Rightarrow> string) \<Rightarrow> ('a \<Rightarrow> bool) \<Rightarrow> (string \<times> 'a) list \<Rightarrow> (string \<times> 'a) list \<Rightarrow> 'a list \<Rightarrow>
    (string \<times> 'a) list \<times> 'a list" where
  "prune_loop doPrune name found [] m removed = (m, removed)"
| "prune_loop doPrune name found ((k, x) # todo) m removed =
     (if k \<notin> fst ` set m \<or> found x then prune_loop doPrune name found todo m removed
      else prune_loop doPrune name found todo
             (if doPrune then filter (\<lambda>(k', y). k' \<noteq> name x) m else m) (removed @ [x]))"

definition matches_bundle :: "('g \<Rightarrow> string \<Rightarrow> bool) \<Rightarrow> 'g migrated \<Rightarrow> 'g stack \<Rightarrow> bool" where
  "matches_bundle gmatch root t =
     list_ex (\<lambda>(k, b). Selector_Matches gmatch (stk_Selector t) (gomap (bun_Labels b))) (out_Bundles root)"

definition git_credentials :: "(string \<times> source) list \<Rightarrow> string list" where
  "git_credentials m =
     concat (map (\<lambda>(k, lib). case git_Credentials (src_Git lib) of None \<Rightarrow> [] | Some c \<Rightarrow> [ref_Name c]) m)"

definition pruneConfig :: "('g \<Rightarrow> string \<Rightarrow> bool) \<Rightarrow> bool \<Rightarrow> 'g migrated \<Rightarrow>
    'g stack list \<times> source list \<times> secret list \<times> 'g migrated" where
  "pruneConfig gmatch doPrune root =
     (let (stacks, removedStacks) =
            prune_loop doPrune stk_Name (matches_bundle gmatch root) (out_Stacks root) (out_Stacks root) [];
          root = root\<lparr>out_Stacks := stacks\<rparr>;
          g = requirements_graph root;
          (sources, removedSources) =
            prune_loop doPrune src_Name (\<lambda>s. list_ex (\<lambda>n. \<not> node_lib n) (DFS g (src_Name s)))
              (out_Sources root) (out_Sources root) [];
          root = root\<lparr>out_Sources := sources\<rparr>;
          credentials = git_credentials (out_Sources root);
          (secrets, removedSecrets) =
            prune_loop doPrune sec_Name (\<lambda>s. sec_Name s \<in> set credentials) (out_Secrets root) (out_Secrets root) []
      in (removedStacks, removedSources, removedSecrets, root\<lparr>out_Secrets := secrets\<rparr>))"

subsection \<open>What the search finds\<close>

definition steps :: "graph \<Rightarrow> (string \<times> string) set" where
  "steps g = {(u, node_name e) |u e. e \<in> set (fm_get g u)}"

lemma steps_I: "e \<in> set (fm_get g u) \<Longrightarrow> (u, node_name e) \<in> steps g"
  by (auto simp: steps_def)

lemma fm_get_dom: "e \<in> set (fm_get g u) \<Longrightarrow> u |\<in>| fmdom g"
  by (cases "fmlookup g u") (auto simp: fm_get_def intro: fmdomI)

text \<open>The result of a search that starts with some names marked: the newly marked names have edges,
  are reached from where it starts, every one of their edges is reported, and an edge leads to a
  marked name if it leads to a name with edges at all.\<close>

definition searched :: "graph \<Rightarrow> string set \<Rightarrow> gnode set \<Rightarrow> string fset \<Rightarrow> gnode list \<Rightarrow> string fset \<Rightarrow> bool" where
  "searched g start es V cs V' \<longleftrightarrow>
     V |\<subseteq>| V' \<and>
     (\<forall>u. u |\<in>| V' \<longrightarrow> u |\<in>| V \<or> u |\<in>| fmdom g \<and> (\<exists>s \<in> start. (s, u) \<in> (steps g)\<^sup>*)) \<and>
     (\<forall>s \<in> start. s |\<in>| fmdom g \<longrightarrow> s |\<in>| V') \<and>
     (\<forall>e. e \<in> set cs \<longleftrightarrow> e \<in> es \<or> (\<exists>u. u |\<in>| V' \<and> u |\<notin>| V \<and> e \<in> set (fm_get g u))) \<and>
     (\<forall>u e. u |\<in>| V' \<longrightarrow> u |\<notin>| V \<longrightarrow> e \<in> set (fm_get g u) \<longrightarrow> node_name e |\<in>| fmdom g \<longrightarrow> node_name e |\<in>| V')"

lemma searchedD:
  assumes "searched g start es V cs V'"
  shows "u |\<in>| V \<Longrightarrow> u |\<in>| V'"
    and "u |\<in>| V' \<Longrightarrow> u |\<in>| V \<or> u |\<in>| fmdom g \<and> (\<exists>s \<in> start. (s, u) \<in> (steps g)\<^sup>*)"
    and "s \<in> start \<Longrightarrow> s |\<in>| fmdom g \<Longrightarrow> s |\<in>| V'"
    and "e \<in> set cs \<longleftrightarrow> e \<in> es \<or> (\<exists>u. u |\<in>| V' \<and> u |\<notin>| V \<and> e \<in> set (fm_get g u))"
    and "u |\<in>| V' \<Longrightarrow> u |\<notin>| V \<Longrightarrow> e \<in> set (fm_get g u) \<Longrightarrow> node_name e |\<in>| fmdom g \<Longrightarrow> node_name e |\<in>| V'"
  using assms unfolding searched_def by blast+

lemma searchedI:
  assumes "\<And>u. u |\<in>| V \<Longrightarrow> u |\<in>| V'"
    and "\<And>u. u |\<in>| V' \<Longrightarrow> u |\<notin>| V \<Longrightarrow> u |\<in>| fmdom g \<and> (\<exists>s \<in> start. (s, u) \<in> (steps g)\<^sup>*)"
    and "\<And>s. s \<in> start \<Longrightarrow> s |\<in>| fmdom g \<Longrightarrow> s |\<in>| V'"
    and "\<And>e. e \<in> set cs \<longleftrightarrow> e \<in> es \<or> (\<exists>u. u |\<in>| V' \<and> u |\<notin>| V \<and> e \<in> set (fm_get g u))"
    and "\<And>u e. u |\<in>| V' \<Longrightarrow> u |\<notin>| V \<Longrightarrow> e \<in> set (fm_get g u) \<Longrightarrow> node_name e |\<in>| fmdom g \<Longrightarrow> node_name e |\<in>| V'"
  shows "searched g start es V cs V'"
  unfolding searched_def using assms by blast

lemma searched_trans:
  assumes a: "searched g start es V cs V'" and b: "searched g start' es' V' cs' V''"
  shows "searched g (start \<union> start') (es \<union> es') V (cs @ cs') V''"
proof (rule searchedI)
  show "u |\<in>| V''" if "u |\<in>| V" for u
    using that by (intro searchedD(1) [OF b] searchedD(1) [OF a])
  show "u |\<in>| fmdom g \<and> (\<exists>s \<in> start \<union> start'. (s, u) \<in> (steps g)\<^sup>*)" if "u |\<in>| V''" "u |\<notin>| V" for u
    using searchedD(2) [OF b that(1)] searchedD(2) [OF a, of u] that(2) by blast
  show "s |\<in>| V''" if "s \<in> start \<union> start'" "s |\<in>| fmdom g" for s
    using that searchedD(3) [OF b, of s] searchedD(3) [OF a, of s] searchedD(1) [OF b, of s] by blast
  show "e \<in> set (cs @ cs') \<longleftrightarrow> e \<in> es \<union> es' \<or> (\<exists>u. u |\<in>| V'' \<and> u |\<notin>| V \<and> e \<in> set (fm_get g u))" for e
    unfolding set_append Un_iff searchedD(4) [OF a] searchedD(4) [OF b]
    using searchedD(1) [OF a] searchedD(1) [OF b] by blast
  show "node_name e |\<in>| V''"
    if "u |\<in>| V''" "u |\<notin>| V" "e \<in> set (fm_get g u)" "node_name e |\<in>| fmdom g" for u e
    using that searchedD(5) [OF a _ _ that(3,4)] searchedD(5) [OF b _ _ that(3,4)]
      searchedD(1) [OF b, of "node_name e"] by blast
qed

lemma dfs_edges_searched:
  assumes "\<And>n V cs V'. rec n V = Some (cs, V') \<Longrightarrow> searched g {n} {} V cs V'"
  shows "dfs_edges rec es V = Some (cs, V') \<Longrightarrow> searched g (node_name ` set es) (set es) V cs V'"
proof (induction es arbitrary: V cs)
  case Nil
  then show ?case by (simp add: searched_def)
next
  case (Cons e es)
  then obtain ca Va cb where a: "rec (node_name e) V = Some (ca, Va)"
    and b: "dfs_edges rec es Va = Some (cb, V')" and cs: "cs = e # ca @ cb"
    by (auto split: option.splits)
  from assms [OF a] have "searched g {node_name e} {e} V (e # ca) Va"
    by (simp add: searched_def)
  from searched_trans [OF this Cons.IH [OF b]] show ?case
    by (simp add: cs)
qed

lemma dfs_searched: "dfs fuel g n V = Some (cs, V') \<Longrightarrow> searched g {n} {} V cs V'"
proof (induction fuel arbitrary: n V cs V')
  case (Suc fuel)
  show ?case
  proof (cases "n |\<in>| V \<or> fmlookup g n = None")
    case True
    then have "cs = []" "V' = V" "n |\<in>| V \<or> n |\<notin>| fmdom g"
      using Suc.prems by (auto split: if_splits intro: fmdom_notI)
    then show ?thesis by (auto simp: searched_def)
  next
    case False
    then obtain edges where edges: "fmlookup g n = Some edges" "n |\<notin>| V" by auto
    with Suc.prems have "dfs_edges (dfs fuel g) edges (finsert n V) = Some (cs, V')" by simp
    from dfs_edges_searched [OF Suc.IH this]
    have s: "searched g (node_name ` set edges) (set edges) (finsert n V) cs V'" .
    have n: "n |\<in>| fmdom g" "fm_get g n = edges" using edges by (auto simp: fm_get_def intro: fmdomI)
    have inV: "n |\<in>| V'" by (rule searchedD(1) [OF s]) simp
    show ?thesis
    proof (rule searchedI)
      show "u |\<in>| V'" if "u |\<in>| V" for u
        using that by (intro searchedD(1) [OF s]) simp
      show "u |\<in>| fmdom g \<and> (\<exists>s \<in> {n}. (s, u) \<in> (steps g)\<^sup>*)" if "u |\<in>| V'" "u |\<notin>| V" for u
      proof (cases "u = n")
        case False
        with searchedD(2) [OF s that(1)] that(2) obtain e
          where "u |\<in>| fmdom g" "e \<in> set edges" "(node_name e, u) \<in> (steps g)\<^sup>*" by auto
        then show ?thesis
          using steps_I [of e g n] n(2) by (auto intro: converse_rtrancl_into_rtrancl)
      qed (use n in simp)
      show "s |\<in>| V'" if "s \<in> {n}" "s |\<in>| fmdom g" for s
        using inV that by simp
      show "e \<in> set cs \<longleftrightarrow> e \<in> {} \<or> (\<exists>u. u |\<in>| V' \<and> u |\<notin>| V \<and> e \<in> set (fm_get g u))" for e
        unfolding searchedD(4) [OF s] using n(2) inV edges(2) by auto
      show "node_name e |\<in>| V'"
        if "u |\<in>| V'" "u |\<notin>| V" "e \<in> set (fm_get g u)" "node_name e |\<in>| fmdom g" for u e
      proof (cases "u = n")
        case True
        with that n(2) show ?thesis by (intro searchedD(3) [OF s]) auto
      next
        case False
        with that show ?thesis by (intro searchedD(5) [OF s, of u]) auto
      qed
    qed
  qed
qed simp

lemma dfs_edges_fuel:
  assumes "\<And>n V. card (fset (fmdom g) - fset V) < fuel \<Longrightarrow> \<exists>r. dfs fuel g n V = Some r"
  shows "card (fset (fmdom g) - fset V) < fuel \<Longrightarrow> \<exists>r. dfs_edges (dfs fuel g) es V = Some r"
proof (induction es arbitrary: V)
  case (Cons e es)
  then obtain cs V' where r: "dfs fuel g (node_name e) V = Some (cs, V')"
    using assms by fastforce
  have "fset V \<subseteq> fset V'"
    using searchedD(1) [OF dfs_searched [OF r]] by blast
  then have "card (fset (fmdom g) - fset V') \<le> card (fset (fmdom g) - fset V)"
    by (intro card_mono) auto
  with Cons obtain r' where "dfs_edges (dfs fuel g) es V' = Some r'" by fastforce
  with r show ?case by (cases r') simp
qed simp

text \<open>The fuel is enough.\<close>

lemma dfs_fuel: "card (fset (fmdom g) - fset V) < fuel \<Longrightarrow> \<exists>r. dfs fuel g n V = Some r"
proof (induction fuel arbitrary: n V)
  case (Suc fuel)
  show ?case
  proof (cases "n |\<in>| V \<or> fmlookup g n = None")
    case False
    then obtain edges where edges: "fmlookup g n = Some edges" "n |\<notin>| V" by auto
    then have "n \<in> fset (fmdom g) - fset V" by (auto intro: fmdomI)
    then have "card (fset (fmdom g) - fset (finsert n V)) < card (fset (fmdom g) - fset V)"
      by (intro psubset_card_mono) auto
    with Suc.prems have "card (fset (fmdom g) - fset (finsert n V)) < fuel" by simp
    from dfs_edges_fuel [OF Suc.IH this, of edges] edges show ?thesis by simp
  qed auto
qed simp

lemma set_DFS: "set (DFS g n) = {e. \<exists>u. (n, u) \<in> (steps g)\<^sup>* \<and> e \<in> set (fm_get g u)}"
proof -
  obtain cs V where r: "dfs (Suc (fcard (fmdom g))) g n {||} = Some (cs, V)"
    using dfs_fuel [of g "{||}" "Suc (fcard (fmdom g))" n] by (auto simp: fcard.rep_eq)
  from dfs_searched [OF r] have s: "searched g {n} {} {||} cs V" .
  have inV: "u |\<in>| V" if "(n, u) \<in> (steps g)\<^sup>*" "u |\<in>| fmdom g" for u
    using that
  proof (induction rule: rtrancl_induct)
    case base
    then show ?case using searchedD(3) [OF s] by simp
  next
    case (step y z)
    from step.hyps(2) obtain e where e: "e \<in> set (fm_get g y)" "z = node_name e" by (auto simp: steps_def)
    then have "y |\<in>| V" using step.IH fm_get_dom by fast
    then show ?case using searchedD(5) [OF s _ _ e(1)] e(2) step.prems by simp
  qed
  have reached: "(n, u) \<in> (steps g)\<^sup>*" if "u |\<in>| V" for u
    using searchedD(2) [OF s that] by simp
  have "set cs = {e. \<exists>u. (n, u) \<in> (steps g)\<^sup>* \<and> e \<in> set (fm_get g u)}"
  proof (rule set_eqI)
    fix e
    have "e \<in> set cs \<longleftrightarrow> (\<exists>u. u |\<in>| V \<and> e \<in> set (fm_get g u))"
      using searchedD(4) [OF s] by simp
    also have "\<dots> \<longleftrightarrow> (\<exists>u. (n, u) \<in> (steps g)\<^sup>* \<and> e \<in> set (fm_get g u))"
      using reached inV fm_get_dom [of e g] by metis
    finally show "e \<in> set cs \<longleftrightarrow> e \<in> {e. \<exists>u. (n, u) \<in> (steps g)\<^sup>* \<and> e \<in> set (fm_get g u)}" by simp
  qed
  then show ?thesis unfolding DFS_def r by simp
qed

subsection \<open>What is needed\<close>

definition requires_source :: "requirements option \<Rightarrow> string \<Rightarrow> bool" where
  "requires_source rs s \<longleftrightarrow> (\<exists>r \<in> set (slice rs). req_Source r = Some s)"

lemma fm_get_add_edges:
  "set (fm_get (fold (add_edge n) rs g) s) =
     set (fm_get g s) \<union> (if \<exists>r \<in> set rs. req_Source r = Some s then {n} else {})"
proof (induction rs arbitrary: g)
  case (Cons r rs)
  have "set (fm_get (add_edge n r g) s) = set (fm_get g s) \<union> (if req_Source r = Some s then {n} else {})"
    by (cases "req_Source r") (auto simp: add_edge_def fm_get_def)
  with Cons [of "add_edge n r g"] show ?case by auto
qed simp

lemma fm_get_add_entries:
  "set (fm_get (fold (\<lambda>(k, x). fold (add_edge (nd x)) (slice (rs x))) m g) s) =
     set (fm_get g s) \<union> {nd x |k x. (k, x) \<in> set m \<and> requires_source (rs x) s}"
proof (induction m arbitrary: g)
  case (Cons e m)
  obtain k x where e: "e = (k, x)" by (cases e)
  show ?case
    unfolding fold_Cons comp_apply Cons.IH e prod.case fm_get_add_edges
    by (auto simp: requires_source_def)
qed simp

lemma set_requirements_graph:
  "set (fm_get (requirements_graph root) s) =
     {\<lparr>node_name = bun_Name b, node_lib = False\<rparr> |k b. (k, b) \<in> set (out_Bundles root) \<and> requires_source (bun_Requirements b) s} \<union>
     {\<lparr>node_name = stk_Name t, node_lib = False\<rparr> |k t. (k, t) \<in> set (out_Stacks root) \<and> requires_source (stk_Requirements t) s} \<union>
     {\<lparr>node_name = src_Name t, node_lib = True\<rparr> |k t. (k, t) \<in> set (out_Sources root) \<and> requires_source (src_Requirements t) s}"
  unfolding requirements_graph_def Let_def fm_get_add_entries by (simp add: fm_get_def)

inductive needed_source :: "'g migrated \<Rightarrow> string \<Rightarrow> bool" for root where
  by_bundle: "(k, b) \<in> set (out_Bundles root) \<Longrightarrow> requires_source (bun_Requirements b) s \<Longrightarrow> needed_source root s"
| by_stack: "(k, t) \<in> set (out_Stacks root) \<Longrightarrow> requires_source (stk_Requirements t) s \<Longrightarrow> needed_source root s"
| by_source: "(k, t) \<in> set (out_Sources root) \<Longrightarrow> needed_source root (src_Name t) \<Longrightarrow> requires_source (src_Requirements t) s \<Longrightarrow>
    needed_source root s"

lemma requirements_graph_cases:
  assumes "e \<in> set (fm_get (requirements_graph root) s)"
  obtains "needed_source root s" | k t where "(k, t) \<in> set (out_Sources root)" "requires_source (src_Requirements t) s"
    "e = \<lparr>node_name = src_Name t, node_lib = True\<rparr>"
  using assms unfolding set_requirements_graph by (auto intro: needed_source.by_bundle needed_source.by_stack)

lemma DFS_needed: "list_ex (\<lambda>n. \<not> node_lib n) (DFS (requirements_graph root) s) \<longleftrightarrow> needed_source root s"
proof
  let ?g = "requirements_graph root"
  assume "list_ex (\<lambda>n. \<not> node_lib n) (DFS ?g s)"
  then obtain u e where "(s, u) \<in> (steps ?g)\<^sup>*" and e: "e \<in> set (fm_get ?g u)" "\<not> node_lib e"
    by (auto simp: list_ex_iff set_DFS)
  from this(1) show "needed_source root s"
  proof (induction rule: converse_rtrancl_induct)
    case base
    from e(1) show ?case
      by (cases rule: requirements_graph_cases) (use e(2) in simp_all)
  next
    case (step s v)
    then obtain e' where e': "e' \<in> set (fm_get ?g s)" "v = node_name e'" by (auto simp: steps_def)
    from e'(1) show ?case
    proof (cases rule: requirements_graph_cases)
      case (2 k t)
      with step.IH e'(2) show ?thesis by (auto intro: needed_source.by_source)
    qed
  qed
next
  let ?g = "requirements_graph root"
  assume "needed_source root s"
  then have "\<exists>u e. (s, u) \<in> (steps ?g)\<^sup>* \<and> e \<in> set (fm_get ?g u) \<and> \<not> node_lib e"
  proof (induction rule: needed_source.induct)
    case (by_bundle k b s)
    then have "\<lparr>node_name = bun_Name b, node_lib = False\<rparr> \<in> set (fm_get ?g s)"
      unfolding set_requirements_graph by blast
    then show ?case by (intro exI conjI) (rule rtrancl_refl, assumption, simp)
  next
    case (by_stack k t s)
    then have "\<lparr>node_name = stk_Name t, node_lib = False\<rparr> \<in> set (fm_get ?g s)"
      unfolding set_requirements_graph by blast
    then show ?case by (intro exI conjI) (rule rtrancl_refl, assumption, simp)
  next
    case (by_source k t s)
    then have "\<lparr>node_name = src_Name t, node_lib = True\<rparr> \<in> set (fm_get ?g s)"
      unfolding set_requirements_graph by blast
    from steps_I [OF this] have "(s, src_Name t) \<in> steps ?g" by simp
    with by_source.IH show ?case by (blast intro: converse_rtrancl_into_rtrancl)
  qed
  then show "list_ex (\<lambda>n. \<not> node_lib n) (DFS ?g s)"
    by (auto simp: list_ex_iff set_DFS)
qed

subsection \<open>What pruning keeps\<close>

definition keyed :: "('a \<Rightarrow> string) \<Rightarrow> (string \<times> 'a) list \<Rightarrow> bool" where
  "keyed name m \<longleftrightarrow> distinct (map fst m) \<and> list_all (\<lambda>(k, x). k = name x) m"

definition well_named :: "'g migrated \<Rightarrow> bool" where
  "well_named root \<longleftrightarrow> keyed bun_Name (out_Bundles root) \<and> keyed stk_Name (out_Stacks root) \<and>
     keyed src_Name (out_Sources root) \<and> keyed sec_Name (out_Secrets root)"

lemma filter_other: "n \<notin> fst ` set m \<Longrightarrow> filter (\<lambda>(k', y). k' \<noteq> n) m = m"
  by (auto simp: filter_id_conv image_iff)

lemma prune_loop_from:
  "keyed name (pre @ todo) \<Longrightarrow>
   prune_loop doPrune name found todo (pre @ todo) removed =
     (if doPrune then pre @ filter (found \<circ> snd) todo else pre @ todo,
      removed @ filter (\<lambda>x. \<not> found x) (map snd todo))"
proof (induction todo arbitrary: pre removed)
  case (Cons e todo)
  obtain k x where e: "e = (k, x)" by (cases e)
  have k: "k = name x" "name x \<notin> fst ` set pre" "name x \<notin> fst ` set todo"
    using Cons.prems by (auto simp: keyed_def e)
  have "keyed name ((pre @ [e]) @ todo)" "keyed name (pre @ todo)"
    using Cons.prems by (auto simp: keyed_def)
  from this [THEN Cons.IH] show ?case
    by (cases doPrune; cases "found x") (simp_all add: e k(1) filter_other [OF k(2)] filter_other [OF k(3)])
qed simp

lemma prune_loop_keyed:
  "keyed name m \<Longrightarrow>
   prune_loop doPrune name found m m [] =
     (if doPrune then filter (found \<circ> snd) m else m, filter (\<lambda>x. \<not> found x) (map snd m))"
  using prune_loop_from [of name "[]"] by simp

lemma keyed_filter: "keyed name m \<Longrightarrow> keyed name (filter P m)"
  by (auto simp: keyed_def list_all_iff distinct_map_filter)

definition named_secrets :: "(string \<times> source) list \<Rightarrow> string set" where
  "named_secrets m = {ref_Name c |k s c. (k, s) \<in> set m \<and> git_Credentials (src_Git s) = Some c}"

lemma set_credentials: "set (git_credentials m) = named_secrets m"
  unfolding git_credentials_def named_secrets_def by (force split: option.splits)

lemma pruneConfig_eq:
  assumes "well_named root"
  shows "pruneConfig gmatch doPrune root =
    (let found = matches_bundle gmatch root;
         stacks = (if doPrune then filter (found \<circ> snd) (out_Stacks root) else out_Stacks root);
         need = (\<lambda>s. needed_source (root\<lparr>out_Stacks := stacks\<rparr>) (src_Name s));
         sources = (if doPrune then filter (need \<circ> snd) (out_Sources root) else out_Sources root);
         used = (\<lambda>s. sec_Name s \<in> named_secrets sources);
         secrets = (if doPrune then filter (used \<circ> snd) (out_Secrets root) else out_Secrets root)
     in (filter (\<lambda>t. \<not> found t) (map snd (out_Stacks root)),
         filter (\<lambda>s. \<not> need s) (map snd (out_Sources root)),
         filter (\<lambda>s. \<not> used s) (map snd (out_Secrets root)),
         root\<lparr>out_Stacks := stacks, out_Sources := sources, out_Secrets := secrets\<rparr>))"
  using assms
  by (simp add: pruneConfig_def well_named_def prune_loop_keyed DFS_needed set_credentials Let_def)

lemma needed_pruned:
  assumes "keyed src_Name (out_Sources root)"
  shows "needed_source (root\<lparr>out_Sources := filter ((\<lambda>s. needed_source root (src_Name s)) \<circ> snd) (out_Sources root)\<rparr>) s \<longleftrightarrow>
    needed_source root s" (is "needed_source ?root s \<longleftrightarrow> _")
proof
  assume "needed_source ?root s"
  then show "needed_source root s"
    by (induction rule: needed_source.induct) (auto intro: needed_source.intros)
next
  assume "needed_source root s"
  then show "needed_source ?root s"
  proof (induction rule: needed_source.induct)
    case (by_source k t s)
    then have "(k, t) \<in> set (out_Sources ?root)" by simp
    with by_source show ?case by (blast intro: needed_source.by_source)
  qed (auto intro: needed_source.by_bundle needed_source.by_stack)
qed

lemma needed_more: "needed_source (root\<lparr>out_Secrets := x\<rparr>) s = needed_source root s"
proof
  assume "needed_source (root\<lparr>out_Secrets := x\<rparr>) s"
  then show "needed_source root s"
    by (induction rule: needed_source.induct) (auto intro: needed_source.intros)
next
  assume "needed_source root s"
  then show "needed_source (root\<lparr>out_Secrets := x\<rparr>) s"
    by (induction rule: needed_source.induct) (auto intro: needed_source.intros)
qed

text \<open>
  C17: Pruning a configuration whose entries are named after their keys leaves the bundles; it keeps
  exactly the stacks whose selector accepts the labels of some bundle, exactly the sources that a
  bundle or a kept stack requires_source, directly or through kept sources, and exactly the secrets that the
  git credentials of a kept source name. What it removes it reports, a second run removes
  nothing, and without the flag it changes nothing and reports the same stacks.
\<close>
theorem pruneConfig_correct:
  assumes "well_named root"
  shows "case pruneConfig gmatch True root of (removedStacks, removedSources, removedSecrets, root') \<Rightarrow>
    out_Metadata root' = out_Metadata root \<and> out_Bundles root' = out_Bundles root \<and>
    out_Stacks root' = filter (\<lambda>(k, t). \<exists>(l, b) \<in> set (out_Bundles root).
      Selector_Matches gmatch (stk_Selector t) (gomap (bun_Labels b))) (out_Stacks root) \<and>
    out_Sources root' = filter (\<lambda>(k, s). needed_source root' k) (out_Sources root) \<and>
    out_Secrets root' = filter (\<lambda>(k, x). k \<in> named_secrets (out_Sources root')) (out_Secrets root) \<and>
    set removedStacks = snd ` (set (out_Stacks root) - set (out_Stacks root')) \<and>
    set removedSources = snd ` (set (out_Sources root) - set (out_Sources root')) \<and>
    set removedSecrets = snd ` (set (out_Secrets root) - set (out_Secrets root')) \<and>
    pruneConfig gmatch True root' = ([], [], [], root') \<and>
    (\<exists>sources secrets. pruneConfig gmatch False root = (removedStacks, sources, secrets, root))"
proof -
  let ?found = "matches_bundle gmatch root"
  define mid where "mid = root\<lparr>out_Stacks := filter (?found \<circ> snd) (out_Stacks root)\<rparr>"
  define sources where "sources = filter ((\<lambda>s. needed_source mid (src_Name s)) \<circ> snd) (out_Sources root)"
  define secrets where "secrets = filter ((\<lambda>s. sec_Name s \<in> named_secrets sources) \<circ> snd) (out_Secrets root)"
  define root' where "root' = mid\<lparr>out_Sources := sources, out_Secrets := secrets\<rparr>"
  have keyed: "keyed stk_Name (out_Stacks root)" "keyed src_Name (out_Sources root)"
    "keyed sec_Name (out_Secrets root)" using assms by (simp_all add: well_named_def)
  have key: "k = src_Name s" if "(k, s) \<in> set (out_Sources root)" for k s
    using keyed(2) that by (auto simp: keyed_def list_all_iff)
  have key': "k = sec_Name x" if "(k, x) \<in> set (out_Secrets root)" for k x
    using keyed(3) that by (auto simp: keyed_def list_all_iff)
  have named: "well_named root'"
    using assms by (simp add: well_named_def root'_def mid_def sources_def secrets_def keyed_filter)
  have need: "needed_source root' s = needed_source mid s" for s
    using needed_pruned [of mid s] keyed(2) by (simp add: root'_def needed_more sources_def mid_def)
  have found: "matches_bundle gmatch root' = ?found"
    by (simp add: root'_def mid_def matches_bundle_def fun_eq_iff)
  have result: "pruneConfig gmatch True root =
      (filter (\<lambda>t. \<not> ?found t) (map snd (out_Stacks root)),
       filter (\<lambda>s. \<not> needed_source mid (src_Name s)) (map snd (out_Sources root)),
       filter (\<lambda>s. sec_Name s \<notin> named_secrets sources) (map snd (out_Secrets root)), root')"
    using pruneConfig_eq [OF assms, of gmatch True]
    by (simp add: Let_def root'_def mid_def sources_def secrets_def)
  have stacks: "out_Stacks root' = filter (\<lambda>(k, t). \<exists>(l, b) \<in> set (out_Bundles root).
      Selector_Matches gmatch (stk_Selector t) (gomap (bun_Labels b))) (out_Stacks root)"
    by (simp add: root'_def mid_def matches_bundle_def list_ex_iff comp_def case_prod_unfold)
  have srcs: "out_Sources root' = filter (\<lambda>(k, s). needed_source root' k) (out_Sources root)"
    unfolding need using key by (auto simp: root'_def sources_def intro!: filter_cong)
  have secs: "out_Secrets root' = filter (\<lambda>(k, x). k \<in> named_secrets (out_Sources root')) (out_Secrets root)"
    using key' by (auto simp: root'_def secrets_def intro!: filter_cong)
  have "\<forall>t \<in> snd ` set (out_Stacks root'). ?found t" "\<forall>s \<in> snd ` set (out_Sources root'). needed_source mid (src_Name s)"
    "\<forall>x \<in> snd ` set (out_Secrets root'). sec_Name x \<in> named_secrets (out_Sources root')"
    by (auto simp: root'_def mid_def sources_def secrets_def)
  then have again: "filter (?found \<circ> snd) (out_Stacks root') = out_Stacks root'"
    "filter (\<lambda>t. \<not> ?found t) (map snd (out_Stacks root')) = []"
    "filter ((\<lambda>s. needed_source mid (src_Name s)) \<circ> snd) (out_Sources root') = out_Sources root'"
    "filter (\<lambda>s. \<not> needed_source mid (src_Name s)) (map snd (out_Sources root')) = []"
    "filter ((\<lambda>x. sec_Name x \<in> named_secrets (out_Sources root')) \<circ> snd) (out_Secrets root') = out_Secrets root'"
    "filter (\<lambda>x. sec_Name x \<notin> named_secrets (out_Sources root')) (map snd (out_Secrets root')) = []"
    by (auto simp: filter_id_conv filter_empty_conv)
  have second: "pruneConfig gmatch True root' = ([], [], [], root')"
    using pruneConfig_eq [OF named, of gmatch True] by (simp add: Let_def found need again)
  have "set (filter (\<lambda>t. \<not> ?found t) (map snd (out_Stacks root))) =
      snd ` (set (out_Stacks root) - set (out_Stacks root'))"
    by (auto simp: root'_def mid_def image_iff)
  moreover have "set (filter (\<lambda>s. \<not> needed_source mid (src_Name s)) (map snd (out_Sources root))) =
      snd ` (set (out_Sources root) - set (out_Sources root'))"
    by (auto simp: root'_def sources_def image_iff)
  moreover have "set (filter (\<lambda>s. sec_Name s \<notin> named_secrets sources) (map snd (out_Secrets root))) =
      snd ` (set (out_Secrets root) - set (out_Secrets root'))"
    by (auto simp: root'_def secrets_def image_iff)
  moreover have "\<exists>sources secrets. pruneConfig gmatch False root =
      (filter (\<lambda>t. \<not> ?found t) (map snd (out_Stacks root)), sources, secrets, root)"
    using pruneConfig_eq [OF assms, of gmatch False] by (simp add: Let_def)
  moreover have "out_Metadata root' = out_Metadata root" "out_Bundles root' = out_Bundles root"
    by (simp_all add: root'_def mid_def)
  ultimately show ?thesis
    unfolding result prod.case using stacks srcs secs second by blast
qed

text \<open>A bundle that requires a source with a library and a data source; a library nobody requires;
  a stack that matches nothing. The secret of the data source is removed although it is named.\<close>

definition example_migrated :: "string migrated" where
  "example_migrated =
     (let req = (\<lambda>n. \<lparr>req_Source = Some n, req_Commit = None, req_Path = [], req_Prefix = [], req_AutoMount = None\<rparr>);
          src = (\<lambda>n rs. zero_source\<lparr>src_Name := n, src_Requirements := Some (map req rs)\<rparr>);
          ds = \<lparr>ds_Name = ''d'', ds_Path = ''d'', ds_Type = ''http'', ds_TransformQuery = [], ds_Config = None,
                ds_Credentials = Some \<lparr>ref_Name = ''api'', ref_value = None\<rparr>\<rparr>
      in \<lparr>out_Metadata = \<lparr>md_ExportedFrom = [], md_ExportedAt = []\<rparr>,
          out_Bundles = [(''b'', zero_bundle\<lparr>bun_Name := ''b'', bun_Requirements := Some [req ''s'']\<rparr>)],
          out_Stacks = [(''t'', zero_stack\<lparr>stk_Name := ''t'', stk_Requirements := Some [req ''u''],
            stk_Selector := \<lparr>sel_s = fmempty, sel_m = fmupd ''env'' [''prod''] fmempty\<rparr>\<rparr>)],
          out_Sources = [(''u'', src ''u'' [''l'']), (''l'', src ''l'' []),
            (''s'', (src ''s'' [''l''])\<lparr>src_Datasources := [ds],
               src_Git := zero_git\<lparr>git_Credentials := Some \<lparr>ref_Name = ''key'', ref_value = None\<rparr>\<rparr>\<rparr>)],
          out_Secrets = [(''key'', \<lparr>sec_Name = ''key'', sec_Value = None\<rparr>), (''api'', \<lparr>sec_Name = ''api'', sec_Value = None\<rparr>)]\<rparr>)"

lemma example_pruned:
  "well_named example_migrated"
  "(case pruneConfig (=) True example_migrated of (ts, ss, xs, root') \<Rightarrow>
     map fst (out_Sources root') = [''l'', ''s''] \<and> out_Stacks root' = [] \<and> map fst (out_Secrets root') = [''key''] \<and>
     map stk_Name ts = [''t''] \<and> map src_Name ss = [''u''] \<and> map sec_Name xs = [''api''])"
  by code_simp+

theorem pruneConfig_correct_witness:
  "well_named example_migrated \<and>
   (case pruneConfig (=) True example_migrated of (ts, ss, xs, root') \<Rightarrow>
      map fst (out_Sources root') = [''l'', ''s''] \<and> map fst (out_Secrets root') = [''key''] \<and>
      needed_source root' ''l'' \<and> \<not> needed_source root' ''u'' \<and> pruneConfig (=) True root' = ([], [], [], root'))"
proof -
  obtain ts ss xs root' where r: "pruneConfig (=) True example_migrated = (ts, ss, xs, root')"
    by (metis prod_cases4)
  have e: "map fst (out_Sources root') = [''l'', ''s'']" "map fst (out_Secrets root') = [''key'']"
    using example_pruned(2) by (simp_all add: r)
  have t: "out_Sources root' = filter (\<lambda>(k, s). needed_source root' k) (out_Sources example_migrated)"
    "pruneConfig (=) True root' = ([], [], [], root')"
    using pruneConfig_correct [OF example_pruned(1), of "(=)"] by (simp_all add: r)
  have u: "k \<in> fst ` set (out_Sources root') \<longleftrightarrow> needed_source root' k" if "k \<in> fst ` set (out_Sources example_migrated)" for k
    using that unfolding t(1) by force
  have all: "map fst (out_Sources example_migrated) = [''u'', ''l'', ''s'']" by code_simp
  have "fst ` set (out_Sources root') = {''l'', ''s''}" "fst ` set (out_Sources example_migrated) = {''u'', ''l'', ''s''}"
    using arg_cong [OF e(1), of set] arg_cong [OF all, of set] by simp_all
  with u [of "''l''"] u [of "''u''"] have "needed_source root' ''l'' \<and> \<not> needed_source root' ''u''" by simp
  with e t(2) example_pruned(1) show ?thesis by (simp add: r)
qed

end
