(* ===== verification/MigrateRun.thy ===== *)
theory MigrateRun
  imports Migrate Prune
begin

text \<open>
  The run of \<open>cmd/migrate/migrate.go\<close>: libraries, systems and stacks become sources, bundles and
  stacks; references to libraries become requirements; the configuration is pruned, gets its object
  storage and is split into files. Maps are association lists in the order in which the runtime
  iterates over them.
\<close>

subsection \<open>State\<close>

record das_state =
  da_SBOM :: bool
  da_Systems :: "(string \<times> v1_system) list"
  da_SystemPolicies :: "(string \<times> v1_policy list) list"
  da_Stacks :: "(string \<times> v1_stack) list"
  da_StackPolicies :: "(string \<times> v1_policy list) list"
  da_Libraries :: "(string \<times> v1_library) list"
  da_LibraryPolicies :: "(string \<times> v1_policy list) list"

record 'g migration =
  mg_names :: nameFactory
  mg_out :: "'g migrated"
  mg_hasSecrets :: "string list"                     \<comment> \<open>ids\<close>
  mg_systemErrors :: "(string \<times> migrate_error) list"
  mg_index :: package_index

definition policies_of :: "(string \<times> v1_policy list) list \<Rightarrow> string \<Rightarrow> v1_policy list" where
  "policies_of m i = (case map_of m i of None \<Rightarrow> [] | Some ps \<Rightarrow> ps)"

definition put_source :: "source \<Rightarrow> 'g migrated \<Rightarrow> 'g migrated" where
  "put_source s root = root\<lparr>out_Sources := map_put (src_Name s) s (out_Sources root)\<rparr>"

definition put_bundle :: "bundle_config \<Rightarrow> 'g migrated \<Rightarrow> 'g migrated" where
  "put_bundle b root = root\<lparr>out_Bundles := map_put (bun_Name b) b (out_Bundles root)\<rparr>"

definition put_stack :: "'g stack \<Rightarrow> 'g migrated \<Rightarrow> 'g migrated" where
  "put_stack t root = root\<lparr>out_Stacks := map_put (stk_Name t) t (out_Stacks root)\<rparr>"

definition put_secrets :: "secret list \<Rightarrow> 'g migrated \<Rightarrow> 'g migrated" where
  "put_secrets xs root = root\<lparr>out_Secrets := fold (\<lambda>x. map_put (sec_Name x) x) xs (out_Secrets root)\<rparr>"

definition note_secrets :: "string \<Rightarrow> secret list \<Rightarrow> 'g migration \<Rightarrow> 'g migration" where
  "note_secrets i xs m =
     m\<lparr>mg_out := put_secrets xs (mg_out m), mg_hasSecrets := (if xs = [] then mg_hasSecrets m else i # mg_hasSecrets m)\<rparr>"

subsection \<open>Libraries, systems, stacks\<close>

definition migrate_library :: "('m, 'g) migrate_env \<Rightarrow> das_state \<Rightarrow> bool \<Rightarrow> string \<times> v1_library \<Rightarrow> 'g migration \<Rightarrow>
    migrate_error + 'g migration" where
  "migrate_library env state datasources il m =
     (let (i, library) = il;
          (r, nf) = migrateV1Library env (mg_names m) (policies_of (da_LibraryPolicies state) (li_Id library)) library datasources
      in result_bind r (\<lambda>(sc, secrets).
           let m = note_secrets i secrets (m\<lparr>mg_names := nf, mg_out := put_source sc (mg_out m)\<rparr>);
               index = fold (\<lambda>ds. index_Add ds (src_Name sc)) (li_Datasources library) (mg_index m);
               index = fold (\<lambda>p. index_Add (p1_Package p) (src_Name sc)) (policies_of (da_LibraryPolicies state) i) index
           in Inr (m\<lparr>mg_index := index\<rparr>)))"

definition migrateLibraries :: "('m, 'g) migrate_env \<Rightarrow> das_state \<Rightarrow> bool \<Rightarrow> 'g migration \<Rightarrow> migrate_error + 'g migration" where
  "migrateLibraries env state datasources m =
     result_bind (fold_result (migrate_library env state datasources) (da_Libraries state) m) (\<lambda>m.
       Inr (m\<lparr>mg_out := fold put_source typeLibraries (mg_out m)\<rparr>))"

definition migrate_system :: "('m, 'g) migrate_env \<Rightarrow> das_state \<Rightarrow> bool \<Rightarrow> v1_system \<Rightarrow> 'g migration \<Rightarrow> 'g migration" where
  "migrate_system env state datasources system m =
     (let (r, nf) = migrateV1System env (da_SBOM state) (da_Stacks state) (mg_names m)
            (policies_of (da_SystemPolicies state) (sy_Id system)) system datasources;
          m = m\<lparr>mg_names := nf\<rparr>
      in case r of
           Inl e \<Rightarrow> m\<lparr>mg_systemErrors := map_put (sy_Id system) e (mg_systemErrors m)\<rparr>
         | Inr (b, src, secrets) \<Rightarrow>
             note_secrets (sy_Id system) secrets (m\<lparr>mg_out := put_bundle b (put_source src (mg_out m))\<rparr>))"

definition migrateSystems :: "('m, 'g) migrate_env \<Rightarrow> das_state \<Rightarrow> bool \<Rightarrow> 'g migration \<Rightarrow> 'g migration" where
  "migrateSystems env state datasources m =
     fold (\<lambda>(i, system). migrate_system env state datasources system) (da_Systems state) m"

text \<open>The bundles of the systems a stack matches: the names of those that were migrated.\<close>

definition matching_bundles :: "das_state \<Rightarrow> v1_stack \<Rightarrow> 'g migrated \<Rightarrow> string list" where
  "matching_bundles state t root =
     concat (map (\<lambda>systemId. case map_of (da_Systems state) systemId of
         None \<Rightarrow> []
       | Some system \<Rightarrow> (case map_of (out_Bundles root) (System_SanitizedName system) of
            None \<Rightarrow> []
          | Some b \<Rightarrow> [System_SanitizedName system])) (st_MatchingSystems t))"

definition update_bundle :: "string \<Rightarrow> (bundle_config \<Rightarrow> bundle_config) \<Rightarrow> 'g migrated \<Rightarrow> 'g migrated" where
  "update_bundle name f root =
     root\<lparr>out_Bundles := map (\<lambda>(k, b). (k, if k = name then f b else b)) (out_Bundles root)\<rparr>"

definition migrate_stack :: "('m, 'g) migrate_env \<Rightarrow> das_state \<Rightarrow> bool \<Rightarrow> string \<times> v1_stack \<Rightarrow> 'g migration \<Rightarrow>
    migrate_error + 'g migration" where
  "migrate_stack env state datasources it m =
     (let (i, t) = it;
          (r, nf) = migrateV1Stack env (da_SBOM state) (mg_names m) (policies_of (da_StackPolicies state) (st_Id t)) t datasources
      in result_bind r (\<lambda>(sc, src, secrets).
           let m = note_secrets i secrets (m\<lparr>mg_names := nf, mg_out := put_source src (put_stack sc (mg_out m))\<rparr>);
               out = (case Selector_Get (stk_Selector sc) (staticStackSelectorPrefix @ i) of
                   None \<Rightarrow> mg_out m
                 | Some v \<Rightarrow> fold (\<lambda>name. update_bundle name (set_label (staticStackSelectorPrefix @ i) ''true''))
                     (matching_bundles state t (mg_out m)) (mg_out m));
               found = list_ex (\<lambda>name. case map_of (out_Bundles out) name of
                   None \<Rightarrow> False
                 | Some b \<Rightarrow> ''exclude-stack-'' @ i |\<in>| fmdom (gomap (bun_Labels b))) (matching_bundles state t out)
           in result_bind
                (if found then
                   result_bind (set_selector env (''exclude-stack-'' @ i) [''*'']
                     (case stk_ExcludeSelector sc of None \<Rightarrow> new_selector | Some e \<Rightarrow> e)) (\<lambda>e.
                     Inr (sc\<lparr>stk_ExcludeSelector := Some e\<rparr>))
                 else Inr sc)
                (\<lambda>sc. Inr (m\<lparr>mg_out := put_stack sc out\<rparr>))))"

definition migrateStacks :: "('m, 'g) migrate_env \<Rightarrow> das_state \<Rightarrow> bool \<Rightarrow> 'g migration \<Rightarrow> migrate_error + 'g migration" where
  "migrateStacks env state datasources m = fold_result (migrate_stack env state datasources) (da_Stacks state) m"

subsection \<open>Dependencies\<close>

definition append_requirements :: "(requirement \<Rightarrow> source \<Rightarrow> bool) \<Rightarrow> requirement list \<Rightarrow> source \<Rightarrow> source" where
  "append_requirements found rs src =
     fold (\<lambda>r src. if found r src then src
       else src\<lparr>src_Requirements := Some (slice (src_Requirements src) @ [r])\<rparr>) rs src"

definition already_required :: "requirement \<Rightarrow> source \<Rightarrow> bool" where
  "already_required r src \<longleftrightarrow>
     (case req_Source r of
        None \<Rightarrow> False
      | Some n \<Rightarrow> list_ex (\<lambda>other. req_Source other = Some n) (slice (src_Requirements src)))"

definition set_source :: "string \<Rightarrow> source \<Rightarrow> 'g migrated \<Rightarrow> 'g migrated" where
  "set_source k s root = root\<lparr>out_Sources := map_put k s (out_Sources root)\<rparr>"

text \<open>The three loops. A system or stack without an entry, and a missing source of a stack or library, are nil.\<close>

definition system_dependencies :: "('m, 'g) migrate_env \<Rightarrow> das_state \<Rightarrow> package_index \<Rightarrow> string \<times> v1_policy list \<Rightarrow>
    'g migrated \<Rightarrow> migrate_error + 'g migrated" where
  "system_dependencies env state index ip root =
     (let (i, policies) = ip in
      case map_of (da_Systems state) i of
        None \<Rightarrow> Inl Panic
      | Some system \<Rightarrow>
          (case map_of (out_Sources root) (System_SanitizedName system) of
             None \<Rightarrow> Inr root
           | Some src \<Rightarrow>
               result_bind (getRequirementsForPolicies (me_parsers env) policies index []) (\<lambda>rs.
                 Inr (set_source (System_SanitizedName system) (append_requirements already_required rs src) root))))"

definition stack_dependencies :: "('m, 'g) migrate_env \<Rightarrow> das_state \<Rightarrow> package_index \<Rightarrow> string \<times> v1_policy list \<Rightarrow>
    'g migrated \<Rightarrow> migrate_error + 'g migrated" where
  "stack_dependencies env state index ip root =
     (let (i, policies) = ip in
      result_bind (getRequirementsForPolicies (me_parsers env) policies index []) (\<lambda>rs.
      case map_of (da_Stacks state) i of
        None \<Rightarrow> Inl Panic
      | Some t \<Rightarrow>
          (case map_of (out_Sources root) (Stack_SanitizedName t) of
             None \<Rightarrow> Inl Panic
           | Some src \<Rightarrow> Inr (set_source (Stack_SanitizedName t) (append_requirements (\<lambda>r s. False) rs src) root))))"

definition library_dependencies :: "('m, 'g) migrate_env \<Rightarrow> package_index \<Rightarrow> string \<times> v1_policy list \<Rightarrow>
    'g migrated \<Rightarrow> migrate_error + 'g migrated" where
  "library_dependencies env index ip root =
     (let (i, policies) = ip in
      result_bind (getRequirementsForPolicies (me_parsers env) policies index i) (\<lambda>rs.
      case map_of (out_Sources root) i of
        None \<Rightarrow> Inl Panic
      | Some src \<Rightarrow> Inr (set_source i (append_requirements (\<lambda>r s. False) rs src) root)))"

definition migrateDependencies :: "('m, 'g) migrate_env \<Rightarrow> das_state \<Rightarrow> package_index \<Rightarrow> 'g migrated \<Rightarrow>
    migrate_error + 'g migrated" where
  "migrateDependencies env state index root =
     result_bind (fold_result (system_dependencies env state index) (da_SystemPolicies state) root) (\<lambda>root.
     result_bind (fold_result (stack_dependencies env state index) (da_StackPolicies state) root)
       (fold_result (library_dependencies env index) (da_LibraryPolicies state)))"

text \<open>The names that are taken before the first is assigned.\<close>

definition reserved_names :: nameFactory where
  "reserved_names = snd (assign_names (map src_Name systemTypeLibraries) fmempty)"

definition migrate_all :: "('m, 'g) migrate_env \<Rightarrow> das_state \<Rightarrow> bool \<Rightarrow> metadata \<Rightarrow> migrate_error + 'g migration" where
  "migrate_all env state datasources md =
     result_bind (migrateLibraries env state datasources
       \<lparr>mg_names = reserved_names,
        mg_out = \<lparr>out_Metadata = md, out_Bundles = [], out_Stacks = [], out_Sources = [], out_Secrets = []\<rparr>,
        mg_hasSecrets = [], mg_systemErrors = [], mg_index = newLibraryPackageIndex\<rparr>) (\<lambda>m.
     result_bind (migrateStacks env state datasources (migrateSystems env state datasources m)) (\<lambda>m.
     result_bind (migrateDependencies env state (mg_index m) (mg_out m)) (\<lambda>root. Inr (m\<lparr>mg_out := root\<rparr>))))"

subsection \<open>Entries are named after their keys\<close>

lemma keyed_map_put: "keyed name m \<Longrightarrow> name x = k \<Longrightarrow> keyed name (map_put k x m)"
proof (induction k x m rule: map_put.induct)
  case (2 k v k' v' m)
  then have "k' \<notin> fst ` set (map_put k v m)" if "k \<noteq> k'" using that by (auto simp: keyed_def)
  with 2 show ?case by (auto simp: keyed_def)
qed (simp add: keyed_def)

lemma keyed_fold_put: "keyed name m \<Longrightarrow> keyed name (fold (\<lambda>x. map_put (name x) x) xs m)"
  by (induction xs arbitrary: m) (simp_all add: keyed_map_put)

lemma keyed_lookup: "keyed name m \<Longrightarrow> map_of m k = Some x \<Longrightarrow> name x = k"
  by (auto simp: keyed_def list_all_iff dest: map_of_SomeD)

lemma well_named_put [simp]:
  "well_named root \<Longrightarrow> well_named (put_source s root)"
  "well_named root \<Longrightarrow> well_named (put_bundle b root)"
  "well_named root \<Longrightarrow> well_named (put_stack t root)"
  "well_named root \<Longrightarrow> well_named (put_secrets xs root)"
  by (simp_all add: well_named_def put_source_def put_bundle_def put_stack_def put_secrets_def keyed_map_put keyed_fold_put)

lemma well_named_note [simp]: "well_named (mg_out m) \<Longrightarrow> well_named (mg_out (note_secrets i xs m))"
  by (simp add: note_secrets_def)

lemma well_named_fold_sources: "well_named root \<Longrightarrow> well_named (fold put_source ss root)"
  by (induction ss arbitrary: root) simp_all

lemma bun_Name_set_label [simp]: "bun_Name (set_label k v b) = bun_Name b"
  by (simp add: set_label_def)

lemma well_named_update_bundle:
  assumes "well_named root" and "\<And>b. bun_Name (f b) = bun_Name b"
  shows "well_named (update_bundle name f root)"
proof -
  have "map fst (map (\<lambda>(k, b). (k, if k = name then f b else b)) m) = map fst m" for m
    by (induction m) auto
  with assms show ?thesis
    by (auto simp: well_named_def keyed_def update_bundle_def list_all_iff simp del: map_map)
qed

lemma well_named_update_bundles:
  "well_named root \<Longrightarrow> well_named (fold (\<lambda>name. update_bundle name (set_label k v)) names root)"
  by (induction names arbitrary: root) (simp_all add: well_named_update_bundle)

lemma src_Name_append_requirements [simp]: "src_Name (append_requirements found rs src) = src_Name src"
  unfolding append_requirements_def by (induction rs arbitrary: src) simp_all

lemma well_named_set_source:
  assumes "well_named root" and "map_of (out_Sources root) k = Some src"
  shows "well_named (set_source k (append_requirements found rs src) root)"
  using assms keyed_lookup [of src_Name "out_Sources root" k src]
  by (simp add: well_named_def set_source_def keyed_map_put)

lemma migrate_library_well_named:
  "migrate_library env state datasources il m = Inr m' \<Longrightarrow> well_named (mg_out m) \<Longrightarrow> well_named (mg_out m')"
  by (auto simp: migrate_library_def result_bind_Inr_iff Let_def split: prod.splits)

lemma migrate_system_well_named:
  "well_named (mg_out m) \<Longrightarrow> well_named (mg_out (migrate_system env state datasources system m))"
  by (auto simp: migrate_system_def Let_def split: prod.splits sum.splits)

text \<open>What a migrated stack does to the configuration.\<close>

lemma migrate_stack_cases:
  assumes "migrate_stack env state datasources (i, t) m = Inr m'"
  obtains sc src xs nf sc' names where
    "migrateV1Stack env (da_SBOM state) (mg_names m) (policies_of (da_StackPolicies state) (st_Id t)) t datasources =
       (Inr (sc, src, xs), nf)"
    and "mg_out m' = put_stack sc' (fold (\<lambda>name. update_bundle name (set_label (staticStackSelectorPrefix @ i) ''true'')) names
       (put_secrets xs (put_source src (put_stack sc (mg_out m)))))"
proof -
  obtain r nf where r: "migrateV1Stack env (da_SBOM state) (mg_names m) (policies_of (da_StackPolicies state) (st_Id t)) t datasources
      = (r, nf)" by fastforce
  with assms obtain sc src xs where x: "r = Inr (sc, src, xs)"
    by (auto simp: migrate_stack_def result_bind_Inr_iff Let_def)
  let ?root = "put_secrets xs (put_source src (put_stack sc (mg_out m)))"
  show ?thesis
  proof (cases "Selector_Get (stk_Selector sc) (staticStackSelectorPrefix @ i)")
    case None
    with assms obtain sc' where "mg_out m' = put_stack sc' ?root"
      by (auto simp: migrate_stack_def r x result_bind_Inr_iff Let_def note_secrets_def)
    then show ?thesis by (intro that [OF r [unfolded x], of sc' "[]"]) simp
  next
    case (Some v)
    with assms obtain sc' where "mg_out m' = put_stack sc' (fold (\<lambda>name. update_bundle name
        (set_label (staticStackSelectorPrefix @ i) ''true'')) (matching_bundles state t ?root) ?root)"
      by (auto simp: migrate_stack_def r x result_bind_Inr_iff Let_def note_secrets_def)
    then show ?thesis by (rule that [OF r [unfolded x]])
  qed
qed

lemma migrate_stack_well_named:
  assumes "migrate_stack env state datasources it m = Inr m'" and "well_named (mg_out m)"
  shows "well_named (mg_out m')"
proof -
  obtain i t where it: "it = (i, t)" by (cases it)
  from assms(1) [unfolded it] show ?thesis
    by (rule migrate_stack_cases) (simp add: assms(2) well_named_update_bundles)
qed

lemma dependencies_well_named:
  "system_dependencies env state index ip root = Inr root' \<Longrightarrow> well_named root \<Longrightarrow> well_named root'"
  "stack_dependencies env state index ip root = Inr root' \<Longrightarrow> well_named root \<Longrightarrow> well_named root'"
  "library_dependencies env index ip root = Inr root' \<Longrightarrow> well_named root \<Longrightarrow> well_named root'"
proof -
  obtain i policies where ip: "ip = (i, policies)" by (cases ip)
  show "system_dependencies env state index ip root = Inr root' \<Longrightarrow> well_named root \<Longrightarrow> well_named root'"
    by (auto simp: system_dependencies_def ip result_bind_Inr_iff well_named_set_source split: option.splits)
  show "stack_dependencies env state index ip root = Inr root' \<Longrightarrow> well_named root \<Longrightarrow> well_named root'"
    by (cases "map_of (da_Stacks state) i"; cases "map_of (out_Sources root) (Stack_SanitizedName (the (map_of (da_Stacks state) i)))")
      (auto simp: stack_dependencies_def ip result_bind_Inr_iff well_named_set_source)
  show "library_dependencies env index ip root = Inr root' \<Longrightarrow> well_named root \<Longrightarrow> well_named root'"
    by (cases "map_of (out_Sources root) i")
      (auto simp: library_dependencies_def ip result_bind_Inr_iff well_named_set_source)
qed

definition empty_output :: "metadata \<Rightarrow> 'g migrated" where
  "empty_output md = \<lparr>out_Metadata = md, out_Bundles = [], out_Stacks = [], out_Sources = [], out_Secrets = []\<rparr>"

lemma well_named_empty [simp]: "well_named (empty_output md)"
  by (simp add: well_named_def keyed_def empty_output_def)

text \<open>A property that every step keeps holds of the result.\<close>

lemma migrate_all_invariant:
  assumes "migrate_all env state datasources md = Inr m" and "P (empty_output md)"
    and "\<And>il m m'. migrate_library env state datasources il m = Inr m' \<Longrightarrow> P (mg_out m) \<Longrightarrow> P (mg_out m')"
    and "\<And>root. P root \<Longrightarrow> P (fold put_source typeLibraries root)"
    and "\<And>system m. P (mg_out m) \<Longrightarrow> P (mg_out (migrate_system env state datasources system m))"
    and "\<And>it m m'. migrate_stack env state datasources it m = Inr m' \<Longrightarrow> P (mg_out m) \<Longrightarrow> P (mg_out m')"
    and "\<And>index ip root root'. system_dependencies env state index ip root = Inr root' \<Longrightarrow> P root \<Longrightarrow> P root'"
    and "\<And>index ip root root'. stack_dependencies env state index ip root = Inr root' \<Longrightarrow> P root \<Longrightarrow> P root'"
    and "\<And>index ip root root'. library_dependencies env index ip root = Inr root' \<Longrightarrow> P root \<Longrightarrow> P root'"
  shows "P (mg_out m)"
proof -
  let ?init = "\<lparr>mg_names = reserved_names,
        mg_out = \<lparr>out_Metadata = md, out_Bundles = [], out_Stacks = [], out_Sources = [], out_Secrets = []\<rparr>,
        mg_hasSecrets = [], mg_systemErrors = [], mg_index = newLibraryPackageIndex\<rparr>"
  from assms(1) obtain a b c r1 r2 root where
    a: "fold_result (migrate_library env state datasources) (da_Libraries state) ?init = Inr a"
    and b: "fold_result (migrate_stack env state datasources) (da_Stacks state)
      (migrateSystems env state datasources (a\<lparr>mg_out := fold put_source typeLibraries (mg_out a)\<rparr>)) = Inr b"
    and d: "fold_result (system_dependencies env state (mg_index b)) (da_SystemPolicies state) (mg_out b) = Inr r1"
      "fold_result (stack_dependencies env state (mg_index b)) (da_StackPolicies state) r1 = Inr r2"
      "fold_result (library_dependencies env (mg_index b)) (da_LibraryPolicies state) r2 = Inr root"
    and m: "m = b\<lparr>mg_out := root\<rparr>"
    unfolding migrate_all_def migrateLibraries_def migrateStacks_def migrateDependencies_def
    by (auto simp: result_bind_Inr_iff)
  have "P (mg_out a)"
    using a by (rule fold_result_invariant [where P = "\<lambda>m. P (mg_out m)"]) (use assms(2,3) in \<open>auto simp: empty_output_def\<close>)
  then have "P (mg_out (a\<lparr>mg_out := fold put_source typeLibraries (mg_out a)\<rparr>))"
    using assms(4) by simp
  moreover have "P (mg_out x) \<Longrightarrow> P (mg_out (migrateSystems env state datasources x))" for x
    unfolding migrateSystems_def
    by (rule fold_invariant [where Q = "\<lambda>_. True"]) (use assms(5) in auto)
  ultimately have "P (mg_out (migrateSystems env state datasources
      (a\<lparr>mg_out := fold put_source typeLibraries (mg_out a)\<rparr>)))" by blast
  from b this have "P (mg_out b)"
    by (rule fold_result_invariant [where P = "\<lambda>m. P (mg_out m)"]) (use assms(6) in auto)
  from d(1) this have "P r1" by (rule fold_result_invariant) (use assms(7) in auto)
  from d(2) this have "P r2" by (rule fold_result_invariant) (use assms(8) in auto)
  from d(3) this have "P root" by (rule fold_result_invariant) (use assms(9) in auto)
  then show ?thesis by (simp add: m)
qed

lemma migrate_all_well_named: "migrate_all env state datasources md = Inr m \<Longrightarrow> well_named (mg_out m)"
  by (erule migrate_all_invariant)
    (blast intro: well_named_empty migrate_library_well_named migrate_system_well_named migrate_stack_well_named
      dependencies_well_named well_named_fold_sources)+

subsection \<open>Every secret that is named is there\<close>

definition ds_secrets :: "datasource list \<Rightarrow> string set" where
  "ds_secrets ds = {ref_Name c |d c. d \<in> set ds \<and> ds_Credentials d = Some c}"

definition source_secrets :: "source \<Rightarrow> string set" where
  "source_secrets s = ref_Name ` set_option (git_Credentials (src_Git s)) \<union> ds_secrets (src_Datasources s)"

lemma ds_secrets_simps [simp]:
  "ds_secrets [] = {}"
  "ds_secrets (ds @ [d]) = ds_secrets ds \<union> ref_Name ` set_option (ds_Credentials d)"
  by (auto simp: ds_secrets_def)

definition secrets_complete :: "'g migrated \<Rightarrow> bool" where
  "secrets_complete root \<longleftrightarrow>
     (\<forall>(k, s) \<in> set (out_Sources root). source_secrets s \<subseteq> fst ` set (out_Secrets root))"

lemma source_secrets_simps [simp]:
  "source_secrets (SetEmbeddedFile p c s) = source_secrets s"
  "source_secrets (s\<lparr>src_Requirements := rs\<rparr>) = source_secrets s"
  "source_secrets (include_files inc s) = source_secrets s"
  "src_Datasources (include_files inc s) = src_Datasources s"
  "source_secrets (empty_source name) = {}"
  by (simp_all add: source_secrets_def SetEmbeddedFile_def empty_source_def empty_git_def include_files_def)

lemma datasources_empty: "src_Datasources (empty_source name) = []"
  by (simp add: empty_source_def)

lemma source_secrets_embed [simp]:
  "source_secrets (fold (\<lambda>(path, content). SetEmbeddedFile path content) fs s) = source_secrets s"
  "source_secrets (fold (\<lambda>(path, content). SetEmbeddedFile (g path) content) fs s) = source_secrets s"
  by (induction fs arbitrary: s) (auto split: prod.splits)

lemma source_secrets_SetEmbeddedFiles [simp]: "source_secrets (SetEmbeddedFiles fs s) = source_secrets s"
proof -
  have "source_secrets (foldl (\<lambda>s (path, content). SetEmbeddedFile path content s) s fs) = source_secrets s" for s
    by (induction fs arbitrary: s) (auto split: prod.splits)
  then show ?thesis by (simp add: SetEmbeddedFiles_def source_secrets_def)
qed

lemma datasources_SetEmbeddedFiles: "src_Datasources (SetEmbeddedFiles fs s) = src_Datasources s"
proof -
  have "src_Datasources (foldl (\<lambda>s (path, content). SetEmbeddedFile path content s) s fs) = src_Datasources s" for s
    by (induction fs arbitrary: s) (auto simp: SetEmbeddedFile_def split: prod.splits)
  then show ?thesis by (simp add: SetEmbeddedFiles_def)
qed

lemma git_embedded: "src_Git (fold (\<lambda>(path, content). SetEmbeddedFile path content) fs s) = src_Git s"
  by (induction fs arbitrary: s) (auto simp: SetEmbeddedFile_def split: prod.splits)

lemma source_secrets_policies [simp]: "source_secrets (embed_policies ps s) = source_secrets s"
  unfolding embed_policies_def by (induction ps arbitrary: s) simp_all

lemma source_secrets_requirements [simp]: "source_secrets (append_requirements found rs s) = source_secrets s"
  unfolding append_requirements_def by (induction rs arbitrary: s) simp_all

lemma migrate_headers:
  "fold migrate_header hs (map_option secret_ref x, x, headers) = (cred, secret, headers') \<Longrightarrow> cred = map_option secret_ref secret"
proof (induction hs arbitrary: x headers)
  case (Cons h hs)
  have "\<exists>x' headers'. migrate_header h (map_option secret_ref x, x, headers) = (map_option secret_ref x', x', headers')"
    by (auto simp: migrate_header_def Let_def split: option.splits intro: exI [of _ x])
  with Cons show ?case by auto
qed simp

lemma HTTPPull_secret:
  "migrateV1HTTPPullDatasource ns v1 = (d, secret) \<Longrightarrow> ds_Credentials d = map_option secret_ref secret"
  using migrate_headers [of "d1_Headers v1" None fmempty]
  by (auto simp: migrateV1HTTPPullDatasource_def split: prod.splits)

lemma migrate_datasource_secrets:
  assumes "migrate_datasource env ns content ref (dss, files, secrets) = Inr (dss', files', secrets')"
    and "ds_secrets dss \<subseteq> sec_Name ` set secrets"
  shows "ds_secrets dss' \<subseteq> sec_Name ` set secrets'"
proof -
  from assms(1) have "dss' = dss \<and> secrets' = secrets \<or>
      (\<exists>ds d secret. migrateV1HTTPPullDatasource ns ds = (d, secret) \<and> dss' = dss @ [d] \<and>
        secrets' = (case secret of None \<Rightarrow> secrets | Some x \<Rightarrow> secrets @ [x]))"
    by (auto simp: migrate_datasource_def result_bind_Inr_iff Let_def split: prod.splits if_splits)
  then consider "dss' = dss" "secrets' = secrets"
    | ds d secret where "migrateV1HTTPPullDatasource ns ds = (d, secret)" "dss' = dss @ [d]"
        "secrets' = (case secret of None \<Rightarrow> secrets | Some x \<Rightarrow> secrets @ [x])"
    by blast
  then show ?thesis
  proof cases
    case 2
    then show ?thesis
      using HTTPPull_secret [OF 2(1)] assms(2) by (cases secret) (auto simp: secret_ref_def)
  qed (use assms(2) in simp)
qed

lemma migrateV1Datasources_secrets:
  assumes "migrateV1Datasources env ns refs content = Inr (dss, files, secrets)"
  shows "ds_secrets dss \<subseteq> sec_Name ` set secrets"
proof -
  have "case (dss, files, secrets) of (dss, files, secrets) \<Rightarrow> ds_secrets dss \<subseteq> sec_Name ` set secrets"
    using assms unfolding migrateV1Datasources_def
    by (rule fold_result_invariant) (auto dest: migrate_datasource_secrets)
  then show ?thesis by simp
qed

lemma add_datasources_secrets:
  assumes "add_datasources env ns refs content src = Inr (src', secrets)" and "src_Datasources src = []"
  shows "source_secrets src' \<subseteq> source_secrets src \<union> sec_Name ` set secrets"
proof (cases "refs = []")
  case False
  with assms(1) obtain dss files where d: "migrateV1Datasources env ns refs content = Inr (dss, files, secrets)"
    and src': "src' = fold (\<lambda>(path, content). SetEmbeddedFile path content) files (src\<lparr>src_Datasources := dss\<rparr>)"
    by (auto simp: add_datasources_def result_bind_Inr_iff)
  from migrateV1Datasources_secrets [OF d] show ?thesis
    unfolding src' source_secrets_embed by (auto simp: source_secrets_def)
qed (use assms(1) in \<open>simp add: add_datasources_def\<close>)

lemma migrateV1GitConfig_secrets:
  assumes "migrateV1GitConfig origin src = Inr (src', secret)" and "git_Credentials (src_Git src) = None"
  shows "source_secrets src' \<subseteq> source_secrets src \<union> sec_Name ` set_option secret" "src_Datasources src' = src_Datasources src"
proof -
  from assms(1) obtain g where g: "src' = src\<lparr>src_Git := g\<rparr>"
    "git_Credentials g = None \<and> secret = None \<or> git_Credentials g = map_option secret_ref secret"
    using assms(2) by (auto simp: migrateV1GitConfig_def Let_def bare_secret_def split: option.splits if_splits)
  then show "source_secrets src' \<subseteq> source_secrets src \<union> sec_Name ` set_option secret"
    "src_Datasources src' = src_Datasources src"
    by (cases secret; auto simp: source_secrets_def secret_ref_def)+
qed

lemma migrateV1Library_secrets:
  assumes "migrateV1Library env nf ps v1 content = (Inr (src, xs), nf')"
  shows "source_secrets src \<subseteq> sec_Name ` set xs"
proof -
  obtain name nf1 where n: "AssignSafeName (li_Id v1) nf = (name, nf1)" by fastforce
  from assms obtain s1 secret s2 ds where
    g: "migrateV1GitConfig (snd (getLibraryGitOrigin v1)) (empty_source name) = Inr (s1, secret)"
    and d: "add_datasources env [] (li_Datasources v1) content (include_files (''libraries/'' @ li_Id v1 @ ''/*'') s1) = Inr (s2, ds)"
    and src: "source_secrets src = source_secrets s2" and xs: "xs = (case secret of None \<Rightarrow> [] | Some x \<Rightarrow> [x]) @ ds"
    unfolding migrateV1Library_def mapV1LibraryToSourceAndSecretConfig_def n
    by (auto simp: result_bind_Inr_iff Let_def split: prod.splits if_splits)
  have "git_Credentials (src_Git (empty_source name)) = None" "src_Datasources (empty_source name) = []"
    by (simp_all add: empty_source_def empty_git_def)
  with migrateV1GitConfig_secrets [OF g] have "source_secrets s1 \<subseteq> sec_Name ` set_option secret" "src_Datasources s1 = []"
    by simp_all
  with add_datasources_secrets [OF d] have "source_secrets s2 \<subseteq> sec_Name ` set_option secret \<union> sec_Name ` set ds"
    by auto
  then show ?thesis unfolding src xs by (cases secret) auto
qed

lemma migrateV1System_secrets:
  assumes "migrateV1System env sbom stacks nf ps v1 content = (Inr (b, src, xs), nf')"
  shows "source_secrets src \<subseteq> sec_Name ` set xs"
proof -
  obtain bd s1 secret nf1 where m: "mapV1SystemToBundleSourceAndSecretConfig nf v1 = (bd, s1, secret, nf1)"
    by (metis prod_cases4)
  from assms obtain ns fs rs ds where
    d: "add_datasources env ns (sy_Datasources v1) content (SetEmbeddedFiles fs (s1\<lparr>src_Requirements := rs\<rparr>)) = Inr (src, ds)"
    and xs: "xs = (case secret of None \<Rightarrow> [] | Some x \<Rightarrow> [x]) @ ds"
    unfolding migrateV1System_def m
    by (auto simp: result_bind_Inr_iff Let_def split: prod.splits)
  obtain name where e: "git_Credentials (src_Git (empty_source name)) = None" "src_Datasources (empty_source name) = []"
    by (simp add: empty_source_def empty_git_def)
  have s1: "source_secrets s1 \<subseteq> sec_Name ` set_option secret \<and> src_Datasources s1 = []"
  proof (cases "sy_Origin v1")
    case None
    with m show ?thesis
      by (auto simp: mapV1SystemToBundleSourceAndSecretConfig_def Let_def datasources_empty split: prod.splits)
  next
    case (Some origin)
    from m obtain name where "migrateV1GitConfig (Some origin) (empty_source name) = Inr (s1, secret)"
      by (auto simp: mapV1SystemToBundleSourceAndSecretConfig_def Some migrateV1GitConfig_def Let_def split: prod.splits)
    from migrateV1GitConfig_secrets [OF this] show ?thesis
      by (simp add: empty_source_def empty_git_def source_secrets_def)
  qed
  have "src_Datasources (SetEmbeddedFiles fs (s1\<lparr>src_Requirements := rs\<rparr>)) = src_Datasources s1"
    by (simp add: datasources_SetEmbeddedFiles)
  with add_datasources_secrets [OF d] s1 have "source_secrets src \<subseteq> sec_Name ` set_option secret \<union> sec_Name ` set ds"
    by auto
  then show ?thesis unfolding xs by (cases secret) auto
qed

lemma migrateV1Stack_secrets:
  assumes "migrateV1Stack env sbom nf ps v1 content = (Inr (t, src, xs), nf')"
  shows "source_secrets src \<subseteq> sec_Name ` set xs"
proof -
  obtain r nf1 where m: "mapV1StackToSourceAndSecretConfig env nf v1 content = (r, nf1)" by fastforce
  from assms obtain s1 fs rs where r: "r = Inr (s1, xs)"
    and src: "src = fold (\<lambda>(path, c). SetEmbeddedFile path c) fs (s1\<lparr>src_Requirements := rs\<rparr>)"
    unfolding migrateV1Stack_def m
    by (auto simp: result_bind_Inr_iff Let_def split: prod.splits)
  obtain name nf2 where n: "AssignSafeName (Stack_SanitizedName v1) nf = (name, nf2)" by fastforce
  from m obtain s0 ds where d: "add_datasources env [] (st_Datasources v1) content (empty_source name) = Inr (s0, ds)"
    and o1: "(case snd (getStackGitOrigin v1) of
         None \<Rightarrow> Inr (s0, ds)
       | Some origin \<Rightarrow>
           result_bind (migrateV1GitConfig (Some origin) s0) (\<lambda>(src, secret).
             Inr (include_files (''stacks/'' @ st_Id v1 @ ''/*'') src,
               ds @ (case secret of None \<Rightarrow> [] | Some x \<Rightarrow> [x])))) = Inr (s1, xs)"
    unfolding mapV1StackToSourceAndSecretConfig_def r n by (auto simp: result_bind_Inr_iff)
  from add_datasources_secrets [OF d] have s0: "source_secrets s0 \<subseteq> sec_Name ` set ds"
    by (simp add: datasources_empty)
  have cred: "git_Credentials (src_Git s0) = None"
    using d by (auto simp: add_datasources_def result_bind_Inr_iff git_embedded empty_source_def empty_git_def split: if_splits)
  have "source_secrets s1 \<subseteq> sec_Name ` set xs"
  proof (cases "snd (getStackGitOrigin v1)")
    case (Some origin)
    with o1 obtain s2 secret where g: "migrateV1GitConfig (Some origin) s0 = Inr (s2, secret)"
      and s1: "s1 = include_files (''stacks/'' @ st_Id v1 @ ''/*'') s2"
      and xs: "xs = ds @ (case secret of None \<Rightarrow> [] | Some x \<Rightarrow> [x])"
      by (auto simp: result_bind_Inr_iff)
    have "source_secrets s1 = source_secrets s2" by (simp add: s1)
    with migrateV1GitConfig_secrets(1) [OF g cred] s0 show ?thesis unfolding xs by (cases secret) auto
  qed (use o1 s0 in simp)
  then show ?thesis unfolding src by simp
qed

lemma secrets_complete_source:
  assumes "secrets_complete root" and "source_secrets s \<subseteq> fst ` set (out_Secrets root)"
  shows "secrets_complete (root\<lparr>out_Sources := map_put k s (out_Sources root)\<rparr>)"
proof -
  have "set (map_put k s m) \<subseteq> insert (k, s) (set m)" for m
    by (induction k s m rule: map_put.induct) auto
  with assms show ?thesis by (force simp: secrets_complete_def)
qed

lemma keys_fold_put: "fst ` set (fold (\<lambda>x. map_put (name x) x) xs m) = name ` set xs \<union> fst ` set m"
  by (induction xs arbitrary: m) auto

text \<open>A step that adds a source with all the secrets it names.\<close>

lemma secrets_complete_step:
  assumes "secrets_complete root" and "source_secrets s \<subseteq> sec_Name ` set xs"
  shows "secrets_complete (put_secrets xs (put_source s root))"
proof -
  have "secrets_complete (put_secrets xs root)"
    using assms(1) by (fastforce simp: secrets_complete_def put_secrets_def keys_fold_put)
  moreover have "put_secrets xs (put_source s root) = put_source s (put_secrets xs root)"
    by (simp add: put_secrets_def put_source_def)
  moreover have "source_secrets s \<subseteq> fst ` set (out_Secrets (put_secrets xs root))"
    using assms(2) by (auto simp: put_secrets_def keys_fold_put)
  ultimately show ?thesis
    unfolding put_source_def by (metis secrets_complete_source)
qed

lemma secrets_complete_resource:
  "migrateV1Library env nf ps l content = (Inr (src, xs), nf') \<Longrightarrow> secrets_complete root \<Longrightarrow>
     secrets_complete (put_secrets xs (put_source src root))"
  "migrateV1System env sbom stacks nf ps y content = (Inr (b, src, xs), nf') \<Longrightarrow> secrets_complete root \<Longrightarrow>
     secrets_complete (put_secrets xs (put_source src root))"
  "migrateV1Stack env sbom nf ps t content = (Inr (sc, src, xs), nf') \<Longrightarrow> secrets_complete root \<Longrightarrow>
     secrets_complete (put_secrets xs (put_source src root))"
  by (blast intro: secrets_complete_step dest: migrateV1Library_secrets migrateV1System_secrets migrateV1Stack_secrets)+

lemma secrets_complete_others [simp]:
  "secrets_complete (put_bundle b root) = secrets_complete root"
  "secrets_complete (put_stack t root) = secrets_complete root"
  "secrets_complete (update_bundle n f root) = secrets_complete root"
  by (simp_all add: secrets_complete_def put_bundle_def put_stack_def update_bundle_def)

lemma secrets_complete_update_bundles [simp]:
  "secrets_complete (fold (\<lambda>n. update_bundle n f) ns root) = secrets_complete root"
  by (induction ns arbitrary: root) simp_all

lemma put_bundle_secrets: "put_secrets xs (put_bundle b root) = put_bundle b (put_secrets xs root)"
  "put_source s (put_stack t root) = put_stack t (put_source s root)"
  "put_secrets xs (put_stack t root) = put_stack t (put_secrets xs root)"
  by (simp_all add: put_secrets_def put_bundle_def put_stack_def put_source_def)

lemma type_library_secrets: "s \<in> set typeLibraries \<Longrightarrow> source_secrets s = {}"
proof -
  have "list_all (\<lambda>s. git_Credentials (src_Git s) = None \<and> src_Datasources s = []) typeLibraries" by code_simp
  then show "s \<in> set typeLibraries \<Longrightarrow> source_secrets s = {}"
    by (auto simp: list_all_iff source_secrets_def)
qed

lemma secrets_complete_type_libraries:
  "set ss \<subseteq> set typeLibraries \<Longrightarrow> secrets_complete root \<Longrightarrow> secrets_complete (fold put_source ss root)"
proof (induction ss arbitrary: root)
  case (Cons s ss)
  then have "secrets_complete (put_source s root)"
    unfolding put_source_def by (intro secrets_complete_source) (simp_all add: type_library_secrets)
  with Cons show ?case by simp
qed simp

lemma secrets_complete_set_source:
  assumes "secrets_complete root" and "map_of (out_Sources root) k = Some src"
  shows "secrets_complete (set_source k (append_requirements found rs src) root)"
  unfolding set_source_def
  by (rule secrets_complete_source [OF assms(1)]) (use assms in \<open>fastforce simp: secrets_complete_def dest: map_of_SomeD\<close>)

lemma dependencies_secrets_complete:
  "system_dependencies env state index ip root = Inr root' \<Longrightarrow> secrets_complete root \<Longrightarrow> secrets_complete root'"
  "stack_dependencies env state index ip root = Inr root' \<Longrightarrow> secrets_complete root \<Longrightarrow> secrets_complete root'"
  "library_dependencies env index ip root = Inr root' \<Longrightarrow> secrets_complete root \<Longrightarrow> secrets_complete root'"
proof -
  obtain i policies where ip: "ip = (i, policies)" by (cases ip)
  show "system_dependencies env state index ip root = Inr root' \<Longrightarrow> secrets_complete root \<Longrightarrow> secrets_complete root'"
    by (auto simp: system_dependencies_def ip result_bind_Inr_iff secrets_complete_set_source split: option.splits)
  show "stack_dependencies env state index ip root = Inr root' \<Longrightarrow> secrets_complete root \<Longrightarrow> secrets_complete root'"
    by (cases "map_of (da_Stacks state) i"; cases "map_of (out_Sources root) (Stack_SanitizedName (the (map_of (da_Stacks state) i)))")
      (auto simp: stack_dependencies_def ip result_bind_Inr_iff secrets_complete_set_source)
  show "library_dependencies env index ip root = Inr root' \<Longrightarrow> secrets_complete root \<Longrightarrow> secrets_complete root'"
    by (cases "map_of (out_Sources root) i")
      (auto simp: library_dependencies_def ip result_bind_Inr_iff secrets_complete_set_source)
qed

lemma migrate_library_secrets_complete:
  assumes "migrate_library env state datasources il m = Inr m'" and "secrets_complete (mg_out m)"
  shows "secrets_complete (mg_out m')"
proof -
  from assms(1) obtain nf ps l src xs nf' where "migrateV1Library env nf ps l datasources = (Inr (src, xs), nf')"
    and "mg_out m' = put_secrets xs (put_source src (mg_out m))"
    by (auto simp: migrate_library_def result_bind_Inr_iff Let_def note_secrets_def split: prod.splits)
  with assms(2) show ?thesis by (simp add: secrets_complete_resource(1))
qed

lemma migrate_system_secrets_complete:
  assumes "secrets_complete (mg_out m)"
  shows "secrets_complete (mg_out (migrate_system env state datasources system m))"
proof -
  obtain r nf where r: "migrateV1System env (da_SBOM state) (da_Stacks state) (mg_names m)
      (policies_of (da_SystemPolicies state) (sy_Id system)) system datasources = (r, nf)" by fastforce
  show ?thesis
  proof (cases r)
    case (Inl e)
    with assms show ?thesis by (simp add: migrate_system_def r Let_def)
  next
    case (Inr x)
    obtain b src xs where x: "x = (b, src, xs)" by (cases x)
    have "mg_out (migrate_system env state datasources system m) = put_bundle b (put_secrets xs (put_source src (mg_out m)))"
      by (simp add: migrate_system_def r Inr x Let_def note_secrets_def put_bundle_secrets(1))
    with assms secrets_complete_resource(2) [OF r [unfolded Inr x]] show ?thesis by simp
  qed
qed

lemma migrate_stack_secrets_complete:
  assumes "migrate_stack env state datasources it m = Inr m'" and "secrets_complete (mg_out m)"
  shows "secrets_complete (mg_out m')"
proof -
  obtain i t where it: "it = (i, t)" by (cases it)
  from assms(1) [unfolded it] show ?thesis
  proof (rule migrate_stack_cases)
    fix sc src xs nf sc' names
    let ?root = "put_secrets xs (put_source src (put_stack sc (mg_out m)))"
    assume r: "migrateV1Stack env (da_SBOM state) (mg_names m) (policies_of (da_StackPolicies state) (st_Id t)) t datasources =
        (Inr (sc, src, xs), nf)"
      and m': "mg_out m' = put_stack sc' (fold (\<lambda>name. update_bundle name (set_label (staticStackSelectorPrefix @ i) ''true'')) names ?root)"
    have "secrets_complete ?root"
      unfolding put_bundle_secrets secrets_complete_others
      by (rule secrets_complete_resource(3) [OF r assms(2)])
    then show ?thesis by (simp add: m')
  qed
qed

lemma migrate_all_secrets_complete:
  assumes "migrate_all env state datasources md = Inr m"
  shows "secrets_complete (mg_out m)"
  using assms
proof (rule migrate_all_invariant [where P = secrets_complete], goal_cases)
  case 1
  show ?case by (simp add: secrets_complete_def empty_output_def)
next
  case (2 il m m')
  then show ?case by (rule migrate_library_secrets_complete)
next
  case (3 root)
  then show ?case by (simp add: secrets_complete_type_libraries)
next
  case (4 system m)
  then show ?case by (rule migrate_system_secrets_complete)
next
  case (5 it m m')
  then show ?case by (rule migrate_stack_secrets_complete)
next
  case (6 index ip root root')
  then show ?case by (rule dependencies_secrets_complete)
next
  case (7 index ip root root')
  then show ?case by (rule dependencies_secrets_complete)
next
  case (8 index ip root root')
  then show ?case by (rule dependencies_secrets_complete)
qed

end
