(* ===== verification/MigrateFiles.thy ===== *)
theory MigrateFiles
  imports MigrateRun
begin

text \<open>
  The end of the run of \<open>cmd/migrate/migrate.go\<close>: the files of the sources are placed below a directory, the
  bundles get their object storage, the configuration is split into files, and a table reports what
  became of every system, stack and library. Reading a directory is a parameter.
\<close>

subsection \<open>The files of a source\<close>

text \<open>\<open>Source.Files\<close> of \<open>internal/config/config.go\<close>. The walk gives the files below a directory that match
  the patterns, each by its path in the directory.\<close>

datatype files_error = WalkFailed string | NoFilesMatched string

type_synonym dir_walk = "string \<Rightarrow> string list \<Rightarrow> string + (string \<times> string) list"

definition Source_Files :: "dir_walk \<Rightarrow> source \<Rightarrow> files_error + (string, string) fmap" where
  "Source_Files walk s =
     (let m = gomap (src_EmbeddedFiles s) in
      if src_Paths s = [] then Inr m
      else case walk (cmp_Or (src_Directory s) ''.'') (src_Paths s) of
        Inl e \<Rightarrow> Inl (WalkFailed e)
      | Inr fs \<Rightarrow>
          let m' = fold (\<lambda>(path, data). fmupd path data) fs m in
          if fcard (fmdom m') = fcard (fmdom m) then Inl (NoFilesMatched (src_Name s)) else Inr m')"

subsection \<open>Placing the files\<close>

record run_options =
  ro_Prune :: bool
  ro_Datasources :: bool
  ro_FilesPath :: string
  ro_EmbedFiles :: bool
  ro_ObjectStorage :: string
  ro_FilesystemRootDir :: string
  ro_S3BucketName :: string
  ro_S3BucketRegion :: string

text \<open>\<open>filepath.SplitList\<close> splits a list of paths at colons.\<close>

definition SplitList :: "string \<Rightarrow> string list" where
  "SplitList path = (if path = [] then [] else split_on CHR '':'' path)"

definition file_target :: "source \<Rightarrow> string \<Rightarrow> string" where
  "file_target src path = path_Join (''sources'' # src_Name src # SplitList path)"

definition place_source :: "dir_walk \<Rightarrow> run_options \<Rightarrow> string \<times> source \<Rightarrow>
    (string, string) fmap \<times> (string \<times> source) list \<Rightarrow> files_error + (string, string) fmap \<times> (string \<times> source) list" where
  "place_source walk ro ks acc =
     (let (k, src) = ks; (files, done) = acc in
      result_bind (Source_Files walk src) (\<lambda>srcFiles.
        let (files, src) = fold (\<lambda>(path, content) (files, src).
              (fmupd (file_target src path) content files,
               if \<not> ro_EmbedFiles ro \<and> ro_FilesPath ro \<noteq> [] then
                 SetPath path (SetDirectory (path_Join [ro_FilesPath ro, ''sources'', src_Name src]) src)
               else src)) (sorted_list_of_fmap srcFiles) (files, src);
            src = (if \<not> ro_EmbedFiles ro then SetEmbeddedFiles [] src else src)
        in Inr (files, done @ [(k, src)])))"

definition place_files :: "dir_walk \<Rightarrow> run_options \<Rightarrow> 'g migrated \<Rightarrow> files_error + (string, string) fmap \<times> 'g migrated" where
  "place_files walk ro root =
     result_bind (fold_result (place_source walk ro) (out_Sources root) (fmempty, [])) (\<lambda>(files, sources).
       Inr (files, root\<lparr>out_Sources := sources\<rparr>))"

text \<open>The files that are written, by path; none if no directory is given.\<close>

definition written_files :: "run_options \<Rightarrow> (string, string) fmap \<Rightarrow> (string \<times> string) list" where
  "written_files ro files =
     (if files \<noteq> fmempty \<and> ro_FilesPath ro \<noteq> [] then
        map (\<lambda>(path, content). (path_Join [ro_FilesPath ro, path], content)) (sorted_list_of_fmap files) else [])"

subsection \<open>Object storage\<close>

definition storage_creds :: secret where
  "storage_creds = \<lparr>sec_Name = ''storage-creds'', sec_Value = Some (fmap_of_list
     [(''type'', AStr ''aws_auth''), (''access_key_id'', AStr ''$AWS_ACCESS_KEY_ID''),
      (''secret_access_key'', AStr ''$AWS_SECRET_ACCESS_KEY''), (''session_token'', AStr ''$AWS_SESSION_TOKEN'')])\<rparr>"

definition set_storage :: "(string \<Rightarrow> objectstorage) \<Rightarrow> 'g migrated \<Rightarrow> 'g migrated" where
  "set_storage f root =
     root\<lparr>out_Bundles := map (\<lambda>(name, b). (name, b\<lparr>bun_ObjectStorage := f name\<rparr>)) (out_Bundles root)\<rparr>"

definition object_storage :: "run_options \<Rightarrow> 'g migrated \<Rightarrow> 'g migrated option" where
  "object_storage ro root =
     (if ro_ObjectStorage ro = ''aws'' then
        let root = set_storage (\<lambda>name. zero_storage\<lparr>os_AmazonS3 := Some
              \<lparr>s3_Bucket = ro_S3BucketName ro, s3_Key = ''bundles/'' @ name @ ''/bundle.tar.gz'',
               s3_Region = ro_S3BucketRegion ro, s3_Credentials = Some \<lparr>ref_Name = ''storage-creds'', ref_value = None\<rparr>,
               s3_URL = []\<rparr>\<rparr>) root
        in Some (if out_Bundles root \<noteq> [] then put_secrets [storage_creds] root else root)
      else if ro_ObjectStorage ro = ''filesystem'' then
        Some (set_storage (\<lambda>name. zero_storage\<lparr>os_FileSystemStorage := Some
          \<lparr>fs_Path = path_Join [ro_FilesystemRootDir ro, name, ''bundle.tar.gz'']\<rparr>\<rparr>) root)
      else if ro_ObjectStorage ro = [] then Some root
      else None)"

subsection \<open>Splitting\<close>

record 'g config_file =
  cf_Metadata :: metadata
  cf_Bundles :: "(string \<times> bundle_config) list"
  cf_Stacks :: "(string \<times> 'g stack) list"
  cf_Sources :: "(string \<times> source option) list"
  cf_Secrets :: "(string \<times> secret) list"

definition empty_file :: "'g config_file" where
  "empty_file = \<lparr>cf_Metadata = \<lparr>md_ExportedFrom = [], md_ExportedAt = []\<rparr>, cf_Bundles = [], cf_Stacks = [],
     cf_Sources = [], cf_Secrets = []\<rparr>"

type_synonym 'g configs = "(string \<times> 'g config_file) list"

text \<open>A bundle or stack and the source of its first requirement, which leaves the map of sources.
  A source that is no longer there is nil.\<close>

definition first_source :: "requirements option \<Rightarrow> string option" where
  "first_source rs = (case slice rs of [] \<Rightarrow> None | r # _ \<Rightarrow> req_Source r)"

definition without :: "string \<Rightarrow> (string \<times> 'a) list \<Rightarrow> (string \<times> 'a) list" where
  "without k m = filter (\<lambda>(k', x). k' \<noteq> k) m"

record 'g split_state =
  sp_configs :: "'g configs"
  sp_sources :: "(string \<times> source) list"
  sp_files :: "(string \<times> string) list"

definition split_bundle :: "string \<Rightarrow> string \<times> bundle_config \<Rightarrow> 'g split_state \<Rightarrow> migrate_error + 'g split_state" where
  "split_bundle relDir nb s =
     (let (name, b) = nb in
      if slice (bun_Requirements b) = [] then Inr s
      else case first_source (bun_Requirements b) of
        None \<Rightarrow> Inl Panic
      | Some srcName \<Rightarrow>
          let f = ''system-'' @ name @ ''.yaml'' in
          Inr \<lparr>sp_configs = map_put f (empty_file\<lparr>cf_Bundles := [(name, b)],
                 cf_Sources := [(srcName, map_of (sp_sources s) srcName)]\<rparr>) (sp_configs s),
               sp_sources = without srcName (sp_sources s),
               sp_files = map_put name (path_Join [relDir, f]) (sp_files s)\<rparr>)"

definition split_stack :: "string \<Rightarrow> string \<times> 'g stack \<Rightarrow> 'g split_state \<Rightarrow> migrate_error + 'g split_state" where
  "split_stack relDir nt s =
     (let (name, t) = nt in
      case first_source (stk_Requirements t) of
        None \<Rightarrow> Inl Panic
      | Some srcName \<Rightarrow>
          let f = ''stack-'' @ name @ ''.yaml'' in
          Inr \<lparr>sp_configs = map_put f (empty_file\<lparr>cf_Stacks := [(name, t)],
                 cf_Sources := [(srcName, map_of (sp_sources s) srcName)]\<rparr>) (sp_configs s),
               sp_sources = without srcName (sp_sources s),
               sp_files = map_put name (path_Join [relDir, f]) (sp_files s)\<rparr>)"

text \<open>The files of the remaining sources are moved to a file of their own. The sources are shared with
  the configurations built so far, so that they lose their embedded files there too: the
  sources are stripped first here.\<close>

definition strip_source :: "dir_walk \<Rightarrow> string \<times> source \<Rightarrow> (string \<times> source) list \<times> (string \<times> source) list \<Rightarrow>
    files_error + (string \<times> source) list \<times> (string \<times> source) list" where
  "strip_source walk ks acc =
     (let (name, original) = ks; (stripped, testFiles) = acc in
      result_bind (Source_Files walk original) (\<lambda>files.
        if files \<noteq> fmempty then
          Inr (stripped @ [(name, SetEmbeddedFiles [] original)],
               testFiles @ [(name, SetEmbeddedFiles (sorted_list_of_fmap files) (empty_source name))])
        else Inr (stripped @ [(name, original)], testFiles)))"

definition put_sources :: "(string \<times> source) list \<Rightarrow> 'g configs \<Rightarrow> 'g configs" where
  "put_sources sources configs =
     fold (\<lambda>(name, s). map_put (''source-'' @ name @ ''.yaml'') (empty_file\<lparr>cf_Sources := [(name, Some s)]\<rparr>))
       (filter (\<lambda>(name, s). \<not> isTypeLibrary name) sources) configs"

definition put_builtins :: "(string \<times> source) list \<Rightarrow> 'g configs \<Rightarrow> 'g configs" where
  "put_builtins sources configs =
     (let builtins = filter (\<lambda>(name, s). isTypeLibrary name) sources in
      if builtins = [] then configs
      else map_put ''builtin-sources.yaml'' (empty_file\<lparr>cf_Sources := map (\<lambda>(name, s). (name, Some s)) builtins\<rparr>) configs)"

definition put_secret_files :: "(string \<times> secret) list \<Rightarrow> 'g configs \<Rightarrow> 'g configs" where
  "put_secret_files secrets configs =
     fold (\<lambda>(name, x). map_put (''secret-'' @ name @ ''.yaml'') (empty_file\<lparr>cf_Secrets := [(name, x)]\<rparr>)) secrets configs"

record 'g split_result =
  sr_configs :: "'g configs"
  sr_bundleFiles :: "(string \<times> string) list"
  sr_stackFiles :: "(string \<times> string) list"
  sr_sourceFiles :: "(string \<times> string) list"

datatype split_error = SplitPanic | SplitFiles files_error

definition splitConfig :: "dir_walk \<Rightarrow> string \<Rightarrow> 'g migrated \<Rightarrow> split_error + 'g split_result" where
  "splitConfig walk relDir root =
     (case result_bind (fold_result (split_bundle relDir) (out_Bundles root)
             \<lparr>sp_configs = [], sp_sources = out_Sources root, sp_files = []\<rparr>)
           (\<lambda>s. result_bind (fold_result (split_stack relDir) (out_Stacks root) (s\<lparr>sp_files := []\<rparr>))
             (\<lambda>t. Inr (sp_files s, t))) of
        Inl e \<Rightarrow> Inl SplitPanic
      | Inr (bundleFiles, s) \<Rightarrow>
          (case fold_result (strip_source walk) (sp_sources s) ([], []) of
             Inl e \<Rightarrow> Inl (SplitFiles e)
           | Inr (sources, testFiles) \<Rightarrow>
               let configs = put_secret_files (out_Secrets root) (put_builtins sources (put_sources sources (sp_configs s)));
                   configs = (if testFiles = [] then configs else map_put ''test-files.yaml''
                     (empty_file\<lparr>cf_Sources := map (\<lambda>(name, s). (name, Some s)) testFiles\<rparr>) configs)
               in Inr \<lparr>sr_configs = map (\<lambda>(f, c). (f, c\<lparr>cf_Metadata := out_Metadata root\<rparr>)) configs,
                       sr_bundleFiles = bundleFiles, sr_stackFiles = sp_files s,
                       sr_sourceFiles = map (\<lambda>(name, x). (name, path_Join [relDir, ''source-'' @ name @ ''.yaml'']))
                         (filter (\<lambda>(name, x). \<not> isTypeLibrary name) sources)\<rparr>))"

subsection \<open>The report\<close>

datatype migrate_status = MigrateStatusUnknown | MigrateStatusError | MigrateStatusReview | MigrateStatusSuccess

datatype report_kind = KindSystem | KindStack | KindLibrary

fun status_rank :: "migrate_status \<Rightarrow> nat" where
  "status_rank MigrateStatusUnknown = 0"
| "status_rank MigrateStatusError = 1"
| "status_rank MigrateStatusReview = 2"
| "status_rank MigrateStatusSuccess = 3"

fun kind_rank :: "report_kind \<Rightarrow> nat" where
  "kind_rank KindSystem = 0"
| "kind_rank KindStack = 1"
| "kind_rank KindLibrary = 2"

fun status_String :: "migrate_status \<Rightarrow> string" where
  "status_String MigrateStatusError = ''ERROR''"
| "status_String MigrateStatusReview = ''REVIEW''"
| "status_String MigrateStatusSuccess = ''SUCCESS''"
| "status_String MigrateStatusUnknown = ''UNKNOWN''"

fun kind_String :: "report_kind \<Rightarrow> string" where
  "kind_String KindSystem = ''System''"
| "kind_String KindStack = ''Stack''"
| "kind_String KindLibrary = ''Library''"

record report_row =
  row_name :: string
  row_kind :: report_kind
  row_file :: string
  row_status :: migrate_status
  row_message :: string

definition row_LessThan :: "report_row \<Rightarrow> report_row \<Rightarrow> bool" where
  "row_LessThan r other =
     (if row_kind r \<noteq> row_kind other then kind_rank (row_kind r) < kind_rank (row_kind other)
      else if row_status r \<noteq> row_status other then status_rank (row_status r) < status_rank (row_status other)
      else if row_message r \<noteq> row_message other then row_message r < row_message other
      else row_file r < row_file other)"

definition row_StringSlice :: "report_row \<Rightarrow> string list" where
  "row_StringSlice r = [row_name r, kind_String (row_kind r), row_file r, status_String (row_status r), row_message r]"

definition review :: "string list \<Rightarrow> migrate_status" where
  "review msgs = (if msgs = [] then MigrateStatusSuccess else MigrateStatusReview)"

definition file_of :: "(string \<times> string) list \<Rightarrow> string \<Rightarrow> string" where
  "file_of m k = (case map_of m k of None \<Rightarrow> [] | Some f \<Rightarrow> f)"

definition configure_msg :: "string list \<Rightarrow> string \<Rightarrow> string list" where
  "configure_msg hasSecrets i = (if i \<in> set hasSecrets then [''Configure secrets before running build''] else [])"

text \<open>The rows. The text of an error is a parameter; quoting a label is too. Of the labels that mark stacks
  one is named: here the first in the order of names. No row for a system without a bundle is a nil
  dereference.\<close>

definition system_row :: "(migrate_error \<Rightarrow> string) \<Rightarrow> (string \<Rightarrow> string) \<Rightarrow> 'g migration \<Rightarrow> (string \<times> bundle_config) list \<Rightarrow>
    (string \<times> string) list \<Rightarrow> v1_system \<Rightarrow> report_row option" where
  "system_row error_text quote m bundles bundleFiles system =
     (case map_of (mg_systemErrors m) (sy_Id system) of
        Some e \<Rightarrow> Some \<lparr>row_name = sy_Name system, row_kind = KindSystem, row_file = ''not available'',
            row_status = MigrateStatusError, row_message = error_text e\<rparr>
      | None \<Rightarrow>
          (let name = System_SanitizedName system in
           case map_of bundles name of
             None \<Rightarrow> None
           | Some b \<Rightarrow>
               let msgs = (case List.find (\<lambda>k. strings_HasPrefix k staticStackSelectorPrefix)
                        (map fst (sorted_list_of_fmap (gomap (bun_Labels b)))) of
                      None \<Rightarrow> []
                    | Some key \<Rightarrow> [''Remove label '' @ quote key @ '' once stack selector fixed''])
                   @ configure_msg (mg_hasSecrets m) (sy_Id system)
               in Some \<lparr>row_name = sy_Name system, row_kind = KindSystem, row_file = file_of bundleFiles name,
                   row_status = review msgs, row_message = strings_Join msgs ''; ''\<rparr>))"

definition stack_row :: "'g stack list \<Rightarrow> (string \<times> 'g stack) list \<Rightarrow> string list \<Rightarrow> (string \<times> string) list \<Rightarrow> v1_stack \<Rightarrow> report_row list" where
  "stack_row removedStacks stacks hasSecrets stackFiles t =
     (let name = Stack_SanitizedName t in
      case map_of stackFiles name of
        None \<Rightarrow> []
      | Some f \<Rightarrow>
          let keys = (case map_of stacks name of None \<Rightarrow> [] | Some sc \<Rightarrow> map fst (sorted_list_of_fmap (sel_s (stk_Selector sc))));
              msgs = (if list_ex (\<lambda>x. stk_Name x = name) removedStacks then [''Stack did not match any systems''] else [])
                @ map (\<lambda>k. ''Stack selector logic could not be migrated'')
                    (filter (\<lambda>k. strings_HasPrefix k staticStackSelectorPrefix) keys)
                @ configure_msg hasSecrets (st_Id t)
          in [\<lparr>row_name = st_Name t, row_kind = KindStack, row_file = f, row_status = review msgs,
               row_message = strings_Join msgs ''; ''\<rparr>])"

definition library_row :: "source list \<Rightarrow> string list \<Rightarrow> (string \<times> string) list \<Rightarrow> v1_library \<Rightarrow> report_row list" where
  "library_row removedSources hasSecrets sourceFiles l =
     (let name = Library_SanitizedName l in
      case map_of sourceFiles name of
        None \<Rightarrow> []
      | Some f \<Rightarrow>
          let msgs = (if list_ex (\<lambda>x. src_Name x = name) removedSources
                then [''Library is not used by any systems, stacks, or other libraries'']
                else configure_msg hasSecrets (li_Id l))
          in [\<lparr>row_name = li_Id l, row_kind = KindLibrary, row_file = f, row_status = review msgs,
               row_message = strings_Join msgs ''; ''\<rparr>])"

lemma rank_eq: "kind_rank a = kind_rank b \<longleftrightarrow> a = b" "status_rank s = status_rank t \<longleftrightarrow> s = t"
  by (cases a; cases b; simp) (cases s; cases t; simp)

text \<open>The comparison of rows is a strict order on all but the name, which it ignores.\<close>

lemma row_LessThan_key:
  "row_LessThan r t \<longleftrightarrow>
     (kind_rank (row_kind r), status_rank (row_status r), row_message r, row_file r) <
     (kind_rank (row_kind t), status_rank (row_status t), row_message t, row_file t)"
  by (cases "row_kind r = row_kind t"; cases "row_status r = row_status t"; cases "row_message r = row_message t")
    (auto simp: row_LessThan_def less_prod_simp order_le_less rank_eq)

end
