(* ===== verification/MigrateSplit.thy ===== *)
theory MigrateSplit
  imports MigrateFiles
begin

text \<open>
  The files the migrated configuration of \<open>cmd/migrate/migrate.go\<close> is split into hold it all: every bundle, stack
  and secret stands in one file, and every source in one file, a second one taking its
  embedded files.
\<close>

subsection \<open>Entries that are put into the map of files\<close>

lemma map_put_fresh: "k \<notin> fst ` set m \<Longrightarrow> map_put k v m = m @ [(k, v)]"
  by (induction k v m rule: map_put.induct) auto

lemma fold_put_fresh:
  assumes "distinct (map key xs)" and "\<And>x. x \<in> set xs \<Longrightarrow> key x \<notin> fst ` set m"
  shows "fold (\<lambda>x. map_put (key x) (val x)) xs m = m @ map (\<lambda>x. (key x, val x)) xs"
  using assms
proof (induction xs arbitrary: m)
  case (Cons x xs)
  have "map_put (key x) (val x) m = m @ [(key x, val x)]"
    using Cons.prems(2) by (intro map_put_fresh) simp
  moreover have "key y \<notin> fst ` set (m @ [(key x, val x)])" if "y \<in> set xs" for y
    using Cons.prems that by (auto simp: image_iff)
  ultimately show ?case
    using Cons.IH [of "m @ [(key x, val x)]"] Cons.prems(1) by simp
qed simp

lemma map_of_without: "k \<noteq> j \<Longrightarrow> map_of (without j m) k = map_of m k"
  by (induction m) (auto simp: without_def)

definition bundle_file :: "string \<Rightarrow> string" where
  "bundle_file name = ''system-'' @ name @ ''.yaml''"

definition stack_file :: "string \<Rightarrow> string" where
  "stack_file name = ''stack-'' @ name @ ''.yaml''"

definition source_file :: "string \<Rightarrow> string" where
  "source_file name = ''source-'' @ name @ ''.yaml''"

definition secret_file :: "string \<Rightarrow> string" where
  "secret_file name = ''secret-'' @ name @ ''.yaml''"

lemmas file_defs = bundle_file_def stack_file_def source_file_def secret_file_def

lemma files_apart:
  "bundle_file a = bundle_file b \<longleftrightarrow> a = b" "stack_file a = stack_file b \<longleftrightarrow> a = b"
  "source_file a = source_file b \<longleftrightarrow> a = b" "secret_file a = secret_file b \<longleftrightarrow> a = b"
  "bundle_file a \<noteq> stack_file b" "bundle_file a \<noteq> source_file b" "bundle_file a \<noteq> secret_file b"
  "stack_file a \<noteq> source_file b" "stack_file a \<noteq> secret_file b" "source_file a \<noteq> secret_file b"
  "bundle_file a \<noteq> ''builtin-sources.yaml''" "stack_file a \<noteq> ''builtin-sources.yaml''"
  "source_file a \<noteq> ''builtin-sources.yaml''" "secret_file a \<noteq> ''builtin-sources.yaml''"
  "bundle_file a \<noteq> ''test-files.yaml''" "stack_file a \<noteq> ''test-files.yaml''"
  "source_file a \<noteq> ''test-files.yaml''" "secret_file a \<noteq> ''test-files.yaml''"
  by (simp_all add: file_defs)

lemma special_files:
  "''builtin-sources.yaml'' \<notin> range bundle_file" "''builtin-sources.yaml'' \<notin> range stack_file"
  "''builtin-sources.yaml'' \<notin> range source_file" "''test-files.yaml'' \<notin> range bundle_file"
  "''test-files.yaml'' \<notin> range stack_file" "''test-files.yaml'' \<notin> range source_file"
  "''test-files.yaml'' \<notin> range secret_file" "secret_file n \<notin> range bundle_file"
  "secret_file n \<notin> range stack_file" "secret_file n \<notin> range source_file" "secret_file n \<noteq> ''builtin-sources.yaml''"
  by (auto simp: file_defs)

subsection \<open>Bundles and stacks\<close>

definition bundle_entry :: "(string \<times> source) list \<Rightarrow> string \<times> bundle_config \<Rightarrow> string \<times> 'g config_file" where
  "bundle_entry srcs nb = (let n = the (first_source (bun_Requirements (snd nb))) in
     (bundle_file (fst nb), empty_file\<lparr>cf_Bundles := [nb], cf_Sources := [(n, map_of srcs n)]\<rparr>))"

definition stack_entry :: "(string \<times> source) list \<Rightarrow> string \<times> 'g stack \<Rightarrow> string \<times> 'g config_file" where
  "stack_entry srcs nt = (let n = the (first_source (stk_Requirements (snd nt))) in
     (stack_file (fst nt), empty_file\<lparr>cf_Stacks := [nt], cf_Sources := [(n, map_of srcs n)]\<rparr>))"

definition bundle_first :: "string \<times> bundle_config \<Rightarrow> string option" where
  "bundle_first nb = first_source (bun_Requirements (snd nb))"

definition stack_first :: "string \<times> 'g stack \<Rightarrow> string option" where
  "stack_first nt = first_source (stk_Requirements (snd nt))"

lemma fst_entries [simp]: "fst (bundle_entry m nb) = bundle_file (fst nb)" "fst (stack_entry m nt) = stack_file (fst nt)"
  by (simp_all add: bundle_entry_def stack_entry_def Let_def)

lemma bundle_entry_cong:
  "bundle_first nb = Some k \<Longrightarrow> k \<noteq> j \<Longrightarrow> bundle_entry (without j m) nb = bundle_entry m nb"
  "stack_first nt = Some k \<Longrightarrow> k \<noteq> j \<Longrightarrow> stack_entry (without j m) nt = stack_entry m nt"
  by (simp_all add: bundle_entry_def stack_entry_def bundle_first_def stack_first_def map_of_without)

lemma split_bundles:
  assumes "fold_result (split_bundle relDir) bs s = Inr s'"
    and "None \<notin> bundle_first ` set bs" and "distinct (map bundle_first bs)" and "distinct (map fst bs)"
    and "\<And>n. n \<in> fst ` set bs \<Longrightarrow> bundle_file n \<notin> fst ` set (sp_configs s)"
  shows "sp_configs s' = sp_configs s @ map (bundle_entry (sp_sources s)) bs \<and>
    sp_sources s' = filter (\<lambda>(k, x). Some k \<notin> bundle_first ` set bs) (sp_sources s)"
  using assms
proof (induction bs arbitrary: s)
  case (Cons nb bs)
  obtain n b where nb: "nb = (n, b)" by (cases nb)
  obtain k where k: "bundle_first nb = Some k" using Cons.prems(2) by (cases "bundle_first nb") auto
  then have nonempty: "slice (bun_Requirements b) \<noteq> []" and first: "first_source (bun_Requirements b) = Some k"
    by (auto simp: bundle_first_def first_source_def nb)
  let ?t = "\<lparr>sp_configs = sp_configs s @ [bundle_entry (sp_sources s) nb], sp_sources = without k (sp_sources s),
    sp_files = map_put n (path_Join [relDir, bundle_file n]) (sp_files s)\<rparr>"
  have fresh: "bundle_file n \<notin> fst ` set (sp_configs s)" using Cons.prems(5) by (simp add: nb)
  have "split_bundle relDir nb s = Inr ?t"
    using nonempty first map_put_fresh [OF fresh]
    by (simp add: split_bundle_def nb bundle_entry_def bundle_file_def Let_def)
  with Cons.prems(1) have rest: "fold_result (split_bundle relDir) bs ?t = Inr s'" by simp
  have others: "bundle_first x \<noteq> Some k" if "x \<in> set bs" for x
    using Cons.prems(3) k that by (auto simp: image_iff)
  have "sp_configs s' = sp_configs ?t @ map (bundle_entry (sp_sources ?t)) bs \<and>
    sp_sources s' = filter (\<lambda>(k, x). Some k \<notin> bundle_first ` set bs) (sp_sources ?t)"
  proof (rule Cons.IH [OF rest])
    show "bundle_file m \<notin> fst ` set (sp_configs ?t)" if "m \<in> fst ` set bs" for m
      using Cons.prems(4,5) that by (auto simp: nb bundle_entry_def files_apart Let_def)
  qed (use Cons.prems in auto)
  moreover have "bundle_entry (without k (sp_sources s)) x = (bundle_entry (sp_sources s) x :: string \<times> 'a config_file)"
    if "x \<in> set bs" for x
  proof -
    have "bundle_first x \<noteq> None" using Cons.prems(2) that by force
    then obtain j where "bundle_first x = Some j" by auto
    with others [OF that] show ?thesis by (intro bundle_entry_cong(1)) auto
  qed
  ultimately show ?case
    using k by (auto simp: without_def intro!: filter_cong)
qed simp

lemma split_stacks:
  assumes "fold_result (split_stack relDir) ts s = Inr s'"
    and "None \<notin> stack_first ` set ts" and "distinct (map stack_first ts)" and "distinct (map fst ts)"
    and "\<And>n. n \<in> fst ` set ts \<Longrightarrow> stack_file n \<notin> fst ` set (sp_configs s)"
  shows "sp_configs s' = sp_configs s @ map (stack_entry (sp_sources s)) ts \<and>
    sp_sources s' = filter (\<lambda>(k, x). Some k \<notin> stack_first ` set ts) (sp_sources s)"
  using assms
proof (induction ts arbitrary: s)
  case (Cons nt ts)
  obtain n t where nt: "nt = (n, t)" by (cases nt)
  obtain k where k: "stack_first nt = Some k" using Cons.prems(2) by (cases "stack_first nt") auto
  then have first: "first_source (stk_Requirements t) = Some k"
    by (auto simp: stack_first_def nt)
  let ?t = "\<lparr>sp_configs = sp_configs s @ [stack_entry (sp_sources s) nt], sp_sources = without k (sp_sources s),
    sp_files = map_put n (path_Join [relDir, stack_file n]) (sp_files s)\<rparr>"
  have fresh: "stack_file n \<notin> fst ` set (sp_configs s)" using Cons.prems(5) by (simp add: nt)
  have "split_stack relDir nt s = Inr ?t"
    using first map_put_fresh [OF fresh]
    by (simp add: split_stack_def nt stack_entry_def stack_file_def Let_def)
  with Cons.prems(1) have rest: "fold_result (split_stack relDir) ts ?t = Inr s'" by simp
  have others: "stack_first x \<noteq> Some k" if "x \<in> set ts" for x
    using Cons.prems(3) k that by (auto simp: image_iff)
  have "sp_configs s' = sp_configs ?t @ map (stack_entry (sp_sources ?t)) ts \<and>
    sp_sources s' = filter (\<lambda>(k, x). Some k \<notin> stack_first ` set ts) (sp_sources ?t)"
  proof (rule Cons.IH [OF rest])
    show "stack_file m \<notin> fst ` set (sp_configs ?t)" if "m \<in> fst ` set ts" for m
      using Cons.prems(4,5) that by (auto simp: nt stack_entry_def files_apart Let_def)
  qed (use Cons.prems in auto)
  moreover have "stack_entry (without k (sp_sources s)) x = stack_entry (sp_sources s) x" if "x \<in> set ts" for x
  proof -
    have "stack_first x \<noteq> None" using Cons.prems(2) that by force
    then obtain j where "stack_first x = Some j" by auto
    with others [OF that] show ?thesis by (intro bundle_entry_cong(2)) auto
  qed
  ultimately show ?case
    using k by (auto simp: without_def intro!: filter_cong)
qed simp

subsection \<open>The remaining sources\<close>

definition stripped_source :: "dir_walk \<Rightarrow> string \<times> source \<Rightarrow> string \<times> source" where
  "stripped_source walk ks =
     (case Source_Files walk (snd ks) of
        Inl e \<Rightarrow> ks
      | Inr files \<Rightarrow> if files \<noteq> fmempty then (fst ks, SetEmbeddedFiles [] (snd ks)) else ks)"

definition test_source :: "dir_walk \<Rightarrow> string \<times> source \<Rightarrow> (string \<times> source) list" where
  "test_source walk ks =
     (case Source_Files walk (snd ks) of
        Inl e \<Rightarrow> []
      | Inr files \<Rightarrow> if files \<noteq> fmempty
          then [(fst ks, SetEmbeddedFiles (sorted_list_of_fmap files) (empty_source (fst ks)))] else [])"

lemma strip_sources:
  "fold_result (strip_source walk) srcs (a, b) = Inr (a', b') \<Longrightarrow>
     a' = a @ map (stripped_source walk) srcs \<and> b' = b @ concat (map (test_source walk) srcs) \<and>
     (\<forall>ks \<in> set srcs. \<exists>files. Source_Files walk (snd ks) = Inr files)"
proof (induction srcs arbitrary: a b)
  case (Cons ks srcs)
  obtain k s where ks: "ks = (k, s)" by (cases ks)
  from Cons.prems obtain files where files: "Source_Files walk s = Inr files"
    by (auto simp: strip_source_def ks result_bind_Inr_iff)
  then have "strip_source walk ks (a, b) = Inr (a @ [stripped_source walk ks], b @ test_source walk ks)"
    by (simp add: strip_source_def ks stripped_source_def test_source_def)
  with Cons.prems have "fold_result (strip_source walk) srcs (a @ [stripped_source walk ks], b @ test_source walk ks) = Inr (a', b')"
    by simp
  from Cons.IH [OF this] files show ?case by (simp add: ks)
qed simp

lemma fst_stripped [simp]: "fst (stripped_source walk ks) = fst ks"
  by (simp add: stripped_source_def split: sum.splits)

definition source_entry :: "string \<times> source \<Rightarrow> string \<times> 'g config_file" where
  "source_entry ks = (source_file (fst ks), empty_file\<lparr>cf_Sources := [(fst ks, Some (snd ks))]\<rparr>)"

definition secret_entry :: "string \<times> secret \<Rightarrow> string \<times> 'g config_file" where
  "secret_entry nx = (secret_file (fst nx), empty_file\<lparr>cf_Secrets := [nx]\<rparr>)"

definition some_snd :: "string \<times> source \<Rightarrow> string \<times> source option" where
  "some_snd ks = (fst ks, Some (snd ks))"

lemma some_snd_eq: "(\<lambda>(name, s). (name, Some s)) = some_snd"
  by (simp add: fun_eq_iff some_snd_def)

definition sources_file :: "string \<Rightarrow> (string \<times> source) list \<Rightarrow> 'g configs" where
  "sources_file f m = (if m = [] then [] else [(f, empty_file\<lparr>cf_Sources := map some_snd m\<rparr>)])"

lemma put_sources_append:
  assumes "distinct (map fst srcs)" and "\<And>n. source_file n \<notin> fst ` set m"
  shows "put_sources srcs m = m @ map source_entry (filter (\<lambda>ks. \<not> isTypeLibrary (fst ks)) srcs)"
proof -
  have "put_sources srcs m = fold (\<lambda>ks. map_put (source_file (fst ks)) (empty_file\<lparr>cf_Sources := [(fst ks, Some (snd ks))]\<rparr>))
      (filter (\<lambda>ks. \<not> isTypeLibrary (fst ks)) srcs) m"
    by (simp add: put_sources_def case_prod_unfold source_file_def)
  also have "\<dots> = m @ map source_entry (filter (\<lambda>ks. \<not> isTypeLibrary (fst ks)) srcs)"
    using assms by (subst fold_put_fresh) (auto simp: distinct_map inj_on_def files_apart source_entry_def)
  finally show ?thesis .
qed

lemma put_builtins_append:
  "''builtin-sources.yaml'' \<notin> fst ` set m \<Longrightarrow>
   put_builtins srcs m = m @ sources_file ''builtin-sources.yaml'' (filter (\<lambda>ks. isTypeLibrary (fst ks)) srcs)"
  by (simp add: put_builtins_def sources_file_def case_prod_unfold map_put_fresh some_snd_def Let_def)

lemma put_secret_files_append:
  assumes "distinct (map fst xs)" and "\<And>n. secret_file n \<notin> fst ` set m"
  shows "put_secret_files xs m = m @ map secret_entry xs"
proof -
  have "put_secret_files xs m = fold (\<lambda>nx. map_put (secret_file (fst nx)) (empty_file\<lparr>cf_Secrets := [nx]\<rparr>)) xs m"
    by (simp add: put_secret_files_def case_prod_unfold secret_file_def)
  also have "\<dots> = m @ map secret_entry xs"
    using assms by (subst fold_put_fresh) (auto simp: distinct_map inj_on_def files_apart secret_entry_def)
  finally show ?thesis .
qed

subsection \<open>All files\<close>

definition all_firsts :: "'g migrated \<Rightarrow> string option list" where
  "all_firsts root = map bundle_first (out_Bundles root) @ map stack_first (out_Stacks root)"

definition rest_sources :: "'g migrated \<Rightarrow> (string \<times> source) list" where
  "rest_sources root = filter (\<lambda>ks. Some (fst ks) \<notin> set (all_firsts root)) (out_Sources root)"

definition all_files :: "dir_walk \<Rightarrow> 'g migrated \<Rightarrow> 'g configs" where
  "all_files walk root =
     (let stripped = map (stripped_source walk) (rest_sources root) in
      map (bundle_entry (out_Sources root)) (out_Bundles root) @
      map (stack_entry (out_Sources root)) (out_Stacks root) @
      map source_entry (filter (\<lambda>ks. \<not> isTypeLibrary (fst ks)) stripped) @
      sources_file ''builtin-sources.yaml'' (filter (\<lambda>ks. isTypeLibrary (fst ks)) stripped) @
      map secret_entry (out_Secrets root) @
      sources_file ''test-files.yaml'' (concat (map (test_source walk) (rest_sources root))))"

text \<open>Every bundle and stack has a source of its own, which exists.\<close>

definition own_sources :: "'g migrated \<Rightarrow> bool" where
  "own_sources root \<longleftrightarrow> distinct (all_firsts root) \<and> set (all_firsts root) \<subseteq> Some ` fst ` set (out_Sources root)"

lemma map_of_filter_keys: "map_of (filter (\<lambda>(k, x). P k) m) k = (if P k then map_of m k else None)"
  by (induction m) auto

lemma splitConfig_files:
  assumes "well_named root" and own: "own_sources root" and r: "splitConfig walk relDir root = Inr r"
  shows "sr_configs r = map (\<lambda>(f, c). (f, c\<lparr>cf_Metadata := out_Metadata root\<rparr>)) (all_files walk root)"
    and "\<forall>ks \<in> set (rest_sources root). \<exists>files. Source_Files walk (snd ks) = Inr files"
proof -
  have dist: "distinct (map fst (out_Bundles root))" "distinct (map fst (out_Stacks root))"
    "distinct (map fst (out_Sources root))" "distinct (map fst (out_Secrets root))"
    using assms(1) by (simp_all add: well_named_def keyed_def)
  have b: "None \<notin> bundle_first ` set (out_Bundles root)" "distinct (map bundle_first (out_Bundles root))"
    and t: "None \<notin> stack_first ` set (out_Stacks root)" "distinct (map stack_first (out_Stacks root))"
    and disj: "bundle_first ` set (out_Bundles root) \<inter> stack_first ` set (out_Stacks root) = {}"
    using own by (auto simp: own_sources_def all_firsts_def)
  let ?init = "\<lparr>sp_configs = [], sp_sources = out_Sources root, sp_files = []\<rparr>"
  from r obtain s1 s2 stripped tests where
    s1: "fold_result (split_bundle relDir) (out_Bundles root) ?init = Inr s1"
    and s2: "fold_result (split_stack relDir) (out_Stacks root) (s1\<lparr>sp_files := []\<rparr>) = Inr s2"
    and strip: "fold_result (strip_source walk) (sp_sources s2) ([], []) = Inr (stripped, tests)"
    and configs: "sr_configs r = map (\<lambda>(f, c). (f, c\<lparr>cf_Metadata := out_Metadata root\<rparr>))
      (let configs = put_secret_files (out_Secrets root) (put_builtins stripped (put_sources stripped (sp_configs s2)))
       in if tests = [] then configs else map_put ''test-files.yaml''
            (empty_file\<lparr>cf_Sources := map (\<lambda>(name, s). (name, Some s)) tests\<rparr>) configs)"
    unfolding splitConfig_def by (auto simp: result_bind_Inr_iff Let_def split: sum.splits prod.splits)
  from split_bundles [OF s1 b dist(1)] have c1: "sp_configs s1 = map (bundle_entry (out_Sources root)) (out_Bundles root)"
    and src1: "sp_sources s1 = filter (\<lambda>(k, x). Some k \<notin> bundle_first ` set (out_Bundles root)) (out_Sources root)"
    by simp_all
  have keys1: "fst ` set (sp_configs s1) = bundle_file ` fst ` set (out_Bundles root)"
    by (simp add: c1 image_image)
  have "stack_file n \<notin> fst ` set (sp_configs (s1\<lparr>sp_files := []\<rparr>))" for n
    using keys1 files_apart(5) by (auto simp: image_iff) metis
  from split_stacks [OF s2 t dist(2) this]
  have c2: "sp_configs s2 = sp_configs s1 @ map (stack_entry (sp_sources s1)) (out_Stacks root)"
    and src2: "sp_sources s2 = filter (\<lambda>(k, x). Some k \<notin> stack_first ` set (out_Stacks root)) (sp_sources s1)"
    by simp_all
  have "stack_entry (sp_sources s1) x = stack_entry (out_Sources root) x" if "x \<in> set (out_Stacks root)" for x
  proof -
    have "stack_first x \<noteq> None" using t(1) that by (metis imageI)
    then obtain k where k: "stack_first x = Some k" by auto
    then have "Some k \<notin> bundle_first ` set (out_Bundles root)" using disj that by force
    then have "map_of (sp_sources s1) k = map_of (out_Sources root) k"
      by (simp add: src1 map_of_filter_keys [where P = "\<lambda>k. Some k \<notin> bundle_first ` set (out_Bundles root)"])
    with k show ?thesis by (simp add: stack_entry_def stack_first_def Let_def)
  qed
  then have c2: "sp_configs s2 = map (bundle_entry (out_Sources root)) (out_Bundles root) @
      map (stack_entry (out_Sources root)) (out_Stacks root)"
    by (simp add: c2 c1)
  have rest: "sp_sources s2 = rest_sources root"
    by (auto simp: src2 src1 rest_sources_def all_firsts_def case_prod_unfold intro!: filter_cong)
  from strip_sources [OF strip] have st: "stripped = map (stripped_source walk) (rest_sources root)"
    "tests = concat (map (test_source walk) (rest_sources root))"
    and ok: "\<forall>ks \<in> set (rest_sources root). \<exists>files. Source_Files walk (snd ks) = Inr files"
    by (simp_all add: rest)
  show "\<forall>ks \<in> set (rest_sources root). \<exists>files. Source_Files walk (snd ks) = Inr files" by (rule ok)
  have keys2: "fst ` set (sp_configs s2) = bundle_file ` fst ` set (out_Bundles root) \<union> stack_file ` fst ` set (out_Stacks root)"
    by (simp add: c2 image_Un image_image)
  have "distinct (map fst stripped)"
    using dist(3) by (simp add: st comp_def rest_sources_def distinct_map_filter)
  moreover have "source_file n \<notin> fst ` set (sp_configs s2)" for n
    using files_apart(6,8) by (auto simp: keys2) metis+
  ultimately have p1: "put_sources stripped (sp_configs s2) =
      sp_configs s2 @ map source_entry (filter (\<lambda>ks. \<not> isTypeLibrary (fst ks)) stripped)" (is "_ = ?c3")
    by (rule put_sources_append)
  have keys3: "fst ` set ?c3 \<subseteq> range bundle_file \<union> range stack_file \<union> range source_file"
    unfolding set_append image_Un keys2 by (auto simp: source_entry_def)
  then have "''builtin-sources.yaml'' \<notin> fst ` set ?c3"
    by (rule contra_subsetD) (simp add: special_files)
  then have p2: "put_builtins stripped ?c3 = ?c3 @ sources_file ''builtin-sources.yaml''
      (filter (\<lambda>ks. isTypeLibrary (fst ks)) stripped)" (is "_ = ?c4")
    by (rule put_builtins_append)
  have keys4: "fst ` set ?c4 \<subseteq> range bundle_file \<union> range stack_file \<union> range source_file \<union> {''builtin-sources.yaml''}"
    using keys3 by (auto simp: sources_file_def)
  have "secret_file n \<notin> fst ` set ?c4" for n
    using keys4 by (rule contra_subsetD) (simp add: special_files)
  with dist(4) have p3: "put_secret_files (out_Secrets root) ?c4 = ?c4 @ map secret_entry (out_Secrets root)" (is "_ = ?c5")
    by (rule put_secret_files_append)
  have "fst ` set ?c5 \<subseteq> range bundle_file \<union> range stack_file \<union> range source_file \<union> {''builtin-sources.yaml''} \<union> range secret_file"
    using keys4 by (auto simp: secret_entry_def)
  then have fresh: "''test-files.yaml'' \<notin> fst ` set ?c5"
    by (rule contra_subsetD) (simp add: special_files)
  have p4: "(if tests = [] then ?c5 else map_put ''test-files.yaml''
      (empty_file\<lparr>cf_Sources := map (\<lambda>(name, s). (name, Some s)) tests\<rparr>) ?c5) = ?c5 @ sources_file ''test-files.yaml'' tests"
    unfolding map_put_fresh [OF fresh]
    by (cases "tests = []") (simp_all only: sources_file_def some_snd_eq if_True if_False simp_thms append_Nil2)
  have all: "?c5 @ sources_file ''test-files.yaml'' tests = all_files walk root"
    by (simp only: all_files_def Let_def st c2 append_assoc)
  show "sr_configs r = map (\<lambda>(f, c). (f, c\<lparr>cf_Metadata := out_Metadata root\<rparr>)) (all_files walk root)"
    unfolding configs p1 p2 p3 Let_def p4 all ..
qed

definition all_of :: "('c \<Rightarrow> 'a list) \<Rightarrow> (string \<times> 'c) list \<Rightarrow> 'a list" where
  "all_of f cs = concat (map (f \<circ> snd) cs)"

lemma all_of_simps [simp]:
  "all_of f [] = []" "all_of f (cs @ ds) = all_of f cs @ all_of f ds"
  by (simp_all add: all_of_def)

lemma all_of_entries:
  "all_of cf_Bundles (map (bundle_entry m) bs) = bs" "all_of cf_Stacks (map (bundle_entry m) bs) = []"
  "all_of cf_Secrets (map (bundle_entry m) bs) = []"
  "all_of cf_Bundles (map (stack_entry m) ts) = []" "all_of cf_Stacks (map (stack_entry m) ts) = ts"
  "all_of cf_Secrets (map (stack_entry m) ts) = []"
  "all_of cf_Bundles (map source_entry ss) = []" "all_of cf_Stacks (map source_entry ss) = []"
  "all_of cf_Secrets (map source_entry ss) = []" "all_of cf_Sources (map source_entry ss) = map some_snd ss"
  "all_of cf_Bundles (map secret_entry xs) = []" "all_of cf_Stacks (map secret_entry xs) = []"
  "all_of cf_Secrets (map secret_entry xs) = xs" "all_of cf_Sources (map secret_entry xs) = []"
  "all_of cf_Bundles (sources_file f ss) = []" "all_of cf_Stacks (sources_file f ss) = []"
  "all_of cf_Secrets (sources_file f ss) = []" "all_of cf_Sources (sources_file f ss) = map some_snd ss"
  "all_of cf_Sources (map (bundle_entry m) bs) = map (\<lambda>nb. (the (bundle_first nb), map_of m (the (bundle_first nb)))) bs"
  "all_of cf_Sources (map (stack_entry m) ts) = map (\<lambda>nt. (the (stack_first nt), map_of m (the (stack_first nt)))) ts"
  by (simp_all add: all_of_def bundle_entry_def stack_entry_def source_entry_def secret_entry_def sources_file_def
      empty_file_def some_snd_def Let_def comp_def bundle_first_def stack_first_def)

lemma all_of_stamped:
  assumes "\<And>c. f (c\<lparr>cf_Metadata := md\<rparr>) = f c"
  shows "all_of f (map (\<lambda>(n, c). (n, c\<lparr>cf_Metadata := md\<rparr>)) cs) = all_of f cs"
  using assms by (simp add: all_of_def comp_def case_prod_unfold)

text \<open>The files without the one that takes the embedded files of the remaining sources.\<close>

definition config_files :: "'g configs \<Rightarrow> 'g configs" where
  "config_files cs = filter (\<lambda>fc. fst fc \<noteq> ''test-files.yaml'') cs"

lemma config_files_all:
  "config_files (all_files walk root) =
     (let stripped = map (stripped_source walk) (rest_sources root) in
      map (bundle_entry (out_Sources root)) (out_Bundles root) @
      map (stack_entry (out_Sources root)) (out_Stacks root) @
      map source_entry (filter (\<lambda>ks. \<not> isTypeLibrary (fst ks)) stripped) @
      sources_file ''builtin-sources.yaml'' (filter (\<lambda>ks. isTypeLibrary (fst ks)) stripped) @
      map secret_entry (out_Secrets root))"
  unfolding config_files_def all_files_def Let_def filter_append
  by (simp add: filter_map comp_def bundle_entry_def stack_entry_def source_entry_def secret_entry_def sources_file_def
      files_apart Let_def)

lemma mset_filter_split: "mset (filter P xs) + mset (filter (\<lambda>x. \<not> P x) xs) = mset xs"
  by (simp add: mset_filter flip: multiset_partition)


subsection \<open>An example\<close>

text \<open>A bundle with its source, and a library with an embedded file.\<close>

definition example_split :: "string migrated" where
  "example_split =
     \<lparr>out_Metadata = \<lparr>md_ExportedFrom = ''https://example.com'', md_ExportedAt = []\<rparr>,
      out_Bundles = [(''b'', zero_bundle\<lparr>bun_Name := ''b'', bun_Requirements := Some [source_requirement ''s'']\<rparr>)],
      out_Stacks = [],
      out_Sources = [(''l'', (empty_source ''l'')\<lparr>src_EmbeddedFiles := Some (fmap_of_list [(''l.rego'', ''x'')])\<rparr>), (''s'', empty_source ''s'')],
      out_Secrets = [(''key'', \<lparr>sec_Name = ''key'', sec_Value = None\<rparr>)]\<rparr>"

lemma example_split_facts:
  "well_named example_split" "own_sources example_split"
  "case splitConfig (\<lambda>dir pats. Inl dir) ''config.d'' example_split of
     Inl e \<Rightarrow> False
   | Inr r \<Rightarrow> map fst (sr_configs r) = [''system-b.yaml'', ''source-l.yaml'', ''secret-key.yaml'', ''test-files.yaml''] \<and>
       sr_bundleFiles r = [(''b'', ''config.d/system-b.yaml'')]"
  by code_simp+


end
