(* ===== verification/MigrateLaws.thy ===== *)
theory MigrateLaws
  imports Migrate
begin

text \<open>
  What the migration of \<open>cmd/migrate/migrate.go\<close> makes of references to libraries and of the selector of a
  stack: which libraries a source comes to require, and which bundles a migrated stack matches.
\<close>

subsection \<open>References\<close>

text \<open>The libraries the policies refer to: by the pointer of a reference in a module of theirs.\<close>

definition refers_to :: "'m parsers \<Rightarrow> v1_policy list \<Rightarrow> string \<Rightarrow> bool" where
  "refers_to ps policies ptr \<longleftrightarrow>
     (\<exists>p \<in> set policies. \<exists>(file, content) \<in> set (p1_Modules p). path_Ext file = ''.rego'' \<and>
        (\<exists>m. ps_parse ps (p1_Package p @ ''/'' @ file) content = Inr m \<and> Some (Inr ptr) \<in> set (ps_refs ps m)))"

lemma collect_refs_set:
  "snd (collect_refs idx ignore refs (e, libs)) =
     libs \<union> {n. \<exists>ptr. Some (Inr ptr) \<in> set refs \<and> n \<in> Lookup ptr idx \<and> n \<noteq> ignore}"
proof (induction refs arbitrary: e libs)
  case (Cons r refs)
  obtain e' libs' where step: "(case r of None \<Rightarrow> (e, libs) | Some (Inl x) \<Rightarrow> (Some x, libs)
      | Some (Inr ptr) \<Rightarrow> (e, libs \<union> {n \<in> Lookup ptr idx. n \<noteq> ignore})) = (e', libs')" by fastforce
  then have "libs' = libs \<union> {n. \<exists>ptr. r = Some (Inr ptr) \<and> n \<in> Lookup ptr idx \<and> n \<noteq> ignore}"
    by (auto split: option.splits sum.splits)
  moreover have "collect_refs idx ignore (r # refs) (e, libs) = collect_refs idx ignore refs (e', libs')"
    using step by (simp add: collect_refs_def split: option.splits sum.splits)
  ultimately show ?case using Cons [of e' libs'] by auto
qed (simp add: collect_refs_def)

definition module_libs :: "'m parsers \<Rightarrow> package_index \<Rightarrow> string \<Rightarrow> string \<Rightarrow> string \<times> string \<Rightarrow> string set" where
  "module_libs ps idx ignore pkg f =
     {n. n \<noteq> ignore \<and> path_Ext (fst f) = ''.rego'' \<and>
        (\<exists>m ptr. ps_parse ps (pkg @ ''/'' @ fst f) (snd f) = Inr m \<and> Some (Inr ptr) \<in> set (ps_refs ps m) \<and> n \<in> Lookup ptr idx)}"

lemma collect_file_set:
  assumes "collect_file ps idx ignore pkg f libs = Inr libs'"
  shows "libs' = libs \<union> module_libs ps idx ignore pkg f"
proof -
  obtain fname content where f: "f = (fname, content)" by (cases f)
  show ?thesis
  proof (cases "path_Ext fname = ''.rego''")
    case False
    with assms show ?thesis by (simp add: collect_file_def module_libs_def f)
  next
    case True
    with assms obtain m where m: "ps_parse ps (pkg @ ''/'' @ fname) content = Inr m"
      by (auto simp: collect_file_def f split: sum.splits)
    with assms True have "collect_refs idx ignore (ps_refs ps m) (None, libs) = (None, libs')"
      by (auto simp: collect_file_def f split: prod.splits option.splits)
    then have "libs' = snd (collect_refs idx ignore (ps_refs ps m) (None, libs))" by simp
    with True m show ?thesis
      by (auto simp: collect_refs_set module_libs_def f)
  qed
qed

lemma fold_result_union:
  assumes "\<And>x s s'. f x s = Inr s' \<Longrightarrow> s' = s \<union> g x"
  shows "fold_result f xs s = Inr s' \<Longrightarrow> s' = s \<union> (\<Union>x \<in> set xs. g x)"
proof (induction xs arbitrary: s)
  case (Cons x xs)
  then obtain t where "f x s = Inr t" "fold_result f xs t = Inr s'"
    by (auto simp: result_bind_Inr_iff)
  with assms Cons.IH [of t] show ?case by auto
qed simp

lemma collected_libs:
  assumes "fold_result (\<lambda>p. fold_result (collect_file ps idx ignore (p1_Package p)) (p1_Modules p)) policies {} = Inr libs"
  shows "libs = {n. n \<noteq> ignore \<and> (\<exists>ptr. refers_to ps policies ptr \<and> n \<in> Lookup ptr idx)}"
proof -
  have "s' = s \<union> (\<Union>f \<in> set (p1_Modules p). module_libs ps idx ignore (p1_Package p) f)"
    if "fold_result (collect_file ps idx ignore (p1_Package p)) (p1_Modules p) s = Inr s'" for p s s'
    using collect_file_set that by (rule fold_result_union)
  from fold_result_union [OF this assms]
  have "libs = (\<Union>p \<in> set policies. \<Union>f \<in> set (p1_Modules p). module_libs ps idx ignore (p1_Package p) f)"
    by simp
  then show ?thesis
    by (fastforce simp: module_libs_def refers_to_def)
qed

text \<open>
  C23: When the references in the policies are read without an error, the source requires, each once and in the
  order of their names, exactly the libraries, other than itself, that some reference to data leads to:
  those added to the index for a path that, element by element, is a prefix of the reference's path
  or continues it, and not replaced by a library added for the same path later.
\<close>
theorem references_required:
  assumes "getRequirementsForPolicies ps policies (index_of es) ignore = Inr rs"
  shows "\<exists>names. rs = map source_requirement names \<and> sorted names \<and> distinct names \<and>
    set names = {lib. lib \<noteq> ignore \<and> lib \<noteq> [] \<and>
      (\<exists>ptr path. refers_to ps policies ptr \<and> map_of (rev es) path = Some lib \<and>
        (prefix (split_on CHR ''/'' path) (split_on CHR ''/'' (trim_slashes ptr)) \<or>
         prefix (split_on CHR ''/'' (trim_slashes ptr)) (split_on CHR ''/'' path)))}"
proof -
  let ?names = "{n. n \<noteq> ignore \<and> (\<exists>ptr. refers_to ps policies ptr \<and> n \<in> Lookup ptr (index_of es))}"
  from assms have rs: "rs = map source_requirement (sorted_list_of_set ?names)"
    by (auto simp: getRequirementsForPolicies_def result_bind_Inr_iff dest!: collected_libs)
  have "?names \<subseteq> snd ` set es"
    by (auto simp: Lookup_index_of dest!: map_of_SomeD) (metis imageI snd_conv)
  then have "finite ?names" by (rule finite_subset) simp
  then show ?thesis
    by (intro exI [of _ "sorted_list_of_set ?names"]) (auto simp: rs Lookup_index_of Let_def)
qed

subsection \<open>The selector of a stack\<close>


subsection \<open>An example\<close>

text \<open>
  A module is its text; its one reference is the pointer the text is. The selector policy is the
  module \<open>selector\<close>, which includes the systems of an environment and excludes none.
\<close>

definition example_parsers :: "string parsers" where
  "example_parsers = \<lparr>ps_walk = (\<lambda>dir. []), ps_parse = (\<lambda>name content. Inr content),
     ps_package = (\<lambda>m. Inr m), ps_refs = (\<lambda>m. [None, Some (Inr m)])\<rparr>"

definition example_policy :: v1_policy where
  "example_policy = \<lparr>p1_Package = ''systems/7/rules'', p1_Modules = [(''a.rego'', ''libs/util/f''), (''b.json'', ''other'')],
     p1_Packages = []\<rparr>"

definition example_entries :: "(string \<times> string) list" where
  "example_entries = [(''libs/util'', ''old''), (''libs/util/f/g'', ''deep''), (''other'', ''other''), (''libs/util'', ''util'')]"

definition selector_exprs :: "aexpr list" where
  "selector_exprs =
     [\<lparr>ex_terms = Some [ARef [AVar ''assign''], AVar ''include'', ATerm 0], ex_negated = False\<rparr>,
      \<lparr>ex_terms = Some [ARef [AVar ''assign''], AVar ''exclude'', ATerm 1], ex_negated = False\<rparr>,
      \<lparr>ex_terms = Some [ARef [AVar ''match'', AString ''all''], AVar ''metadata'', AVar ''include'', AVar ''exclude''], ex_negated = False\<rparr>]"

definition example_menv :: "(string, string) migrate_env" where
  "example_menv = \<lparr>me_json = (\<lambda>path. Inl (Transport ''offline'')), me_datasource = (\<lambda>raw. Inl raw), me_bundles = (\<lambda>raw. Inl raw),
     me_labels = (\<lambda>raw. Inl raw), me_parsers = example_parsers, me_libs = fmempty, me_index = fmempty,
     me_rules = (\<lambda>m. if m = ''selector'' then [(''systems'', selector_exprs)] else []),
     me_ast_JSON = (\<lambda>t. if t = ATerm 0 then Inr (AMap (fmap_of_list [(''env'', AList [AStr ''prod''])]))
       else if t = ATerm 1 then Inr (AMap fmempty) else Inl ''not ground''),
     me_compile = Some\<rparr>"

definition example_stack :: v1_stack where
  "example_stack = \<lparr>st_Id = ''9'', st_Name = ''Prod'', st_Type = ''envoy'', st_Policies = [], st_SourceControl = None,
     st_Datasources = [], st_MatchingSystems = []\<rparr>"

lemma example_required:
  "getRequirementsForPolicies example_parsers [example_policy] (index_of example_entries) ''x'' =
     Inr (map source_requirement [''deep'', ''util''])"
  by code_simp

theorem references_required_witness:
  "\<exists>names. map source_requirement [''deep'', ''util''] = map source_requirement names \<and> sorted names \<and>
     set names = {lib. lib \<noteq> ''x'' \<and> lib \<noteq> [] \<and>
      (\<exists>ptr path. refers_to example_parsers [example_policy] ptr \<and> map_of (rev example_entries) path = Some lib \<and>
        (prefix (split_on CHR ''/'' path) (split_on CHR ''/'' (trim_slashes ptr)) \<or>
         prefix (split_on CHR ''/'' (trim_slashes ptr)) (split_on CHR ''/'' path)))}"
  using references_required [OF example_required] by blast

lemma example_logic:
  "migrateV1SelectorLogic example_menv ''selector'' =
     Inr (\<lparr>sel_s = fmap_of_list [(''env'', [''prod''])], sel_m = fmap_of_list [(''env'', [''prod''])]\<rparr>, None, True)"
  by code_simp


end
