(* ===== verification/MigrateReady.thy ===== *)
theory MigrateReady
  imports MigrateSplit MigrateLaws
begin

text \<open>
  The run of \<open>cmd/migrate/migrate.go\<close> from the fetched state to the files, and what holds of the configuration
  it ends with: its entries are named after their keys, and pruning leaves no reference that it had open.
\<close>

subsection \<open>The run\<close>

datatype run_error =
    RunMigrate migrate_error
  | RunFiles files_error
  | UnsupportedStorage
  | RunSplit split_error

record 'g run_result =
  rr_migration :: "'g migration"
  rr_removedStacks :: "'g stack list"
  rr_removedSources :: "source list"
  rr_written :: "(string \<times> string) list"
  rr_config :: "'g migrated"
  rr_split :: "'g split_result"

definition run_wrap :: "('e \<Rightarrow> run_error) \<Rightarrow> 'e + 'a \<Rightarrow> run_error + 'a" where
  "run_wrap f r = (case r of Inl e \<Rightarrow> Inl (f e) | Inr x \<Rightarrow> Inr x)"

text \<open>\<open>Run\<close> with an output directory. The directories of sources are read twice: before anything is written, and
  when the configuration is split.\<close>

definition Run_migration :: "('g \<Rightarrow> string \<Rightarrow> bool) \<Rightarrow> ('m, 'g) migrate_env \<Rightarrow> dir_walk \<Rightarrow> dir_walk \<Rightarrow> das_state \<Rightarrow>
    run_options \<Rightarrow> string \<Rightarrow> metadata \<Rightarrow> run_error + 'g run_result" where
  "Run_migration gmatch env before after state ro relDir md =
     result_bind (run_wrap RunMigrate (migrate_all env state (ro_Datasources ro) md)) (\<lambda>m.
       let (removedStacks, removedSources, removedSecrets, root) = pruneConfig gmatch (ro_Prune ro) (mg_out m) in
       result_bind (run_wrap RunFiles (place_files before ro root)) (\<lambda>(files, root).
       case object_storage ro root of
         None \<Rightarrow> Inl UnsupportedStorage
       | Some root \<Rightarrow>
           result_bind (run_wrap RunSplit (splitConfig after relDir root)) (\<lambda>sr.
             Inr \<lparr>rr_migration = m, rr_removedStacks = removedStacks, rr_removedSources = removedSources,
                  rr_written = written_files ro files, rr_config = root, rr_split = sr\<rparr>)))"

subsection \<open>What it ends with\<close>

text \<open>
  C19: Whatever is migrated, every entry of the configuration is named after its key and every secret a source names, for its
  repository or for a data source, is there. After pruning every secret that a source names for its repository is
  still there, and every source that a bundle, a stack or a source still requires_source and that had been migrated is kept.
\<close>
theorem migration_consistent:
  assumes "migrate_all env state datasources md = Inr m"
    and "pruneConfig gmatch True (mg_out m) = (removedStacks, removedSources, removedSecrets, root)"
  shows "well_named (mg_out m) \<and> well_named root \<and>
    (\<forall>(k, s) \<in> set (out_Sources (mg_out m)). source_secrets s \<subseteq> fst ` set (out_Secrets (mg_out m))) \<and>
    (\<forall>(k, s) \<in> set (out_Sources root). \<forall>c. git_Credentials (src_Git s) = Some c \<longrightarrow> ref_Name c \<in> fst ` set (out_Secrets root)) \<and>
    (\<forall>s \<in> fst ` set (out_Sources (mg_out m)).
       (\<exists>(k, b) \<in> set (out_Bundles root). requires_source (bun_Requirements b) s) \<or>
       (\<exists>(k, t) \<in> set (out_Stacks root). requires_source (stk_Requirements t) s) \<or>
       (\<exists>(k, t) \<in> set (out_Sources root). requires_source (src_Requirements t) s) \<longrightarrow> s \<in> fst ` set (out_Sources root))"
proof -
  let ?root = "mg_out m"
  have wn: "well_named ?root" by (rule migrate_all_well_named [OF assms(1)])
  have sc: "secrets_complete ?root" by (rule migrate_all_secrets_complete [OF assms(1)])
  define mid where "mid = ?root\<lparr>out_Stacks := filter (matches_bundle gmatch ?root \<circ> snd) (out_Stacks ?root)\<rparr>"
  define sources where "sources = filter ((\<lambda>s. needed_source mid (src_Name s)) \<circ> snd) (out_Sources ?root)"
  have root: "root = mid\<lparr>out_Sources := sources,
      out_Secrets := filter ((\<lambda>x. sec_Name x \<in> named_secrets sources) \<circ> snd) (out_Secrets ?root)\<rparr>"
    using assms(2) unfolding pruneConfig_eq [OF wn] by (auto simp: Let_def mid_def sources_def)
  have key: "k = src_Name s" if "(k, s) \<in> set (out_Sources ?root)" for k s
    using wn that by (auto simp: well_named_def keyed_def list_all_iff)
  have key': "k = sec_Name x" if "(k, x) \<in> set (out_Secrets ?root)" for k x
    using wn that by (auto simp: well_named_def keyed_def list_all_iff)
  have wn': "well_named root"
    using wn by (simp add: root mid_def sources_def well_named_def keyed_filter)
  have creds: "ref_Name c \<in> fst ` set (out_Secrets root)"
    if "(k, s) \<in> set (out_Sources root)" "git_Credentials (src_Git s) = Some c" for k s c
  proof -
    have "(k, s) \<in> set sources" using that(1) by (simp add: root)
    then have used: "ref_Name c \<in> named_secrets sources" using that(2) by (auto simp: named_secrets_def)
    have "(k, s) \<in> set (out_Sources ?root)" using \<open>(k, s) \<in> set sources\<close> by (simp add: sources_def)
    moreover have "ref_Name c \<in> source_secrets s" using that(2) by (simp add: source_secrets_def)
    ultimately obtain x where "(ref_Name c, x) \<in> set (out_Secrets ?root)"
      using sc by (fastforce simp: secrets_complete_def)
    then show ?thesis
      using used key' by (force simp: root)
  qed
  have needs: "needed_source mid s"
    if "(\<exists>(k, b) \<in> set (out_Bundles root). requires_source (bun_Requirements b) s) \<or>
       (\<exists>(k, t) \<in> set (out_Stacks root). requires_source (stk_Requirements t) s) \<or>
       (\<exists>(k, t) \<in> set (out_Sources root). requires_source (src_Requirements t) s)" for s
    using that by (auto simp: root mid_def sources_def intro: needed_source.intros)
  have kept: "s \<in> fst ` set (out_Sources root)" if "s \<in> fst ` set (out_Sources ?root)" "needed_source mid s" for s
  proof -
    from that(1) obtain x where x: "(s, x) \<in> set (out_Sources ?root)" by force
    with that(2) key [OF x] have "(s, x) \<in> set sources" by (simp add: sources_def)
    then show ?thesis by (force simp: root)
  qed
  from wn wn' sc creds needs kept show ?thesis
    by (auto simp: secrets_complete_def)
qed

subsection \<open>An example\<close>

text \<open>A system, and two libraries that share the secret of their repository.\<close>

definition run_env :: "(string, string) migrate_env" where
  "run_env = example_menv\<lparr>me_json := (\<lambda>path. if path = ''v1/data/metadata/7/labels'' then Inr ''L'' else Inl (Transport path)),
     me_labels := (\<lambda>raw. Inr (Some fmempty))\<rparr>"

definition library_git :: v1_git where
  "library_git = \<lparr>g1_Commit = [], g1_Path = [], g1_Reference = ''main'', g1_Credentials = ''Deploy Key'', g1_Passphrase = [],
     g1_PrivateKey = [], g1_URL = ''https://git/libs''\<rparr>"

definition example_library :: "string \<Rightarrow> v1_library" where
  "example_library i = \<lparr>li_Id = i, li_Policies = [],
     li_SourceControl = Some \<lparr>lc_UseWorkspaceSettings = False, lc_Origin = library_git, lc_LibraryOrigin = library_git\<rparr>,
     li_Datasources = []\<rparr>"

definition example_das :: das_state where
  "example_das =
     \<lparr>da_SBOM = False,
      da_Systems = [(''7'', \<lparr>sy_Id = ''7'', sy_Name = ''Alpha'', sy_Type = ''custom'', sy_Policies = [], sy_Origin = None,
        sy_Datasources = [], sy_ManualDeployment = False, sy_MatchingStacks = []\<rparr>)],
      da_SystemPolicies = [], da_Stacks = [], da_StackPolicies = [],
      da_Libraries = [(''util'', example_library ''util''), (''spare'', example_library ''spare'')],
      da_LibraryPolicies = []\<rparr>"

definition no_metadata :: metadata where
  "no_metadata = \<lparr>md_ExportedFrom = [], md_ExportedAt = []\<rparr>"

definition example_start :: "string migration" where
  "example_start = \<lparr>mg_names = reserved_names, mg_out = empty_output no_metadata, mg_hasSecrets = [], mg_systemErrors = [],
     mg_index = newLibraryPackageIndex\<rparr>"

lemma example_libraries:
  "\<exists>m. fold_result (migrate_library run_env example_das False) (da_Libraries example_das) example_start = Inr m \<and>
     Sanitize ''Deploy Key'' \<in> fst ` set (out_Secrets (mg_out m))"
  by (simp add: example_das_def example_library_def library_git_def example_start_def empty_output_def
      migrate_library_def migrateV1Library_def mapV1LibraryToSourceAndSecretConfig_def migrateV1GitConfig_def
      getLibraryGitOrigin_def add_datasources_def AssignSafeName_def include_files_def empty_source_def empty_git_def
      bare_secret_def secret_ref_def note_secrets_def put_secrets_def put_source_def policies_of_def Let_def)

theorem migration_consistent_witness:
  "\<exists>m ts ss xs root. migrate_all run_env example_das False no_metadata = Inr m \<and>
     pruneConfig (=) True (mg_out m) = (ts, ss, xs, root) \<and> well_named (mg_out m) \<and> well_named root \<and>
     (\<forall>(k, s) \<in> set (out_Sources (mg_out m)). source_secrets s \<subseteq> fst ` set (out_Secrets (mg_out m)))"
proof -
  obtain a where "fold_result (migrate_library run_env example_das False) (da_Libraries example_das) example_start = Inr a"
    using example_libraries by blast
  then have "\<exists>m. migrate_all run_env example_das False no_metadata = Inr m"
    by (simp add: migrate_all_def migrateLibraries_def migrateStacks_def migrateDependencies_def example_start_def
        empty_output_def example_das_def)
  then obtain m where m: "migrate_all run_env example_das False no_metadata = Inr m" ..
  obtain ts ss xs root where r: "pruneConfig (=) True (mg_out m) = (ts, ss, xs, root)"
    by (metis prod_cases4)
  from m r migration_consistent [OF m r] show ?thesis
    by (intro exI [of _ m] exI [of _ ts] exI [of _ ss] exI [of _ xs] exI [of _ root] conjI) simp_all
qed

end
