(* ===== verification/Fetch.thy ===== *)
theory Fetch
  imports MigrateRun
begin

text \<open>
  How \<open>cmd/migrate/migrate.go\<close> fetches its state: systems, libraries and stacks, and their policies, package by package.
  The server answers a path and a query with a raw result; the decoders are parameters. The goroutines
  that fetch policies work on different entries of one map, each under the lock, so that their order does not
  matter; an error in one of them is a panic. How deep the packages of a policy nest is up to the server: the
  recursion over them, and the loop over those of a legacy library, run on fuel and give nothing when it is used up.
\<close>

subsection \<open>Parameters\<close>

record features =
  ft_SBOM :: bool
  ft_LibraryEditingEnabled :: bool

text \<open>A policy as it is decoded has the modules and the packages below it; what is decoded into a library
  replaces the fields that are there.\<close>

record fetch_env =
  fe_json :: "string \<Rightarrow> (string \<times> string) list \<Rightarrow> das_error + string"
  fe_features :: "string \<Rightarrow> string + features"
  fe_ids :: "string \<Rightarrow> string + string list"
  fe_system :: "string \<Rightarrow> string + v1_system"
  fe_libraries :: "string \<Rightarrow> string + v1_library list"
  fe_library :: "v1_library \<Rightarrow> string \<Rightarrow> string + v1_library"
  fe_datasources :: "string \<Rightarrow> string + v1_datasource list"
  fe_git :: "string \<Rightarrow> string + v1_git"
  fe_stacks :: "string \<Rightarrow> string + v1_stack list"
  fe_policy :: "string \<Rightarrow> string + v1_policy"
  fe_packages :: "string \<Rightarrow> string + (string \<times> string) list \<times> string list"

text \<open>A request whose result is decoded.\<close>

definition fetch :: "fetch_env \<Rightarrow> string \<Rightarrow> (string \<times> string) list \<Rightarrow> (string \<Rightarrow> string + 'a) \<Rightarrow> migrate_error + 'a" where
  "fetch env path query dec = result_bind (das (fe_json env path query)) (\<lambda>raw. decoded path (dec raw))"

subsection \<open>Policies\<close>

text \<open>The recursive calls for the packages below a policy, one by one, are one call with all of them: the
  loop takes its list in order and stops at the first error.\<close>

fun fetchPolicies :: "fetch_env \<Rightarrow> nat \<Rightarrow> string list \<Rightarrow> v1_policy list \<Rightarrow> (migrate_error + v1_policy list) option" where
  "fetchPolicies env fuel [] result = Some (Inr result)"
| "fetchPolicies env 0 (ref # refs) result = None"
| "fetchPolicies env (Suc fuel) (ref # refs) result =
     (case fe_json env (''v1/policies/'' @ ref) [] of
        Inl e \<Rightarrow>
          (case e of
             Status url code \<Rightarrow> if code = 404 then fetchPolicies env (Suc fuel) refs result else Some (Inl (Das e))
           | _ \<Rightarrow> Some (Inl (Das e)))
      | Inr raw \<Rightarrow>
          (case fe_policy env raw of
             Inl e \<Rightarrow> Some (Inl (Undecoded ref e))
           | Inr p \<Rightarrow>
               let p = p\<lparr>p1_Package := ref\<rparr> in
               (case fetchPolicies env fuel (map (\<lambda>sub. ref @ ''/'' @ sub) (p1_Packages p)) (result @ [p]) of
                  None \<Rightarrow> None
                | Some (Inl e) \<Rightarrow> Some (Inl e)
                | Some (Inr result) \<Rightarrow> fetchPolicies env (Suc fuel) refs result)))"

text \<open>More fuel does not change a result.\<close>

lemma fetchPolicies_more_fuel:
  "fetchPolicies env fuel refs result = Some r \<Longrightarrow> fuel \<le> fuel' \<Longrightarrow> fetchPolicies env fuel' refs result = Some r"
proof (induction env fuel refs result arbitrary: fuel' r rule: fetchPolicies.induct)
  case (3 env fuel ref refs result)
  from "3.prems"(2) obtain f where f: "fuel' = Suc f" "fuel \<le> f" by (cases fuel') auto
  show ?case
  proof (cases "fe_json env (''v1/policies/'' @ ref) []")
    case (Inl e)
    show ?thesis
    proof (cases "\<exists>url. e = Status url 404")
      case True
      then obtain url where e: "e = Status url 404" ..
      have "fetchPolicies env (Suc fuel) refs result = Some r" using "3.prems"(1) Inl e by simp
      from "3.IH"(1) [OF Inl e refl this "3.prems"(2)] show ?thesis by (simp only: f fetchPolicies.simps Inl e sum.case das_error.case refl if_True)
    next
      case False
      with "3.prems"(1) Inl show ?thesis by (cases e) (simp_all only: f fetchPolicies.simps sum.case das_error.case, auto split: if_splits)
    qed
  next
    case (Inr raw)
    show ?thesis
    proof (cases "fe_policy env raw")
      case (Inl e)
      with "3.prems" Inr show ?thesis by (simp add: f)
    next
      case p: (Inr p)
      let ?p = "p\<lparr>p1_Package := ref\<rparr>"
      let ?sub = "fetchPolicies env fuel (map (\<lambda>sub. ref @ ''/'' @ sub) (p1_Packages ?p)) (result @ [?p])"
      from "3.prems"(1) Inr p obtain x where x: "?sub = Some x" by (cases ?sub) simp_all
      have more: "fetchPolicies env f (map (\<lambda>sub. ref @ ''/'' @ sub) (p1_Packages ?p)) (result @ [?p]) = Some x"
        using "3.IH"(2) [OF Inr p refl] x f(2) by blast
      show ?thesis
      proof (cases x)
        case (Inl e)
        with "3.prems"(1) Inr p x have "r = Inl e" by simp
        with Inl Inr p more show ?thesis by (simp add: f)
      next
        case xr: (Inr result')
        have "fetchPolicies env (Suc fuel) refs result' = Some r"
          using "3.prems"(1) Inr p x xr by simp
        with "3.IH"(3) [OF Inr p refl x [unfolded xr] refl] f have "fetchPolicies env (Suc f) refs result' = Some r" by simp
        with Inr p more xr show ?thesis by (simp add: f)
      qed
    qed
  qed
qed simp_all

text \<open>The queue of a legacy library: the names still to process, those seen, the policies found.\<close>

fun legacy_policies :: "fetch_env \<Rightarrow> nat \<Rightarrow> string list \<Rightarrow> string set \<Rightarrow> string list \<Rightarrow> (migrate_error + string list) option" where
  "legacy_policies env fuel [] seen policies = Some (Inr policies)"
| "legacy_policies env 0 (nxt # process) seen policies = None"
| "legacy_policies env (Suc fuel) (nxt # process) seen policies =
     (let seen = seen \<union> {nxt} in
      case fetch env (''v1/policies/'' @ nxt) [] (fe_packages env) of
        Inl e \<Rightarrow> Some (Inl e)
      | Inr (modules, packages) \<Rightarrow>
          legacy_policies env fuel
            (process @ filter (\<lambda>i. i \<notin> seen) (map (\<lambda>pkg. nxt @ ''/'' @ pkg) packages)) seen
            (if modules \<noteq> [] then policies @ [nxt] else policies))"

definition fetchLegacyLibrary :: "fetch_env \<Rightarrow> nat \<Rightarrow> string \<Rightarrow> v1_git \<Rightarrow> (migrate_error + v1_library) option" where
  "fetchLegacyLibrary env fuel i git =
     map_option (\<lambda>r. result_bind r (\<lambda>policies.
       Inr \<lparr>li_Id = i, li_Policies = policies,
            li_SourceControl = Some \<lparr>lc_UseWorkspaceSettings = False, lc_Origin = git, lc_LibraryOrigin = git\<rparr>,
            li_Datasources = []\<rparr>))
     (legacy_policies env fuel [i] {} [])"

subsection \<open>The three tables of policies\<close>

definition panic_or :: "(migrate_error + 'a) option \<Rightarrow> (migrate_error + 'a) option" where
  "panic_or r = map_option (\<lambda>x. case x of Inl e \<Rightarrow> Inl Panic | Inr y \<Rightarrow> Inr y) r"

fun fetch_table :: "('a \<Rightarrow> (migrate_error + 'b) option) \<Rightarrow> (string \<times> 'a) list \<Rightarrow> (migrate_error + (string \<times> 'b) list) option" where
  "fetch_table f [] = Some (Inr [])"
| "fetch_table f ((i, x) # xs) =
     (case panic_or (f x) of
        None \<Rightarrow> None
      | Some (Inl e) \<Rightarrow> Some (Inl e)
      | Some (Inr y) \<Rightarrow> map_option (\<lambda>r. result_bind r (\<lambda>ys. Inr ((i, y) # ys))) (fetch_table f xs))"

definition fetchSystemPolicies :: "fetch_env \<Rightarrow> nat \<Rightarrow> (string \<times> v1_system) list \<Rightarrow>
    (migrate_error + (string \<times> v1_policy list) list) option" where
  "fetchSystemPolicies env fuel = fetch_table (\<lambda>s. fetchPolicies env fuel (sy_Policies s) [])"

definition fetchStackPolicies :: "fetch_env \<Rightarrow> nat \<Rightarrow> (string \<times> v1_stack) list \<Rightarrow>
    (migrate_error + (string \<times> v1_policy list) list) option" where
  "fetchStackPolicies env fuel = fetch_table (\<lambda>s. fetchPolicies env fuel (st_Policies s) [])"

text \<open>A library without policies is fetched anew, and the entry of the map of libraries changes with it.\<close>

definition fetch_library :: "fetch_env \<Rightarrow> nat \<Rightarrow> v1_library \<Rightarrow> (migrate_error + v1_library \<times> v1_policy list) option" where
  "fetch_library env fuel l =
     (case (if li_Policies l = [] then
              fetch env (''v1/libraries/'' @ li_Id l)
                [(''rule_counts'', ''false''), (''modules'', ''false''), (''dependant_bundles'', ''none'')] (fe_library env l)
            else Inr l) of
        Inl e \<Rightarrow> Some (Inl e)
      | Inr l \<Rightarrow> map_option (\<lambda>r. result_bind r (\<lambda>ps. Inr (l, ps))) (fetchPolicies env fuel (li_Policies l) []))"

definition fetchLibraryPolicies :: "fetch_env \<Rightarrow> nat \<Rightarrow> (string \<times> v1_library) list \<Rightarrow>
    (migrate_error + (string \<times> v1_library \<times> v1_policy list) list) option" where
  "fetchLibraryPolicies env fuel = fetch_table (fetch_library env fuel)"

subsection \<open>The state\<close>

definition system_ids :: "fetch_env \<Rightarrow> string \<Rightarrow> migrate_error + string list" where
  "system_ids env systemId =
     (if systemId = [] then
        fetch env ''v1/systems'' [(''authz'', ''false''), (''compact'', ''true''), (''datasources'', ''false''), (''errors'', ''false''),
          (''metadata'', ''false''), (''modules'', ''false''), (''policies'', ''false''), (''rule_counts'', ''false'')] (fe_ids env)
      else Inr [systemId])"

definition fetch_systems :: "fetch_env \<Rightarrow> string list \<Rightarrow> migrate_error + v1_system list" where
  "fetch_systems env ids =
     fold_result (\<lambda>i systems. result_bind
       (fetch env (''v1/systems/'' @ i) [(''rule_counts'', ''false''), (''errors'', ''false''), (''authz'', ''false''),
          (''metadata'', ''false''), (''minimum_opa_version'', ''false''), (''stacks'', ''false''), (''migration_history'', ''false''),
          (''tokens'', ''false''), (''info'', ''false'')] (fe_system env)) (\<lambda>s. Inr (systems @ [s]))) ids []"

text \<open>Without library editing, the git data sources of the workspace are the libraries.\<close>

fun legacy_libraries :: "fetch_env \<Rightarrow> nat \<Rightarrow> v1_datasource list \<Rightarrow> (migrate_error + v1_library list) option" where
  "legacy_libraries env fuel [] = Some (Inr [])"
| "legacy_libraries env fuel (d # ds) =
     (if d1_Type d = ''pull'' \<and> d1_Category d = ''git/rego'' \<and> strings_HasPrefix (d1_Id d) ''global/'' then
        (case fetch env (''v1/datasources/'' @ d1_Id d) [] (fe_git env) of
           Inl e \<Rightarrow> Some (Inl e)
         | Inr git \<Rightarrow>
             (case fetchLegacyLibrary env fuel (d1_Id d) git of
                None \<Rightarrow> None
              | Some (Inl e) \<Rightarrow> Some (Inl e)
              | Some (Inr l) \<Rightarrow> map_option (\<lambda>r. result_bind r (\<lambda>ls. Inr (l # ls))) (legacy_libraries env fuel ds)))
      else legacy_libraries env fuel ds)"

definition fetch_libraries :: "fetch_env \<Rightarrow> nat \<Rightarrow> features \<Rightarrow> (migrate_error + v1_library list) option" where
  "fetch_libraries env fuel ft =
     (if ft_LibraryEditingEnabled ft then Some (fetch env ''v1/libraries'' [] (fe_libraries env))
      else case fetch env ''v1/datasources'' [] (fe_datasources env) of
        Inl e \<Rightarrow> Some (Inl e)
      | Inr ds \<Rightarrow> legacy_libraries env fuel ds)"

definition limit_stacks :: "bool \<Rightarrow> v1_system list \<Rightarrow> v1_stack list \<Rightarrow> v1_stack list" where
  "limit_stacks limitStacks systems s =
     (if limitStacks then
        concat (map (\<lambda>t. concat (map (\<lambda>sys. if st_Id t \<in> set (sy_MatchingStacks sys) then [t] else []) systems)) s)
      else s)"

definition by_id :: "('a \<Rightarrow> string) \<Rightarrow> 'a list \<Rightarrow> (string \<times> 'a) list" where
  "by_id ident xs = fold (\<lambda>x. map_put (ident x) x) xs []"

definition fetchDASState :: "fetch_env \<Rightarrow> nat \<Rightarrow> string \<Rightarrow> bool \<Rightarrow> (migrate_error + das_state) option" where
  "fetchDASState env fuel systemId limitStacks =
     (case fetch env ''v1/runtime/features'' [] (fe_features env) of Inl e \<Rightarrow> Some (Inl e) | Inr ft \<Rightarrow>
     (case result_bind (system_ids env systemId) (fetch_systems env) of Inl e \<Rightarrow> Some (Inl e) | Inr systems \<Rightarrow>
     (case fetch_libraries env fuel ft of None \<Rightarrow> None | Some (Inl e) \<Rightarrow> Some (Inl e) | Some (Inr libraries) \<Rightarrow>
     (case fetch env ''v1/stacks'' [] (fe_stacks env) of Inl e \<Rightarrow> Some (Inl e) | Inr s \<Rightarrow>
        let systemsById = by_id sy_Id systems;
            stacksById = by_id st_Id (limit_stacks limitStacks systems s);
            librariesById = by_id li_Id libraries in
     (case fetchSystemPolicies env fuel systemsById of None \<Rightarrow> None | Some (Inl e) \<Rightarrow> Some (Inl e) | Some (Inr sps) \<Rightarrow>
     (case fetchStackPolicies env fuel stacksById of None \<Rightarrow> None | Some (Inl e) \<Rightarrow> Some (Inl e) | Some (Inr tps) \<Rightarrow>
     (case fetchLibraryPolicies env fuel librariesById of None \<Rightarrow> None | Some (Inl e) \<Rightarrow> Some (Inl e) | Some (Inr lps) \<Rightarrow>
       Some (Inr \<lparr>da_SBOM = ft_SBOM ft, da_Systems = systemsById, da_SystemPolicies = sps,
         da_Stacks = stacksById, da_StackPolicies = tps,
         da_Libraries = map (\<lambda>(i, l, ps). (i, l)) lps, da_LibraryPolicies = map (\<lambda>(i, l, ps). (li_Id l, ps)) lps\<rparr>))))))))"

subsection \<open>What the migration can rely on\<close>

lemma fetch_table_keys: "fetch_table f xs = Some (Inr ys) \<Longrightarrow> map fst ys = map fst xs"
  by (induction f xs arbitrary: ys rule: fetch_table.induct)
    (auto simp: result_bind_Inr_iff split: option.splits sum.splits)

lemma by_id_keyed: "keyed ident (by_id ident xs)"
  unfolding by_id_def by (rule keyed_fold_put) (simp add: keyed_def)

lemma fetched_tables:
  assumes "fetchDASState env fuel systemId limitStacks = Some (Inr state)"
  shows "map fst (da_SystemPolicies state) = map fst (da_Systems state)"
    and "map fst (da_StackPolicies state) = map fst (da_Stacks state)"
    and "keyed sy_Id (da_Systems state)" and "keyed st_Id (da_Stacks state)"
  using assms
  by (auto simp: fetchDASState_def Let_def fetchSystemPolicies_def fetchStackPolicies_def by_id_keyed
      split: option.splits sum.splits dest!: fetch_table_keys)

end
