(* ===== verification/Report.thy ===== *)
theory Report
  imports MigrateReady Fetch
begin

text \<open>
  The table at the end of the run of \<open>cmd/migrate/migrate.go\<close>: one row for every system, and one for the stacks and
  libraries that have a file. The lemmas show that the table is always made: no
  system is without both an error and a bundle.
\<close>

subsection \<open>The table\<close>

text \<open>The order of rows that compare as equal is not determined; here it is that of the rows before.\<close>

fun insert_row :: "report_row \<Rightarrow> report_row list \<Rightarrow> report_row list" where
  "insert_row r [] = [r]"
| "insert_row r (x # xs) = (if row_LessThan x r then x # insert_row r xs else r # x # xs)"

definition report_rows :: "(migrate_error \<Rightarrow> string) \<Rightarrow> (string \<Rightarrow> string) \<Rightarrow> das_state \<Rightarrow> 'g run_result \<Rightarrow>
    report_row list option" where
  "report_rows error_text quote state rr =
     (let m = rr_migration rr; root = rr_config rr; sr = rr_split rr;
          systems = map (\<lambda>(i, s). system_row error_text quote m (out_Bundles root) (sr_bundleFiles sr) s) (da_Systems state);
          stacks = concat (map (\<lambda>(i, t). stack_row (rr_removedStacks rr) (out_Stacks root) (mg_hasSecrets m) (sr_stackFiles sr) t)
            (da_Stacks state));
          libraries = concat (map (\<lambda>(i, l). library_row (rr_removedSources rr) (mg_hasSecrets m) (sr_sourceFiles sr) l)
            (da_Libraries state))
      in if None \<in> set systems then None
         else Some (foldr insert_row (map the systems @ stacks @ libraries) []))"

definition successes :: "report_kind \<Rightarrow> report_row list \<Rightarrow> nat" where
  "successes k rows = length (filter (\<lambda>r. row_status r = MigrateStatusSuccess \<and> row_kind r = k) rows)"

subsection \<open>The table is sorted\<close>

definition row_ordered :: "report_row list \<Rightarrow> bool" where
  "row_ordered = sorted_wrt (\<lambda>r t. \<not> row_LessThan t r)"

lemma mset_insert_row [simp]: "mset (insert_row r rows) = {#r#} + mset rows"
  by (induction r rows rule: insert_row.induct) auto

lemma set_insert_row [simp]: "set (insert_row r rows) = insert r (set rows)"
  by (induction r rows rule: insert_row.induct) auto

lemma ordered_insert_row: "row_ordered rows \<Longrightarrow> row_ordered (insert_row r rows)"
proof (induction r rows rule: insert_row.induct)
  case (2 r x xs)
  then show ?case
    by (auto simp: row_ordered_def row_LessThan_key dest: less_trans)
qed (simp add: row_ordered_def)

lemma ordered_rows: "row_ordered (foldr insert_row rows [])"
  by (induction rows) (simp_all add: ordered_insert_row, simp add: row_ordered_def)

lemma mset_rows: "mset (foldr insert_row rows []) = mset rows"
  by (induction rows) simp_all

subsection \<open>Every system has an error or a bundle\<close>

lemma bun_Name_add_pinned [simp]: "bun_Name (add_pinned r b) = bun_Name b"
  by (simp add: add_pinned_def)

lemma bun_Name_set_labels [simp]: "bun_Name (fold (\<lambda>i. set_label (f i) v) ids b) = bun_Name b"
  by (induction ids arbitrary: b) simp_all

lemma pin_origin_name: "pin_origin stacks v1 o1 s = Inr s' \<Longrightarrow> bun_Name (fst s') = bun_Name (fst s)"
  by (auto simp: pin_origin_def Let_def split: prod.splits if_splits option.splits)

lemma pin_deployed_name:
  assumes "pin_deployed env stacks v1 bundle = Inr b"
  shows "bun_Name b = bun_Name bundle"
proof -
  have fold: "bun_Name (fst s') = bun_Name (fst s)" if "fold_result (pin_origin stacks v1) os s = Inr s'" for os s s'
    using that
    by (rule fold_result_invariant [where P = "\<lambda>x. bun_Name (fst x) = bun_Name (fst s)"]) (auto dest: pin_origin_name)
  obtain raw deployed where r: "(case filter (\<lambda>b. b1_Id b = ''policy'') deployed of
         [] \<Rightarrow> Inr bundle
       | b # bs \<Rightarrow>
           result_bind (fold_result (pin_origin stacks v1) (b1_Origins (MaxFunc bs b)) (bundle, []))
             (\<lambda>(bundle, excludeStacks).
                Inr (fold (\<lambda>sid. set_label (''exclude-stack-'' @ sid) ''true'') excludeStacks bundle))) = Inr b"
    using assms unfolding pin_deployed_def result_bind_Inr_iff by blast
  show ?thesis
  proof (cases "filter (\<lambda>b. b1_Id b = ''policy'') deployed")
    case Nil
    with r show ?thesis by simp
  next
    case (Cons c cs)
    with r obtain b' ex where f: "fold_result (pin_origin stacks v1) (b1_Origins (MaxFunc cs c)) (bundle, []) = Inr (b', ex)"
      and b: "b = fold (\<lambda>sid. set_label (''exclude-stack-'' @ sid) ''true'') ex b'"
      by (auto simp: result_bind_Inr_iff)
    from fold [OF f] show ?thesis by (simp only: b bun_Name_set_labels fst_conv)
  qed
qed

lemma system_labels_name: "system_labels env v1 bundle = Inr b \<Longrightarrow> bun_Name b = bun_Name bundle"
  by (auto simp: system_labels_def result_bind_Inr_iff split: if_splits option.splits)

lemma mapped_system_name: "bun_Name (fst (mapV1SystemToBundleSourceAndSecretConfig nf v1)) = System_SanitizedName v1"
  by (auto simp: mapV1SystemToBundleSourceAndSecretConfig_def Let_def zero_bundle_def split: prod.splits option.splits sum.splits)

lemma migrateV1System_name:
  assumes "migrateV1System env sbom stacks nf policies v1 ds = (Inr (b, src, xs), nf')"
  shows "bun_Name b = System_SanitizedName v1"
  using assms mapped_system_name [of nf v1]
  by (auto simp: migrateV1System_def result_bind_Inr_iff Let_def split: prod.splits if_splits
      dest!: pin_deployed_name system_labels_name)

definition accounted :: "'g migration \<Rightarrow> v1_system \<Rightarrow> bool" where
  "accounted m s \<longleftrightarrow> sy_Id s \<in> fst ` set (mg_systemErrors m) \<or> System_SanitizedName s \<in> fst ` set (out_Bundles (mg_out m))"

definition entries :: "'g migration \<Rightarrow> string set \<times> string set" where
  "entries m = (fst ` set (mg_systemErrors m), fst ` set (out_Bundles (mg_out m)))"

lemma keys_update_bundle [simp]: "fst ` set (out_Bundles (update_bundle name f root)) = fst ` set (out_Bundles root)"
  by (force simp: update_bundle_def)

lemma keys_update_bundles [simp]:
  "fst ` set (out_Bundles (fold (\<lambda>n. update_bundle n (f n)) names root)) = fst ` set (out_Bundles root)"
  by (induction names arbitrary: root) simp_all

lemma bundles_put [simp]:
  "out_Bundles (put_source s root) = out_Bundles root" "out_Bundles (put_stack t root) = out_Bundles root"
  "out_Bundles (put_secrets xs root) = out_Bundles root" "out_Bundles (set_source k s root) = out_Bundles root"
  by (simp_all add: put_source_def put_stack_def put_secrets_def set_source_def)

lemma accounted_system: "accounted (migrate_system env state datasources s m) s"
  by (auto simp: migrate_system_def accounted_def note_secrets_def put_bundle_def Let_def dest: migrateV1System_name
      split: prod.splits sum.splits)

lemma accounted_kept: "accounted m s \<Longrightarrow> accounted (migrate_system env state datasources t m) s"
  by (auto simp: migrate_system_def accounted_def note_secrets_def put_bundle_def Let_def split: prod.splits sum.splits)

lemma accounted_systems:
  assumes "(i, s) \<in> set (da_Systems state)"
  shows "accounted (migrateSystems env state datasources m) s"
proof -
  have kept: "accounted m s \<Longrightarrow> accounted (fold (\<lambda>(i, t). migrate_system env state datasources t) xs m) s" for xs m
    by (induction xs arbitrary: m) (auto simp: accounted_kept)
  have "(i, s) \<in> set xs \<Longrightarrow> accounted (fold (\<lambda>(i, t). migrate_system env state datasources t) xs m) s" for xs m
    by (induction xs arbitrary: m) (auto simp: kept accounted_system)
  with assms show ?thesis by (simp add: migrateSystems_def)
qed

lemma migrate_stack_errors: "migrate_stack env state datasources it m = Inr m' \<Longrightarrow> mg_systemErrors m' = mg_systemErrors m"
  by (auto simp: migrate_stack_def result_bind_Inr_iff Let_def note_secrets_def split: prod.splits if_splits)

lemma migrate_stack_entries: "migrate_stack env state datasources it m = Inr m' \<Longrightarrow> entries m' = entries m"
proof -
  assume *: "migrate_stack env state datasources it m = Inr m'"
  obtain i t where it: "it = (i, t)" by (cases it)
  from * [unfolded it] have "fst ` set (out_Bundles (mg_out m')) = fst ` set (out_Bundles (mg_out m))"
    by (rule migrate_stack_cases) simp
  with migrate_stack_errors [OF *] show ?thesis by (simp add: entries_def)
qed

lemma dependencies_bundles:
  "system_dependencies env state index ip root = Inr root' \<Longrightarrow> out_Bundles root' = out_Bundles root"
  "stack_dependencies env state index ip root = Inr root' \<Longrightarrow> out_Bundles root' = out_Bundles root"
  "library_dependencies env index ip root = Inr root' \<Longrightarrow> out_Bundles root' = out_Bundles root"
proof -
  obtain i policies where ip: "ip = (i, policies)" by (cases ip)
  show "system_dependencies env state index ip root = Inr root' \<Longrightarrow> out_Bundles root' = out_Bundles root"
    by (auto simp: system_dependencies_def ip result_bind_Inr_iff split: option.splits)
  show "stack_dependencies env state index ip root = Inr root' \<Longrightarrow> out_Bundles root' = out_Bundles root"
    by (cases "map_of (da_Stacks state) i"; cases "map_of (out_Sources root) (Stack_SanitizedName (the (map_of (da_Stacks state) i)))")
      (auto simp: stack_dependencies_def ip result_bind_Inr_iff)
  show "library_dependencies env index ip root = Inr root' \<Longrightarrow> out_Bundles root' = out_Bundles root"
    by (cases "map_of (out_Sources root) i") (auto simp: library_dependencies_def ip result_bind_Inr_iff)
qed

lemma migrateDependencies_bundles:
  assumes "migrateDependencies env state index root = Inr root'"
  shows "out_Bundles root' = out_Bundles root"
proof -
  from assms obtain r1 r2 where
    "fold_result (system_dependencies env state index) (da_SystemPolicies state) root = Inr r1"
    "fold_result (stack_dependencies env state index) (da_StackPolicies state) r1 = Inr r2"
    "fold_result (library_dependencies env index) (da_LibraryPolicies state) r2 = Inr root'"
    by (auto simp: migrateDependencies_def result_bind_Inr_iff)
  note rs = this
  have keep: "out_Bundles b = out_Bundles a" if "fold_result f xs a = Inr b"
    and "\<And>x r r'. f x r = Inr r' \<Longrightarrow> out_Bundles r' = out_Bundles r" for f :: "'x \<Rightarrow> 'g migrated \<Rightarrow> migrate_error + 'g migrated" and xs a b
    using that(1) by (rule fold_result_invariant [where P = "\<lambda>r. out_Bundles r = out_Bundles a"]) (auto dest: that(2))
  have "out_Bundles root' = out_Bundles r2" by (rule keep [OF rs(3)]) (rule dependencies_bundles(3))
  also have "\<dots> = out_Bundles r1" by (rule keep [OF rs(2)]) (rule dependencies_bundles(2))
  also have "\<dots> = out_Bundles root" by (rule keep [OF rs(1)]) (rule dependencies_bundles(1))
  finally show ?thesis .
qed

lemma migrate_all_accounted:
  assumes "migrate_all env state datasources md = Inr m" and "(i, s) \<in> set (da_Systems state)"
  shows "accounted m s"
proof -
  from assms(1) obtain a b root where b: "fold_result (migrate_stack env state datasources) (da_Stacks state)
      (migrateSystems env state datasources a) = Inr b"
    and root: "migrateDependencies env state (mg_index b) (mg_out b) = Inr root" and m: "m = b\<lparr>mg_out := root\<rparr>"
    by (auto simp: migrate_all_def result_bind_Inr_iff migrateStacks_def)
  from b have "entries b = entries (migrateSystems env state datasources a)"
    by (rule fold_result_invariant [where P = "\<lambda>x. entries x = entries (migrateSystems env state datasources a)"])
      (auto dest: migrate_stack_entries)
  with accounted_systems [OF assms(2), of env datasources a] migrateDependencies_bundles [OF root] show ?thesis
    by (simp add: accounted_def entries_def m)
qed

subsection \<open>The table is made\<close>

lemma keys_set_storage [simp]: "fst ` set (out_Bundles (set_storage f root)) = fst ` set (out_Bundles root)"
  by (force simp: set_storage_def)

lemma object_storage_bundles:
  "object_storage ro root = Some root' \<Longrightarrow> fst ` set (out_Bundles root') = fst ` set (out_Bundles root)"
  by (simp only: object_storage_def Let_def option.inject split: if_splits)
    ((elim subst, simp only: bundles_put keys_set_storage if_distrib [of out_Bundles] if_cancel)+, simp)

lemma pruneConfig_bundles:
  "pruneConfig gmatch doPrune root = (ts, ss, xs, root') \<Longrightarrow> out_Bundles root' = out_Bundles root"
  by (auto simp: pruneConfig_def Let_def split: prod.splits)

lemma place_files_bundles: "place_files walk ro root = Inr (files, root') \<Longrightarrow> out_Bundles root' = out_Bundles root"
  by (auto simp: place_files_def result_bind_Inr_iff)

lemma run_wrap_Inr [simp]: "run_wrap f r = Inr x \<longleftrightarrow> r = Inr x"
  by (cases r) (simp_all add: run_wrap_def)

lemma run_keeps_bundles:
  assumes "Run_migration gmatch env before after state ro relDir md = Inr rr"
  shows "migrate_all env state (ro_Datasources ro) md = Inr (rr_migration rr) \<and>
    fst ` set (out_Bundles (rr_config rr)) = fst ` set (out_Bundles (mg_out (rr_migration rr)))"
proof -
  from assms obtain m where m: "migrate_all env state (ro_Datasources ro) md = Inr m"
    by (auto simp: Run_migration_def result_bind_Inr_iff)
  obtain ts ss xs root where p: "pruneConfig gmatch (ro_Prune ro) (mg_out m) = (ts, ss, xs, root)"
    by (metis prod_cases4)
  from assms m p obtain files root' where f: "place_files before ro root = Inr (files, root')"
    by (auto simp: Run_migration_def result_bind_Inr_iff)
  from assms m p f obtain root'' where o: "object_storage ro root' = Some root''"
    by (cases "object_storage ro root'") (simp_all add: Run_migration_def run_wrap_def)
  from assms m p f o have "rr_migration rr = m" "rr_config rr = root''"
    by (auto simp: Run_migration_def result_bind_Inr_iff)
  with m object_storage_bundles [OF o] place_files_bundles [OF f] pruneConfig_bundles [OF p] show ?thesis by simp
qed

text \<open>The row of a system.\<close>

lemma system_row_made:
  assumes "sy_Id s \<in> fst ` set (mg_systemErrors m) \<or> System_SanitizedName s \<in> fst ` set bundles"
  shows "\<exists>r. system_row error_text quote m bundles files s = Some r \<and> row_kind r = KindSystem \<and> row_name r = sy_Name s \<and>
    (row_status r = MigrateStatusError \<longleftrightarrow> sy_Id s \<in> fst ` set (mg_systemErrors m))"
proof (cases "map_of (mg_systemErrors m) (sy_Id s)")
  case None
  then have "sy_Id s \<notin> fst ` set (mg_systemErrors m)" by (simp add: map_of_eq_None_iff)
  with assms obtain b where "map_of bundles (System_SanitizedName s) = Some b"
    by (metis map_of_eq_None_iff option.exhaust)
  with None \<open>sy_Id s \<notin> _\<close> show ?thesis
    by (simp add: system_row_def Let_def review_def)
next
  case (Some e)
  then have "sy_Id s \<in> fst ` set (mg_systemErrors m)" by (metis map_of_eq_None_iff option.distinct(1))
  with Some show ?thesis by (simp add: system_row_def)
qed

lemma review_error [simp]: "review msgs \<noteq> MigrateStatusError"
  by (simp add: review_def)

lemma stack_row_kind: "r \<in> set (stack_row ts stacks hs files t) \<Longrightarrow> row_kind r = KindStack \<and> row_status r \<noteq> MigrateStatusError"
  by (auto simp: stack_row_def Let_def split: option.splits)

lemma library_row_kind: "r \<in> set (library_row ss hs files l) \<Longrightarrow> row_kind r = KindLibrary \<and> row_status r \<noteq> MigrateStatusError"
  by (auto simp: library_row_def Let_def split: option.splits)

lemma filter_none: "(\<And>x. x \<in> set xs \<Longrightarrow> \<not> P x) \<Longrightarrow> filter P xs = []"
  by (simp add: filter_empty_conv)

lemma filter_map_iff: "(\<And>x. x \<in> set xs \<Longrightarrow> P (f x) = Q x) \<Longrightarrow> filter P (map f xs) = map f (filter Q xs)"
  by (induction xs) auto

text \<open>
  C18: The report of a run is always made, whatever the state is. It is in order, has exactly one row for
  every system, by its name, and the rows with an error are as many as the systems that could not be migrated.
\<close>
theorem report_made:
  assumes "Run_migration gmatch env before after state ro relDir md = Inr rr"
  shows "\<exists>rows. report_rows error_text quote state rr = Some rows \<and> row_ordered rows \<and>
    image_mset row_name {#r \<in># mset rows. row_kind r = KindSystem#} = mset (map (sy_Name \<circ> snd) (da_Systems state)) \<and>
    size {#r \<in># mset rows. row_status r = MigrateStatusError#} =
      length (filter (\<lambda>(i, s). sy_Id s \<in> fst ` set (mg_systemErrors (rr_migration rr))) (da_Systems state))"
proof -
  let ?m = "rr_migration rr" and ?root = "rr_config rr" and ?sr = "rr_split rr" and ?ss = "da_Systems state"
  define f where "f = (\<lambda>(i :: string, s). system_row error_text quote ?m (out_Bundles ?root) (sr_bundleFiles ?sr) s)"
  define others where "others = concat (map (\<lambda>(i, t). stack_row (rr_removedStacks rr) (out_Stacks ?root) (mg_hasSecrets ?m)
      (sr_stackFiles ?sr) t) (da_Stacks state)) @
    concat (map (\<lambda>(i, l). library_row (rr_removedSources rr) (mg_hasSecrets ?m) (sr_sourceFiles ?sr) l) (da_Libraries state))"
  from run_keeps_bundles [OF assms] have made: "\<exists>r. f (i, s) = Some r \<and> row_kind r = KindSystem \<and> row_name r = sy_Name s \<and>
      (row_status r = MigrateStatusError \<longleftrightarrow> sy_Id s \<in> fst ` set (mg_systemErrors ?m))" if "(i, s) \<in> set ?ss" for i s
    using migrate_all_accounted [of env state _ md ?m i s] that unfolding f_def accounted_def
    by (auto intro!: system_row_made)
  then have "None \<notin> f ` set ?ss" by fastforce
  then have rows: "report_rows error_text quote state rr = Some (foldr insert_row (map (\<lambda>x. the (f x)) ?ss @ others) [])"
    unfolding report_rows_def Let_def f_def [symmetric] others_def by (simp add: comp_def)
  have sys: "row_kind (the (f x)) = KindSystem" "row_name (the (f x)) = (sy_Name \<circ> snd) x"
    "row_status (the (f x)) = MigrateStatusError \<longleftrightarrow> (\<lambda>(i, s). sy_Id s \<in> fst ` set (mg_systemErrors ?m)) x"
    if "x \<in> set ?ss" for x
    using made [of "fst x" "snd x"] that by (force simp: case_prod_beta)+
  have other: "row_kind r \<noteq> KindSystem \<and> row_status r \<noteq> MigrateStatusError" if "r \<in> set others" for r
    using that by (auto simp: others_def dest!: stack_row_kind library_row_kind)
  have "filter (\<lambda>r. row_kind r = KindSystem) (map (\<lambda>x. the (f x)) ?ss @ others) = map (\<lambda>x. the (f x)) ?ss"
    using sys(1) other by (simp add: filter_none filter_map_iff [where Q = "\<lambda>x. True"])
  moreover have "map row_name (map (\<lambda>x. the (f x)) ?ss) = map (sy_Name \<circ> snd) ?ss"
    using sys(2) by simp
  ultimately have names: "image_mset row_name (mset (filter (\<lambda>r. row_kind r = KindSystem) (map (\<lambda>x. the (f x)) ?ss @ others))) =
      mset (map (sy_Name \<circ> snd) ?ss)"
    by (metis mset_map)
  have errors: "filter (\<lambda>r. row_status r = MigrateStatusError) (map (\<lambda>x. the (f x)) ?ss @ others) =
      map (\<lambda>x. the (f x)) (filter (\<lambda>(i, s). sy_Id s \<in> fst ` set (mg_systemErrors ?m)) ?ss)"
  proof -
    have "filter (\<lambda>r. row_status r = MigrateStatusError) (map (\<lambda>x. the (f x)) ?ss) =
        map (\<lambda>x. the (f x)) (filter (\<lambda>(i, s). sy_Id s \<in> fst ` set (mg_systemErrors ?m)) ?ss)"
      by (rule filter_map_iff) (rule sys(3))
    then show ?thesis using other by (simp only: filter_append filter_none [of others] append_Nil2 simp_thms)
  qed
  show ?thesis
    by (rule exI [of _ "foldr insert_row (map (\<lambda>x. the (f x)) ?ss @ others) []"])
      (simp only: rows ordered_rows mset_rows simp_thms mset_filter [symmetric] names errors size_mset length_map)
qed

subsection \<open>An example\<close>

text \<open>A system whose labels cannot be fetched.\<close>

definition offline_das :: das_state where
  "offline_das = example_das\<lparr>da_Libraries := []\<rparr>"

definition offline_options :: run_options where
  "offline_options = \<lparr>ro_Prune = False, ro_Datasources = False, ro_FilesPath = [], ro_EmbedFiles = True, ro_ObjectStorage = [],
     ro_FilesystemRootDir = [], ro_S3BucketName = [], ro_S3BucketRegion = []\<rparr>"

definition no_walk :: dir_walk where
  "no_walk dir pats = Inr []"

lemma place_sources_embedded:
  assumes "list_all (\<lambda>(k, s). src_Paths s = []) xs" and "ro_EmbedFiles ro"
  shows "\<exists>files'. fold_result (place_source walk ro) xs (files, done) = Inr (files', done @ xs)"
  using assms(1)
proof (induction xs arbitrary: files "done")
  case (Cons x xs)
  obtain k s where x: "x = (k, s)" by (cases x)
  have keep: "\<exists>fs. fold (\<lambda>(path, content) (files, src). (fmupd (file_target src path) content files,
        if \<not> ro_EmbedFiles ro \<and> ro_FilesPath ro \<noteq> [] then
          SetPath path (SetDirectory (path_Join [ro_FilesPath ro, ''sources'', src_Name src]) src) else src)) ys (files, s) = (fs, s)" for ys
    using assms(2) by (induction ys arbitrary: files) auto
  from Cons.prems obtain fs where "place_source walk ro x (files, done) = Inr (fs, done @ [x])"
    using keep [of "sorted_list_of_fmap (gomap (src_EmbeddedFiles s))"] assms(2)
    by (auto simp: x place_source_def Source_Files_def Let_def)
  with Cons.IH [of fs "done @ [x]"] Cons.prems show ?case by simp
qed simp

lemma strip_sources_made:
  assumes "list_all (\<lambda>(k, s). src_Paths s = []) xs"
  shows "\<exists>acc'. fold_result (strip_source walk) xs acc = Inr acc'"
  using assms
proof (induction xs arbitrary: acc)
  case (Cons x xs)
  obtain k s where x: "x = (k, s)" by (cases x)
  obtain a b where acc: "acc = (a, b)" by (cases acc)
  from Cons.prems obtain acc' where "strip_source walk x acc = Inr acc'"
    by (cases "gomap (src_EmbeddedFiles s) = fmempty") (auto simp: x acc strip_source_def Source_Files_def Let_def)
  with Cons.IH [of acc'] Cons.prems show ?case by simp
qed simp

lemma prune_loop_kept: "prune_loop False name found todo m removed = (m', removed') \<Longrightarrow> m' = m"
  by (induction todo arbitrary: removed) (auto split: if_splits)

lemma pruneConfig_kept: "\<exists>ts ss xs. pruneConfig gmatch False root = (ts, ss, xs, root)"
  by (auto simp: pruneConfig_def Let_def split: prod.splits dest!: prune_loop_kept)

lemma type_libraries_embedded: "list_all (\<lambda>s. src_Paths s = []) typeLibraries"
  by code_simp

lemma list_all_map_put: "list_all P m \<Longrightarrow> P (k, v) \<Longrightarrow> list_all P (map_put k v m)"
  by (induction k v m rule: map_put.induct) auto

lemma put_sources_embedded:
  "list_all (\<lambda>s. src_Paths s = []) ss \<Longrightarrow> list_all (\<lambda>(k, s). src_Paths s = []) (out_Sources root) \<Longrightarrow>
   list_all (\<lambda>(k, s). src_Paths s = []) (out_Sources (fold put_source ss root))"
proof (induction ss arbitrary: root)
  case (Cons s ss)
  have "list_all (\<lambda>(k, s). src_Paths s = []) (out_Sources (put_source s root))"
    using Cons.prems by (simp add: put_source_def list_all_map_put)
  with Cons show ?case by simp
qed simp

lemma put_sources_others:
  "out_Stacks (fold put_source ss root) = out_Stacks root" "out_Bundles (fold put_source ss root) = out_Bundles root"
  by (induction ss arbitrary: root) (simp_all add: put_source_def)

lemma offline_migrated:
  "\<exists>m. migrate_all example_menv offline_das False no_metadata = Inr m \<and> out_Bundles (mg_out m) = [] \<and> out_Stacks (mg_out m) = [] \<and>
     list_all (\<lambda>(k, s). src_Paths s = []) (out_Sources (mg_out m))"
proof -
  have json: "me_json example_menv path = Inl (Transport ''offline'')" for path by (simp add: example_menv_def)
  have lib: "getSystemTypeLib ''custom'' = None" by code_simp
  have failed: "\<exists>e. fst (migrateV1System example_menv sbom stacks nf [] s False) = Inl e"
    if "sy_Origin s = None" "sy_Type s = ''custom''" for sbom stacks nf s
    using that by (simp add: migrateV1System_def getSystemGitRoots_def migrateV1Policies_def policy_requirements_def lib
        system_labels_def json das_def split: prod.splits)
  have das: "da_Libraries offline_das = []" "da_Stacks offline_das = []" "da_SystemPolicies offline_das = []"
    "da_StackPolicies offline_das = []" "da_LibraryPolicies offline_das = []"
    by (simp_all add: offline_das_def example_das_def)
  obtain s where s: "da_Systems offline_das = [(''7'', s)]" "sy_Origin s = None" "sy_Type s = ''custom''"
    by (simp add: offline_das_def example_das_def)
  have system: "mg_out (migrate_system example_menv offline_das False s m) = mg_out m" for m
  proof -
    obtain r nf where r: "migrateV1System example_menv (da_SBOM offline_das) (da_Stacks offline_das) (mg_names m) [] s False = (r, nf)"
      by fastforce
    with failed [OF s(2,3)] obtain e where "r = Inl e" by (metis fst_conv)
    with r show ?thesis by (simp add: migrate_system_def policies_of_def das)
  qed
  show ?thesis
    using put_sources_embedded [OF type_libraries_embedded, of "empty_output no_metadata"]
    by (simp add: migrate_all_def migrateLibraries_def migrateStacks_def migrateDependencies_def migrateSystems_def das s
        system put_sources_others empty_output_def)
qed

theorem report_made_witness:
  "\<exists>rr rows. Run_migration (=) example_menv no_walk no_walk offline_das offline_options [] no_metadata = Inr rr \<and>
     report_rows (\<lambda>e. ''failed'') (\<lambda>l. l) offline_das rr = Some rows \<and> row_ordered rows \<and>
     image_mset row_name {#r \<in># mset rows. row_kind r = KindSystem#} = {#''Alpha''#}"
proof -
  obtain m where m: "migrate_all example_menv offline_das False no_metadata = Inr m" "out_Bundles (mg_out m) = []"
      "out_Stacks (mg_out m) = []" "list_all (\<lambda>(k, s). src_Paths s = []) (out_Sources (mg_out m))"
    using offline_migrated by blast
  obtain ts ss xs where p: "pruneConfig (=) False (mg_out m) = (ts, ss, xs, mg_out m)" using pruneConfig_kept by blast
  obtain files where f: "place_files no_walk offline_options (mg_out m) = Inr (files, mg_out m)"
    using place_sources_embedded [OF m(4), of offline_options no_walk fmempty "[]"]
    by (auto simp: place_files_def offline_options_def)
  obtain acc where "fold_result (strip_source no_walk) (out_Sources (mg_out m)) ([], []) = Inr acc"
    using strip_sources_made [OF m(4)] by blast
  with m(2,3) have "\<exists>sr. splitConfig no_walk [] (mg_out m) = Inr sr"
    by (cases acc) (simp add: splitConfig_def Let_def)
  with m(1) p f have "\<exists>rr. Run_migration (=) example_menv no_walk no_walk offline_das offline_options [] no_metadata = Inr rr"
    by (auto simp: Run_migration_def offline_options_def object_storage_def run_wrap_def)
  then obtain rr where rr: "Run_migration (=) example_menv no_walk no_walk offline_das offline_options [] no_metadata = Inr rr" ..
  from report_made [OF rr, of "\<lambda>e. ''failed''" "\<lambda>l. l"] rr show ?thesis
    by (auto simp: offline_das_def example_das_def)
qed

end
