(* ===== verification/ObjectStores.thy ===== *)
theory ObjectStores
  imports DataSync
begin

text \<open>
  The stores bundles are uploaded to, \<open>internal/s3/s3.go\<close>: Amazon S3, Google Cloud Storage, Azure and the file
  system, as created from a configuration, with uploads and downloads. The SDKs and the hash are
  parameters: which clients can be made and which requests fail. The stored objects are a map, from
  where they are to what is there.
\<close>

subsection \<open>Stores\<close>

datatype gcp_client = GCPDefault | GCPAPIKey string | GCPServiceAccount string

datatype azure_client = AzureDefault string | AzureSharedKey string string string

text \<open>The client of Google Cloud Storage is nil if the secret has neither a key nor credentials.\<close>

datatype object_store =
    AmazonS3Store string string s3_client
  | GCPStore string string string "gcp_client option"
  | AzureStore string string azure_client
  | FileSystemStore string string            \<comment> \<open>the path, and the digest of the last file written\<close>

datatype store_error =
    UnsupportedProvider
  | LoadConfigFailed string
  | BadSecret secret_error
  | InvalidSecretType string
  | ClientFailed string
  | RequestFailed string
  | NotImplemented
  | CannotWrite string
  | NilClient

datatype place = S3Place "string option" string string | GCPPlace string string | AzurePlace azure_client string string | FilePlace string

record store_object =
  ob_body :: string
  ob_metadata :: "(string, string) fmap"

type_synonym cloud = "(place, store_object) fmap"

text \<open>
  What fails: making a client, the question for the metadata of an object, an upload. Writing a file can fail before
  it is created, or after a part has been written.
\<close>

record 'cert store_env =
  sv_secrets :: "'cert secret_env"
  sv_sha256 :: "string \<Rightarrow> string"
  sv_LoadConfig :: "aws_options \<Rightarrow> string option"
  sv_NewGCP :: "gcp_client \<Rightarrow> string option"
  sv_NewAzure :: "azure_client \<Rightarrow> string option"
  sv_Head :: "place \<Rightarrow> string option"
  sv_Put :: "place \<Rightarrow> string option"
  sv_Get :: "place \<Rightarrow> string option"
  sv_Create :: "string \<Rightarrow> string option"
  sv_Copy :: "string \<Rightarrow> string \<Rightarrow> (string \<times> string) option"   \<comment> \<open>the error, and what was written\<close>

definition store_resolve :: "'cert store_env \<Rightarrow> secretref \<Rightarrow> store_error + typed" where
  "store_resolve env ref =
     (case SecretRef_Resolve (se_getenv (sv_secrets env)) (se_decoder (sv_secrets env)) ref of
        Inl e \<Rightarrow> Inl (BadSecret e)
      | Inr t \<Rightarrow> Inr t)"

definition failing_with :: "('e \<Rightarrow> store_error) \<Rightarrow> 'e option \<Rightarrow> 'a \<Rightarrow> store_error + 'a" where
  "failing_with f e x = (case e of Some e \<Rightarrow> Inl (f e) | None \<Rightarrow> Inr x)"

definition new_amazon :: "'cert store_env \<Rightarrow> amazons3 \<Rightarrow> store_error + object_store" where
  "new_amazon env c =
     (let o1 = aws_Config (s3_Region c) (s3_Credentials c) in
      failing_with LoadConfigFailed (sv_LoadConfig env o1)
        (AmazonS3Store (s3_Bucket c) (s3_Key c) \<lparr>sc_Options = o1,
           sc_BaseEndpoint = (if s3_URL c \<noteq> [] then Some (s3_URL c) else None), sc_UsePathStyle = (s3_URL c \<noteq> [])\<rparr>))"

definition new_gcp :: "'cert store_env \<Rightarrow> gcpstorage \<Rightarrow> store_error + object_store" where
  "new_gcp env c =
     result_bind
       (case gcp_Credentials c of
          None \<Rightarrow> failing_with ClientFailed (sv_NewGCP env GCPDefault) (Some GCPDefault)
        | Some ref \<Rightarrow> result_bind (store_resolve env ref) (\<lambda>t. case t of
            GCP a \<Rightarrow>
              (if gcp_APIKey a \<noteq> [] then
                 failing_with ClientFailed (sv_NewGCP env (GCPAPIKey (gcp_APIKey a))) (Some (GCPAPIKey (gcp_APIKey a)))
               else if gcp_CredentialsJSON a \<noteq> [] then
                 failing_with ClientFailed (sv_NewGCP env (GCPServiceAccount (gcp_CredentialsJSON a)))
                   (Some (GCPServiceAccount (gcp_CredentialsJSON a)))
               else Inr None)
          | _ \<Rightarrow> Inl (InvalidSecretType ''GCP'')))
       (\<lambda>client. Inr (GCPStore (gcp_Project c) (gcp_Bucket c) (gcp_Object c) client))"

definition new_azure :: "'cert store_env \<Rightarrow> azurestorage \<Rightarrow> store_error + object_store" where
  "new_azure env c =
     result_bind
       (case az_Credentials c of
          None \<Rightarrow> Inr (AzureDefault (az_AccountURL c))
        | Some ref \<Rightarrow> result_bind (store_resolve env ref) (\<lambda>t. case t of
            Azure a \<Rightarrow> Inr (AzureSharedKey (az_AccountURL c) (azure_AccountName a) (azure_AccountKey a))
          | _ \<Rightarrow> Inl (InvalidSecretType ''Azure'')))
       (\<lambda>client. failing_with ClientFailed (sv_NewAzure env client) (AzureStore (az_Container c) (az_Path c) client))"

text \<open>\<open>New\<close>: the first storage that is configured, in this order.\<close>

definition store_New :: "'cert store_env \<Rightarrow> objectstorage \<Rightarrow> store_error + object_store" where
  "store_New env c =
     (case os_AmazonS3 c of
        Some a \<Rightarrow> new_amazon env a
      | None \<Rightarrow> (case os_GCPCloudStorage c of
          Some g \<Rightarrow> new_gcp env g
        | None \<Rightarrow> (case os_AzureBlobStorage c of
            Some z \<Rightarrow> new_azure env z
          | None \<Rightarrow> (case os_FileSystemStorage c of
              Some f \<Rightarrow> Inr (FileSystemStore (fs_Path f) [])
            | None \<Rightarrow> Inl UnsupportedProvider))))"

subsection \<open>Uploads and downloads\<close>

definition place_of :: "object_store \<Rightarrow> place" where
  "place_of st =
     (case st of
        AmazonS3Store bucket key c \<Rightarrow> S3Place (sc_BaseEndpoint c) bucket key
      | GCPStore project bucket object c \<Rightarrow> GCPPlace bucket object
      | AzureStore cont path c \<Rightarrow> AzurePlace c cont path
      | FileSystemStore path digest \<Rightarrow> FilePlace path)"

definition revision_metadata :: "string \<Rightarrow> (string, string) fmap \<Rightarrow> (string, string) fmap" where
  "revision_metadata revision m = (if revision \<noteq> [] then fmupd ''revision'' revision m else m)"

text \<open>The check of a bundle against the metadata of the object that is there: whether it has the same digest.\<close>

definition s3_check :: "'cert store_env \<Rightarrow> place \<Rightarrow> string \<Rightarrow> cloud \<Rightarrow> store_error + string \<times> bool" where
  "s3_check env p body cloud =
     (let digest = sv_sha256 env body in
      case sv_Head env p of
        Some e \<Rightarrow> Inl (RequestFailed e)
      | None \<Rightarrow>
          (case fmlookup cloud p of
             None \<Rightarrow> Inr (digest, False)
           | Some ob \<Rightarrow>
               Inr (digest, (case fmlookup (ob_metadata ob) ''sha256'' of None \<Rightarrow> [] | Some h \<Rightarrow> h) = hex_EncodeToString digest)))"

definition fs_check :: "'cert store_env \<Rightarrow> string \<Rightarrow> string \<Rightarrow> string \<times> bool" where
  "fs_check env digest0 body = (let digest = sv_sha256 env body in (digest, digest = digest0))"

definition put_object :: "'cert store_env \<Rightarrow> object_store \<Rightarrow> string \<Rightarrow> (string, string) fmap \<Rightarrow> cloud \<Rightarrow>
    store_error option \<times> object_store \<times> cloud" where
  "put_object env st body metadata cloud =
     (case sv_Put env (place_of st) of
        Some e \<Rightarrow> (Some (RequestFailed e), st, cloud)
      | None \<Rightarrow> (None, st, fmupd (place_of st) \<lparr>ob_body = body, ob_metadata = metadata\<rparr> cloud))"

definition upload_file :: "'cert store_env \<Rightarrow> string \<Rightarrow> string \<Rightarrow> string \<Rightarrow> cloud \<Rightarrow> store_error option \<times> object_store \<times> cloud" where
  "upload_file env path digest0 body cloud =
     (let st = FileSystemStore path digest0; (digest, equal) = fs_check env digest0 body in
      if equal then (None, st, cloud)
      else case sv_Create env path of
        Some e \<Rightarrow> (Some (CannotWrite e), st, cloud)
      | None \<Rightarrow>
          (case sv_Copy env path body of
             Some (e, part) \<Rightarrow>
               (Some (CannotWrite e), st, fmupd (FilePlace path) \<lparr>ob_body = part, ob_metadata = fmempty\<rparr> cloud)
           | None \<Rightarrow>
               (None, FileSystemStore path digest, fmupd (FilePlace path) \<lparr>ob_body = body, ob_metadata = fmempty\<rparr> cloud)))"

text \<open>The body is in memory, so that reading it and going back to its start do not fail.\<close>

definition store_Upload :: "'cert store_env \<Rightarrow> object_store \<Rightarrow> string \<Rightarrow> string \<Rightarrow> cloud \<Rightarrow>
    store_error option \<times> object_store \<times> cloud" where
  "store_Upload env st body revision cloud =
     (case st of
        AmazonS3Store bucket key c \<Rightarrow>
          (case s3_check env (place_of st) body cloud of
             Inl e \<Rightarrow> (Some e, st, cloud)
           | Inr (digest, equal) \<Rightarrow>
               if equal then (None, st, cloud)
               else put_object env st body
                 (revision_metadata revision (fmupd ''sha256'' (hex_EncodeToString digest) fmempty)) cloud)
      | GCPStore project bucket object c \<Rightarrow>
          (if c = None then (Some NilClient, st, cloud)
           else put_object env st body (revision_metadata revision fmempty) cloud)
      | AzureStore cont path c \<Rightarrow> put_object env st body (revision_metadata revision fmempty) cloud
      | FileSystemStore path digest \<Rightarrow> upload_file env path digest body cloud)"

definition store_Download :: "'cert store_env \<Rightarrow> object_store \<Rightarrow> cloud \<Rightarrow> store_error + string" where
  "store_Download env st cloud =
     (let get = (\<lambda>p. case sv_Get env p of
          Some e \<Rightarrow> Inl (RequestFailed e)
        | None \<Rightarrow> (case fmlookup cloud p of None \<Rightarrow> Inl (RequestFailed ''not found'') | Some ob \<Rightarrow> Inr (ob_body ob))) in
      case st of
        AmazonS3Store bucket key c \<Rightarrow> get (place_of st)
      | FileSystemStore path digest \<Rightarrow> get (place_of st)
      | _ \<Rightarrow> Inl NotImplemented)"

subsection \<open>What is stored\<close>

text \<open>The record of what is stored agrees with what is stored: the digest in the metadata of an object, and the digest
  that the store of a file keeps.\<close>

definition honest :: "'cert store_env \<Rightarrow> object_store \<Rightarrow> cloud \<Rightarrow> bool" where
  "honest env st cloud \<longleftrightarrow>
     (case st of
        AmazonS3Store bucket key c \<Rightarrow>
          (\<forall>ob h. fmlookup cloud (place_of st) = Some ob \<longrightarrow> fmlookup (ob_metadata ob) ''sha256'' = Some h \<longrightarrow>
             h = hex_EncodeToString (sv_sha256 env (ob_body ob)))
      | FileSystemStore path digest \<Rightarrow>
          digest = [] \<or> (\<exists>ob. fmlookup cloud (place_of st) = Some ob \<and> digest = sv_sha256 env (ob_body ob))
      | _ \<Rightarrow> True)"

lemma hex_digit_inj: "a < 16 \<Longrightarrow> b < 16 \<Longrightarrow> hex_digit a = hex_digit b \<Longrightarrow> a = b"
proof -
  have "distinct ''0123456789abcdef''" by code_simp
  then show "a < 16 \<Longrightarrow> b < 16 \<Longrightarrow> hex_digit a = hex_digit b \<Longrightarrow> a = b"
    by (simp add: hex_digit_def nth_eq_iff_index_eq del: distinct.simps)
qed

lemma byte_digits: "hex_digit (byte a div 16) = hex_digit (byte b div 16) \<Longrightarrow>
  hex_digit (byte a mod 16) = hex_digit (byte b mod 16) \<Longrightarrow> a = b"
proof -
  assume h: "hex_digit (byte a div 16) = hex_digit (byte b div 16)" "hex_digit (byte a mod 16) = hex_digit (byte b mod 16)"
  have bound: "byte c div 16 < 16" "byte c mod 16 < 16" for c
  proof -
    have "byte c < 16 * 16" by (simp add: byte_def)
    then show "byte c div 16 < 16" "byte c mod 16 < 16" by simp_all
  qed
  have "byte a div 16 = byte b div 16" "byte a mod 16 = byte b mod 16"
    using h bound by (blast intro: hex_digit_inj)+
  then have "byte a = byte b" by (metis div_mult_mod_eq)
  then show "a = b" by (simp add: byte_def)
qed

lemma hex_Cons: "hex_EncodeToString (c # s) = hex_digit (byte c div 16) # hex_digit (byte c mod 16) # hex_EncodeToString s"
  by (simp add: hex_EncodeToString_def)

lemma hex_Nil: "hex_EncodeToString [] = []"
  by (simp add: hex_EncodeToString_def)

lemma hex_inj: "hex_EncodeToString s = hex_EncodeToString t \<longleftrightarrow> s = t"
proof
  show "hex_EncodeToString s = hex_EncodeToString t \<Longrightarrow> s = t"
  proof (induction s arbitrary: t)
    case Nil
    then show ?case by (cases t) (simp_all only: hex_Nil hex_Cons list.distinct)
  next
    case (Cons c s)
    then obtain d t' where t: "t = d # t'" by (cases t) (simp_all only: hex_Nil hex_Cons list.distinct)
    from Cons.prems have "hex_digit (byte c div 16) = hex_digit (byte d div 16) \<and>
        hex_digit (byte c mod 16) = hex_digit (byte d mod 16) \<and> hex_EncodeToString s = hex_EncodeToString t'"
      by (simp only: t hex_Cons list.inject)
    then have "c = d" "s = t'" using byte_digits Cons.IH by blast+
    then show ?case using t by simp
  qed
qed simp


text \<open>
  A file that could not be written completely stays damaged if the bundle goes back to what it was before: the store remembers
  the digest of the last complete file, takes the old bundle for written and reports success. And a new revision of
  a bundle with the same contents is not recorded in Amazon S3, where the object keeps the old one.
\<close>
theorem upload_skipped:
  assumes "sv_Create env path = None" and "sv_Copy env path old = None" and "sv_Copy env path body = Some (e, part)"
    and "sv_sha256 env old \<noteq> digest" and "sv_sha256 env old \<noteq> sv_sha256 env body"
    and "sv_Head env (S3Place endpoint bucket key) = None"
    and "fmlookup objects (S3Place endpoint bucket key) = Some \<lparr>ob_body = old, ob_metadata =
      revision_metadata r1 (fmupd ''sha256'' (hex_EncodeToString (sv_sha256 env old)) fmempty)\<rparr>"
  shows "(let (e1, st1, c1) = store_Upload env (FileSystemStore path digest) old r1 cloud;
              (e2, st2, c2) = store_Upload env st1 body r2 c1;
              (e3, st3, c3) = store_Upload env st2 old r1 c2
          in e1 = None \<and> e2 = Some (CannotWrite e) \<and> e3 = None \<and> fmlookup c3 (FilePlace path) = Some \<lparr>ob_body = part, ob_metadata = fmempty\<rparr>) \<and>
    store_Upload env (AmazonS3Store bucket key \<lparr>sc_Options = o1, sc_BaseEndpoint = endpoint, sc_UsePathStyle = b\<rparr>) old r2 objects =
      (None, AmazonS3Store bucket key \<lparr>sc_Options = o1, sc_BaseEndpoint = endpoint, sc_UsePathStyle = b\<rparr>, objects)"
  using assms
  by (simp add: store_Upload_def upload_file_def fs_check_def s3_check_def place_of_def revision_metadata_def Let_def)

subsection \<open>An example\<close>

definition example_store_env :: "string secret_env \<Rightarrow> string store_env" where
  "example_store_env se = \<lparr>sv_secrets = se, sv_sha256 = (\<lambda>s. CHR ''h'' # s), sv_LoadConfig = (\<lambda>o1. None), sv_NewGCP = (\<lambda>c. None),
     sv_NewAzure = (\<lambda>c. None), sv_Head = (\<lambda>p. None), sv_Put = (\<lambda>p. None), sv_Get = (\<lambda>p. None), sv_Create = (\<lambda>p. None),
     sv_Copy = (\<lambda>p body. if body = ''big'' then Some (''disk full'', ''b'') else None)\<rparr>"


theorem upload_skipped_witness:
  "\<forall>se. \<exists>e st2 c2. store_Upload (example_store_env se) (FileSystemStore ''/b'' ''hv1'') ''big'' ''2'' fmempty = (Some e, st2, c2) \<and>
     fst (store_Upload (example_store_env se) st2 ''v1'' ''1'' c2) = None"
proof
  fix se :: "string secret_env"
  let ?env = "example_store_env se"
  have f: "sv_Create ?env ''/b'' = None" "sv_Copy ?env ''/b'' ''v1'' = None" "sv_Copy ?env ''/b'' ''big'' = Some (''disk full'', ''b'')"
    "sv_sha256 ?env ''v1'' \<noteq> []" "sv_sha256 ?env ''v1'' \<noteq> sv_sha256 ?env ''big''" "sv_Head ?env (S3Place None [] []) = None"
    by (simp_all add: example_store_env_def)
  have first: "store_Upload ?env (FileSystemStore ''/b'' []) ''v1'' ''1'' fmempty =
      (None, FileSystemStore ''/b'' ''hv1'', fmupd (FilePlace ''/b'') \<lparr>ob_body = ''v1'', ob_metadata = fmempty\<rparr> fmempty)"
    by (simp add: store_Upload_def upload_file_def fs_check_def example_store_env_def)
  from upload_skipped [OF f, where objects = "fmupd (S3Place None [] []) \<lparr>ob_body = ''v1'', ob_metadata =
      revision_metadata ''1'' (fmupd ''sha256'' (hex_EncodeToString (sv_sha256 ?env ''v1'')) fmempty)\<rparr> fmempty" and ?r1.0 = "''1''" and ?r2.0 = "''2''" and cloud = fmempty]
  show "\<exists>e st2 c2. store_Upload ?env (FileSystemStore ''/b'' ''hv1'') ''big'' ''2'' fmempty = (Some e, st2, c2) \<and>
     fst (store_Upload ?env st2 ''v1'' ''1'' c2) = None"
    by (simp add: store_Upload_def upload_file_def fs_check_def example_store_env_def)
qed

end
