(* ===== verification/Backtest.thy ===== *)
theory Backtest
  imports ObjectStores Policies "HOL-Library.Word" "HOL-Library.Signed_Division"
begin

text \<open>
  The commands that check migrated bundles: \<open>cmd/backtest/backtest.go\<close> evaluates logged decisions on a bundle and compares the
  results, and \<open>cmd/compare/compare.go\<close> compares the contents of two bundles. The policy engine, the readers of bundles and
  the difference of texts are parameters.
\<close>

subsection \<open>Results\<close>

datatype report_status = ReportStatusUnknown | ReportStatusError | ReportStatusResultDiff | ReportStatusLatencyInflation |
  ReportStatusPassed | ReportStatusSkipped

fun report_rank :: "report_status \<Rightarrow> nat" where
  "report_rank ReportStatusUnknown = 0"
| "report_rank ReportStatusError = 1"
| "report_rank ReportStatusResultDiff = 2"
| "report_rank ReportStatusLatencyInflation = 3"
| "report_rank ReportStatusPassed = 4"
| "report_rank ReportStatusSkipped = 5"

fun report_String :: "report_status \<Rightarrow> string" where
  "report_String ReportStatusError = ''ERROR''"
| "report_String ReportStatusResultDiff = ''RESULT_DIFF''"
| "report_String ReportStatusLatencyInflation = ''LATENCY_INFLATION''"
| "report_String ReportStatusPassed = ''PASSED''"
| "report_String ReportStatusSkipped = ''SKIPPED''"
| "report_String ReportStatusUnknown = ''UNKNOWN''"

record decision_diff =
  dd_Status :: report_status
  dd_Message :: string
  dd_Path :: string

record bundle_report =
  br_Status :: report_status
  br_Message :: string
  br_Details :: "decision_diff list"

text \<open>A logged decision. A JSON null is decoded into a nil pointer, like a value that is not there.\<close>

record v1_decision =
  vd_DecisionId :: string
  vd_Path :: string
  vd_Input :: "any option"
  vd_Result :: "any option"
  vd_EvalNs :: "64 word"

definition decode_pointer :: "any option \<Rightarrow> any option" where
  "decode_pointer x = (if x = Some ANull then None else x)"

definition decoded_decision :: "v1_decision \<Rightarrow> v1_decision" where
  "decoded_decision d = d\<lparr>vd_Input := decode_pointer (vd_Input d), vd_Result := decode_pointer (vd_Result d)\<rparr>"

datatype compare_error = CompareErr report_status string | OtherErr string

fun compare_Error :: "compare_error \<Rightarrow> string" where
  "compare_Error (CompareErr st msg) = msg"
| "compare_Error (OtherErr msg) = msg"

definition resultDiffErr :: "string \<Rightarrow> compare_error" where
  "resultDiffErr msg = CompareErr ReportStatusResultDiff msg"

definition latencyInflationErr :: "string \<Rightarrow> compare_error" where
  "latencyInflationErr msg = CompareErr ReportStatusLatencyInflation msg"

datatype sdk_result = SDKError string | UndefinedDecision | Decided any

text \<open>
  The parameters: requests to DAS, with \<open>be_decode\<close> for the result of an answer and \<open>be_decisions\<close> for the decisions; the object
  stores; the reader of bundles; the engine, which may not start; directories; values and their differences.
\<close>

record ('v, 'cert) backtest_env =
  be_valid_url :: "string \<Rightarrow> bool"
  be_send :: "nat \<Rightarrow> out_request \<Rightarrow> string + nat \<times> string"
  be_decode :: "string \<Rightarrow> string + string"
  be_decisions :: "string \<Rightarrow> string + v1_decision list"
  be_store :: "'cert store_env"
  be_read_bundle :: "string \<Rightarrow> string option"
  be_start :: "string \<Rightarrow> string option"
  be_decide :: "string \<Rightarrow> string \<Rightarrow> any option \<Rightarrow> sdk_result \<times> 64 word"   \<comment> \<open>with the time it takes\<close>
  be_tempdir :: "string \<Rightarrow> string + string"
  be_save :: "string \<Rightarrow> v1_decision \<Rightarrow> string option"
  be_value :: "any \<Rightarrow> string + 'v"
  be_diff :: "any \<Rightarrow> any \<Rightarrow> string + string"
  be_took :: string

text \<open>Durations and integers have 64 bits: the product may wrap around.\<close>

definition inflated :: "64 word \<Rightarrow> 64 word \<Rightarrow> 64 word \<Rightarrow> bool" where
  "inflated o1 maxEvalInflation t \<longleftrightarrow> sint (o1 * (maxEvalInflation + 100)) sdiv 100 < sint t"

definition itoa_int :: "int \<Rightarrow> string" where
  "itoa_int n = (if n < 0 then ''-'' @ Itoa (nat (- n)) else Itoa (nat n))"

definition compareResults :: "('v, 'cert) backtest_env \<Rightarrow> v1_decision \<Rightarrow> any option \<Rightarrow> 64 word \<Rightarrow> 64 word \<Rightarrow> compare_error option" where
  "compareResults env d r t maxEvalInflation =
     (case vd_Result d of
        None \<Rightarrow> if r \<noteq> None then Some (resultDiffErr ''logged decision was undefined but bundle decision was not'') else None
      | Some x \<Rightarrow>
          (case r of
             None \<Rightarrow> Some (resultDiffErr ''logged decision was defined but bundle decision was not'')
           | Some y \<Rightarrow>
               (case be_value env y of Inl e \<Rightarrow> Some (OtherErr e) | Inr a \<Rightarrow>
               (case be_value env x of Inl e \<Rightarrow> Some (OtherErr e) | Inr b \<Rightarrow>
                  if a \<noteq> b then (case be_diff env y x of Inl e \<Rightarrow> Some (OtherErr e) | Inr msg \<Rightarrow> Some (resultDiffErr msg))
                  else if 0 \<le> sint maxEvalInflation \<and> inflated (vd_EvalNs d) maxEvalInflation t
                  then Some (latencyInflationErr (''bundle decision took over '' @ itoa_int (sint maxEvalInflation) @
                    ''% longer than original decision to evaluate''))
                  else None))))"

subsection \<open>The decisions of a bundle\<close>

definition diff_of :: "string \<Rightarrow> compare_error \<Rightarrow> decision_diff" where
  "diff_of path err = (case err of
      CompareErr st msg \<Rightarrow> \<lparr>dd_Status = st, dd_Message = msg, dd_Path = path\<rparr>
    | OtherErr msg \<Rightarrow> \<lparr>dd_Status = ReportStatusError, dd_Message = msg, dd_Path = path\<rparr>)"

text \<open>The outcome of a decision: an error of the engine, or what the comparison says.\<close>

definition outcome :: "('v, 'cert) backtest_env \<Rightarrow> string \<Rightarrow> 64 word \<Rightarrow> v1_decision \<Rightarrow> string + compare_error option" where
  "outcome env bs maxEvalInflation d =
     (case be_decide env bs (vd_Path d) (vd_Input d) of
        (SDKError e, t) \<Rightarrow> Inl e
      | (UndefinedDecision, t) \<Rightarrow> Inr (compareResults env d None t maxEvalInflation)
      | (Decided x, t) \<Rightarrow> Inr (compareResults env d (Some x) t maxEvalInflation))"

definition check_decision :: "('v, 'cert) backtest_env \<Rightarrow> string \<Rightarrow> 64 word \<Rightarrow> string \<Rightarrow> nat \<times> v1_decision \<Rightarrow> decision_diff list \<Rightarrow>
    string + decision_diff list" where
  "check_decision env bs maxEvalInflation tempDir di diffs =
     (let (i, d) = di in
      case outcome env bs maxEvalInflation d of
        Inl e \<Rightarrow> Inl e
      | Inr None \<Rightarrow> Inr diffs
      | Inr (Some err) \<Rightarrow>
          (let path = path_Join [tempDir, Itoa i] in
           case be_save env path d of
             Some e \<Rightarrow> Inl e
           | None \<Rightarrow> Inr (diffs @ [diff_of path err])))"

definition only_differs :: "decision_diff \<Rightarrow> bool" where
  "only_differs d \<longleftrightarrow> dd_Status d = ReportStatusLatencyInflation \<or> dd_Status d = ReportStatusResultDiff"

definition verdict :: "('v, 'cert) backtest_env \<Rightarrow> nat \<Rightarrow> decision_diff list \<Rightarrow> bundle_report" where
  "verdict env n_decisions diffs =
     (case diffs of
        [] \<Rightarrow> \<lparr>br_Status = ReportStatusPassed, br_Message = Itoa n_decisions @ ''/'' @ Itoa n_decisions @ '' decisions were identical (took '' @
                be_took env @ '')'', br_Details = []\<rparr>
      | d # _ \<Rightarrow>
          (let nonErrorDiffs = length (filter only_differs diffs); errorDiffs = length (filter (\<lambda>d. \<not> only_differs d) diffs);
               message = (\<lambda>n what. Itoa n @ ''/'' @ Itoa n_decisions @ what @ path_Dir (dd_Path d)) in
           if errorDiffs > 0 then \<lparr>br_Status = ReportStatusError,
             br_Message = message errorDiffs '' decisions generated errors. Details: '', br_Details = diffs\<rparr>
           else \<lparr>br_Status = dd_Status d, br_Message = message nonErrorDiffs '' decisions differed. Details: '', br_Details = diffs\<rparr>))"

record backtest_options =
  bo_URL :: string
  bo_Token :: string
  bo_Headers :: "string list"
  bo_NumDecisions :: int
  bo_PolicyType :: string
  bo_MaxEvalTimeInflation :: "64 word"
  bo_BundleNames :: "string list"

datatype backtest_error = FromDAS das_error | BadDecisions string | FromStore store_error | BadBundle string | FromEngine string
  | FromDecisions string

definition skipped :: "string \<Rightarrow> bundle_report" where
  "skipped msg = \<lparr>br_Status = ReportStatusSkipped, br_Message = msg, br_Details = []\<rparr>"

definition backtest_decisions :: "('v, 'cert) backtest_env \<Rightarrow> backtest_options \<Rightarrow> cloud \<Rightarrow> bundle_config \<Rightarrow> v1_decision list \<Rightarrow>
    backtest_error + bundle_report" where
  "backtest_decisions env opts cloud b decisions =
     (case store_New (be_store env) (bun_ObjectStorage b) of Inl e \<Rightarrow> Inl (FromStore e) | Inr s \<Rightarrow>
     (case store_Download (be_store env) s cloud of Inl e \<Rightarrow> Inl (FromStore e) | Inr bs \<Rightarrow>
     (case be_read_bundle env bs of Some e \<Rightarrow> Inl (BadBundle e) | None \<Rightarrow>
     (case be_start env bs of Some e \<Rightarrow> Inl (FromEngine e) | None \<Rightarrow>
     (case be_tempdir env (bun_Name b) of Inl e \<Rightarrow> Inl (FromEngine e) | Inr tempDir \<Rightarrow>
     (case fold_result (check_decision env bs (bo_MaxEvalTimeInflation opts) tempDir) (enumerate 0 decisions) [] of
        Inl e \<Rightarrow> Inl (FromDecisions e)
      | Inr diffs \<Rightarrow> Inr (verdict env (length decisions) diffs)))))))"

text \<open>An answer to the question for the system has status 200, or the request is an error: the cases for other answers are not
  reached.\<close>

definition backtestBundle :: "('v, 'cert) backtest_env \<Rightarrow> backtest_options \<Rightarrow> das_client \<Rightarrow> cloud \<Rightarrow> bundle_config \<Rightarrow>
    backtest_error + bundle_report" where
  "backtestBundle env opts styra cloud b =
     (case fmlookup (gomap (bun_Labels b)) ''system-id'' of
        None \<Rightarrow> Inr (skipped ''No system id configured'')
      | Some systemId \<Rightarrow>
          (case client_Get (be_valid_url env) (be_send env) styra (''v1/systems/'' @ systemId)
              [(''authz'', ''false''), (''compact'', ''true''), (''datasources'', ''false''), (''errors'', ''false''),
               (''metadata'', ''false''), (''modules'', ''false''), (''policies'', ''false''), (''rule_counts'', ''false'')] of
             Inl e \<Rightarrow> Inl (FromDAS e)
           | Inr body \<Rightarrow>
               (case client_JSON (be_valid_url env) (be_send env) (be_decode env) styra ''v1/decisions''
                   ([(''limit'', itoa_int (bo_NumDecisions opts)), (''system'', systemId)] @
                    (if bo_PolicyType opts \<noteq> [] then [(''policy_type'', bo_PolicyType opts)] else [])) of
                  Inl e \<Rightarrow> Inl (FromDAS e)
                | Inr raw \<Rightarrow>
                    (case be_decisions env raw of
                       Inl e \<Rightarrow> Inl (BadDecisions e)
                     | Inr [] \<Rightarrow> Inr (skipped ''No decisions found for system'')
                     | Inr decisions \<Rightarrow> backtest_decisions env opts cloud b (map decoded_decision decisions)))))"

subsection \<open>The report\<close>

definition selected_bundles :: "string list \<Rightarrow> (string \<times> bundle_config) list \<Rightarrow> (string \<times> bundle_config) list" where
  "selected_bundles names bundles = (if names = [] then bundles else filter (\<lambda>(name, b). name \<in> set names) bundles)"

definition styra_url :: "string \<Rightarrow> string \<Rightarrow> string option" where
  "styra_url exportedFrom given =
     (let url = (if given \<noteq> [] then given else exportedFrom) in if url = [] then None else Some url)"

definition report_bundle :: "(backtest_error \<Rightarrow> string) \<Rightarrow> backtest_error + bundle_report \<Rightarrow> bundle_report" where
  "report_bundle error_text r = (case r of
      Inl e \<Rightarrow> \<lparr>br_Status = ReportStatusError, br_Message = error_text e, br_Details = []\<rparr>
    | Inr r \<Rightarrow> r)"

definition backtest_Run :: "(backtest_error \<Rightarrow> string) \<Rightarrow> ('v, 'cert) backtest_env \<Rightarrow> backtest_options \<Rightarrow> cloud \<Rightarrow> string \<Rightarrow>
    (string \<times> bundle_config) list \<Rightarrow> (string \<times> bundle_report) list option" where
  "backtest_Run error_text env opts cloud exportedFrom bundles =
     map_option (\<lambda>url.
       let styra = \<lparr>dc_URL = url, dc_Token = bo_Token opts, dc_Headers = bo_Headers opts\<rparr> in
       fold (\<lambda>(k, b). map_put (bun_Name b) (report_bundle error_text (backtestBundle env opts styra cloud b)))
         (selected_bundles (bo_BundleNames opts) bundles) [])
     (styra_url exportedFrom (bo_URL opts))"

text \<open>The rows of the table, sorted, and the number of bundles that passed; a bundle without a report has the status unknown.\<close>

definition no_report :: bundle_report where
  "no_report = \<lparr>br_Status = ReportStatusUnknown, br_Message = [], br_Details = []\<rparr>"

definition report_for :: "(string \<times> bundle_report) list \<Rightarrow> string \<Rightarrow> bundle_report" where
  "report_for rep name = (case map_of rep name of None \<Rightarrow> no_report | Some r \<Rightarrow> r)"

definition report_key :: "(string \<times> bundle_report) list \<Rightarrow> string \<Rightarrow> nat \<times> string \<times> string" where
  "report_key rep name =
     (report_rank (br_Status (report_for rep name)), br_Message (report_for rep name), name)"

definition printReport :: "string list \<Rightarrow> (string \<times> bundle_report) list \<Rightarrow> nat \<times> (string \<times> string \<times> string) list" where
  "printReport names rep =
     (let names = sort_key (report_key rep) names in
      (length (filter (\<lambda>n. br_Status (report_for rep n) = ReportStatusPassed) names),
       map (\<lambda>n. (n, report_String (br_Status (report_for rep n)), br_Message (report_for rep n))) names))"

subsection \<open>What a backtest says\<close>

lemma sdiv_less_iff: "0 \<le> x \<Longrightarrow> x sdiv 100 < t \<longleftrightarrow> x < 100 * (t :: int)"
  by (auto simp: signed_divide_int_def sgn_if abs_if)

text \<open>
  C34: A decision that gives the logged result is reported as too slow exactly when it took longer than the logged time
  and the allowed percentage of it, as long as neither the percentage nor the product exceeds 64 bits; with a logged time of two years
  and the default percentage the product wraps around, and even an evaluation in no time is too slow.
\<close>
theorem latency_exact:
  assumes "vd_Result d = Some x" and "be_value env x = Inr v" and "be_value env y = Inr v"
  shows "(0 \<le> sint m \<and> sint m + 100 < 2 ^ 63 \<and> 0 \<le> sint (vd_EvalNs d) \<and> sint (vd_EvalNs d) * (sint m + 100) < 2 ^ 63 \<longrightarrow>
      (compareResults env d (Some y) t m = None \<longleftrightarrow> 100 * sint t \<le> sint (vd_EvalNs d) * (sint m + 100)) \<and>
      (compareResults env d (Some y) t m \<noteq> None \<longrightarrow> (\<exists>msg. compareResults env d (Some y) t m = Some (latencyInflationErr msg)))) \<and>
    (sint m < 0 \<longrightarrow> compareResults env d (Some y) t m = None) \<and>
    (vd_EvalNs d = 2 ^ 56 \<and> m = 100 \<longrightarrow> compareResults env d (Some y) 0 m \<noteq> None)"
proof (intro conjI impI)
  have result: "compareResults env d (Some y) t m =
      (if 0 \<le> sint m \<and> inflated (vd_EvalNs d) m t
       then Some (latencyInflationErr (''bundle decision took over '' @ itoa_int (sint m) @ ''% longer than original decision to evaluate''))
       else None)" for t
    using assms by (simp add: compareResults_def)
  {
    assume small: "0 \<le> sint m \<and> sint m + 100 < 2 ^ 63 \<and> 0 \<le> sint (vd_EvalNs d) \<and> sint (vd_EvalNs d) * (sint m + 100) < 2 ^ 63"
    have "sint (m + 100) = sint m + 100"
      using small by (simp add: sint_word_ariths signed_take_bit_int_eq_self)
    moreover have "0 \<le> sint (vd_EvalNs d) * (sint m + 100)" using small by simp
    then have "signed_take_bit 63 (sint (vd_EvalNs d) * (sint m + 100)) = sint (vd_EvalNs d) * (sint m + 100)"
      using small by (intro signed_take_bit_int_eq_self) linarith+
    ultimately have "sint (vd_EvalNs d * (m + 100)) = sint (vd_EvalNs d) * (sint m + 100)"
      by (simp add: sint_word_ariths(3))
    then have "inflated (vd_EvalNs d) m t \<longleftrightarrow> sint (vd_EvalNs d) * (sint m + 100) < 100 * sint t"
      using small by (simp add: inflated_def sdiv_less_iff)
    then show "compareResults env d (Some y) t m = None \<longleftrightarrow> 100 * sint t \<le> sint (vd_EvalNs d) * (sint m + 100)"
      using small by (auto simp: result split: if_splits)
    show "\<exists>msg. compareResults env d (Some y) t m = Some (latencyInflationErr msg)" if "compareResults env d (Some y) t m \<noteq> None"
      using that by (auto simp: result split: if_splits)
  }
  show "compareResults env d (Some y) t m = None" if "sint m < 0"
    using that by (simp add: result)
  show "compareResults env d (Some y) 0 m \<noteq> None" if "vd_EvalNs d = 2 ^ 56 \<and> m = 100"
  proof -
    have "inflated (2 ^ 56) 100 0" by (simp add: inflated_def signed_divide_int_def)
    with that show ?thesis by (subst result) simp
  qed
qed

text \<open>The decisions before the first error of the engine, each with its outcome.\<close>

lemma only_differs_diff_of: "only_differs (diff_of path err) \<longleftrightarrow>
  (case err of CompareErr st msg \<Rightarrow> st = ReportStatusLatencyInflation \<or> st = ReportStatusResultDiff | OtherErr msg \<Rightarrow> False)"
  by (auto simp: only_differs_def diff_of_def split: compare_error.splits)

lemma compareResults_status:
  "compareResults env d r t m = Some (CompareErr st msg) \<Longrightarrow> st = ReportStatusLatencyInflation \<or> st = ReportStatusResultDiff"
  by (auto simp: compareResults_def resultDiffErr_def latencyInflationErr_def split: option.splits sum.splits if_splits)

lemma outcome_status:
  "outcome env bs m d = Inr (Some (CompareErr st msg)) \<Longrightarrow> st = ReportStatusLatencyInflation \<or> st = ReportStatusResultDiff"
  by (auto simp: outcome_def dest: compareResults_status split: prod.splits sdk_result.splits)

definition failures :: "('v, 'cert) backtest_env \<Rightarrow> string \<Rightarrow> 64 word \<Rightarrow> string \<Rightarrow> (nat \<times> v1_decision) list \<Rightarrow> decision_diff list" where
  "failures env bs m tempDir ds =
     concat (map (\<lambda>(i, d). case outcome env bs m d of
         Inr (Some err) \<Rightarrow> [diff_of (path_Join [tempDir, Itoa i]) err]
       | _ \<Rightarrow> []) ds)"

lemma check_decisions:
  "fold_result (check_decision env bs m tempDir) ds diffs = Inr r \<Longrightarrow>
   r = diffs @ failures env bs m tempDir ds \<and> (\<forall>(i, d) \<in> set ds. \<exists>x. outcome env bs m d = Inr x)"
proof (induction ds arbitrary: diffs)
  case (Cons x ds)
  obtain i d where x: "x = (i, d)" by (cases x)
  from Cons.prems obtain diffs' where step: "check_decision env bs m tempDir (i, d) diffs = Inr diffs'"
    and rest: "fold_result (check_decision env bs m tempDir) ds diffs' = Inr r"
    by (auto simp: x result_bind_Inr_iff)
  from step obtain y where y: "outcome env bs m d = Inr y"
    by (cases "outcome env bs m d") (simp_all add: check_decision_def)
  from step y have "diffs' = diffs @ failures env bs m tempDir [(i, d)]"
    by (auto simp: check_decision_def failures_def Let_def split: option.splits)
  with Cons.IH [OF rest] y show ?case by (auto simp: x failures_def)
qed (simp add: failures_def)

definition err_status :: "string + compare_error option \<Rightarrow> report_status" where
  "err_status x = (case x of Inr (Some (CompareErr st msg)) \<Rightarrow> st | _ \<Rightarrow> ReportStatusError)"

lemma failures_status:
  "\<forall>d \<in> set ds. \<exists>x. outcome env bs m d = Inr x \<Longrightarrow>
   map dd_Status (failures env bs m tempDir (enumerate n ds)) =
     map (\<lambda>d. err_status (outcome env bs m d)) (filter (\<lambda>d. outcome env bs m d \<noteq> Inr None) ds)"
proof (induction ds arbitrary: n)
  case (Cons d ds)
  from Cons.prems obtain x where x: "outcome env bs m d = Inr x" by auto
  have "map dd_Status (failures env bs m tempDir [(n, d)]) =
      map (\<lambda>d. err_status (outcome env bs m d)) (filter (\<lambda>d. outcome env bs m d \<noteq> Inr None) [d])"
    using x by (cases x) (auto simp: failures_def err_status_def diff_of_def split: compare_error.splits)
  moreover have "failures env bs m tempDir (enumerate n (d # ds)) =
      failures env bs m tempDir [(n, d)] @ failures env bs m tempDir (enumerate (Suc n) ds)"
    by (simp add: failures_def)
  ultimately show ?case using Cons by simp
qed (simp add: failures_def)


lemma client_Get_status:
  assumes "valid_url (client_url c path q)" and "dc_Headers c = []" and "\<And>req. \<exists>body. send 0 req = Inr (code, body)"
    and "code \<notin> {200, 502, 503}"
  shows "client_Get valid_url send c path q = Inl (Das.Status (client_url c path q) code)"
proof -
  from assms(3) obtain f where "\<And>req. send 0 req = Inr (code, f req)" by metis
  then have "attempts send req 0 3 (0, []) = Inr (code, f req)" for req
    using assms(4) by (simp add: eval_nat_numeral)
  with assms show ?thesis by (simp add: client_Get_def Let_def)
qed

text \<open>
  A bundle is skipped only for want of a system id or of decisions. A system that DAS does not know is an error, not skipped: the client
  reports every other status than 200 as an error, so that the check for a missing system is never reached.
\<close>
theorem missing_system_fails:
  assumes "fmlookup (gomap (bun_Labels b)) ''system-id'' = Some systemId"
    and "be_valid_url env (client_url styra (''v1/systems/'' @ systemId) [(''authz'', ''false''), (''compact'', ''true''), (''datasources'', ''false''),
      (''errors'', ''false''), (''metadata'', ''false''), (''modules'', ''false''), (''policies'', ''false''), (''rule_counts'', ''false'')])"
    and "dc_Headers styra = []" and "\<And>req. \<exists>body. be_send env 0 req = Inr (404, body)"
  shows "(\<exists>url. backtestBundle env opts styra cloud b = Inl (FromDAS (Das.Status url 404))) \<and>
    br_Status (report_bundle error_text (backtestBundle env opts styra cloud b)) = ReportStatusError"
proof -
  let ?q = "[(''authz'', ''false''), (''compact'', ''true''), (''datasources'', ''false''),
      (''errors'', ''false''), (''metadata'', ''false''), (''modules'', ''false''), (''policies'', ''false''), (''rule_counts'', ''false'')]"
  have "client_Get (be_valid_url env) (be_send env) styra (''v1/systems/'' @ systemId) ?q =
      Inl (Das.Status (client_url styra (''v1/systems/'' @ systemId) ?q) 404)"
    by (rule client_Get_status) (use assms(2,3,4) in simp_all)
  then have "backtestBundle env opts styra cloud b = Inl (FromDAS (Das.Status (client_url styra (''v1/systems/'' @ systemId) ?q) 404))"
    by (simp only: backtestBundle_def assms(1) option.case sum.case)
  then show ?thesis by (simp add: report_bundle_def)
qed

subsection \<open>Comparing bundles\<close>

record rego_bundle =
  rb_Modules :: "(string \<times> string) list"
  rb_Data :: any

record rego_report =
  rr_Missing :: "string list"
  rr_Extras :: "string list"
  rr_Diffs :: "(string, string) fmap"

text \<open>The report of a bundle is nil until something is added.\<close>

type_synonym compare_report = "rego_report option"

definition report_init :: "compare_report \<Rightarrow> rego_report" where
  "report_init r = (case r of None \<Rightarrow> \<lparr>rr_Missing = [], rr_Extras = [], rr_Diffs = fmempty\<rparr> | Some x \<Rightarrow> x)"

definition AddExtra :: "string \<Rightarrow> compare_report \<Rightarrow> compare_report" where
  "AddExtra path r = (let x = report_init r in Some (x\<lparr>rr_Extras := rr_Extras x @ [path]\<rparr>))"

definition AddMissing :: "string \<Rightarrow> compare_report \<Rightarrow> compare_report" where
  "AddMissing path r = (let x = report_init r in Some (x\<lparr>rr_Missing := rr_Missing x @ [path]\<rparr>))"

definition AddDiff :: "string \<Rightarrow> string \<Rightarrow> compare_report \<Rightarrow> compare_report" where
  "AddDiff path blob r = (let x = report_init r in Some (x\<lparr>rr_Diffs := fmupd path blob (rr_Diffs x)\<rparr>))"

definition report_Empty :: "compare_report \<Rightarrow> bool" where
  "report_Empty r = (case r of None \<Rightarrow> True | Some x \<Rightarrow> rr_Missing x = [] \<and> rr_Extras x = [] \<and> rr_Diffs x = fmempty)"

definition bundle_files :: "rego_bundle \<Rightarrow> (string, string) fmap" where
  "bundle_files b = fold (\<lambda>(path, raw). fmupd path raw) (rb_Modules b) fmempty"

text \<open>The two files at a path, parsed; \<open>unified\<close> is the difference of two texts, and \<open>data_text\<close> the text of the data.\<close>

definition compare_file :: "(string \<Rightarrow> string \<Rightarrow> string + 'm) \<Rightarrow> (string \<Rightarrow> string \<Rightarrow> string) \<Rightarrow> (string, string) fmap \<Rightarrow>
    string \<times> string \<Rightarrow> compare_report \<Rightarrow> string \<times> compare_report + compare_report" where
  "compare_file pmod unified bFiles ka r =
     (let (k, a) = ka in
      case fmlookup bFiles k of
        None \<Rightarrow> Inr r
      | Some b \<Rightarrow>
          (case pmod k a of Inl e \<Rightarrow> Inl (e, r) | Inr am \<Rightarrow>
          (case pmod k b of Inl e \<Rightarrow> Inl (e, r) | Inr bm \<Rightarrow>
             if am = bm then Inr r else Inr (AddDiff k (unified b a) r))))"

definition compare_paths :: "(string, string) fmap \<Rightarrow> (string, string) fmap \<Rightarrow> compare_report" where
  "compare_paths aFiles bFiles =
     fold AddMissing (filter (\<lambda>k. k |\<notin>| fmdom aFiles) (map fst (sorted_list_of_fmap bFiles)))
       (fold AddExtra (filter (\<lambda>k. k |\<notin>| fmdom bFiles) (map fst (sorted_list_of_fmap aFiles))) None)"

definition compareBundle :: "(string \<Rightarrow> string \<Rightarrow> string + 'm) \<Rightarrow> (string \<Rightarrow> string \<Rightarrow> string) \<Rightarrow> (any \<Rightarrow> string + string) \<Rightarrow>
    rego_bundle \<Rightarrow> rego_bundle \<Rightarrow> string \<times> compare_report + compare_report" where
  "compareBundle pmod unified data_text a b =
     (let aFiles = bundle_files a; bFiles = bundle_files b in
      result_bind (fold_result (compare_file pmod unified bFiles) (sorted_list_of_fmap aFiles) (compare_paths aFiles bFiles)) (\<lambda>r.
        if rb_Data a = rb_Data b then Inr r
        else case data_text (rb_Data a) of Inl e \<Rightarrow> Inl (e, r) | Inr x \<Rightarrow>
            (case data_text (rb_Data b) of Inl e \<Rightarrow> Inl (e, r) | Inr y \<Rightarrow>
               Inr (AddDiff ''data.json'' (take 1024 (unified y x)) r))))"

text \<open>Comparing all systems. A system without a bundle in DAS is an index out of range.\<close>

record ('m, 'cert) compare_env =
  ce_store :: "'cert store_env"
  ce_valid_url :: "string \<Rightarrow> bool"
  ce_send :: "nat \<Rightarrow> out_request \<Rightarrow> string + nat \<times> string"
  ce_decode :: "string \<Rightarrow> string + string"
  ce_systems :: "string \<Rightarrow> string + v1_system list"
  ce_download_urls :: "string \<Rightarrow> string + string list"   \<comment> \<open>of the bundles of a system\<close>
  ce_read :: "string \<Rightarrow> string + rego_bundle"
  ce_parse :: "string \<Rightarrow> string \<Rightarrow> string + 'm"
  ce_unified :: "string \<Rightarrow> string \<Rightarrow> string"
  ce_data_text :: "any \<Rightarrow> string + string"

datatype compare_failure = CmpStore store_error | CmpRead string | CmpDAS das_error | CmpDecode string | CmpPanic

record system_report =
  cs_Error :: "string option"
  cs_Bundle :: "compare_report option"

definition trim_module_paths :: "rego_bundle \<Rightarrow> rego_bundle" where
  "trim_module_paths b = b\<lparr>rb_Modules := map (\<lambda>(path, raw). (TrimPrefix path ''/'', raw)) (rb_Modules b)\<rparr>"

definition compareSystem :: "('m, 'cert) compare_env \<Rightarrow> das_client \<Rightarrow> cloud \<Rightarrow> v1_system \<Rightarrow> bundle_config \<Rightarrow>
    compare_failure + system_report" where
  "compareSystem env client cloud v1 system =
     (case store_New (ce_store env) (bun_ObjectStorage system) of Inl e \<Rightarrow> Inl (CmpStore e) | Inr s \<Rightarrow>
     (case store_Download (ce_store env) s cloud of Inl e \<Rightarrow> Inl (CmpStore e) | Inr bs \<Rightarrow>
     (case ce_read env bs of Inl e \<Rightarrow> Inl (CmpRead e) | Inr a \<Rightarrow>
     (case client_JSON (ce_valid_url env) (ce_send env) (ce_decode env) client (''v1/systems/'' @ sy_Id v1 @ ''/bundles'') [] of
        Inl e \<Rightarrow> Inl (CmpDAS e) | Inr raw \<Rightarrow>
     (case ce_download_urls env raw of Inl e \<Rightarrow> Inl (CmpDecode e) | Inr [] \<Rightarrow> Inl CmpPanic | Inr (url # _) \<Rightarrow>
     (case client_Get (ce_valid_url env) (ce_send env) client (TrimPrefix url (dc_URL client)) [] of
        Inl e \<Rightarrow> Inl (CmpDAS e) | Inr body \<Rightarrow>
     (case ce_read env body of Inl e \<Rightarrow> Inl (CmpRead e) | Inr b \<Rightarrow>
     (case compareBundle (ce_parse env) (ce_unified env) (ce_data_text env) (trim_module_paths a) b of
        Inl (e, r) \<Rightarrow> Inr \<lparr>cs_Error = Some e, cs_Bundle = Some r\<rparr>
      | Inr r \<Rightarrow> Inr \<lparr>cs_Error = None, cs_Bundle = Some r\<rparr>))))))))"

record compare_result =
  cr_MissingSystems :: "string list"
  cr_ExtraSystems :: "string list"
  cr_Systems :: "(string \<times> system_report) list"

text \<open>The reports of the bundles, by name, in the order of names; a panic ends the run.\<close>

fun compare_bundles :: "(compare_failure \<Rightarrow> string) \<Rightarrow> (v1_system \<Rightarrow> bundle_config \<Rightarrow> compare_failure + system_report) \<Rightarrow>
    (string \<times> v1_system) list \<Rightarrow> bundle_config list \<Rightarrow> compare_result \<Rightarrow> compare_result option" where
  "compare_bundles error_text cmp systems [] r = Some r"
| "compare_bundles error_text cmp systems (b # bs) r =
     (case map_of systems (bun_Name b) of
        None \<Rightarrow> compare_bundles error_text cmp systems bs (r\<lparr>cr_ExtraSystems := cr_ExtraSystems r @ [bun_Name b]\<rparr>)
      | Some v1 \<Rightarrow>
          (case cmp v1 b of
             Inl CmpPanic \<Rightarrow> None
           | Inl e \<Rightarrow> compare_bundles error_text cmp systems bs
               (r\<lparr>cr_Systems := map_put (bun_Name b) \<lparr>cs_Error = Some (error_text e), cs_Bundle = None\<rparr> (cr_Systems r)\<rparr>)
           | Inr rep \<Rightarrow> compare_bundles error_text cmp systems bs (r\<lparr>cr_Systems := map_put (bun_Name b) rep (cr_Systems r)\<rparr>)))"

definition doCompare :: "(compare_failure \<Rightarrow> string) \<Rightarrow> ('m, 'cert) compare_env \<Rightarrow> das_client \<Rightarrow> cloud \<Rightarrow>
    (string \<times> bundle_config) list \<Rightarrow> compare_failure + compare_result" where
  "doCompare error_text env styra cloud bundles =
     (case client_JSON (ce_valid_url env) (ce_send env) (ce_decode env) styra ''v1/systems'' [] of Inl e \<Rightarrow> Inl (CmpDAS e) | Inr raw \<Rightarrow>
     (case ce_systems env raw of Inl e \<Rightarrow> Inl (CmpDecode e) | Inr v1systems \<Rightarrow>
        let systems = fold (\<lambda>s. map_put (System_SanitizedName s) s) v1systems [];
            missing = filter (\<lambda>n. n \<notin> fst ` set bundles) (map fst systems)
        in case compare_bundles error_text (compareSystem env styra cloud) systems (sort_key bun_Name (map snd bundles))
             \<lparr>cr_MissingSystems = missing, cr_ExtraSystems = [], cr_Systems = []\<rparr> of
             None \<Rightarrow> Inl CmpPanic
           | Some r \<Rightarrow> Inr r))"

subsection \<open>What a comparison says\<close>

definition extras_of :: "compare_report \<Rightarrow> string list" where
  "extras_of r = rr_Extras (report_init r)"

definition missing_of :: "compare_report \<Rightarrow> string list" where
  "missing_of r = rr_Missing (report_init r)"

lemma report_Empty_Add [simp]:
  "\<not> report_Empty (AddExtra p r)" "\<not> report_Empty (AddMissing p r)" "\<not> report_Empty (AddDiff p x r)"
proof -
  have "fmupd p x m \<noteq> fmempty" for m :: "(string, string) fmap"
    by (metis fmempty_lookup fmupd_lookup option.distinct(1))
  then show "\<not> report_Empty (AddExtra p r)" "\<not> report_Empty (AddMissing p r)" "\<not> report_Empty (AddDiff p x r)"
    by (simp_all add: report_Empty_def AddExtra_def AddMissing_def AddDiff_def Let_def)
qed

lemma report_lists_Add [simp]:
  "extras_of (AddExtra p r) = extras_of r @ [p]" "missing_of (AddExtra p r) = missing_of r"
  "extras_of (AddMissing p r) = extras_of r" "missing_of (AddMissing p r) = missing_of r @ [p]"
  "extras_of (AddDiff p x r) = extras_of r" "missing_of (AddDiff p x r) = missing_of r"
  by (simp_all add: extras_of_def missing_of_def report_init_def AddExtra_def AddMissing_def AddDiff_def Let_def)

lemma fold_Adds:
  "report_Empty (fold AddExtra ps r) \<longleftrightarrow> ps = [] \<and> report_Empty r" "report_Empty (fold AddMissing ps r) \<longleftrightarrow> ps = [] \<and> report_Empty r"
  "extras_of (fold AddExtra ps r) = extras_of r @ ps" "missing_of (fold AddExtra ps r) = missing_of r"
  "extras_of (fold AddMissing ps r) = extras_of r" "missing_of (fold AddMissing ps r) = missing_of r @ ps"
  by (induction ps arbitrary: r) simp_all

lemma compare_files:
  "fold_result (compare_file pmod unified bFiles) xs r = Inr r' \<Longrightarrow>
   extras_of r' = extras_of r \<and> missing_of r' = missing_of r \<and>
   (report_Empty r' \<longleftrightarrow> report_Empty r \<and> (\<forall>(k, x) \<in> set xs. \<forall>y. fmlookup bFiles k = Some y \<longrightarrow> pmod k x = pmod k y))"
proof (induction xs arbitrary: r)
  case (Cons a xs)
  obtain k x where a: "a = (k, x)" by (cases a)
  from Cons.prems obtain r1 where step: "compare_file pmod unified bFiles (k, x) r = Inr r1"
    and rest: "fold_result (compare_file pmod unified bFiles) xs r1 = Inr r'"
    by (auto simp: a result_bind_Inr_iff)
  from step have "extras_of r1 = extras_of r \<and> missing_of r1 = missing_of r \<and>
      (report_Empty r1 \<longleftrightarrow> report_Empty r \<and> (\<forall>y. fmlookup bFiles k = Some y \<longrightarrow> pmod k x = pmod k y))"
    by (auto simp: compare_file_def split: option.splits sum.splits if_splits)
  with Cons.IH [OF rest] show ?case by (auto simp: a)
qed simp

text \<open>
  C32: The comparison of two bundles, if their modules can be parsed, reports as extra and as missing exactly the modules that only the one or the other has, and
  reports nothing exactly if both have the same modules, up to what the parser keeps of a text, and the same data.
\<close>
theorem compareBundle_exact:
  assumes "compareBundle pmod unified data_text a b = Inr r"
  shows "set (extras_of r) = fset (fmdom (bundle_files a) |-| fmdom (bundle_files b)) \<and>
    set (missing_of r) = fset (fmdom (bundle_files b) |-| fmdom (bundle_files a)) \<and>
    (report_Empty r \<longleftrightarrow> fmdom (bundle_files a) = fmdom (bundle_files b) \<and>
      (\<forall>k x y. fmlookup (bundle_files a) k = Some x \<and> fmlookup (bundle_files b) k = Some y \<longrightarrow> pmod k x = pmod k y) \<and>
      rb_Data a = rb_Data b)"
proof -
  let ?a = "bundle_files a" and ?b = "bundle_files b"
  have keys: "set (map fst (sorted_list_of_fmap m)) = fset (fmdom m)" for m :: "(string, string) fmap"
    by (simp add: sorted_list_of_fmap_def image_image)
  have mem: "(k, x) \<in> set (sorted_list_of_fmap m) \<longleftrightarrow> fmlookup m k = Some x" for k x and m :: "(string, string) fmap"
    by (auto simp: sorted_list_of_fmap_def fmlookup_dom_iff)
  from assms obtain r1 where r1: "fold_result (compare_file pmod unified ?b) (sorted_list_of_fmap ?a) (compare_paths ?a ?b) = Inr r1"
    by (auto simp: compareBundle_def Let_def result_bind_Inr_iff)
  with assms have r: "(rb_Data a = rb_Data b \<longrightarrow> r = r1) \<and> (rb_Data a \<noteq> rb_Data b \<longrightarrow> (\<exists>x. r = AddDiff ''data.json'' x r1))"
    by (auto simp: compareBundle_def Let_def split: if_splits sum.splits)
  note files = compare_files [OF r1]
  have paths: "report_Empty (compare_paths ?a ?b) \<longleftrightarrow> fmdom ?a = fmdom ?b"
    "extras_of (compare_paths ?a ?b) = filter (\<lambda>k. k |\<notin>| fmdom ?b) (map fst (sorted_list_of_fmap ?a))"
    "missing_of (compare_paths ?a ?b) = filter (\<lambda>k. k |\<notin>| fmdom ?a) (map fst (sorted_list_of_fmap ?b))"
  proof -
    have "report_Empty None" "extras_of None = []" "missing_of None = []"
      by (simp_all add: report_Empty_def extras_of_def missing_of_def report_init_def)
    then show "report_Empty (compare_paths ?a ?b) \<longleftrightarrow> fmdom ?a = fmdom ?b"
      "extras_of (compare_paths ?a ?b) = filter (\<lambda>k. k |\<notin>| fmdom ?b) (map fst (sorted_list_of_fmap ?a))"
      "missing_of (compare_paths ?a ?b) = filter (\<lambda>k. k |\<notin>| fmdom ?a) (map fst (sorted_list_of_fmap ?b))"
      using keys [of ?a] keys [of ?b]
      by (auto simp: compare_paths_def fold_Adds filter_empty_conv simp del: set_map)
  qed
  have lists: "extras_of r = extras_of r1" "missing_of r = missing_of r1" using r by (cases "rb_Data a = rb_Data b"; auto)+
  have sets: "set (extras_of r) = fset (fmdom ?a |-| fmdom ?b)" "set (missing_of r) = fset (fmdom ?b |-| fmdom ?a)"
    using files keys [of ?a] keys [of ?b] by (auto simp: lists paths simp del: set_map)
  have whole: "report_Empty r \<longleftrightarrow> report_Empty r1 \<and> rb_Data a = rb_Data b"
  proof (cases "rb_Data a = rb_Data b")
    case True
    with r have "r = r1" by blast
    with True show ?thesis by simp
  next
    case False
    with r obtain x where "r = AddDiff ''data.json'' x r1" by blast
    with False show ?thesis by (simp only: report_Empty_Add simp_thms)
  qed
  have "(\<forall>(k, x) \<in> set (sorted_list_of_fmap ?a). \<forall>y. fmlookup ?b k = Some y \<longrightarrow> pmod k x = pmod k y) \<longleftrightarrow>
      (\<forall>k x y. fmlookup ?a k = Some x \<and> fmlookup ?b k = Some y \<longrightarrow> pmod k x = pmod k y)"
    using mem [of _ _ ?a] by fast
  with files paths(1) whole sets show ?thesis by (simp only: simp_thms conj_assoc)
qed

subsection \<open>Examples\<close>

definition logged :: "any \<Rightarrow> v1_decision" where
  "logged x = \<lparr>vd_DecisionId = ''d'', vd_Path = ''p'', vd_Input = None, vd_Result = Some x, vd_EvalNs = 10\<rparr>"

theorem latency_exact_witness:
  "\<forall>env :: (any, string) backtest_env.
     compareResults (env\<lparr>be_value := Inr\<rparr>) (logged (AInt 1)) (Some (AInt 1)) 20 100 = None \<and>
     compareResults (env\<lparr>be_value := Inr\<rparr>) (logged (AInt 1)) (Some (AInt 1)) 21 100 \<noteq> None"
proof
  fix env :: "(any, string) backtest_env"
  have d: "vd_Result (logged (AInt 1)) = Some (AInt 1)" "be_value (env\<lparr>be_value := Inr\<rparr>) (AInt 1) = Inr (AInt 1)"
    "vd_EvalNs (logged (AInt 1)) = 10"
    by (simp_all add: logged_def)
  have n: "sint (10 :: 64 word) = 10" "sint (20 :: 64 word) = 20" "sint (21 :: 64 word) = 21" "sint (100 :: 64 word) = 100" by simp_all
  note exact = latency_exact [OF d(1) d(2) d(2), of 100, THEN conjunct1, rule_format, unfolded d(3) n, THEN conjunct1]
  have "(0 :: int) \<le> 100 \<and> 100 + 100 < (2 :: int) ^ 63 \<and> 0 \<le> (10 :: int) \<and> 10 * (100 + 100) < (2 :: int) ^ 63" by simp
  from exact [OF this, of 20] exact [OF this, of 21]
  show "compareResults (env\<lparr>be_value := Inr\<rparr>) (logged (AInt 1)) (Some (AInt 1)) 20 100 = None \<and>
     compareResults (env\<lparr>be_value := Inr\<rparr>) (logged (AInt 1)) (Some (AInt 1)) 21 100 \<noteq> None"
    unfolding n by simp
qed


theorem missing_system_fails_witness:
  "\<forall>env0 :: (any, string) backtest_env. \<forall>opts cloud.
     br_Status (report_bundle (\<lambda>e. []) (backtestBundle (env0\<lparr>be_valid_url := (\<lambda>u. True), be_send := (\<lambda>i r. Inr (404, []))\<rparr>) opts
       \<lparr>dc_URL = ''https://das'', dc_Token = [], dc_Headers = []\<rparr> cloud
       (zero_bundle\<lparr>bun_Labels := Some (fmap_of_list [(''system-id'', ''7'')])\<rparr>))) = ReportStatusError"
proof (intro allI)
  fix env0 :: "(any, string) backtest_env" and opts cloud
  let ?env = "env0\<lparr>be_valid_url := (\<lambda>u. True), be_send := (\<lambda>i r. Inr (404, []))\<rparr>"
    and ?c = "\<lparr>dc_URL = ''https://das'', dc_Token = [], dc_Headers = []\<rparr>"
    and ?b = "zero_bundle\<lparr>bun_Labels := Some (fmap_of_list [(''system-id'', ''7'')])\<rparr>"
  have l: "fmlookup (gomap (bun_Labels ?b)) ''system-id'' = Some ''7''" by simp
  have v: "be_valid_url ?env u" for u by simp
  have h: "dc_Headers ?c = []" by simp
  have s: "\<exists>body. be_send ?env 0 req = Inr (404, body)" for req by simp
  show "br_Status (report_bundle (\<lambda>e. []) (backtestBundle ?env opts ?c cloud ?b)) = ReportStatusError"
    by (rule missing_system_fails [OF l v h s, THEN conjunct2])
qed

theorem compareBundle_exact_witness:
  "\<exists>r. compareBundle (\<lambda>k t. Inr t) (\<lambda>x y. []) (\<lambda>d. Inr []) \<lparr>rb_Modules = [(''a.rego'', ''p'')], rb_Data = ANull\<rparr>
       \<lparr>rb_Modules = [(''b.rego'', ''p'')], rb_Data = ANull\<rparr> = Inr r \<and> set (extras_of r) = {''a.rego''} \<and> set (missing_of r) = {''b.rego''} \<and>
     \<not> report_Empty r"
proof -
  let ?a = "\<lparr>rb_Modules = [(''a.rego'', ''p'')], rb_Data = ANull\<rparr>" and ?b = "\<lparr>rb_Modules = [(''b.rego'', ''p'')], rb_Data = ANull\<rparr>"
  have "\<not> isl (compareBundle (\<lambda>k t. Inr t :: string + string) (\<lambda>x y. []) (\<lambda>d. Inr []) ?a ?b)"
    by code_simp
  then have "\<exists>r. compareBundle (\<lambda>k t. Inr t :: string + string) (\<lambda>x y. []) (\<lambda>d. Inr []) ?a ?b = Inr r"
    by (cases "compareBundle (\<lambda>k t. Inr t :: string + string) (\<lambda>x y. []) (\<lambda>d. Inr []) ?a ?b") simp_all
  then obtain r where r: "compareBundle (\<lambda>k t. Inr t :: string + string) (\<lambda>x y. []) (\<lambda>d. Inr []) ?a ?b = Inr r" ..
  from compareBundle_exact [OF r] r show ?thesis
    by (intro exI [of _ r]) (simp add: bundle_files_def)
qed

end
