(* ===== verification/Connect.thy ===== *)
theory Connect
  imports ConfigRoot HttpSync Server
begin

text \<open>
  \<open>InitDB\<close> of \<open>internal/database/database.go\<close>: which database a configuration leads to, and how it is connected to:
  Amazon RDS with a password or a token, SQLite, PostgreSQL, CockroachDB and MySQL, with client certificates. The
  drivers, the AWS SDK and the disk are parameters.
\<close>

subsection \<open>Parameters\<close>

datatype connect_error =
    DBSecret secret_error
  | DBUnsupportedSecret string
  | DBMissingPassword string
  | DBAuthToken string
  | DBLoadConfig string
  | DBBadEndpoint string
  | DBBadDSN string
  | DBRootCertificates string
  | DBUnsupportedDriver string
  | DBOpen string
  | DBPanic

record 'cert dsn_tls =
  dt_InsecureSkipVerify :: bool
  dt_Certificates :: "'cert list"
  dt_RootCAs :: "string option"

text \<open>A connector: to SQLite, to PostgreSQL and MySQL with what replaces the TLS settings of the DSN, and to MySQL on
  RDS by its parts, with a password that is asked for at each connection.\<close>

datatype 'cert connector =
    SqliteConn string
  | PgxConn string "'cert dsn_tls option"
  | MysqlConn string "'cert dsn_tls option"
  | MysqlRDSConn string string string string     \<comment> \<open>user, address, database, TLS configuration\<close>

text \<open>The credentials a token is built with: those of a secret, or of the default chain (nothing).\<close>

record 'cert db_env =
  de_secrets :: "'cert secret_env"
  de_LoadConfig :: "aws_options \<Rightarrow> string option"
  de_AuthToken :: "string \<Rightarrow> string \<Rightarrow> string \<Rightarrow> secretref option \<Rightarrow> string + string"
  de_ReadFile :: "string \<Rightarrow> string + string"
  de_pgx_TLS :: "string \<Rightarrow> string + 'cert dsn_tls option"     \<comment> \<open>of a DSN that is parsed\<close>
  de_mysql_TLS :: "string \<Rightarrow> string + 'cert dsn_tls option"
  de_NewConnector :: "'cert connector \<Rightarrow> string option"
  de_Open :: "string \<Rightarrow> string option"

definition de_Expand :: "'cert db_env \<Rightarrow> string \<Rightarrow> string" where
  "de_Expand env s = os_Expand (se_getenv (de_secrets env)) s"

subsection \<open>Amazon RDS\<close>

text \<open>
  \<open>authCallback\<close>. The case for AWS credentials in the source is for the structure, but a resolved secret of that
  type is a pointer: like all others but passwords it falls to the default case.
\<close>

definition authCallback :: "'cert db_env \<Rightarrow> amazonrds \<Rightarrow> connect_error + string" where
  "authCallback env c =
     (case rds_Credentials c of
        Some ref \<Rightarrow>
          (case SecretRef_Resolve (se_getenv (de_secrets env)) (se_decoder (de_secrets env)) ref of
             Inl e \<Rightarrow> Inl (DBSecret e)
           | Inr (Password p) \<Rightarrow> if p = [] then Inl (DBMissingPassword (ref_Name ref)) else Inr p
           | Inr t \<Rightarrow> Inl (DBUnsupportedSecret (type_name t)))
      | None \<Rightarrow>
          (case de_AuthToken env (de_Expand env (rds_Endpoint c)) (de_Expand env (rds_Region c)) (de_Expand env (rds_DatabaseUser c)) None of
             Inl e \<Rightarrow> Inl (DBAuthToken e)
           | Inr t \<Rightarrow> Inr t))"

text \<open>The endpoint is a host and a port.\<close>

definition host_port :: "string \<Rightarrow> connect_error + string \<times> int" where
  "host_port endpoint =
     (case dropWhile (\<lambda>c. c \<noteq> CHR '':'') endpoint of
        [] \<Rightarrow> Inl (DBBadEndpoint endpoint)
      | _ # dbPort \<Rightarrow>
          (case Atoi dbPort of
             None \<Rightarrow> Inl (DBBadEndpoint endpoint)
           | Some port \<Rightarrow>
               if port \<le> 0 \<or> port > 65535 then Inl (DBBadEndpoint endpoint)
               else Inr (takeWhile (\<lambda>c. c \<noteq> CHR '':'') endpoint, port)))"

definition rds_dsn :: "string \<Rightarrow> int \<Rightarrow> string \<Rightarrow> string \<Rightarrow> string \<Rightarrow> string" where
  "rds_dsn host port user password dbName =
     ''host='' @ host @ '' port='' @ Itoa (nat port) @ '' user='' @ user @ '' password='' @ password @ '' dbname='' @ dbName @
     '' sslmode=require''"

definition parse_dsn :: "(string \<Rightarrow> string + 'tls) \<Rightarrow> string \<Rightarrow> connect_error + 'tls" where
  "parse_dsn parser dsn = (case parser dsn of Inl e \<Rightarrow> Inl (DBBadDSN e) | Inr t \<Rightarrow> Inr t)"

definition rds_postgres :: "'cert db_env \<Rightarrow> amazonrds \<Rightarrow> connect_error + 'cert connector" where
  "rds_postgres env c =
     result_bind (host_port (de_Expand env (rds_Endpoint c))) (\<lambda>(host, port).
       let dsn = de_Expand env (rds_DSN c) in
       if dsn \<noteq> [] then result_bind (parse_dsn (de_pgx_TLS env) dsn) (\<lambda>t. Inr (PgxConn dsn t))
       else
         result_bind (authCallback env c) (\<lambda>password.
           let dsn = rds_dsn host port (de_Expand env (rds_DatabaseUser c)) password (de_Expand env (rds_DatabaseName c)) in
           result_bind (parse_dsn (de_pgx_TLS env) dsn) (\<lambda>t. Inr (PgxConn dsn t))))"

definition root_certificates :: "'cert db_env \<Rightarrow> string \<Rightarrow> connect_error + string" where
  "root_certificates env path =
     (if path = [] then Inr ''true''
      else case de_ReadFile env path of
        Inl e \<Rightarrow> Inl (DBRootCertificates e)
      | Inr pem \<Rightarrow>
          if se_AppendCertsFromPEM (de_secrets env) pem then Inr ''custom''
          else Inl (DBRootCertificates path))"

definition new_connector :: "'cert db_env \<Rightarrow> 'cert connector \<Rightarrow> connect_error + 'cert connector" where
  "new_connector env c = (case de_NewConnector env c of Some e \<Rightarrow> Inl (DBOpen e) | None \<Rightarrow> Inr c)"

definition rds_mysql :: "'cert db_env \<Rightarrow> amazonrds \<Rightarrow> connect_error + 'cert connector" where
  "rds_mysql env c =
     result_bind (root_certificates env (rds_RootCertificates c)) (\<lambda>tlsConfigName.
       let dsn = de_Expand env (rds_DSN c) in
       if dsn \<noteq> [] then result_bind (parse_dsn (de_mysql_TLS env) dsn) (\<lambda>t. new_connector env (MysqlConn dsn t))
       else new_connector env (MysqlRDSConn (de_Expand env (rds_DatabaseUser c)) (de_Expand env (rds_Endpoint c))
              (de_Expand env (rds_DatabaseName c)) tlsConfigName))"

definition init_rds :: "'cert db_env \<Rightarrow> amazonrds \<Rightarrow> connect_error + kind \<times> 'cert connector" where
  "init_rds env c =
     result_bind
       (if rds_Credentials c = None then
          (case de_LoadConfig env (aws_Config (de_Expand env (rds_Region c)) None) of Some e \<Rightarrow> Inl (DBLoadConfig e) | None \<Rightarrow> Inr ())
        else Inr ())
       (\<lambda>_.
         if rds_Driver c = ''postgres'' \<or> rds_Driver c = ''pgx'' then result_bind (rds_postgres env c) (\<lambda>x. Inr (Postgres, x))
         else if rds_Driver c = ''mysql'' then result_bind (rds_mysql env c) (\<lambda>x. Inr (Mysql, x))
         else Inl (DBUnsupportedDriver (rds_Driver c)))"

subsection \<open>Other databases\<close>

text \<open>\<open>tlsConfig\<close>: the certificates of a secret, with those of the DSN before them and its other settings kept.\<close>

definition tlsConfig :: "'cert db_env \<Rightarrow> secretref option \<Rightarrow> 'cert dsn_tls option \<Rightarrow> connect_error + 'cert dsn_tls option" where
  "tlsConfig env cred dsn =
     (case cred of
        None \<Rightarrow> Inr dsn
      | Some ref \<Rightarrow>
          (case SecretRef_Resolve (se_getenv (de_secrets env)) (se_decoder (de_secrets env)) ref of
             Inl e \<Rightarrow> Inl (DBSecret e)
           | Inr (TLSCert creds) \<Rightarrow>
               (case TLSCert_ToConfig (de_secrets env) creds of
                  Inl e \<Rightarrow> Inl (DBSecret e)
                | Inr tc \<Rightarrow>
                    Inr (Some (case dsn of
                        None \<Rightarrow> \<lparr>dt_InsecureSkipVerify = False, dt_Certificates = tlsc_Certificates tc, dt_RootCAs = tlsc_RootCAs tc\<rparr>
                      | Some d \<Rightarrow> \<lparr>dt_InsecureSkipVerify = dt_InsecureSkipVerify d,
                          dt_Certificates = dt_Certificates d @ tlsc_Certificates tc,
                          dt_RootCAs = (if dt_RootCAs d \<noteq> None then dt_RootCAs d else tlsc_RootCAs tc)\<rparr>)))
           | Inr t \<Rightarrow> Inl (DBUnsupportedSecret (type_name t))))"

definition SQLiteMemoryOnlyDSN :: string where
  "SQLiteMemoryOnlyDSN = ''file::memory:?cache=shared''"

text \<open>\<open>cockroachdb://\<close> and the like become \<open>postgresql://\<close>. A name without a colon is a slice out of range.\<close>

definition cockroach_dsn :: "string \<Rightarrow> connect_error + string" where
  "cockroach_dsn dsn =
     (if strings_HasPrefix dsn ''cockroach'' then
        (case dropWhile (\<lambda>c. c \<noteq> CHR '':'') dsn of [] \<Rightarrow> Inl DBPanic | rest \<Rightarrow> Inr (''postgresql'' @ rest))
      else Inr dsn)"

definition init_sqlite :: "'cert db_env \<Rightarrow> sqldatabase option \<Rightarrow> connect_error + kind \<times> 'cert connector" where
  "init_sqlite env q =
     (let dsn = (case q of Some q \<Rightarrow> if sql_DSN q \<noteq> [] then de_Expand env (sql_DSN q) else SQLiteMemoryOnlyDSN
                 | None \<Rightarrow> SQLiteMemoryOnlyDSN)
      in case de_Open env dsn of Some e \<Rightarrow> Inl (DBOpen e) | None \<Rightarrow> Inr (Sqlite, SqliteConn dsn))"

definition init_postgres :: "'cert db_env \<Rightarrow> sqldatabase \<Rightarrow> connect_error + kind \<times> 'cert connector" where
  "init_postgres env q =
     (let cockroach = (sql_Driver q = ''cockroachdb''); expanded = de_Expand env (sql_DSN q)
      in result_bind (if cockroach then cockroach_dsn expanded else Inr expanded) (\<lambda>dsn.
         result_bind (parse_dsn (de_pgx_TLS env) dsn) (\<lambda>t. result_bind (tlsConfig env (sql_Credentials q) t) (\<lambda>t.
           Inr (if cockroach then Cockroachdb else Postgres, PgxConn dsn t)))))"

definition init_mysql :: "'cert db_env \<Rightarrow> sqldatabase \<Rightarrow> connect_error + kind \<times> 'cert connector" where
  "init_mysql env q =
     (let dsn = de_Expand env (sql_DSN q) in
      result_bind (parse_dsn (de_mysql_TLS env) dsn) (\<lambda>t. result_bind (tlsConfig env (sql_Credentials q) t) (\<lambda>t.
        result_bind (new_connector env (MysqlConn dsn t)) (\<lambda>x. Inr (Mysql, x)))))"

definition InitDB :: "'cert db_env \<Rightarrow> database_config option \<Rightarrow> connect_error + kind \<times> 'cert connector" where
  "InitDB env cfg =
     (let sql = Option.bind cfg db_SQL in
      case Option.bind cfg db_AWSRDS of
        Some c \<Rightarrow> init_rds env c
      | None \<Rightarrow>
          (case sql of
             None \<Rightarrow> init_sqlite env None
           | Some q \<Rightarrow>
               if sql_Driver q = ''sqlite3'' \<or> sql_Driver q = ''sqlite'' then init_sqlite env (Some q)
               else if sql_Driver q = ''postgres'' \<or> sql_Driver q = ''pgx'' \<or> sql_Driver q = ''cockroachdb'' then init_postgres env q
               else if sql_Driver q = ''mysql'' then init_mysql env q
               else Inl (DBUnsupportedDriver (sql_Driver q))))"

subsection \<open>What is connected\<close>

text \<open>A connector fits the kind of its database.\<close>

fun fits :: "kind \<Rightarrow> 'cert connector \<Rightarrow> bool" where
  "fits Sqlite (SqliteConn dsn) = True"
| "fits Postgres (PgxConn dsn t) = True"
| "fits Cockroachdb (PgxConn dsn t) = True"
| "fits Mysql (MysqlConn dsn t) = True"
| "fits Mysql (MysqlRDSConn u a d t) = True"
| "fits _ _ = False"

lemma new_connector_Inr [simp]: "new_connector env c = Inr x \<longleftrightarrow> de_NewConnector env c = None \<and> x = c"
  by (auto simp: new_connector_def split: option.splits)

lemma rds_postgres_Pgx: "rds_postgres env c = Inr x \<Longrightarrow> \<exists>dsn t. x = PgxConn dsn t"
  by (auto simp: rds_postgres_def result_bind_Inr_iff Let_def split: if_splits)

lemma rds_mysql_Mysql: "rds_mysql env c = Inr x \<Longrightarrow> fits Mysql x"
  by (auto simp: rds_mysql_def result_bind_Inr_iff Let_def split: if_splits)

lemma InitDB_fits: "InitDB env cfg = Inr (kind, conn) \<Longrightarrow> fits kind conn"
  by (auto simp: InitDB_def init_rds_def init_sqlite_def init_postgres_def init_mysql_def Let_def result_bind_Inr_iff
      split: option.splits if_splits dest!: rds_postgres_Pgx rds_mysql_Mysql)

lemma authCallback_password:
  assumes "authCallback env c = Inr p" and "rds_Credentials c = Some ref"
  shows "SecretRef_Resolve (se_getenv (de_secrets env)) (se_decoder (de_secrets env)) ref = Inr (Password p) \<and> p \<noteq> []"
  using assms by (auto simp: authCallback_def split: sum.splits typed.splits if_splits)

text \<open>
  C35: A database on RDS is connected to by its driver, or the driver is an error. Of the secrets that are configured only a password that is not empty is
  ever used: AWS credentials, for which tokens are documented, are refused, at once by PostgreSQL and at each
  connection by MySQL. PostgreSQL asks for the password or token once and keeps it in its connection string.
\<close>
theorem rds_credentials:
  assumes "Option.bind cfg db_AWSRDS = Some c"
  shows "(InitDB env cfg = Inr (kind, conn) \<longrightarrow>
      fits kind conn \<and> kind = (if rds_Driver c = ''mysql'' then Mysql else Postgres) \<and> rds_Driver c \<in> {''mysql'', ''postgres'', ''pgx''} \<and>
      (kind = Postgres \<and> de_Expand env (rds_DSN c) = [] \<longrightarrow> (\<exists>host port password t. authCallback env c = Inr password \<and>
         host_port (de_Expand env (rds_Endpoint c)) = Inr (host, port) \<and>
         conn = PgxConn (rds_dsn host port (de_Expand env (rds_DatabaseUser c)) password (de_Expand env (rds_DatabaseName c))) t))) \<and>
    (\<forall>ref p. rds_Credentials c = Some ref \<longrightarrow> authCallback env c = Inr p \<longrightarrow>
      SecretRef_Resolve (se_getenv (de_secrets env)) (se_decoder (de_secrets env)) ref = Inr (Password p) \<and> p \<noteq> []) \<and>
    (\<forall>ref v. rds_Credentials c = Some ref \<longrightarrow>
      SecretRef_Resolve (se_getenv (de_secrets env)) (se_decoder (de_secrets env)) ref = Inr (PtrAWS v) \<longrightarrow>
      authCallback env c = Inl (DBUnsupportedSecret ''aws_auth'') \<and>
      (rds_Driver c \<in> {''postgres'', ''pgx''} \<and> de_Expand env (rds_DSN c) = [] \<longrightarrow> isl (InitDB env cfg)))"
proof (intro conjI allI impI)
  have rds: "InitDB env cfg = init_rds env c" by (simp add: InitDB_def assms Let_def)
  {
    assume init: "InitDB env cfg = Inr (kind, conn)"
    then show "fits kind conn" by (rule InitDB_fits)
    from init rds show "kind = (if rds_Driver c = ''mysql'' then Mysql else Postgres)" "rds_Driver c \<in> {''mysql'', ''postgres'', ''pgx''}"
      by (auto simp: init_rds_def result_bind_Inr_iff split: if_splits)
    assume "kind = Postgres \<and> de_Expand env (rds_DSN c) = []"
    with init rds have "rds_postgres env c = Inr conn" "de_Expand env (rds_DSN c) = []"
      by (auto simp: init_rds_def result_bind_Inr_iff split: if_splits)
    then show "\<exists>host port password t. authCallback env c = Inr password \<and>
         host_port (de_Expand env (rds_Endpoint c)) = Inr (host, port) \<and>
         conn = PgxConn (rds_dsn host port (de_Expand env (rds_DatabaseUser c)) password (de_Expand env (rds_DatabaseName c))) t"
      by (auto simp: rds_postgres_def result_bind_Inr_iff Let_def)
  }
  show "SecretRef_Resolve (se_getenv (de_secrets env)) (se_decoder (de_secrets env)) ref = Inr (Password p)" "p \<noteq> []"
    if "rds_Credentials c = Some ref" "authCallback env c = Inr p" for ref p
    using authCallback_password [OF that(2,1)] by blast+
  fix ref v
  assume ref: "rds_Credentials c = Some ref"
    and aws: "SecretRef_Resolve (se_getenv (de_secrets env)) (se_decoder (de_secrets env)) ref = Inr (PtrAWS v)"
  then show refused: "authCallback env c = Inl (DBUnsupportedSecret ''aws_auth'')" by (simp add: authCallback_def)
  assume "rds_Driver c \<in> {''postgres'', ''pgx''} \<and> de_Expand env (rds_DSN c) = []"
  then show "isl (InitDB env cfg)"
    using ref refused by (cases "host_port (de_Expand env (rds_Endpoint c))") (auto simp: rds init_rds_def rds_postgres_def)
qed

text \<open>The client certificates of other databases: only those of a TLS secret, behind those of the DSN.\<close>

lemma tlsConfig_certificates:
  assumes "tlsConfig env (Some ref) dsn = Inr t"
  shows "\<exists>creds tc t'. SecretRef_Resolve (se_getenv (de_secrets env)) (se_decoder (de_secrets env)) ref = Inr (TLSCert creds) \<and>
    TLSCert_ToConfig (de_secrets env) creds = Inr tc \<and> t = Some t' \<and>
    dt_Certificates t' = (case dsn of None \<Rightarrow> [] | Some d \<Rightarrow> dt_Certificates d) @ tlsc_Certificates tc \<and>
    (dt_InsecureSkipVerify t' \<longleftrightarrow> (case dsn of None \<Rightarrow> False | Some d \<Rightarrow> dt_InsecureSkipVerify d))"
  using assms by (auto simp: tlsConfig_def split: sum.splits typed.splits option.splits)

subsection \<open>An example\<close>

definition example_rds :: "database_config option" where
  "example_rds = Some \<lparr>db_SQL = None, db_AWSRDS = Some \<lparr>rds_Region = ''eu'', rds_Endpoint = ''db:5432'', rds_Driver = ''postgres'',
     rds_DatabaseUser = ''u'', rds_DatabaseName = ''n'', rds_DSN = [],
     rds_Credentials = Some \<lparr>ref_Name = ''c'', ref_value = Some \<lparr>sec_Name = ''c'', sec_Value = Some (fmap_of_list
       [(''type'', AStr ''aws_auth''), (''access_key_id'', AStr ''i''), (''secret_access_key'', AStr ''k'')])\<rparr>\<rparr>,
     rds_RootCertificates = []\<rparr>\<rparr>"

definition plain_decoder :: decoder where
  "plain_decoder = \<lparr>dec_string = (\<lambda>m k. case fmlookup m k of Some (AStr s) \<Rightarrow> Inr s | _ \<Rightarrow> Inr []), dec_int = (\<lambda>m k. Inr 0),
     dec_strings = (\<lambda>m k. Inr [])\<rparr>"

definition example_db_env :: "string db_env" where
  "example_db_env = \<lparr>de_secrets = \<lparr>se_getenv = (\<lambda>v. []), se_decoder = plain_decoder, se_discover = (\<lambda>u. Inl u),
       se_token = (\<lambda>c. Inl []), se_AppendCertsFromPEM = (\<lambda>p. True), se_X509KeyPair = (\<lambda>a b. Inl a)\<rparr>,
     de_LoadConfig = (\<lambda>o1. None), de_AuthToken = (\<lambda>e r u c. Inr ''token''), de_ReadFile = (\<lambda>p. Inl p), de_pgx_TLS = (\<lambda>d. Inr None),
     de_mysql_TLS = (\<lambda>d. Inr None), de_NewConnector = (\<lambda>c. None), de_Open = (\<lambda>d. None)\<rparr>"

theorem rds_credentials_witness: "isl (InitDB example_db_env example_rds)"
proof -
  obtain c where c: "Option.bind example_rds db_AWSRDS = Some c" "rds_Driver c = ''postgres''" "rds_DSN c = []"
    and "\<exists>ref v. rds_Credentials c = Some ref \<and>
      SecretRef_Resolve (se_getenv (de_secrets example_db_env)) (se_decoder (de_secrets example_db_env)) ref = Inr (PtrAWS v)"
  proof (rule that)
    show "Option.bind example_rds db_AWSRDS = Some (the (Option.bind example_rds db_AWSRDS))"
      "rds_Driver (the (Option.bind example_rds db_AWSRDS)) = ''postgres''" "rds_DSN (the (Option.bind example_rds db_AWSRDS)) = []"
      by (simp_all add: example_rds_def)
    show "\<exists>ref v. rds_Credentials (the (Option.bind example_rds db_AWSRDS)) = Some ref \<and>
      SecretRef_Resolve (se_getenv (de_secrets example_db_env)) (se_decoder (de_secrets example_db_env)) ref = Inr (PtrAWS v)"
      by (intro exI conjI) (simp add: example_rds_def, code_simp)
  qed
  then obtain ref v where ref: "rds_Credentials c = Some ref"
    "SecretRef_Resolve (se_getenv (de_secrets example_db_env)) (se_decoder (de_secrets example_db_env)) ref = Inr (PtrAWS v)" by blast
  have "de_Expand example_db_env (rds_DSN c) = []" using c(3) by (simp add: de_Expand_def)
  with rds_credentials [OF c(1), of example_db_env] c(2) ref show ?thesis by blast
qed

end
