(* ===== verification/Revision.thy ===== *)
theory Revision
  imports Service DataSync Cursor
begin

text \<open>
  The revision of a bundle, \<open>pkg/service/revision.go\<close>: the sources that the expression refers to, for which metadata are
  computed, and its value on the metadata of a run. The parser and the evaluator of expressions are parameters, and so is the walk
  over the references of an expression.
\<close>

subsection \<open>References\<close>

datatype ref_term = RVar string | RString string | ROther

type_synonym term_ref = "ref_term list"

definition sourcesRef :: term_ref where
  "sourcesRef = [RVar ''input'', RString ''sources'']"

definition ref_fields :: "ref_term list \<Rightarrow> string list" where
  "ref_fields ts = List.map_filter (\<lambda>t. case t of RString f \<Rightarrow> Some f | _ \<Rightarrow> None) ts"

text \<open>The callback of the walk: a reference to a field of a source is noted, with all strings after its name.\<close>

definition note_ref :: "term_ref \<Rightarrow> (string, string fset) fmap \<Rightarrow> (string, string fset) fmap" where
  "note_ref ref references =
     (if \<not> prefix sourcesRef ref \<or> length ref < 4 then references
      else case ref ! 2 of
        RString s \<Rightarrow>
          fmupd s ((case fmlookup references s of None \<Rightarrow> {||} | Some fs \<Rightarrow> fs) |\<union>| fset_of_list (ref_fields (drop 3 ref))) references
      | _ \<Rightarrow> references)"

text \<open>The result lists the sources and the fields of each in any order, here in that of the names.\<close>

definition ExtractRevisionRefs :: "(string \<Rightarrow> string + 'q) \<Rightarrow> ('q \<Rightarrow> term_ref list) \<Rightarrow> string \<Rightarrow>
    string + (string \<times> string list) list" where
  "ExtractRevisionRefs parse_expr refs revision =
     (if revision = [] then Inr []
      else case parse_expr revision of
        Inl e \<Rightarrow> Inl (''invalid rego query: '' @ e)
      | Inr query \<Rightarrow> Inr (map (\<lambda>(s, fs). (s, sorted_list_of_fset fs)) (sorted_list_of_fmap (fold note_ref (refs query) fmempty))))"

subsection \<open>Value\<close>

text \<open>\<open>formatValue\<close>, with \<open>fmt.Sprint\<close> for other values: lists and maps in brackets, maps in the order of keys.\<close>

primrec sprint :: "any \<Rightarrow> string" where
  "sprint ANull = ''<nil>''"
| "sprint (ABool b) = (if b then ''true'' else ''false'')"
| "sprint (AInt i) = FormatInt i"
| "sprint (AStr s) = s"
| "sprint (AList xs) = ''['' @ strings_Join (map sprint xs) '' '' @ '']''"
| "sprint (AMap m) = ''map['' @ strings_Join (map (\<lambda>(k, v). k @ '':'' @ v) (sorted_list_of_fmap (fmmap sprint m))) '' '' @ '']''"

definition formatValue :: "any \<Rightarrow> string" where
  "formatValue v = (case v of AStr s \<Rightarrow> s | _ \<Rightarrow> sprint v)"

text \<open>The environment of the process, as the evaluator sees it: the later of two entries of a name.\<close>

definition makeRuntimeInfo :: "string list \<Rightarrow> any" where
  "makeRuntimeInfo environ = AMap (fmap_of_list [(''env'',
     AMap (fold (\<lambda>e. fmupd (takeWhile (\<lambda>c. c \<noteq> CHR ''='') e) (AStr (drop 1 (dropWhile (\<lambda>c. c \<noteq> CHR ''='') e)))) environ fmempty))])"

definition object_schema :: "(string \<times> any) list \<Rightarrow> any" where
  "object_schema props = AMap (fmap_of_list [(''type'', AStr ''object''), (''properties'', AMap (fmap_of_list props))])"

definition source_schema :: any where
  "source_schema =
     (let text1 = AMap (fmap_of_list [(''type'', AStr ''string'')]) in
      object_schema [(''git'', object_schema [(''commit'', text1)]), (''sql'', object_schema [(''hash'', text1)])])"

definition buildInputSchema :: "metadata_map \<Rightarrow> any" where
  "buildInputSchema md =
     AMap (fmap_of_list [(''$schema'', AStr ''http://json-schema.org/draft-07/schema''), (''type'', AStr ''object''),
       (''properties'', AMap (fmap_of_list [(''sources'',
          AMap (fmap_of_list [(''type'', AStr ''object''), (''properties'', AMap (fmmap (\<lambda>m. source_schema) md))]))])),
       (''required'', AList [AStr ''sources''])])"

text \<open>The evaluator has the runtime, the input and its schema; it answers with the values of the expressions of each result.\<close>

definition evaluateRego :: "('q \<Rightarrow> any \<Rightarrow> any \<Rightarrow> any \<Rightarrow> string + any list list) \<Rightarrow> string list \<Rightarrow> 'q \<Rightarrow> any \<Rightarrow> metadata_map \<Rightarrow> string + string" where
  "evaluateRego eval environ query input md =
     (case eval query (makeRuntimeInfo environ) input (buildInputSchema md) of
        Inl e \<Rightarrow> Inl e
      | Inr ((v # _) # _) \<Rightarrow> Inr (formatValue v)
      | Inr _ \<Rightarrow> Inl ''no results from Rego evaluation'')"

definition revision_input :: "metadata_map \<Rightarrow> any" where
  "revision_input md = AMap (fmap_of_list [(''sources'', AMap (fmmap (\<lambda>m. AMap (fmmap AMap m)) md))])"

definition ResolveRevision :: "(string \<Rightarrow> string + 'q) \<Rightarrow> ('q \<Rightarrow> any \<Rightarrow> any \<Rightarrow> any \<Rightarrow> string + any list list) \<Rightarrow> string list \<Rightarrow>
    string \<Rightarrow> metadata_map \<Rightarrow> string + string" where
  "ResolveRevision parse_expr eval environ revision md =
     (if revision = [] then Inr []
      else case parse_expr revision of
        Inl e \<Rightarrow> Inl (''invalid rego query: '' @ e)
      | Inr query \<Rightarrow>
          (case evaluateRego eval environ query (revision_input md) md of
             Inl e \<Rightarrow> Inl (''failed to resolve revision: '' @ e)
           | Inr r \<Rightarrow> Inr r))"

subsection \<open>What is computed for a revision\<close>

lemma map_of_rev_distinct: "distinct (map fst xs) \<Longrightarrow> map_of (rev xs) = map_of xs"
  by (subst map_of_inject_set) (simp_all add: rev_map [symmetric])

definition fields_of :: "(string, string fset) fmap \<Rightarrow> string \<Rightarrow> string set" where
  "fields_of m s = (case fmlookup m s of None \<Rightarrow> {} | Some fs \<Rightarrow> fset fs)"

lemma set_ref_fields: "f \<in> set (ref_fields ts) \<longleftrightarrow> RString f \<in> set ts"
  by (induction ts) (auto simp: ref_fields_def List.map_filter_def split: ref_term.splits)

lemma note_ref_fields:
  "fields_of (note_ref r m) s = fields_of m s \<union> {f. \<exists>ts. r = sourcesRef @ RString s # ts \<and> RString f \<in> set ts}"
proof (cases "prefix sourcesRef r \<and> 4 \<le> length r")
  case True
  then obtain t t' ts where r: "r = sourcesRef @ t # t' # ts"
    by (cases r; cases "tl r"; cases "tl (tl r)"; cases "tl (tl (tl r))") (auto simp: sourcesRef_def)
  show ?thesis
  proof (cases t)
    case (RString u)
    then show ?thesis
      using True by (auto simp: r note_ref_def fields_of_def set_ref_fields fset_of_list_elem sourcesRef_def split: option.split)
  qed (use True in \<open>auto simp: r note_ref_def fields_of_def sourcesRef_def\<close>)
next
  case False
  then have "note_ref r m = m" by (auto simp: note_ref_def)
  moreover have "{f. \<exists>ts. r = sourcesRef @ RString s # ts \<and> RString f \<in> set ts} = {}"
  proof (rule ccontr)
    assume "\<not> ?thesis"
    then obtain f ts where "r = sourcesRef @ RString s # ts" "RString f \<in> set ts" by auto
    with False show False by (cases ts) (auto simp: sourcesRef_def)
  qed
  ultimately show ?thesis by (simp only: Un_empty_right)
qed

lemma noted_fields:
  "fields_of (fold note_ref rs m) s =
     fields_of m s \<union> {f. \<exists>ts. sourcesRef @ RString s # ts \<in> set rs \<and> RString f \<in> set ts}"
  by (induction rs arbitrary: m) (auto simp: note_ref_fields)

definition revision_refs :: "(string \<Rightarrow> string + 'q) \<Rightarrow> ('q \<Rightarrow> term_ref list) \<Rightarrow> string \<Rightarrow> (string \<times> string list) list option" where
  "revision_refs parse_expr refs revision =
     (case ExtractRevisionRefs parse_expr refs revision of Inl e \<Rightarrow> None | Inr rs \<Rightarrow> Some rs)"

lemma metadata_fields_noted:
  assumes "svc_revision_refs env = revision_refs parse_expr refs"
  shows "set (metadata_fields env revision n) =
    (if revision = [] then {} else case parse_expr revision of Inl e \<Rightarrow> {} | Inr q \<Rightarrow>
       {f. \<exists>ts. sourcesRef @ RString n # ts \<in> set (refs q) \<and> RString f \<in> set ts})"
proof (cases "revision = [] \<or> isl (parse_expr revision)")
  case True
  then show ?thesis
    by (auto simp: metadata_fields_def assms revision_refs_def ExtractRevisionRefs_def split: sum.splits)
next
  case False
  then obtain q where q: "revision \<noteq> []" "parse_expr revision = Inr q" by (cases "parse_expr revision") auto
  let ?m = "fold note_ref (refs q) fmempty"
  let ?rs = "map (\<lambda>(s, fs). (s, sorted_list_of_fset fs)) (sorted_list_of_fmap ?m)"
  have "distinct (map fst (sorted_list_of_fmap ?m))"
    by (simp add: sorted_list_of_fmap_def comp_def sorted_list_of_fset.rep_eq)
  then have "map_of (rev ?rs) n = map_of ?rs n"
    by (simp add: map_of_rev_distinct comp_def case_prod_beta')
  also have "\<dots> = map_option sorted_list_of_fset (fmlookup ?m n)"
    by (simp add: map_of_map map_of_sorted_list)
  finally have "set (metadata_fields env revision n) = fields_of ?m n"
    using q by (auto simp: metadata_fields_def assms revision_refs_def ExtractRevisionRefs_def fields_of_def split: option.split)
  then show ?thesis using q by (simp add: noted_fields) (simp add: fields_of_def)
qed

text \<open>
  A hash of the data that a source has in the database is computed exactly when the revision of the bundle can be parsed and names the source
  and the field by literals, in a reference to the source; an expression that looks a source up by a variable, or that does not parse, has no
  hash to work with. The fields are exactly the strings behind the name of the source.
\<close>
theorem revision_hashes:
  assumes "svc_revision_refs env = revision_refs parse_expr refs"
    and "sqlsync_Execute sha256 os_error (NewSQLSourceDataSynchronizer path rows n (metadata_fields env revision n)) files = (Inr md, files')"
  shows "let fields = (if revision = [] then {} else case parse_expr revision of Inl e \<Rightarrow> {} | Inr q \<Rightarrow>
       {f. \<exists>ts. sourcesRef @ RString n # ts \<in> set (refs q) \<and> RString f \<in> set ts}) in
    set (metadata_fields env revision n) = fields \<and>
    md = (if ''hash'' \<in> fields then Some (fmap_of_list [(''hash'', computeDirectoryHash sha256 path files')]) else None)"
proof -
  have "md = (if ''hash'' \<in> set (metadata_fields env revision n)
      then Some (fmap_of_list [(''hash'', computeDirectoryHash sha256 path files')]) else None)"
    using assms(2) by (auto simp: sqlsync_Execute_def NewSQLSourceDataSynchronizer_def split: option.splits prod.splits)
  then show ?thesis
    unfolding metadata_fields_noted [OF assms(1)] Let_def by blast
qed

theorem revision_hashes_witness:
  "\<exists>files' h. sqlsync_Execute id (\<lambda>files p. None)
     (NewSQLSourceDataSynchronizer ''d'' [] ''lib''
        (metadata_fields (Service.example_env\<lparr>svc_revision_refs := revision_refs Inr (\<lambda>q. [sourcesRef @ [RString ''lib'', RString ''sql'', RString ''hash'']])\<rparr>)
           ''input.sources.lib.sql.hash'' ''lib'')) fmempty = (Inr (Some h), files')"
proof -
  let ?refs = "\<lambda>q. [sourcesRef @ [RString ''lib'', RString ''sql'', RString ''hash'']]"
  let ?env = "Service.example_env\<lparr>svc_revision_refs := revision_refs Inr ?refs\<rparr>" and ?rev = "''input.sources.lib.sql.hash''"
  have refs: "svc_revision_refs ?env = revision_refs Inr ?refs" by simp
  obtain md files' where run: "sqlsync_Execute id (\<lambda>files p. None)
      (NewSQLSourceDataSynchronizer ''d'' [] ''lib'' (metadata_fields ?env ?rev ''lib'')) fmempty = (Inr md, files')"
    by (simp add: sqlsync_Execute_def NewSQLSourceDataSynchronizer_def)
  from revision_hashes [OF refs run] have "md \<noteq> None"
    by (auto simp: Let_def split: if_splits)
  with run show ?thesis by auto
qed

end
