(* ===== verification/Lifecycle.thy ===== *)
theory Lifecycle
  imports Revision Server Migrations
begin

text \<open>
  The life of the service of \<open>pkg/service/service.go\<close>: initialization of the database from the configuration, readiness,
  the loop around \<open>launchWorkers\<close> and the report of a single-shot run; and the command \<open>build\<close> of \<open>cmd/build/build.go\<close>, which is
  such a run. What the database answers in each pass, and which workers the pool executes between two polls, is given.
\<close>

subsection \<open>Initialization\<close>

record 'g ocp =
  oc_config :: "'g root"
  oc_rawConfig :: "string option"
  oc_database :: db
  oc_service :: "'g service"
  oc_initialized :: bool
  oc_ready :: bool
  oc_migrateDB :: bool
  oc_report :: "(string \<times> status) list option"

datatype ocp_error = BadConfig string | MigrationFailed string | PrincipalFailed db_error | LoadFailed db_error

text \<open>The parameters: the parser of configurations, what happens outside during the migrations, the tables they leave, and
  those of \<open>LoadConfig\<close>.\<close>

record 'g ocp_env =
  oe_parse :: "string \<Rightarrow> string + 'g root"
  oe_outside :: "database_config option \<Rightarrow> outside"
  oe_tables :: "database_config option \<Rightarrow> db"
  oe_database :: "database_config option \<Rightarrow> database"
  oe_expand :: "string \<Rightarrow> string"
  oe_files :: "source \<Rightarrow> string + (string \<times> string) list"
  oe_tokens :: "'g root \<Rightarrow> token list"

definition New_ocp :: "'g root \<Rightarrow> 'g ocp" where
  "New_ocp cfg = \<lparr>oc_config = cfg, oc_rawConfig = None, oc_database = (\<lambda>t. []), oc_service = New_service,
     oc_initialized = False, oc_ready = False, oc_migrateDB = False, oc_report = None\<rparr>"

definition WithConfig :: "'g root \<Rightarrow> 'g ocp \<Rightarrow> 'g ocp" where
  "WithConfig cfg s = s\<lparr>oc_config := cfg\<rparr>"

definition WithRawConfig :: "string \<Rightarrow> 'g ocp \<Rightarrow> 'g ocp" where
  "WithRawConfig raw s = s\<lparr>oc_rawConfig := Some raw\<rparr>"

definition WithMigrateDB :: "bool \<Rightarrow> 'g ocp \<Rightarrow> 'g ocp" where
  "WithMigrateDB yes s = s\<lparr>oc_migrateDB := yes\<rparr>"

definition internalPrincipal :: string where
  "internalPrincipal = ''internal''"

definition initDB :: "'g ocp_env \<Rightarrow> 'g ocp \<Rightarrow> ocp_error option \<times> 'g ocp" where
  "initDB env s =
     (case (case oc_rawConfig s of None \<Rightarrow> Inr (oc_config s) | Some bs \<Rightarrow> oe_parse env bs) of
        Inl e \<Rightarrow> (Some (BadConfig e), s)
      | Inr cfg \<Rightarrow>
          (let s = s\<lparr>oc_config := cfg\<rparr>; d = oe_database env (root_Database cfg) in
           case snd (Migrations.Run (oc_migrateDB s) (oe_outside env (root_Database cfg))) of
             Some e \<Rightarrow> (Some (MigrationFailed e), s)
           | None \<Rightarrow>
               (case UpsertPrincipal d internalPrincipal ''administrator'' defaultTenant (oe_tables env (root_Database cfg)) of
                  (Some e, db) \<Rightarrow> (Some (PrincipalFailed e), s\<lparr>oc_database := db\<rparr>)
                | (None, db) \<Rightarrow>
                    (case LoadConfig d (oe_expand env) (oe_files env) internalPrincipal defaultTenant (oe_tokens env cfg) cfg db of
                       (Some e, db) \<Rightarrow> (Some (LoadFailed e), s\<lparr>oc_database := db\<rparr>)
                     | (None, db) \<Rightarrow> (None, s\<lparr>oc_database := db\<rparr>)))))"

definition Service_Init :: "'g ocp_env \<Rightarrow> 'g ocp \<Rightarrow> ocp_error option \<times> 'g ocp" where
  "Service_Init env s =
     (if oc_initialized s then (None, s)
      else case initDB env s of (e, s) \<Rightarrow> (e, s\<lparr>oc_initialized := (e = None)\<rparr>))"

definition Ready :: "'g ocp \<Rightarrow> string option" where
  "Ready s = (if oc_ready s then None else Some ''not ready'')"

subsection \<open>The loop\<close>

text \<open>The pool executes a worker that is not done; a worker that is done has left the pool.\<close>

definition ran :: "environment \<Rightarrow> int \<Rightarrow> 'g worker \<Rightarrow> 'g worker" where
  "ran env now w = (case Execute env now w of None \<Rightarrow> w | Some (t, w') \<Rightarrow> w')"

definition execute_worker :: "(string \<Rightarrow> environment) \<Rightarrow> int \<Rightarrow> string \<Rightarrow> 'g service \<Rightarrow> 'g service" where
  "execute_worker envs now i s =
     s\<lparr>workers := map (\<lambda>(j, w). (j, if j = i \<and> \<not> Done w then ran (envs i) now w else w)) (workers s)\<rparr>"

fun wait_done :: "(string \<Rightarrow> environment) \<Rightarrow> int \<Rightarrow> string list list \<Rightarrow> 'g service \<Rightarrow> 'g service option" where
  "wait_done envs now [] s = (if allWorkersDone s then Some s else None)"
| "wait_done envs now (is # polls) s =
     (if allWorkersDone s then Some s else wait_done envs now polls (fold (execute_worker envs now) is s))"

text \<open>
  A pass: the answers of the database, the workers that are executed before each poll (in a single-shot run) or before the next pass,
  and whether the context is done by then. \<open>None\<close> is a loop that has not ended after the given passes.
\<close>

record 'g pass =
  ps_tenants :: "(string \<times> (string + 'g tenant_data)) list"
  ps_polls :: "string list list"
  ps_cancelled :: bool

fun run_loop :: "('m, 'g) service_env \<Rightarrow> (string \<Rightarrow> environment) \<Rightarrow> int \<Rightarrow> 'g pass list \<Rightarrow> 'g service \<Rightarrow> 'g service option" where
  "run_loop env envs now [] s = None"
| "run_loop env envs now (p # ps) s =
     (let s = launchWorkers env (ps_tenants p) s in
      if svc_singleShot env then wait_done envs now (ps_polls p) s
      else
        (let s = fold (execute_worker envs now) (concat (ps_polls p)) s in
         if ps_cancelled p then Some s else run_loop env envs now ps s))"

definition stop_workers :: "'g service \<Rightarrow> 'g service" where
  "stop_workers s = s\<lparr>workers := map (\<lambda>(i, w). (i, UpdateConfig None [] [] w)) (workers s)\<rparr>"

definition Run_service :: "'g ocp_env \<Rightarrow> ('m, 'g) service_env \<Rightarrow> (string \<Rightarrow> environment) \<Rightarrow> int \<Rightarrow> 'g pass list \<Rightarrow> 'g ocp \<Rightarrow>
    (ocp_error option \<times> 'g ocp) option" where
  "Run_service oenv env envs now ps s =
     (case Service_Init oenv s of
        (Some e, s) \<Rightarrow> Some (Some e, s)
      | (None, s) \<Rightarrow>
          map_option (\<lambda>sv. (None, s\<lparr>oc_ready := True, oc_service := stop_workers sv,
              oc_report := (if svc_singleShot env then Some (service_report (stop_workers sv)) else oc_report s)\<rparr>))
            (run_loop env envs now ps (oc_service s)))"

subsection \<open>The build command\<close>

record build_report =
  bd_totalBuilds :: nat
  bd_successfulBuilds :: nat
  bd_buildErrors :: "(string \<times> build_state \<times> string) list"

definition allBuildsSuccessful :: "build_report \<Rightarrow> bool" where
  "allBuildsSuccessful b \<longleftrightarrow> bd_totalBuilds b = bd_successfulBuilds b"

definition collectBuildReport :: "(string \<times> status) list \<Rightarrow> build_report" where
  "collectBuildReport r =
     (let names = sort (map fst r); state = (\<lambda>n. the (map_of r n)) in
      \<lparr>bd_totalBuilds = length r, bd_successfulBuilds = length (filter (\<lambda>n. st_State (state n) = Success) names),
       bd_buildErrors = map (\<lambda>n. (n, st_State (state n), st_Message (state n))) (filter (\<lambda>n. st_State (state n) \<noteq> Success) names)\<rparr>)"

definition build_rows :: "build_report \<Rightarrow> (string \<times> string \<times> string) list" where
  "build_rows b = (if allBuildsSuccessful b then [] else map (\<lambda>(n, st, msg). (n, BuildState_String st, msg)) (bd_buildErrors b))"

definition build_config :: "string list \<Rightarrow> 'g root \<Rightarrow> 'g root" where
  "build_config names cfg =
     (if names = [] then cfg else cfg\<lparr>root_Bundles := fmfilter (\<lambda>n. n \<in> set names) (root_Bundles cfg)\<rparr>)"

text \<open>The exit code with the report; the configuration is merged and parsed before.\<close>

definition build_command :: "'g ocp_env \<Rightarrow> ('m, 'g) service_env \<Rightarrow> (string \<Rightarrow> environment) \<Rightarrow> int \<Rightarrow> 'g pass list \<Rightarrow>
    string list \<Rightarrow> bool \<Rightarrow> 'g root \<Rightarrow> (nat \<times> build_report option) option" where
  "build_command oenv env envs now ps names migrateDB cfg =
     (let cfg = build_config names cfg;
          s = WithMigrateDB (migrateDB \<or> root_Database cfg = None) (New_ocp cfg)
      in case Run_service oenv (env\<lparr>svc_singleShot := True\<rparr>) envs now ps s of
           None \<Rightarrow> None
         | Some (Some e, s) \<Rightarrow> Some (1, None)
         | Some (None, s) \<Rightarrow>
             (let b = collectBuildReport (the (oc_report s)) in Some (if allBuildsSuccessful b then 0 else 1, Some b)))"

text \<open>The command \<open>run\<close> has a database on disk by default, which is always migrated.\<close>

definition run_setup :: "string \<Rightarrow> bool \<Rightarrow> 'g root \<Rightarrow> 'g ocp" where
  "run_setup persistenceDir migrateDB cfg =
     (let (sqlite, cfg) = SetSQLitePersistentByDefault persistenceDir cfg in WithMigrateDB (migrateDB \<or> sqlite) (New_ocp cfg))"

subsection \<open>What a worker has done\<close>

lemma ran_single:
  assumes "\<not> done_closed w" "\<not> changed w" "singleShot w"
  shows "\<exists>tr st. ran env now w = w\<lparr>trace := tr, status := st, done_closed := True\<rparr>"
proof -
  obtain revision where f: "follows (\<lambda>w. w) (plan w revision) w (Execute_phases env w)"
    using Execute_phases_follows by blast
  show ?thesis
  proof (cases "Execute_phases env w")
    case (Inr w1)
    with f have "w1 = w\<lparr>trace := trace w @ plan w revision\<rparr>" by (simp add: follows_def extends_def)
    then show ?thesis
      using assms Inr
      by (intro exI [of _ "trace (ran env now w)"] exI [of _ "status (ran env now w)"])
        (simp add: ran_def Execute_def configurationChanged_def report_def die_eq Let_def)
  next
    case (Inl fw)
    then obtain state err w1 where e: "Execute_phases env w = Inl ((state, err), w1)" by (cases fw) auto
    with f obtain es where "w1 = w\<lparr>trace := es\<rparr>" by (auto simp: follows_def extends_def)
    then show ?thesis
      using assms e
      by (intro exI [of _ "trace (ran env now w)"] exI [of _ "status (ran env now w)"])
        (simp add: ran_def Execute_def configurationChanged_def report_def die_eq Let_def)
  qed
qed

lemma ran_kept [simp]:
  assumes "\<not> done_closed w" "\<not> changed w" "singleShot w"
  shows "bundleConfig (ran env now w) = bundleConfig w" "done_closed (ran env now w)"
  using ran_single [OF assms, of env now] by auto

lemma ran_succeeds:
  assumes "\<not> done_closed w" "\<not> changed w" "singleShot w" and "st_State (status (ran env now w)) = Success"
  shows "\<exists>revision. trace (ran env now w) = trace w @ plan w revision @ map Close [0..<length (synchronizers w)]"
  using Execute_not_changed [OF assms(1,2), of env now] assms(3,4) by (auto simp: ran_def)

lemma fresh_worker_new:
  assumes "fresh_worker env tnt td b = Some w"
  shows "bundleConfig w = b \<and> singleShot w = svc_singleShot env \<and> \<not> done_closed w \<and> \<not> changed w \<and> storage w \<and> trace w = []"
  using assms by (auto simp: fresh_worker_def new_worker_def worker_defs Let_def split: prod.splits if_splits)

subsection \<open>Polling\<close>

text \<open>Each worker is as it was started, or was executed once.\<close>

definition polled :: "(string \<Rightarrow> environment) \<Rightarrow> int \<Rightarrow> (string \<times> 'g worker) list \<Rightarrow> (string \<times> 'g worker) list \<Rightarrow> bool" where
  "polled envs now = list_all2 (\<lambda>(i, w) (j, w'). j = i \<and> (w' = w \<or> w' = ran (envs i) now w))"

definition startable :: "(string \<times> 'g worker) list \<Rightarrow> bool" where
  "startable ws \<longleftrightarrow> (\<forall>(i, w) \<in> set ws. \<not> done_closed w \<and> \<not> changed w \<and> singleShot w)"

lemma polled_execute:
  assumes "polled envs now ws (workers s)" "startable ws"
  shows "polled envs now ws (workers (execute_worker envs now i s))"
proof -
  let ?f = "\<lambda>(j, w). (j, if j = i \<and> \<not> Done w then ran (envs i) now w else w)"
  have "list_all2 (\<lambda>(i, w) y. case ?f y of (j, w') \<Rightarrow> j = i \<and> (w' = w \<or> w' = ran (envs i) now w)) ws (workers s)"
    using assms(1) unfolding polled_def
  proof (rule list.rel_mono_strong)
    fix x y
    assume "x \<in> set ws" and step: "(\<lambda>(i, w) (j, w'). j = i \<and> (w' = w \<or> w' = ran (envs i) now w)) x y"
    moreover obtain i' w where x: "x = (i', w)" by (cases x)
    ultimately have w: "\<not> done_closed w" "\<not> changed w" "singleShot w" using assms(2) by (auto simp: startable_def)
    from step x obtain w' where "y = (i', w')" "w' = w \<or> w' = ran (envs i') now w" by (cases y) auto
    then show "(\<lambda>(i, w) y. case ?f y of (j, w') \<Rightarrow> j = i \<and> (w' = w \<or> w' = ran (envs i) now w)) x y"
      using w by (auto simp: x Done_def)
  qed
  then show ?thesis by (simp add: polled_def execute_worker_def list.rel_map case_prod_beta')
qed

lemma polled_fold:
  "polled envs now ws (workers s) \<Longrightarrow> startable ws \<Longrightarrow> polled envs now ws (workers (fold (execute_worker envs now) is s))"
  by (induction "is" arbitrary: s) (simp_all add: polled_execute)

lemma failures_execute [simp]: "failures (fold (execute_worker envs now) is s) = failures s"
  by (induction "is" arbitrary: s) (simp_all add: execute_worker_def)

lemma wait_done_polled:
  "wait_done envs now polls s = Some s' \<Longrightarrow> polled envs now ws (workers s) \<Longrightarrow> startable ws \<Longrightarrow>
   polled envs now ws (workers s') \<and> allWorkersDone s' \<and> failures s' = failures s"
  by (induction envs now polls s rule: wait_done.induct) (auto simp: polled_fold split: if_splits)

definition pending :: "'g service \<Rightarrow> string set" where
  "pending s = {i. \<exists>w. (i, w) \<in> set (workers s) \<and> \<not> done_closed w}"

lemma allWorkersDone_iff: "allWorkersDone s \<longleftrightarrow> pending s = {}"
  by (auto simp: allWorkersDone_def pending_def list_all_iff Done_def)

lemma pending_execute:
  assumes "polled envs now ws (workers s)" "startable ws"
  shows "pending (execute_worker envs now i s) \<subseteq> pending s - {i}"
proof
  fix j
  assume "j \<in> pending (execute_worker envs now i s)"
  then obtain w where w: "(j, w) \<in> set (workers s)"
    and open1: "\<not> done_closed (if j = i \<and> \<not> Done w then ran (envs i) now w else w)"
    by (auto simp: pending_def execute_worker_def split: if_splits)
  then have "\<not> done_closed w" by (auto simp: Done_def split: if_splits)
  moreover have "done_closed (ran (envs j) now w)" if "\<not> done_closed w"
  proof -
    from w obtain k where k: "k < length (workers s)" "workers s ! k = (j, w)" by (auto simp: in_set_conv_nth)
    obtain i' v where v: "ws ! k = (i', v)" by fastforce
    from list_all2_nthD2 [OF assms(1) [unfolded polled_def] k(1)] k(2) v have "j = i'" "w = v \<or> w = ran (envs i') now v" by auto
    moreover have "(i', v) \<in> set ws"
      using v k(1) nth_mem [of k ws] list_all2_lengthD [OF assms(1) [unfolded polled_def]] by simp
    ultimately show ?thesis using assms(2) that by (auto simp: startable_def)
  qed
  ultimately show "j \<in> pending s - {i}"
    using w open1 by (auto simp: pending_def Done_def)
qed

lemma wait_done_ends:
  "polled envs now ws (workers s) \<Longrightarrow> startable ws \<Longrightarrow> pending s \<subseteq> set (concat polls) \<Longrightarrow> wait_done envs now polls s \<noteq> None"
proof (induction polls arbitrary: s)
  case Nil
  then show ?case by (simp add: allWorkersDone_iff)
next
  case (Cons ids polls)
  have "polled envs now ws (workers (fold (execute_worker envs now) is' s)) \<and>
      pending (fold (execute_worker envs now) is' s) \<subseteq> pending s - set is'" for is'
    using Cons.prems(1)
  proof (induction is' arbitrary: s)
    case (Cons i is')
    from Cons.IH [OF polled_execute [OF Cons.prems \<open>startable ws\<close>]] pending_execute [OF Cons.prems \<open>startable ws\<close>]
    show ?case by fastforce
  qed simp
  then show ?case using Cons.IH [OF _ Cons.prems(2)] Cons.prems(3) by fastforce
qed

lemma wait_done_at_once: "allWorkersDone s \<Longrightarrow> wait_done envs now polls s = Some s"
  by (cases polls) simp_all

lemma new_done: "allWorkersDone New_service"
  by (simp add: allWorkersDone_def New_service_def)

lemma polled_refl: "polled envs now ws ws"
  by (auto simp: polled_def list_all2_same split: prod.split)

lemma wait_done_workers:
  assumes "wait_done envs now polls s = Some s'" "startable (workers s)"
  shows "workers s' = map (\<lambda>(i, w). (i, ran (envs i) now w)) (workers s) \<and> failures s' = failures s"
proof -
  from wait_done_polled [OF assms(1) polled_refl assms(2)]
  have p: "polled envs now (workers s) (workers s')" and d: "allWorkersDone s'" and f: "failures s' = failures s" by simp_all
  have "workers s' ! k = (\<lambda>(i, w). (i, ran (envs i) now w)) (workers s ! k)" if k: "k < length (workers s)" for k
  proof -
    obtain i w where a: "workers s ! k = (i, w)" by fastforce
    obtain j w' where b: "workers s' ! k = (j, w')" by fastforce
    from p k a b have "j = i" "w' = w \<or> w' = ran (envs i) now w" by (auto simp: polled_def list_all2_conv_all_nth)
    moreover from d p k b have "done_closed w'"
      by (auto simp: allWorkersDone_def list_all_length Done_def polled_def list_all2_conv_all_nth)
    moreover from assms(2) nth_mem [OF k] a have "\<not> done_closed w" by (auto simp: startable_def)
    ultimately show ?thesis using a b by auto
  qed
  moreover have "length (workers s') = length (workers s)"
    using p by (simp add: polled_def list_all2_lengthD)
  ultimately show ?thesis using f by (auto intro: nth_equalityI)
qed

subsection \<open>What is reported\<close>

lemma map_of_fold_put:
  "map_of (fold (\<lambda>x. map_put (f x) (g x)) xs m) = map_of m ++ map_of (rev (map (\<lambda>x. (f x, g x)) xs))"
  by (induction xs arbitrary: m) (simp_all add: map_add_upd [symmetric] map_add_assoc [symmetric])

lemma distinct_fold_put:
  "distinct (map fst m) \<Longrightarrow> distinct (map fst (fold (\<lambda>x. map_put (f x) (g x)) xs m))"
  by (induction xs arbitrary: m) simp_all

text \<open>Why a bundle gets no worker.\<close>

definition config_failure :: "('m, 'g) service_env \<Rightarrow> string \<Rightarrow> 'g tenant_data \<Rightarrow> bundle_config \<Rightarrow> status option" where
  "config_failure env tenant td b =
     (let root1 = bundle_root (glob_match (svc_opa env)) (svc_ref_string env) b (td_stacks td);
          (deps, overrides, conflicts) = getDeps (bs_Requirements root1) (sources_by_name (td_sources td))
      in if conflicts \<noteq> {} then Some \<lparr>st_State = ConfigError, st_Message = conflict_message tenant conflicts\<rparr>
         else if svc_storage env then None
         else map_option (\<lambda>err. \<lparr>st_State = ConfigError, st_Message = ''object storage: '' @ err\<rparr>) (svc_new_storage env (bun_ObjectStorage b)))"

lemma config_failure_iff: "config_failure env tnt td b = None \<longleftrightarrow> fresh_worker env tnt td b \<noteq> None"
  by (auto simp: config_failure_def fresh_worker_def Let_def split: prod.splits)

lemma config_failure_state: "config_failure env tnt td b = Some st \<Longrightarrow> st_State st = ConfigError"
  by (auto simp: config_failure_def Let_def split: prod.splits if_splits)

lemma config_failure_the: "fresh_worker env tnt td b = None \<Longrightarrow> st_State (the (config_failure env tnt td b)) \<noteq> Success"
proof -
  assume "fresh_worker env tnt td b = None"
  then obtain st where "config_failure env tnt td b = Some st" using config_failure_iff [of env tnt td b] by auto
  then show ?thesis using config_failure_state by fastforce
qed

lemma launch_bundle_failures:
  "map_of (workers s) (worker_id tnt (bun_Name b)) = None \<Longrightarrow>
   map_of (failures (launch_bundle env tnt td b s)) n =
     (if n = bun_Name b \<and> config_failure env tnt td b \<noteq> None then config_failure env tnt td b else map_of (failures s) n)"
  by (auto simp: launch_bundle_def config_failure_def fail_def start_worker_def Let_def split: option.splits prod.splits)

lemma launch_bundles_failures:
  assumes "distinct (map bun_Name bs)" and "\<forall>b \<in> set bs. map_of (workers s) (worker_id tnt (bun_Name b)) = None"
  shows "map_of (failures (fold (launch_bundle env tnt td) bs s)) n =
    (case find (\<lambda>b. bun_Name b = n \<and> config_failure env tnt td b \<noteq> None) bs of
       None \<Rightarrow> map_of (failures s) n | Some b \<Rightarrow> config_failure env tnt td b)"
  using assms
proof (induction bs arbitrary: s)
  case (Cons b bs)
  from Cons.prems have other: "\<forall>c \<in> set bs. map_of (workers (launch_bundle env tnt td b s)) (worker_id tnt (bun_Name c)) = None"
    by (auto simp: launch_bundle_workers image_iff)
  have "find (\<lambda>c. bun_Name c = bun_Name b \<and> config_failure env tnt td c \<noteq> None) bs = None"
    using Cons.prems(1) by (auto simp: find_None_iff image_iff)
  with Cons.IH [OF _ other] Cons.prems show ?case
    by (auto simp: launch_bundle_failures split: option.split)
qed simp

lemma distinct_failures:
  "distinct (map fst (failures s)) \<Longrightarrow> distinct (map fst (failures (fold (launch_bundle env tnt td) bs s)))"
proof (induction bs arbitrary: s)
  case (Cons b bs)
  have "distinct (map fst (failures (launch_bundle env tnt td b s)))"
    using Cons.prems by (auto simp: launch_bundle_def fail_def start_worker_def Let_def split: option.split prod.split)
  then show ?case using Cons.IH by simp
qed simp

lemma map_of_named:
  "\<forall>(i, w) \<in> set ws. i = worker_id tnt (bun_Name (bundleConfig w)) \<Longrightarrow>
   map_of (map (\<lambda>(i, w). (bun_Name (bundleConfig w), h i w)) ws) n = map_option (h (worker_id tnt n)) (map_of ws (worker_id tnt n))"
  by (induction ws) auto

lemma started_workers:
  fixes td :: "'g tenant_data"
  assumes "distinct (map bun_Name (td_bundles td))"
  shows "map_of (workers (launch_tenant env tnt td New_service)) (worker_id tnt n) =
      Option.bind (find (\<lambda>b. bun_Name b = n) (td_bundles td)) (fresh_worker env tnt td)"
    and "(i, w) \<in> set (workers (launch_tenant env tnt td New_service)) \<Longrightarrow>
      \<exists>b \<in> set (td_bundles td). i = worker_id tnt (bun_Name b) \<and> fresh_worker env tnt td b = Some w"
proof -
  let ?ws = "workers (launch_tenant env tnt td New_service)"
  have new: "distinct (map fst (workers (New_service :: 'g service)))" by (simp add: New_service_def)
  have at: "map_of ?ws j = promised env tnt td [] j" for j
    using launch_tenant_workers [OF new assms] by (simp add: New_service_def)
  show "map_of ?ws (worker_id tnt n) = Option.bind (find (\<lambda>b. bun_Name b = n) (td_bundles td)) (fresh_worker env tnt td)"
    by (simp add: at promised_def running_def split: option.split)
  assume "(i, w) \<in> set ?ws"
  then have "map_of ?ws i = Some w" by (intro map_of_is_SomeI distinct_launch_tenant new)
  then show "\<exists>b \<in> set (td_bundles td). i = worker_id tnt (bun_Name b) \<and> fresh_worker env tnt td b = Some w"
    unfolding at promised_def running_def by (auto simp: find_Some_iff split: option.splits)
qed

lemma tenant_failures:
  assumes "distinct (map bun_Name (td_bundles td))"
  shows "map_of (failures (launch_tenant env tnt td New_service)) n =
    Option.bind (find (\<lambda>b. bun_Name b = n) (td_bundles td)) (config_failure env tnt td)"
proof -
  have f: "find (\<lambda>b. bun_Name b = n \<and> P b) bs = (case find (\<lambda>b. bun_Name b = n) bs of Some b \<Rightarrow> if P b then Some b else None | None \<Rightarrow> None)"
    if "distinct (map bun_Name bs)" for bs P
    using that
  proof (induction bs)
    case (Cons b bs)
    have "find (\<lambda>c. bun_Name c = bun_Name b \<and> P c) bs = None" using Cons.prems by (auto simp: find_None_iff image_iff)
    with Cons show ?case by auto
  qed simp
  show ?thesis
    by (simp add: launch_tenant_def New_service_def shut_down_def launch_bundles_failures [OF assms] f [OF assms] split: option.split)
qed

definition bundle_status :: "('m, 'g) service_env \<Rightarrow> (string \<Rightarrow> environment) \<Rightarrow> int \<Rightarrow> string \<Rightarrow> 'g tenant_data \<Rightarrow> bundle_config \<Rightarrow> status" where
  "bundle_status env envs now tnt td b =
     (case fresh_worker env tnt td b of
        Some w \<Rightarrow> status (ran (envs (worker_id tnt (bun_Name b))) now w)
      | None \<Rightarrow> the (config_failure env tnt td b))"

text \<open>The report of a single-shot run over one tenant: a status for every bundle.\<close>

lemma single_shot_report:
  assumes names: "distinct (map bun_Name (td_bundles td))" and single: "svc_singleShot env"
    and run: "wait_done envs now polls (launch_tenant env tnt td New_service) = Some s"
  shows "map_of (service_report (stop_workers s)) n =
      map_option (bundle_status env envs now tnt td) (find (\<lambda>b. bun_Name b = n) (td_bundles td))"
    and "distinct (map fst (service_report (stop_workers s)))"
proof -
  define s0 where "s0 = launch_tenant env tnt td New_service"
  note started = started_workers [OF names, where env = env and tnt = tnt, folded s0_def]
  have named: "\<forall>(i, w) \<in> set (workers s0). i = worker_id tnt (bun_Name (bundleConfig w))"
    using started(2) fresh_worker_new by fastforce
  have start: "startable (workers s0)"
    using started(2) fresh_worker_new single by (fastforce simp: startable_def)
  from wait_done_workers [OF run [folded s0_def] start]
  have s: "workers s = map (\<lambda>(i, w). (i, ran (envs i) now w)) (workers s0)" "failures s = failures s0" by simp_all
  define L where "L = map (\<lambda>x. (bun_Name (bundleConfig (snd x)), status (snd x))) (workers (stop_workers s))"
  have L: "L = map (\<lambda>(i, w). (bun_Name (bundleConfig w), status (ran (envs i) now w))) (workers s0)"
    unfolding L_def stop_workers_def s using start
    by (auto simp: startable_def UpdateConfig_def changeConfiguration_def)
  have "map (worker_id tnt) (map fst L) = map fst (workers s0)"
    using named by (auto simp: L)
  moreover have "distinct (map fst (workers s0))"
    unfolding s0_def by (rule distinct_launch_tenant) (simp add: New_service_def)
  ultimately have dL: "distinct (map fst L)" by (metis distinct_map)
  have dF: "distinct (map fst (failures s0))"
    unfolding s0_def launch_tenant_def by (rule distinct_failures) simp
  have rep: "service_report (stop_workers s) =
      fold (\<lambda>x. map_put (fst x) (snd x)) (failures s0)
        (fold (\<lambda>x. map_put (bun_Name (bundleConfig (snd x))) (status (snd x))) (workers (stop_workers s)) [])"
    by (simp add: service_report_def case_prod_beta' s stop_workers_def)
  show "distinct (map fst (service_report (stop_workers s)))"
    unfolding rep by (intro distinct_fold_put) simp
  have "map_of (service_report (stop_workers s)) = map_of L ++ map_of (failures s0)"
    unfolding rep map_of_fold_put L_def [symmetric] by (simp add: map_of_rev_distinct [OF dL] map_of_rev_distinct [OF dF])
  moreover have "map_of L n = map_option (\<lambda>w. status (ran (envs (worker_id tnt n)) now w)) (map_of (workers s0) (worker_id tnt n))"
    unfolding L by (rule map_of_named [OF named])
  ultimately have at: "map_of (service_report (stop_workers s)) n =
      (case Option.bind (find (\<lambda>b. bun_Name b = n) (td_bundles td)) (config_failure env tnt td) of
         Some st \<Rightarrow> Some st
       | None \<Rightarrow> map_option (\<lambda>w. status (ran (envs (worker_id tnt n)) now w))
           (Option.bind (find (\<lambda>b. bun_Name b = n) (td_bundles td)) (fresh_worker env tnt td)))"
    by (simp add: map_add_def started(1) tenant_failures [OF names, where env = env and tnt = tnt, folded s0_def] split: option.split)
  show "map_of (service_report (stop_workers s)) n =
      map_option (bundle_status env envs now tnt td) (find (\<lambda>b. bun_Name b = n) (td_bundles td))"
  proof (cases "find (\<lambda>b. bun_Name b = n) (td_bundles td)")
    case None
    with at show ?thesis by simp
  next
    case (Some b)
    then have "bun_Name b = n" by (auto simp: find_Some_iff)
    with at Some config_failure_iff [of env tnt td b] show ?thesis
      by (cases "fresh_worker env tnt td b") (auto simp: bundle_status_def split: option.split)
  qed
qed

lemma initDB_service: "oc_service (snd (initDB oenv s)) = oc_service s"
  by (auto simp: initDB_def Let_def split: sum.split option.split prod.split)

lemma build_command_eq:
  assumes "Service_Init oenv (WithMigrateDB (migrateDB \<or> root_Database cfg = None) (New_ocp (build_config names cfg))) = (None, s0)"
  shows "build_command oenv env envs now ps names migrateDB cfg =
    map_option (\<lambda>sv. let b = collectBuildReport (service_report (stop_workers sv)) in (if allBuildsSuccessful b then 0 else 1, Some b))
      (run_loop (env\<lparr>svc_singleShot := True\<rparr>) envs now ps New_service)"
proof -
  have db: "root_Database (build_config names cfg) = root_Database cfg" by (simp add: build_config_def)
  have "oc_service s0 = New_service"
    using assms initDB_service [of oenv "WithMigrateDB (migrateDB \<or> root_Database cfg = None) (New_ocp (build_config names cfg))"]
    by (auto simp: Service_Init_def WithMigrateDB_def New_ocp_def split: prod.splits)
  then show ?thesis
    using assms
    by (cases "run_loop (env\<lparr>svc_singleShot := True\<rparr>) envs now ps New_service")
      (simp_all add: build_command_def Run_service_def db Let_def)
qed

lemma length_filter_all: "length (filter P xs) = length xs \<longleftrightarrow> (\<forall>x \<in> set xs. P x)"
proof
  show "\<forall>x \<in> set xs. P x" if "length (filter P xs) = length xs"
  proof
    fix x
    assume "x \<in> set xs"
    with that show "P x" using length_filter_less [of x xs P] by (cases "P x") auto
  qed
qed simp

lemma collectBuildReport_spec:
  assumes "distinct (map fst R)"
  shows "allBuildsSuccessful (collectBuildReport R) \<longleftrightarrow> (\<forall>n st. map_of R n = Some st \<longrightarrow> st_State st = Success)"
    and "bd_totalBuilds (collectBuildReport R) = card (dom (map_of R))"
proof -
  show "bd_totalBuilds (collectBuildReport R) = card (dom (map_of R))"
    using distinct_card [OF assms] by (simp add: collectBuildReport_def Let_def dom_map_of_conv_image_fst)
  let ?P = "\<lambda>n. st_State (the (map_of R n)) = Success"
  have "allBuildsSuccessful (collectBuildReport R) \<longleftrightarrow> length (filter ?P (sort (map fst R))) = length (sort (map fst R))"
    by (auto simp: allBuildsSuccessful_def collectBuildReport_def Let_def)
  also have "\<dots> \<longleftrightarrow> (\<forall>n \<in> set (sort (map fst R)). ?P n)"
    by (rule length_filter_all)
  also have "\<dots> \<longleftrightarrow> (\<forall>n \<in> dom (map_of R). ?P n)" by (simp add: dom_map_of_conv_image_fst)
  also have "\<dots> \<longleftrightarrow> (\<forall>n st. map_of R n = Some st \<longrightarrow> st_State st = Success)" by (force simp: dom_def)
  finally show "allBuildsSuccessful (collectBuildReport R) \<longleftrightarrow> (\<forall>n st. map_of R n = Some st \<longrightarrow> st_State st = Success)" .
qed


subsection \<open>An example\<close>

definition example_root :: "string root" where
  "example_root = \<lparr>root_Metadata = \<lparr>md_ExportedFrom = [], md_ExportedAt = []\<rparr>, root_Bundles = fmempty, root_Stacks = fmempty,
     root_Sources = fmempty, root_Secrets = fmempty, root_Tokens = fmempty, root_Database = None, root_Service = None\<rparr>"

definition example_ocp_env :: "string ocp_env" where
  "example_ocp_env = \<lparr>oe_parse = (\<lambda>bs. Inl bs), oe_outside = (\<lambda>c. example_outside), oe_tables = (\<lambda>c t. if t = ''tenants'' then
       [fmap_of_list [(''id'', VInt 1), (''name'', VStr ''default'')]] else []),
     oe_database = (\<lambda>c. \<lparr>d_kind = Sqlite, d_new_id = (\<lambda>db t. 1), d_begin = None, d_commit = (\<lambda>db. None),
       d_authorizer = \<lparr>au_Check = (\<lambda>db a. True), au_Partial = (\<lambda>a m. Inr None)\<rparr>\<rparr>),
     oe_expand = (\<lambda>s. s), oe_files = (\<lambda>s. Inr []), oe_tokens = (\<lambda>r. [])\<rparr>"

lemma example_migrated: "snd (Migrations.Run True example_outside) = None"
proof -
  have "file_versions (out_dialect example_outside) = [0..<24]"
    by (simp only: file_versions_def Migrations_versions)
  then have "findLatest (driver_First (out_dialect example_outside)) (driver_Next (out_dialect example_outside)) = Some 23"
    by (simp add: files_driver.findLatest_last)
  moreover have "snd (waitForDB (out_ping example_outside))" by code_simp
  ultimately show ?thesis by (simp add: Run_def) (simp add: example_outside_def)
qed

lemma example_principal:
  "fst (UpsertPrincipal (oe_database example_ocp_env None) internalPrincipal ''administrator'' defaultTenant (oe_tables example_ocp_env None)) = None"
  by code_simp

lemma example_load: "fst (LoadConfig (oe_database example_ocp_env None) (\<lambda>s. s) (\<lambda>s. Inr []) prn tnt [] example_root db) = None"
proof -
  have "by_name (root_Secrets example_root) = []" "by_name (root_Bundles example_root) = []" "by_name (root_Stacks example_root) = []"
    by code_simp+
  moreover have "TopologicalSortedSources (live (root_Sources example_root)) = Inr []" by code_simp
  ultimately show ?thesis by (simp add: LoadConfig_def load_steps_def)
qed

lemma example_init: "\<exists>s. Service_Init example_ocp_env (WithMigrateDB (m \<or> root_Database example_root = None) (New_ocp (build_config [] example_root))) = (None, s)"
proof -
  have env: "root_Database example_root = None" "oe_outside example_ocp_env c = example_outside" "oe_expand example_ocp_env = (\<lambda>s. s)"
    "oe_files example_ocp_env = (\<lambda>s. Inr [])" "oe_tokens example_ocp_env r = []" for c r
    by (simp_all add: example_root_def example_ocp_env_def)
  obtain db where "UpsertPrincipal (oe_database example_ocp_env None) internalPrincipal ''administrator'' defaultTenant
      (oe_tables example_ocp_env None) = (None, db)"
    using example_principal by (metis prod.collapse)
  moreover obtain db' where "LoadConfig (oe_database example_ocp_env None) (\<lambda>s. s) (\<lambda>s. Inr []) internalPrincipal defaultTenant [] example_root db = (None, db')"
    using example_load by (metis prod.collapse)
  ultimately show ?thesis
    by (simp add: Service_Init_def initDB_def WithMigrateDB_def New_ocp_def build_config_def env example_migrated Let_def)
qed

definition example_pass :: "string pass" where
  "example_pass = \<lparr>ps_tenants = [(''t1'', Inr (example_tenant ''b''))], ps_polls = [[worker_id ''t1'' ''b'']], ps_cancelled = False\<rparr>"


end
