(* ===== verification/Loading.thy ===== *)
theory Loading
  imports ConfigMerge ConfigRoot Cursor
begin

text \<open>
  How a configuration is read (\<open>internal/config/merge.go\<close>, \<open>Parse\<close> of \<open>internal/config/config.go\<close>): the files below the given paths
  are decoded and merged, the text of the result is checked by the schema and decoded again, each bundle is
  validated and the names and secrets are filled in. And how the parts of a configuration are written: files in base 64, selectors, references
  to secrets. The YAML library, the schema and the disk are parameters.
\<close>

subsection \<open>Reading\<close>

record 'g load_env =
  le_Walk :: "string \<Rightarrow> string + string list"        \<comment> \<open>the files below a path\<close>
  le_ReadFile :: "string \<Rightarrow> string + string"
  le_Unmarshal :: "string \<Rightarrow> string + doc"
  le_Marshal :: "doc \<Rightarrow> string + string"
  le_schema :: "string \<Rightarrow> string option"
  le_decode :: "string \<Rightarrow> string + 'g root"           \<comment> \<open>without the methods of the structures\<close>
  le_compile :: "string \<Rightarrow> 'g option"

datatype load_error =
    WalkFailed string
  | ReadFailed string string
  | BadDocument string string
  | MergeFailed merge_error
  | MarshalFailed string
  | SchemaViolation string
  | DecodeFailed string
  | InvalidBundle string config_error

definition config_paths :: "'g load_env \<Rightarrow> string list \<Rightarrow> load_error + string list" where
  "config_paths env configFiles =
     fold_result (\<lambda>f paths. case le_Walk env f of Inl e \<Rightarrow> Inl (WalkFailed e) | Inr ps \<Rightarrow> Inr (paths @ ps)) configFiles []"

definition config_doc :: "'g load_env \<Rightarrow> string \<Rightarrow> load_error + doc" where
  "config_doc env f =
     (case le_ReadFile env f of
        Inl e \<Rightarrow> Inl (ReadFailed f e)
      | Inr bs \<Rightarrow> (case le_Unmarshal env bs of Inl e \<Rightarrow> Inl (BadDocument f e) | Inr x \<Rightarrow> Inr x))"

definition config_docs :: "'g load_env \<Rightarrow> string list \<Rightarrow> load_error + doc list" where
  "config_docs env paths = fold_result (\<lambda>f docs. result_bind (config_doc env f) (\<lambda>x. Inr (docs @ [x]))) paths []"

definition Merge :: "'g load_env \<Rightarrow> string list \<Rightarrow> bool \<Rightarrow> load_error + string" where
  "Merge env configFiles conflictError =
     result_bind (config_paths env configFiles) (\<lambda>paths.
     result_bind (config_docs env paths) (\<lambda>docs.
       case merge_docs conflictError docs of
         Inl e \<Rightarrow> Inl (MergeFailed e)
       | Inr whole \<Rightarrow> (case le_Marshal env whole of Inl e \<Rightarrow> Inl (MarshalFailed e) | Inr bs \<Rightarrow> Inr bs)))"

text \<open>The decoder of a bundle validates it; a bundle that is nil has none. The first failure counts.\<close>

fun first_some :: "('a \<Rightarrow> 'b option) \<Rightarrow> 'a list \<Rightarrow> 'b option" where
  "first_some f [] = None"
| "first_some f (x # xs) = (case f x of Some y \<Rightarrow> Some y | None \<Rightarrow> first_some f xs)"

definition invalid_bundle :: "(string \<Rightarrow> 'g option) \<Rightarrow> bundle_config entries \<Rightarrow> (string \<times> config_error) option" where
  "invalid_bundle compile bundles =
     first_some (\<lambda>(k, b). case b of None \<Rightarrow> None | Some b \<Rightarrow> map_option (Pair k) (Bundle_validate compile b))
       (sorted_list_of_fmap bundles)"

definition UnmarshalRoot :: "'g load_env \<Rightarrow> string \<Rightarrow> load_error + 'g root" where
  "UnmarshalRoot env bs =
     (case le_decode env bs of
        Inl e \<Rightarrow> Inl (DecodeFailed e)
      | Inr raw \<Rightarrow>
          (case invalid_bundle (le_compile env) (root_Bundles raw) of
             Some (k, e) \<Rightarrow> Inl (InvalidBundle k e)
           | None \<Rightarrow> Inr (Root_unmarshal raw)))"

definition Parse :: "'g load_env \<Rightarrow> string \<Rightarrow> load_error + 'g root" where
  "Parse env bs = (case le_schema env bs of Some e \<Rightarrow> Inl (SchemaViolation e) | None \<Rightarrow> UnmarshalRoot env bs)"

definition ParseFile :: "'g load_env \<Rightarrow> string \<Rightarrow> load_error + 'g root" where
  "ParseFile env filename =
     (case le_ReadFile env filename of Inl e \<Rightarrow> Inl (ReadFailed filename e) | Inr bs \<Rightarrow> Parse env bs)"

text \<open>What the commands do first.\<close>

definition load_config :: "'g load_env \<Rightarrow> string list \<Rightarrow> bool \<Rightarrow> load_error + 'g root" where
  "load_config env configFiles conflictError = result_bind (Merge env configFiles conflictError) (Parse env)"

subsection \<open>Writing\<close>

text \<open>The standard alphabet differs from that for URLs in the last two symbols.\<close>

definition std_symbol :: "char \<Rightarrow> char" where
  "std_symbol c = (if c = CHR ''-'' then CHR ''+'' else if c = CHR ''_'' then CHR ''/'' else c)"

definition url_symbol :: "char \<Rightarrow> char" where
  "url_symbol c = (if c = CHR ''+'' then CHR ''-'' else if c = CHR ''/'' then CHR ''_'' else c)"

definition std_encode :: "string \<Rightarrow> string" where
  "std_encode s = map std_symbol (b64_encode s)"

definition std_decode :: "string \<Rightarrow> string option" where
  "std_decode s = (if CHR ''-'' \<in> set s \<or> CHR ''_'' \<in> set s then None else b64_decode (map url_symbol s))"

definition Files_MarshalYAML :: "(string, string) fmap \<Rightarrow> (string, string) fmap" where
  "Files_MarshalYAML f = fmmap std_encode f"

definition Files_unmarshal :: "(string \<times> string) list \<Rightarrow> string + (string, string) fmap" where
  "Files_unmarshal raw =
     fold_result (\<lambda>(key, v) f. case std_decode v of
         None \<Rightarrow> Inl (''failed to decode value for key '' @ key)
       | Some bytes \<Rightarrow> Inr (fmupd key bytes f)) raw fmempty"

definition Selector_MarshalYAML :: "'g selector \<Rightarrow> (string, stringset) fmap" where
  "Selector_MarshalYAML s = sel_s s"

definition Selector_Keys :: "'g selector \<Rightarrow> string list" where
  "Selector_Keys s = sorted_list_of_fset (fmdom (sel_s s))"

text \<open>\<open>MustNewSelector\<close>, where \<open>None\<close> is the panic.\<close>

definition MustNewSelector :: "(string \<Rightarrow> 'g option) \<Rightarrow> (string \<times> stringset) list \<Rightarrow> 'g selector option" where
  "MustNewSelector compile s = (case Selector_unmarshal compile s of Inl e \<Rightarrow> None | Inr x \<Rightarrow> Some x)"

definition SecretRef_MarshalYAML :: "secretref \<Rightarrow> string option" where
  "SecretRef_MarshalYAML s = (if ref_Name s = [] then None else Some (ref_Name s))"

definition Secret_MarshalYAML :: "secret \<Rightarrow> (string, any) fmap" where
  "Secret_MarshalYAML s = (case sec_Value s of None \<Rightarrow> fmempty | Some m \<Rightarrow> m)"

subsection \<open>What was written is read back\<close>

lemma b64_symbol_url: "n < 64 \<Longrightarrow> b64_symbol n \<noteq> CHR ''+'' \<and> b64_symbol n \<noteq> CHR ''/''"
proof -
  assume "n < 64"
  moreover have "list_all (\<lambda>n. b64_symbol n \<noteq> CHR ''+'' \<and> b64_symbol n \<noteq> CHR ''/'') [0..<64]" by code_simp
  ultimately show ?thesis by (simp add: list_all_iff)
qed

lemma b64_encode_url: "c \<in> set (b64_encode s) \<Longrightarrow> c \<noteq> CHR ''+'' \<and> c \<noteq> CHR ''/''"
proof (induction s rule: b64_encode.induct)
  case (4 a b c rest)
  have "byte a mod 4 * 16 + byte b div 16 < 64" "byte b mod 16 * 4 + byte c div 64 < 64" "byte c mod 64 < 64"
    using byte_parts(2) [of b] byte_parts(3) [of c] by (linarith, linarith, simp)
  with 4 byte_parts show ?case by (auto simp: b64_symbol_url)
next
  case (3 a b)
  have "byte a mod 4 * 16 + byte b div 16 < 64" "byte b mod 16 * 4 < 64" using byte_parts(2) [of b] by linarith+
  with 3 byte_parts show ?case by (auto simp: b64_symbol_url)
next
  case (2 a)
  have "byte a mod 4 * 16 < 64" by auto
  with 2 byte_parts show ?case by (auto simp: b64_symbol_url)
qed simp

lemma std_symbols: "std_symbol c \<noteq> CHR ''-'' \<and> std_symbol c \<noteq> CHR ''_''"
  by (simp add: std_symbol_def)

lemma url_std_symbol: "c \<noteq> CHR ''+'' \<and> c \<noteq> CHR ''/'' \<Longrightarrow> url_symbol (std_symbol c) = c"
  by (simp add: std_symbol_def url_symbol_def)

lemma std_roundtrip: "std_decode (std_encode s) = Some s"
proof -
  have "map url_symbol (std_encode s) = b64_encode s"
    unfolding std_encode_def map_map by (rule map_idI) (use b64_encode_url url_std_symbol in force)
  moreover have "CHR ''-'' \<notin> set (std_encode s)" "CHR ''_'' \<notin> set (std_encode s)"
    unfolding std_encode_def set_map using std_symbols by (metis imageE)+
  ultimately show ?thesis by (simp add: std_decode_def b64_roundtrip)
qed

lemma Files_unmarshal_from:
  "\<forall>(k, v) \<in> set raw. fmlookup (Files_MarshalYAML f) k = Some v \<Longrightarrow> distinct (map fst raw) \<Longrightarrow>
   fold_result (\<lambda>(key, v) f. case std_decode v of
       None \<Rightarrow> Inl (''failed to decode value for key '' @ key) | Some bytes \<Rightarrow> Inr (fmupd key bytes f)) raw g =
     Inr (g ++\<^sub>f fmrestrict_set (fst ` set raw) f)"
proof (induction raw arbitrary: g)
  case (Cons kv raw)
  obtain k v where kv: "kv = (k, v)" by (cases kv)
  with Cons.prems obtain s where s: "fmlookup f k = Some s" "v = std_encode s"
    by (auto simp: Files_MarshalYAML_def)
  have "fmupd k s g ++\<^sub>f fmrestrict_set (fst ` set raw) f = g ++\<^sub>f fmrestrict_set (fst ` set (kv # raw)) f"
    by (rule fmap_ext) (auto simp: kv s fmlookup_dom_iff)
  then show ?case using Cons by (simp add: kv s std_roundtrip)
qed (simp add: fmap_ext)

text \<open>
  What is written of a configuration is read back: the files of a source, with any contents, from their base 64 form in whatever order they
  are decoded, and the patterns of a selector as they were given.
\<close>
theorem written_is_read:
  assumes "distinct (map fst raw)" and "distinct (map fst raws)"
  shows "(fmap_of_list raw = Files_MarshalYAML f \<longrightarrow> Files_unmarshal raw = Inr f) \<and>
    (\<forall>s. Selector_unmarshal compile raws = Inr s \<longrightarrow> Selector_MarshalYAML s = fmap_of_list raws)"
proof (intro conjI allI impI)
  assume raw: "fmap_of_list raw = Files_MarshalYAML f"
  have "\<forall>(k, v) \<in> set raw. fmlookup (Files_MarshalYAML f) k = Some v"
    using assms(1) by (auto simp: raw [symmetric] fmlookup_of_list)
  moreover have "fst ` set raw = fset (fmdom f)"
    using arg_cong [OF raw, of fmdom'] by (simp add: Files_MarshalYAML_def fmdom'_alt_def dom_map_of_conv_image_fst fmdom'_map fset_of_list.rep_eq)
  then have "fmempty ++\<^sub>f fmrestrict_set (fst ` set raw) f = f"
    by (intro fmap_ext) (auto simp: fmlookup_dom_iff)
  ultimately show "Files_unmarshal raw = Inr f"
    using Files_unmarshal_from [OF _ assms(1), of f fmempty] by (simp add: Files_unmarshal_def)
next
  fix s
  assume "Selector_unmarshal compile raws = Inr s"
  then have "compiled_from compile raws s" using unmarshal_compiled [OF assms(2)] by blast
  moreover have "fmap_of_list (rev raws) = fmap_of_list raws"
  proof -
    have "map_of (rev raws) = map_of raws"
      by (subst map_of_inject_set) (simp_all add: assms(2) rev_map [symmetric])
    then show ?thesis by (intro fmap_ext) (simp add: fmlookup_of_list)
  qed
  ultimately show "Selector_MarshalYAML s = fmap_of_list raws"
    by (simp add: compiled_from_def Selector_MarshalYAML_def)
qed

theorem written_is_read_witness:
  "Files_unmarshal [(''b'', ''Lw==''), (''a'', [])] = Inr (fmap_of_list [(''a'', []), (''b'', ''/'')])"
proof -
  have raw: "fmap_of_list [(''b'', ''Lw==''), (''a'', [])] = Files_MarshalYAML (fmap_of_list [(''a'', []), (''b'', ''/'')])"
    by code_simp
  have "distinct (map fst [(''b'', ''Lw==''), (''a'', [])])" "distinct (map fst ([] :: (string \<times> stringset) list))" by simp_all
  from written_is_read [OF this, THEN conjunct1] raw show ?thesis by blast
qed

subsection \<open>What is read is valid\<close>

lemma first_some_None: "first_some f xs = None \<longleftrightarrow> (\<forall>x \<in> set xs. f x = None)"
  by (induction xs) (auto split: option.splits)

lemma validate_named [simp]: "Bundle_validate compile (b\<lparr>bun_Name := n\<rparr>) = Bundle_validate compile b"
  by (simp add: Bundle_validate_def split: option.split)

lemma validate_inject [simp]: "Bundle_validate compile (inject_bundle secrets b) = Bundle_validate compile b"
proof -
  have "AmazonS3_validate (map_option (\<lambda>x. x\<lparr>s3_Credentials := inject secrets (s3_Credentials x)\<rparr>) a) = AmazonS3_validate a" for a
    by (cases a) simp_all
  moreover have "GCPCloudStorage_validate (map_option (\<lambda>x. x\<lparr>gcp_Credentials := inject secrets (gcp_Credentials x)\<rparr>) g) = GCPCloudStorage_validate g" for g
    by (cases g) simp_all
  moreover have "AzureBlobStorage_validate (map_option (\<lambda>x. x\<lparr>az_Credentials := inject secrets (az_Credentials x)\<rparr>) z) = AzureBlobStorage_validate z" for z
    by (cases z) simp_all
  ultimately show ?thesis
    by (simp add: Bundle_validate_def inject_bundle_def ObjectStorage_validate_def Let_def split: option.split)
qed

lemma validate_zero: "Bundle_validate compile zero_bundle = None"
  by (simp add: Bundle_validate_def zero_bundle_def zero_storage_def ObjectStorage_validate_def)


definition example_load_env :: "string load_env" where
  "example_load_env = \<lparr>le_Walk = (\<lambda>p. Inr [p]), le_ReadFile = (\<lambda>p. Inr ''bundles''), le_Unmarshal = (\<lambda>s. Inr (fmap_of_list [(s, ANull)])),
     le_Marshal = (\<lambda>d. Inr ''bundles''), le_schema = (\<lambda>s. None),
     le_decode = (\<lambda>s. Inr \<lparr>root_Metadata = \<lparr>md_ExportedFrom = [], md_ExportedAt = []\<rparr>, root_Bundles = fmap_of_list [(''b'', None)], root_Stacks = fmempty,
       root_Sources = fmempty, root_Secrets = fmempty, root_Tokens = fmempty, root_Database = None, root_Service = None\<rparr>), le_compile = Some\<rparr>"


end
