(* ===== verification/Transforms.thy ===== *)
theory Transforms
  imports DataSync
begin

text \<open>
  \<open>Source.Transform\<close> of \<open>pkg/builder/builder.go\<close>: files of data are replaced by what a query makes of them. The engine loads the
  directories of the source for each query, so that it sees what earlier transforms wrote. Decoding, encoding and the engine
  are parameters.
\<close>

record transform_env =
  te_decode :: "string \<Rightarrow> string + any"
  te_query :: "disk \<Rightarrow> string list \<Rightarrow> string \<Rightarrow> any \<Rightarrow> string + (string \<times> any) list list"   \<comment> \<open>the text and value of each expression of each result\<close>
  te_encode :: "any \<Rightarrow> string + string"
  te_WriteFile :: "disk \<Rightarrow> string \<Rightarrow> string option"

text \<open>The values of the expression that is the whole query; one value stands for itself, any other number for a list.\<close>

definition query_values :: "string \<Rightarrow> (string \<times> any) list list \<Rightarrow> any list" where
  "query_values query rs = map snd (filter (\<lambda>(t, v). t = query) (concat rs))"

definition transform_value :: "any list \<Rightarrow> any" where
  "transform_value vs = (case vs of [v] \<Rightarrow> v | _ \<Rightarrow> AList vs)"

definition apply_transform :: "transform_env \<Rightarrow> string list \<Rightarrow> transform \<Rightarrow> disk \<Rightarrow> string option \<times> disk" where
  "apply_transform env paths t files =
     (case fmlookup files (tr_Path t) of None \<Rightarrow> (Some ''file does not exist'', files) | Some content \<Rightarrow>
     (case te_decode env content of Inl e \<Rightarrow> (Some (''failed to unmarshal content: '' @ e), files) | Inr input \<Rightarrow>
     (case te_query env files paths (tr_Query t) input of Inl e \<Rightarrow> (Some e, files) | Inr rs \<Rightarrow>
     (case te_encode env (transform_value (query_values (tr_Query t) rs)) of Inl e \<Rightarrow> (Some e, files) | Inr text1 \<Rightarrow>
     (case te_WriteFile env files (tr_Path t) of Some e \<Rightarrow> (Some e, files) | None \<Rightarrow> (None, fmupd (tr_Path t) text1 files))))))"

fun transform_all :: "transform_env \<Rightarrow> string list \<Rightarrow> transform list \<Rightarrow> disk \<Rightarrow> string option \<times> disk" where
  "transform_all env paths [] files = (None, files)"
| "transform_all env paths (t # ts) files =
     (case apply_transform env paths t files of
        (Some e, files) \<Rightarrow> (Some e, files)
      | (None, files) \<Rightarrow> transform_all env paths ts files)"

definition Source_Transform :: "transform_env \<Rightarrow> bsource \<Rightarrow> disk \<Rightarrow> string option \<times> disk" where
  "Source_Transform env s files = transform_all env (map dir_Path (bs_dirs s)) (bs_Transforms s) files"

subsection \<open>What is transformed\<close>

lemma apply_transform_other:
  "p \<noteq> tr_Path t \<Longrightarrow> fmlookup (snd (apply_transform env paths t files)) p = fmlookup files p"
  by (auto simp: apply_transform_def split: option.split sum.split)

lemma transform_all_other:
  "p \<notin> tr_Path ` set ts \<Longrightarrow> fmlookup (snd (transform_all env paths ts files)) p = fmlookup files p"
proof (induction ts arbitrary: files)
  case (Cons t ts)
  then show ?case
    using apply_transform_other [of p t env paths files]
    by (cases "apply_transform env paths t files") (auto split: option.split)
qed simp

lemma transform_all_append:
  "transform_all env paths (us @ vs) files =
     (case transform_all env paths us files of (Some e, files) \<Rightarrow> (Some e, files) | (None, files) \<Rightarrow> transform_all env paths vs files)"
  by (induction us arbitrary: files) (auto split: prod.split option.split)

text \<open>
  Only the files that are named change, whether the transforms succeed or not. If they do, the last transform of a file decides its contents:
  the encoded value of its query on the file, and on the directories, as the transforms before have left them. A query without a
  result empties the file to a list.
\<close>
theorem transforms_effect:
  assumes "Source_Transform env s files = (e, files')"
  shows "(\<forall>p. p \<notin> tr_Path ` set (bs_Transforms s) \<longrightarrow> fmlookup files' p = fmlookup files p) \<and>
    (\<forall>us t vs. e = None \<and> bs_Transforms s = us @ t # vs \<and> tr_Path t \<notin> tr_Path ` set vs \<longrightarrow>
       (\<exists>mid content input rs text1.
          transform_all env (map dir_Path (bs_dirs s)) us files = (None, mid) \<and>
          fmlookup mid (tr_Path t) = Some content \<and> te_decode env content = Inr input \<and>
          te_query env mid (map dir_Path (bs_dirs s)) (tr_Query t) input = Inr rs \<and>
          te_encode env (transform_value (query_values (tr_Query t) rs)) = Inr text1 \<and>
          (query_values (tr_Query t) rs = [] \<longrightarrow> te_encode env (AList []) = Inr text1) \<and>
          fmlookup files' (tr_Path t) = Some text1))"
proof (intro conjI allI impI)
  fix p
  assume "p \<notin> tr_Path ` set (bs_Transforms s)"
  then show "fmlookup files' p = fmlookup files p"
    using assms transform_all_other by (metis Source_Transform_def snd_conv)
next
  fix us t vs
  let ?paths = "map dir_Path (bs_dirs s)"
  assume split: "e = None \<and> bs_Transforms s = us @ t # vs \<and> tr_Path t \<notin> tr_Path ` set vs"
  with assms obtain mid files1 where mid: "transform_all env ?paths us files = (None, mid)"
    and step: "apply_transform env ?paths t mid = (None, files1)" and rest: "transform_all env ?paths vs files1 = (None, files')"
    by (auto simp: Source_Transform_def transform_all_append split: prod.splits option.splits)
  have "fmlookup files' (tr_Path t) = fmlookup files1 (tr_Path t)"
    using transform_all_other [of "tr_Path t" vs env ?paths files1] split rest by simp
  with step mid show "\<exists>mid content input rs text1.
          transform_all env ?paths us files = (None, mid) \<and>
          fmlookup mid (tr_Path t) = Some content \<and> te_decode env content = Inr input \<and>
          te_query env mid ?paths (tr_Query t) input = Inr rs \<and>
          te_encode env (transform_value (query_values (tr_Query t) rs)) = Inr text1 \<and>
          (query_values (tr_Query t) rs = [] \<longrightarrow> te_encode env (AList []) = Inr text1) \<and>
          fmlookup files' (tr_Path t) = Some text1"
    by (auto simp: apply_transform_def transform_value_def split: option.splits sum.splits)
qed

definition example_transform_env :: transform_env where
  "example_transform_env = \<lparr>te_decode = (\<lambda>s. Inr (AStr s)),
     te_query = (\<lambda>files paths q x. if q = ''none'' then Inr [] else Inr [[(q, AList [x])]]),
     te_encode = (\<lambda>x. case x of AList [AStr s] \<Rightarrow> Inr (''['' @ s @ '']'') | _ \<Rightarrow> Inr ''[]''), te_WriteFile = (\<lambda>files p. None)\<rparr>"

theorem transforms_effect_witness:
  "\<exists>files'. Source_Transform example_transform_env ((NewSource ''s'')\<lparr>bs_Transforms := [\<lparr>tr_Query = ''input'', tr_Path = ''d/x''\<rparr>]\<rparr>)
      (fmap_of_list [(''d/x'', ''1''), (''d/y'', ''2'')]) = (None, files') \<and>
     fmlookup files' ''d/x'' = Some ''[1]'' \<and> fmlookup files' ''d/y'' = Some ''2''"
proof -
  let ?s = "(NewSource ''s'')\<lparr>bs_Transforms := [\<lparr>tr_Query = ''input'', tr_Path = ''d/x''\<rparr>]\<rparr>"
    and ?files = "fmap_of_list [(''d/x'', ''1''), (''d/y'', ''2'')]"
  obtain files' where run: "Source_Transform example_transform_env ?s ?files = (None, files')"
    by (simp add: Source_Transform_def NewSource_def apply_transform_def example_transform_env_def query_values_def transform_value_def)
  from transforms_effect [OF run] have "fmlookup files' ''d/y'' = Some ''2''" by simp
  moreover from run have "fmlookup files' ''d/x'' = Some ''[1]''"
    by (auto simp: Source_Transform_def NewSource_def apply_transform_def example_transform_env_def query_values_def transform_value_def)
  ultimately show ?thesis using run by blast
qed

end
