(* ===== verification/EscapeFS.thy ===== *)
theory EscapeFS
  imports FileSystem
begin

text \<open>
  The file system of \<open>internal/fs/escapefs.go\<close>, in which the built-in libraries are kept: names are escaped on the way in, and unescaped in
  listings and errors on the way out. Then the open directories of \<open>internal/fs/mountfs/mountfs.go\<close>, which are listed in pieces.
\<close>

fun unescapeError :: "fs_error \<Rightarrow> fs_error" where
  "unescapeError (NotExist path) = NotExist (unescape path)"
| "unescapeError (FSError path) = FSError (unescape path)"

definition unescape_entries :: "entries \<Rightarrow> entries" where
  "unescape_entries es = map (\<lambda>(n, isDir). (unescape n, isDir)) es"

definition escapeFS_ReadDir :: "fsys \<Rightarrow> string \<Rightarrow> fs_error + entries" where
  "escapeFS_ReadDir f name = map_sum unescapeError unescape_entries (fs_ReadDir f (Escape name))"

definition escapeFS_Open :: "fsys \<Rightarrow> fsys" where
  "escapeFS_Open f name =
     (case f (Escape name) of
        Inl e \<Rightarrow> Inl (unescapeError e)
      | Inr (File content) \<Rightarrow> Inr (File content)
      | Inr (Directory es) \<Rightarrow> Inr (Directory (map_sum unescapeError unescape_entries es)))"

lemma Escape_slash: "Escape (dir @ ''/'' @ n) = Escape dir @ ''/'' @ Escape n"
  by (simp add: Escape_append)

text \<open>
  A name that was embedded in its escaped form is listed as it was, and can be opened by the path that a walk makes of it,
  if it comes back from the escaping: no colon of it is followed by another one or, later, by a hash sign. Any other name is listed by one under
  which there is nothing, or another file.
\<close>
theorem listed_can_be_opened:
  assumes "f (Escape dir) = Inr (Directory (Inr es))" and "(Escape n, isDir) \<in> set es"
  shows "\<exists>es'. escapeFS_Open f dir = Inr (Directory (Inr es')) \<and> (unescape (Escape n), isDir) \<in> set es' \<and>
    (unescape (Escape n) = n \<longleftrightarrow> escapes_well n) \<and>
    (escapes_well n \<longrightarrow> (\<forall>content. escapeFS_Open f (dir @ ''/'' @ unescape (Escape n)) = Inr (File content) \<longleftrightarrow>
       f (Escape dir @ ''/'' @ Escape n) = Inr (File content)))"
proof (intro exI conjI impI allI)
  show "escapeFS_Open f dir = Inr (Directory (Inr (unescape_entries es)))"
    using assms(1) by (simp add: escapeFS_Open_def)
  show "(unescape (Escape n), isDir) \<in> set (unescape_entries es)"
    using assms(2) by (force simp: unescape_entries_def)
  show "unescape (Escape n) = n \<longleftrightarrow> escapes_well n" by (rule unescape_Escape_iff)
  fix content
  assume "escapes_well n"
  then have n: "unescape (Escape n) = n" by (simp add: unescape_Escape_iff)
  show "escapeFS_Open f (dir @ ''/'' @ unescape (Escape n)) = Inr (File content) \<longleftrightarrow> f (Escape dir @ ''/'' @ Escape n) = Inr (File content)"
    unfolding n escapeFS_Open_def Escape_slash by (auto split: sum.split handle.split)
qed

theorem listed_can_be_opened_witness:
  "\<exists>es'. escapeFS_Open (\<lambda>p. if p = ''lib'' then Inr (Directory (Inr [(''a#b'', False)])) else if p = ''lib/a#b'' then Inr (File ''x'') else Inl (NotExist p))
       ''lib'' = Inr (Directory (Inr es')) \<and> (''a:b'', False) \<in> set es'"
proof -
  let ?f = "\<lambda>p. if p = ''lib'' then Inr (Directory (Inr [(''a#b'', False)])) else if p = ''lib/a#b'' then Inr (File ''x'') else Inl (NotExist p)"
  have f: "?f (Escape ''lib'') = Inr (Directory (Inr [(''a#b'', False)]))" "(Escape ''a:b'', False) \<in> set [(''a#b'', False)]"
    by simp_all
  have "unescape (Escape ''a:b'') = ''a:b''" by (subst unescape_Escape_iff) simp
  with listed_can_be_opened [where f = ?f and dir = "''lib''" and n = "''a:b''", OF f] show ?thesis by auto
qed

text \<open>
  Listings of synthesized directories (\<open>internal/fs/mountfs/mountfs.go\<close>) are read in pieces: an open directory is its entries and how many
  of them have been read. A number that is not positive asks for all the rest; at the end a positive one is answered by an end of file.
\<close>

record mapDir =
  md_entry :: entries
  md_offset :: nat

datatype dir_end = EOF

definition mapDir_ReadDir :: "mapDir \<Rightarrow> int \<Rightarrow> (dir_end + entries) \<times> mapDir" where
  "mapDir_ReadDir d cnt =
     (let n = int (length (md_entry d)) - int (md_offset d) in
      if n = 0 \<and> cnt > 0 then (Inl EOF, d)
      else let k = nat (if cnt > 0 \<and> n > cnt then cnt else n) in
        (Inr (take k (drop (md_offset d) (md_entry d))), d\<lparr>md_offset := md_offset d + k\<rparr>))"

definition mapDir_open :: "fs_error + handle \<Rightarrow> mapDir option" where
  "mapDir_open h = (case h of Inr (Directory (Inr es)) \<Rightarrow> Some \<lparr>md_entry = es, md_offset = 0\<rparr> | _ \<Rightarrow> None)"

primrec read_pieces :: "mapDir \<Rightarrow> int list \<Rightarrow> entries \<times> mapDir" where
  "read_pieces d [] = ([], d)"
| "read_pieces d (c # cs) =
     (let (r, d') = mapDir_ReadDir d c; (es, d'') = read_pieces d' cs in
      ((case r of Inl EOF \<Rightarrow> [] | Inr piece \<Rightarrow> piece) @ es, d''))"

lemma mapDir_ReadDir_piece:
  assumes "md_offset d \<le> length (md_entry d)" and "mapDir_ReadDir d c = (r, d')"
  shows "\<exists>k. (case r of Inl EOF \<Rightarrow> [] | Inr piece \<Rightarrow> piece) = take k (drop (md_offset d) (md_entry d)) \<and>
    d' = d\<lparr>md_offset := md_offset d + k\<rparr> \<and> md_offset d + k \<le> length (md_entry d) \<and>
    k = (if c > 0 then min (nat c) (length (md_entry d) - md_offset d) else length (md_entry d) - md_offset d)"
  using assms by (auto simp: mapDir_ReadDir_def Let_def split: if_splits)

lemma take_drop_pieces: "take k (drop n xs) @ take m (drop (n + k) xs) = take (k + m) (drop n xs)"
  by (simp add: take_add add.commute)

lemma read_pieces_prefix:
  "md_offset d \<le> length (md_entry d) \<Longrightarrow> \<exists>k. read_pieces d cs = (take k (drop (md_offset d) (md_entry d)), d\<lparr>md_offset := md_offset d + k\<rparr>) \<and>
     md_offset d + k \<le> length (md_entry d) \<and>
     ((\<exists>c \<in> set cs. c \<le> 0) \<or> sum_list cs \<ge> int (length (md_entry d) - md_offset d) \<longrightarrow> md_offset d + k = length (md_entry d))"
proof (induction cs arbitrary: d)
  case Nil
  then show ?case by (intro exI [of _ 0]) simp
next
  case (Cons c cs)
  obtain r d' where rd: "mapDir_ReadDir d c = (r, d')" by fastforce
  from mapDir_ReadDir_piece [OF Cons.prems rd] obtain k where
    k: "(case r of Inl EOF \<Rightarrow> [] | Inr piece \<Rightarrow> piece) = take k (drop (md_offset d) (md_entry d))"
      "d' = d\<lparr>md_offset := md_offset d + k\<rparr>" "md_offset d + k \<le> length (md_entry d)"
      "k = (if c > 0 then min (nat c) (length (md_entry d) - md_offset d) else length (md_entry d) - md_offset d)"
    by blast
  have "md_offset d' \<le> length (md_entry d')" using k(2,3) by simp
  from Cons.IH [OF this] k(2) obtain m where
    m: "read_pieces d' cs = (take m (drop (md_offset d + k) (md_entry d)), d\<lparr>md_offset := md_offset d + k + m\<rparr>)"
      "md_offset d + k + m \<le> length (md_entry d)"
      "(\<exists>c \<in> set cs. c \<le> 0) \<or> sum_list cs \<ge> int (length (md_entry d) - (md_offset d + k)) \<longrightarrow> md_offset d + k + m = length (md_entry d)"
    by auto
  show ?case
  proof (intro exI [of _ "k + m"] conjI impI)
    show "read_pieces d (c # cs) = (take (k + m) (drop (md_offset d) (md_entry d)), d\<lparr>md_offset := md_offset d + (k + m)\<rparr>)"
      using rd m(1) k(1) take_drop_pieces [of k "md_offset d" "md_entry d" m] by (simp add: add.assoc)
    show "md_offset d + (k + m) \<le> length (md_entry d)" using m(2) by simp
    assume a: "(\<exists>x \<in> set (c # cs). x \<le> 0) \<or> int (length (md_entry d) - md_offset d) \<le> sum_list (c # cs)"
    show "md_offset d + (k + m) = length (md_entry d)"
    proof (cases "c > 0 \<and> nat c < length (md_entry d) - md_offset d")
      case True
      then have "k = nat c" using k(4) by simp
      with a True m(3) show ?thesis by (auto simp: algebra_simps)
    next
      case False
      then have "k = length (md_entry d) - md_offset d" using k(4) by auto
      with k(3) m(2) show ?thesis by simp
    qed
  qed
qed

text \<open>
  However a mounted directory is read, its entries come in their order, none twice and none left out: all of them once the numbers asked for
  add up to as many as there are, or one of the calls asks for all.
\<close>
theorem directory_read_in_pieces:
  assumes "mapDir_open (MountFS_Open m name) = Some d"
    and "(\<exists>c \<in> set cs. c \<le> 0) \<or> sum_list cs \<ge> int (length (md_entry d))"
  shows "MountFS_Open m name = Inr (Directory (Inr (fst (read_pieces d cs)))) \<and>
    mapDir_ReadDir (snd (read_pieces d cs)) 1 = (Inl EOF, snd (read_pieces d cs))"
proof -
  have d: "MountFS_Open m name = Inr (Directory (Inr (md_entry d)))" "md_offset d = 0"
    using assms(1) by (auto simp: mapDir_open_def split: sum.splits handle.splits)
  from read_pieces_prefix [of d cs] d(2) assms(2) obtain k where
    "read_pieces d cs = (take k (md_entry d), d\<lparr>md_offset := k\<rparr>)" "k = length (md_entry d)"
    by auto
  with d show ?thesis by (simp add: mapDir_ReadDir_def)
qed

theorem directory_read_in_pieces_witness:
  "MountFS_Open [(''b'', example_fs), (''a/c'', example_fs), (''d'', example_fs)] ''.'' =
    Inr (Directory (Inr (fst (read_pieces \<lparr>md_entry = [(''a'', True), (''b'', True), (''d'', True)], md_offset = 0\<rparr> [2, 5]))))"
proof -
  have "mapDir_open (MountFS_Open [(''b'', example_fs), (''a/c'', example_fs), (''d'', example_fs)] ''.'') =
      Some \<lparr>md_entry = [(''a'', True), (''b'', True), (''d'', True)], md_offset = 0\<rparr>"
    by code_simp
  from directory_read_in_pieces [OF this, of "[2, 5]"] show ?thesis by simp
qed

end
