(* ===== verification/Spec2Isabelle.thy ===== *)
theory Spec2Isabelle
  imports ConfigMerge Pool Service Migrations Pages Api AuthzCache DataSync GitSync Report Backtest Connect Lifecycle Loading Transforms EscapeFS
begin

text \<open>
  \<^bold>\<open>OPA Control Plane.\<close> The program keeps a configuration of bundles, stacks, sources and secrets, in files and in
  an SQL database behind an HTTP interface; a service synchronizes the sources of each bundle (Git, HTTP, S3, the database),
  builds the bundle with the policy engine and uploads it to an object store. Commands migrate a configuration from Styra DAS
  and check the migrated bundles. This development models the Go code under \<open>internal\<close>, \<open>pkg\<close> and \<open>cmd\<close> and proves what
  each part is for. Names of definitions are those of the source; a handler or loop that is cut into parts has a definition for each.

  \<^bold>\<open>Conventions.\<close> A pointer is an option, a struct a record, an error result the left of a sum, a string its bytes. Go maps
  whose iteration order shows are association lists; the other maps are finite maps, gone through in the order of keys where the source
  goes through them in any order. Effects are passed along explicitly: tables of rows, a tree of files, a trace of operations, the
  stored objects. Libraries and services that are not in the repository (the policy engine, SDKs, Git, the YAML and JSON
  decoders, drivers) are arguments, collected in records of the environment (\<open>store_env\<close>, \<open>db_env\<close>, \<open>secret_env\<close> and so on); what
  a property needs of them is among its assumptions and met by its witness.

  \<^bold>\<open>Foundations.\<close>
  \<^item> \<open>Prelude\<close>, \<open>Values\<close>, \<open>Paths\<close>: results, loops with early return, association lists, decoded values, and the paths of
    the standard library. Locales state the interfaces: \<open>go_equal\<close>, \<open>go_compare\<close>, \<open>go_keyed_equal\<close> and \<open>go_equal_view\<close> for Equal and Compare methods,
    \<open>deadline_sort\<close> for what the pool needs of sorting, \<open>migration_driver\<close> and \<open>pager\<close> for lists with cursors.
  \<^item> \<open>Util\<close> (\<open>internal/util\<close>).

  \<^bold>\<open>Configuration\<close> (\<open>internal/config\<close>, \<open>pkg/config\<close>).
  \<^item> \<open>Requirement\<close>, \<open>Selector\<close>, \<open>Config\<close>: the data, its Equal methods as equality of a view, selectors with their compiled patterns, validation.
  \<^item> \<open>ConfigRoot\<close>, \<open>TopoSort\<close>, \<open>ConfigMerge\<close>: the pass after decoding, sources in the order of their requirements, merging documents. \<open>Loading\<close>: from files to a valid configuration, and how its parts are written.
  \<^item> \<open>Secret\<close>, \<open>HttpSync\<close>: typed secrets, their expansion, clients and TLS settings (and AWS credentials, \<open>internal/aws\<close>).

  \<^bold>\<open>Service\<close> (\<open>pkg/service\<close>, \<open>pkg/builder\<close>, \<open>internal/pool\<close>, \<open>internal/fs\<close>).
  \<^item> \<open>Deps\<close>: \<open>getDeps\<close> reaches exactly the sources required, with overrides and conflicts.
  \<^item> \<open>Service\<close>, \<open>Revision\<close>, \<open>Lifecycle\<close>: launching and stopping workers as a refinement of what is promised for each bundle; the references and the value of revisions; initialization, readiness and the loop, with the \<open>build\<close> command (\<open>cmd/build\<close>) as a whole.
  \<^item> \<open>Worker\<close>: a run as a trace of calls, in order and up to the first failure; \<open>Pool\<close>: the queue under all interleavings.
  \<^item> \<open>Roots\<close>, \<open>Builder\<close>, \<open>FileSystem\<close>: the roots a source owns, collecting files through mounts, and views of trees of files; \<open>EscapeFS\<close>: names with colons, and directories listed in pieces; \<open>Transforms\<close>: data replaced by the values of queries.

  \<^bold>\<open>Synchronization and stores\<close> (\<open>internal/gitsync\<close>, \<open>internal/httpsync\<close>, \<open>internal/sqlsync\<close>, \<open>internal/s3\<close>).
  \<^item> \<open>GitSync\<close>, \<open>HttpSync\<close>, \<open>DataSync\<close>: what a synchronization leaves in the directory; \<open>ObjectStores\<close>: uploads, with the checks that skip them.

  \<^bold>\<open>Database and server\<close> (\<open>internal/database\<close>, \<open>internal/migrations\<close>, \<open>internal/authz\<close>, \<open>internal/server\<close>).
  \<^item> \<open>Schema\<close>, \<open>Migrations\<close>: both generations of tables, the copies between them, the check of versions. \<open>Connect\<close>: which database is connected to, and how.
  \<^item> \<open>Authz\<close>, \<open>AuthzCache\<close>: the policy, its partial evaluation as SQL, and the cache as a step relation of concurrent callers.
  \<^item> \<open>Store\<close>, \<open>Database\<close>: statements and transactions; \<open>Tenancy\<close>, \<open>Guards\<close>, \<open>Mounts\<close>: what a write may touch and what it stores.
  \<^item> \<open>Cursor\<close>, \<open>Listing\<close>, \<open>Pages\<close>: rows read back, pages, and that following the cursors reads everything.
  \<^item> \<open>Server\<close>, \<open>Api\<close>: routes, authentication and handlers, and what holds of every request.

  \<^bold>\<open>Commands\<close> (\<open>cmd/migrate\<close>, \<open>cmd/internal/das\<close>, \<open>cmd/backtest\<close>, \<open>cmd/compare\<close>).
  \<^item> \<open>Das\<close>, \<open>Fetch\<close>: requests with retries and the fetched state. \<open>LibraryTables\<close>, \<open>PackageIndex\<close>: the built-in libraries and the index of packages.
  \<^item> \<open>Policies\<close>, \<open>Migrate\<close>, \<open>MigrateLaws\<close>: policies, selectors and requirements of one system, stack or library. \<open>MigrateRun\<close>, \<open>MigrateReady\<close>: the run, and
    the invariant of its result. \<open>Prune\<close>, \<open>MigrateFiles\<close>, \<open>MigrateSplit\<close>, \<open>Report\<close>: what is kept, the files it is split into, the table at the end.
  \<^item> \<open>Backtest\<close>: logged decisions on a bundle, and two bundles compared.

  \<^bold>\<open>Fuel and bounds.\<close> The searches \<open>Visit\<close> (\<open>TopoSort\<close>), \<open>dfs\<close> (\<open>Prune\<close>) and \<open>merge\<close> (\<open>ConfigMerge\<close>) have fuel: one more than the
  number of sources, nodes, and the height of the documents; lemmas show that more does not change the answer or that the answer is never missing. The loops of
  \<open>Builder\<close> and \<open>Fetch\<close> may not end in the source (mounts along a cycle; packages that the server keeps naming): there
  fuel is an argument, and \<open>Builder.Build_terminates\<close> says when it is enough. \<open>getDeps\<close> ends because the unvisited sources decrease. Durations and
  counters of 64 bits are words where they can wrap (\<open>Backtest\<close>, \<open>Migrations\<close>); other integers are unbounded.

  \<^bold>\<open>Not modelled.\<close> The policy engine and its compiler; the decoding of YAML and JSON and the JSON schema; the migration library and the SQL engines beyond their statements;
  Git and SSH; token exchanges; metrics, logging, progress bars, tracing and command line flags; file handles that
  pass their calls on; files embedded in the binary.
\<close>

end
